(* ===== verification/Refusals.thy ===== *)
theory Refusals
  imports Main
begin

text \<open>
  The refusal vocabularies of the three packages. Every \<open>throw\<close> of the modelled code
  carries a stable machine code and a message; the message is prose for a log and never
  part of a decision, so a refusal is modelled by its error class and its code alone.

  \<^item> \<open>inventory_code\<close>: \<open>InventoryErrorCode\<close> of packages/inventory/src/errors.ts. A code
    \<open>inventory.x\<close> is the constructor \<open>x\<close>, any other \<open>d.x\<close> is \<open>d_x\<close>; the codes of the customer
    settlement, which the union repeats, are embedded by \<open>of_receivable\<close>.
  \<^item> \<open>receivable_code\<close>: \<open>ReceivableArithmeticCode\<close> of packages/inventory/src/customer-settlement.ts.
  \<^item> \<open>accounting_code\<close>: \<open>AccountingErrorCode\<close> of packages/accounting/src/errors.ts.
  \<^item> \<open>money_code\<close>: the codes of \<open>MoneyError\<close> of packages/domain-core/src/money.ts.
\<close>

datatype receivable_code =
    customer_payment_arithmetic_invalid
  | customer_payment_allocations_invalid
  | customer_payment_amount_invalid
  | customer_payment_amount_exceeds_outstanding
  | customer_payment_amount_below_base_unit
  | customer_payment_amount_mismatch
  | customer_payment_residue_below_base_unit
  | customer_payment_credit_below_base_unit
  | customer_credit_application_amount_invalid
  | customer_credit_application_amount_exceeds_outstanding
  | customer_credit_application_amount_below_base_unit
  | customer_credit_application_amount_mismatch
  | customer_credit_application_residue_below_base_unit
  | customer_credit_application_credit_exhausted
  | customer_credit_application_amount_exceeds_credit

datatype inventory_code =
    assertion_malformed
  | payload_invalid
  | quantity_invalid
  | cost_invalid
  | unit_decimals_invalid
  | quantity_precision_invalid
  | insufficient_stock
  | arithmetic_invalid
  | value_out_of_range
  | quantity_out_of_range
  | movement_shape_invalid
  | transfer_pair_mismatch
  | rebuild_sequence_invalid
  | duplicate_line
  | lines_required
  | unit_cost_required
  | opening_valuation_mismatch
  | allocation_invalid
  | reason_required
  | deficit_state_invalid
  | purchase_landed_cost_denominator_zero
  | purchase_landed_cost_allocation_mismatch
  | purchase_landed_cost_invalid
  | purchase_discount_invalid
  | purchase_total_zero
  | supplier_return_quantity_exceeds_purchased
  | supplier_return_value_zero
  | supplier_return_amount_below_base_unit
  | payment_method_name_required
  | payment_method_name_invalid
  | supplier_payment_allocations_invalid
  | supplier_payment_amount_exceeds_outstanding
  | supplier_payment_amount_mismatch
  | supplier_payment_amount_below_base_unit
  | supplier_payment_residue_below_base_unit
  | supplier_payment_settlement_inconsistent
  | supplier_credit_allocation_amount_exceeds_outstanding
  | supplier_credit_allocation_amount_exceeds_credit
  | supplier_credit_allocation_credit_exhausted
  | supplier_credit_allocation_amount_mismatch
  | supplier_credit_allocation_amount_below_base_unit
  | supplier_credit_allocation_residue_below_base_unit
  | supplier_refund_amount_exceeds_credit
  | supplier_refund_credit_exhausted
  | supplier_refund_amount_mismatch
  | supplier_refund_amount_below_base_unit
  | supplier_refund_residue_below_base_unit
  | supplier_credit_note_consumption_inconsistent
  | sale_tax_policy_absent
  | sale_total_zero
  | of_receivable receivable_code

datatype accounting_code =
    accounting_assertion_missing
  | accounting_assertion_malformed
  | accounting_assertion_key_unknown
  | accounting_assertion_invalid_signature
  | accounting_assertion_expired
  | accounting_assertion_replayed
  | accounting_assertion_wrong_operation
  | accounting_assertion_payload_mismatch
  | accounting_assertion_key_conflict
  | accounting_forbidden
  | accounting_branch_scope_violation
  | accounting_payload_invalid
  | accounting_payload_unknown_field
  | accounting_payload_missing_field
  | accounting_account_not_found
  | accounting_account_inactive
  | accounting_account_foreign_business
  | accounting_system_account_missing
  | accounting_account_identity_locked
  | accounting_entry_date_required
  | accounting_entry_date_in_future
  | accounting_entry_date_before_original
  | accounting_idempotency_conflict
  | accounting_assertion_wrong_source
  | accounting_adjustment_reason_required
  | accounting_reversal_reason_required
  | accounting_reversal_exists
  | accounting_reversal_of_reversal
  | accounting_adjustment_detail_missing
  | accounting_reversal_detail_missing
  | accounting_entry_not_found
  | accounting_entry_base_currency_mismatch
  | accounting_opening_balance_exists
  | accounting_opening_balance_state_invalid
  | accounting_opening_balance_detail_missing
  | accounting_supersede_without_reversal
  | accounting_source_immutable
  | accounting_fx_rate_invalid
  | accounting_fx_rate_missing
  | accounting_fx_rate_conflict
  | accounting_fx_rate_immutable
  | accounting_fx_same_currency
  | accounting_fx_currency_unknown
  | accounting_fx_effective_at_required
  | accounting_fx_effective_at_precision
  | accounting_rounding_residual_unbounded
  | accounting_period_not_found
  | accounting_period_range_invalid
  | accounting_period_overlap
  | accounting_period_not_contiguous
  | accounting_period_not_open
  | accounting_period_not_closed
  | accounting_period_closed
  | accounting_period_missing_for_date
  | accounting_period_reopen_reason_required
  | accounting_period_immutable
  | accounting_period_extension_missing
  | accounting_report_unbalanced
  | accounting_report_range_invalid
  | accounting_report_range_ambiguous
  | accounting_report_cursor_invalid
  | accounting_report_scope_invalid
  | accounting_report_scope_required
  | accounting_report_amount_invalid
  | accounting_sales_tax_unsupported

datatype money_code =
    CURRENCY_MISMATCH
  | NEGATIVE_NOT_ALLOWED
  | INVALID_AMOUNT
  | UNSAFE_NUMBER
  | FRACTIONAL_FACTOR
  | PRECISION_OVERFLOW

text \<open>
  One type for what a modelled function may throw. The two exceptions are those of the HTTP
  framework that the services raise; \<open>AppError\<close> is the error of the API with its stable code,
  a text the HTTP filter maps to a response. \<open>Thrown_Error\<close> is a plain
  \<open>throw new Error(...)\<close>: a defect assertion with no code, which a theorem
  should show to be unreachable.
\<close>

datatype refusal =
    InventoryError inventory_code
  | ReceivableArithmeticError receivable_code
  | AccountingError accounting_code
  | MoneyError money_code
  | CurrencyError_UNSUPPORTED_CURRENCY
  | ForbiddenException
  | NotFoundException
  | AppError string
  | Thrown_Error

type_synonym 'a result = "refusal + 'a"

abbreviation refuse :: "refusal \<Rightarrow> 'a result" where
  "refuse e \<equiv> Inl e"

end
