(* ===== verification/Prelude.thy ===== *)
theory Prelude
  imports Main Refusals "HOL-Library.Signed_Division"
begin

text \<open>
  What every component shares: sequencing of fallible steps, \<open>bigint\<close> division,
  sums over lists, and the collections that carry the component proofs.

  A statement \<open>const y = f(x); rest\<close> of the source, where \<open>f\<close> may throw, is
  \<open>bindR (f x) (\<lambda>y. rest)\<close>; a guard \<open>if (c) refuse(e); rest\<close> is
  \<open>if c then refuse e else rest\<close>. The collection \<open>result_simps\<close> inverts both
  against a known outcome, so that \<open>auto simp: result_simps\<close> walks a function body.
\<close>

named_theorems result_simps "inversion of sequenced fallible steps"

subsection \<open>Fallible steps\<close>

definition bindR :: "'a result \<Rightarrow> ('a \<Rightarrow> 'b result) \<Rightarrow> 'b result" where
  "bindR m f = (case m of Inl e \<Rightarrow> Inl e | Inr a \<Rightarrow> f a)"

lemma bindR_simps [simp]:
  "bindR (Inl e) f = Inl e" "bindR (Inr a) f = f a"
  by (simp_all add: bindR_def)

lemma bindR_eq_Inr [result_simps]: "bindR m f = Inr b \<longleftrightarrow> (\<exists>a. m = Inr a \<and> f a = Inr b)"
  by (cases m) auto

lemma bindR_eq_Inl: "bindR m f = Inl e \<longleftrightarrow> m = Inl e \<or> (\<exists>a. m = Inr a \<and> f a = Inl e)"
  by (cases m) auto

lemma if_refuse_eq_Inr [result_simps]:
  "(if c then Inl e else m) = Inr b \<longleftrightarrow> \<not> c \<and> m = Inr b"
  "(if c then m else Inl e) = Inr b \<longleftrightarrow> c \<and> m = Inr b"
  by auto

lemma bindR_cong [fundef_cong]:
  "m = m' \<Longrightarrow> (\<And>a. m' = Inr a \<Longrightarrow> f a = g a) \<Longrightarrow> bindR m f = bindR m' g"
  by (cases m') auto

text \<open>\<open>xs.map(f)\<close> where \<open>f\<close> may throw: left to right, the first refusal ends it.\<close>

fun mapR :: "('a \<Rightarrow> 'b result) \<Rightarrow> 'a list \<Rightarrow> 'b list result" where
  "mapR f [] = Inr []"
| "mapR f (x # xs) = bindR (f x) (\<lambda>y. bindR (mapR f xs) (\<lambda>ys. Inr (y # ys)))"

lemma mapR_eq_Inr_iff:
  "mapR f xs = Inr ys \<longleftrightarrow> list_all2 (\<lambda>x y. f x = Inr y) xs ys"
proof (induction xs arbitrary: ys)
  case Nil
  then show ?case by auto
next
  case (Cons x xs)
  then show ?case by (cases ys) (auto simp: bindR_eq_Inr)
qed

lemma mapR_eq_map: "mapR f xs = Inr ys \<longleftrightarrow> map f xs = map Inr ys"
  by (auto simp: mapR_eq_Inr_iff list_all2_conv_all_nth list_eq_iff_nth_eq)

lemma mapR_length: "mapR f xs = Inr ys \<Longrightarrow> length ys = length xs"
  by (auto simp: mapR_eq_Inr_iff dest: list_all2_lengthD)

lemma mapR_nth: "mapR f xs = Inr ys \<Longrightarrow> i < length xs \<Longrightarrow> f (xs ! i) = Inr (ys ! i)"
  by (auto simp: mapR_eq_Inr_iff dest: list_all2_nthD)

lemma mapR_set: "mapR f xs = Inr ys \<Longrightarrow> y \<in> set ys \<Longrightarrow> \<exists>x \<in> set xs. f x = Inr y"
  by (metis in_set_conv_nth mapR_length mapR_nth)

lemma mapR_total: "(\<And>x. x \<in> set xs \<Longrightarrow> f x = Inr (g x)) \<Longrightarrow> mapR f xs = Inr (map g xs)"
  by (induction xs) auto

lemma mapR_Inl: "mapR f xs = Inl e \<Longrightarrow> \<exists>x \<in> set xs. f x = Inl e"
  by (induction xs) (auto simp: bindR_eq_Inl)

subsection \<open>Runs of a fallible step\<close>

fun runR :: "('s \<Rightarrow> 'e \<Rightarrow> 's result) \<Rightarrow> 's \<Rightarrow> 'e list \<Rightarrow> 's result" where
  "runR step s [] = Inr s"
| "runR step s (e # es) = bindR (step s e) (\<lambda>s'. runR step s' es)"

lemma runR_append: "runR step s (xs @ ys) = bindR (runR step s xs) (\<lambda>s'. runR step s' ys)"
proof (induction xs arbitrary: s)
  case (Cons x xs)
  then show ?case by (cases "step s x") simp_all
qed simp

text \<open>An invariant every successful step keeps is kept by every successful run.\<close>

locale preserved =
  fixes step :: "'s \<Rightarrow> 'e \<Rightarrow> 's result" and inv :: "'s \<Rightarrow> bool"
  assumes step_inv: "inv s \<Longrightarrow> step s e = Inr s' \<Longrightarrow> inv s'"
begin

lemma run_inv: "inv s \<Longrightarrow> runR step s es = Inr s' \<Longrightarrow> inv s'"
  by (induction es arbitrary: s) (auto simp: bindR_eq_Inr dest: step_inv)

end

subsection \<open>\<open>bigint\<close> division\<close>

text \<open>\<open>a / b\<close> and \<open>a % b\<close> on \<open>bigint\<close> truncate towards zero: \<open>sdiv\<close> and \<open>smod\<close>.\<close>

lemma sdiv_nonneg [simp]: "0 \<le> a \<Longrightarrow> 0 \<le> b \<Longrightarrow> a sdiv b = a div (b::int)"
  by (cases "a = 0"; cases "b = 0") (auto simp: signed_divide_int_def)

lemma smod_nonneg [simp]: "0 \<le> a \<Longrightarrow> 0 \<le> b \<Longrightarrow> a smod b = a mod (b::int)"
  by (cases "a = 0") (auto simp: signed_modulo_int_def sgn_if)

lemma base_step:
  assumes "x * k + b = y * k + (c :: int)" "0 \<le> b" "b < k" "0 \<le> c" "c < k" shows "x = y \<and> b = c"
proof -
  have "b = (x * k + b) mod k" using assms(2,3) by simp
  also have "\<dots> = c" unfolding assms(1) using assms(4,5) by simp
  finally show ?thesis using assms by simp
qed

subsection \<open>Sums over lists\<close>

lemma sum_list_nonneg_int: "(\<And>x. x \<in> set xs \<Longrightarrow> 0 \<le> x) \<Longrightarrow> 0 \<le> sum_list (xs :: int list)"
  by (induction xs) auto

lemma member_le_sum_list_int:
  "(\<And>x. x \<in> set xs \<Longrightarrow> 0 \<le> x) \<Longrightarrow> y \<in> set xs \<Longrightarrow> y \<le> sum_list (xs :: int list)"
proof (induction xs)
  case (Cons x xs)
  then have "0 \<le> sum_list xs" "0 \<le> x" by (auto intro: sum_list_nonneg_int)
  with Cons show ?case by fastforce
qed simp

lemma foldl_plus_sum_list: "foldl (+) (a::int) xs = a + sum_list xs"
  by (induction xs arbitrary: a) auto

lemma foldl_plus_map: "foldl (\<lambda>a x. a + f x) (k::int) xs = k + sum_list (map f xs)"
  by (induction xs arbitrary: k) auto

lemma sum_list_update_int:
  "i < length xs \<Longrightarrow> sum_list (xs[i := v]) = sum_list xs - xs ! i + (v::int)"
  by (induction xs arbitrary: i) (auto split: nat.splits)

lemma sum_list_map_minus: "sum_list (map (\<lambda>x. f x - g x) xs) = sum_list (map f xs) - (sum_list (map g xs) :: int)"
  by (induction xs) auto

end
