(* ===== verification/Ascii_Text.thy ===== *)
theory Ascii_Text
  imports Complex_Main Prelude
begin

text \<open>
  Text and number primitives of the language that the modelled code calls: digits and
  \<open>BigInt(text)\<close>, \<open>padStart\<close> and \<open>padEnd\<close>, \<open>trim\<close>, \<open>toUpperCase\<close> and \<open>toLowerCase\<close>,
  \<open>split\<close> and \<open>join\<close>, and \<open>number\<close> where a caller may pass one.

  Text is a list of characters, one per code unit; the letter case and the digit classes
  are those of ASCII text, the only text the modelled patterns accept. A value outside
  ASCII is not modelled.
\<close>

subsection \<open>Digits\<close>

definition is_digit :: "char \<Rightarrow> bool" where
  "is_digit c \<longleftrightarrow> 48 \<le> (of_char c :: nat) \<and> (of_char c :: nat) \<le> 57"

definition digit_val :: "char \<Rightarrow> int" where
  "digit_val c = int (of_char c) - 48"

definition digit :: "nat \<Rightarrow> char" where
  "digit n = char_of (48 + n)"

text \<open>\<open>BigInt(text)\<close> on digit text, and \<open>toString\<close> of a non-negative \<open>bigint\<close>.\<close>

definition digits_int :: "string \<Rightarrow> int" where
  "digits_int ds = foldl (\<lambda>a c. 10 * a + digit_val c) 0 ds"

fun nat_string :: "nat \<Rightarrow> string" where
  "nat_string n = (if n < 10 then [digit n] else nat_string (n div 10) @ [digit (n mod 10)])"

declare nat_string.simps [simp del]

definition padStart :: "nat \<Rightarrow> string \<Rightarrow> string" where
  "padStart k s = replicate (k - length s) (CHR ''0'') @ s"

definition padEnd :: "nat \<Rightarrow> string \<Rightarrow> string" where
  "padEnd k s = s @ replicate (k - length s) (CHR ''0'')"

lemma digit_simps [simp]: "n < 10 \<Longrightarrow> is_digit (digit n)" "n < 10 \<Longrightarrow> digit_val (digit n) = int n"
  "is_digit (CHR ''0'')" "digit_val (CHR ''0'') = 0" "\<not> is_digit (CHR ''-'')" "\<not> is_digit (CHR ''.'')"
  by (auto simp: is_digit_def digit_val_def digit_def)

lemma digit_inject_0: "n < 10 \<Longrightarrow> digit n = CHR ''0'' \<longleftrightarrow> n = 0"
proof
  assume "n < 10" "digit n = CHR ''0''"
  then show "n = 0" using digit_simps(2) [of n] by simp
next
  assume "n = 0"
  then show "digit n = CHR ''0''" by (simp add: digit_def char_of_def bit_simps)
qed

lemma digits_int_append: "digits_int (xs @ [c]) = 10 * digits_int xs + digit_val c"
  by (simp add: digits_int_def)

lemma digits_int_Nil [simp]: "digits_int [] = 0"
  by (simp add: digits_int_def)

lemma digits_int_zeros [simp]: "digits_int (replicate k (CHR ''0'') @ s) = digits_int s"
  by (induction k) (simp_all add: digits_int_def)

lemma nat_string_digits: "list_all is_digit (nat_string n)"
  by (induction n rule: nat_string.induct) (subst nat_string.simps, auto)

lemma nat_string_nonempty [simp]: "nat_string n \<noteq> []"
  by (subst nat_string.simps) simp

lemma digits_int_nat_string [simp]: "digits_int (nat_string n) = int n"
proof (induction n rule: nat_string.induct)
  case (1 n)
  show ?case
  proof (cases "n < 10")
    case False
    then have "digits_int (nat_string (n div 10)) = int (n div 10)" using 1 by simp
    with False show ?thesis
      by (subst nat_string.simps) (simp add: digits_int_append zdiv_int zmod_int)
  qed (subst nat_string.simps, simp add: digits_int_def)
qed

lemma hd_nat_string: "0 < n \<Longrightarrow> hd (nat_string n) \<noteq> CHR ''0''"
proof (induction n rule: nat_string.induct)
  case (1 n)
  then show ?case
    by (subst nat_string.simps) (auto simp: digit_inject_0 hd_append)
qed

lemma length_nat_string_1: "nat_string 0 = ''0''"
  by (subst nat_string.simps) (simp add: digit_inject_0)

definition strip_minus :: "string \<Rightarrow> bool \<times> string" where
  "strip_minus t = (case t of [] \<Rightarrow> (False, []) | c # r \<Rightarrow> if c = CHR ''-'' then (True, r) else (False, t))"

lemma digits_int_padEnd: "digits_int (w @ padEnd k f) = digits_int (w @ f) * 10 ^ (k - length f)"
proof -
  have "digits_int (s @ replicate m (CHR ''0'')) = digits_int s * 10 ^ m" for s m
  proof (induction m)
    case (Suc m)
    have "digits_int (s @ replicate (Suc m) (CHR ''0'')) = digits_int ((s @ replicate m (CHR ''0'')) @ [CHR ''0''])"
      by (simp add: replicate_append_same)
    also have "\<dots> = 10 * digits_int (s @ replicate m (CHR ''0''))"
      by (subst digits_int_append) simp
    finally show ?case by (simp add: Suc)
  qed simp
  from this [of "w @ f" "k - length f"] show ?thesis by (simp add: padEnd_def)
qed

lemma digits_int_concat: "digits_int (w @ f) = digits_int w * 10 ^ length f + digits_int f"
proof (induction f rule: rev_induct)
  case (snoc c f)
  then show ?case using digits_int_append [of "w @ f" c] digits_int_append [of f c] by (simp add: algebra_simps)
qed simp

lemma digits_int_nonneg: "list_all is_digit s \<Longrightarrow> 0 \<le> digits_int s"
proof (induction s rule: rev_induct)
  case (snoc c s)
  then show ?case by (simp add: digits_int_append digit_val_def is_digit_def)
qed simp

text \<open>\<open>toString\<close> of a \<open>bigint\<close>, and \<open>BigInt(text)\<close> on signed digit text.\<close>

definition int_string :: "int \<Rightarrow> string" where
  "int_string v = (if v < 0 then CHR ''-'' # nat_string (nat (- v)) else nat_string (nat v))"

definition signed_digits :: "string \<Rightarrow> int option" where
  "signed_digits t = (let (negative, ds) = strip_minus t
     in if ds = [] \<or> \<not> list_all is_digit ds then None
        else Some (if negative then - digits_int ds else digits_int ds))"

lemma strip_minus_simps [simp]:
  "strip_minus (CHR ''-'' # r) = (True, r)"
  "w \<noteq> [] \<Longrightarrow> list_all is_digit w \<Longrightarrow> strip_minus (w @ r) = (False, w @ r)"
  "w \<noteq> [] \<Longrightarrow> list_all is_digit w \<Longrightarrow> strip_minus w = (False, w)"
  by (cases w; force simp: strip_minus_def)+

lemma signed_digits_int_string [simp]: "signed_digits (int_string v) = Some v"
  by (cases "v < 0") (simp_all add: signed_digits_def int_string_def nat_string_digits)

subsection \<open>White space and letter case\<close>

text \<open>The white space \<open>trim\<close> removes: tab, line feed, vertical tab, form feed, carriage return, space.\<close>

definition is_space :: "char \<Rightarrow> bool" where
  "is_space c \<longleftrightarrow> (of_char c :: nat) = 32 \<or> 9 \<le> (of_char c :: nat) \<and> (of_char c :: nat) \<le> 13"

definition trim :: "string \<Rightarrow> string" where
  "trim s = rev (dropWhile is_space (rev (dropWhile is_space s)))"

definition is_lower :: "char \<Rightarrow> bool" where
  "is_lower c \<longleftrightarrow> 97 \<le> (of_char c :: nat) \<and> (of_char c :: nat) \<le> 122"

definition is_upper :: "char \<Rightarrow> bool" where
  "is_upper c \<longleftrightarrow> 65 \<le> (of_char c :: nat) \<and> (of_char c :: nat) \<le> 90"

definition upper_char :: "char \<Rightarrow> char" where
  "upper_char c = (if is_lower c then char_of ((of_char c :: nat) - 32) else c)"

definition lower_char :: "char \<Rightarrow> char" where
  "lower_char c = (if is_upper c then char_of ((of_char c :: nat) + 32) else c)"

definition toUpperCase :: "string \<Rightarrow> string" where "toUpperCase = map upper_char"
definition toLowerCase :: "string \<Rightarrow> string" where "toLowerCase = map lower_char"

lemma dropWhile_hd: "xs = [] \<or> \<not> P (hd xs) \<Longrightarrow> dropWhile P xs = xs"
  by (cases xs) auto

lemma trim_id: "s = [] \<or> \<not> is_space (hd s) \<and> \<not> is_space (last s) \<Longrightarrow> trim s = s"
  by (cases "s = []") (simp_all add: trim_def dropWhile_hd hd_rev)

lemma trim_solid: "list_all (\<lambda>c. \<not> is_space c) s \<Longrightarrow> trim s = s"
  by (rule trim_id) (auto simp: list_all_iff)

lemma of_char_upper [simp]: "(of_char (upper_char c) :: nat) = (if is_lower c then of_char c - 32 else of_char c)"
  by (auto simp: upper_char_def is_lower_def)

lemma of_char_lower [simp]: "(of_char (lower_char c) :: nat) = (if is_upper c then of_char c + 32 else of_char c)"
  by (auto simp: lower_char_def is_upper_def)

lemma upper_char_idem [simp]: "upper_char (upper_char c) = upper_char c"
  by (subst upper_char_def) (auto simp: is_lower_def)

lemma lower_char_idem [simp]: "lower_char (lower_char c) = lower_char c"
  by (subst lower_char_def) (auto simp: is_upper_def)

lemma toUpperCase_idem [simp]: "toUpperCase (toUpperCase s) = toUpperCase s"
  by (simp add: toUpperCase_def)

lemma toLowerCase_idem [simp]: "toLowerCase (toLowerCase s) = toLowerCase s"
  by (simp add: toLowerCase_def)

lemma toUpperCase_length [simp]: "length (toUpperCase s) = length s" "length (toLowerCase s) = length s"
  by (simp_all add: toUpperCase_def toLowerCase_def)

lemma digit_not_space: "is_digit c \<Longrightarrow> \<not> is_space c"
  by (auto simp: is_digit_def is_space_def)

lemma digits_solid: "list_all is_digit s \<Longrightarrow> list_all (\<lambda>c. \<not> is_space c) s"
  by (induction s) (auto dest: digit_not_space)

lemma nat_string_solid: "list_all (\<lambda>c. \<not> is_space c) (nat_string n)"
  by (intro digits_solid nat_string_digits)

lemma int_string_solid: "list_all (\<lambda>c. \<not> is_space c) (int_string v)"
  by (simp add: int_string_def nat_string_solid) (simp add: is_space_def)

lemma trim_int_string [simp]: "trim (int_string v) = int_string v"
  by (intro trim_solid int_string_solid)

subsection \<open>Splitting\<close>

text \<open>\<open>text.split(sep)\<close> for a separator of one character.\<close>

fun splitOn :: "char \<Rightarrow> string \<Rightarrow> string list" where
  "splitOn sep [] = [[]]"
| "splitOn sep (c # cs) =
     (if c = sep then [] # splitOn sep cs
      else case splitOn sep cs of [] \<Rightarrow> [[c]] | s # ss \<Rightarrow> (c # s) # ss)"

lemma splitOn_nonempty [simp]: "splitOn sep s \<noteq> []"
  by (induction s) (auto split: list.splits)

lemma splitOn_solid: "sep \<notin> set s \<Longrightarrow> splitOn sep s = [s]"
  by (induction s) auto

lemma splitOn_cut: "sep \<notin> set s \<Longrightarrow> splitOn sep (s @ sep # r) = s # splitOn sep r"
  by (induction s) auto

subsection \<open>Evaluation\<close>

text \<open>
  Code equations that read a character's bits and an integer's digits without a detour
  through the natural numbers.
\<close>

lemma is_digit_code [code]:
  "is_digit (Char b0 b1 b2 b3 b4 b5 b6 b7) \<longleftrightarrow> \<not> b7 \<and> \<not> b6 \<and> b5 \<and> b4 \<and> (\<not> b3 \<or> \<not> b2 \<and> \<not> b1)"
  by (cases b0; cases b1; cases b2; cases b3; cases b4; cases b5; cases b6; cases b7; simp add: is_digit_def)

lemma is_lower_code [code]:
  "is_lower (Char b0 b1 b2 b3 b4 b5 b6 b7) \<longleftrightarrow> \<not> b7 \<and> b6 \<and> b5 \<and> (b0 \<or> b1 \<or> b2 \<or> b3 \<or> b4)
     \<and> (\<not> b4 \<or> \<not> b3 \<or> \<not> b2 \<and> (\<not> b1 \<or> \<not> b0))"
  by (cases b0; cases b1; cases b2; cases b3; cases b4; cases b5; cases b6; cases b7; simp add: is_lower_def)

lemma is_upper_code [code]:
  "is_upper (Char b0 b1 b2 b3 b4 b5 b6 b7) \<longleftrightarrow> \<not> b7 \<and> b6 \<and> \<not> b5 \<and> (b0 \<or> b1 \<or> b2 \<or> b3 \<or> b4)
     \<and> (\<not> b4 \<or> \<not> b3 \<or> \<not> b2 \<and> (\<not> b1 \<or> \<not> b0))"
  by (cases b0; cases b1; cases b2; cases b3; cases b4; cases b5; cases b6; cases b7; simp add: is_upper_def)

lemma is_space_code [code]:
  "is_space (Char b0 b1 b2 b3 b4 b5 b6 b7) \<longleftrightarrow> \<not> b7 \<and> \<not> b6 \<and> \<not> b4
     \<and> (if b5 then \<not> b3 \<and> \<not> b2 \<and> \<not> b1 \<and> \<not> b0 else b3 \<and> (if b2 then \<not> b1 else b1 \<or> b0))"
  by (cases b0; cases b1; cases b2; cases b3; cases b4; cases b5; cases b6; cases b7; simp add: is_space_def)

lemma upper_char_code [code]:
  "upper_char (Char b0 b1 b2 b3 b4 b5 b6 b7) = (if is_lower (Char b0 b1 b2 b3 b4 b5 b6 b7)
     then Char b0 b1 b2 b3 b4 False b6 b7 else Char b0 b1 b2 b3 b4 b5 b6 b7)"
  unfolding of_char_eq_iff [where 'a = nat, symmetric]
  by (cases b0; cases b1; cases b2; cases b3; cases b4; cases b5; cases b6; cases b7; simp add: is_lower_def)

lemma lower_char_code [code]:
  "lower_char (Char b0 b1 b2 b3 b4 b5 b6 b7) = (if is_upper (Char b0 b1 b2 b3 b4 b5 b6 b7)
     then Char b0 b1 b2 b3 b4 True b6 b7 else Char b0 b1 b2 b3 b4 b5 b6 b7)"
  unfolding of_char_eq_iff [where 'a = nat, symmetric]
  by (cases b0; cases b1; cases b2; cases b3; cases b4; cases b5; cases b6; cases b7; simp add: is_upper_def)

lemma digit_val_code [code]:
  "digit_val (Char b0 b1 b2 b3 b4 b5 b6 b7) = (if b0 then 1 else 0) + (if b1 then 2 else 0) + (if b2 then 4 else 0)
     + (if b3 then 8 else 0) + (if b4 then 16 else 0) + (if b5 then 32 else 0) + (if b6 then 64 else 0)
     + (if b7 then 128 else 0) - 48"
  by (cases b0; cases b1; cases b2; cases b3; cases b4; cases b5; cases b6; cases b7; simp add: digit_val_def)

definition int_digits :: "int \<Rightarrow> string" where
  "int_digits k = nat_string (nat k)"

lemma nat_string_nat [code_unfold]: "nat_string (nat k) = int_digits k"
  by (simp add: int_digits_def)

definition int_digit :: "int \<Rightarrow> char" where
  "int_digit k = digit (nat k)"

lemma int_digit_code [code]:
  "int_digit k = (if k = 1 then CHR ''1'' else if k = 2 then CHR ''2'' else if k = 3 then CHR ''3''
     else if k = 4 then CHR ''4'' else if k = 5 then CHR ''5'' else if k = 6 then CHR ''6''
     else if k = 7 then CHR ''7'' else if k = 8 then CHR ''8'' else if k = 9 then CHR ''9''
     else if k \<le> 0 then CHR ''0'' else digit (nat k))"
  by (simp add: int_digit_def digit_def char_of_def bit_simps)

lemma int_digits_code [code]:
  "int_digits k = (if k < 10 then [int_digit k] else int_digits (k div 10) @ [int_digit (k mod 10)])"
  unfolding int_digits_def int_digit_def
  by (subst nat_string.simps) (auto simp: nat_div_distrib nat_mod_distrib)

subsection \<open>Numbers\<close>

text \<open>
  A \<open>number\<close> is a double: a rational, or one of the infinities and NaN. \<open>isSafeInteger\<close>
  admits the integers every one of which a double holds exactly.
\<close>

datatype JsNumber = Finite rat | NonFinite

definition MAX_SAFE_INTEGER :: int where "MAX_SAFE_INTEGER = 2 ^ 53 - 1"

definition isSafeInteger :: "JsNumber \<Rightarrow> bool" where
  "isSafeInteger n = (case n of Finite q \<Rightarrow> of_int \<lfloor>q\<rfloor> = q \<and> \<bar>\<lfloor>q\<rfloor>\<bar> \<le> MAX_SAFE_INTEGER | NonFinite \<Rightarrow> False)"

definition number_int :: "JsNumber \<Rightarrow> int" where
  "number_int n = (case n of Finite q \<Rightarrow> \<lfloor>q\<rfloor> | NonFinite \<Rightarrow> 0)"

end
