(* ===== verification/Fixed_Point.thy ===== *)
theory Fixed_Point
  imports Ascii_Text
begin

text \<open>
  packages/inventory/src/fixed-point.ts: quantities in Q4, unit costs in C10 and values in
  minor units, each an exact \<open>bigint\<close> (here \<open>int\<close>), with the text codecs of the three.

  Text is a list of characters. The two regular expressions admit ASCII characters only,
  so a code unit above 255, which \<open>char\<close> cannot hold, would be refused like any other
  character outside the pattern. \<open>typeof\<close> tests are discharged by the types.

  The lemmas show that formatting and parsing are inverse on the admitted range, that
  parsing is total, and that what it accepts lies in the range.
\<close>

subsection \<open>Scales and bounds\<close>

definition QTY_SCALE :: nat where "QTY_SCALE = 4"
definition COST_SCALE :: nat where "COST_SCALE = 10"
definition QTY_LIMIT_Q4 :: int where "QTY_LIMIT_Q4 = 10 ^ 14"
definition QTY_DOMAIN_Q4 :: int where "QTY_DOMAIN_Q4 = 10 ^ 18"
definition VALUE_LIMIT_MINOR :: int where "VALUE_LIMIT_MINOR = 10 ^ 18"
definition COST_LIMIT_C10 :: int where "COST_LIMIT_C10 = 10 ^ 28"

lemmas limits = QTY_LIMIT_Q4_def QTY_DOMAIN_Q4_def VALUE_LIMIT_MINOR_def COST_LIMIT_C10_def

lemma limits_pos [simp]:
  "0 < QTY_LIMIT_Q4" "0 < QTY_DOMAIN_Q4" "0 < VALUE_LIMIT_MINOR" "0 < COST_LIMIT_C10"
  by (simp_all add: limits)

text \<open>An exact decimal \<open>units * 10^-scale\<close>; \<open>scale\<close> is a JavaScript integer.\<close>

record ExactDecimal =
  ed_units :: int
  ed_scale :: int

definition absBig :: "int \<Rightarrow> int" where
  "absBig v = (if v < 0 then - v else v)"

lemma absBig_abs [simp]: "absBig v = \<bar>v\<bar>"
  by (simp add: absBig_def)

subsection \<open>Parsing\<close>

text \<open>\<open>DECIMAL_RE = /^(-?)(0|[1-9][0-9]*)(?:\.([0-9]+))?$/\<close>, as sign, whole and fraction digits.\<close>

definition whole_ok :: "string \<Rightarrow> bool" where
  "whole_ok w \<longleftrightarrow> w = ''0'' \<or> (w \<noteq> [] \<and> hd w \<noteq> CHR ''0'')"

definition splitDecimal :: "string \<Rightarrow> (bool \<times> string \<times> string) option" where
  "splitDecimal t =
     (let (negative, r) = strip_minus t;
          whole = takeWhile is_digit r;
          rest = dropWhile is_digit r
      in if \<not> whole_ok whole then None
         else case rest of
           [] \<Rightarrow> Some (negative, whole, [])
         | c # fraction \<Rightarrow>
             if c = CHR ''.'' \<and> fraction \<noteq> [] \<and> list_all is_digit fraction
             then Some (negative, whole, fraction) else None)"

definition parseDecimal :: "string \<Rightarrow> ExactDecimal result" where
  "parseDecimal t = (case splitDecimal t of
       None \<Rightarrow> refuse (InventoryError arithmetic_invalid)
     | Some (negative, whole, fraction) \<Rightarrow>
         let magnitude = digits_int (whole @ fraction)
         in Inr \<lparr>ed_units = (if negative then - magnitude else magnitude), ed_scale = int (length fraction)\<rparr>)"

definition rescaleDecimal :: "string \<Rightarrow> nat \<Rightarrow> int option" where
  "rescaleDecimal t sc = (case splitDecimal t of
       None \<Rightarrow> None
     | Some (negative, whole, fraction) \<Rightarrow>
         if sc < length fraction then None
         else let magnitude = digits_int (whole @ padEnd sc fraction)
              in Some (if negative then - magnitude else magnitude))"

definition parseQuantity :: "string \<Rightarrow> int result" where
  "parseQuantity t = (case rescaleDecimal t QTY_SCALE of
       None \<Rightarrow> refuse (InventoryError quantity_invalid)
     | Some q4 \<Rightarrow> if QTY_DOMAIN_Q4 \<le> absBig q4 then refuse (InventoryError quantity_invalid) else Inr q4)"

definition parseUnitCost :: "string \<Rightarrow> int result" where
  "parseUnitCost t = (case rescaleDecimal t COST_SCALE of
       None \<Rightarrow> refuse (InventoryError cost_invalid)
     | Some c10 \<Rightarrow> if c10 < 0 \<or> COST_LIMIT_C10 \<le> c10 then refuse (InventoryError cost_invalid) else Inr c10)"

text \<open>\<open>INTEGER_RE = /^-?(0|[1-9][0-9]*)$/\<close>.\<close>

definition parseMinor :: "string \<Rightarrow> int result" where
  "parseMinor t =
     (let (negative, r) = strip_minus t
      in if \<not> (list_all is_digit r \<and> whole_ok r) then refuse (InventoryError value_out_of_range)
         else let v = (if negative then - digits_int r else digits_int r)
              in if VALUE_LIMIT_MINOR < absBig v then refuse (InventoryError value_out_of_range) else Inr v)"

subsection \<open>Formatting\<close>

definition formatFixed :: "int \<Rightarrow> nat \<Rightarrow> string" where
  "formatFixed u sc =
     (let negative = u < 0;
          digits = padStart (sc + 1) (nat_string (nat (absBig u)));
          whole = take (length digits - sc) digits;
          fraction = drop (length digits - sc) digits
      in (if negative then ''-'' else []) @ whole @ (if 0 < sc then CHR ''.'' # fraction else []))"

definition formatQuantity :: "int \<Rightarrow> string" where
  "formatQuantity q4 = formatFixed q4 QTY_SCALE"

definition formatUnitCost :: "int \<Rightarrow> string" where
  "formatUnitCost c10 = formatFixed c10 COST_SCALE"

definition formatMinor :: "int \<Rightarrow> string" where
  "formatMinor v = int_string v"

subsection \<open>The codecs are inverse on their ranges\<close>

lemma padStart_props:
  "k \<le> length (padStart k s)" "list_all is_digit s \<Longrightarrow> list_all is_digit (padStart k s)"
  "digits_int (padStart k s) = digits_int s" "k \<le> length s \<Longrightarrow> padStart k s = s"
  "length s < k \<Longrightarrow> length (padStart k s) = k"
  by (auto simp: padStart_def list_all_iff)

lemma whole_ok_single [simp]: "whole_ok [c]"
  by (auto simp: whole_ok_def)

lemma length_nat_string_big:
  assumes "1 < length (nat_string n)" shows "0 < n"
proof (rule ccontr)
  assume "\<not> 0 < n"
  then have "length (nat_string n) = 1" by (simp add: length_nat_string_1)
  with assms show False by simp
qed

lemma whole_ok_padded:
  fixes n sc
  defines "d \<equiv> padStart (sc + 1) (nat_string n)"
  shows "whole_ok (take (length d - sc) d)"
proof (cases "length (nat_string n) \<le> sc + 1")
  case True
  then have "length d = sc + 1"
    using padStart_props(1) [of "sc + 1" "nat_string n"]
    by (auto simp: d_def padStart_def)
  then obtain c r where "d = c # r" by (cases d) auto
  with \<open>length d = sc + 1\<close> show ?thesis by simp
next
  case False
  then have d: "d = nat_string n" by (simp add: d_def padStart_props)
  with False have "0 < n" by (intro length_nat_string_big) simp
  then have "hd d \<noteq> CHR ''0''" by (simp add: d hd_nat_string)
  moreover have "take (length d - sc) d \<noteq> []" using False d by simp
  ultimately show ?thesis by (simp add: whole_ok_def hd_take)
qed

lemma takeWhile_digits_dot:
  "list_all is_digit w \<Longrightarrow> takeWhile is_digit (w @ CHR ''.'' # f) = w"
  "list_all is_digit w \<Longrightarrow> dropWhile is_digit (w @ CHR ''.'' # f) = CHR ''.'' # f"
  by (induction w) auto

lemma splitDecimal_fixed:
  assumes "list_all is_digit w" "whole_ok w" "list_all is_digit f" "f \<noteq> []"
  shows "splitDecimal ((if neg then ''-'' else []) @ w @ CHR ''.'' # f) = Some (neg, w, f)"
proof -
  have "w \<noteq> []" using assms(2) by (auto simp: whole_ok_def)
  with assms show ?thesis
    by (cases neg) (simp_all add: splitDecimal_def takeWhile_digits_dot)
qed

lemma splitDecimal_formatFixed:
  assumes "0 < sc"
  obtains w f where "splitDecimal (formatFixed u sc) = Some (u < 0, w, f)" "list_all is_digit w" "list_all is_digit f"
    "w \<noteq> []" "length f = sc" "digits_int (w @ f) = \<bar>u\<bar>"
    "formatFixed u sc = (if u < 0 then ''-'' else []) @ w @ CHR ''.'' # f"
proof -
  let ?n = "nat (absBig u)"
  let ?d = "padStart (sc + 1) (nat_string ?n)"
  let ?w = "take (length ?d - sc) ?d" and ?f = "drop (length ?d - sc) ?d"
  have d: "list_all is_digit ?d" "sc + 1 \<le> length ?d" "digits_int ?d = \<bar>u\<bar>"
    using padStart_props(1) by (auto simp: padStart_props nat_string_digits)
  have w: "list_all is_digit ?w" "whole_ok ?w" "list_all is_digit ?f" "length ?f = sc"
    using d whole_ok_padded [of sc ?n]
    by (auto simp: list_all_iff dest: in_set_takeD in_set_dropD)
  have fmt: "formatFixed u sc = (if u < 0 then ''-'' else []) @ ?w @ CHR ''.'' # ?f"
    using assms by (simp add: formatFixed_def Let_def)
  have "splitDecimal (formatFixed u sc) = Some (u < 0, ?w, ?f)"
    using splitDecimal_fixed [OF w(1-3), of "u < 0"] w(4) assms fmt by auto
  moreover have "?w \<noteq> []" using w(2) by (auto simp: whole_ok_def)
  moreover have "digits_int (?w @ ?f) = \<bar>u\<bar>" using d(3) by simp
  ultimately show thesis using that [OF _ w(1,3) _ w(4) _ fmt] by blast
qed

lemma rescale_formatFixed:
  assumes "0 < sc" shows "rescaleDecimal (formatFixed u sc) sc = Some u"
proof -
  obtain w f where *: "splitDecimal (formatFixed u sc) = Some (u < 0, w, f)" "length f = sc" "digits_int (w @ f) = \<bar>u\<bar>"
    by (rule splitDecimal_formatFixed [OF assms, of u])
  then show ?thesis by (simp add: rescaleDecimal_def padEnd_def Let_def)
qed

lemma parse_formatQuantity:
  "\<bar>q4\<bar> < QTY_DOMAIN_Q4 \<Longrightarrow> parseQuantity (formatQuantity q4) = Inr q4"
  by (simp add: parseQuantity_def formatQuantity_def rescale_formatFixed QTY_SCALE_def)

lemma parse_formatUnitCost:
  "0 \<le> c10 \<Longrightarrow> c10 < COST_LIMIT_C10 \<Longrightarrow> parseUnitCost (formatUnitCost c10) = Inr c10"
  by (simp add: parseUnitCost_def formatUnitCost_def rescale_formatFixed COST_SCALE_def)

lemma whole_ok_nat_string: "whole_ok (nat_string n)"
proof (cases "n = 0")
  case True
  then show ?thesis by (simp add: length_nat_string_1)
next
  case False
  then show ?thesis by (simp add: whole_ok_def hd_nat_string)
qed

lemma parse_formatMinor:
  "\<bar>v\<bar> \<le> VALUE_LIMIT_MINOR \<Longrightarrow> parseMinor (formatMinor v) = Inr v"
  by (cases "v < 0") (simp_all add: parseMinor_def formatMinor_def int_string_def whole_ok_nat_string nat_string_digits)

subsection \<open>What parsing accepts\<close>

lemma parseQuantity_range: "parseQuantity t = Inr q \<Longrightarrow> \<bar>q\<bar> < QTY_DOMAIN_Q4"
  by (auto simp: parseQuantity_def result_simps split: option.splits)

lemma parseUnitCost_range: "parseUnitCost t = Inr c \<Longrightarrow> 0 \<le> c \<and> c < COST_LIMIT_C10"
  by (auto simp: parseUnitCost_def result_simps split: option.splits)

lemma parseMinor_range: "parseMinor t = Inr v \<Longrightarrow> \<bar>v\<bar> \<le> VALUE_LIMIT_MINOR"
  by (auto simp: parseMinor_def Let_def result_simps split: prod.splits)

text \<open>Rescaling denotes the same number as the exact parse.\<close>

lemma rescale_parseDecimal:
  assumes "rescaleDecimal t sc = Some v"
  shows "\<exists>x. parseDecimal t = Inr x \<and> 0 \<le> ed_scale x \<and> ed_scale x \<le> int sc
           \<and> v = ed_units x * 10 ^ (sc - nat (ed_scale x))"
  using assms
  by (auto simp: rescaleDecimal_def parseDecimal_def Let_def digits_int_padEnd
      split: option.splits prod.splits if_splits)

subsection \<open>Properties\<close>

text \<open>The decimal texts are exact: a quantity, a unit cost and an amount in minor units, formatted
  and parsed again, come back unchanged over their whole column domain, signs included.\<close>

theorem fixed_point_roundtrip:
  "(\<bar>q4\<bar> < QTY_DOMAIN_Q4 \<longrightarrow> parseQuantity (formatQuantity q4) = Inr q4)
   \<and> (0 \<le> c10 \<and> c10 < COST_LIMIT_C10 \<longrightarrow> parseUnitCost (formatUnitCost c10) = Inr c10)
   \<and> (\<bar>v\<bar> \<le> VALUE_LIMIT_MINOR \<longrightarrow> parseMinor (formatMinor v) = Inr v)"
  by (simp add: parse_formatQuantity parse_formatUnitCost parse_formatMinor)

theorem fixed_point_roundtrip_witness:
  "parseQuantity (formatQuantity (- 12345)) = Inr (- 12345) \<and> parseUnitCost (formatUnitCost 7) = Inr 7
   \<and> parseMinor (formatMinor (- 90)) = Inr (- 90)"
  using fixed_point_roundtrip [of "- 12345" 7 "- 90"] by (simp add: limits)

text \<open>Whatever text the quantity parser accepts denotes the same number as the unbounded exact
  parse, rescaled to four decimals without loss, and lies in the column domain.\<close>

theorem parse_exact:
  assumes "parseQuantity t = Inr q"
  shows "(\<exists>x. parseDecimal t = Inr x \<and> ed_scale x \<le> 4 \<and> q = ed_units x * 10 ^ (4 - nat (ed_scale x)))
     \<and> \<bar>q\<bar> < QTY_DOMAIN_Q4"
proof -
  have "rescaleDecimal t QTY_SCALE = Some q"
    using assms by (auto simp: parseQuantity_def split: option.splits if_splits)
  from rescale_parseDecimal [OF this] parseQuantity_range [OF assms] show ?thesis
    by (auto simp: QTY_SCALE_def)
qed

theorem parse_exact_witness:
  "(\<exists>x. parseDecimal ''-3.50'' = Inr x \<and> ed_scale x \<le> 4 \<and> - 35000 = ed_units x * 10 ^ (4 - nat (ed_scale x)))
     \<and> \<bar>- 35000 :: int\<bar> < QTY_DOMAIN_Q4"
  by (rule parse_exact) code_simp

end
