(* ===== verification/Quantity.thy ===== *)
theory Quantity
  imports Fixed_Point
begin

text \<open>
  packages/inventory/src/quantity.ts: representability of a Q4 quantity at a product's
  number of unit decimals, a \<open>number\<close> (here an \<open>int\<close>, refused outside 0..4).
\<close>

definition Q4_STEP :: "int list" where
  "Q4_STEP = [10000, 1000, 100, 10, 1]"

definition isQuantityRepresentable :: "int \<Rightarrow> int \<Rightarrow> bool result" where
  "isQuantityRepresentable q4 unitDecimals =
     (if 0 \<le> unitDecimals \<and> nat unitDecimals < length Q4_STEP
      then Inr ((if q4 < 0 then - q4 else q4) smod (Q4_STEP ! nat unitDecimals) = 0)
      else refuse (InventoryError unit_decimals_invalid))"

definition assertQuantityRepresentable :: "int \<Rightarrow> int \<Rightarrow> unit result" where
  "assertQuantityRepresentable q4 unitDecimals =
     bindR (isQuantityRepresentable q4 unitDecimals) (\<lambda>b.
       if \<not> b then refuse (InventoryError quantity_precision_invalid) else Inr ())"

lemma Q4_STEP_nth: "d \<le> 4 \<Longrightarrow> Q4_STEP ! d = 10 ^ (4 - d)"
proof -
  assume "d \<le> 4"
  then have "d \<in> {0, 1, 2, 3, 4}" by auto
  then show ?thesis by (auto simp: Q4_STEP_def)
qed

lemma isQuantityRepresentable_dvd:
  assumes "0 \<le> u" "u \<le> 4"
  shows "isQuantityRepresentable q u = Inr (10 ^ (4 - nat u) dvd q)"
proof -
  have "nat u \<le> 4" using assms by simp
  moreover have "\<bar>q\<bar> mod 10 ^ (4 - nat u) = 0 \<longleftrightarrow> 10 ^ (4 - nat u) dvd q"
    by (simp add: dvd_eq_mod_eq_0 [symmetric])
  ultimately show ?thesis using assms
    by (simp add: isQuantityRepresentable_def Q4_STEP_nth abs_if [symmetric])
      (simp add: Q4_STEP_def)
qed

lemma isQuantityRepresentable_refuses:
  "u < 0 \<or> 4 < u \<Longrightarrow> isQuantityRepresentable q u = Inl (InventoryError unit_decimals_invalid)"
  by (auto simp: isQuantityRepresentable_def Q4_STEP_def)

end
