(* ===== verification/Rounding.thy ===== *)
theory Rounding
  imports Fixed_Point
begin

text \<open>
  packages/inventory/src/rounding.ts, and the interface every client of it relies on.

  \<open>halfEven\<close> is the body of \<open>roundHalfEven\<close> after its zero test. The locale \<open>rounding_law\<close>
  states what a client needs of a rounding function: it is within half a unit of the exact
  quotient, exact on multiples, monotone and odd. \<open>cumulative\<close> extends it with the
  cumulative proportional release \<open>rnd (B * (X + a)) T - rnd (B * X) T\<close> that purchases,
  supplier returns, invoices and credit notes all consume value by; its laws (no release
  is negative, releases telescope, the last one empties the document) are proved once and
  interpreted on \<open>halfEven\<close>.
\<close>

subsection \<open>The code\<close>

definition halfEven :: "int \<Rightarrow> int \<Rightarrow> int" where
  "halfEven numerator denominator =
     (let negative = ((numerator < 0) \<noteq> (denominator < 0));
          n = (if numerator < 0 then - numerator else numerator);
          d = (if denominator < 0 then - denominator else denominator);
          q = n sdiv d;
          twice = 2 * (n - q * d);
          q' = (if d < twice \<or> (twice = d \<and> q smod 2 \<noteq> 0) then q + 1 else q)
      in if negative then - q' else q')"

definition roundHalfEven :: "int \<Rightarrow> int \<Rightarrow> int result" where
  "roundHalfEven numerator denominator =
     (if denominator = 0 then refuse (InventoryError arithmetic_invalid)
      else Inr (halfEven numerator denominator))"

text \<open>A \<open>number\<close> exponent: an integer, refused unless it is a safe non-negative one.\<close>

definition pow10 :: "int \<Rightarrow> int result" where
  "pow10 exponent =
     (if \<not> (\<bar>exponent\<bar> \<le> MAX_SAFE_INTEGER) \<or> exponent < 0
      then refuse (InventoryError arithmetic_invalid) else Inr (10 ^ nat exponent))"

definition roundHalfEvenDecimal :: "ExactDecimal \<Rightarrow> ExactDecimal \<Rightarrow> int \<Rightarrow> ExactDecimal result" where
  "roundHalfEvenDecimal n d sc =
     (if sc \<noteq> 0 \<and> sc \<noteq> 10 then refuse (InventoryError arithmetic_invalid)
      else bindR (pow10 (ed_scale d)) (\<lambda>pd. bindR (pow10 sc) (\<lambda>ps. bindR (pow10 (ed_scale n)) (\<lambda>pn.
           bindR (roundHalfEven (ed_units n * pd * ps) (ed_units d * pn)) (\<lambda>u.
             Inr \<lparr>ed_units = u, ed_scale = sc\<rparr>)))))"

lemma roundHalfEven_nonzero [simp]: "d \<noteq> 0 \<Longrightarrow> roundHalfEven n d = Inr (halfEven n d)"
  by (simp add: roundHalfEven_def)

lemma roundHalfEven_eq_Inr [result_simps]: "roundHalfEven n d = Inr q \<longleftrightarrow> d \<noteq> 0 \<and> q = halfEven n d"
  by (auto simp: roundHalfEven_def)

subsection \<open>Characterisation\<close>

text \<open>The specification: \<open>q\<close> is a nearest integer to \<open>n / d\<close>, and an even one at a tie.\<close>

definition nearest_even :: "int \<Rightarrow> int \<Rightarrow> int \<Rightarrow> bool" where
  "nearest_even n d q \<longleftrightarrow> 2 * \<bar>n - d * q\<bar> \<le> \<bar>d\<bar> \<and> (2 * \<bar>n - d * q\<bar> = \<bar>d\<bar> \<longrightarrow> even q)"

lemma halfEven_nonneg_eq:
  assumes "0 \<le> n" "0 < d"
  shows "halfEven n d = (let q = n div d; r = n mod d in
           if d < 2 * r \<or> (2 * r = d \<and> odd q) then q + 1 else q)"
proof -
  have "n - (n div d) * d = n mod d" by (simp add: minus_div_mult_eq_mod)
  moreover have "0 \<le> n div d" using assms by (simp add: pos_imp_zdiv_nonneg_iff)
  ultimately show ?thesis using assms
    by (simp add: halfEven_def Let_def odd_iff_mod_2_eq_one)
qed

lemma nearest_even_halfEven_pos:
  assumes "0 \<le> n" "0 < d" shows "nearest_even n d (halfEven n d)"
proof -
  define q r where "q = n div d" and "r = n mod d"
  have n: "n = d * q + r" and r: "0 \<le> r" "r < d"
    using assms by (simp_all add: q_def r_def)
  show ?thesis
  proof (cases "d < 2 * r \<or> (2 * r = d \<and> odd q)")
    case True
    then have "halfEven n d = q + 1" using assms by (simp add: halfEven_nonneg_eq q_def r_def Let_def)
    moreover have "n - d * (q + 1) = r - d" by (simp add: n algebra_simps)
    ultimately show ?thesis using True r by (auto simp: nearest_even_def)
  next
    case False
    then have "halfEven n d = q" using assms by (auto simp: halfEven_nonneg_eq q_def r_def Let_def)
    moreover have "n - d * q = r" by (simp add: n)
    ultimately show ?thesis using False r by (auto simp: nearest_even_def)
  qed
qed

lemma halfEven_minus_left: "halfEven (- n) d = - halfEven n d"
  by (cases "n = 0") (auto simp: halfEven_def Let_def)

lemma halfEven_minus_right: "d \<noteq> 0 \<Longrightarrow> halfEven n (- d) = - halfEven n d"
  by (auto simp: halfEven_def Let_def)

lemma nearest_even_minus:
  "nearest_even (- n) d (- q) \<longleftrightarrow> nearest_even n d q" "nearest_even n (- d) (- q) \<longleftrightarrow> nearest_even n d q"
proof -
  have *: "\<bar>- n - d * - q\<bar> = \<bar>n - d * q\<bar>" by (simp add: algebra_simps)
  show "nearest_even (- n) d (- q) \<longleftrightarrow> nearest_even n d q" by (simp only: nearest_even_def *) simp
qed (simp add: nearest_even_def)

lemma nearest_even_halfEven:
  assumes "d \<noteq> 0" shows "nearest_even n d (halfEven n d)"
proof -
  have pos: "nearest_even m e (halfEven m e)" if "0 < e" for m e
    using nearest_even_halfEven_pos [of m e] nearest_even_halfEven_pos [of "- m" e] that
      nearest_even_minus(1) [of m e "halfEven m e"]
    by (cases "0 \<le> m") (simp_all add: halfEven_minus_left)
  show ?thesis
    using assms pos [of d n] pos [of "- d" n] nearest_even_minus(2) [of n d "halfEven n d"]
    by (cases "0 < d") (simp_all add: halfEven_minus_right)
qed

lemma half_distance:
  "2 * \<bar>a - b\<bar> \<le> (d::int) \<Longrightarrow> 2 * b - d \<le> 2 * a"
  "2 * \<bar>a - b\<bar> \<le> (d::int) \<Longrightarrow> 2 * a \<le> 2 * b + d"
  by (simp_all add: abs_if split: if_splits)

lemma nearest_even_mono:
  assumes d: "0 < (d::int)" and le: "n \<le> m" and "nearest_even n d p" "nearest_even m d q"
  shows "p \<le> q"
proof (rule ccontr)
  assume "\<not> p \<le> q"
  then have "d * (q + 1) \<le> d * p" using d by (intro mult_left_mono) auto
  moreover have "2 * \<bar>n - d * p\<bar> \<le> d" "2 * \<bar>m - d * q\<bar> \<le> d"
    using assms(3,4) d by (simp_all add: nearest_even_def)
  then have "2 * (d * p) - d \<le> 2 * n" "2 * m \<le> 2 * (d * q) + d"
    by (blast intro: half_distance)+
  ultimately have "d * p = d * q + d" "n = m" "2 * n = 2 * (d * q) + d"
    using le by (simp_all add: algebra_simps)
  moreover from this(1) d have "p = q + 1"
    by (metis distrib_left mult_cancel_left mult.right_neutral less_irrefl)
  ultimately show False using assms(3,4) d by (auto simp: nearest_even_def algebra_simps)
qed

lemma nearest_even_unique:
  assumes "d \<noteq> 0" "nearest_even n d p" "nearest_even n d q" shows "p = q"
proof (cases "0 < d")
  case True
  then show ?thesis using nearest_even_mono [OF True order_refl] assms by (meson order_antisym)
next
  case False
  then have "0 < - d" using assms(1) by simp
  from nearest_even_mono [OF this order_refl] have "- p = - q"
    using assms nearest_even_minus(2) by (meson order_antisym)
  then show ?thesis by simp
qed

lemma halfEven_eq_iff: "d \<noteq> 0 \<Longrightarrow> halfEven n d = q \<longleftrightarrow> nearest_even n d q"
  using nearest_even_halfEven nearest_even_unique by blast

lemma halfEven_mono: "0 < d \<Longrightarrow> n \<le> m \<Longrightarrow> halfEven n d \<le> halfEven m d"
  by (rule nearest_even_mono [of d n m]) (simp_all add: nearest_even_halfEven)

lemma halfEven_mult [simp]: "d \<noteq> 0 \<Longrightarrow> halfEven (d * k) d = k" "d \<noteq> 0 \<Longrightarrow> halfEven (k * d) d = k"
  by (simp_all add: halfEven_eq_iff nearest_even_def mult.commute)

lemma halfEven_0 [simp]: "halfEven 0 d = 0"
  by (cases "d = 0") (simp_all add: halfEven_def halfEven_eq_iff nearest_even_def)

lemma halfEven_error: "0 < d \<Longrightarrow> 2 * \<bar>n - d * halfEven n d\<bar> \<le> d"
  using nearest_even_halfEven [of d n] by (simp add: nearest_even_def)

lemma halfEven_nonneg: "0 < d \<Longrightarrow> 0 \<le> n \<Longrightarrow> 0 \<le> halfEven n d"
  using halfEven_mono [of d 0 n] by simp

lemma halfEven_le: "0 < d \<Longrightarrow> n \<le> d * k \<Longrightarrow> halfEven n d \<le> k"
  using halfEven_mono [of d n "d * k"] by simp

lemma halfEven_ge: "0 < d \<Longrightarrow> d * k \<le> n \<Longrightarrow> k \<le> halfEven n d"
  using halfEven_mono [of d "d * k" n] by simp

lemma halfEven_scale: "0 < c \<Longrightarrow> d \<noteq> 0 \<Longrightarrow> halfEven (c * n) (c * d) = halfEven n d"
proof -
  assume c: "0 < c" and d: "d \<noteq> 0"
  have "nearest_even n d (halfEven n d)" by (rule nearest_even_halfEven [OF d])
  moreover have "2 * \<bar>c * n - c * d * q\<bar> = c * (2 * \<bar>n - d * q\<bar>)" for q
    using c by (simp add: abs_mult right_diff_distrib [symmetric] mult.assoc)
  ultimately have "nearest_even (c * n) (c * d) (halfEven n d)"
    using c by (simp add: nearest_even_def abs_mult)
  then show ?thesis using c d by (simp add: halfEven_eq_iff)
qed

subsection \<open>The interface\<close>

locale rounding_law =
  fixes rnd :: "int \<Rightarrow> int \<Rightarrow> int"
  assumes rnd_error: "0 < d \<Longrightarrow> 2 * \<bar>n - d * rnd n d\<bar> \<le> d"
    and rnd_mono: "0 < d \<Longrightarrow> n \<le> m \<Longrightarrow> rnd n d \<le> rnd m d"
    and rnd_exact: "0 < d \<Longrightarrow> rnd (d * k) d = k"
    and rnd_odd: "rnd (- n) d = - rnd n d"
begin

lemma rnd_nonneg: "0 < d \<Longrightarrow> 0 \<le> n \<Longrightarrow> 0 \<le> rnd n d"
  using rnd_mono [of d "d * 0" n] rnd_exact [of d 0] by simp

lemma rnd_zero: "0 < d \<Longrightarrow> rnd 0 d = 0"
  using rnd_exact [of d 0] by simp

end

text \<open>
  The cumulative release of a document of total \<open>T\<close> carrying \<open>B\<close>: what consuming \<open>a\<close>
  after \<open>X\<close> takes off it.
\<close>

locale cumulative = rounding_law +
  fixes rel :: "int \<Rightarrow> int \<Rightarrow> int \<Rightarrow> int \<Rightarrow> int"
  assumes rel_def: "rel B T X a = rnd (B * (X + a)) T - rnd (B * X) T"
begin

lemma rel_nonneg: "0 < T \<Longrightarrow> 0 \<le> B \<Longrightarrow> 0 \<le> a \<Longrightarrow> 0 \<le> rel B T X a"
  unfolding rel_def using rnd_mono [of T "B * X" "B * (X + a)"] by (simp add: mult_left_mono)

lemma rel_add: "rel B T X a + rel B T (X + a) b = rel B T X (a + b)"
  by (simp add: rel_def add.assoc)

lemma rel_from_zero: "0 < T \<Longrightarrow> rel B T 0 a = rnd (B * a) T"
  by (simp add: rel_def rnd_zero)

lemma rel_whole: "0 < T \<Longrightarrow> rel B T 0 T = B"
  using rnd_exact [of T B] by (simp add: rel_from_zero mult.commute)

lemma rel_last: "0 < T \<Longrightarrow> X + a = T \<Longrightarrow> rel B T X a = B - rnd (B * X) T"
  using rnd_exact [of T B] by (simp add: rel_def mult.commute)

lemma rel_le: "0 < T \<Longrightarrow> 0 \<le> B \<Longrightarrow> 0 \<le> X \<Longrightarrow> 0 \<le> a \<Longrightarrow> X + a \<le> T \<Longrightarrow> rel B T X a \<le> B"
  using rnd_mono [of T "B * (X + a)" "T * B"] rnd_nonneg [of T "B * X"] rnd_exact [of T B]
  by (simp add: rel_def mult.commute mult_left_mono)

text \<open>A single release is within one unit of its exact proportional share.\<close>

lemma rel_error: "0 < T \<Longrightarrow> \<bar>B * a - T * rel B T X a\<bar> \<le> T"
  using rnd_error [of T "B * (X + a)"] rnd_error [of T "B * X"]
  by (simp add: rel_def right_diff_distrib distrib_left abs_if split: if_splits)

end

definition halfEven_rel :: "int \<Rightarrow> int \<Rightarrow> int \<Rightarrow> int \<Rightarrow> int" where
  "halfEven_rel B T X a = halfEven (B * (X + a)) T - halfEven (B * X) T"

interpretation half_even: cumulative halfEven halfEven_rel
  by unfold_locales (simp_all add: halfEven_error halfEven_mono halfEven_minus_left halfEven_rel_def)

subsection \<open>Properties\<close>

text \<open>Rounding a quotient returns an integer nearest to it, the even one of the two when both are
  equally near, for either sign of the numerator and the denominator; and no other integer is.\<close>

theorem roundHalfEven_nearest:
  assumes "d \<noteq> 0"
  shows "roundHalfEven n d = Inr q \<longleftrightarrow> 2 * \<bar>n - d * q\<bar> \<le> \<bar>d\<bar> \<and> (2 * \<bar>n - d * q\<bar> = \<bar>d\<bar> \<longrightarrow> even q)"
  using assms halfEven_eq_iff [OF assms, of n q] by (auto simp: nearest_even_def)

theorem roundHalfEven_nearest_witness: "roundHalfEven (- 5) 2 = Inr (- 2) \<and> roundHalfEven 7 (- 2) = Inr (- 4)"
  using roundHalfEven_nearest [of 2 "- 5" "- 2"] roundHalfEven_nearest [of "- 2" 7 "- 4"] by simp

end
