(* ===== verification/Allocation.thy ===== *)
theory Allocation
  imports Rounding "HOL-Library.Product_Lexorder"
begin

text \<open>
  packages/inventory/src/allocation.ts: the largest-remainder split and the valuation of an
  inventory opening built on it.

  \<open>Array.prototype.sort\<close> with the comparator "greater remainder first, then lower index" is
  \<open>sort_key\<close> on the pair of the negated remainder and the index, in lexicographic order.
  The locale \<open>allocator\<close> is the contract every caller relies on (shares are non-negative,
  one per line, within one unit of the exact quota, and add up to the total exactly); it
  is interpreted on \<open>largestRemainder\<close> at scale 0 here.
\<close>

subsection \<open>The code\<close>

definition OPENING_WEIGHT_SCALE :: nat where "OPENING_WEIGHT_SCALE = 14"

definition assertScale :: "int \<Rightarrow> unit result" where
  "assertScale sc = (if \<not> (\<bar>sc\<bar> \<le> MAX_SAFE_INTEGER) \<or> sc < 0 \<or> 64 < sc
     then refuse (InventoryError allocation_invalid) else Inr ())"

text \<open>The loop over the weights: each is checked, the largest scale is kept.\<close>

fun commonScale :: "ExactDecimal list \<Rightarrow> int \<Rightarrow> int result" where
  "commonScale [] sc = Inr sc"
| "commonScale (w # ws) sc =
     (if ed_units w < 0 then refuse (InventoryError allocation_invalid)
      else bindR (assertScale (ed_scale w)) (\<lambda>_.
        commonScale ws (if sc < ed_scale w then ed_scale w else sc)))"

text \<open>\<open>for (const i of order) { if (residue === 0n) break; shares[i] += 1n; residue -= 1n; }\<close>\<close>

fun giveOut :: "nat list \<Rightarrow> int list \<Rightarrow> int \<Rightarrow> int list \<times> int" where
  "giveOut [] shares residue = (shares, residue)"
| "giveOut (i # order) shares residue =
     (if residue = 0 then (shares, residue)
      else giveOut order (shares[i := shares ! i + 1]) (residue - 1))"

definition remainderOrder :: "int list \<Rightarrow> nat list" where
  "remainderOrder remainders = sort_key (\<lambda>i. (- (remainders ! i), i)) [0..<length remainders]"

definition largestRemainder :: "ExactDecimal list \<Rightarrow> int \<Rightarrow> int list result" where
  "largestRemainder weights tot =
     (if weights = [] then refuse (InventoryError allocation_invalid)
      else if tot < 0 then refuse (InventoryError allocation_invalid)
      else bindR (commonScale weights 0) (\<lambda>sc.
        let units = map (\<lambda>w. ed_units w * 10 ^ nat (sc - ed_scale w)) weights;
            sum = sum_list units
        in if sum = 0
           then if tot \<noteq> 0 then refuse (InventoryError allocation_invalid) else Inr (map (\<lambda>_. 0) units)
           else let shares = map (\<lambda>u. (tot * u) sdiv sum) units;
                    remainders = map (\<lambda>u. (tot * u) smod sum) units;
                    (shares', residue) = giveOut (remainderOrder remainders) shares (tot - sum_list shares)
                in if residue \<noteq> 0 then refuse (InventoryError allocation_invalid) else Inr shares'))"

record OpeningLineValue =
  ol_qtyQ4 :: int
  ol_costC10 :: int

definition openingLineWeight :: "OpeningLineValue \<Rightarrow> ExactDecimal result" where
  "openingLineWeight line =
     (if ol_qtyQ4 line \<le> 0 \<or> QTY_LIMIT_Q4 \<le> ol_qtyQ4 line then refuse (InventoryError allocation_invalid)
      else if ol_costC10 line < 0 \<or> COST_LIMIT_C10 \<le> ol_costC10 line then refuse (InventoryError allocation_invalid)
      else Inr \<lparr>ed_units = ol_qtyQ4 line * ol_costC10 line, ed_scale = int OPENING_WEIGHT_SCALE\<rparr>)"

definition openingDocumentTotal :: "OpeningLineValue list \<Rightarrow> int result" where
  "openingDocumentTotal lines =
     (if lines = [] then refuse (InventoryError allocation_invalid)
      else bindR (mapR openingLineWeight lines) (\<lambda>ws.
        bindR (roundHalfEven (sum_list (map ed_units ws)) (10 ^ OPENING_WEIGHT_SCALE)) (\<lambda>tot.
          if VALUE_LIMIT_MINOR < tot then refuse (InventoryError value_out_of_range) else Inr tot)))"

record OpeningAllocation =
  oa_total :: int
  oa_shares :: "int list"

definition allocateOpening :: "OpeningLineValue list \<Rightarrow> OpeningAllocation result" where
  "allocateOpening lines =
     bindR (openingDocumentTotal lines) (\<lambda>tot.
     bindR (mapR openingLineWeight lines) (\<lambda>ws.
     bindR (largestRemainder ws tot) (\<lambda>shares.
       Inr \<lparr>oa_total = tot, oa_shares = shares\<rparr>)))"

definition assertOpeningMatchesPosition :: "int \<Rightarrow> int \<Rightarrow> unit result" where
  "assertOpeningMatchesPosition stockTotalMinor openingPositionMinor =
     (if stockTotalMinor \<noteq> openingPositionMinor
      then refuse (InventoryError opening_valuation_mismatch) else Inr ())"

subsection \<open>Handing out the residue\<close>

lemma giveOut_length [simp]: "length (fst (giveOut order ss r)) = length ss"
  by (induction order ss r rule: giveOut.induct) auto

lemma giveOut_residue: "0 \<le> r \<Longrightarrow> snd (giveOut order ss r) = max 0 (r - int (length order))"
  by (induction order ss r rule: giveOut.induct) auto

lemma giveOut_nth:
  assumes "0 \<le> r" "distinct order" "set order \<subseteq> {..<length ss}" "i < length ss"
  shows "fst (giveOut order ss r) ! i = ss ! i + (if i \<in> set (take (nat r) order) then 1 else 0)"
  using assms
proof (induction order ss r rule: giveOut.induct)
  case (2 j order ss r)
  show ?case
  proof (cases "r = 0")
    case False
    then obtain k where k: "nat r = Suc k" "nat (r - 1) = k"
      using "2.prems"(1) by (cases "nat r") auto
    have "j \<notin> set (take k order)" using "2.prems"(2) by (auto dest: in_set_takeD)
    with False 2 k show ?thesis by (auto simp: nth_list_update)
  qed simp
qed simp

lemma giveOut_sum:
  assumes "0 \<le> r" "r \<le> int (length order)" "distinct order" "set order \<subseteq> {..<length ss}"
  shows "sum_list (fst (giveOut order ss r)) = sum_list ss + r"
  using assms
  by (induction order ss r rule: giveOut.induct) (auto simp: sum_list_update_int)

lemma remainderOrder_props:
  "set (remainderOrder rs) = {..<length rs}" "distinct (remainderOrder rs)" "length (remainderOrder rs) = length rs"
  "sorted (map (\<lambda>i. (- (rs ! i), i)) (remainderOrder rs))"
  by (auto simp: remainderOrder_def)

text \<open>The lines served first have the larger remainders, ties to the lower index.\<close>

lemma remainderOrder_priority:
  assumes "i \<in> set (take k (remainderOrder rs))" "j < length rs" "j \<notin> set (take k (remainderOrder rs))"
  shows "rs ! j < rs ! i \<or> (rs ! j = rs ! i \<and> i < j)"
proof -
  let ?o = "remainderOrder rs"
  have "j \<in> set (drop k ?o)"
    using assms(2,3) remainderOrder_props(1) [of rs] by (metis Un_iff append_take_drop_id lessThan_iff set_append)
  moreover have "sorted (map (\<lambda>i. (- (rs ! i), i)) (take k ?o @ drop k ?o))"
    by (simp add: remainderOrder_props)
  ultimately have "(- (rs ! i), i) \<le> (- (rs ! j), j)"
    using assms(1) unfolding map_append sorted_append by auto
  moreover have "i \<noteq> j" using assms(1,3) by auto
  ultimately show ?thesis by auto
qed

subsection \<open>The split over integer weights\<close>

text \<open>The part of \<open>largestRemainder\<close> after its guards, over weights of one scale with a positive sum.\<close>

definition splitUnits :: "int \<Rightarrow> int list \<Rightarrow> int list \<times> int" where
  "splitUnits tot us =
     (let s = sum_list us; shares = map (\<lambda>u. (tot * u) sdiv s) us; rems = map (\<lambda>u. (tot * u) smod s) us
      in giveOut (remainderOrder rems) shares (tot - sum_list shares))"

definition weights_ok :: "int \<Rightarrow> int list \<Rightarrow> bool" where
  "weights_ok tot us \<longleftrightarrow> 0 \<le> tot \<and> list_all (\<lambda>u. 0 \<le> u) us \<and> 0 < sum_list us"

lemma splitUnits_nonneg_eq:
  assumes "weights_ok tot us"
  shows "splitUnits tot us =
     (let s = sum_list us; shares = map (\<lambda>u. (tot * u) div s) us; rems = map (\<lambda>u. (tot * u) mod s) us
      in giveOut (remainderOrder rems) shares (tot - sum_list shares))"
proof -
  have "map (\<lambda>u. (tot * u) sdiv sum_list us) us = map (\<lambda>u. (tot * u) div sum_list us) us"
    "map (\<lambda>u. (tot * u) smod sum_list us) us = map (\<lambda>u. (tot * u) mod sum_list us) us"
    using assms by (auto simp: weights_ok_def list_all_iff)
  then show ?thesis by (simp only: splitUnits_def Let_def)
qed

lemma residue_bounds:
  assumes "weights_ok tot us"
  defines "s \<equiv> sum_list us"
  defines "r \<equiv> tot - sum_list (map (\<lambda>u. (tot * u) div s) us)"
  shows "s * r = sum_list (map (\<lambda>u. (tot * u) mod s) us)" "0 \<le> r" "r < int (length us)"
proof -
  have s: "0 < s" using assms by (simp add: weights_ok_def)
  have "sum_list (map (\<lambda>u. tot * u) us) = s * sum_list (map (\<lambda>u. (tot * u) div s) us) + sum_list (map (\<lambda>u. (tot * u) mod s) us)"
    by (induction us) (auto simp: algebra_simps)
  moreover have "sum_list (map (\<lambda>u. tot * u) us) = tot * s"
    by (simp add: s_def sum_list_const_mult)
  ultimately show eq: "s * r = sum_list (map (\<lambda>u. (tot * u) mod s) us)"
    by (simp add: r_def right_diff_distrib mult.commute)
  have "0 \<le> sum_list (map (\<lambda>u. (tot * u) mod s) us)" using s by (intro sum_list_nonneg_int) auto
  with eq s show "0 \<le> r" by (metis mult_le_0_iff not_le less_le_not_le mult_pos_neg)
  have "us \<noteq> []" using s by (auto simp: s_def)
  have "sum_list (map (\<lambda>u. (tot * u) mod s) vs) \<le> int (length vs) * (s - 1)" for vs
  proof (induction vs)
    case (Cons v vs)
    have "(tot * v) mod s \<le> s - 1" using s by simp
    with Cons show ?case by (simp add: distrib_right)
  qed simp
  with eq have "s * r \<le> int (length us) * (s - 1)" by metis
  also have "\<dots> < s * int (length us)" using \<open>us \<noteq> []\<close> by (simp add: algebra_simps)
  finally show "r < int (length us)" using s by simp
qed

lemma splitUnits_props:
  assumes ok: "weights_ok tot us"
  defines "s \<equiv> sum_list us"
  obtains ss where "splitUnits tot us = (ss, 0)" "length ss = length us" "sum_list ss = tot"
    "\<And>i. i < length us \<Longrightarrow> ss ! i = (tot * us ! i) div s +
       (if i \<in> set (take (nat (tot - sum_list (map (\<lambda>u. (tot * u) div s) us)))
             (remainderOrder (map (\<lambda>u. (tot * u) mod s) us))) then 1 else 0)"
proof -
  let ?sh = "map (\<lambda>u. (tot * u) div s) us" and ?o = "remainderOrder (map (\<lambda>u. (tot * u) mod s) us)"
  let ?r = "tot - sum_list ?sh"
  have r: "0 \<le> ?r" "?r < int (length us)" using residue_bounds [OF ok] by (simp_all add: s_def)
  have o: "distinct ?o" "set ?o \<subseteq> {..<length ?sh}" "length ?o = length us"
    by (simp_all add: remainderOrder_props)
  have eq: "splitUnits tot us = giveOut ?o ?sh ?r"
    by (simp add: splitUnits_nonneg_eq [OF ok] s_def Let_def)
  have "snd (giveOut ?o ?sh ?r) = 0" using r o(3) by (simp add: giveOut_residue)
  then have "splitUnits tot us = (fst (giveOut ?o ?sh ?r), 0)" by (metis eq prod.collapse)
  moreover have "sum_list (fst (giveOut ?o ?sh ?r)) = tot"
    using giveOut_sum [of ?r ?o ?sh] r o by simp
  moreover have "fst (giveOut ?o ?sh ?r) ! i = ?sh ! i + (if i \<in> set (take (nat ?r) ?o) then 1 else 0)"
    if "i < length us" for i
    using giveOut_nth [of ?r ?o ?sh i] r o that by simp
  ultimately show ?thesis using that [of "fst (giveOut ?o ?sh ?r)"] by simp
qed

text \<open>A line whose quota is exact gets its quota: there are enough lines with a fraction.\<close>

lemma exact_quota_not_served:
  assumes ok: "weights_ok tot us" and i: "i < length us"
  defines "s \<equiv> sum_list us"
  defines "rs \<equiv> map (\<lambda>u. (tot * u) mod s) us"
  assumes exact: "rs ! i = 0"
  shows "i \<notin> set (take (nat (tot - sum_list (map (\<lambda>u. (tot * u) div s) us))) (remainderOrder rs))"
proof
  let ?r = "tot - sum_list (map (\<lambda>u. (tot * u) div s) us)"
  let ?served = "set (take (nat ?r) (remainderOrder rs))"
  assume served: "i \<in> ?served"
  have s: "0 < s" using ok by (simp add: weights_ok_def s_def)
  have r: "s * ?r = sum_list rs" "0 \<le> ?r" using residue_bounds [OF ok] by (simp_all add: s_def rs_def)
  have range: "0 \<le> rs ! j" "rs ! j < s" if "j < length us" for j
    using s that by (simp_all add: rs_def)
  have len: "length rs = length us" by (simp add: rs_def)
  have pos: "j \<in> ?served" if "j < length us" "0 < rs ! j" for j
    using remainderOrder_priority [OF served, of j] that exact len by auto
  have zero: "rs ! j = 0" if "j < length us" "j \<notin> ?served" for j
    using pos [of j] range(1) [of j] that by fastforce
  have sub: "?served \<subseteq> {..<length us}"
    using remainderOrder_props(1) [of rs] len by (auto dest: in_set_takeD)
  have "sum_list rs = (\<Sum>j<length us. rs ! j)" by (simp add: sum_list_sum_nth len atLeast0LessThan)
  also have "\<dots> = (\<Sum>j\<in>?served. rs ! j)"
    using sub zero by (intro sum.mono_neutral_right) auto
  also have "\<dots> = (\<Sum>j\<in>?served - {i}. rs ! j)"
    using served exact by (simp add: sum.remove)
  also have "\<dots> \<le> (\<Sum>j\<in>?served - {i}. s)"
    using sub range by (intro sum_mono) (auto intro: less_imp_le)
  also have "\<dots> = int (card ?served - 1) * s"
    using served by (simp add: card_Diff_singleton)
  also have "\<dots> < ?r * s"
  proof -
    have "card ?served \<le> nat ?r"
      using card_length [of "take (nat ?r) (remainderOrder rs)"] by simp
    moreover have "0 < card ?served" using served by (auto simp: card_gt_0_iff)
    ultimately have "int (card ?served - 1) < ?r" using r(2) by linarith
    then show ?thesis using s by simp
  qed
  finally show False using r(1) by (simp add: mult.commute)
qed

subsection \<open>The split over exact decimals\<close>

definition scaledUnits :: "int \<Rightarrow> ExactDecimal list \<Rightarrow> int list" where
  "scaledUnits sc ws = map (\<lambda>w. ed_units w * 10 ^ nat (sc - ed_scale w)) ws"

definition weights_valid :: "ExactDecimal list \<Rightarrow> bool" where
  "weights_valid ws \<longleftrightarrow> list_all (\<lambda>w. 0 \<le> ed_units w \<and> 0 \<le> ed_scale w \<and> ed_scale w \<le> 64) ws"

lemma assertScale_eq [simp]:
  "assertScale sc = (if 0 \<le> sc \<and> sc \<le> 64 then Inr () else Inl (InventoryError allocation_invalid))"
  by (auto simp: assertScale_def MAX_SAFE_INTEGER_def)

lemma commonScale_eq: "commonScale ws sc = Inr m \<Longrightarrow> weights_valid ws \<and> m = fold max (map ed_scale ws) sc"
  by (induction ws sc rule: commonScale.induct)
    (auto simp: weights_valid_def result_simps max_def split: if_splits)

lemma commonScale_total: "weights_valid ws \<Longrightarrow> commonScale ws sc = Inr (fold max (map ed_scale ws) sc)"
  by (induction ws sc rule: commonScale.induct) (auto simp: weights_valid_def max_def not_less)

lemma commonScale_refuses: "\<not> weights_valid ws \<Longrightarrow> commonScale ws sc = Inl (InventoryError allocation_invalid)"
  by (induction ws sc rule: commonScale.induct) (auto simp: weights_valid_def)

definition maxScale :: "ExactDecimal list \<Rightarrow> int" where
  "maxScale ws = fold max (map ed_scale ws) 0"

lemma scaledUnits_nonneg: "weights_valid ws \<Longrightarrow> list_all (\<lambda>u. 0 \<le> u) (scaledUnits sc ws)"
  by (auto simp: weights_valid_def scaledUnits_def list_all_iff)

lemma length_scaledUnits [simp]: "length (scaledUnits sc ws) = length ws"
  by (simp add: scaledUnits_def)

lemma largestRemainder_alt:
  "largestRemainder ws tot =
     (if ws = [] \<or> tot < 0 \<or> \<not> weights_valid ws then Inl (InventoryError allocation_invalid)
      else let us = scaledUnits (maxScale ws) ws
           in if sum_list us = 0 then (if tot \<noteq> 0 then Inl (InventoryError allocation_invalid) else Inr (map (\<lambda>_. 0) us))
              else if snd (splitUnits tot us) \<noteq> 0 then Inl (InventoryError allocation_invalid)
              else Inr (fst (splitUnits tot us)))"
proof (cases "weights_valid ws")
  case True
  then show ?thesis
    by (simp add: largestRemainder_def commonScale_total splitUnits_def scaledUnits_def maxScale_def Let_def
        case_prod_beta)
qed (simp add: largestRemainder_def commonScale_refuses)

lemma scaled_weights_ok:
  assumes "weights_valid ws" "0 \<le> tot" "sum_list (scaledUnits sc ws) \<noteq> 0"
  shows "weights_ok tot (scaledUnits sc ws)"
  using assms scaledUnits_nonneg [OF assms(1), of sc]
  by (auto simp: weights_ok_def list_all_iff less_le intro: sum_list_nonneg_int)

text \<open>What a successful split returns.\<close>

lemma largestRemainder_split:
  assumes "largestRemainder ws tot = Inr ss"
  defines "us \<equiv> scaledUnits (maxScale ws) ws"
  shows "length ss = length ws" "sum_list ss = tot" "0 \<le> tot" "weights_valid ws"
    "\<And>i. i < length ws \<Longrightarrow> 0 \<le> ss ! i"
    "\<And>i. i < length ws \<Longrightarrow> sum_list us \<noteq> 0 \<Longrightarrow> \<bar>ss ! i * sum_list us - tot * us ! i\<bar> < sum_list us"
    "\<And>i. i < length ws \<Longrightarrow> us ! i = 0 \<Longrightarrow> ss ! i = 0"
proof -
  from assms(1) have g: "ws \<noteq> []" "0 \<le> tot" "weights_valid ws"
    and r: "(if sum_list us = 0 then (if tot \<noteq> 0 then Inl (InventoryError allocation_invalid) else Inr (map (\<lambda>_. 0) us))
              else if snd (splitUnits tot us) \<noteq> 0 then Inl (InventoryError allocation_invalid)
              else Inr (fst (splitUnits tot us))) = Inr ss"
    by (auto simp: largestRemainder_alt us_def Let_def split: if_splits)
  show "0 \<le> tot" "weights_valid ws" by (fact g)+
  have len: "length us = length ws" by (simp add: us_def)
  have "length ss = length ws \<and> sum_list ss = tot \<and> (\<forall>i < length ws. 0 \<le> ss ! i
      \<and> (sum_list us \<noteq> 0 \<longrightarrow> \<bar>ss ! i * sum_list us - tot * us ! i\<bar> < sum_list us) \<and> (us ! i = 0 \<longrightarrow> ss ! i = 0))"
  proof (cases "sum_list us = 0")
    case True
    with r have "tot = 0" "ss = map (\<lambda>_. 0) us" by (auto split: if_splits)
    with True show ?thesis by (simp add: len sum_list_triv)
  next
    case False
    then have ok: "weights_ok tot us" using g scaled_weights_ok by (simp add: us_def)
    let ?s = "sum_list us"
    from False ok have s: "0 < ?s" by (simp add: weights_ok_def)
    obtain ss' where ss': "splitUnits tot us = (ss', 0)" "length ss' = length us" "sum_list ss' = tot"
      "\<And>i. i < length us \<Longrightarrow> ss' ! i = (tot * us ! i) div ?s +
       (if i \<in> set (take (nat (tot - sum_list (map (\<lambda>u. (tot * u) div ?s) us)))
             (remainderOrder (map (\<lambda>u. (tot * u) mod ?s) us))) then 1 else 0)"
      using splitUnits_props [OF ok] by metis
    from r False ss'(1) have "ss = ss'" by simp
    moreover have "0 \<le> ss' ! i \<and> \<bar>ss' ! i * ?s - tot * us ! i\<bar> < ?s \<and> (us ! i = 0 \<longrightarrow> ss' ! i = 0)"
      if i: "i < length us" for i
    proof -
      have q: "0 \<le> (tot * us ! i) div ?s" using ok i s
        by (simp add: weights_ok_def list_all_length pos_imp_zdiv_nonneg_iff)
      have m: "(tot * us ! i) div ?s * ?s = tot * us ! i - (tot * us ! i) mod ?s"
        by (simp add: minus_mod_eq_div_mult)
      have mr: "0 \<le> (tot * us ! i) mod ?s" "(tot * us ! i) mod ?s < ?s" using s by simp_all
      show ?thesis
      proof (cases "(tot * us ! i) mod ?s = 0")
        case True
        then have "ss' ! i = (tot * us ! i) div ?s"
          using ss'(4) [OF i] exact_quota_not_served [OF ok i] i by simp
        with True q m s show ?thesis by simp
      next
        case False
        then have "us ! i \<noteq> 0" by auto
        have "0 < (tot * us ! i) mod ?s" using mr False by simp
        moreover have "(tot * us ! i) mod ?s < 2 * ?s" using mr(2) s by linarith
        ultimately show ?thesis using \<open>us ! i \<noteq> 0\<close> ss'(4) [OF i] q m s
          by (simp add: distrib_right abs_less_iff)
      qed
    qed
    ultimately show ?thesis using ss'(2,3) len by auto
  qed
  then show "length ss = length ws" "sum_list ss = tot"
    "\<And>i. i < length ws \<Longrightarrow> 0 \<le> ss ! i"
    "\<And>i. i < length ws \<Longrightarrow> sum_list us \<noteq> 0 \<Longrightarrow> \<bar>ss ! i * sum_list us - tot * us ! i\<bar> < sum_list us"
    "\<And>i. i < length ws \<Longrightarrow> us ! i = 0 \<Longrightarrow> ss ! i = 0"
    by auto
qed

text \<open>It refuses exactly the inputs no split exists for: the residue test never fires.\<close>

lemma largestRemainder_defined:
  assumes "ws \<noteq> []" "0 \<le> tot" "weights_valid ws" "sum_list (scaledUnits (maxScale ws) ws) = 0 \<longrightarrow> tot = 0"
  shows "\<exists>ss. largestRemainder ws tot = Inr ss"
proof (cases "sum_list (scaledUnits (maxScale ws) ws) = 0")
  case False
  then have "weights_ok tot (scaledUnits (maxScale ws) ws)" using assms scaled_weights_ok by simp
  then obtain ss where "splitUnits tot (scaledUnits (maxScale ws) ws) = (ss, 0)"
    using splitUnits_props by metis
  with assms False show ?thesis by (simp add: largestRemainder_alt Let_def)
qed (use assms in \<open>simp add: largestRemainder_alt Let_def\<close>)

subsection \<open>The interface\<close>

text \<open>
  An allocator splits a total over integer weights, whenever it admits them. Its clients are
  the landed costs, the purchase receipt and the invoice's base shares.
\<close>

locale allocator =
  fixes split :: "int \<Rightarrow> int list \<Rightarrow> int list result"
    and admits :: "int \<Rightarrow> int list \<Rightarrow> bool"
  assumes split_sum: "split t ws = Inr ss \<Longrightarrow> sum_list ss = t"
    and split_length: "split t ws = Inr ss \<Longrightarrow> length ss = length ws"
    and split_nonneg: "split t ws = Inr ss \<Longrightarrow> i < length ws \<Longrightarrow> 0 \<le> ss ! i"
    and split_quota: "split t ws = Inr ss \<Longrightarrow> i < length ws \<Longrightarrow> sum_list ws \<noteq> 0 \<Longrightarrow>
      \<bar>ss ! i * sum_list ws - t * ws ! i\<bar> < sum_list ws"
    and split_zero: "split t ws = Inr ss \<Longrightarrow> i < length ws \<Longrightarrow> ws ! i = 0 \<Longrightarrow> ss ! i = 0"
    and split_defined: "(\<exists>ss. split t ws = Inr ss) \<longleftrightarrow> admits t ws"
begin

lemma split_all_nonneg: "split t ws = Inr ss \<Longrightarrow> x \<in> set ss \<Longrightarrow> 0 \<le> x"
  by (metis in_set_conv_nth split_length split_nonneg)

lemma split_le: "split t ws = Inr ss \<Longrightarrow> x \<in> set ss \<Longrightarrow> x \<le> t"
  using member_le_sum_list_int [of ss x] split_all_nonneg split_sum by metis

lemma split_single: "split t [w] = Inr ss \<Longrightarrow> ss = [t]"
  using split_length [of t "[w]" ss] split_sum [of t "[w]" ss]
  by (cases ss) auto

lemma split_exact:
  assumes "split t ws = Inr ss" "i < length ws" "0 < sum_list ws" "t * ws ! i = k * sum_list ws"
  shows "ss ! i = k"
proof -
  have "\<bar>(ss ! i - k) * sum_list ws\<bar> < sum_list ws"
    using split_quota [OF assms(1,2)] assms(3,4) by (simp add: left_diff_distrib)
  with assms(3) have "\<bar>ss ! i - k\<bar> < 1" by (simp add: abs_mult)
  then show ?thesis by simp
qed

end

text \<open>The form the clients in this package call: weights that are integers of one unit.\<close>

definition largestRemainderInts :: "int \<Rightarrow> int list \<Rightarrow> int list result" where
  "largestRemainderInts tot ws = largestRemainder (map (\<lambda>u. \<lparr>ed_units = u, ed_scale = 0\<rparr>) ws) tot"

lemma maxScale_ints [simp]: "maxScale (map (\<lambda>u. \<lparr>ed_units = u, ed_scale = 0\<rparr>) ws) = 0"
  by (induction ws) (simp_all add: maxScale_def)

lemma scaledUnits_ints [simp]: "scaledUnits 0 (map (\<lambda>u. \<lparr>ed_units = u, ed_scale = 0\<rparr>) ws) = ws"
  by (induction ws) (simp_all add: scaledUnits_def)

lemma weights_valid_ints: "weights_valid (map (\<lambda>u. \<lparr>ed_units = u, ed_scale = 0\<rparr>) ws) \<longleftrightarrow> list_all (\<lambda>u. 0 \<le> u) ws"
  by (simp add: weights_valid_def list_all_iff)

definition split_admits :: "int \<Rightarrow> int list \<Rightarrow> bool" where
  "split_admits t ws \<longleftrightarrow> ws \<noteq> [] \<and> list_all (\<lambda>w. 0 \<le> w) ws \<and> 0 \<le> t \<and> (sum_list ws = 0 \<longrightarrow> t = 0)"

lemma largestRemainderInts_alt:
  "largestRemainderInts t ws =
     (if ws = [] \<or> t < 0 \<or> \<not> list_all (\<lambda>u. 0 \<le> u) ws then Inl (InventoryError allocation_invalid)
      else if sum_list ws = 0 then (if t \<noteq> 0 then Inl (InventoryError allocation_invalid) else Inr (map (\<lambda>_. 0) ws))
      else if snd (splitUnits t ws) \<noteq> 0 then Inl (InventoryError allocation_invalid)
      else Inr (fst (splitUnits t ws)))"
  by (simp add: largestRemainderInts_def largestRemainder_alt weights_valid_ints Let_def)

interpretation lr: allocator largestRemainderInts split_admits
proof (unfold_locales, unfold largestRemainderInts_def, goal_cases)
  case (1 t ws ss)
  then show ?case by (rule largestRemainder_split(2))
next
  case (2 t ws ss)
  then show ?case using largestRemainder_split(1) by fastforce
next
  case (3 t ws ss i)
  then show ?case using largestRemainder_split(5) [OF 3(1), of i] by simp
next
  case (4 t ws ss i)
  then show ?case using largestRemainder_split(6) [OF 4(1), of i] by simp
next
  case (5 t ws ss i)
  then show ?case using largestRemainder_split(7) [OF 5(1), of i] by simp
next
  case (6 t ws)
  show ?case
    using largestRemainder_defined [of "map (\<lambda>u. \<lparr>ed_units = u, ed_scale = 0\<rparr>) ws" t]
    by (auto simp: split_admits_def weights_valid_ints largestRemainder_alt Let_def split: if_splits)
qed

lemma largestRemainderInts_nonneg_total: "largestRemainderInts t ws = Inr ss \<Longrightarrow> 0 \<le> t \<and> list_all (\<lambda>u. 0 \<le> u) ws"
  using largestRemainder_split(3,4) by (fastforce simp: largestRemainderInts_def weights_valid_ints)

subsection \<open>The opening\<close>

lemma openingLineWeight_eq_Inr [result_simps]:
  "openingLineWeight l = Inr w \<longleftrightarrow> 0 < ol_qtyQ4 l \<and> ol_qtyQ4 l < QTY_LIMIT_Q4 \<and> 0 \<le> ol_costC10 l
     \<and> ol_costC10 l < COST_LIMIT_C10 \<and> w = \<lparr>ed_units = ol_qtyQ4 l * ol_costC10 l, ed_scale = 14\<rparr>"
  by (auto simp: openingLineWeight_def OPENING_WEIGHT_SCALE_def)

definition openingLine_ok :: "OpeningLineValue \<Rightarrow> bool" where
  "openingLine_ok l \<longleftrightarrow> 0 < ol_qtyQ4 l \<and> ol_qtyQ4 l < QTY_LIMIT_Q4 \<and> 0 \<le> ol_costC10 l \<and> ol_costC10 l < COST_LIMIT_C10"

definition openingWeight :: "OpeningLineValue \<Rightarrow> int" where
  "openingWeight l = ol_qtyQ4 l * ol_costC10 l"

lemma openingLineWeights:
  "mapR openingLineWeight ls = Inr ws \<longleftrightarrow>
     list_all openingLine_ok ls \<and> ws = map (\<lambda>l. \<lparr>ed_units = openingWeight l, ed_scale = 14\<rparr>) ls"
proof (induction ls arbitrary: ws)
  case (Cons l ls)
  then show ?case by (auto simp: result_simps openingLine_ok_def openingWeight_def)
qed auto

lemma openingDocumentTotal_eq_Inr:
  "openingDocumentTotal ls = Inr t \<longleftrightarrow> ls \<noteq> [] \<and> list_all openingLine_ok ls
     \<and> t = halfEven (sum_list (map openingWeight ls)) (10 ^ 14) \<and> t \<le> VALUE_LIMIT_MINOR"
proof -
  have "map ed_units (map (\<lambda>l. \<lparr>ed_units = openingWeight l, ed_scale = 14\<rparr>) ls) = map openingWeight ls"
    by simp
  then show ?thesis
    by (auto simp: openingDocumentTotal_def result_simps openingLineWeights OPENING_WEIGHT_SCALE_def
        simp del: map_map)
qed

lemma allocateOpening_weights:
  assumes "allocateOpening ls = Inr a"
  shows "ls \<noteq> []" "list_all openingLine_ok ls" "oa_total a = halfEven (sum_list (map openingWeight ls)) (10 ^ 14)"
    "largestRemainder (map (\<lambda>l. \<lparr>ed_units = openingWeight l, ed_scale = 14\<rparr>) ls) (oa_total a) = Inr (oa_shares a)"
    "oa_total a \<le> VALUE_LIMIT_MINOR"
  using assms
  by (auto simp: allocateOpening_def result_simps openingDocumentTotal_eq_Inr openingLineWeights)

lemma openingWeights_sum_nonneg: "list_all openingLine_ok ls \<Longrightarrow> 0 \<le> sum_list (map openingWeight ls)"
  by (intro sum_list_nonneg_int) (auto simp: list_all_iff openingLine_ok_def openingWeight_def)

lemma maxScale_const: "ls \<noteq> [] \<Longrightarrow> maxScale (map (\<lambda>l. \<lparr>ed_units = f l, ed_scale = 14\<rparr>) ls) = 14"
proof -
  have "fold max (map (\<lambda>x. 14 :: int) ls) 14 = 14" for ls :: "'a list" by (induction ls) auto
  then show "ls \<noteq> [] \<Longrightarrow> ?thesis" by (cases ls) (simp_all add: maxScale_def comp_def)
qed

text \<open>The opening never fails once its total is in range, and its shares add up.\<close>

lemma allocateOpening_total:
  assumes "openingDocumentTotal ls = Inr t"
  shows "\<exists>a. allocateOpening ls = Inr a \<and> oa_total a = t"
proof -
  let ?ws = "map (\<lambda>l. \<lparr>ed_units = openingWeight l, ed_scale = 14\<rparr>) ls"
  from assms have ls: "ls \<noteq> []" "list_all openingLine_ok ls" "t = halfEven (sum_list (map openingWeight ls)) (10 ^ 14)"
    by (simp_all add: openingDocumentTotal_eq_Inr)
  have us: "scaledUnits (maxScale ?ws) ?ws = map openingWeight ls"
    using ls(1) by (simp add: maxScale_const) (simp add: scaledUnits_def)
  have "\<exists>ss. largestRemainder ?ws t = Inr ss"
  proof (rule largestRemainder_defined)
    show "weights_valid ?ws" using ls(2) by (auto simp: weights_valid_def list_all_iff openingLine_ok_def openingWeight_def)
    show "sum_list (scaledUnits (maxScale ?ws) ?ws) = 0 \<longrightarrow> t = 0" using ls(3) by (simp add: us)
  qed (use ls openingWeights_sum_nonneg in \<open>simp_all add: halfEven_nonneg\<close>)
  moreover have "mapR openingLineWeight ls = Inr ?ws" using ls(2) by (simp add: openingLineWeights)
  ultimately show ?thesis using assms by (auto simp: allocateOpening_def)
qed

subsection \<open>Properties\<close>

text \<open>C6: The largest-remainder split is exact and fair: the shares add up to the total, none is
  negative, every share is less than one unit from its exact quota, a zero weight gets nothing.\<close>

theorem largestRemainder_exact:
  assumes "largestRemainder ws tot = Inr ss"
  defines "us \<equiv> scaledUnits (maxScale ws) ws"
  shows "sum_list ss = tot \<and> length ss = length ws
    \<and> (\<forall>i < length ws. 0 \<le> ss ! i \<and> (us ! i = 0 \<longrightarrow> ss ! i = 0)
        \<and> (sum_list us \<noteq> 0 \<longrightarrow> \<bar>ss ! i * sum_list us - tot * us ! i\<bar> < sum_list us))"
  using largestRemainder_split [OF assms(1)] by (simp add: us_def)

theorem largestRemainder_exact_witness:
  "sum_list [4, 3, 3 :: int] = 10 \<and> length [4, 3, 3 :: int] = length (replicate 3 \<lparr>ed_units = 1, ed_scale = 0\<rparr>)"
proof -
  have "largestRemainder (replicate 3 \<lparr>ed_units = 1, ed_scale = 0\<rparr>) 10 = Inr [4, 3, 3]" by code_simp
  from largestRemainder_exact [OF this] show ?thesis by blast
qed

text \<open>The split is refused exactly when no split can exist: no weights, a negative weight or
  total, a scale out of range, or a positive total over weights that are all zero.\<close>

theorem largestRemainder_total:
  "(\<exists>ss. largestRemainder ws tot = Inr ss) \<longleftrightarrow>
     ws \<noteq> [] \<and> 0 \<le> tot \<and> weights_valid ws \<and> (tot = 0 \<or> sum_list (scaledUnits (maxScale ws) ws) \<noteq> 0)"
  using largestRemainder_defined [of ws tot] by (auto simp: largestRemainder_alt Let_def split: if_splits)

theorem largestRemainder_total_witness:
  "(\<exists>ss. largestRemainder [\<lparr>ed_units = 5, ed_scale = 1\<rparr>, \<lparr>ed_units = 2, ed_scale = 0\<rparr>] 7 = Inr ss)
   \<and> \<not> (\<exists>ss. largestRemainder [\<lparr>ed_units = 0, ed_scale = 0\<rparr>] 7 = Inr ss)"
  by (simp add: largestRemainder_total weights_valid_def scaledUnits_def maxScale_def)

text \<open>An opening document whose total is in range is always allocated, its lines carry exactly that
  total, and the total is the rounded sum of quantity times cost over the lines.\<close>

theorem opening_allocated:
  assumes "openingDocumentTotal ls = Inr t"
  shows "\<exists>a. allocateOpening ls = Inr a \<and> oa_total a = t \<and> sum_list (oa_shares a) = t
     \<and> t = halfEven (sum_list (map openingWeight ls)) (10 ^ 14) \<and> length (oa_shares a) = length ls"
proof -
  obtain a where a: "allocateOpening ls = Inr a" "oa_total a = t" using allocateOpening_total [OF assms] by blast
  with allocateOpening_weights(3,4) [OF a(1)] largestRemainder_split(1,2) show ?thesis by fastforce
qed

theorem opening_allocated_witness:
  "\<exists>a. allocateOpening [\<lparr>ol_qtyQ4 = 30000, ol_costC10 = 10000000000\<rparr>, \<lparr>ol_qtyQ4 = 5000, ol_costC10 = 30000000000\<rparr>] = Inr a
     \<and> oa_total a = 4 \<and> sum_list (oa_shares a) = 4"
  using opening_allocated [of "[\<lparr>ol_qtyQ4 = 30000, ol_costC10 = 10000000000\<rparr>, \<lparr>ol_qtyQ4 = 5000, ol_costC10 = 30000000000\<rparr>]" 4]
  by (auto simp: openingDocumentTotal_eq_Inr openingLine_ok_def openingWeight_def limits halfEven_def Let_def)

end
