(* ===== verification/Valuation.thy ===== *)
theory Valuation
  imports Rounding
begin

text \<open>
  packages/inventory/src/valuation.ts and rebuild.ts: the moving-weighted-average valuation
  of one stock key, request by request, and the rebuild of a key from its stored movements.

  A key is a \<open>StockState\<close>. \<open>simulateMovement\<close> takes a request to the stored value, the
  unit-cost snapshot and the next state; \<open>applyMovement\<close> is the state change alone and the
  step of the rebuild. \<open>key_ok\<close> is the invariant of every key; \<open>key_solvent\<close> adds what
  holds as long as no value-only movement has been applied.
\<close>

subsection \<open>The code\<close>

datatype MovementKind =
    K_purchase
  | K_supplier_return
  | K_adjustment
  | K_damage
  | K_transfer_out
  | K_transfer_in
  | K_stocktake
  | K_inventory_opening
  | K_negative_inventory_cost_adjustment
  | K_purchase_reversal

datatype QtySign = Sign_positive | Sign_negative | Sign_either | Sign_zero

fun MOVEMENT_KIND_QTY_SIGN :: "MovementKind \<Rightarrow> QtySign" where
  "MOVEMENT_KIND_QTY_SIGN K_purchase = Sign_positive"
| "MOVEMENT_KIND_QTY_SIGN K_supplier_return = Sign_negative"
| "MOVEMENT_KIND_QTY_SIGN K_adjustment = Sign_either"
| "MOVEMENT_KIND_QTY_SIGN K_damage = Sign_negative"
| "MOVEMENT_KIND_QTY_SIGN K_transfer_out = Sign_negative"
| "MOVEMENT_KIND_QTY_SIGN K_transfer_in = Sign_positive"
| "MOVEMENT_KIND_QTY_SIGN K_stocktake = Sign_either"
| "MOVEMENT_KIND_QTY_SIGN K_inventory_opening = Sign_positive"
| "MOVEMENT_KIND_QTY_SIGN K_negative_inventory_cost_adjustment = Sign_zero"
| "MOVEMENT_KIND_QTY_SIGN K_purchase_reversal = Sign_negative"

record StockState =
  onHand :: int
  valuation :: int
  avg :: "int option"
  lastStockSeq :: int

definition EMPTY_STOCK_STATE :: StockState where
  "EMPTY_STOCK_STATE = \<lparr>onHand = 0, valuation = 0, avg = None, lastStockSeq = 0\<rparr>"

definition Q4_TIMES_C10 :: int where "Q4_TIMES_C10 = 10 ^ 14"

definition assertCost :: "int \<Rightarrow> unit result" where
  "assertCost costC10 = (if costC10 < 0 \<or> COST_LIMIT_C10 \<le> costC10 then refuse (InventoryError cost_invalid) else Inr ())"

definition assertQuantityInRange :: "int \<Rightarrow> unit result" where
  "assertQuantityInRange q4 = (if QTY_LIMIT_Q4 \<le> absBig q4 then refuse (InventoryError quantity_out_of_range) else Inr ())"

definition assertValueInRange :: "int \<Rightarrow> unit result" where
  "assertValueInRange v = (if VALUE_LIMIT_MINOR < absBig v then refuse (InventoryError value_out_of_range) else Inr ())"

definition averageUnitCost :: "int \<Rightarrow> int \<Rightarrow> int option \<Rightarrow> int option result" where
  "averageUnitCost v onHandQ4 carried =
     (if onHandQ4 \<noteq> 0 then bindR (roundHalfEven (v * Q4_TIMES_C10) onHandQ4) (\<lambda>a. Inr (Some a)) else Inr carried)"

definition inboundValue :: "int \<Rightarrow> int \<Rightarrow> int result" where
  "inboundValue qtyQ4 costC10 =
     (if qtyQ4 \<le> 0 then refuse (InventoryError movement_shape_invalid)
      else bindR (assertQuantityInRange qtyQ4) (\<lambda>_. bindR (assertCost costC10) (\<lambda>_.
        roundHalfEven (qtyQ4 * costC10) Q4_TIMES_C10)))"

text \<open>\<open>{ value, unitCostSnapshot }\<close> as a pair.\<close>

definition outboundValue :: "StockState \<Rightarrow> int \<Rightarrow> (int \<times> int) result" where
  "outboundValue state qtyQ4 =
     (if 0 \<le> qtyQ4 then refuse (InventoryError movement_shape_invalid)
      else bindR (assertQuantityInRange qtyQ4) (\<lambda>_.
        let taken = - qtyQ4
        in if onHand state < taken then refuse (InventoryError insufficient_stock)
           else case avg state of
             None \<Rightarrow> refuse (InventoryError arithmetic_invalid)
           | Some a \<Rightarrow>
               if a < 0 then refuse (InventoryError arithmetic_invalid)
               else if taken = onHand state then Inr (- valuation state, a)
               else bindR (roundHalfEven (taken * a) Q4_TIMES_C10) (\<lambda>v. Inr (- v, a))))"

definition transferInValue :: "int \<Rightarrow> int" where
  "transferInValue transferOutValue = - transferOutValue"

record PairedMovement =
  pm_value :: int
  pm_costC10 :: int
  pm_qtyQ4 :: int

definition purchaseReversalValue :: "StockState \<Rightarrow> int \<Rightarrow> PairedMovement option \<Rightarrow> (int \<times> int) result" where
  "purchaseReversalValue state qtyQ4 paired =
     (if 0 \<le> qtyQ4 then refuse (InventoryError movement_shape_invalid)
      else bindR (assertQuantityInRange qtyQ4) (\<lambda>_.
        if onHand state < - qtyQ4 then refuse (InventoryError insufficient_stock)
        else case paired of
          None \<Rightarrow> refuse (InventoryError movement_shape_invalid)
        | Some p \<Rightarrow>
            if pm_qtyQ4 p \<noteq> - qtyQ4 then refuse (InventoryError movement_shape_invalid)
            else if pm_value p < 0 then refuse (InventoryError movement_shape_invalid)
            else bindR (assertValueInRange (pm_value p)) (\<lambda>_. bindR (assertCost (pm_costC10 p)) (\<lambda>_.
              let value = - pm_value p;
                  onHandAfter = onHand state + qtyQ4;
                  valuationAfter = valuation state + value
              in if (onHandAfter = 0 \<and> valuationAfter \<noteq> 0) \<or> (0 < onHandAfter \<and> valuationAfter < 0)
                 then refuse (InventoryError arithmetic_invalid)
                 else Inr (value, pm_costC10 p)))))"

definition catchUpValue :: "int \<Rightarrow> int \<Rightarrow> int \<Rightarrow> int result" where
  "catchUpValue qtyCoveredQ4 actualC10 provisionalC10 =
     (if qtyCoveredQ4 \<le> 0 then refuse (InventoryError movement_shape_invalid)
      else bindR (assertQuantityInRange qtyCoveredQ4) (\<lambda>_. bindR (assertCost actualC10) (\<lambda>_. bindR (assertCost provisionalC10) (\<lambda>_.
        bindR (roundHalfEven (qtyCoveredQ4 * (actualC10 - provisionalC10)) Q4_TIMES_C10) (\<lambda>v. Inr (- v))))))"

definition applyMovement :: "StockState \<Rightarrow> int \<Rightarrow> int \<Rightarrow> StockState result" where
  "applyMovement state qtyQ4 value =
     (if qtyQ4 = 0 \<and> value = 0 then refuse (InventoryError movement_shape_invalid)
      else bindR (assertQuantityInRange qtyQ4) (\<lambda>_. bindR (assertValueInRange value) (\<lambda>_.
        let onHand' = onHand state + qtyQ4; valuation' = valuation state + value
        in bindR (assertValueInRange valuation') (\<lambda>_. bindR (assertQuantityInRange onHand') (\<lambda>_.
           bindR (averageUnitCost valuation' onHand' (avg state)) (\<lambda>a.
             if (case a of None \<Rightarrow> False | Some x \<Rightarrow> COST_LIMIT_C10 \<le> absBig x)
             then refuse (InventoryError value_out_of_range)
             else Inr \<lparr>onHand = onHand', valuation = valuation', avg = a, lastStockSeq = lastStockSeq state + 1\<rparr>))))))"

record MovementInput =
  mi_kind :: MovementKind
  mi_qtyQ4 :: int
  mi_costC10 :: "int option"
  mi_value :: "int option"
  mi_pairedOut :: "PairedMovement option"
  mi_pairedPurchase :: "PairedMovement option"

record SimulatedMovement =
  sm_value :: int
  sm_unitCostSnapshot :: "int option"
  sm_next :: StockState

definition signOk :: "MovementKind \<Rightarrow> int \<Rightarrow> bool" where
  "signOk k q = (case MOVEMENT_KIND_QTY_SIGN k of
       Sign_positive \<Rightarrow> 0 < q | Sign_negative \<Rightarrow> q < 0 | Sign_either \<Rightarrow> q \<noteq> 0 | Sign_zero \<Rightarrow> q = 0)"

text \<open>The valuation of a request: \<open>simulateMovement\<close> between its sign test and \<open>applyMovement\<close>.\<close>

definition movementValue :: "StockState \<Rightarrow> MovementInput \<Rightarrow> (int \<times> int option) result" where
  "movementValue state m =
     (let q = mi_qtyQ4 m in
      if q = 0 then
        (if mi_costC10 m \<noteq> None \<or> mi_value m = None \<or> mi_value m = Some 0 then refuse (InventoryError movement_shape_invalid)
         else Inr (the (mi_value m), None))
      else if mi_kind m = K_transfer_in then
        (if mi_costC10 m \<noteq> None \<or> mi_value m \<noteq> None then refuse (InventoryError movement_shape_invalid)
         else case mi_pairedOut m of
           None \<Rightarrow> refuse (InventoryError movement_shape_invalid)
         | Some out \<Rightarrow> if pm_qtyQ4 out \<noteq> - q then refuse (InventoryError transfer_pair_mismatch)
                      else Inr (transferInValue (pm_value out), Some (pm_costC10 out)))
      else if mi_kind m = K_purchase_reversal then
        (if mi_costC10 m \<noteq> None \<or> mi_value m \<noteq> None then refuse (InventoryError movement_shape_invalid)
         else bindR (purchaseReversalValue state q (mi_pairedPurchase m)) (\<lambda>(v, c). Inr (v, Some c)))
      else if q < 0 then
        (if mi_costC10 m \<noteq> None \<or> mi_value m \<noteq> None then refuse (InventoryError movement_shape_invalid)
         else bindR (outboundValue state q) (\<lambda>(v, c). Inr (v, Some c)))
      else case mi_costC10 m of
          None \<Rightarrow> refuse (InventoryError movement_shape_invalid)
        | Some cost \<Rightarrow> bindR (assertCost cost) (\<lambda>_.
            case mi_value m of
              Some v \<Rightarrow>
                if mi_kind m \<noteq> K_purchase \<and> mi_kind m \<noteq> K_inventory_opening then refuse (InventoryError movement_shape_invalid)
                else if v < 0 then refuse (InventoryError movement_shape_invalid)
                else Inr (v, Some cost)
            | None \<Rightarrow> bindR (inboundValue q cost) (\<lambda>v. Inr (v, Some cost))))"

definition simulateMovement :: "StockState \<Rightarrow> MovementInput \<Rightarrow> SimulatedMovement result" where
  "simulateMovement state m =
     bindR (assertQuantityInRange (mi_qtyQ4 m)) (\<lambda>_.
       if \<not> signOk (mi_kind m) (mi_qtyQ4 m) then refuse (InventoryError movement_shape_invalid)
       else bindR (movementValue state m) (\<lambda>(value, snapshot).
         bindR (applyMovement state (mi_qtyQ4 m) value) (\<lambda>next.
           Inr \<lparr>sm_value = value, sm_unitCostSnapshot = snapshot, sm_next = next\<rparr>)))"

text \<open>rebuild.ts.\<close>

record StoredMovement =
  st_stockSeq :: int
  st_qtyQ4 :: int
  st_value :: int

fun foldMovementsFrom :: "StockState \<Rightarrow> StoredMovement list \<Rightarrow> StockState result" where
  "foldMovementsFrom state [] = Inr state"
| "foldMovementsFrom state (m # ms) =
     (if st_stockSeq m \<noteq> lastStockSeq state + 1 then refuse (InventoryError rebuild_sequence_invalid)
      else bindR (applyMovement state (st_qtyQ4 m) (st_value m)) (\<lambda>state'. foldMovementsFrom state' ms))"

definition foldMovements :: "StoredMovement list \<Rightarrow> StockState result" where
  "foldMovements = foldMovementsFrom EMPTY_STOCK_STATE"

subsection \<open>Outcomes of the steps\<close>

lemma range_checks [result_simps]:
  "assertCost c = Inr u \<longleftrightarrow> 0 \<le> c \<and> c < COST_LIMIT_C10"
  "assertQuantityInRange q = Inr u \<longleftrightarrow> \<bar>q\<bar> < QTY_LIMIT_Q4"
  "assertValueInRange v = Inr u \<longleftrightarrow> \<bar>v\<bar> \<le> VALUE_LIMIT_MINOR"
  by (auto simp: assertCost_def assertQuantityInRange_def assertValueInRange_def)

lemma Q4_TIMES_C10_pos [simp]: "0 < Q4_TIMES_C10" "Q4_TIMES_C10 \<noteq> 0" "0 \<le> Q4_TIMES_C10"
  by (simp_all add: Q4_TIMES_C10_def)

definition derivedAverage :: "int \<Rightarrow> int \<Rightarrow> int option \<Rightarrow> int option" where
  "derivedAverage v q carried = (if q \<noteq> 0 then Some (halfEven (v * Q4_TIMES_C10) q) else carried)"

lemma averageUnitCost_eq [simp]: "averageUnitCost v q c = Inr (derivedAverage v q c)"
  by (simp add: averageUnitCost_def derivedAverage_def)

lemma applyMovement_eq_Inr [result_simps]:
  "applyMovement s q v = Inr s' \<longleftrightarrow>
     (q \<noteq> 0 \<or> v \<noteq> 0) \<and> \<bar>q\<bar> < QTY_LIMIT_Q4 \<and> \<bar>v\<bar> \<le> VALUE_LIMIT_MINOR
     \<and> \<bar>valuation s + v\<bar> \<le> VALUE_LIMIT_MINOR \<and> \<bar>onHand s + q\<bar> < QTY_LIMIT_Q4
     \<and> (\<forall>a. derivedAverage (valuation s + v) (onHand s + q) (avg s) = Some a \<longrightarrow> \<bar>a\<bar> < COST_LIMIT_C10)
     \<and> s' = \<lparr>onHand = onHand s + q, valuation = valuation s + v,
             avg = derivedAverage (valuation s + v) (onHand s + q) (avg s), lastStockSeq = lastStockSeq s + 1\<rparr>"
  by (auto simp: applyMovement_def result_simps Let_def not_le split: option.splits)

lemma applyMovement_fields:
  assumes "applyMovement s q v = Inr s'"
  shows "onHand s' = onHand s + q" "valuation s' = valuation s + v" "lastStockSeq s' = lastStockSeq s + 1"
    "avg s' = derivedAverage (valuation s') (onHand s') (avg s)"
    "\<bar>onHand s'\<bar> < QTY_LIMIT_Q4" "\<bar>valuation s'\<bar> \<le> VALUE_LIMIT_MINOR" "q \<noteq> 0 \<or> v \<noteq> 0"
  "\<And>a. avg s' = Some a \<Longrightarrow> \<bar>a\<bar> < COST_LIMIT_C10"
  using assms by (auto simp: applyMovement_eq_Inr)

lemma inboundValue_eq_Inr [result_simps]:
  "inboundValue q c = Inr v \<longleftrightarrow> 0 < q \<and> q < QTY_LIMIT_Q4 \<and> 0 \<le> c \<and> c < COST_LIMIT_C10
     \<and> v = halfEven (q * c) Q4_TIMES_C10"
  by (auto simp: inboundValue_def result_simps)

lemma outboundValue_eq_Inr [result_simps]:
  "outboundValue s q = Inr p \<longleftrightarrow> q < 0 \<and> - q < QTY_LIMIT_Q4 \<and> - q \<le> onHand s
     \<and> (\<exists>a. avg s = Some a \<and> 0 \<le> a
          \<and> p = (if - q = onHand s then - valuation s else - halfEven (- q * a) Q4_TIMES_C10, a))"
  by (auto simp: outboundValue_def result_simps Let_def not_less split: option.splits)

lemma purchaseReversalValue_eq_Inr [result_simps]:
  "purchaseReversalValue s q paired = Inr r \<longleftrightarrow> q < 0 \<and> - q < QTY_LIMIT_Q4 \<and> - q \<le> onHand s
     \<and> (\<exists>p. paired = Some p \<and> pm_qtyQ4 p = - q \<and> 0 \<le> pm_value p \<and> pm_value p \<le> VALUE_LIMIT_MINOR
          \<and> 0 \<le> pm_costC10 p \<and> pm_costC10 p < COST_LIMIT_C10
          \<and> \<not> (onHand s + q = 0 \<and> valuation s - pm_value p \<noteq> 0)
          \<and> \<not> (0 < onHand s + q \<and> valuation s - pm_value p < 0)
          \<and> r = (- pm_value p, pm_costC10 p))"
  by (auto simp: purchaseReversalValue_def result_simps Let_def not_less split: option.splits)

lemma catchUpValue_eq_Inr [result_simps]:
  "catchUpValue c a p = Inr v \<longleftrightarrow> 0 < c \<and> c < QTY_LIMIT_Q4 \<and> 0 \<le> a \<and> a < COST_LIMIT_C10 \<and> 0 \<le> p \<and> p < COST_LIMIT_C10
     \<and> v = - halfEven (c * (a - p)) Q4_TIMES_C10"
  by (auto simp: catchUpValue_def result_simps)

lemma simulateMovement_eq_Inr [result_simps]:
  "simulateMovement s m = Inr r \<longleftrightarrow> \<bar>mi_qtyQ4 m\<bar> < QTY_LIMIT_Q4 \<and> signOk (mi_kind m) (mi_qtyQ4 m)
     \<and> movementValue s m = Inr (sm_value r, sm_unitCostSnapshot r)
     \<and> applyMovement s (mi_qtyQ4 m) (sm_value r) = Inr (sm_next r)"
  by (cases r) (auto simp: simulateMovement_def result_simps split: prod.splits)

subsection \<open>The invariant of a key\<close>

text \<open>
  The average is never stored independently: whenever there is stock it is the HALF_EVEN
  quotient of the two sums, and only at zero stock is an older one carried.
\<close>

definition key_ok :: "StockState \<Rightarrow> bool" where
  "key_ok s \<longleftrightarrow> 0 \<le> onHand s \<and> onHand s < QTY_LIMIT_Q4 \<and> \<bar>valuation s\<bar> \<le> VALUE_LIMIT_MINOR \<and> 0 \<le> lastStockSeq s
     \<and> (onHand s \<noteq> 0 \<longrightarrow> avg s = Some (halfEven (valuation s * Q4_TIMES_C10) (onHand s)))
     \<and> (\<forall>a. avg s = Some a \<longrightarrow> \<bar>a\<bar> < COST_LIMIT_C10)"

definition key_solvent :: "StockState \<Rightarrow> bool" where
  "key_solvent s \<longleftrightarrow> key_ok s \<and> 0 \<le> valuation s \<and> (onHand s = 0 \<longrightarrow> valuation s = 0)"

lemma key_ok_empty: "key_solvent EMPTY_STOCK_STATE"
  by (simp add: key_ok_def key_solvent_def EMPTY_STOCK_STATE_def limits)

lemma movementValue_stock_bound:
  assumes "movementValue s m = Inr (v, c)" "signOk (mi_kind m) (mi_qtyQ4 m)" "0 \<le> onHand s"
  shows "0 \<le> onHand s + mi_qtyQ4 m"
proof (cases "mi_qtyQ4 m < 0")
  case True
  then have "mi_kind m \<noteq> K_transfer_in" using assms(2) by (auto simp: signOk_def)
  with True assms(1) show ?thesis
    by (auto simp: movementValue_def Let_def result_simps split: if_splits)
qed (use assms(3) in simp)

lemma simulate_key_ok:
  assumes "key_ok s" "simulateMovement s m = Inr r"
  shows "key_ok (sm_next r)"
proof -
  have a: "applyMovement s (mi_qtyQ4 m) (sm_value r) = Inr (sm_next r)"
    and "movementValue s m = Inr (sm_value r, sm_unitCostSnapshot r)" "signOk (mi_kind m) (mi_qtyQ4 m)"
    using assms(2) by (simp_all add: simulateMovement_eq_Inr)
  with assms(1) have "0 \<le> onHand (sm_next r)"
    by (metis applyMovement_fields(1) movementValue_stock_bound key_ok_def)
  then show ?thesis
    using applyMovement_fields [OF a] assms(1) by (auto simp: key_ok_def derivedAverage_def)
qed

text \<open>
  Pricing at the derived average never takes out more than the key holds: the two
  roundings together stay under one minor unit because a quantity is below 10^14.
\<close>

lemma priced_outbound_le:
  assumes "0 \<le> V" "0 < t" "t \<le> h" "h < QTY_LIMIT_Q4"
  shows "halfEven (t * halfEven (V * Q4_TIMES_C10) h) Q4_TIMES_C10 \<le> V"
proof -
  let ?a = "halfEven (V * Q4_TIMES_C10) h" and ?D = Q4_TIMES_C10
  let ?x = "halfEven (t * ?a) ?D"
  have h: "0 < h" using assms by linarith
  have a0: "0 \<le> ?a" using assms(1) h by (intro halfEven_nonneg mult_nonneg_nonneg) simp_all
  have "2 * (h * ?a) \<le> 2 * (V * ?D) + h"
    using half_distance(1) [OF halfEven_error [OF h, of "V * ?D"]] by simp
  moreover have "t * ?a \<le> h * ?a" using assms(3) a0 by (rule mult_right_mono)
  moreover have "h < ?D" using assms(4) by (simp add: limits Q4_TIMES_C10_def)
  moreover have "2 * (?D * ?x) - ?D \<le> 2 * (t * ?a)"
    by (rule half_distance(1)) (simp add: halfEven_error)
  ultimately have "2 * (?D * ?x) < 2 * (V * ?D) + 2 * ?D" by linarith
  then have "?D * ?x < ?D * (V + 1)" by (simp add: algebra_simps)
  then show ?thesis by (simp add: Q4_TIMES_C10_def)
qed

text \<open>A stored departure never has a positive value; \<open>departure_value\<close> below shows it of every one the code stores.\<close>

definition pairs_ok :: "MovementInput \<Rightarrow> bool" where
  "pairs_ok m \<longleftrightarrow> (mi_kind m = K_transfer_in \<longrightarrow> (\<forall>p. mi_pairedOut m = Some p \<longrightarrow> pm_value p \<le> 0))"

lemma outbound_valuation:
  assumes "key_solvent s" "outboundValue s q = Inr (v, c)"
  shows "- valuation s \<le> v" "v \<le> 0" "- q = onHand s \<longrightarrow> v = - valuation s" "avg s = Some c"
proof -
  from assms(2) obtain a where q: "q < 0" "- q \<le> onHand s" and a: "avg s = Some a" "0 \<le> a" "c = a"
    and v: "v = (if - q = onHand s then - valuation s else - halfEven (- q * a) Q4_TIMES_C10)"
    by (auto simp: outboundValue_eq_Inr)
  have V: "0 \<le> valuation s" "key_ok s" using assms(1) by (simp_all add: key_solvent_def)
  with q a(1) have "a = halfEven (valuation s * Q4_TIMES_C10) (onHand s)" "onHand s < QTY_LIMIT_Q4"
    by (auto simp: key_ok_def)
  with priced_outbound_le [of "valuation s" "- q" "onHand s"] q V(1)
  have "halfEven (- q * a) Q4_TIMES_C10 \<le> valuation s" by simp
  moreover have "0 \<le> halfEven (- q * a) Q4_TIMES_C10" using q a(2) by (intro halfEven_nonneg mult_nonneg_nonneg) simp_all
  ultimately show "- valuation s \<le> v" "v \<le> 0" using v V(1) by auto
  show "- q = onHand s \<longrightarrow> v = - valuation s" "avg s = Some c" using v a by auto
qed

lemma movementValue_valuation:
  assumes s: "key_solvent s" and m: "movementValue s m = Inr (v, c)" "signOk (mi_kind m) (mi_qtyQ4 m)"
    and "mi_qtyQ4 m \<noteq> 0" "pairs_ok m"
  shows "0 \<le> valuation s + v" "onHand s + mi_qtyQ4 m = 0 \<longrightarrow> valuation s + v = 0"
proof -
  let ?q = "mi_qtyQ4 m"
  have s': "0 \<le> valuation s" "0 \<le> onHand s" using s by (auto simp: key_solvent_def key_ok_def)
  have "0 \<le> valuation s + v \<and> (onHand s + ?q = 0 \<longrightarrow> valuation s + v = 0)"
  proof (cases "?q < 0")
    case True
    then have k: "mi_kind m \<noteq> K_transfer_in" using m(2) by (auto simp: signOk_def)
    show ?thesis
    proof (cases "mi_kind m = K_purchase_reversal")
      case rev: True
      with True m(1) obtain c' where "purchaseReversalValue s ?q (mi_pairedPurchase m) = Inr (v, c')"
        by (auto simp: movementValue_def Let_def bindR_eq_Inr split: if_splits)
      then show ?thesis by (auto simp: purchaseReversalValue_eq_Inr)
    next
      case False
      with True k m(1) obtain c' where "outboundValue s ?q = Inr (v, c')"
        by (auto simp: movementValue_def Let_def bindR_eq_Inr split: if_splits)
      from outbound_valuation(1,3) [OF s this] show ?thesis by auto
    qed
  next
    case False
    with assms(4) have q: "0 < ?q" by simp
    then have k: "mi_kind m \<noteq> K_purchase_reversal" using m(2) by (auto simp: signOk_def)
    have "0 \<le> v"
      using m(1) q k assms(5)
      by (auto simp: movementValue_def Let_def result_simps pairs_ok_def transferInValue_def halfEven_nonneg
          split: if_splits option.splits)
    with q s' show ?thesis by simp
  qed
  then show "0 \<le> valuation s + v" "onHand s + mi_qtyQ4 m = 0 \<longrightarrow> valuation s + v = 0" by blast+
qed

lemma simulate_key_solvent:
  assumes "key_solvent s" "simulateMovement s m = Inr r" "mi_qtyQ4 m \<noteq> 0" "pairs_ok m"
  shows "key_solvent (sm_next r)"
proof -
  have a: "applyMovement s (mi_qtyQ4 m) (sm_value r) = Inr (sm_next r)"
    and "movementValue s m = Inr (sm_value r, sm_unitCostSnapshot r)" "signOk (mi_kind m) (mi_qtyQ4 m)"
    using assms(2) by (simp_all add: simulateMovement_eq_Inr)
  with movementValue_valuation [OF assms(1)] assms(3,4) applyMovement_fields(1,2) [OF a]
  have "0 \<le> valuation (sm_next r)" "onHand (sm_next r) = 0 \<longrightarrow> valuation (sm_next r) = 0"
    by (metis, metis)
  moreover have "key_ok (sm_next r)"
    using simulate_key_ok [OF _ assms(2)] assms(1) by (simp add: key_solvent_def)
  ultimately show ?thesis by (simp add: key_solvent_def)
qed

subsection \<open>Transfers and reversals\<close>

definition transferOutInput :: "int \<Rightarrow> MovementInput" where
  "transferOutInput q = \<lparr>mi_kind = K_transfer_out, mi_qtyQ4 = - q, mi_costC10 = None, mi_value = None,
     mi_pairedOut = None, mi_pairedPurchase = None\<rparr>"

definition transferInInput :: "int \<Rightarrow> int \<Rightarrow> int \<Rightarrow> MovementInput" where
  "transferInInput q outValue cost = \<lparr>mi_kind = K_transfer_in, mi_qtyQ4 = q, mi_costC10 = None, mi_value = None,
     mi_pairedOut = Some \<lparr>pm_value = outValue, pm_costC10 = cost, pm_qtyQ4 = - q\<rparr>, mi_pairedPurchase = None\<rparr>"

lemma transferIn_value:
  "simulateMovement s (transferInInput q v c) = Inr r \<Longrightarrow> sm_value r = - v \<and> sm_unitCostSnapshot r = Some c"
  by (auto simp: simulateMovement_eq_Inr movementValue_def transferInInput_def transferInValue_def signOk_def Let_def
      split: if_splits)

lemma transfer_sums:
  assumes "simulateMovement a (transferOutInput q) = Inr r" "sm_unitCostSnapshot r = Some c"
    "simulateMovement b (transferInInput q (sm_value r) c) = Inr r'"
  shows "valuation (sm_next r) + valuation (sm_next r') = valuation a + valuation b"
    "onHand (sm_next r) + onHand (sm_next r') = onHand a + onHand b"
proof -
  have "applyMovement a (- q) (sm_value r) = Inr (sm_next r)"
    using assms(1) by (simp add: simulateMovement_eq_Inr transferOutInput_def)
  moreover have "applyMovement b q (- sm_value r) = Inr (sm_next r')"
    using assms(3) transferIn_value [OF assms(3)] by (simp add: simulateMovement_eq_Inr transferInInput_def)
  ultimately show "valuation (sm_next r) + valuation (sm_next r') = valuation a + valuation b"
    "onHand (sm_next r) + onHand (sm_next r') = onHand a + onHand b"
    using applyMovement_fields(1,2) by force+
qed

definition reversalInput :: "int \<Rightarrow> int \<Rightarrow> int \<Rightarrow> MovementInput" where
  "reversalInput q v c = \<lparr>mi_kind = K_purchase_reversal, mi_qtyQ4 = - q, mi_costC10 = None, mi_value = None,
     mi_pairedOut = None, mi_pairedPurchase = Some \<lparr>pm_value = v, pm_costC10 = c, pm_qtyQ4 = q\<rparr>\<rparr>"

lemma purchase_value:
  assumes "movementValue s m = Inr (v, sn)" "mi_kind m = K_purchase" "mi_costC10 m = Some c" "0 < mi_qtyQ4 m"
  shows "0 \<le> c" "c < COST_LIMIT_C10" "0 \<le> v" "sn = Some c"
proof -
  from assms have c: "0 \<le> c" "c < COST_LIMIT_C10" "sn = Some c"
    and "v = halfEven (mi_qtyQ4 m * c) Q4_TIMES_C10 \<or> 0 \<le> v"
    by (auto simp: movementValue_def Let_def result_simps split: option.splits)
  then show "0 \<le> c" "c < COST_LIMIT_C10" "0 \<le> v" "sn = Some c"
    using assms(4) halfEven_nonneg [of Q4_TIMES_C10 "mi_qtyQ4 m * c"] by auto
qed

lemma purchase_movement:
  assumes "simulateMovement s m = Inr r" "mi_kind m = K_purchase" "mi_costC10 m = Some c"
  shows "0 < mi_qtyQ4 m" "mi_qtyQ4 m < QTY_LIMIT_Q4" "0 \<le> c" "c < COST_LIMIT_C10" "0 \<le> sm_value r"
    "sm_unitCostSnapshot r = Some c" "applyMovement s (mi_qtyQ4 m) (sm_value r) = Inr (sm_next r)"
proof -
  have "signOk K_purchase (mi_qtyQ4 m)" "\<bar>mi_qtyQ4 m\<bar> < QTY_LIMIT_Q4"
    and v: "movementValue s m = Inr (sm_value r, sm_unitCostSnapshot r)"
    and "applyMovement s (mi_qtyQ4 m) (sm_value r) = Inr (sm_next r)"
    using assms by (auto simp: simulateMovement_eq_Inr)
  then show q: "0 < mi_qtyQ4 m" "mi_qtyQ4 m < QTY_LIMIT_Q4"
    "applyMovement s (mi_qtyQ4 m) (sm_value r) = Inr (sm_next r)"
    by (auto simp: signOk_def)
  show "0 \<le> c" "c < COST_LIMIT_C10" "0 \<le> sm_value r" "sm_unitCostSnapshot r = Some c"
    using purchase_value [OF v assms(2,3) q(1)] by auto
qed

text \<open>A receipt and its immediate reversal leave the key as it was; only the sequence number moves on.\<close>

lemma purchase_then_reversal:
  assumes "key_solvent s" "simulateMovement s m = Inr r" "mi_kind m = K_purchase" "mi_costC10 m = Some c"
  shows "\<exists>r'. simulateMovement (sm_next r) (reversalInput (mi_qtyQ4 m) (sm_value r) c) = Inr r'
     \<and> onHand (sm_next r') = onHand s \<and> valuation (sm_next r') = valuation s
     \<and> (onHand s \<noteq> 0 \<longrightarrow> avg (sm_next r') = avg s)"
proof -
  note p = purchase_movement [OF assms(2-4)]
  note f = applyMovement_fields [OF p(7)]
  let ?q = "mi_qtyQ4 m" and ?v = "sm_value r" and ?n = "sm_next r"
  have s: "0 \<le> onHand s" "onHand s < QTY_LIMIT_Q4" "0 \<le> valuation s" "\<bar>valuation s\<bar> \<le> VALUE_LIMIT_MINOR"
    "onHand s = 0 \<longrightarrow> valuation s = 0"
    "onHand s \<noteq> 0 \<longrightarrow> avg s = Some (halfEven (valuation s * Q4_TIMES_C10) (onHand s))"
    and lim: "\<And>a. avg s = Some a \<Longrightarrow> \<bar>a\<bar> < COST_LIMIT_C10"
    using assms(1) by (auto simp: key_solvent_def key_ok_def)
  have v: "?v \<le> VALUE_LIMIT_MINOR" using p(7) p(5) by (auto simp: applyMovement_eq_Inr)
  have mv: "movementValue ?n (reversalInput ?q ?v c) = Inr (- ?v, Some c)"
    using p(1-5) f(1,2) s v
    by (auto simp: movementValue_def reversalInput_def bindR_eq_Inr purchaseReversalValue_eq_Inr)
  define r' where "r' = \<lparr>sm_value = - ?v, sm_unitCostSnapshot = Some c, sm_next =
     \<lparr>onHand = onHand s, valuation = valuation s, avg = derivedAverage (valuation s) (onHand s) (avg ?n),
      lastStockSeq = lastStockSeq ?n + 1\<rparr>\<rparr>"
  have "\<bar>a\<bar> < COST_LIMIT_C10" if "derivedAverage (valuation s) (onHand s) (avg ?n) = Some a" for a
    using that lim s(6) f(8) by (cases "onHand s = 0") (auto simp: derivedAverage_def)
  then have "applyMovement ?n (- ?q) (- ?v) = Inr (sm_next r')"
    using p(1,2,5) f(1,2) s v by (auto simp: applyMovement_eq_Inr r'_def)
  with mv p(1,2) have "simulateMovement ?n (reversalInput ?q ?v c) = Inr r'"
    by (simp add: simulateMovement_eq_Inr r'_def reversalInput_def signOk_def)
  then show ?thesis using s(6) by (intro exI [of _ r']) (auto simp: r'_def derivedAverage_def)
qed

subsection \<open>The rebuild\<close>

lemma foldMovementsFrom_append:
  "foldMovementsFrom s (xs @ ys) = bindR (foldMovementsFrom s xs) (\<lambda>s'. foldMovementsFrom s' ys)"
proof (induction xs arbitrary: s)
  case (Cons m xs)
  then show ?case by (cases "applyMovement s (st_qtyQ4 m) (st_value m)") simp_all
qed simp

lemma foldMovementsFrom_sums:
  assumes "foldMovementsFrom s ms = Inr s'"
  shows "onHand s' = onHand s + sum_list (map st_qtyQ4 ms)" "valuation s' = valuation s + sum_list (map st_value ms)"
    "lastStockSeq s' = lastStockSeq s + int (length ms)"
    "map st_stockSeq ms = map (\<lambda>k. lastStockSeq s + int k) [1..<Suc (length ms)]"
proof -
  have "onHand s' = onHand s + sum_list (map st_qtyQ4 ms) \<and> valuation s' = valuation s + sum_list (map st_value ms)
    \<and> lastStockSeq s' = lastStockSeq s + int (length ms)
    \<and> (\<forall>k < length ms. st_stockSeq (ms ! k) = lastStockSeq s + int k + 1)"
    using assms
  proof (induction ms arbitrary: s)
    case (Cons m ms)
    then obtain t where t: "st_stockSeq m = lastStockSeq s + 1" "applyMovement s (st_qtyQ4 m) (st_value m) = Inr t"
      "foldMovementsFrom t ms = Inr s'" by (auto simp: result_simps simp del: applyMovement_eq_Inr)
    from Cons.IH [OF t(3)] applyMovement_fields(1-3) [OF t(2)] t(1) show ?case
      by (auto simp: nth_Cons split: nat.splits)
  qed simp
  then show "onHand s' = onHand s + sum_list (map st_qtyQ4 ms)" "valuation s' = valuation s + sum_list (map st_value ms)"
    "lastStockSeq s' = lastStockSeq s + int (length ms)"
    "map st_stockSeq ms = map (\<lambda>k. lastStockSeq s + int k) [1..<Suc (length ms)]"
    by (auto intro!: nth_equalityI simp: nth_upt simp del: upt_Suc)
qed

definition average_derived :: "StockState \<Rightarrow> bool" where
  "average_derived s \<longleftrightarrow> (onHand s \<noteq> 0 \<longrightarrow> avg s = Some (halfEven (valuation s * Q4_TIMES_C10) (onHand s)))"

lemma applyMovement_average: "applyMovement s q v = Inr s' \<Longrightarrow> average_derived s'"
  by (auto simp: applyMovement_eq_Inr average_derived_def derivedAverage_def)

lemma foldMovementsFrom_average:
  "average_derived s \<Longrightarrow> foldMovementsFrom s ms = Inr s' \<Longrightarrow> average_derived s'"
  by (induction ms arbitrary: s) (auto simp: bindR_eq_Inr if_refuse_eq_Inr dest: applyMovement_average)

text \<open>
  The ledger of one key: each request that succeeds stores its row. \<open>ledgerStep\<close> is what
  the stock primitive does per request, the row and the cached state together.
\<close>

definition ledgerStep :: "StockState \<times> StoredMovement list \<Rightarrow> MovementInput \<Rightarrow> (StockState \<times> StoredMovement list) result" where
  "ledgerStep l m = bindR (simulateMovement (fst l) m) (\<lambda>r.
     Inr (sm_next r, snd l @ [\<lparr>st_stockSeq = lastStockSeq (sm_next r), st_qtyQ4 = mi_qtyQ4 m, st_value = sm_value r\<rparr>]))"

definition ledger_ok :: "StockState \<times> StoredMovement list \<Rightarrow> bool" where
  "ledger_ok l \<longleftrightarrow> key_ok (fst l) \<and> foldMovements (snd l) = Inr (fst l)"

interpretation key_ledger: preserved ledgerStep ledger_ok
proof
  fix l m l'
  assume l: "ledger_ok l" "ledgerStep l m = Inr l'"
  then obtain r where r: "simulateMovement (fst l) m = Inr r"
    and l': "l' = (sm_next r, snd l @ [\<lparr>st_stockSeq = lastStockSeq (sm_next r), st_qtyQ4 = mi_qtyQ4 m, st_value = sm_value r\<rparr>])"
    by (auto simp: ledgerStep_def bindR_eq_Inr)
  have a: "applyMovement (fst l) (mi_qtyQ4 m) (sm_value r) = Inr (sm_next r)"
    using r by (simp add: simulateMovement_eq_Inr)
  have "foldMovements (snd l') = Inr (sm_next r)"
    using l(1) a applyMovement_fields(3) [OF a]
    by (simp add: l' foldMovements_def foldMovementsFrom_append ledger_ok_def)
  moreover have "key_ok (sm_next r)" using simulate_key_ok [OF _ r] l(1) by (simp add: ledger_ok_def)
  ultimately show "ledger_ok l'" by (simp add: ledger_ok_def l')
qed

lemma ledger_ok_empty: "ledger_ok (EMPTY_STOCK_STATE, [])"
  using key_ok_empty by (simp add: ledger_ok_def foldMovements_def key_solvent_def)

subsection \<open>Sequences of movements\<close>

text \<open>
  The keys of a business and the departures stored so far, after any sequence of accepted movements with a
  quantity over keys that start empty. A \<open>transfer_in\<close> is handed a stored departure: the primitive reads the
  leg of the same document from the table.
\<close>

inductive stock_run :: "(string \<Rightarrow> StockState) \<Rightarrow> PairedMovement list \<Rightarrow> bool" where
  no_stock: "stock_run (\<lambda>_. EMPTY_STOCK_STATE) []"
| moved: "stock_run keys outs \<Longrightarrow> simulateMovement (keys k) m = Inr r \<Longrightarrow> mi_qtyQ4 m \<noteq> 0 \<Longrightarrow> mi_kind m \<noteq> K_transfer_out
    \<Longrightarrow> set_option (mi_pairedOut m) \<subseteq> set outs \<Longrightarrow> stock_run (keys(k := sm_next r)) outs"
| departed: "stock_run keys outs \<Longrightarrow> simulateMovement (keys k) m = Inr r \<Longrightarrow> mi_qtyQ4 m \<noteq> 0 \<Longrightarrow> mi_kind m = K_transfer_out
    \<Longrightarrow> sm_unitCostSnapshot r = Some c
    \<Longrightarrow> stock_run (keys(k := sm_next r)) (\<lparr>pm_value = sm_value r, pm_costC10 = c, pm_qtyQ4 = mi_qtyQ4 m\<rparr> # outs)"

lemma departure_value:
  assumes "key_solvent s" "simulateMovement s m = Inr r" "mi_kind m = K_transfer_out" "mi_qtyQ4 m \<noteq> 0"
  shows "sm_value r \<le> 0"
proof -
  from assms(2-4) have "mi_qtyQ4 m < 0" by (auto simp: simulateMovement_eq_Inr signOk_def)
  with assms(2-4) obtain c where "outboundValue s (mi_qtyQ4 m) = Inr (sm_value r, c)"
    by (auto simp: simulateMovement_eq_Inr movementValue_def Let_def bindR_eq_Inr split: if_splits)
  from outbound_valuation(2) [OF assms(1) this] show ?thesis .
qed

lemma stock_run_sound: "stock_run keys outs \<Longrightarrow> (\<forall>k. key_solvent (keys k)) \<and> (\<forall>p \<in> set outs. pm_value p \<le> 0)"
proof (induction rule: stock_run.induct)
  case no_stock
  then show ?case by (simp add: key_ok_empty)
next
  case (moved keys outs k m r)
  then have "pairs_ok m" by (cases "mi_pairedOut m") (auto simp: pairs_ok_def)
  with simulate_key_solvent [of "keys k" m r] moved show ?case by simp
next
  case (departed keys outs k m r c)
  then have "pairs_ok m" by (simp add: pairs_ok_def)
  with simulate_key_solvent [of "keys k" m r] departure_value [of "keys k" m r] departed show ?case by simp
qed

subsection \<open>Properties\<close>

text \<open>C3: Every stock key stays sound, whatever accepted movements with a quantity follow one another over any number of keys
  that start empty, a transfer-in being handed a departure that was stored: the stock and the valuation stay non-negative and
  within their columns, a key emptied of stock is emptied of value, and the stored average is the rounded quotient of the
  two whenever there is stock.\<close>

theorem stock_key_sound:
  assumes "stock_run keys outs"
  shows "key_solvent (keys k)"
  using stock_run_sound [OF assms] by blast

definition sample_receipt :: MovementInput where
  "sample_receipt = \<lparr>mi_kind = K_purchase, mi_qtyQ4 = 30000, mi_costC10 = Some 33333333333, mi_value = None,
     mi_pairedOut = None, mi_pairedPurchase = None\<rparr>"

definition sample_key :: StockState where
  "sample_key = \<lparr>onHand = 30000, valuation = 10, avg = Some 33333333333, lastStockSeq = 1\<rparr>"

lemma sample_receipt_simulates:
  "simulateMovement EMPTY_STOCK_STATE sample_receipt
     = Inr \<lparr>sm_value = 10, sm_unitCostSnapshot = Some 33333333333, sm_next = sample_key\<rparr>"
  by (simp add: simulateMovement_eq_Inr sample_receipt_def sample_key_def movementValue_def bindR_eq_Inr range_checks
      inboundValue_eq_Inr applyMovement_eq_Inr derivedAverage_def EMPTY_STOCK_STATE_def signOk_def limits Q4_TIMES_C10_def)
    (simp add: halfEven_def)

theorem stock_key_sound_witness:
  "key_solvent \<lparr>onHand = 20000, valuation = 7, avg = Some 35000000000, lastStockSeq = 2\<rparr>
   \<and> key_solvent \<lparr>onHand = 10000, valuation = 3, avg = Some 30000000000, lastStockSeq = 1\<rparr>"
proof -
  let ?out = "\<lparr>sm_value = - 3, sm_unitCostSnapshot = Some 33333333333,
    sm_next = \<lparr>onHand = 20000, valuation = 7, avg = Some 35000000000, lastStockSeq = 2\<rparr>\<rparr>"
  let ?in = "\<lparr>sm_value = 3, sm_unitCostSnapshot = Some 33333333333,
    sm_next = \<lparr>onHand = 10000, valuation = 3, avg = Some 30000000000, lastStockSeq = 1\<rparr>\<rparr>"
  let ?ks = "(\<lambda>_. EMPTY_STOCK_STATE)(''a'' := sample_key)"
  have "stock_run ?ks []"
    using stock_run.moved [OF stock_run.no_stock, where k = "''a''" and m = sample_receipt] sample_receipt_simulates by (simp add: sample_receipt_def)
  moreover have "simulateMovement (?ks ''a'') (transferOutInput 10000) = Inr ?out"
    "simulateMovement ((?ks(''a'' := sm_next ?out)) ''b'') (transferInInput 10000 (- 3) 33333333333) = Inr ?in" by code_simp+
  ultimately have r: "stock_run (?ks(''a'' := sm_next ?out)) [\<lparr>pm_value = - 3, pm_costC10 = 33333333333, pm_qtyQ4 = - 10000\<rparr>]"
    "simulateMovement ((?ks(''a'' := sm_next ?out)) ''b'') (transferInInput 10000 (- 3) 33333333333) = Inr ?in"
    using stock_run.departed [of ?ks "[]" "''a''" "transferOutInput 10000" ?out 33333333333] by (simp_all add: transferOutInput_def)
  have "stock_run (?ks(''a'' := sm_next ?out, ''b'' := sm_next ?in)) [\<lparr>pm_value = - 3, pm_costC10 = 33333333333, pm_qtyQ4 = - 10000\<rparr>]"
    by (rule stock_run.moved [OF r]) (simp_all add: transferInInput_def)
  from stock_key_sound [OF this, of "''a''"] stock_key_sound [OF this, of "''b''"] show ?thesis by simp
qed

text \<open>C8: Rebuilding a key from the rows it stored gives the cached state exactly: after any sequence of
  accepted requests from the empty key, folding the stored rows yields the quantity, the value, the
  average and the sequence number the requests left.\<close>

theorem rebuild_equals_cache:
  assumes "runR ledgerStep (EMPTY_STOCK_STATE, []) ms = Inr (s, rows)"
  shows "foldMovements rows = Inr s"
  using key_ledger.run_inv [OF ledger_ok_empty assms] by (simp add: ledger_ok_def)

theorem rebuild_equals_cache_witness:
  "foldMovements [\<lparr>st_stockSeq = 1, st_qtyQ4 = 30000, st_value = 10\<rparr>] = Inr sample_key"
  by (rule rebuild_equals_cache [of "[sample_receipt]"])
    (simp add: ledgerStep_def sample_receipt_simulates, simp add: sample_receipt_def sample_key_def)

text \<open>A rebuild that succeeds has read the whole history in order: the sequence numbers are 1, 2, 3, ...
  without a gap, and the quantity and the value are the sums over the rows.\<close>

theorem rebuild_sums:
  assumes "foldMovements rows = Inr s"
  shows "map st_stockSeq rows = map int [1..<Suc (length rows)] \<and> onHand s = sum_list (map st_qtyQ4 rows)
    \<and> valuation s = sum_list (map st_value rows) \<and> lastStockSeq s = int (length rows) \<and> average_derived s"
  using foldMovementsFrom_sums [of EMPTY_STOCK_STATE rows s] foldMovementsFrom_average [of EMPTY_STOCK_STATE rows s] assms
  by (simp add: foldMovements_def EMPTY_STOCK_STATE_def average_derived_def del: upt_Suc)

theorem rebuild_sums_witness:
  "onHand sample_key = 30000 \<and> valuation sample_key = 10 \<and> average_derived sample_key"
proof -
  have "foldMovements [\<lparr>st_stockSeq = 1, st_qtyQ4 = 30000, st_value = 10\<rparr>] = Inr sample_key"
    by (simp add: foldMovements_def EMPTY_STOCK_STATE_def sample_key_def bindR_eq_Inr applyMovement_eq_Inr derivedAverage_def
        limits Q4_TIMES_C10_def) (simp add: halfEven_def)
  from rebuild_sums [OF this] show ?thesis by simp
qed

text \<open>A receipt reversed at once leaves the key's stock and value exactly as they were, and its
  average too unless the key was empty; the reversal is never refused.\<close>

theorem receipt_reversal_restores:
  assumes "key_solvent s" "simulateMovement s m = Inr r" "mi_kind m = K_purchase" "mi_costC10 m = Some c"
  shows "\<exists>r'. simulateMovement (sm_next r) (reversalInput (mi_qtyQ4 m) (sm_value r) c) = Inr r'
     \<and> onHand (sm_next r') = onHand s \<and> valuation (sm_next r') = valuation s
     \<and> (onHand s \<noteq> 0 \<longrightarrow> avg (sm_next r') = avg s)"
  using assms by (rule purchase_then_reversal)

theorem receipt_reversal_restores_witness:
  "\<exists>r'. simulateMovement sample_key (reversalInput 30000 10 33333333333) = Inr r'
     \<and> onHand (sm_next r') = 0 \<and> valuation (sm_next r') = 0"
  using receipt_reversal_restores [OF key_ok_empty sample_receipt_simulates]
  by (simp add: sample_receipt_def EMPTY_STOCK_STATE_def)

text \<open>A transfer moves value and stock between two keys without creating or losing any.\<close>

theorem transfer_conserves:
  assumes "simulateMovement a (transferOutInput q) = Inr r" "sm_unitCostSnapshot r = Some c"
    "simulateMovement b (transferInInput q (sm_value r) c) = Inr r'"
  shows "valuation (sm_next r) + valuation (sm_next r') = valuation a + valuation b
    \<and> onHand (sm_next r) + onHand (sm_next r') = onHand a + onHand b"
  using transfer_sums [OF assms] by simp

definition sample_departed :: SimulatedMovement where
  "sample_departed = \<lparr>sm_value = - 3, sm_unitCostSnapshot = Some 33333333333,
     sm_next = \<lparr>onHand = 20000, valuation = 7, avg = Some 35000000000, lastStockSeq = 2\<rparr>\<rparr>"

definition sample_arrived :: SimulatedMovement where
  "sample_arrived = \<lparr>sm_value = 3, sm_unitCostSnapshot = Some 33333333333,
     sm_next = \<lparr>onHand = 10000, valuation = 3, avg = Some 30000000000, lastStockSeq = 1\<rparr>\<rparr>"

theorem transfer_conserves_witness:
  "valuation (sm_next sample_departed) + valuation (sm_next sample_arrived) = valuation sample_key + valuation EMPTY_STOCK_STATE
   \<and> onHand (sm_next sample_departed) + onHand (sm_next sample_arrived) = onHand sample_key + onHand EMPTY_STOCK_STATE"
proof (rule transfer_conserves)
  show "simulateMovement sample_key (transferOutInput 10000) = Inr sample_departed"
    by (simp add: simulateMovement_eq_Inr transferOutInput_def sample_key_def sample_departed_def movementValue_def bindR_eq_Inr
        outboundValue_eq_Inr applyMovement_eq_Inr derivedAverage_def signOk_def limits Q4_TIMES_C10_def) (simp add: halfEven_def)
  show "sm_unitCostSnapshot sample_departed = Some 33333333333" by (simp add: sample_departed_def)
  show "simulateMovement EMPTY_STOCK_STATE (transferInInput 10000 (sm_value sample_departed) 33333333333) = Inr sample_arrived"
    by (simp add: simulateMovement_eq_Inr transferInInput_def sample_departed_def sample_arrived_def movementValue_def
        transferInValue_def EMPTY_STOCK_STATE_def applyMovement_eq_Inr derivedAverage_def signOk_def limits Q4_TIMES_C10_def)
      (simp add: halfEven_def)
qed

end
