(* ===== verification/Landed_Cost.thy ===== *)
theory Landed_Cost
  imports Allocation Valuation
begin

text \<open>
  packages/inventory/src/landed-cost.ts and purchase-shares.ts: the totals of a purchase in
  the transaction currency's minor units (gross, discount, landed costs, total) and the split
  of its base total over the lines.

  Both splits go through the locale \<open>allocator\<close>. The manual allocations, which the caller
  supplies, are accepted only when they meet the same contract, so that the totals add up
  whichever mode a landed cost has: the defect assertion of \<open>lineTotals\<close> cannot fire.
\<close>

subsection \<open>The code\<close>

datatype LandedCostMode = by_value | manual

definition MAX_LANDED_COSTS :: nat where "MAX_LANDED_COSTS = 10"

record PurchaseLineInput =
  pl_qtyQ4 :: int
  pl_unitPriceC10 :: int
  pl_discountMinor :: int

record LandedCostInput =
  lc_mode :: LandedCostMode
  lc_amountMinor :: int
  lc_allocations :: "int list option"

definition lineGross :: "int \<Rightarrow> int \<Rightarrow> int result" where
  "lineGross qtyQ4 unitPriceC10 =
     (if qtyQ4 \<le> 0 \<or> QTY_LIMIT_Q4 \<le> qtyQ4 then refuse (InventoryError quantity_invalid)
      else if unitPriceC10 < 0 \<or> COST_LIMIT_C10 \<le> unitPriceC10 then refuse (InventoryError cost_invalid)
      else roundHalfEven (qtyQ4 * unitPriceC10) Q4_TIMES_C10)"

definition lineNet :: "int \<Rightarrow> int \<Rightarrow> int result" where
  "lineNet grossMinor discountMinor =
     (if discountMinor < 0 \<or> grossMinor < discountMinor then refuse (InventoryError purchase_discount_invalid)
      else Inr (grossMinor - discountMinor))"

definition assertLandedAmount :: "int \<Rightarrow> unit result" where
  "assertLandedAmount amountMinor =
     (if amountMinor \<le> 0 \<or> VALUE_LIMIT_MINOR < amountMinor then refuse (InventoryError purchase_landed_cost_invalid)
      else Inr ())"

definition allocateByValue :: "int \<Rightarrow> int list \<Rightarrow> int list result" where
  "allocateByValue amountMinor netsMinor =
     bindR (assertLandedAmount amountMinor) (\<lambda>_.
       if netsMinor = [] then refuse (InventoryError purchase_landed_cost_invalid)
       else if list_ex (\<lambda>n. n < 0) netsMinor then refuse (InventoryError purchase_landed_cost_invalid)
       else if foldl (+) 0 netsMinor = 0 then refuse (InventoryError purchase_landed_cost_denominator_zero)
       else largestRemainder (map (\<lambda>units. \<lparr>ed_units = units, ed_scale = 0\<rparr>) netsMinor) amountMinor)"

definition validateManual :: "int \<Rightarrow> int list \<Rightarrow> nat \<Rightarrow> int list result" where
  "validateManual amountMinor allocationsMinor lineCount =
     bindR (assertLandedAmount amountMinor) (\<lambda>_.
       if length allocationsMinor \<noteq> lineCount \<or> lineCount = 0 then refuse (InventoryError purchase_landed_cost_invalid)
       else if list_ex (\<lambda>a. a < 0) allocationsMinor then refuse (InventoryError purchase_landed_cost_invalid)
       else if foldl (+) 0 allocationsMinor \<noteq> amountMinor
         then refuse (InventoryError purchase_landed_cost_allocation_mismatch)
       else Inr allocationsMinor)"

record PurchaseLineTotals =
  pt_grossMinor :: int
  pt_discountMinor :: int
  pt_netMinor :: int
  pt_landedMinor :: int
  pt_totalMinor :: int

record PurchaseTotals =
  tt_lines :: "PurchaseLineTotals list"
  tt_allocations :: "int list list"
  tt_subtotalMinor :: int
  tt_landedMinor :: int
  tt_taxMinor :: int
  tt_totalMinor :: int

text \<open>The three callbacks of \<open>lineTotals\<close>.\<close>

definition linePartial :: "PurchaseLineInput \<Rightarrow> (int \<times> int \<times> int) result" where
  "linePartial l =
     bindR (lineGross (pl_qtyQ4 l) (pl_unitPriceC10 l)) (\<lambda>gross.
     bindR (lineNet gross (pl_discountMinor l)) (\<lambda>net. Inr (gross, pl_discountMinor l, net)))"

definition landedAllocation :: "int list \<Rightarrow> nat \<Rightarrow> LandedCostInput \<Rightarrow> int list result" where
  "landedAllocation nets lineCount c =
     (case lc_mode c of
        by_value \<Rightarrow>
          (if lc_allocations c \<noteq> None then refuse (InventoryError purchase_landed_cost_invalid)
           else allocateByValue (lc_amountMinor c) nets)
      | manual \<Rightarrow>
          (case lc_allocations c of
             None \<Rightarrow> refuse (InventoryError purchase_landed_cost_invalid)
           | Some as \<Rightarrow> validateManual (lc_amountMinor c) as lineCount))"

text \<open>\<open>allocations.reduce((a, row) => a + (row[i] ?? 0n), 0n)\<close>.\<close>

definition landedOf :: "int list list \<Rightarrow> nat \<Rightarrow> int" where
  "landedOf allocations i = foldl (\<lambda>a row. a + (if i < length row then row ! i else 0)) 0 allocations"

definition lineOut :: "int list list \<Rightarrow> nat \<Rightarrow> int \<times> int \<times> int \<Rightarrow> PurchaseLineTotals" where
  "lineOut allocations i p =
     (let (gross, discount, net) = p; landed = landedOf allocations i
      in \<lparr>pt_grossMinor = gross, pt_discountMinor = discount, pt_netMinor = net,
          pt_landedMinor = landed, pt_totalMinor = net + landed\<rparr>)"

definition lineTotals :: "PurchaseLineInput list \<Rightarrow> LandedCostInput list \<Rightarrow> int \<Rightarrow> PurchaseTotals result" where
  "lineTotals lines landedCosts taxMinor =
     (if lines = [] then refuse (InventoryError lines_required)
      else if MAX_LANDED_COSTS < length landedCosts then refuse (InventoryError purchase_landed_cost_invalid)
      else if taxMinor \<noteq> 0 then refuse (InventoryError payload_invalid)
      else bindR (mapR linePartial lines) (\<lambda>partial.
        let nets = map (\<lambda>(gross, discount, net). net) partial
        in bindR (mapR (landedAllocation nets (length lines)) landedCosts) (\<lambda>allocations.
          let out = map2 (lineOut allocations) [0..<length partial] partial;
              subtotal = foldl (+) 0 nets;
              landed = foldl (\<lambda>a c. a + lc_amountMinor c) 0 landedCosts;
              tot = subtotal + landed + taxMinor
          in if tot \<noteq> foldl (\<lambda>a l. a + pt_totalMinor l) 0 out + taxMinor then refuse Thrown_Error
             else if tot = 0 then refuse (InventoryError purchase_total_zero)
             else if VALUE_LIMIT_MINOR < tot then refuse (InventoryError value_out_of_range)
             else Inr \<lparr>tt_lines = out, tt_allocations = allocations, tt_subtotalMinor = subtotal,
                       tt_landedMinor = landed, tt_taxMinor = taxMinor, tt_totalMinor = tot\<rparr>)))"

text \<open>purchase-shares.ts.\<close>

definition baseShares :: "int \<Rightarrow> int list \<Rightarrow> int list result" where
  "baseShares baseTotalMinor lineTotalsMinor =
     (if baseTotalMinor \<le> 0 \<or> VALUE_LIMIT_MINOR < baseTotalMinor then refuse (InventoryError purchase_total_zero)
      else if lineTotalsMinor = [] then refuse (InventoryError lines_required)
      else if list_ex (\<lambda>t. t < 0) lineTotalsMinor then refuse (InventoryError allocation_invalid)
      else if foldl (+) 0 lineTotalsMinor = 0 then refuse (InventoryError purchase_total_zero)
      else largestRemainder (map (\<lambda>units. \<lparr>ed_units = units, ed_scale = 0\<rparr>) lineTotalsMinor) baseTotalMinor)"

definition unitCostC10 :: "int \<Rightarrow> int \<Rightarrow> int result" where
  "unitCostC10 baseShareMinor qtyQ4 =
     (if qtyQ4 \<le> 0 \<or> QTY_LIMIT_Q4 \<le> qtyQ4 then refuse (InventoryError quantity_invalid)
      else if baseShareMinor < 0 \<or> VALUE_LIMIT_MINOR < baseShareMinor then refuse (InventoryError value_out_of_range)
      else bindR (averageUnitCost baseShareMinor qtyQ4 None) (\<lambda>avg.
        case avg of None \<Rightarrow> refuse (InventoryError arithmetic_invalid) | Some a \<Rightarrow> Inr a))"

subsection \<open>Outcomes of the steps\<close>

lemma lineGross_eq_Inr [result_simps]:
  "lineGross q p = Inr g \<longleftrightarrow> 0 < q \<and> q < QTY_LIMIT_Q4 \<and> 0 \<le> p \<and> p < COST_LIMIT_C10 \<and> g = halfEven (q * p) Q4_TIMES_C10"
  by (auto simp: lineGross_def result_simps)

lemma lineNet_eq_Inr [result_simps]: "lineNet g d = Inr n \<longleftrightarrow> 0 \<le> d \<and> d \<le> g \<and> n = g - d"
  by (auto simp: lineNet_def)

lemma linePartial_eq_Inr:
  "linePartial l = Inr p \<Longrightarrow> (\<exists>g n. p = (g, pl_discountMinor l, n) \<and> 0 \<le> n \<and> n = g - pl_discountMinor l
     \<and> g = halfEven (pl_qtyQ4 l * pl_unitPriceC10 l) Q4_TIMES_C10 \<and> 0 \<le> pl_discountMinor l)"
  by (auto simp: linePartial_def result_simps)

lemma assertLandedAmount_eq_Inr [result_simps]:
  "assertLandedAmount a = Inr u \<longleftrightarrow> 0 < a \<and> a \<le> VALUE_LIMIT_MINOR"
  by (auto simp: assertLandedAmount_def)

lemma not_list_ex_neg: "\<not> list_ex (\<lambda>n. n < (0::int)) ns \<longleftrightarrow> list_all (\<lambda>n. 0 \<le> n) ns"
  by (auto simp: list_ex_iff list_all_iff not_less)

lemma sum_zero_iff_pos: "list_all (\<lambda>n. 0 \<le> n) ns \<Longrightarrow> sum_list ns \<noteq> 0 \<longleftrightarrow> 0 < (sum_list ns :: int)"
  using sum_list_nonneg_int [of ns] by (auto simp: list_all_iff less_le)

lemma allocateByValue_eq_Inr [result_simps]:
  "allocateByValue a ns = Inr as \<longleftrightarrow> 0 < a \<and> a \<le> VALUE_LIMIT_MINOR \<and> ns \<noteq> [] \<and> list_all (\<lambda>n. 0 \<le> n) ns
     \<and> 0 < sum_list ns \<and> largestRemainderInts a ns = Inr as"
  by (auto simp: allocateByValue_def result_simps not_list_ex_neg foldl_plus_sum_list largestRemainderInts_def
      sum_zero_iff_pos)

lemma validateManual_eq_Inr [result_simps]:
  "validateManual a as n = Inr bs \<longleftrightarrow> 0 < a \<and> a \<le> VALUE_LIMIT_MINOR \<and> length as = n \<and> n \<noteq> 0
     \<and> list_all (\<lambda>x. 0 \<le> x) as \<and> sum_list as = a \<and> bs = as"
  by (auto simp: validateManual_def result_simps not_list_ex_neg foldl_plus_sum_list)

lemma baseShares_eq_Inr [result_simps]:
  "baseShares b ts = Inr ss \<longleftrightarrow> 0 < b \<and> b \<le> VALUE_LIMIT_MINOR \<and> ts \<noteq> [] \<and> list_all (\<lambda>t. 0 \<le> t) ts
     \<and> 0 < sum_list ts \<and> largestRemainderInts b ts = Inr ss"
  by (auto simp: baseShares_def result_simps not_list_ex_neg foldl_plus_sum_list largestRemainderInts_def
      sum_zero_iff_pos)

lemma unitCostC10_eq_Inr [result_simps]:
  "unitCostC10 s q = Inr c \<longleftrightarrow> 0 < q \<and> q < QTY_LIMIT_Q4 \<and> 0 \<le> s \<and> s \<le> VALUE_LIMIT_MINOR
     \<and> c = halfEven (s * Q4_TIMES_C10) q"
  by (auto simp: unitCostC10_def result_simps derivedAverage_def)

subsection \<open>Base shares\<close>

lemma baseShares_split:
  assumes "baseShares b ts = Inr ss"
  shows "sum_list ss = b" "length ss = length ts" "list_all (\<lambda>s. 0 \<le> s) ss"
    "i < length ts \<Longrightarrow> \<bar>ss ! i * sum_list ts - b * ts ! i\<bar> < sum_list ts"
  using assms lr.split_sum lr.split_length lr.split_all_nonneg lr.split_quota
  by (fastforce simp: baseShares_eq_Inr list_all_iff)+

lemma baseShares_defined:
  "0 < b \<Longrightarrow> b \<le> VALUE_LIMIT_MINOR \<Longrightarrow> list_all (\<lambda>t. 0 \<le> t) ts \<Longrightarrow> 0 < sum_list ts \<Longrightarrow> \<exists>ss. baseShares b ts = Inr ss"
  using lr.split_defined [of b ts] by (cases "ts = []") (auto simp: baseShares_eq_Inr split_admits_def)

subsection \<open>The purchase totals\<close>

lemma landedAllocation_row:
  assumes "landedAllocation nets n c = Inr row" "length nets = n"
  shows "length row = n" "sum_list row = lc_amountMinor c" "list_all (\<lambda>x. 0 \<le> x) row" "0 < lc_amountMinor c"
proof -
  have "length row = n \<and> sum_list row = lc_amountMinor c \<and> list_all (\<lambda>x. 0 \<le> x) row \<and> 0 < lc_amountMinor c"
  proof (cases "lc_mode c")
    case by_value
    with assms have "largestRemainderInts (lc_amountMinor c) nets = Inr row" "0 < lc_amountMinor c"
      by (auto simp: landedAllocation_def result_simps split: if_splits)
    with assms(2) lr.split_sum lr.split_length lr.split_all_nonneg show ?thesis
      by (fastforce simp: list_all_iff)
  next
    case manual
    with assms show ?thesis by (auto simp: landedAllocation_def result_simps split: option.splits)
  qed
  then show "length row = n" "sum_list row = lc_amountMinor c" "list_all (\<lambda>x. 0 \<le> x) row" "0 < lc_amountMinor c"
    by simp_all
qed

lemma landedOf_sum: "landedOf rows i = sum_list (map (\<lambda>row. if i < length row then row ! i else 0) rows)"
  by (simp add: landedOf_def foldl_plus_map)

lemma sum_columns:
  assumes "\<forall>row \<in> set rows. length row = n"
  shows "(\<Sum>i\<leftarrow>[0..<n]. landedOf rows i) = sum_list (map sum_list rows)"
  using assms
proof (induction rows)
  case Nil
  have "(\<Sum>i\<leftarrow>[0..<n]. landedOf [] i) = (\<Sum>i\<leftarrow>[0..<n]. 0)" by (simp add: landedOf_sum)
  then show ?case by (simp only: sum_list_0) simp
next
  case (Cons row rows)
  have row: "length row = n" using Cons.prems by simp
  have "map (\<lambda>i. if i < length row then row ! i else 0) [0..<n] = row"
    by (rule nth_equalityI) (use row in auto)
  then have "(\<Sum>i\<leftarrow>[0..<n]. (if i < length row then row ! i else 0)) = sum_list row" by simp
  moreover have "landedOf (row # rows) = (\<lambda>i. (if i < length row then row ! i else 0) + landedOf rows i)"
    by (rule ext) (simp add: landedOf_sum)
  then have "(\<Sum>i\<leftarrow>[0..<n]. landedOf (row # rows) i) =
      (\<Sum>i\<leftarrow>[0..<n]. (if i < length row then row ! i else 0)) + (\<Sum>i\<leftarrow>[0..<n]. landedOf rows i)"
    by (simp add: sum_list_addf)
  ultimately show ?case using Cons by simp
qed

lemma lineOut_total:
  "map pt_totalMinor (map2 (lineOut rows) [0..<length ps] ps)
     = map2 (\<lambda>i p. snd (snd p) + landedOf rows i) [0..<length ps] ps"
  by (auto simp: lineOut_def split_def Let_def)

lemma sum_map2_add:
  "length is = length ps \<Longrightarrow>
     sum_list (map2 (\<lambda>i p. f p + g i) is ps) = sum_list (map f ps) + (sum_list (map g is) :: int)"
  by (induction "is" ps rule: list_induct2) auto

text \<open>What \<open>lineTotals\<close> has computed when it returns, and why its defect assertion is dead code.\<close>

lemma lineTotals_sum:
  assumes "mapR (landedAllocation (map (snd \<circ> snd) ps) (length ps)) cs = Inr rows"
  shows "sum_list (map pt_totalMinor (map2 (lineOut rows) [0..<length ps] ps))
     = sum_list (map (snd \<circ> snd) ps) + sum_list (map lc_amountMinor cs)"
proof -
  have rows: "list_all2 (\<lambda>c row. landedAllocation (map (snd \<circ> snd) ps) (length ps) c = Inr row) cs rows"
    using assms by (simp add: mapR_eq_Inr_iff)
  then have "list_all2 (\<lambda>c row. length row = length ps \<and> sum_list row = lc_amountMinor c) cs rows"
    by (rule list_all2_mono) (simp add: landedAllocation_row(1,2))
  then have "(\<forall>row \<in> set rows. length row = length ps) \<and> map sum_list rows = map lc_amountMinor cs"
    by (induction rule: list_all2_induct) auto
  with sum_columns [of rows "length ps"]
  have "(\<Sum>i\<leftarrow>[0..<length ps]. landedOf rows i) = sum_list (map lc_amountMinor cs)" by metis
  then show ?thesis
    using sum_map2_add [of "[0..<length ps]" ps "\<lambda>p. snd (snd p)" "landedOf rows"]
    by (simp only: lineOut_total length_map length_upt) (simp add: comp_def)
qed

lemma snd_snd_case: "(\<lambda>(gross, discount, net). net) = snd \<circ> snd"
  by auto

lemma lineTotals_eq_Inr:
  "lineTotals ls cs tx = Inr t \<longleftrightarrow> ls \<noteq> [] \<and> length cs \<le> 10 \<and> tx = 0 \<and>
    (\<exists>ps rows. mapR linePartial ls = Inr ps \<and> mapR (landedAllocation (map (snd \<circ> snd) ps) (length ls)) cs = Inr rows
      \<and> t = \<lparr>tt_lines = map2 (lineOut rows) [0..<length ps] ps, tt_allocations = rows,
             tt_subtotalMinor = sum_list (map (snd \<circ> snd) ps), tt_landedMinor = sum_list (map lc_amountMinor cs),
             tt_taxMinor = 0, tt_totalMinor = sum_list (map (snd \<circ> snd) ps) + sum_list (map lc_amountMinor cs)\<rparr>
      \<and> tt_totalMinor t \<noteq> 0 \<and> tt_totalMinor t \<le> VALUE_LIMIT_MINOR)" (is "?l \<longleftrightarrow> ?r")
proof
  show "?l \<Longrightarrow> ?r"
    by (auto simp: lineTotals_def MAX_LANDED_COSTS_def Let_def result_simps snd_snd_case foldl_plus_sum_list foldl_plus_map)
next
  assume ?r
  then obtain ps rows where r: "mapR linePartial ls = Inr ps"
    "mapR (landedAllocation (map (snd \<circ> snd) ps) (length ls)) cs = Inr rows"
    and "ls \<noteq> []" "length cs \<le> 10" "tx = 0"
    and t: "t = \<lparr>tt_lines = map2 (lineOut rows) [0..<length ps] ps, tt_allocations = rows,
             tt_subtotalMinor = sum_list (map (snd \<circ> snd) ps), tt_landedMinor = sum_list (map lc_amountMinor cs),
             tt_taxMinor = 0, tt_totalMinor = sum_list (map (snd \<circ> snd) ps) + sum_list (map lc_amountMinor cs)\<rparr>"
      "tt_totalMinor t \<noteq> 0" "tt_totalMinor t \<le> VALUE_LIMIT_MINOR" by blast
  moreover have "sum_list (map pt_totalMinor (map2 (lineOut rows) [0..<length ps] ps))
     = sum_list (map (snd \<circ> snd) ps) + sum_list (map lc_amountMinor cs)"
    using lineTotals_sum r mapR_length by metis
  ultimately show ?l
    by (simp add: lineTotals_def MAX_LANDED_COSTS_def Let_def snd_snd_case foldl_plus_sum_list foldl_plus_map)
qed

lemma mapR_not_thrown: "(\<And>x. f x \<noteq> Inl e) \<Longrightarrow> mapR f xs \<noteq> Inl e"
  using mapR_Inl by metis

lemma roundHalfEven_pos: "0 < d \<Longrightarrow> roundHalfEven n d = Inr (halfEven n d)"
  by simp

lemma lineTotals_never_throws: "lineTotals ls cs tx \<noteq> Inl Thrown_Error"
proof
  assume a: "lineTotals ls cs tx = Inl Thrown_Error"
  have p: "mapR linePartial ls \<noteq> Inl Thrown_Error"
    by (rule mapR_not_thrown) (auto simp: linePartial_def lineGross_def lineNet_def bindR_eq_Inl)
  have "largestRemainder ws tot \<noteq> Inl Thrown_Error" for ws tot
    by (auto simp: largestRemainder_alt Let_def)
  then have r: "mapR (landedAllocation nets n) cs \<noteq> Inl Thrown_Error" for nets n
    by (intro mapR_not_thrown)
      (auto simp: landedAllocation_def allocateByValue_def validateManual_def assertLandedAmount_def bindR_eq_Inl
        split: LandedCostMode.splits option.splits)
  from a p r obtain ps rows where ps: "mapR linePartial ls = Inr ps"
    "mapR (landedAllocation (map (snd \<circ> snd) ps) (length ls)) cs = Inr rows"
    and ne: "sum_list (map (snd \<circ> snd) ps) + sum_list (map lc_amountMinor cs) \<noteq>
       sum_list (map pt_totalMinor (map2 (lineOut rows) [0..<length ps] ps))"
    by (auto simp: lineTotals_def Let_def bindR_eq_Inl snd_snd_case foldl_plus_sum_list foldl_plus_map split: if_splits)
  then show False using lineTotals_sum [of ps cs rows] mapR_length [OF ps(1)] by simp
qed

definition lineTotals_ok :: "LandedCostInput list \<Rightarrow> PurchaseTotals \<Rightarrow> bool" where
  "lineTotals_ok cs t \<longleftrightarrow>
     sum_list (map pt_totalMinor (tt_lines t)) = tt_totalMinor t
     \<and> tt_totalMinor t = tt_subtotalMinor t + tt_landedMinor t
     \<and> sum_list (map pt_netMinor (tt_lines t)) = tt_subtotalMinor t
     \<and> map sum_list (tt_allocations t) = map lc_amountMinor cs
     \<and> list_all (\<lambda>l. 0 \<le> pt_netMinor l \<and> pt_netMinor l = pt_grossMinor l - pt_discountMinor l
          \<and> 0 \<le> pt_landedMinor l \<and> pt_totalMinor l = pt_netMinor l + pt_landedMinor l) (tt_lines t)
     \<and> 0 < tt_totalMinor t \<and> tt_totalMinor t \<le> VALUE_LIMIT_MINOR"

lemma lineTotals_rows:
  assumes "mapR (landedAllocation nets n) cs = Inr rows" "length nets = n"
  shows "map sum_list rows = map lc_amountMinor cs" "\<forall>row \<in> set rows. list_all (\<lambda>x. 0 \<le> x) row"
    "\<forall>c \<in> set cs. 0 < lc_amountMinor c"
proof -
  have "list_all2 (\<lambda>c row. landedAllocation nets n c = Inr row) cs rows"
    using assms by (simp add: mapR_eq_Inr_iff)
  then have "list_all2 (\<lambda>c row. sum_list row = lc_amountMinor c \<and> list_all (\<lambda>x. 0 \<le> x) row \<and> 0 < lc_amountMinor c) cs rows"
    by (rule list_all2_mono) (use landedAllocation_row(2-4) assms(2) in blast)
  then have "map sum_list rows = map lc_amountMinor cs \<and> (\<forall>row \<in> set rows. list_all (\<lambda>x. 0 \<le> x) row)
     \<and> (\<forall>c \<in> set cs. 0 < lc_amountMinor c)"
    by (induction rule: list_all2_induct) auto
  then show "map sum_list rows = map lc_amountMinor cs" "\<forall>row \<in> set rows. list_all (\<lambda>x. 0 \<le> x) row"
    "\<forall>c \<in> set cs. 0 < lc_amountMinor c" by blast+
qed

lemma landedOf_nonneg: "\<forall>row \<in> set rows. list_all (\<lambda>x. 0 \<le> x) row \<Longrightarrow> 0 \<le> landedOf rows i"
  by (auto simp: landedOf_sum list_all_length intro!: sum_list_nonneg_int)

lemma lineTotals_ok_holds:
  assumes "lineTotals ls cs tx = Inr t"
  shows "lineTotals_ok cs t"
proof -
  from assms obtain ps rows where ps: "mapR linePartial ls = Inr ps"
    "mapR (landedAllocation (map (snd \<circ> snd) ps) (length ls)) cs = Inr rows"
    and t: "t = \<lparr>tt_lines = map2 (lineOut rows) [0..<length ps] ps, tt_allocations = rows,
             tt_subtotalMinor = sum_list (map (snd \<circ> snd) ps), tt_landedMinor = sum_list (map lc_amountMinor cs),
             tt_taxMinor = 0, tt_totalMinor = sum_list (map (snd \<circ> snd) ps) + sum_list (map lc_amountMinor cs)\<rparr>"
    and pos: "tt_totalMinor t \<noteq> 0" "tt_totalMinor t \<le> VALUE_LIMIT_MINOR"
    unfolding lineTotals_eq_Inr by blast
  have len: "length ls = length ps" using ps(1) mapR_length by metis
  have "length (map (snd \<circ> snd) ps) = length ls" using len by simp
  note rows = lineTotals_rows [OF ps(2) this]
  have net: "0 \<le> snd (snd p) \<and> snd (snd p) = fst p - fst (snd p)" if "p \<in> set ps" for p
    using mapR_set [OF ps(1) that] by (auto dest!: linePartial_eq_Inr)
  have "sum_list (map pt_totalMinor (tt_lines t)) = tt_totalMinor t"
    using lineTotals_sum [of ps cs rows] ps(2) len by (simp add: t)
  moreover have "map pt_netMinor (tt_lines t) = map (snd \<circ> snd) ps"
    by (rule nth_equalityI) (simp_all add: t lineOut_def split_def Let_def)
  moreover have "list_all (\<lambda>l. 0 \<le> pt_netMinor l \<and> pt_netMinor l = pt_grossMinor l - pt_discountMinor l
          \<and> 0 \<le> pt_landedMinor l \<and> pt_totalMinor l = pt_netMinor l + pt_landedMinor l) (tt_lines t)"
    using net by (auto simp: t list_all_iff lineOut_def split_def landedOf_nonneg [OF rows(2)] Let_def dest!: set_zip_rightD)
  moreover have "0 \<le> sum_list (map (snd \<circ> snd) ps)" "0 \<le> sum_list (map lc_amountMinor cs)"
    using net rows(3) len by (auto intro!: sum_list_nonneg_int simp: less_imp_le)
  then have "0 < tt_totalMinor t" using pos(1) by (simp add: t)
  ultimately show ?thesis using pos(2) rows(1) len by (simp add: lineTotals_ok_def) (simp add: t)
qed

subsection \<open>Properties\<close>

text \<open>C5: The totals of a purchase always add up: every accepted purchase's line totals sum to its total,
  which is the line nets plus the landed costs, each landed cost is spread over the lines exactly, no
  line is negative, and the defect check of the code never fires.\<close>

theorem purchase_totals_add_up:
  "lineTotals ls cs tx \<noteq> Inl Thrown_Error \<and> (\<forall>t. lineTotals ls cs tx = Inr t \<longrightarrow> lineTotals_ok cs t)"
  using lineTotals_never_throws lineTotals_ok_holds by blast

definition sample_lines :: "PurchaseLineInput list" where
  "sample_lines = [\<lparr>pl_qtyQ4 = 30000, pl_unitPriceC10 = 1005000000000, pl_discountMinor = 1\<rparr>,
     \<lparr>pl_qtyQ4 = 15000, pl_unitPriceC10 = 70000000000, pl_discountMinor = 0\<rparr>]"

definition sample_costs :: "LandedCostInput list" where
  "sample_costs = [\<lparr>lc_mode = by_value, lc_amountMinor = 50, lc_allocations = None\<rparr>,
     \<lparr>lc_mode = manual, lc_amountMinor = 7, lc_allocations = Some [3, 4]\<rparr>]"

definition sample_totals :: PurchaseTotals where
  "sample_totals = (case lineTotals sample_lines sample_costs 0 of Inr t \<Rightarrow> t
     | Inl e \<Rightarrow> \<lparr>tt_lines = [], tt_allocations = [], tt_subtotalMinor = 0, tt_landedMinor = 0, tt_taxMinor = 0, tt_totalMinor = 0\<rparr>)"

theorem purchase_totals_add_up_witness: "lineTotals_ok sample_costs sample_totals"
proof -
  have "lineTotals sample_lines sample_costs 0 = Inr sample_totals" by code_simp
  then show ?thesis using purchase_totals_add_up [of sample_lines sample_costs 0] by blast
qed

text \<open>The base total of a receipt is split over its lines exactly, fairly and without a negative share,
  and the split is defined for every positive base total and every purchase whose total is positive.\<close>

theorem base_shares_exact:
  assumes "0 < b" "b \<le> VALUE_LIMIT_MINOR" "list_all (\<lambda>t. 0 \<le> t) ts" "0 < sum_list ts"
  shows "\<exists>ss. baseShares b ts = Inr ss \<and> sum_list ss = b \<and> length ss = length ts \<and> list_all (\<lambda>s. 0 \<le> s) ss
     \<and> (\<forall>i < length ts. \<bar>ss ! i * sum_list ts - b * ts ! i\<bar> < sum_list ts)"
  using baseShares_defined [OF assms] baseShares_split by blast

theorem base_shares_exact_witness:
  "\<exists>ss. baseShares 100 [1, 1, 1] = Inr ss \<and> sum_list ss = 100"
  using base_shares_exact [of 100 "[1, 1, 1]"] by (auto simp: limits)

end
