(* ===== verification/Deficit_Coverage.thy ===== *)
theory Deficit_Coverage
  imports Landed_Cost "HOL-Library.List_Lexorder" "HOL-Library.Char_ord"
begin

text \<open>
  packages/inventory/src/deficit-coverage.ts: a purchase receipt covers the open deficit
  layers of its keys, first in first out, and corrects the value the sales below zero were
  booked at.

  Identifiers are lowercase UUIDs, so the comparison of the code units of two of them is the
  lexicographic order on strings; \<open>sort(fifo)\<close> is a stable sort on the pair of sequence
  number and identifier. The key of a line is \<open>planLine\<close>; its loop over the layers is
  \<open>coverLayers\<close>, which returns the rows it pushes and the state it leaves.
\<close>

subsection \<open>The code\<close>

record DeficitLayer =
  dl_deficitId :: string
  dl_variantId :: string
  dl_deficitSeq :: int
  dl_uncoveredQ4 :: int
  dl_provisionalC10 :: int

record CoverageLineInput =
  cl_lineId :: string
  cl_variantId :: string
  cl_qtyQ4 :: int
  cl_baseShareMinor :: int

datatype CoverageStatus = partially_covered | closed

record PlannedCoverage =
  pc_deficitId :: string
  pc_deficitSeq :: int
  pc_qtyCoveredQ4 :: int
  pc_provisionalC10 :: int
  pc_actualC10 :: int
  pc_formulaMinor :: int
  pc_valueMinor :: int
  pc_flush :: bool
  pc_movement :: bool
  pc_uncoveredAfterQ4 :: int
  pc_statusAfter :: CoverageStatus

record CoverageLinePlan =
  cp_lineId :: string
  cp_variantId :: string
  cp_qtyQ4 :: int
  cp_baseShareMinor :: int
  cp_actualC10 :: int
  cp_coveredQ4 :: int
  cp_catchUpMinor :: int
  cp_coverages :: "PlannedCoverage list"
  cp_stateAfter :: StockState

record CoveragePlan =
  cv_lines :: "CoverageLinePlan list"
  cv_coveredQ4 :: int
  cv_totalValueMinor :: int

definition fifo :: "DeficitLayer list \<Rightarrow> DeficitLayer list" where
  "fifo = sort_key (\<lambda>l. (dl_deficitSeq l, dl_deficitId l))"

fun checkLayers :: "DeficitLayer list \<Rightarrow> unit result" where
  "checkLayers [] = Inr ()"
| "checkLayers (l # ls) =
     (if dl_uncoveredQ4 l \<le> 0 then refuse (InventoryError deficit_state_invalid)
      else if dl_provisionalC10 l < 0 \<or> COST_LIMIT_C10 \<le> dl_provisionalC10 l
        then refuse (InventoryError deficit_state_invalid)
      else checkLayers ls)"

text \<open>The loop over the layers of a line, from the actual cost, whether the line closes all of
  them, the remaining quantity and the state of the key.\<close>

fun coverLayers :: "int \<Rightarrow> bool \<Rightarrow> int \<Rightarrow> StockState \<Rightarrow> DeficitLayer list \<Rightarrow> (PlannedCoverage list \<times> StockState) result" where
  "coverLayers actual closesAll remaining state [] = Inr ([], state)"
| "coverLayers actual closesAll remaining state (layer # layers) =
     (if remaining = 0 then Inr ([], state)
      else let c = (if dl_uncoveredQ4 layer < remaining then dl_uncoveredQ4 layer else remaining);
               remaining' = remaining - c
           in bindR (catchUpValue c actual (dl_provisionalC10 layer)) (\<lambda>formula.
              let flush = (closesAll \<and> remaining' = 0);
                  value = (if flush then - valuation state else formula)
              in bindR (if value \<noteq> 0 then applyMovement state 0 value else Inr state) (\<lambda>state'.
                 let uncoveredAfter = dl_uncoveredQ4 layer - c
                 in bindR (coverLayers actual closesAll remaining' state' layers) (\<lambda>(coverages, final).
                    Inr (\<lparr>pc_deficitId = dl_deficitId layer, pc_deficitSeq = dl_deficitSeq layer, pc_qtyCoveredQ4 = c,
                          pc_provisionalC10 = dl_provisionalC10 layer, pc_actualC10 = actual, pc_formulaMinor = formula,
                          pc_valueMinor = value, pc_flush = flush, pc_movement = (value \<noteq> 0),
                          pc_uncoveredAfterQ4 = uncoveredAfter,
                          pc_statusAfter = (if uncoveredAfter = 0 then closed else partially_covered)\<rparr> # coverages, final)))))"

definition planLine :: "CoverageLineInput \<Rightarrow> DeficitLayer list \<Rightarrow> StockState option \<Rightarrow> CoverageLinePlan result" where
  "planLine line layers before =
     (let state = (case before of None \<Rightarrow> EMPTY_STOCK_STATE | Some s \<Rightarrow> s)
      in bindR (checkLayers layers) (\<lambda>_.
         let deficit = foldl (\<lambda>a l. a + dl_uncoveredQ4 l) 0 layers
         in if deficit \<noteq> (if onHand state < 0 then - onHand state else 0) then refuse (InventoryError deficit_state_invalid)
            else bindR (unitCostC10 (cl_baseShareMinor line) (cl_qtyQ4 line)) (\<lambda>actual.
                 bindR (applyMovement state (cl_qtyQ4 line) (cl_baseShareMinor line)) (\<lambda>received.
                 let closesAll = (0 < deficit \<and> cl_qtyQ4 line = deficit)
                 in bindR (coverLayers actual closesAll (cl_qtyQ4 line) received layers) (\<lambda>(coverages, final).
                    if closesAll \<and> (onHand final \<noteq> 0 \<or> valuation final \<noteq> 0) then refuse Thrown_Error
                    else Inr \<lparr>cp_lineId = cl_lineId line, cp_variantId = cl_variantId line, cp_qtyQ4 = cl_qtyQ4 line,
                              cp_baseShareMinor = cl_baseShareMinor line, cp_actualC10 = actual,
                              cp_coveredQ4 = foldl (\<lambda>a c. a + pc_qtyCoveredQ4 c) 0 coverages,
                              cp_catchUpMinor = foldl (\<lambda>a c. a + pc_valueMinor c) 0 coverages,
                              cp_coverages = coverages, cp_stateAfter = final\<rparr>)))))"

definition planCoverage :: "DeficitLayer list \<Rightarrow> (string \<rightharpoonup> StockState) \<Rightarrow> CoverageLineInput list \<Rightarrow> CoveragePlan result" where
  "planCoverage layers keyStates lines =
     (if \<not> distinct (map cl_variantId lines) then refuse (InventoryError duplicate_line)
      else bindR (mapR (\<lambda>line. planLine line (fifo (filter (\<lambda>l. dl_variantId l = cl_variantId line) layers))
                                 (keyStates (cl_variantId line))) lines) (\<lambda>planned.
        Inr \<lparr>cv_lines = planned,
             cv_coveredQ4 = foldl (\<lambda>a l. a + cp_coveredQ4 l) 0 planned,
             cv_totalValueMinor = foldl (\<lambda>a l. a + cp_catchUpMinor l) 0 planned\<rparr>))"

subsection \<open>The loop over the layers\<close>

definition layers_ok :: "DeficitLayer list \<Rightarrow> bool" where
  "layers_ok ls \<longleftrightarrow> list_all (\<lambda>l. 0 < dl_uncoveredQ4 l \<and> 0 \<le> dl_provisionalC10 l \<and> dl_provisionalC10 l < COST_LIMIT_C10) ls"

lemma checkLayers_eq_Inr [result_simps]: "checkLayers ls = Inr u \<longleftrightarrow> layers_ok ls"
  by (induction ls) (auto simp: layers_ok_def)

definition uncovered :: "DeficitLayer list \<Rightarrow> int" where
  "uncovered ls = sum_list (map dl_uncoveredQ4 ls)"

lemma uncovered_simps [simp]: "uncovered [] = 0" "uncovered (l # ls) = dl_uncoveredQ4 l + uncovered ls"
  by (simp_all add: uncovered_def)

lemma uncovered_nonneg: "layers_ok ls \<Longrightarrow> 0 \<le> uncovered ls"
  by (induction ls) (auto simp: layers_ok_def)

lemma uncovered_pos: "layers_ok ls \<Longrightarrow> ls \<noteq> [] \<Longrightarrow> 0 < uncovered ls"
  using uncovered_nonneg by (cases ls) (auto simp: layers_ok_def add_pos_nonneg)

text \<open>The layers as the coverages leave them.\<close>

fun layersAfter :: "PlannedCoverage list \<Rightarrow> DeficitLayer list \<Rightarrow> DeficitLayer list" where
  "layersAfter (c # cs) (l # ls) = l\<lparr>dl_uncoveredQ4 := pc_uncoveredAfterQ4 c\<rparr> # layersAfter cs ls"
| "layersAfter [] ls = ls"
| "layersAfter (c # cs) [] = []"

text \<open>One iteration, as a rule for inductions over the loop.\<close>

definition cover_step :: "int \<Rightarrow> bool \<Rightarrow> int \<Rightarrow> StockState \<Rightarrow> DeficitLayer \<Rightarrow> PlannedCoverage \<Rightarrow> StockState \<Rightarrow> bool" where
  "cover_step a ca r s l c t \<longleftrightarrow>
     pc_qtyCoveredQ4 c = min (dl_uncoveredQ4 l) r
     \<and> pc_formulaMinor c = - halfEven (pc_qtyCoveredQ4 c * (a - dl_provisionalC10 l)) Q4_TIMES_C10
     \<and> pc_flush c = (ca \<and> r - pc_qtyCoveredQ4 c = 0)
     \<and> pc_valueMinor c = (if pc_flush c then - valuation s else pc_formulaMinor c)
     \<and> pc_uncoveredAfterQ4 c = dl_uncoveredQ4 l - pc_qtyCoveredQ4 c
     \<and> pc_statusAfter c = (if pc_uncoveredAfterQ4 c = 0 then closed else partially_covered)
     \<and> pc_deficitId c = dl_deficitId l
     \<and> onHand t = onHand s \<and> valuation t = valuation s + pc_valueMinor c"

lemma coverLayers_Cons:
  assumes "coverLayers a ca r s (l # ls) = Inr (cs, s')" "r \<noteq> 0"
  obtains c cs' t where "cs = c # cs'" "cover_step a ca r s l c t"
    "coverLayers a ca (r - pc_qtyCoveredQ4 c) t ls = Inr (cs', s')"
proof -
  let ?k = "if dl_uncoveredQ4 l < r then dl_uncoveredQ4 l else r"
  obtain f t cs' where f: "catchUpValue ?k a (dl_provisionalC10 l) = Inr f"
    and t: "(if (if ca \<and> r - ?k = 0 then - valuation s else f) \<noteq> 0
        then applyMovement s 0 (if ca \<and> r - ?k = 0 then - valuation s else f) else Inr s) = Inr t"
    and rest: "coverLayers a ca (r - ?k) t ls = Inr (cs', s')"
    and cs: "cs = \<lparr>pc_deficitId = dl_deficitId l, pc_deficitSeq = dl_deficitSeq l, pc_qtyCoveredQ4 = ?k,
                          pc_provisionalC10 = dl_provisionalC10 l, pc_actualC10 = a, pc_formulaMinor = f,
                          pc_valueMinor = (if ca \<and> r - ?k = 0 then - valuation s else f), pc_flush = (ca \<and> r - ?k = 0),
                          pc_movement = ((if ca \<and> r - ?k = 0 then - valuation s else f) \<noteq> 0),
                          pc_uncoveredAfterQ4 = dl_uncoveredQ4 l - ?k,
                          pc_statusAfter = (if dl_uncoveredQ4 l - ?k = 0 then closed else partially_covered)\<rparr> # cs'"
    using assms unfolding coverLayers.simps Let_def by (fastforce simp only: if_False bindR_eq_Inr split_paired_Ex prod.case sum.inject Pair_inject)
  have "f = - halfEven (?k * (a - dl_provisionalC10 l)) Q4_TIMES_C10" using f by (simp add: catchUpValue_eq_Inr)
  moreover have "onHand t = onHand s \<and> valuation t = valuation s + (if ca \<and> r - ?k = 0 then - valuation s else f)"
    using t applyMovement_fields(1,2) [of s 0 "if ca \<and> r - ?k = 0 then - valuation s else f" t]
    by (cases "(if ca \<and> r - ?k = 0 then - valuation s else f) = 0") auto
  ultimately show ?thesis
    by (intro that [OF cs, of t]) (use rest in \<open>simp_all add: cover_step_def min_def\<close>)
qed

lemma coverLayers_stop: "coverLayers a ca 0 s ls = Inr (cs, s') \<longleftrightarrow> cs = [] \<and> s' = s"
  by (cases ls) auto

lemma coverLayers_props:
  assumes "coverLayers a ca r s ls = Inr (cs, s')" "layers_ok ls" "0 \<le> r"
  shows "sum_list (map pc_qtyCoveredQ4 cs) = min r (uncovered ls)" "onHand s' = onHand s"
    "valuation s' = valuation s + sum_list (map pc_valueMinor cs)"
    "uncovered (layersAfter cs ls) = uncovered ls - sum_list (map pc_qtyCoveredQ4 cs)"
    "length cs \<le> length ls" "list_all (\<lambda>c. 0 < pc_qtyCoveredQ4 c \<and> 0 \<le> pc_uncoveredAfterQ4 c) cs"
proof -
  have "sum_list (map pc_qtyCoveredQ4 cs) = min r (uncovered ls) \<and> onHand s' = onHand s
    \<and> valuation s' = valuation s + sum_list (map pc_valueMinor cs)
    \<and> uncovered (layersAfter cs ls) = uncovered ls - sum_list (map pc_qtyCoveredQ4 cs)
    \<and> length cs \<le> length ls \<and> list_all (\<lambda>c. 0 < pc_qtyCoveredQ4 c \<and> 0 \<le> pc_uncoveredAfterQ4 c) cs"
    using assms
  proof (induction ls arbitrary: r s cs)
    case (Cons l ls)
    show ?case
    proof (cases "r = 0")
      case True
      then show ?thesis using Cons.prems uncovered_nonneg [of "l # ls"] by (auto simp: coverLayers_stop)
    next
      case False
      from coverLayers_Cons [OF Cons.prems(1) False] obtain c cs' t where c: "cs = c # cs'"
        "cover_step a ca r s l c t" "coverLayers a ca (r - pc_qtyCoveredQ4 c) t ls = Inr (cs', s')" .
      then have t: "pc_qtyCoveredQ4 c = min (dl_uncoveredQ4 l) r" "pc_uncoveredAfterQ4 c = dl_uncoveredQ4 l - pc_qtyCoveredQ4 c"
        "onHand t = onHand s" "valuation t = valuation s + pc_valueMinor c" by (simp_all add: cover_step_def)
      have ok: "layers_ok ls" "0 < dl_uncoveredQ4 l" using Cons.prems(2) by (simp_all add: layers_ok_def)
      from Cons.IH [OF c(3) ok(1)] t(1) Cons.prems(3)
      have "sum_list (map pc_qtyCoveredQ4 cs') = min (r - pc_qtyCoveredQ4 c) (uncovered ls)" "onHand s' = onHand t"
        "valuation s' = valuation t + sum_list (map pc_valueMinor cs')"
        "uncovered (layersAfter cs' ls) = uncovered ls - sum_list (map pc_qtyCoveredQ4 cs')" "length cs' \<le> length ls"
        "list_all (\<lambda>c. 0 < pc_qtyCoveredQ4 c \<and> 0 \<le> pc_uncoveredAfterQ4 c) cs'" by simp_all
      moreover have "min (dl_uncoveredQ4 l) r + min (r - min (dl_uncoveredQ4 l) r) (uncovered ls)
          = min r (dl_uncoveredQ4 l + uncovered ls)"
        using ok(2) uncovered_nonneg [OF ok(1)] Cons.prems(3) by (simp add: min_def)
      ultimately show ?thesis using c(1) t ok uncovered_nonneg [OF ok(1)] False Cons.prems(3) by auto
    qed
  qed simp
  then show "sum_list (map pc_qtyCoveredQ4 cs) = min r (uncovered ls)" "onHand s' = onHand s"
    "valuation s' = valuation s + sum_list (map pc_valueMinor cs)"
    "uncovered (layersAfter cs ls) = uncovered ls - sum_list (map pc_qtyCoveredQ4 cs)"
    "length cs \<le> length ls" "list_all (\<lambda>c. 0 < pc_qtyCoveredQ4 c \<and> 0 \<le> pc_uncoveredAfterQ4 c) cs" by blast+
qed

text \<open>First in, first out: a layer is touched only when every earlier one is closed by this line.\<close>

lemma coverLayers_fifo:
  assumes "coverLayers a ca r s ls = Inr (cs, s')" "layers_ok ls" "0 \<le> r" "Suc i < length cs"
  shows "pc_statusAfter (cs ! i) = closed" "pc_flush (cs ! i) = False"
proof -
  have "pc_statusAfter (cs ! i) = closed \<and> pc_flush (cs ! i) = False"
    using assms
  proof (induction ls arbitrary: r s cs i)
    case (Cons l ls)
    then have "r \<noteq> 0" by (auto simp: coverLayers_stop)
    from coverLayers_Cons [OF Cons.prems(1) this] obtain c cs' t where c: "cs = c # cs'"
        "cover_step a ca r s l c t" "coverLayers a ca (r - pc_qtyCoveredQ4 c) t ls = Inr (cs', s')" .
    show ?case
    proof (cases i)
      case 0
      with Cons.prems(4) c(1) have "cs' \<noteq> []" by auto
      with c(3) have "r - pc_qtyCoveredQ4 c \<noteq> 0" by (auto simp: coverLayers_stop)
      with 0 c show ?thesis by (auto simp: cover_step_def min_def split: if_splits)
    next
      case (Suc j)
      with Cons.IH [OF c(3), of j] Cons.prems c(1,2) show ?thesis by (simp add: layers_ok_def cover_step_def)
    qed
  qed simp
  then show "pc_statusAfter (cs ! i) = closed" "pc_flush (cs ! i) = False" by blast+
qed

text \<open>A line that closes every layer of its key leaves the key without value.\<close>

lemma coverLayers_flush:
  assumes "coverLayers a True r s ls = Inr (cs, s')" "layers_ok ls" "ls \<noteq> []" "r = uncovered ls"
  shows "valuation s' = 0"
  using assms
proof (induction ls arbitrary: r s cs)
  case (Cons l ls)
  have ok: "layers_ok ls" "0 < dl_uncoveredQ4 l" using Cons.prems(2) by (simp_all add: layers_ok_def)
  have r: "r \<noteq> 0" "dl_uncoveredQ4 l \<le> r" using Cons.prems(4) uncovered_nonneg [OF ok(1)] ok(2) by simp_all
  from coverLayers_Cons [OF Cons.prems(1) r(1)] obtain c cs' t where c: "cover_step a True r s l c t"
      "coverLayers a True (r - pc_qtyCoveredQ4 c) t ls = Inr (cs', s')" .
  have rest: "r - pc_qtyCoveredQ4 c = uncovered ls" using c(1) r(2) Cons.prems(4) by (simp add: cover_step_def)
  show ?case
  proof (cases "ls = []")
    case True
    then have "valuation t = 0" using rest c(1) by (simp add: cover_step_def)
    with c(2) True show ?thesis by simp
  next
    case False
    from Cons.IH [OF c(2) ok(1) False rest] show ?thesis .
  qed
qed simp

subsection \<open>The plan of a line\<close>

definition deficitOf :: "StockState \<Rightarrow> int" where
  "deficitOf s = max 0 (- onHand s)"

lemma deficit_guard: "(if onHand s < 0 then - onHand s else 0) = deficitOf s"
  by (simp add: deficitOf_def)

lemma foldl_uncovered: "foldl (\<lambda>a l. a + dl_uncoveredQ4 l) 0 ls = uncovered ls"
  by (simp add: uncovered_def foldl_plus_map)

definition before_state :: "StockState option \<Rightarrow> StockState" where
  "before_state b = (case b of None \<Rightarrow> EMPTY_STOCK_STATE | Some s \<Rightarrow> s)"

lemma planLine_unfold:
  "planLine line ls b = bindR (checkLayers ls) (\<lambda>_.
     if uncovered ls \<noteq> deficitOf (before_state b) then refuse (InventoryError deficit_state_invalid)
     else bindR (unitCostC10 (cl_baseShareMinor line) (cl_qtyQ4 line)) (\<lambda>actual.
       bindR (applyMovement (before_state b) (cl_qtyQ4 line) (cl_baseShareMinor line)) (\<lambda>received.
       bindR (coverLayers actual (0 < uncovered ls \<and> cl_qtyQ4 line = uncovered ls) (cl_qtyQ4 line) received ls) (\<lambda>p.
         if (0 < uncovered ls \<and> cl_qtyQ4 line = uncovered ls) \<and> (onHand (snd p) \<noteq> 0 \<or> valuation (snd p) \<noteq> 0)
         then refuse Thrown_Error
         else Inr \<lparr>cp_lineId = cl_lineId line, cp_variantId = cl_variantId line, cp_qtyQ4 = cl_qtyQ4 line,
                              cp_baseShareMinor = cl_baseShareMinor line, cp_actualC10 = actual,
                              cp_coveredQ4 = sum_list (map pc_qtyCoveredQ4 (fst p)),
                              cp_catchUpMinor = sum_list (map pc_valueMinor (fst p)),
                              cp_coverages = fst p, cp_stateAfter = snd p\<rparr>))))"
  unfolding planLine_def Let_def before_state_def [symmetric] deficit_guard foldl_uncovered
  by (simp add: foldl_plus_map split_def cong: if_cong)

text \<open>The assertion after the loop cannot fail.\<close>

lemma coverLayers_closing:
  assumes "layers_ok ls" "uncovered ls = deficitOf s" "applyMovement s q v = Inr t"
    "coverLayers a (0 < uncovered ls \<and> q = uncovered ls) q t ls = Inr p" "0 < uncovered ls" "q = uncovered ls"
  shows "onHand (snd p) = 0" "valuation (snd p) = 0"
proof -
  have p: "coverLayers a True q t ls = Inr (fst p, snd p)" using assms(4-6) by simp
  have "ls \<noteq> []" using assms(5) by auto
  with coverLayers_flush [OF p assms(1) _ assms(6)] show "valuation (snd p) = 0" by simp
  have "onHand t = onHand s + q" using assms(3) by (rule applyMovement_fields)
  with coverLayers_props(2) [OF p assms(1)] assms(2,5,6) show "onHand (snd p) = 0"
    by (simp add: deficitOf_def)
qed

lemma applyMovement_not_thrown: "applyMovement s q v \<noteq> Inl Thrown_Error"
  by (auto simp: applyMovement_def Let_def bindR_eq_Inl assertQuantityInRange_def assertValueInRange_def split: if_splits)

lemma coverLayers_not_thrown: "coverLayers a ca r s ls \<noteq> Inl Thrown_Error"
proof (induction ls arbitrary: r s)
  case (Cons l ls)
  have "catchUpValue c a p \<noteq> Inl Thrown_Error" for c p
    by (auto simp: catchUpValue_def bindR_eq_Inl assertQuantityInRange_def assertCost_def)
  with Cons show ?case
    by (auto simp: Let_def bindR_eq_Inl applyMovement_not_thrown split: if_splits)
qed simp

lemma planLine_not_thrown: "planLine line ls b \<noteq> Inl Thrown_Error"
proof
  assume "planLine line ls b = Inl Thrown_Error"
  moreover have "checkLayers ls \<noteq> Inl Thrown_Error" by (induction ls) auto
  moreover have "unitCostC10 v q \<noteq> Inl Thrown_Error" for v q
    by (auto simp: unitCostC10_def derivedAverage_def)
  ultimately obtain a t p where "layers_ok ls" "uncovered ls = deficitOf (before_state b)"
    "applyMovement (before_state b) (cl_qtyQ4 line) (cl_baseShareMinor line) = Inr t"
    "coverLayers a (0 < uncovered ls \<and> cl_qtyQ4 line = uncovered ls) (cl_qtyQ4 line) t ls = Inr p"
    "0 < uncovered ls" "cl_qtyQ4 line = uncovered ls" "onHand (snd p) \<noteq> 0 \<or> valuation (snd p) \<noteq> 0"
    unfolding planLine_unfold
    by (auto simp: bindR_eq_Inl applyMovement_not_thrown coverLayers_not_thrown checkLayers_eq_Inr split: if_splits)
  then show False using coverLayers_closing by metis
qed

lemma planLine_run:
  assumes "planLine line ls b = Inr p"
  obtains t where "layers_ok ls" "uncovered ls = deficitOf (before_state b)"
    "0 < cl_qtyQ4 line" "cp_actualC10 p = halfEven (cl_baseShareMinor line * Q4_TIMES_C10) (cl_qtyQ4 line)"
    "applyMovement (before_state b) (cl_qtyQ4 line) (cl_baseShareMinor line) = Inr t"
    "coverLayers (cp_actualC10 p) (0 < uncovered ls \<and> cl_qtyQ4 line = uncovered ls) (cl_qtyQ4 line) t ls
       = Inr (cp_coverages p, cp_stateAfter p)"
    "cp_coveredQ4 p = sum_list (map pc_qtyCoveredQ4 (cp_coverages p))"
    "cp_catchUpMinor p = sum_list (map pc_valueMinor (cp_coverages p))"
    "cp_qtyQ4 p = cl_qtyQ4 line" "cp_variantId p = cl_variantId line" "cp_baseShareMinor p = cl_baseShareMinor line"
  using assms unfolding planLine_unfold
  by (auto simp: bindR_eq_Inr if_refuse_eq_Inr checkLayers_eq_Inr unitCostC10_eq_Inr)

text \<open>
  What a line's plan is: it covers as much of the deficit as its quantity reaches, the key's
  two sums move by the purchase and the corrections, and the layers left open are again
  exactly the deficit left.
\<close>

definition line_plan_ok :: "DeficitLayer list \<Rightarrow> StockState \<Rightarrow> CoverageLinePlan \<Rightarrow> bool" where
  "line_plan_ok ls s p \<longleftrightarrow>
     cp_coveredQ4 p = min (cp_qtyQ4 p) (deficitOf s)
     \<and> onHand (cp_stateAfter p) = onHand s + cp_qtyQ4 p
     \<and> valuation (cp_stateAfter p) = valuation s + cp_baseShareMinor p + cp_catchUpMinor p
     \<and> uncovered (layersAfter (cp_coverages p) ls) = deficitOf (cp_stateAfter p)
     \<and> (\<forall>i < length (cp_coverages p) - 1. pc_statusAfter (cp_coverages p ! i) = closed)
     \<and> (0 < deficitOf s \<and> cp_qtyQ4 p = deficitOf s \<longrightarrow> onHand (cp_stateAfter p) = 0 \<and> valuation (cp_stateAfter p) = 0)"

lemma planLine_ok:
  assumes "planLine line ls b = Inr p"
  shows "line_plan_ok ls (before_state b) p"
proof -
  let ?s = "before_state b" and ?q = "cl_qtyQ4 line"
  from planLine_run [OF assms] obtain t where r: "layers_ok ls" "uncovered ls = deficitOf ?s" "0 < ?q"
    "applyMovement ?s ?q (cl_baseShareMinor line) = Inr t"
    "coverLayers (cp_actualC10 p) (0 < uncovered ls \<and> ?q = uncovered ls) ?q t ls = Inr (cp_coverages p, cp_stateAfter p)"
    "cp_coveredQ4 p = sum_list (map pc_qtyCoveredQ4 (cp_coverages p))"
    "cp_catchUpMinor p = sum_list (map pc_valueMinor (cp_coverages p))"
    "cp_qtyQ4 p = ?q" "cp_baseShareMinor p = cl_baseShareMinor line" by metis
  note t = applyMovement_fields(1,2) [OF r(4)]
  have q: "0 \<le> ?q" using r(3) by simp
  note c = coverLayers_props [OF r(5,1) q]
  have "\<forall>i < length (cp_coverages p) - 1. pc_statusAfter (cp_coverages p ! i) = closed"
    using coverLayers_fifo(1) [OF r(5,1) q] by simp
  moreover have "onHand (cp_stateAfter p) = 0 \<and> valuation (cp_stateAfter p) = 0" if "0 < deficitOf ?s" "?q = deficitOf ?s"
    using coverLayers_closing [OF r(1,2,4,5)] that r(2) by simp
  moreover have "max 0 (- h) - min k (max 0 (- h)) = max 0 (- h - k)" if "0 < k" for h k :: int
    using that by (simp add: max_def min_def)
  ultimately show ?thesis using r c t q by (simp add: line_plan_ok_def) (simp add: deficitOf_def)
qed

lemma planCoverage_eq_Inr:
  "planCoverage ls ks lines = Inr P \<longleftrightarrow> distinct (map cl_variantId lines)
     \<and> mapR (\<lambda>line. planLine line (fifo (filter (\<lambda>l. dl_variantId l = cl_variantId line) ls)) (ks (cl_variantId line))) lines
         = Inr (cv_lines P)
     \<and> cv_coveredQ4 P = sum_list (map cp_coveredQ4 (cv_lines P))
     \<and> cv_totalValueMinor P = sum_list (map cp_catchUpMinor (cv_lines P))"
  by (cases P) (auto simp: planCoverage_def if_refuse_eq_Inr bindR_eq_Inr foldl_plus_map)

lemma planCoverage_not_thrown: "planCoverage ls ks lines \<noteq> Inl Thrown_Error"
  by (auto simp: planCoverage_def bindR_eq_Inl planLine_not_thrown dest!: mapR_Inl)

lemma fifo_sorted: "sorted (map (\<lambda>l. (dl_deficitSeq l, dl_deficitId l)) (fifo ls))" "set (fifo ls) = set ls"
  by (simp_all add: fifo_def)

subsection \<open>Properties\<close>

text \<open>C4: Each line of a coverage plan covers as much of its key's deficit as its quantity reaches, first in
  first out; the key's stock and value move by the receipt and the corrections; the layers left open hold
  exactly the deficit left; and a line that closes the deficit exactly leaves the key with no value.\<close>

theorem coverage_line_sound:
  assumes "planLine line ls b = Inr p"
  shows "line_plan_ok ls (before_state b) p"
  using assms by (rule planLine_ok)

definition sample_layers :: "DeficitLayer list" where
  "sample_layers = [\<lparr>dl_deficitId = ''b'', dl_variantId = ''v'', dl_deficitSeq = 2, dl_uncoveredQ4 = 5000, dl_provisionalC10 = 70000000000\<rparr>,
     \<lparr>dl_deficitId = ''a'', dl_variantId = ''v'', dl_deficitSeq = 1, dl_uncoveredQ4 = 10000, dl_provisionalC10 = 30000000000\<rparr>]"

definition sample_negative :: StockState where
  "sample_negative = \<lparr>onHand = - 15000, valuation = - 6, avg = Some 40000000000, lastStockSeq = 9\<rparr>"

definition sample_line :: CoverageLineInput where
  "sample_line = \<lparr>cl_lineId = ''l'', cl_variantId = ''v'', cl_qtyQ4 = 15000, cl_baseShareMinor = 8\<rparr>"

definition sample_plan :: CoverageLinePlan where
  "sample_plan = (case planLine sample_line (fifo sample_layers) (Some sample_negative) of Inr p \<Rightarrow> p
     | Inl e \<Rightarrow> \<lparr>cp_lineId = [], cp_variantId = [], cp_qtyQ4 = 0, cp_baseShareMinor = 0, cp_actualC10 = 0, cp_coveredQ4 = 0,
                cp_catchUpMinor = 0, cp_coverages = [], cp_stateAfter = EMPTY_STOCK_STATE\<rparr>)"

theorem coverage_line_sound_witness:
  "onHand (cp_stateAfter sample_plan) = 0 \<and> valuation (cp_stateAfter sample_plan) = 0 \<and> cp_coveredQ4 sample_plan = 15000"
proof -
  have "planLine sample_line (fifo sample_layers) (Some sample_negative) = Inr sample_plan" by code_simp
  from coverage_line_sound [OF this]
  have "line_plan_ok (fifo sample_layers) sample_negative sample_plan" by (simp add: before_state_def)
  moreover have "cp_qtyQ4 sample_plan = 15000" by code_simp
  ultimately show ?thesis by (simp add: line_plan_ok_def deficitOf_def sample_negative_def)
qed

text \<open>The defect assertion after the zero-crossing flush is unreachable, whatever the layers, the states
  and the lines; and the totals of an accepted plan are the sums over its lines.\<close>

theorem coverage_never_throws:
  "planCoverage ls ks lines \<noteq> Inl Thrown_Error
   \<and> (\<forall>P. planCoverage ls ks lines = Inr P \<longrightarrow> length (cv_lines P) = length lines
        \<and> cv_coveredQ4 P = sum_list (map cp_coveredQ4 (cv_lines P))
        \<and> cv_totalValueMinor P = sum_list (map cp_catchUpMinor (cv_lines P)))"
  using planCoverage_not_thrown [of ls ks lines] mapR_length by (auto simp: planCoverage_eq_Inr)

theorem coverage_never_throws_witness:
  "planCoverage sample_layers [''v'' \<mapsto> sample_negative] [sample_line]
     = Inr \<lparr>cv_lines = [sample_plan], cv_coveredQ4 = 15000, cv_totalValueMinor = - 2\<rparr>
   \<and> sum_list (map cp_catchUpMinor [sample_plan]) = - 2"
proof -
  have "planLine sample_line (fifo sample_layers) (Some sample_negative) = Inr sample_plan"
    "cp_coveredQ4 sample_plan = 15000" "cp_catchUpMinor sample_plan = - 2" by code_simp+
  then have "planCoverage sample_layers [''v'' \<mapsto> sample_negative] [sample_line]
     = Inr \<lparr>cv_lines = [sample_plan], cv_coveredQ4 = 15000, cv_totalValueMinor = - 2\<rparr>"
    by (simp add: planCoverage_def sample_layers_def) (simp add: sample_line_def)
  with coverage_never_throws [of sample_layers "[''v'' \<mapsto> sample_negative]" "[sample_line]"] show ?thesis by auto
qed

end
