(* ===== verification/Entries.thy ===== *)
theory Entries
  imports Prelude
begin

text \<open>
  Double entry, as every entry builder of the program checks it: a line has a side and a
  positive base amount, and the debits equal the credits. The builders have line types of
  their own, so the balance takes the two projections as arguments.

  The locale \<open>entry_gate\<close> is the contract of a check that returns the lines it is given
  when they are sound and refuses otherwise; each builder interprets it on its own check.
\<close>

datatype Side = Side_D | Side_C

definition signed :: "Side \<Rightarrow> int \<Rightarrow> int" where
  "signed s v = (case s of Side_D \<Rightarrow> v | Side_C \<Rightarrow> - v)"

lemma signed_simps [simp]: "signed Side_D v = v" "signed Side_C v = - v"
  by (simp_all add: signed_def)

lemma if_side [simp]: "(if s = Side_D then v else - v) = signed s v"
  by (cases s) simp_all

definition entryBalance :: "('l \<Rightarrow> Side) \<Rightarrow> ('l \<Rightarrow> int) \<Rightarrow> 'l list \<Rightarrow> int" where
  "entryBalance side base ls = sum_list (map (\<lambda>l. signed (side l) (base l)) ls)"

lemma entryBalance_simps [simp]:
  "entryBalance side base [] = 0"
  "entryBalance side base (l # ls) = signed (side l) (base l) + entryBalance side base ls"
  "entryBalance side base (xs @ ys) = entryBalance side base xs + entryBalance side base ys"
  by (simp_all add: entryBalance_def)

definition debits :: "('l \<Rightarrow> Side) \<Rightarrow> ('l \<Rightarrow> int) \<Rightarrow> 'l list \<Rightarrow> int" where
  "debits side base ls = sum_list (map base (filter (\<lambda>l. side l = Side_D) ls))"

definition credits :: "('l \<Rightarrow> Side) \<Rightarrow> ('l \<Rightarrow> int) \<Rightarrow> 'l list \<Rightarrow> int" where
  "credits side base ls = sum_list (map base (filter (\<lambda>l. side l = Side_C) ls))"

lemma entryBalance_debits_credits: "entryBalance side base ls = debits side base ls - credits side base ls"
proof (induction ls)
  case (Cons l ls)
  then show ?case by (cases "side l") (simp_all add: debits_def credits_def)
qed (simp add: debits_def credits_def)

text \<open>The line \<open>dust > 0n ? 'D' : 'C'\<close> with the amount \<open>abs(dust)\<close>: a signed amount as one line.\<close>

lemma signed_abs: "signed (if 0 < v then Side_D else Side_C) \<bar>v\<bar> = v" "signed (if 0 < v then Side_C else Side_D) \<bar>v\<bar> = - v"
  by simp_all

locale entry_gate =
  fixes side :: "'l \<Rightarrow> Side" and base :: "'l \<Rightarrow> int" and sound :: "'l \<Rightarrow> bool"
    and gate :: "'l list \<Rightarrow> 'l list result"
  assumes gate_eq_Inr: "gate ls = Inr ms \<longleftrightarrow> ms = ls \<and> list_all sound ls \<and> entryBalance side base ls = 0"
begin

lemma gate_passes: "list_all sound ls \<Longrightarrow> entryBalance side base ls = 0 \<Longrightarrow> gate ls = Inr ls"
  by (simp add: gate_eq_Inr)

lemma gate_debits_credits: "gate ls = Inr ms \<Longrightarrow> debits side base ms = credits side base ms"
  by (simp add: gate_eq_Inr entryBalance_debits_credits)

end

end
