(* ===== verification/Supplier_Settlement.thy ===== *)
theory Supplier_Settlement
  imports Rounding Entries "HOL-Library.Multiset"
begin

text \<open>
  packages/inventory/src/supplier-settlement.ts: how supplier payments, supplier credit
  allocations and supplier refunds release the historical base value a purchase or a credit
  note carries, the entries they post, and the verdicts over the stored chains.

  The release of a purchase is the locale \<open>cumulative\<close> at its totals. The credit note's
  \<open>g\<close> is the same release seen from the remaining amount, with a floor of one base unit
  while anything remains. \<open>settlement\<close> at the end is the life of one purchase and its
  credit notes as a step relation over the code's own plans, with the two chain verdicts
  as its invariant.
\<close>

subsection \<open>The primitives\<close>

definition assertMinor :: "int \<Rightarrow> int \<Rightarrow> unit result" where
  "assertMinor v lo = (if v < lo \<or> VALUE_LIMIT_MINOR < v then refuse (InventoryError arithmetic_invalid) else Inr ())"

definition assertExponent :: "int \<Rightarrow> unit result" where
  "assertExponent v = (if \<not> (\<bar>v\<bar> \<le> MAX_SAFE_INTEGER) \<or> v < 0 \<or> 4 < v
     then refuse (InventoryError arithmetic_invalid) else Inr ())"

definition R10 :: int where "R10 = 10 ^ 10"

definition convertToBase :: "int \<Rightarrow> int \<Rightarrow> int \<Rightarrow> int \<Rightarrow> int result" where
  "convertToBase txnMinor rateR10 txnExponent baseExponent =
     bindR (assertMinor txnMinor 0) (\<lambda>_.
       if rateR10 \<le> 0 then refuse (InventoryError arithmetic_invalid)
       else bindR (assertExponent txnExponent) (\<lambda>_. bindR (assertExponent baseExponent) (\<lambda>_.
         let up = 10 ^ nat (max 0 (baseExponent - txnExponent));
             down = 10 ^ nat (max 0 (txnExponent - baseExponent))
         in roundHalfEven (txnMinor * rateR10 * up) (R10 * down))))"

definition apRelease :: "int \<Rightarrow> int \<Rightarrow> int \<Rightarrow> int \<Rightarrow> int result" where
  "apRelease totalBaseMinor totalTxnMinor releasedBeforeMinor appliedMinor =
     bindR (assertMinor totalBaseMinor 0) (\<lambda>_.
     bindR (assertMinor totalTxnMinor 1) (\<lambda>_.
     bindR (assertMinor releasedBeforeMinor 0) (\<lambda>_.
     bindR (assertMinor appliedMinor 0) (\<lambda>_.
       if totalTxnMinor < releasedBeforeMinor + appliedMinor then refuse (InventoryError arithmetic_invalid)
       else bindR (roundHalfEven (totalBaseMinor * (releasedBeforeMinor + appliedMinor)) totalTxnMinor) (\<lambda>x.
            bindR (roundHalfEven (totalBaseMinor * releasedBeforeMinor) totalTxnMinor) (\<lambda>y. Inr (x - y)))))))"

definition creditRemainingCarrying :: "int \<Rightarrow> int \<Rightarrow> int \<Rightarrow> int result" where
  "creditRemainingCarrying originalMinor originalCarryingMinor remainingMinor =
     bindR (assertMinor originalMinor 1) (\<lambda>_.
     bindR (assertMinor originalCarryingMinor 1) (\<lambda>_.
     bindR (assertMinor remainingMinor 0) (\<lambda>_.
       if originalMinor < remainingMinor then refuse (InventoryError arithmetic_invalid)
       else if remainingMinor = 0 then Inr 0
       else bindR (roundHalfEven (originalCarryingMinor * (originalMinor - remainingMinor)) originalMinor) (\<lambda>h.
            let kept = originalCarryingMinor - h in Inr (if kept < 1 then 1 else kept)))))"

definition creditRelease :: "int \<Rightarrow> int \<Rightarrow> int \<Rightarrow> int \<Rightarrow> int result" where
  "creditRelease originalMinor originalCarryingMinor remainingBeforeMinor consumedMinor =
     bindR (assertMinor consumedMinor 1) (\<lambda>_.
     bindR (assertMinor remainingBeforeMinor 0) (\<lambda>_.
       if remainingBeforeMinor < consumedMinor then refuse (InventoryError arithmetic_invalid)
       else bindR (creditRemainingCarrying originalMinor originalCarryingMinor remainingBeforeMinor) (\<lambda>x.
            bindR (creditRemainingCarrying originalMinor originalCarryingMinor (remainingBeforeMinor - consumedMinor)) (\<lambda>y.
              Inr (x - y)))))"

record SettlementConversion =
  rateR10 :: int
  txnExponent :: int
  baseExponent :: int

definition convert :: "int \<Rightarrow> SettlementConversion \<Rightarrow> int result" where
  "convert x c = convertToBase x (rateR10 c) (txnExponent c) (baseExponent c)"

definition strands :: "int \<Rightarrow> SettlementConversion \<Rightarrow> bool result" where
  "strands remainingMinor c =
     (if 0 < remainingMinor then bindR (convert remainingMinor c) (\<lambda>b. Inr (b = 0)) else Inr False)"

subsection \<open>The two sides of an entry\<close>

record PurchaseApState =
  pa_totalTxnMinor :: int
  pa_totalBaseMinor :: int
  pa_outstandingTxnMinor :: int
  pa_conversion :: SettlementConversion

record CreditNoteState =
  cn_originalMinor :: int
  cn_originalCarryingMinor :: int
  cn_remainingMinor :: int
  cn_conversion :: SettlementConversion

record ApSide =
  ap_appliedMinor :: int
  ap_releasedBeforeMinor :: int
  ap_carryingReleasedMinor :: int
  ap_apConvertedMinor :: int
  ap_apDustBaseMinor :: int

datatype SettlementDomain = supplier_payment | supplier_credit_allocation | supplier_refund

text \<open>The codes \<open>`${domain}.amount_...`\<close>; \<open>apSide\<close> and \<open>creditSide\<close> are each called with two of the three domains.\<close>

definition exceeds_outstanding_code :: "SettlementDomain \<Rightarrow> inventory_code" where
  "exceeds_outstanding_code d = (if d = supplier_payment then supplier_payment_amount_exceeds_outstanding
     else supplier_credit_allocation_amount_exceeds_outstanding)"

definition below_base_unit_code :: "SettlementDomain \<Rightarrow> inventory_code" where
  "below_base_unit_code d = (case d of
       supplier_payment \<Rightarrow> supplier_payment_amount_below_base_unit
     | supplier_credit_allocation \<Rightarrow> supplier_credit_allocation_amount_below_base_unit
     | supplier_refund \<Rightarrow> supplier_refund_amount_below_base_unit)"

definition credit_exhausted_code :: "SettlementDomain \<Rightarrow> inventory_code" where
  "credit_exhausted_code d = (if d = supplier_refund then supplier_refund_credit_exhausted
     else supplier_credit_allocation_credit_exhausted)"

definition exceeds_credit_code :: "SettlementDomain \<Rightarrow> inventory_code" where
  "exceeds_credit_code d = (if d = supplier_refund then supplier_refund_amount_exceeds_credit
     else supplier_credit_allocation_amount_exceeds_credit)"

definition apSide :: "SettlementDomain \<Rightarrow> PurchaseApState \<Rightarrow> int \<Rightarrow> ApSide result" where
  "apSide domain purchase appliedMinor =
     bindR (assertMinor (pa_totalTxnMinor purchase) 1) (\<lambda>_.
     bindR (assertMinor (pa_totalBaseMinor purchase) 0) (\<lambda>_.
     bindR (assertMinor (pa_outstandingTxnMinor purchase) 0) (\<lambda>_.
       if pa_totalTxnMinor purchase < pa_outstandingTxnMinor purchase then refuse (InventoryError arithmetic_invalid)
       else if appliedMinor \<le> 0
         then refuse (InventoryError (if domain = supplier_payment then supplier_payment_allocations_invalid else payload_invalid))
       else if pa_outstandingTxnMinor purchase < appliedMinor
         then refuse (InventoryError (exceeds_outstanding_code domain))
       else let releasedBefore = pa_totalTxnMinor purchase - pa_outstandingTxnMinor purchase
            in bindR (apRelease (pa_totalBaseMinor purchase) (pa_totalTxnMinor purchase) releasedBefore appliedMinor) (\<lambda>released.
               bindR (convert appliedMinor (pa_conversion purchase)) (\<lambda>converted.
                 if converted = 0 then refuse (InventoryError (below_base_unit_code domain))
                 else Inr \<lparr>ap_appliedMinor = appliedMinor, ap_releasedBeforeMinor = releasedBefore,
                           ap_carryingReleasedMinor = released, ap_apConvertedMinor = converted,
                           ap_apDustBaseMinor = released - converted\<rparr>)))))"

record CreditSide =
  cs_consumedMinor :: int
  cs_remainingBeforeMinor :: int
  cs_creditReleasedMinor :: int
  cs_creditConvertedMinor :: int
  cs_creditDustBaseMinor :: int
  cs_remainingAfterMinor :: int
  cs_remainingCarryingAfterMinor :: int

definition creditSide :: "SettlementDomain \<Rightarrow> CreditNoteState \<Rightarrow> int \<Rightarrow> CreditSide result" where
  "creditSide domain note consumedMinor =
     bindR (assertMinor (cn_originalMinor note) 1) (\<lambda>_.
     bindR (assertMinor (cn_originalCarryingMinor note) 1) (\<lambda>_.
     bindR (assertMinor (cn_remainingMinor note) 0) (\<lambda>_.
       if cn_originalMinor note < cn_remainingMinor note then refuse (InventoryError arithmetic_invalid)
       else if cn_remainingMinor note = 0 then refuse (InventoryError (credit_exhausted_code domain))
       else if consumedMinor \<le> 0 then refuse (InventoryError payload_invalid)
       else if cn_remainingMinor note < consumedMinor then refuse (InventoryError (exceeds_credit_code domain))
       else bindR (creditRelease (cn_originalMinor note) (cn_originalCarryingMinor note) (cn_remainingMinor note) consumedMinor) (\<lambda>released.
            bindR (convert consumedMinor (cn_conversion note)) (\<lambda>converted.
              if converted = 0 then refuse (InventoryError (below_base_unit_code domain))
              else let remainingAfter = cn_remainingMinor note - consumedMinor
                   in bindR (creditRemainingCarrying (cn_originalMinor note) (cn_originalCarryingMinor note) remainingAfter) (\<lambda>after.
                        Inr \<lparr>cs_consumedMinor = consumedMinor, cs_remainingBeforeMinor = cn_remainingMinor note,
                             cs_creditReleasedMinor = released, cs_creditConvertedMinor = converted,
                             cs_creditDustBaseMinor = released - converted, cs_remainingAfterMinor = remainingAfter,
                             cs_remainingCarryingAfterMinor = after\<rparr>))))))"

datatype SettlementAccount = Acc_accounts_payable | Acc_supplier_receivable | Acc_fx_gain | Acc_fx_loss | Acc_posting_account

datatype LineCurrency = Cur_purchase | Cur_note | Cur_payment | Cur_receipt | Cur_base

datatype LineDimension = Dim_purchase | Dim_origin

record SettlementEntryLine =
  se_account :: SettlementAccount
  se_side :: Side
  se_currency :: LineCurrency
  se_txnAmountMinor :: int
  se_baseAmountMinor :: int
  se_dimension :: LineDimension

definition baseLine :: "SettlementAccount \<Rightarrow> Side \<Rightarrow> int \<Rightarrow> LineDimension \<Rightarrow> SettlementEntryLine" where
  "baseLine account side amount dimension =
     \<lparr>se_account = account, se_side = side, se_currency = Cur_base, se_txnAmountMinor = amount,
      se_baseAmountMinor = amount, se_dimension = dimension\<rparr>"

fun balancedFrom :: "int \<Rightarrow> SettlementEntryLine list \<Rightarrow> unit result" where
  "balancedFrom balance [] = (if balance \<noteq> 0 then refuse (InventoryError arithmetic_invalid) else Inr ())"
| "balancedFrom balance (l # ls) =
     (if se_baseAmountMinor l \<le> 0 \<or> se_txnAmountMinor l \<le> 0 then refuse (InventoryError arithmetic_invalid)
      else balancedFrom (balance + (if se_side l = Side_D then se_baseAmountMinor l else - se_baseAmountMinor l)) ls)"

definition balanced :: "SettlementEntryLine list \<Rightarrow> SettlementEntryLine list result" where
  "balanced lines = bindR (balancedFrom 0 lines) (\<lambda>_. Inr lines)"

definition apLines :: "ApSide \<Rightarrow> SettlementEntryLine list" where
  "apLines ap =
     \<lparr>se_account = Acc_accounts_payable, se_side = Side_D, se_currency = Cur_purchase,
      se_txnAmountMinor = ap_appliedMinor ap, se_baseAmountMinor = ap_apConvertedMinor ap, se_dimension = Dim_purchase\<rparr>
     # (if ap_apDustBaseMinor ap \<noteq> 0
        then [baseLine Acc_accounts_payable (if 0 < ap_apDustBaseMinor ap then Side_D else Side_C)
                (absBig (ap_apDustBaseMinor ap)) Dim_purchase]
        else [])"

definition creditLines :: "CreditSide \<Rightarrow> SettlementEntryLine list" where
  "creditLines cr =
     \<lparr>se_account = Acc_supplier_receivable, se_side = Side_C, se_currency = Cur_note,
      se_txnAmountMinor = cs_consumedMinor cr, se_baseAmountMinor = cs_creditConvertedMinor cr, se_dimension = Dim_origin\<rparr>
     # (if cs_creditDustBaseMinor cr \<noteq> 0
        then [baseLine Acc_supplier_receivable (if 0 < cs_creditDustBaseMinor cr then Side_C else Side_D)
                (absBig (cs_creditDustBaseMinor cr)) Dim_origin]
        else [])"

subsection \<open>The three plans\<close>

record PaymentAllocationInput =
  pi_purchase :: PurchaseApState
  pi_sameCurrency :: bool
  pi_paymentAmountMinor :: int
  pi_payment :: SettlementConversion
  pi_appliedMinor :: int

text \<open>\<open>{ ...ap, ... }\<close>: the side is a field of the plan.\<close>

record PaymentAllocationPlan =
  pp_ap :: ApSide
  pp_paymentAmountMinor :: int
  pp_paymentBaseMinor :: int
  pp_realizedMinor :: int
  pp_entryLines :: "SettlementEntryLine list"

definition planPaymentAllocation :: "PaymentAllocationInput \<Rightarrow> PaymentAllocationPlan result" where
  "planPaymentAllocation input =
     (let p = pi_paymentAmountMinor input in
      if p \<le> 0 \<or> VALUE_LIMIT_MINOR < p then refuse (InventoryError supplier_payment_allocations_invalid)
      else if pi_sameCurrency input \<and> p \<noteq> pi_appliedMinor input then refuse (InventoryError supplier_payment_amount_mismatch)
      else bindR (apSide supplier_payment (pi_purchase input) (pi_appliedMinor input)) (\<lambda>ap.
           bindR (convert p (pi_payment input)) (\<lambda>paymentBase.
             if paymentBase = 0 then refuse (InventoryError supplier_payment_amount_below_base_unit)
             else bindR (strands (pa_outstandingTxnMinor (pi_purchase input) - ap_appliedMinor ap)
                          (pa_conversion (pi_purchase input))) (\<lambda>stranded.
               if stranded then refuse (InventoryError supplier_payment_residue_below_base_unit)
               else let realized = paymentBase - ap_carryingReleasedMinor ap;
                        lines = apLines ap
                          @ [\<lparr>se_account = Acc_posting_account, se_side = Side_C, se_currency = Cur_payment,
                              se_txnAmountMinor = p, se_baseAmountMinor = paymentBase, se_dimension = Dim_purchase\<rparr>]
                          @ (if realized \<noteq> 0
                             then [baseLine (if 0 < realized then Acc_fx_loss else Acc_fx_gain)
                                     (if 0 < realized then Side_D else Side_C) (absBig realized) Dim_purchase]
                             else [])
                    in bindR (balanced lines) (\<lambda>entry.
                      Inr \<lparr>pp_ap = ap, pp_paymentAmountMinor = p, pp_paymentBaseMinor = paymentBase,
                           pp_realizedMinor = realized, pp_entryLines = entry\<rparr>)))))"

record CreditAllocationInput =
  ci_purchase :: PurchaseApState
  ci_note :: CreditNoteState
  ci_sameCurrency :: bool
  ci_consumedMinor :: int
  ci_appliedMinor :: int

record CreditAllocationPlan =
  ca_ap :: ApSide
  ca_cr :: CreditSide
  ca_realizedMinor :: int
  ca_entryLines :: "SettlementEntryLine list"

definition planCreditAllocation :: "CreditAllocationInput \<Rightarrow> CreditAllocationPlan result" where
  "planCreditAllocation input =
     bindR (creditSide supplier_credit_allocation (ci_note input) (ci_consumedMinor input)) (\<lambda>cr.
       if ci_sameCurrency input \<and> ci_consumedMinor input \<noteq> ci_appliedMinor input
       then refuse (InventoryError supplier_credit_allocation_amount_mismatch)
       else bindR (apSide supplier_credit_allocation (ci_purchase input) (ci_appliedMinor input)) (\<lambda>ap.
            bindR (strands (pa_outstandingTxnMinor (ci_purchase input) - ap_appliedMinor ap) (pa_conversion (ci_purchase input))) (\<lambda>s1.
            bindR (if s1 then Inr True else strands (cs_remainingAfterMinor cr) (cn_conversion (ci_note input))) (\<lambda>stranded.
              if stranded then refuse (InventoryError supplier_credit_allocation_residue_below_base_unit)
              else let realized = cs_creditReleasedMinor cr - ap_carryingReleasedMinor ap;
                       lines = apLines ap @ creditLines cr
                         @ (if realized \<noteq> 0
                            then [baseLine (if 0 < realized then Acc_fx_loss else Acc_fx_gain)
                                    (if 0 < realized then Side_D else Side_C) (absBig realized) Dim_purchase]
                            else [])
                   in bindR (balanced lines) (\<lambda>entry.
                     Inr \<lparr>ca_ap = ap, ca_cr = cr, ca_realizedMinor = realized, ca_entryLines = entry\<rparr>)))))"

record RefundInput =
  ri_note :: CreditNoteState
  ri_sameCurrency :: bool
  ri_consumedMinor :: int
  ri_receiptAmountMinor :: int
  ri_receipt :: SettlementConversion

record RefundPlan =
  rp_cr :: CreditSide
  rp_receiptAmountMinor :: int
  rp_receiptBaseMinor :: int
  rp_realizedMinor :: int
  rp_entryLines :: "SettlementEntryLine list"

definition planRefund :: "RefundInput \<Rightarrow> RefundPlan result" where
  "planRefund input =
     bindR (creditSide supplier_refund (ri_note input) (ri_consumedMinor input)) (\<lambda>cr.
       let m = ri_receiptAmountMinor input in
       if m \<le> 0 \<or> VALUE_LIMIT_MINOR < m then refuse (InventoryError payload_invalid)
       else if ri_sameCurrency input \<and> m \<noteq> ri_consumedMinor input then refuse (InventoryError supplier_refund_amount_mismatch)
       else bindR (convert m (ri_receipt input)) (\<lambda>receiptBase.
         if receiptBase = 0 then refuse (InventoryError supplier_refund_amount_below_base_unit)
         else bindR (strands (cs_remainingAfterMinor cr) (cn_conversion (ri_note input))) (\<lambda>stranded.
           if stranded then refuse (InventoryError supplier_refund_residue_below_base_unit)
           else let realized = receiptBase - cs_creditReleasedMinor cr;
                    lines = \<lparr>se_account = Acc_posting_account, se_side = Side_D, se_currency = Cur_receipt,
                              se_txnAmountMinor = m, se_baseAmountMinor = receiptBase, se_dimension = Dim_origin\<rparr>
                      # creditLines cr
                      @ (if realized \<noteq> 0
                         then [baseLine (if 0 < realized then Acc_fx_gain else Acc_fx_loss)
                                 (if 0 < realized then Side_C else Side_D) (absBig realized) Dim_origin]
                         else [])
                in bindR (balanced lines) (\<lambda>entry.
                  Inr \<lparr>rp_cr = cr, rp_receiptAmountMinor = m, rp_receiptBaseMinor = receiptBase,
                       rp_realizedMinor = realized, rp_entryLines = entry\<rparr>))))"

subsection \<open>The chain verdicts\<close>

record PurchaseChainRow =
  pr_releasedBeforeMinor :: int
  pr_amountMinor :: int
  pr_releasedBaseMinor :: int

text \<open>The loop over the ordered rows: the running sums, or the refusal of \<open>bad\<close>.\<close>

fun chainFrom :: "int \<Rightarrow> int \<Rightarrow> PurchaseChainRow list \<Rightarrow> (int \<times> int) result" where
  "chainFrom applied released [] = Inr (applied, released)"
| "chainFrom applied released (r # rs) =
     (if pr_releasedBeforeMinor r \<noteq> applied then refuse (InventoryError supplier_payment_settlement_inconsistent)
      else chainFrom (applied + pr_amountMinor r) (released + pr_releasedBaseMinor r) rs)"

definition verifyPurchaseChain :: "int \<Rightarrow> int \<Rightarrow> PurchaseChainRow list \<Rightarrow> unit result" where
  "verifyPurchaseChain totalTxnMinor totalBaseMinor rows =
     bindR (assertMinor totalTxnMinor 1) (\<lambda>_. bindR (assertMinor totalBaseMinor 0) (\<lambda>_.
       let ordered = sort_key pr_releasedBeforeMinor (filter (\<lambda>r. 0 < pr_amountMinor r) rows)
       in bindR (chainFrom 0 0 ordered) (\<lambda>(applied, released).
            if totalTxnMinor < applied then refuse (InventoryError supplier_payment_settlement_inconsistent)
            else bindR (roundHalfEven (totalBaseMinor * applied) totalTxnMinor) (\<lambda>expected.
              if released \<noteq> expected then refuse (InventoryError supplier_payment_settlement_inconsistent) else Inr ()))))"

record CreditChainRow =
  cr_remainingBeforeMinor :: int
  cr_consumedMinor :: int
  cr_releasedBaseMinor :: int

record NotePair =
  np_originalMinor :: int
  np_originalCarryingMinor :: int
  np_remainingMinor :: int
  np_remainingCarryingMinor :: int

fun creditChainFrom :: "int \<Rightarrow> int \<Rightarrow> int \<Rightarrow> CreditChainRow list \<Rightarrow> (int \<times> int) result" where
  "creditChainFrom original consumed released [] = Inr (consumed, released)"
| "creditChainFrom original consumed released (r # rs) =
     (if cr_consumedMinor r \<le> 0 \<or> cr_remainingBeforeMinor r \<noteq> original - consumed
      then refuse (InventoryError supplier_credit_note_consumption_inconsistent)
      else creditChainFrom original (consumed + cr_consumedMinor r) (released + cr_releasedBaseMinor r) rs)"

definition verifyCreditChain :: "NotePair \<Rightarrow> CreditChainRow list \<Rightarrow> unit result" where
  "verifyCreditChain note rows =
     (let ordered = sort_key (\<lambda>r. - cr_remainingBeforeMinor r) rows
      in bindR (creditChainFrom (np_originalMinor note) 0 0 ordered) (\<lambda>(consumed, released).
           if np_originalMinor note < consumed \<or> np_remainingMinor note \<noteq> np_originalMinor note - consumed
           then refuse (InventoryError supplier_credit_note_consumption_inconsistent)
           else bindR (creditRemainingCarrying (np_originalMinor note) (np_originalCarryingMinor note) (np_remainingMinor note)) (\<lambda>g.
             if np_remainingCarryingMinor note \<noteq> g \<or> released \<noteq> np_originalCarryingMinor note - g
             then refuse (InventoryError supplier_credit_note_consumption_inconsistent) else Inr ())))"

subsection \<open>Outcomes of the primitives\<close>

lemma assertMinor_eq_Inr [result_simps]: "assertMinor v lo = Inr u \<longleftrightarrow> lo \<le> v \<and> v \<le> VALUE_LIMIT_MINOR"
  by (auto simp: assertMinor_def)

lemma assertExponent_eq_Inr [result_simps]: "assertExponent v = Inr u \<longleftrightarrow> 0 \<le> v \<and> v \<le> 4"
  by (auto simp: assertExponent_def MAX_SAFE_INTEGER_def)

text \<open>The value of a conversion, and the conversions the code accepts.\<close>

definition converted :: "int \<Rightarrow> SettlementConversion \<Rightarrow> int" where
  "converted x c = halfEven (x * rateR10 c * 10 ^ nat (max 0 (baseExponent c - txnExponent c)))
     (R10 * 10 ^ nat (max 0 (txnExponent c - baseExponent c)))"

definition conversion_ok :: "SettlementConversion \<Rightarrow> bool" where
  "conversion_ok c \<longleftrightarrow> 0 < rateR10 c \<and> 0 \<le> txnExponent c \<and> txnExponent c \<le> 4 \<and> 0 \<le> baseExponent c \<and> baseExponent c \<le> 4"

lemma convert_eq_Inr [result_simps]:
  "convert x c = Inr b \<longleftrightarrow> 0 \<le> x \<and> x \<le> VALUE_LIMIT_MINOR \<and> conversion_ok c \<and> b = converted x c"
  by (auto simp: convert_def convertToBase_def result_simps conversion_ok_def converted_def Let_def R10_def)

lemma converted_nonneg: "conversion_ok c \<Longrightarrow> 0 \<le> x \<Longrightarrow> 0 \<le> converted x c"
  by (auto simp: converted_def conversion_ok_def R10_def intro!: halfEven_nonneg)

lemma converted_mono: "conversion_ok c \<Longrightarrow> x \<le> y \<Longrightarrow> converted x c \<le> converted y c"
  unfolding converted_def
  by (rule halfEven_mono) (auto simp: conversion_ok_def R10_def intro!: mult_right_mono)

lemma converted_0 [simp]: "converted 0 c = 0"
  by (simp add: converted_def)

lemma converted_base: "rateR10 c = R10 \<Longrightarrow> txnExponent c = baseExponent c \<Longrightarrow> converted x c = x"
  by (simp add: converted_def R10_def)

lemma strands_eq_Inr [result_simps]:
  "strands r c = Inr b \<longleftrightarrow>
     (if 0 < r then r \<le> VALUE_LIMIT_MINOR \<and> conversion_ok c \<and> b = (converted r c = 0) else \<not> b)"
  by (auto simp: strands_def result_simps)

lemma apRelease_eq_Inr [result_simps]:
  "apRelease B T X a = Inr r \<longleftrightarrow> 0 \<le> B \<and> B \<le> VALUE_LIMIT_MINOR \<and> 1 \<le> T \<and> T \<le> VALUE_LIMIT_MINOR
     \<and> 0 \<le> X \<and> X \<le> VALUE_LIMIT_MINOR \<and> 0 \<le> a \<and> a \<le> VALUE_LIMIT_MINOR \<and> X + a \<le> T \<and> r = halfEven_rel B T X a"
  by (auto simp: apRelease_def result_simps halfEven_rel_def not_less)

text \<open>\<open>g\<close>, the carrying base a note keeps.\<close>

definition carried :: "int \<Rightarrow> int \<Rightarrow> int \<Rightarrow> int" where
  "carried OA OB r = (if r = 0 then 0 else max 1 (OB - halfEven (OB * (OA - r)) OA))"

lemma creditRemainingCarrying_eq_Inr [result_simps]:
  "creditRemainingCarrying OA OB r = Inr g \<longleftrightarrow> 1 \<le> OA \<and> OA \<le> VALUE_LIMIT_MINOR \<and> 1 \<le> OB \<and> OB \<le> VALUE_LIMIT_MINOR
     \<and> 0 \<le> r \<and> r \<le> OA \<and> g = carried OA OB r"
  by (auto simp: creditRemainingCarrying_def result_simps carried_def Let_def max_def)

lemma creditRelease_eq_Inr [result_simps]:
  "creditRelease OA OB rb c = Inr g \<longleftrightarrow> 1 \<le> OA \<and> OA \<le> VALUE_LIMIT_MINOR \<and> 1 \<le> OB \<and> OB \<le> VALUE_LIMIT_MINOR
     \<and> 1 \<le> c \<and> c \<le> rb \<and> rb \<le> OA \<and> g = carried OA OB rb - carried OA OB (rb - c)"
  by (auto simp: creditRelease_def result_simps)

subsection \<open>Depletion\<close>

text \<open>
  A carrying value that goes down with the amount left: nothing is carried at zero, the
  whole at the start, and less left never carries more. A consumption releases the
  difference. Both documents of this component are instances: a credit note through \<open>g\<close>,
  a purchase through what its cumulative release has left.
\<close>

fun releases :: "(int \<Rightarrow> int) \<Rightarrow> int \<Rightarrow> int list \<Rightarrow> int list" where
  "releases f r [] = []"
| "releases f r (c # cs) = (f r - f (r - c)) # releases f (r - c) cs"

locale depletion =
  fixes level :: "int \<Rightarrow> int \<Rightarrow> int \<Rightarrow> int" and least :: int
  assumes level_empty: "0 < N \<Longrightarrow> least \<le> B \<Longrightarrow> level N B 0 = 0"
    and level_full: "0 < N \<Longrightarrow> least \<le> B \<Longrightarrow> level N B N = B"
    and level_mono: "0 < N \<Longrightarrow> least \<le> B \<Longrightarrow> 0 \<le> r \<Longrightarrow> r \<le> s \<Longrightarrow> s \<le> N \<Longrightarrow> level N B r \<le> level N B s"
begin

lemma level_bounds:
  assumes "0 < N" "least \<le> B" "0 \<le> r" "r \<le> N"
  shows "0 \<le> level N B r" "level N B r \<le> B"
  using level_mono [OF assms(1,2) order_refl assms(3,4)] level_mono [OF assms order_refl]
  by (simp_all add: level_empty level_full assms(1,2))

lemma release_nonneg:
  "0 < N \<Longrightarrow> least \<le> B \<Longrightarrow> 0 \<le> c \<Longrightarrow> c \<le> r \<Longrightarrow> r \<le> N \<Longrightarrow> 0 \<le> level N B r - level N B (r - c)"
  using level_mono [of N B "r - c" r] by simp

lemma releases_sum: "sum_list (releases (level N B) r cs) = level N B r - level N B (r - sum_list cs)"
  by (induction cs arbitrary: r) (simp_all add: diff_diff_eq)

text \<open>Whatever the order and the size of the consumptions, exhausting the document releases its whole carrying value.\<close>

lemma releases_exhaust:
  "0 < N \<Longrightarrow> least \<le> B \<Longrightarrow> sum_list cs = N \<Longrightarrow> sum_list (releases (level N B) N cs) = B"
  by (simp add: releases_sum level_empty level_full)

end

lemma carried_range:
  assumes "0 < OA" "1 \<le> OB" "0 \<le> r" "r \<le> OA"
  shows "OB - halfEven (OB * (OA - r)) OA \<le> OB"
  using assms halfEven_nonneg [of OA "OB * (OA - r)"] by simp

interpretation credit_note: depletion carried 1
proof
  fix N B :: int assume N: "0 < N" "1 \<le> B"
  show "carried N B 0 = 0" by (simp add: carried_def)
  show "carried N B N = B" using N by (simp add: carried_def)
  fix r s assume rs: "0 \<le> r" "r \<le> s" "s \<le> N"
  have "halfEven (B * (N - s)) N \<le> halfEven (B * (N - r)) N"
    using N rs by (intro halfEven_mono mult_left_mono) auto
  then show "carried N B r \<le> carried N B s" using rs by (auto simp: carried_def max_def)
qed

definition apLeft :: "int \<Rightarrow> int \<Rightarrow> int \<Rightarrow> int" where
  "apLeft T B left = B - halfEven (B * (T - left)) T"

interpretation ap: depletion apLeft 0
proof
  fix N B :: int assume N: "0 < N" "0 \<le> B"
  show "apLeft N B 0 = 0" using N by (simp add: apLeft_def)
  show "apLeft N B N = B" by (simp add: apLeft_def)
  fix r s assume rs: "0 \<le> r" "r \<le> s" "s \<le> N"
  have "halfEven (B * (N - s)) N \<le> halfEven (B * (N - r)) N"
    using N rs by (intro halfEven_mono mult_left_mono) auto
  then show "apLeft N B r \<le> apLeft N B s" by (simp add: apLeft_def)
qed

lemma apRelease_apLeft: "halfEven_rel B T (T - left) a = apLeft T B left - apLeft T B (left - a)"
  by (simp add: halfEven_rel_def apLeft_def algebra_simps)

lemma carried_pos: "0 < r \<Longrightarrow> 1 \<le> carried OA OB r"
  by (simp add: carried_def)

text \<open>The consumptions of one note, one after another.\<close>

fun creditRun :: "int \<Rightarrow> int \<Rightarrow> int \<Rightarrow> int list \<Rightarrow> int list result" where
  "creditRun OA OB rb [] = Inr []"
| "creditRun OA OB rb (c # cs) =
     bindR (creditRelease OA OB rb c) (\<lambda>r. bindR (creditRun OA OB (rb - c) cs) (\<lambda>rs. Inr (r # rs)))"

lemma creditRun_total:
  assumes "1 \<le> OA" "1 \<le> OB" "OA \<le> VALUE_LIMIT_MINOR" "OB \<le> VALUE_LIMIT_MINOR" "rb \<le> OA" "sum_list cs \<le> rb"
    "list_all (\<lambda>c. 0 < c) cs"
  shows "creditRun OA OB rb cs = Inr (releases (carried OA OB) rb cs) \<and> list_all (\<lambda>r. 0 \<le> r) (releases (carried OA OB) rb cs)"
  using assms(5-7)
proof (induction cs arbitrary: rb)
  case (Cons c cs)
  have nonneg: "0 \<le> sum_list cs" using Cons.prems(3) by (intro sum_list_nonneg_int) (auto simp: list_all_iff)
  then have c: "0 < c" "c \<le> rb" using Cons.prems(2,3) by simp_all
  then have "creditRelease OA OB rb c = Inr (carried OA OB rb - carried OA OB (rb - c))"
    using assms(1-4) Cons.prems(1) by (simp add: creditRelease_eq_Inr)
  moreover have "0 \<le> carried OA OB rb - carried OA OB (rb - c)"
    using credit_note.release_nonneg [of OA OB c rb] assms(1,2) c Cons.prems(1) by simp
  ultimately show ?case using Cons.IH [of "rb - c"] Cons.prems c by simp
qed simp

subsection \<open>Entries\<close>

definition line_sound :: "SettlementEntryLine \<Rightarrow> bool" where
  "line_sound l \<longleftrightarrow> 0 < se_baseAmountMinor l \<and> 0 < se_txnAmountMinor l"

abbreviation settlementBalance :: "SettlementEntryLine list \<Rightarrow> int" where
  "settlementBalance \<equiv> entryBalance se_side se_baseAmountMinor"

lemma balancedFrom_eq_Inr: "balancedFrom b ls = Inr u \<longleftrightarrow> list_all line_sound ls \<and> b + settlementBalance ls = 0"
proof (induction ls arbitrary: b)
  case (Cons l ls)
  have "se_baseAmountMinor l \<le> 0 \<or> se_txnAmountMinor l \<le> 0 \<longleftrightarrow> \<not> line_sound l" by (auto simp: line_sound_def)
  with Cons show ?case by (simp add: add.assoc)
qed simp

lemma balanced_eq_Inr: "balanced ls = Inr ms \<longleftrightarrow> ms = ls \<and> list_all line_sound ls \<and> settlementBalance ls = 0"
proof -
  have "balanced ls = Inr ms \<longleftrightarrow> balancedFrom 0 ls = Inr () \<and> ms = ls"
    by (cases "balancedFrom 0 ls") (auto simp: balanced_def)
  then show ?thesis unfolding balancedFrom_eq_Inr by auto
qed

interpretation settlement_entry: entry_gate se_side se_baseAmountMinor line_sound balanced
  by unfold_locales (rule balanced_eq_Inr)

text \<open>The net debit of one account over a list of lines.\<close>

definition netDebit :: "SettlementAccount \<Rightarrow> SettlementEntryLine list \<Rightarrow> int" where
  "netDebit a ls = settlementBalance (filter (\<lambda>l. se_account l = a) ls)"

lemma netDebit_simps [simp]:
  "netDebit a [] = 0"
  "netDebit a (l # ls) = (if se_account l = a then signed (se_side l) (se_baseAmountMinor l) else 0) + netDebit a ls"
  "netDebit a (xs @ ys) = netDebit a xs + netDebit a ys"
  by (simp_all add: netDebit_def)

lemma baseLine_fields [simp]:
  "se_account (baseLine a s v d) = a" "se_side (baseLine a s v d) = s" "se_baseAmountMinor (baseLine a s v d) = v"
  "se_txnAmountMinor (baseLine a s v d) = v" "se_currency (baseLine a s v d) = Cur_base"
  by (simp_all add: baseLine_def)

definition apSide_ok :: "PurchaseApState \<Rightarrow> int \<Rightarrow> ApSide \<Rightarrow> bool" where
  "apSide_ok p a ap \<longleftrightarrow> 1 \<le> pa_totalTxnMinor p \<and> pa_totalTxnMinor p \<le> VALUE_LIMIT_MINOR
     \<and> 0 \<le> pa_totalBaseMinor p \<and> pa_totalBaseMinor p \<le> VALUE_LIMIT_MINOR \<and> 0 < a \<and> a \<le> pa_outstandingTxnMinor p
     \<and> pa_outstandingTxnMinor p \<le> pa_totalTxnMinor p \<and> conversion_ok (pa_conversion p)
     \<and> 0 < converted a (pa_conversion p)
     \<and> ap = \<lparr>ap_appliedMinor = a, ap_releasedBeforeMinor = pa_totalTxnMinor p - pa_outstandingTxnMinor p,
             ap_carryingReleasedMinor = halfEven_rel (pa_totalBaseMinor p) (pa_totalTxnMinor p) (pa_totalTxnMinor p - pa_outstandingTxnMinor p) a,
             ap_apConvertedMinor = converted a (pa_conversion p),
             ap_apDustBaseMinor = halfEven_rel (pa_totalBaseMinor p) (pa_totalTxnMinor p) (pa_totalTxnMinor p - pa_outstandingTxnMinor p) a
                - converted a (pa_conversion p)\<rparr>"

lemma nonzero_converted: "conversion_ok c \<Longrightarrow> 0 \<le> x \<Longrightarrow> converted x c \<noteq> 0 \<longleftrightarrow> 0 < converted x c"
  using converted_nonneg [of c x] by auto

lemma apSide_eq_Inr [result_simps]: "apSide d p a = Inr ap \<longleftrightarrow> apSide_ok p a ap"
  by (auto simp: apSide_def result_simps Let_def not_le not_less apSide_ok_def nonzero_converted)

definition creditSide_ok :: "CreditNoteState \<Rightarrow> int \<Rightarrow> CreditSide \<Rightarrow> bool" where
  "creditSide_ok n c cr \<longleftrightarrow> 1 \<le> cn_originalMinor n \<and> cn_originalMinor n \<le> VALUE_LIMIT_MINOR
     \<and> 1 \<le> cn_originalCarryingMinor n \<and> cn_originalCarryingMinor n \<le> VALUE_LIMIT_MINOR \<and> 0 < c \<and> c \<le> cn_remainingMinor n
     \<and> cn_remainingMinor n \<le> cn_originalMinor n \<and> conversion_ok (cn_conversion n) \<and> 0 < converted c (cn_conversion n)
     \<and> cr = \<lparr>cs_consumedMinor = c, cs_remainingBeforeMinor = cn_remainingMinor n,
             cs_creditReleasedMinor = carried (cn_originalMinor n) (cn_originalCarryingMinor n) (cn_remainingMinor n)
                - carried (cn_originalMinor n) (cn_originalCarryingMinor n) (cn_remainingMinor n - c),
             cs_creditConvertedMinor = converted c (cn_conversion n),
             cs_creditDustBaseMinor = carried (cn_originalMinor n) (cn_originalCarryingMinor n) (cn_remainingMinor n)
                - carried (cn_originalMinor n) (cn_originalCarryingMinor n) (cn_remainingMinor n - c) - converted c (cn_conversion n),
             cs_remainingAfterMinor = cn_remainingMinor n - c,
             cs_remainingCarryingAfterMinor = carried (cn_originalMinor n) (cn_originalCarryingMinor n) (cn_remainingMinor n - c)\<rparr>"

lemma creditSide_eq_Inr [result_simps]: "creditSide d n c = Inr cr \<longleftrightarrow> creditSide_ok n c cr"
  by (auto simp: creditSide_def result_simps Let_def not_le not_less creditSide_ok_def nonzero_converted)

lemma apLines_sound:
  assumes "apSide_ok p a ap"
  shows "list_all line_sound (apLines ap)" "settlementBalance (apLines ap) = ap_carryingReleasedMinor ap"
    "netDebit Acc_accounts_payable (apLines ap) = ap_carryingReleasedMinor ap"
    "netDebit Acc_supplier_receivable (apLines ap) = 0"
  using assms by (auto simp: apLines_def apSide_ok_def line_sound_def signed_abs)

lemma creditLines_sound:
  assumes "creditSide_ok n c cr"
  shows "list_all line_sound (creditLines cr)" "settlementBalance (creditLines cr) = - cs_creditReleasedMinor cr"
    "netDebit Acc_accounts_payable (creditLines cr) = 0"
    "netDebit Acc_supplier_receivable (creditLines cr) = - cs_creditReleasedMinor cr"
  using assms by (auto simp: creditLines_def creditSide_ok_def line_sound_def signed_abs)

text \<open>The realized difference as its one line: a loss when a payable costs more, a gain when a receipt brings more.\<close>

definition fxLine :: "SettlementAccount \<times> Side \<Rightarrow> SettlementAccount \<times> Side \<Rightarrow> int \<Rightarrow> LineDimension \<Rightarrow> SettlementEntryLine list" where
  "fxLine hi lo v d =
     (if v \<noteq> 0 then [baseLine (if 0 < v then fst hi else fst lo) (if 0 < v then snd hi else snd lo) (absBig v) d]
      else [])"

abbreviation "lossLine \<equiv> fxLine (Acc_fx_loss, Side_D) (Acc_fx_gain, Side_C)"
abbreviation "gainLine \<equiv> fxLine (Acc_fx_gain, Side_C) (Acc_fx_loss, Side_D)"

lemma fxLine_sound:
  "list_all line_sound (fxLine x y v d)" "settlementBalance (lossLine v d) = v" "settlementBalance (gainLine v d) = - v"
  by (auto simp: fxLine_def line_sound_def)

lemma fxLine_accounts:
  "netDebit Acc_accounts_payable (lossLine v d) = 0" "netDebit Acc_supplier_receivable (lossLine v d) = 0"
  "netDebit Acc_accounts_payable (gainLine v d) = 0" "netDebit Acc_supplier_receivable (gainLine v d) = 0"
  by (auto simp: fxLine_def)

subsection \<open>Outcomes of the plans\<close>

text \<open>The guard on the amount left, and what a plan that succeeds has computed. The entry always passes its gate.\<close>

definition no_residue :: "int \<Rightarrow> SettlementConversion \<Rightarrow> bool" where
  "no_residue r c \<longleftrightarrow> r = 0 \<or> 0 < converted r c"

lemma strands_False:
  "conversion_ok c \<Longrightarrow> 0 \<le> r \<Longrightarrow> r \<le> VALUE_LIMIT_MINOR \<Longrightarrow> strands r c = Inr False \<longleftrightarrow> no_residue r c"
  using nonzero_converted [of c r] by (auto simp: strands_eq_Inr no_residue_def)

lemma apSide_left:
  assumes "apSide_ok p a ap"
  shows "conversion_ok (pa_conversion p)" "0 \<le> pa_outstandingTxnMinor p - a" "pa_outstandingTxnMinor p - a \<le> VALUE_LIMIT_MINOR"
    "ap_appliedMinor ap = a"
  using assms by (auto simp: apSide_ok_def)

lemma creditSide_left:
  assumes "creditSide_ok n c cr"
  shows "conversion_ok (cn_conversion n)" "0 \<le> cn_remainingMinor n - c" "cn_remainingMinor n - c \<le> VALUE_LIMIT_MINOR"
    "cs_remainingAfterMinor cr = cn_remainingMinor n - c" "cs_consumedMinor cr = c"
  using assms by (auto simp: creditSide_ok_def)

definition paymentEntry :: "int \<Rightarrow> int \<Rightarrow> ApSide \<Rightarrow> SettlementEntryLine list" where
  "paymentEntry p pb ap =
     apLines ap @ [\<lparr>se_account = Acc_posting_account, se_side = Side_C, se_currency = Cur_payment,
                    se_txnAmountMinor = p, se_baseAmountMinor = pb, se_dimension = Dim_purchase\<rparr>]
     @ lossLine (pb - ap_carryingReleasedMinor ap) Dim_purchase"

lemma paymentEntry_passes:
  assumes "apSide_ok p a ap" "0 < q" "0 < qb"
  shows "balanced (paymentEntry q qb ap) = Inr (paymentEntry q qb ap)"
  using assms(2,3) apLines_sound [OF assms(1)]
  by (intro settlement_entry.gate_passes) (simp_all add: paymentEntry_def fxLine_sound line_sound_def)

lemma planPaymentAllocation_unfold:
  "planPaymentAllocation i =
     (if pi_paymentAmountMinor i \<le> 0 \<or> VALUE_LIMIT_MINOR < pi_paymentAmountMinor i
        then refuse (InventoryError supplier_payment_allocations_invalid)
      else if pi_sameCurrency i \<and> pi_paymentAmountMinor i \<noteq> pi_appliedMinor i
        then refuse (InventoryError supplier_payment_amount_mismatch)
      else bindR (apSide supplier_payment (pi_purchase i) (pi_appliedMinor i)) (\<lambda>ap.
           bindR (convert (pi_paymentAmountMinor i) (pi_payment i)) (\<lambda>pb.
             if pb = 0 then refuse (InventoryError supplier_payment_amount_below_base_unit)
             else bindR (strands (pa_outstandingTxnMinor (pi_purchase i) - ap_appliedMinor ap)
                          (pa_conversion (pi_purchase i))) (\<lambda>stranded.
               if stranded then refuse (InventoryError supplier_payment_residue_below_base_unit)
               else bindR (balanced (paymentEntry (pi_paymentAmountMinor i) pb ap)) (\<lambda>entry.
                      Inr \<lparr>pp_ap = ap, pp_paymentAmountMinor = pi_paymentAmountMinor i, pp_paymentBaseMinor = pb,
                           pp_realizedMinor = pb - ap_carryingReleasedMinor ap, pp_entryLines = entry\<rparr>)))))"
  by (simp only: planPaymentAllocation_def paymentEntry_def fxLine_def Let_def fst_conv snd_conv)

lemma planPaymentAllocation_eq_Inr:
  "planPaymentAllocation i = Inr p \<longleftrightarrow> 0 < pi_paymentAmountMinor i \<and> pi_paymentAmountMinor i \<le> VALUE_LIMIT_MINOR
     \<and> (pi_sameCurrency i \<longrightarrow> pi_paymentAmountMinor i = pi_appliedMinor i)
     \<and> apSide_ok (pi_purchase i) (pi_appliedMinor i) (pp_ap p) \<and> conversion_ok (pi_payment i)
     \<and> 0 < converted (pi_paymentAmountMinor i) (pi_payment i)
     \<and> no_residue (pa_outstandingTxnMinor (pi_purchase i) - pi_appliedMinor i) (pa_conversion (pi_purchase i))
     \<and> pp_paymentAmountMinor p = pi_paymentAmountMinor i \<and> pp_paymentBaseMinor p = converted (pi_paymentAmountMinor i) (pi_payment i)
     \<and> pp_realizedMinor p = pp_paymentBaseMinor p - ap_carryingReleasedMinor (pp_ap p)
     \<and> pp_entryLines p = paymentEntry (pi_paymentAmountMinor i) (pp_paymentBaseMinor p) (pp_ap p)" (is "?l \<longleftrightarrow> ?r")
proof
  assume ?l
  then obtain ap pb en where g: "0 < pi_paymentAmountMinor i" "pi_paymentAmountMinor i \<le> VALUE_LIMIT_MINOR"
    "pi_sameCurrency i \<longrightarrow> pi_paymentAmountMinor i = pi_appliedMinor i"
    "apSide_ok (pi_purchase i) (pi_appliedMinor i) ap" "convert (pi_paymentAmountMinor i) (pi_payment i) = Inr pb" "pb \<noteq> 0"
    "strands (pa_outstandingTxnMinor (pi_purchase i) - ap_appliedMinor ap) (pa_conversion (pi_purchase i)) = Inr False"
    and b: "balanced (paymentEntry (pi_paymentAmountMinor i) pb ap) = Inr en"
    and p: "p = \<lparr>pp_ap = ap, pp_paymentAmountMinor = pi_paymentAmountMinor i, pp_paymentBaseMinor = pb,
         pp_realizedMinor = pb - ap_carryingReleasedMinor ap, pp_entryLines = en\<rparr>"
    by (auto simp: planPaymentAllocation_unfold bindR_eq_Inr if_refuse_eq_Inr apSide_eq_Inr not_le not_less)
  note l = apSide_left [OF g(4)]
  have "en = paymentEntry (pi_paymentAmountMinor i) pb ap" using b by (simp add: settlement_entry.gate_eq_Inr)
  moreover have "pb = converted (pi_paymentAmountMinor i) (pi_payment i)" "conversion_ok (pi_payment i)" "0 < pb"
    using g(1,5,6) nonzero_converted by (auto simp: convert_eq_Inr)
  ultimately show ?r using g l strands_False [OF l(1-3)] by (simp add: p)
next
  assume r: ?r
  then have a: "apSide_ok (pi_purchase i) (pi_appliedMinor i) (pp_ap p)" by simp
  note l = apSide_left [OF a]
  have "strands (pa_outstandingTxnMinor (pi_purchase i) - ap_appliedMinor (pp_ap p)) (pa_conversion (pi_purchase i)) = Inr False"
    using r l strands_False [OF l(1-3)] by simp
  moreover have "balanced (pp_entryLines p) = Inr (pp_entryLines p)"
    using r paymentEntry_passes [OF a] by simp
  moreover have "apSide supplier_payment (pi_purchase i) (pi_appliedMinor i) = Inr (pp_ap p)" using a by (simp add: apSide_eq_Inr)
  moreover have "convert (pi_paymentAmountMinor i) (pi_payment i) = Inr (pp_paymentBaseMinor p)"
    using r by (simp add: convert_eq_Inr)
  ultimately show ?l using r by (cases p) (simp add: planPaymentAllocation_unfold)
qed

definition creditAllocationEntry :: "ApSide \<Rightarrow> CreditSide \<Rightarrow> SettlementEntryLine list" where
  "creditAllocationEntry ap cr =
     apLines ap @ creditLines cr @ lossLine (cs_creditReleasedMinor cr - ap_carryingReleasedMinor ap) Dim_purchase"

lemma creditAllocationEntry_passes:
  assumes "apSide_ok p a ap" "creditSide_ok n c cr"
  shows "balanced (creditAllocationEntry ap cr) = Inr (creditAllocationEntry ap cr)"
  using apLines_sound [OF assms(1)] creditLines_sound [OF assms(2)]
  by (intro settlement_entry.gate_passes) (simp_all add: creditAllocationEntry_def fxLine_sound)

lemma planCreditAllocation_unfold:
  "planCreditAllocation i =
     bindR (creditSide supplier_credit_allocation (ci_note i) (ci_consumedMinor i)) (\<lambda>cr.
       if ci_sameCurrency i \<and> ci_consumedMinor i \<noteq> ci_appliedMinor i
       then refuse (InventoryError supplier_credit_allocation_amount_mismatch)
       else bindR (apSide supplier_credit_allocation (ci_purchase i) (ci_appliedMinor i)) (\<lambda>ap.
            bindR (strands (pa_outstandingTxnMinor (ci_purchase i) - ap_appliedMinor ap) (pa_conversion (ci_purchase i))) (\<lambda>s1.
            bindR (if s1 then Inr True else strands (cs_remainingAfterMinor cr) (cn_conversion (ci_note i))) (\<lambda>stranded.
              if stranded then refuse (InventoryError supplier_credit_allocation_residue_below_base_unit)
              else bindR (balanced (creditAllocationEntry ap cr)) (\<lambda>entry.
                     Inr \<lparr>ca_ap = ap, ca_cr = cr, ca_realizedMinor = cs_creditReleasedMinor cr - ap_carryingReleasedMinor ap,
                          ca_entryLines = entry\<rparr>)))))"
  by (simp only: planCreditAllocation_def creditAllocationEntry_def fxLine_def Let_def fst_conv snd_conv)

lemma planCreditAllocation_eq_Inr:
  "planCreditAllocation i = Inr p \<longleftrightarrow> creditSide_ok (ci_note i) (ci_consumedMinor i) (ca_cr p)
     \<and> (ci_sameCurrency i \<longrightarrow> ci_consumedMinor i = ci_appliedMinor i)
     \<and> apSide_ok (ci_purchase i) (ci_appliedMinor i) (ca_ap p)
     \<and> no_residue (pa_outstandingTxnMinor (ci_purchase i) - ci_appliedMinor i) (pa_conversion (ci_purchase i))
     \<and> no_residue (cn_remainingMinor (ci_note i) - ci_consumedMinor i) (cn_conversion (ci_note i))
     \<and> ca_realizedMinor p = cs_creditReleasedMinor (ca_cr p) - ap_carryingReleasedMinor (ca_ap p)
     \<and> ca_entryLines p = creditAllocationEntry (ca_ap p) (ca_cr p)" (is "?l \<longleftrightarrow> ?r")
proof
  assume ?l
  then obtain ap cr en where g: "creditSide_ok (ci_note i) (ci_consumedMinor i) cr"
    "ci_sameCurrency i \<longrightarrow> ci_consumedMinor i = ci_appliedMinor i" "apSide_ok (ci_purchase i) (ci_appliedMinor i) ap"
    "strands (pa_outstandingTxnMinor (ci_purchase i) - ap_appliedMinor ap) (pa_conversion (ci_purchase i)) = Inr False"
    "strands (cs_remainingAfterMinor cr) (cn_conversion (ci_note i)) = Inr False"
    and b: "balanced (creditAllocationEntry ap cr) = Inr en"
    and p: "p = \<lparr>ca_ap = ap, ca_cr = cr, ca_realizedMinor = cs_creditReleasedMinor cr - ap_carryingReleasedMinor ap, ca_entryLines = en\<rparr>"
    by (auto simp: planCreditAllocation_unfold bindR_eq_Inr if_refuse_eq_Inr apSide_eq_Inr creditSide_eq_Inr split: if_splits)
  note l = apSide_left [OF g(3)] and m = creditSide_left [OF g(1)]
  have "en = creditAllocationEntry ap cr" using b by (simp add: settlement_entry.gate_eq_Inr)
  then show ?r using g l m strands_False [OF l(1-3)] strands_False [OF m(1-3)] by (simp add: p)
next
  assume r: ?r
  then have a: "apSide_ok (ci_purchase i) (ci_appliedMinor i) (ca_ap p)" "creditSide_ok (ci_note i) (ci_consumedMinor i) (ca_cr p)" by simp_all
  note l = apSide_left [OF a(1)] and m = creditSide_left [OF a(2)]
  have "strands (pa_outstandingTxnMinor (ci_purchase i) - ap_appliedMinor (ca_ap p)) (pa_conversion (ci_purchase i)) = Inr False"
    "strands (cs_remainingAfterMinor (ca_cr p)) (cn_conversion (ci_note i)) = Inr False"
    using r l m strands_False [OF l(1-3)] strands_False [OF m(1-3)] by simp_all
  moreover have "balanced (ca_entryLines p) = Inr (ca_entryLines p)"
    using r creditAllocationEntry_passes [OF a] by simp
  moreover have "apSide supplier_credit_allocation (ci_purchase i) (ci_appliedMinor i) = Inr (ca_ap p)"
    "creditSide supplier_credit_allocation (ci_note i) (ci_consumedMinor i) = Inr (ca_cr p)"
    using a by (simp_all add: apSide_eq_Inr creditSide_eq_Inr)
  ultimately show ?l using r by (cases p) (simp add: planCreditAllocation_unfold)
qed

definition refundEntry :: "int \<Rightarrow> int \<Rightarrow> CreditSide \<Rightarrow> SettlementEntryLine list" where
  "refundEntry m mb cr =
     \<lparr>se_account = Acc_posting_account, se_side = Side_D, se_currency = Cur_receipt,
      se_txnAmountMinor = m, se_baseAmountMinor = mb, se_dimension = Dim_origin\<rparr>
     # creditLines cr @ gainLine (mb - cs_creditReleasedMinor cr) Dim_origin"

lemma refundEntry_passes:
  assumes "creditSide_ok n c cr" "0 < m" "0 < mb"
  shows "balanced (refundEntry m mb cr) = Inr (refundEntry m mb cr)"
  using assms(2,3) creditLines_sound [OF assms(1)]
  by (intro settlement_entry.gate_passes) (simp_all add: refundEntry_def fxLine_sound line_sound_def)

lemma planRefund_unfold:
  "planRefund i =
     bindR (creditSide supplier_refund (ri_note i) (ri_consumedMinor i)) (\<lambda>cr.
       if ri_receiptAmountMinor i \<le> 0 \<or> VALUE_LIMIT_MINOR < ri_receiptAmountMinor i then refuse (InventoryError payload_invalid)
       else if ri_sameCurrency i \<and> ri_receiptAmountMinor i \<noteq> ri_consumedMinor i then refuse (InventoryError supplier_refund_amount_mismatch)
       else bindR (convert (ri_receiptAmountMinor i) (ri_receipt i)) (\<lambda>mb.
         if mb = 0 then refuse (InventoryError supplier_refund_amount_below_base_unit)
         else bindR (strands (cs_remainingAfterMinor cr) (cn_conversion (ri_note i))) (\<lambda>stranded.
           if stranded then refuse (InventoryError supplier_refund_residue_below_base_unit)
           else bindR (balanced (refundEntry (ri_receiptAmountMinor i) mb cr)) (\<lambda>entry.
                  Inr \<lparr>rp_cr = cr, rp_receiptAmountMinor = ri_receiptAmountMinor i, rp_receiptBaseMinor = mb,
                       rp_realizedMinor = mb - cs_creditReleasedMinor cr, rp_entryLines = entry\<rparr>))))"
  by (simp only: planRefund_def refundEntry_def fxLine_def Let_def fst_conv snd_conv)

lemma planRefund_eq_Inr:
  "planRefund i = Inr p \<longleftrightarrow> creditSide_ok (ri_note i) (ri_consumedMinor i) (rp_cr p)
     \<and> 0 < ri_receiptAmountMinor i \<and> ri_receiptAmountMinor i \<le> VALUE_LIMIT_MINOR
     \<and> (ri_sameCurrency i \<longrightarrow> ri_receiptAmountMinor i = ri_consumedMinor i) \<and> conversion_ok (ri_receipt i)
     \<and> 0 < converted (ri_receiptAmountMinor i) (ri_receipt i)
     \<and> no_residue (cn_remainingMinor (ri_note i) - ri_consumedMinor i) (cn_conversion (ri_note i))
     \<and> rp_receiptAmountMinor p = ri_receiptAmountMinor i \<and> rp_receiptBaseMinor p = converted (ri_receiptAmountMinor i) (ri_receipt i)
     \<and> rp_realizedMinor p = rp_receiptBaseMinor p - cs_creditReleasedMinor (rp_cr p)
     \<and> rp_entryLines p = refundEntry (ri_receiptAmountMinor i) (rp_receiptBaseMinor p) (rp_cr p)" (is "?l \<longleftrightarrow> ?r")
proof
  assume ?l
  then obtain cr mb en where g: "creditSide_ok (ri_note i) (ri_consumedMinor i) cr"
    "0 < ri_receiptAmountMinor i" "ri_receiptAmountMinor i \<le> VALUE_LIMIT_MINOR"
    "ri_sameCurrency i \<longrightarrow> ri_receiptAmountMinor i = ri_consumedMinor i"
    "convert (ri_receiptAmountMinor i) (ri_receipt i) = Inr mb" "mb \<noteq> 0"
    "strands (cs_remainingAfterMinor cr) (cn_conversion (ri_note i)) = Inr False"
    and b: "balanced (refundEntry (ri_receiptAmountMinor i) mb cr) = Inr en"
    and p: "p = \<lparr>rp_cr = cr, rp_receiptAmountMinor = ri_receiptAmountMinor i, rp_receiptBaseMinor = mb,
                 rp_realizedMinor = mb - cs_creditReleasedMinor cr, rp_entryLines = en\<rparr>"
    by (auto simp: planRefund_unfold bindR_eq_Inr if_refuse_eq_Inr creditSide_eq_Inr not_le not_less)
  note m = creditSide_left [OF g(1)]
  have "en = refundEntry (ri_receiptAmountMinor i) mb cr" using b by (simp add: settlement_entry.gate_eq_Inr)
  moreover have "mb = converted (ri_receiptAmountMinor i) (ri_receipt i)" "conversion_ok (ri_receipt i)" "0 < mb"
    using g(2,5,6) nonzero_converted by (auto simp: convert_eq_Inr)
  ultimately show ?r using g m strands_False [OF m(1-3)] by (simp add: p)
next
  assume r: ?r
  then have a: "creditSide_ok (ri_note i) (ri_consumedMinor i) (rp_cr p)" by simp
  note m = creditSide_left [OF a]
  have "strands (cs_remainingAfterMinor (rp_cr p)) (cn_conversion (ri_note i)) = Inr False"
    using r m strands_False [OF m(1-3)] by simp
  moreover have "balanced (rp_entryLines p) = Inr (rp_entryLines p)"
    using r refundEntry_passes [OF a] by simp
  moreover have "creditSide supplier_refund (ri_note i) (ri_consumedMinor i) = Inr (rp_cr p)"
    using a by (simp add: creditSide_eq_Inr)
  moreover have "convert (ri_receiptAmountMinor i) (ri_receipt i) = Inr (rp_receiptBaseMinor p)"
    using r by (simp add: convert_eq_Inr)
  ultimately show ?l using r by (cases p) (simp add: planRefund_unfold)
qed

subsection \<open>The purchase chain\<close>

lemma chainFrom_append:
  "chainFrom a r (xs @ ys) = bindR (chainFrom a r xs) (\<lambda>(a', r'). chainFrom a' r' ys)"
  by (induction xs arbitrary: a r) simp_all

lemma chainFrom_sums:
  "chainFrom a r rs = Inr (a', r') \<Longrightarrow>
     a' = a + sum_list (map pr_amountMinor rs) \<and> r' = r + sum_list (map pr_releasedBaseMinor rs)"
  by (induction rs arbitrary: a r) (fastforce simp: if_refuse_eq_Inr)+

text \<open>The rows of a chain have strictly increasing starting points, all below where the chain ends.\<close>

lemma chainFrom_sorted:
  assumes "chainFrom a r rs = Inr (a', r')" "\<forall>x \<in> set rs. 0 < pr_amountMinor x"
  shows "sorted_wrt (<) (map pr_releasedBeforeMinor rs)" "\<forall>x \<in> set rs. a \<le> pr_releasedBeforeMinor x \<and> pr_releasedBeforeMinor x < a'" "a \<le> a'"
proof -
  have "sorted_wrt (<) (map pr_releasedBeforeMinor rs) \<and> (\<forall>x \<in> set rs. a \<le> pr_releasedBeforeMinor x \<and> pr_releasedBeforeMinor x < a') \<and> a \<le> a'"
    using assms
  proof (induction rs arbitrary: a r)
    case (Cons x rs)
    then have x: "pr_releasedBeforeMinor x = a" "0 < pr_amountMinor x"
      and rest: "chainFrom (a + pr_amountMinor x) (r + pr_releasedBaseMinor x) rs = Inr (a', r')"
      by (auto simp: if_refuse_eq_Inr)
    from Cons.IH [OF rest] Cons.prems(2) x show ?case by fastforce
  qed simp
  then show "sorted_wrt (<) (map pr_releasedBeforeMinor rs)" "\<forall>x \<in> set rs. a \<le> pr_releasedBeforeMinor x \<and> pr_releasedBeforeMinor x < a'" "a \<le> a'"
    by blast+
qed

definition reducers :: "PurchaseChainRow list \<Rightarrow> PurchaseChainRow list" where
  "reducers rows = sort_key pr_releasedBeforeMinor (filter (\<lambda>r. 0 < pr_amountMinor r) rows)"

lemma reducers_set: "set (reducers rows) = {r \<in> set rows. 0 < pr_amountMinor r}"
  by (simp add: reducers_def)

lemma verifyPurchaseChain_eq_Inr:
  "verifyPurchaseChain T B rows = Inr u \<longleftrightarrow> 1 \<le> T \<and> T \<le> VALUE_LIMIT_MINOR \<and> 0 \<le> B \<and> B \<le> VALUE_LIMIT_MINOR
     \<and> (\<exists>a. a \<le> T \<and> chainFrom 0 0 (reducers rows) = Inr (a, halfEven (B * a) T))"
  by (auto simp: verifyPurchaseChain_def result_simps Let_def reducers_def not_less)

lemma sort_key_append_last:
  assumes "\<forall>x \<in> set xs. f x \<le> f y" shows "sort_key f (xs @ [y]) = sort_key f xs @ [y]"
proof (rule properties_for_sort_key)
  show "mset (sort_key f xs @ [y]) = mset (xs @ [y])" by simp
  show "filter (\<lambda>x. f k = f x) (sort_key f xs @ [y]) = filter (\<lambda>x. f k = f x) (xs @ [y])" for k
    by (simp add: sort_key_stable eq_commute [of "f k"])
  show "sorted (map f (sort_key f xs @ [y]))" using assms by (simp add: sorted_append)
qed

text \<open>A row that starts where the chain ends extends it.\<close>

lemma verifyPurchaseChain_extend:
  assumes "verifyPurchaseChain T B rows = Inr ()" "chainFrom 0 0 (reducers rows) = Inr (X, rel)"
    "0 < a" "X + a \<le> T"
  shows "verifyPurchaseChain T B (rows @ [\<lparr>pr_releasedBeforeMinor = X, pr_amountMinor = a, pr_releasedBaseMinor = halfEven_rel B T X a\<rparr>]) = Inr ()"
    "chainFrom 0 0 (reducers (rows @ [\<lparr>pr_releasedBeforeMinor = X, pr_amountMinor = a, pr_releasedBaseMinor = halfEven_rel B T X a\<rparr>]))
       = Inr (X + a, halfEven (B * (X + a)) T)"
proof -
  let ?r = "\<lparr>pr_releasedBeforeMinor = X, pr_amountMinor = a, pr_releasedBaseMinor = halfEven_rel B T X a\<rparr>"
  have pos: "\<forall>x \<in> set (reducers rows). 0 < pr_amountMinor x" by (simp add: reducers_set)
  have "\<forall>x \<in> set (reducers rows). pr_releasedBeforeMinor x \<le> X"
    using chainFrom_sorted(2) [OF assms(2) pos] by fastforce
  then have red: "reducers (rows @ [?r]) = reducers rows @ [?r]"
    using assms(3) sort_key_append_last [of "filter (\<lambda>r. 0 < pr_amountMinor r) rows" pr_releasedBeforeMinor ?r]
    by (simp add: reducers_def)
  from assms(1,2) have rel: "rel = halfEven (B * X) T" by (auto simp: verifyPurchaseChain_eq_Inr)
  show c: "chainFrom 0 0 (reducers (rows @ [?r])) = Inr (X + a, halfEven (B * (X + a)) T)"
    unfolding red by (simp add: chainFrom_append assms(2) rel halfEven_rel_def)
  show "verifyPurchaseChain T B (rows @ [?r]) = Inr ()"
    using assms(1,4) c by (auto simp: verifyPurchaseChain_eq_Inr)
qed

text \<open>The verdict does not depend on the order in which the rows are read.\<close>

lemma verifyPurchaseChain_permuted:
  assumes "verifyPurchaseChain T B rows = Inr ()" "mset rows = mset rows'"
  shows "verifyPurchaseChain T B rows' = Inr ()"
proof -
  from assms(1) obtain a where a: "chainFrom 0 0 (reducers rows) = Inr (a, halfEven (B * a) T)"
    by (auto simp: verifyPurchaseChain_eq_Inr)
  have "\<forall>x \<in> set (reducers rows). 0 < pr_amountMinor x" by (simp add: reducers_set)
  then have "sorted_wrt (<) (map pr_releasedBeforeMinor (reducers rows))" using chainFrom_sorted(1) [OF a] by blast
  then have d: "distinct (map pr_releasedBeforeMinor (reducers rows))" "sorted (map pr_releasedBeforeMinor (reducers rows))"
    by (auto simp: strict_sorted_iff)
  have m: "mset (filter (\<lambda>r. 0 < pr_amountMinor r) rows') = mset (reducers rows)"
    using assms(2) by (simp add: reducers_def)
  have "set (filter (\<lambda>r. 0 < pr_amountMinor r) rows') = set (reducers rows)" using m by (metis set_mset_mset)
  then have "reducers rows' = reducers rows"
    unfolding reducers_def [of rows'] using m d
    by (intro sort_key_inj_key_eq) (auto simp: distinct_map)
  then show ?thesis using assms(1) by (simp add: verifyPurchaseChain_eq_Inr)
qed

text \<open>Two reducers computed from the same outstanding amount are refused.\<close>

lemma verifyPurchaseChain_overlap:
  assumes "verifyPurchaseChain T B rows = Inr ()" "i < length rows" "j < length rows" "i \<noteq> j"
    "0 < pr_amountMinor (rows ! i)" "0 < pr_amountMinor (rows ! j)"
  shows "pr_releasedBeforeMinor (rows ! i) \<noteq> pr_releasedBeforeMinor (rows ! j)"
proof -
  from assms(1) obtain a where a: "chainFrom 0 0 (reducers rows) = Inr (a, halfEven (B * a) T)"
    by (auto simp: verifyPurchaseChain_eq_Inr)
  have "\<forall>x \<in> set (reducers rows). 0 < pr_amountMinor x" by (simp add: reducers_set)
  then have "sorted_wrt (<) (map pr_releasedBeforeMinor (reducers rows))" using chainFrom_sorted(1) [OF a] by blast
  then have "distinct (map pr_releasedBeforeMinor (reducers rows))" by (auto simp: strict_sorted_iff)
  moreover have "mset (map pr_releasedBeforeMinor (reducers rows)) = mset (map pr_releasedBeforeMinor (filter (\<lambda>r. 0 < pr_amountMinor r) rows))"
    by (simp add: reducers_def)
  ultimately have d: "distinct (map pr_releasedBeforeMinor (filter (\<lambda>r. 0 < pr_amountMinor r) rows))"
    by (metis mset_eq_imp_distinct_iff)
  then show ?thesis using assms(2-6)
  proof (induction rows arbitrary: i j)
    case (Cons x rows)
    have "\<And>k. k < length rows \<Longrightarrow> 0 < pr_amountMinor (rows ! k) \<Longrightarrow> 0 < pr_amountMinor x \<Longrightarrow>
        pr_releasedBeforeMinor x \<noteq> pr_releasedBeforeMinor (rows ! k)"
      using Cons.prems(1) by (auto simp: image_iff)
    with Cons.prems Cons.IH show ?case
      by (cases i; cases j) (force split: if_splits)+
  qed simp
qed

subsection \<open>The credit chain\<close>

lemma creditChainFrom_append:
  "creditChainFrom n a r (xs @ ys) = bindR (creditChainFrom n a r xs) (\<lambda>(a', r'). creditChainFrom n a' r' ys)"
  by (induction xs arbitrary: a r) simp_all

lemma creditChainFrom_levels:
  assumes "creditChainFrom n a r rs = Inr (a', r')"
  shows "\<forall>x \<in> set rs. n - a' < cr_remainingBeforeMinor x" "a \<le> a'"
proof -
  have "(\<forall>x \<in> set rs. n - a' < cr_remainingBeforeMinor x) \<and> a \<le> a'"
    using assms
  proof (induction rs arbitrary: a r)
    case (Cons x rs)
    then have x: "cr_remainingBeforeMinor x = n - a" "0 < cr_consumedMinor x"
      and rest: "creditChainFrom n (a + cr_consumedMinor x) (r + cr_releasedBaseMinor x) rs = Inr (a', r')"
      by (auto simp: if_refuse_eq_Inr not_le)
    from Cons.IH [OF rest] x show ?case by auto
  qed simp
  then show "\<forall>x \<in> set rs. n - a' < cr_remainingBeforeMinor x" "a \<le> a'" by blast+
qed

definition consumers :: "CreditChainRow list \<Rightarrow> CreditChainRow list" where
  "consumers rows = sort_key (\<lambda>r. - cr_remainingBeforeMinor r) rows"

lemma verifyCreditChain_eq_Inr:
  "verifyCreditChain n rows = Inr u \<longleftrightarrow>
     1 \<le> np_originalMinor n \<and> np_originalMinor n \<le> VALUE_LIMIT_MINOR
     \<and> 1 \<le> np_originalCarryingMinor n \<and> np_originalCarryingMinor n \<le> VALUE_LIMIT_MINOR
     \<and> 0 \<le> np_remainingMinor n \<and> np_remainingMinor n \<le> np_originalMinor n
     \<and> np_remainingCarryingMinor n = carried (np_originalMinor n) (np_originalCarryingMinor n) (np_remainingMinor n)
     \<and> creditChainFrom (np_originalMinor n) 0 0 (consumers rows)
         = Inr (np_originalMinor n - np_remainingMinor n, np_originalCarryingMinor n - np_remainingCarryingMinor n)" (is "?l \<longleftrightarrow> ?r")
proof
  show "?l \<Longrightarrow> ?r" by (auto simp: verifyCreditChain_def result_simps Let_def consumers_def not_less)
  show "?r \<Longrightarrow> ?l" by (auto simp: verifyCreditChain_def result_simps Let_def consumers_def)
qed

lemma verifyCreditChain_extend:
  assumes v: "verifyCreditChain n rows = Inr ()" and c: "0 < c" "c \<le> np_remainingMinor n"
  defines "g \<equiv> carried (np_originalMinor n) (np_originalCarryingMinor n)"
  shows "verifyCreditChain (n\<lparr>np_remainingMinor := np_remainingMinor n - c, np_remainingCarryingMinor := g (np_remainingMinor n - c)\<rparr>)
     (rows @ [\<lparr>cr_remainingBeforeMinor = np_remainingMinor n, cr_consumedMinor = c,
               cr_releasedBaseMinor = g (np_remainingMinor n) - g (np_remainingMinor n - c)\<rparr>]) = Inr ()"
proof -
  let ?r = "\<lparr>cr_remainingBeforeMinor = np_remainingMinor n, cr_consumedMinor = c,
               cr_releasedBaseMinor = g (np_remainingMinor n) - g (np_remainingMinor n - c)\<rparr>"
  note v = v [unfolded verifyCreditChain_eq_Inr]
  have ch: "creditChainFrom (np_originalMinor n) 0 0 (consumers rows)
         = Inr (np_originalMinor n - np_remainingMinor n, np_originalCarryingMinor n - g (np_remainingMinor n))"
    using v by (simp add: g_def)
  have "\<forall>x \<in> set rows. - cr_remainingBeforeMinor x \<le> - np_remainingMinor n"
    using creditChainFrom_levels(1) [OF ch] by (auto simp: consumers_def)
  then have "consumers (rows @ [?r]) = consumers rows @ [?r]"
    using sort_key_append_last [of rows "\<lambda>r. - cr_remainingBeforeMinor r" ?r] by (simp add: consumers_def)
  then have "creditChainFrom (np_originalMinor n) 0 0 (consumers (rows @ [?r])) =
     Inr (np_originalMinor n - np_remainingMinor n + c, np_originalCarryingMinor n - g (np_remainingMinor n - c))"
    using c(1) by (simp add: creditChainFrom_append ch)
  then show ?thesis using v c by (simp add: verifyCreditChain_eq_Inr g_def)
qed

subsection \<open>The settlement of a purchase and a credit note\<close>

text \<open>
  What the three commands store: the row each one appends to the chain of the document it
  consumes, the new outstanding and remaining amounts, and the lines posted. A command
  carries the caller's choices; the document states are the stored ones.
\<close>

record Books =
  bk_purchase :: PurchaseApState
  bk_note :: CreditNoteState
  bk_noteCarrying :: int
  bk_reducers :: "PurchaseChainRow list"
  bk_consumers :: "CreditChainRow list"
  bk_posted :: "SettlementEntryLine list"

datatype Command =
    Pay bool int SettlementConversion int
  | Apply_credit bool int int
  | Refund bool int int SettlementConversion

definition reduceAp :: "ApSide \<Rightarrow> Books \<Rightarrow> Books" where
  "reduceAp ap b = b\<lparr>
     bk_purchase := (bk_purchase b)\<lparr>pa_outstandingTxnMinor := pa_outstandingTxnMinor (bk_purchase b) - ap_appliedMinor ap\<rparr>,
     bk_reducers := bk_reducers b @ [\<lparr>pr_releasedBeforeMinor = ap_releasedBeforeMinor ap,
       pr_amountMinor = ap_appliedMinor ap, pr_releasedBaseMinor = ap_carryingReleasedMinor ap\<rparr>]\<rparr>"

definition consumeCredit :: "CreditSide \<Rightarrow> Books \<Rightarrow> Books" where
  "consumeCredit cr b = b\<lparr>
     bk_note := (bk_note b)\<lparr>cn_remainingMinor := cs_remainingAfterMinor cr\<rparr>,
     bk_noteCarrying := cs_remainingCarryingAfterMinor cr,
     bk_consumers := bk_consumers b @ [\<lparr>cr_remainingBeforeMinor = cs_remainingBeforeMinor cr,
       cr_consumedMinor = cs_consumedMinor cr, cr_releasedBaseMinor = cs_creditReleasedMinor cr\<rparr>]\<rparr>"

definition postLines :: "SettlementEntryLine list \<Rightarrow> Books \<Rightarrow> Books" where
  "postLines ls b = b\<lparr>bk_posted := bk_posted b @ ls\<rparr>"

fun settle :: "Books \<Rightarrow> Command \<Rightarrow> Books result" where
  "settle b (Pay same p rate a) =
     bindR (planPaymentAllocation \<lparr>pi_purchase = bk_purchase b, pi_sameCurrency = same, pi_paymentAmountMinor = p,
              pi_payment = rate, pi_appliedMinor = a\<rparr>) (\<lambda>plan.
       Inr (postLines (pp_entryLines plan) (reduceAp (pp_ap plan) b)))"
| "settle b (Apply_credit same c a) =
     bindR (planCreditAllocation \<lparr>ci_purchase = bk_purchase b, ci_note = bk_note b, ci_sameCurrency = same,
              ci_consumedMinor = c, ci_appliedMinor = a\<rparr>) (\<lambda>plan.
       Inr (postLines (ca_entryLines plan) (consumeCredit (ca_cr plan) (reduceAp (ca_ap plan) b))))"
| "settle b (Refund same c m rate) =
     bindR (planRefund \<lparr>ri_note = bk_note b, ri_sameCurrency = same, ri_consumedMinor = c,
              ri_receiptAmountMinor = m, ri_receipt = rate\<rparr>) (\<lambda>plan.
       Inr (postLines (rp_entryLines plan) (consumeCredit (rp_cr plan) b)))"

definition notePair :: "Books \<Rightarrow> NotePair" where
  "notePair b = \<lparr>np_originalMinor = cn_originalMinor (bk_note b), np_originalCarryingMinor = cn_originalCarryingMinor (bk_note b),
     np_remainingMinor = cn_remainingMinor (bk_note b), np_remainingCarryingMinor = bk_noteCarrying b\<rparr>"

text \<open>The two halves of the invariant, each over one document and its account.\<close>

definition purchase_half :: "Books \<Rightarrow> bool" where
  "purchase_half b \<longleftrightarrow> (let p = bk_purchase b; X = pa_totalTxnMinor p - pa_outstandingTxnMinor p in
     0 \<le> pa_outstandingTxnMinor p \<and> conversion_ok (pa_conversion p) \<and> no_residue (pa_outstandingTxnMinor p) (pa_conversion p)
     \<and> verifyPurchaseChain (pa_totalTxnMinor p) (pa_totalBaseMinor p) (bk_reducers b) = Inr ()
     \<and> chainFrom 0 0 (reducers (bk_reducers b)) = Inr (X, halfEven (pa_totalBaseMinor p * X) (pa_totalTxnMinor p))
     \<and> netDebit Acc_accounts_payable (bk_posted b) = halfEven (pa_totalBaseMinor p * X) (pa_totalTxnMinor p))"

definition note_half :: "Books \<Rightarrow> bool" where
  "note_half b \<longleftrightarrow> verifyCreditChain (notePair b) (bk_consumers b) = Inr () \<and> conversion_ok (cn_conversion (bk_note b))
     \<and> no_residue (cn_remainingMinor (bk_note b)) (cn_conversion (bk_note b))
     \<and> netDebit Acc_supplier_receivable (bk_posted b) = bk_noteCarrying b - cn_originalCarryingMinor (bk_note b)"

definition books_ok :: "Books \<Rightarrow> bool" where
  "books_ok b \<longleftrightarrow> purchase_half b \<and> note_half b \<and> settlementBalance (bk_posted b) = 0"

text \<open>A purchase just received and a credit note just issued.\<close>

definition openingBooks :: "int \<Rightarrow> int \<Rightarrow> SettlementConversion \<Rightarrow> int \<Rightarrow> int \<Rightarrow> SettlementConversion \<Rightarrow> Books" where
  "openingBooks T B R OA OB Rn = \<lparr>
     bk_purchase = \<lparr>pa_totalTxnMinor = T, pa_totalBaseMinor = B, pa_outstandingTxnMinor = T, pa_conversion = R\<rparr>,
     bk_note = \<lparr>cn_originalMinor = OA, cn_originalCarryingMinor = OB, cn_remainingMinor = OA, cn_conversion = Rn\<rparr>,
     bk_noteCarrying = OB, bk_reducers = [], bk_consumers = [], bk_posted = []\<rparr>"

definition opening_ok :: "int \<Rightarrow> int \<Rightarrow> SettlementConversion \<Rightarrow> bool" where
  "opening_ok T B R \<longleftrightarrow> 1 \<le> T \<and> T \<le> VALUE_LIMIT_MINOR \<and> 1 \<le> B \<and> B \<le> VALUE_LIMIT_MINOR
     \<and> conversion_ok R \<and> 0 < converted T R"

lemma opening_books_ok:
  "opening_ok T B R \<Longrightarrow> opening_ok OA OB Rn \<Longrightarrow> books_ok (openingBooks T B R OA OB Rn)"
  by (auto simp: books_ok_def purchase_half_def note_half_def openingBooks_def opening_ok_def no_residue_def
      verifyPurchaseChain_eq_Inr verifyCreditChain_eq_Inr notePair_def reducers_def consumers_def credit_note.level_full
      intro!: exI [of _ 0])

lemma reduceAp_half:
  assumes p: "purchase_half b" and ap: "apSide_ok (bk_purchase b) a ap"
    and nr: "no_residue (pa_outstandingTxnMinor (bk_purchase b) - a) (pa_conversion (bk_purchase b))"
    and posted: "bk_posted b' = bk_posted b @ ls" "netDebit Acc_accounts_payable ls = ap_carryingReleasedMinor ap"
    and b': "bk_purchase b' = bk_purchase (reduceAp ap b)" "bk_reducers b' = bk_reducers (reduceAp ap b)"
  shows "purchase_half b'"
proof -
  let ?p = "bk_purchase b"
  define T B O' X where "T = pa_totalTxnMinor ?p" and "B = pa_totalBaseMinor ?p" and "O' = pa_outstandingTxnMinor ?p"
    and "X = T - O'"
  note defs = this
  have apf: "ap_appliedMinor ap = a" "ap_releasedBeforeMinor ap = X" "ap_carryingReleasedMinor ap = halfEven_rel B T X a"
    "0 < a" "a \<le> O'"
    using ap by (simp_all add: apSide_ok_def defs)
  have old: "verifyPurchaseChain T B (bk_reducers b) = Inr ()" "chainFrom 0 0 (reducers (bk_reducers b)) = Inr (X, halfEven (B * X) T)"
    "netDebit Acc_accounts_payable (bk_posted b) = halfEven (B * X) T" "conversion_ok (pa_conversion ?p)"
    using p by (simp_all add: purchase_half_def Let_def defs)
  have "X + a \<le> T" using apf(5) by (simp add: defs)
  note ext = verifyPurchaseChain_extend [OF old(1,2) apf(4) this]
  have X': "T - (O' - a) = X + a" by (simp add: defs)
  have "netDebit Acc_accounts_payable (bk_posted b') = halfEven (B * (X + a)) T"
    using old(3) posted apf(3) by (simp add: halfEven_rel_def)
  moreover have f: "pa_totalTxnMinor (bk_purchase b') = T" "pa_totalBaseMinor (bk_purchase b') = B"
    "pa_outstandingTxnMinor (bk_purchase b') = O' - a" "pa_conversion (bk_purchase b') = pa_conversion ?p"
    "bk_reducers b' = bk_reducers b @ [\<lparr>pr_releasedBeforeMinor = X, pr_amountMinor = a, pr_releasedBaseMinor = halfEven_rel B T X a\<rparr>]"
    using b' apf by (simp_all add: reduceAp_def defs)
  moreover have "no_residue (O' - a) (pa_conversion ?p)" using nr by (simp add: defs)
  ultimately show ?thesis
    unfolding purchase_half_def Let_def f X' using ext old(4) apf(5) by simp
qed

lemma consumeCredit_half:
  assumes n: "note_half b" and cr: "creditSide_ok (bk_note b) c cr"
    and nr: "no_residue (cn_remainingMinor (bk_note b) - c) (cn_conversion (bk_note b))"
    and posted: "bk_posted b' = bk_posted b @ ls" "netDebit Acc_supplier_receivable ls = - cs_creditReleasedMinor cr"
    and b': "bk_note b' = bk_note (consumeCredit cr b)" "bk_consumers b' = bk_consumers (consumeCredit cr b)"
      "bk_noteCarrying b' = bk_noteCarrying (consumeCredit cr b)"
  shows "note_half b'"
proof -
  let ?n = "bk_note b"
  define OA OB r where "OA = cn_originalMinor ?n" and "OB = cn_originalCarryingMinor ?n" and "r = cn_remainingMinor ?n"
  note defs = this
  have crf: "cs_consumedMinor cr = c" "cs_remainingBeforeMinor cr = r" "cs_creditReleasedMinor cr = carried OA OB r - carried OA OB (r - c)"
    "cs_remainingAfterMinor cr = r - c" "cs_remainingCarryingAfterMinor cr = carried OA OB (r - c)" "0 < c" "c \<le> r"
    using cr by (simp_all add: creditSide_ok_def defs)
  have old: "verifyCreditChain (notePair b) (bk_consumers b) = Inr ()" "conversion_ok (cn_conversion ?n)"
    "netDebit Acc_supplier_receivable (bk_posted b) = bk_noteCarrying b - OB"
    using n by (simp_all add: note_half_def defs)
  then have g: "bk_noteCarrying b = carried OA OB r" by (simp add: verifyCreditChain_eq_Inr notePair_def defs)
  have "c \<le> np_remainingMinor (notePair b)" using crf(7) by (simp add: notePair_def defs)
  from verifyCreditChain_extend [OF old(1) crf(6) this]
  have "verifyCreditChain (notePair b') (bk_consumers b') = Inr ()"
    using b' crf by (simp add: notePair_def consumeCredit_def defs)
  then show ?thesis
    using nr old(2,3) posted b' crf g by (simp add: note_half_def consumeCredit_def defs)
qed

lemma unchanged_halves:
  "purchase_half b \<Longrightarrow> bk_purchase b' = bk_purchase b \<Longrightarrow> bk_reducers b' = bk_reducers b \<Longrightarrow>
     netDebit Acc_accounts_payable (bk_posted b') = netDebit Acc_accounts_payable (bk_posted b) \<Longrightarrow> purchase_half b'"
  "note_half b \<Longrightarrow> bk_note b' = bk_note b \<Longrightarrow> bk_consumers b' = bk_consumers b \<Longrightarrow> bk_noteCarrying b' = bk_noteCarrying b \<Longrightarrow>
     netDebit Acc_supplier_receivable (bk_posted b') = netDebit Acc_supplier_receivable (bk_posted b) \<Longrightarrow> note_half b'"
  by (simp_all add: purchase_half_def note_half_def notePair_def)

lemma books_fields [simp]:
  "bk_purchase (postLines ls b) = bk_purchase b" "bk_note (postLines ls b) = bk_note b"
  "bk_noteCarrying (postLines ls b) = bk_noteCarrying b" "bk_reducers (postLines ls b) = bk_reducers b"
  "bk_consumers (postLines ls b) = bk_consumers b" "bk_posted (postLines ls b) = bk_posted b @ ls"
  "bk_note (reduceAp ap b) = bk_note b" "bk_noteCarrying (reduceAp ap b) = bk_noteCarrying b"
  "bk_consumers (reduceAp ap b) = bk_consumers b" "bk_posted (reduceAp ap b) = bk_posted b"
  "bk_purchase (consumeCredit cr b) = bk_purchase b" "bk_reducers (consumeCredit cr b) = bk_reducers b"
  "bk_posted (consumeCredit cr b) = bk_posted b"
  "bk_note (consumeCredit cr (reduceAp ap b)) = bk_note (consumeCredit cr b)"
  "bk_noteCarrying (consumeCredit cr (reduceAp ap b)) = bk_noteCarrying (consumeCredit cr b)"
  "bk_consumers (consumeCredit cr (reduceAp ap b)) = bk_consumers (consumeCredit cr b)"
  by (simp_all add: postLines_def reduceAp_def consumeCredit_def)

lemma paymentEntry_accounts:
  assumes "apSide_ok p a ap"
  shows "netDebit Acc_accounts_payable (paymentEntry q qb ap) = ap_carryingReleasedMinor ap"
    "netDebit Acc_supplier_receivable (paymentEntry q qb ap) = 0" "settlementBalance (paymentEntry q qb ap) = 0"
  using apLines_sound [OF assms] by (simp_all add: paymentEntry_def fxLine_accounts fxLine_sound)

lemma creditAllocationEntry_accounts:
  assumes "apSide_ok p a ap" "creditSide_ok n c cr"
  shows "netDebit Acc_accounts_payable (creditAllocationEntry ap cr) = ap_carryingReleasedMinor ap"
    "netDebit Acc_supplier_receivable (creditAllocationEntry ap cr) = - cs_creditReleasedMinor cr"
    "settlementBalance (creditAllocationEntry ap cr) = 0"
  using apLines_sound [OF assms(1)] creditLines_sound [OF assms(2)]
  by (simp_all add: creditAllocationEntry_def fxLine_accounts fxLine_sound)

lemma refundEntry_accounts:
  assumes "creditSide_ok n c cr"
  shows "netDebit Acc_accounts_payable (refundEntry m mb cr) = 0"
    "netDebit Acc_supplier_receivable (refundEntry m mb cr) = - cs_creditReleasedMinor cr" "settlementBalance (refundEntry m mb cr) = 0"
  using creditLines_sound [OF assms] by (simp_all add: refundEntry_def fxLine_accounts fxLine_sound)

lemma settle_books_ok:
  assumes "books_ok b" "settle b c = Inr b'"
  shows "books_ok b'"
proof (cases c)
  case (Pay same p rate a)
  with assms(2) obtain plan where plan: "planPaymentAllocation \<lparr>pi_purchase = bk_purchase b, pi_sameCurrency = same,
      pi_paymentAmountMinor = p, pi_payment = rate, pi_appliedMinor = a\<rparr> = Inr plan"
    and b': "b' = postLines (pp_entryLines plan) (reduceAp (pp_ap plan) b)" by (auto simp: bindR_eq_Inr)
  from plan have ap: "apSide_ok (bk_purchase b) a (pp_ap plan)"
    "no_residue (pa_outstandingTxnMinor (bk_purchase b) - a) (pa_conversion (bk_purchase b))"
    and e: "pp_entryLines plan = paymentEntry p (pp_paymentBaseMinor plan) (pp_ap plan)"
    by (simp_all add: planPaymentAllocation_eq_Inr)
  note n = paymentEntry_accounts [OF ap(1)]
  from assms(1) have h: "purchase_half b" "note_half b" "settlementBalance (bk_posted b) = 0" by (simp_all add: books_ok_def)
  have "purchase_half b'" by (rule reduceAp_half [OF h(1) ap, of b' "pp_entryLines plan"]) (simp_all add: b' e n)
  moreover have "note_half b'" by (rule unchanged_halves(2) [OF h(2)]) (simp_all add: b' e n)
  ultimately show ?thesis using h(3) by (simp add: books_ok_def b' e n)
next
  case (Apply_credit same cc a)
  with assms(2) obtain plan where plan: "planCreditAllocation \<lparr>ci_purchase = bk_purchase b, ci_note = bk_note b,
      ci_sameCurrency = same, ci_consumedMinor = cc, ci_appliedMinor = a\<rparr> = Inr plan"
    and b': "b' = postLines (ca_entryLines plan) (consumeCredit (ca_cr plan) (reduceAp (ca_ap plan) b))"
    by (auto simp: bindR_eq_Inr)
  from plan have ap: "apSide_ok (bk_purchase b) a (ca_ap plan)"
    "no_residue (pa_outstandingTxnMinor (bk_purchase b) - a) (pa_conversion (bk_purchase b))"
    and cr: "creditSide_ok (bk_note b) cc (ca_cr plan)"
    "no_residue (cn_remainingMinor (bk_note b) - cc) (cn_conversion (bk_note b))"
    and e: "ca_entryLines plan = creditAllocationEntry (ca_ap plan) (ca_cr plan)"
    by (simp_all add: planCreditAllocation_eq_Inr)
  note n = creditAllocationEntry_accounts [OF ap(1) cr(1)]
  from assms(1) have h: "purchase_half b" "note_half b" "settlementBalance (bk_posted b) = 0" by (simp_all add: books_ok_def)
  have "purchase_half b'" by (rule reduceAp_half [OF h(1) ap, of b' "ca_entryLines plan"]) (simp_all add: b' e n)
  moreover have "note_half b'" by (rule consumeCredit_half [OF h(2) cr, of b' "ca_entryLines plan"]) (simp_all add: b' e n)
  ultimately show ?thesis using h(3) by (simp add: books_ok_def b' e n)
next
  case (Refund same cc m rate)
  with assms(2) obtain plan where plan: "planRefund \<lparr>ri_note = bk_note b, ri_sameCurrency = same, ri_consumedMinor = cc,
      ri_receiptAmountMinor = m, ri_receipt = rate\<rparr> = Inr plan"
    and b': "b' = postLines (rp_entryLines plan) (consumeCredit (rp_cr plan) b)" by (auto simp: bindR_eq_Inr)
  from plan have cr: "creditSide_ok (bk_note b) cc (rp_cr plan)"
    "no_residue (cn_remainingMinor (bk_note b) - cc) (cn_conversion (bk_note b))"
    and e: "rp_entryLines plan = refundEntry m (rp_receiptBaseMinor plan) (rp_cr plan)"
    by (simp_all add: planRefund_eq_Inr)
  note n = refundEntry_accounts [OF cr(1)]
  from assms(1) have h: "purchase_half b" "note_half b" "settlementBalance (bk_posted b) = 0" by (simp_all add: books_ok_def)
  have "note_half b'" by (rule consumeCredit_half [OF h(2) cr, of b' "rp_entryLines plan"]) (simp_all add: b' e n)
  moreover have "purchase_half b'" by (rule unchanged_halves(1) [OF h(1)]) (simp_all add: b' e n)
  ultimately show ?thesis using h(3) by (simp add: books_ok_def b' e n)
qed

interpretation settlement: preserved settle books_ok
  by unfold_locales (rule settle_books_ok)

lemma books_ok_settled:
  assumes "books_ok b"
  shows "pa_outstandingTxnMinor (bk_purchase b) = 0 \<Longrightarrow>
      netDebit Acc_accounts_payable (bk_posted b) = pa_totalBaseMinor (bk_purchase b)"
    "cn_remainingMinor (bk_note b) = 0 \<Longrightarrow>
      netDebit Acc_supplier_receivable (bk_posted b) = - cn_originalCarryingMinor (bk_note b)"
proof -
  from assms have T: "1 \<le> pa_totalTxnMinor (bk_purchase b)"
    and ap: "netDebit Acc_accounts_payable (bk_posted b) = halfEven (pa_totalBaseMinor (bk_purchase b) *
        (pa_totalTxnMinor (bk_purchase b) - pa_outstandingTxnMinor (bk_purchase b))) (pa_totalTxnMinor (bk_purchase b))"
    by (auto simp: books_ok_def purchase_half_def Let_def verifyPurchaseChain_eq_Inr)
  show "pa_outstandingTxnMinor (bk_purchase b) = 0 \<Longrightarrow>
      netDebit Acc_accounts_payable (bk_posted b) = pa_totalBaseMinor (bk_purchase b)"
    using T by (simp add: ap)
  assume "cn_remainingMinor (bk_note b) = 0"
  then show "netDebit Acc_supplier_receivable (bk_posted b) = - cn_originalCarryingMinor (bk_note b)"
    using assms by (auto simp: books_ok_def note_half_def verifyCreditChain_eq_Inr notePair_def carried_def)
qed

text \<open>Whatever is outstanding can always be paid off, at the purchase's own rate and in its own currency.\<close>

lemma books_ok_payable:
  assumes "books_ok b" "0 < pa_outstandingTxnMinor (bk_purchase b)"
  shows "\<exists>b'. settle b (Pay True (pa_outstandingTxnMinor (bk_purchase b)) (pa_conversion (bk_purchase b))
            (pa_outstandingTxnMinor (bk_purchase b))) = Inr b' \<and> pa_outstandingTxnMinor (bk_purchase b') = 0"
proof -
  let ?p = "bk_purchase b" and ?O = "pa_outstandingTxnMinor (bk_purchase b)"
  define i where "i = \<lparr>pi_purchase = ?p, pi_sameCurrency = True, pi_paymentAmountMinor = ?O,
     pi_payment = pa_conversion ?p, pi_appliedMinor = ?O\<rparr>"
  from assms obtain a where c: "conversion_ok (pa_conversion ?p)" "no_residue ?O (pa_conversion ?p)"
    "1 \<le> pa_totalTxnMinor ?p" "pa_totalTxnMinor ?p \<le> VALUE_LIMIT_MINOR" "0 \<le> pa_totalBaseMinor ?p"
    "pa_totalBaseMinor ?p \<le> VALUE_LIMIT_MINOR" "a \<le> pa_totalTxnMinor ?p"
    "chainFrom 0 0 (reducers (bk_reducers b)) = Inr (pa_totalTxnMinor ?p - ?O, halfEven (pa_totalBaseMinor ?p * (pa_totalTxnMinor ?p - ?O)) (pa_totalTxnMinor ?p))"
    by (auto simp: books_ok_def purchase_half_def Let_def verifyPurchaseChain_eq_Inr)
  have "\<forall>x \<in> set (reducers (bk_reducers b)). 0 < pr_amountMinor x" by (simp add: reducers_set)
  from chainFrom_sorted(3) [OF c(8) this] have O: "?O \<le> pa_totalTxnMinor ?p" by simp
  have pos: "0 < converted ?O (pa_conversion ?p)" using c(2) assms(2) by (simp add: no_residue_def)
  obtain ap where ap: "apSide_ok ?p ?O ap" using c O pos assms(2) by (simp add: apSide_ok_def)
  define plan where "plan = \<lparr>pp_ap = ap, pp_paymentAmountMinor = ?O, pp_paymentBaseMinor = converted ?O (pa_conversion ?p),
     pp_realizedMinor = converted ?O (pa_conversion ?p) - ap_carryingReleasedMinor ap,
     pp_entryLines = paymentEntry ?O (converted ?O (pa_conversion ?p)) ap\<rparr>"
  have "planPaymentAllocation i = Inr plan"
    using ap pos c O assms(2) by (simp add: planPaymentAllocation_eq_Inr i_def plan_def no_residue_def)
  moreover have "ap_appliedMinor ap = ?O" using ap by (simp add: apSide_ok_def)
  ultimately show ?thesis by (simp add: i_def plan_def reduceAp_def)
qed

subsection \<open>Properties\<close>

text \<open>C1: Whatever sequence of payments, credit allocations and refunds is accepted against a purchase and
  a credit note, both stored chains pass their verdicts, the books balance, and the ledger has released
  exactly the cumulative share: the net debit of accounts payable is the rounded share of the base total
  for the amount settled, that of supplier receivable is what the note has given up.\<close>

theorem settlement_sound:
  assumes "opening_ok T B R" "opening_ok OA OB Rn" "runR settle (openingBooks T B R OA OB Rn) cs = Inr b"
  shows "verifyPurchaseChain (pa_totalTxnMinor (bk_purchase b)) (pa_totalBaseMinor (bk_purchase b)) (bk_reducers b) = Inr ()
    \<and> verifyCreditChain (notePair b) (bk_consumers b) = Inr () \<and> settlementBalance (bk_posted b) = 0
    \<and> netDebit Acc_accounts_payable (bk_posted b) = halfEven (pa_totalBaseMinor (bk_purchase b)
        * (pa_totalTxnMinor (bk_purchase b) - pa_outstandingTxnMinor (bk_purchase b))) (pa_totalTxnMinor (bk_purchase b))
    \<and> netDebit Acc_supplier_receivable (bk_posted b) = bk_noteCarrying b - cn_originalCarryingMinor (bk_note b)"
  using settlement.run_inv [OF opening_books_ok [OF assms(1,2)] assms(3)]
  by (simp add: books_ok_def purchase_half_def note_half_def Let_def)

definition lira :: SettlementConversion where
  "lira = \<lparr>rateR10 = 35000000000, txnExponent = 2, baseExponent = 2\<rparr>"

definition sample_commands :: "Command list" where
  "sample_commands = [Pay True 400 (lira\<lparr>rateR10 := 37000000000\<rparr>) 400, Apply_credit True 60 60, Refund False 40 150 (lira\<lparr>rateR10 := R10\<rparr>),
     Pay False 1900 (lira\<lparr>rateR10 := R10\<rparr>) 541]"

definition sample_books :: Books where
  "sample_books = (case runR settle (openingBooks 1001 3504 lira 100 350 lira) sample_commands of
     Inl e \<Rightarrow> openingBooks 0 0 lira 0 0 lira | Inr b \<Rightarrow> b)"

lemma sample_run: "runR settle (openingBooks 1001 3504 lira 100 350 lira) sample_commands = Inr sample_books"
  by code_simp

lemma sample_opening: "opening_ok 1001 3504 lira" "opening_ok 100 350 lira"
  by (simp_all add: opening_ok_def limits conversion_ok_def lira_def converted_def R10_def halfEven_def)

theorem settlement_sound_witness:
  "settlementBalance (bk_posted sample_books) = 0 \<and> verifyCreditChain (notePair sample_books) (bk_consumers sample_books) = Inr ()"
  using settlement_sound [OF sample_opening sample_run] by blast

text \<open>C2: Nothing is stranded: when a purchase is fully settled the ledger has released its whole base total,
  and when a credit note is used up it has given up its whole carrying value, whatever the sequence,
  the sizes and the rates of the steps.\<close>

theorem settlement_strands_nothing:
  assumes "opening_ok T B R" "opening_ok OA OB Rn" "runR settle (openingBooks T B R OA OB Rn) cs = Inr b"
  shows "(pa_outstandingTxnMinor (bk_purchase b) = 0 \<longrightarrow>
       netDebit Acc_accounts_payable (bk_posted b) = pa_totalBaseMinor (bk_purchase b))
    \<and> (cn_remainingMinor (bk_note b) = 0 \<longrightarrow>
       netDebit Acc_supplier_receivable (bk_posted b) = - cn_originalCarryingMinor (bk_note b))"
  using books_ok_settled [OF settlement.run_inv [OF opening_books_ok [OF assms(1,2)] assms(3)]] by blast

theorem settlement_strands_nothing_witness:
  "netDebit Acc_accounts_payable (bk_posted sample_books) = 3504
   \<and> netDebit Acc_supplier_receivable (bk_posted sample_books) = - 350"
proof -
  have "pa_outstandingTxnMinor (bk_purchase sample_books) = 0" "cn_remainingMinor (bk_note sample_books) = 0"
    "pa_totalBaseMinor (bk_purchase sample_books) = 3504" "cn_originalCarryingMinor (bk_note sample_books) = 350"
    by code_simp+
  with settlement_strands_nothing [OF sample_opening sample_run] show ?thesis by simp
qed

text \<open>C7: The residue guards keep a purchase payable: at any point of any sequence, whatever is still
  outstanding can be paid off in one payment in the purchase's currency at its own rate.\<close>

theorem settlement_always_payable:
  assumes "opening_ok T B R" "opening_ok OA OB Rn" "runR settle (openingBooks T B R OA OB Rn) cs = Inr b"
    "0 < pa_outstandingTxnMinor (bk_purchase b)"
  shows "\<exists>b'. settle b (Pay True (pa_outstandingTxnMinor (bk_purchase b)) (pa_conversion (bk_purchase b))
            (pa_outstandingTxnMinor (bk_purchase b))) = Inr b' \<and> pa_outstandingTxnMinor (bk_purchase b') = 0"
  using books_ok_payable [OF settlement.run_inv [OF opening_books_ok [OF assms(1,2)] assms(3)] assms(4)] .

theorem settlement_always_payable_witness:
  "\<exists>b'. settle (openingBooks 1001 3504 lira 100 350 lira) (Pay True 1001 lira 1001) = Inr b'
     \<and> pa_outstandingTxnMinor (bk_purchase b') = 0"
  using settlement_always_payable [OF sample_opening, of "[]" "openingBooks 1001 3504 lira 100 350 lira"]
  by (simp add: openingBooks_def)

text \<open>The verdict over a purchase's reducers does not depend on the order in which the rows are read, and
  an accepted chain never holds two reducers computed from the same outstanding amount.\<close>

theorem purchase_chain_verdict:
  assumes "verifyPurchaseChain T B rows = Inr ()" "mset rows = mset rows'"
  shows "verifyPurchaseChain T B rows' = Inr ()
    \<and> (\<forall>i < length rows'. \<forall>j < length rows'. i \<noteq> j \<and> 0 < pr_amountMinor (rows' ! i) \<and> 0 < pr_amountMinor (rows' ! j) \<longrightarrow>
         pr_releasedBeforeMinor (rows' ! i) \<noteq> pr_releasedBeforeMinor (rows' ! j))"
  using verifyPurchaseChain_permuted [OF assms] verifyPurchaseChain_overlap by blast

definition sample_rows :: "PurchaseChainRow list" where
  "sample_rows = [\<lparr>pr_releasedBeforeMinor = 0, pr_amountMinor = 1, pr_releasedBaseMinor = 1\<rparr>,
     \<lparr>pr_releasedBeforeMinor = 1, pr_amountMinor = 2, pr_releasedBaseMinor = 1\<rparr>]"

theorem purchase_chain_verdict_witness: "verifyPurchaseChain 3 2 (rev sample_rows) = Inr ()"
proof -
  have "verifyPurchaseChain 3 2 sample_rows = Inr ()" by code_simp
  from purchase_chain_verdict [OF this, of "rev sample_rows"] show ?thesis by simp
qed

text \<open>A payment allocation is accepted exactly when its amounts are positive and within the
  outstanding, convert to at least one base unit and leave nothing or a payable remainder; the entry it
  posts then always balances, so its last check never refuses.\<close>

theorem payment_allocation_accepted:
  "(\<exists>p. planPaymentAllocation i = Inr p) \<longleftrightarrow>
     (0 < pi_paymentAmountMinor i \<and> pi_paymentAmountMinor i \<le> VALUE_LIMIT_MINOR
      \<and> (pi_sameCurrency i \<longrightarrow> pi_paymentAmountMinor i = pi_appliedMinor i)
      \<and> (\<exists>ap. apSide supplier_payment (pi_purchase i) (pi_appliedMinor i) = Inr ap) \<and> conversion_ok (pi_payment i)
      \<and> 0 < converted (pi_paymentAmountMinor i) (pi_payment i)
      \<and> no_residue (pa_outstandingTxnMinor (pi_purchase i) - pi_appliedMinor i) (pa_conversion (pi_purchase i)))" (is "?l \<longleftrightarrow> ?r")
proof
  show "?l \<Longrightarrow> ?r" by (auto simp: planPaymentAllocation_eq_Inr apSide_eq_Inr)
  assume r: ?r
  then obtain ap where "apSide_ok (pi_purchase i) (pi_appliedMinor i) ap" by (auto simp: apSide_eq_Inr)
  with r show ?l
    by (intro exI [of _ "\<lparr>pp_ap = ap, pp_paymentAmountMinor = pi_paymentAmountMinor i,
        pp_paymentBaseMinor = converted (pi_paymentAmountMinor i) (pi_payment i),
        pp_realizedMinor = converted (pi_paymentAmountMinor i) (pi_payment i) - ap_carryingReleasedMinor ap,
        pp_entryLines = paymentEntry (pi_paymentAmountMinor i) (converted (pi_paymentAmountMinor i) (pi_payment i)) ap\<rparr>"])
      (simp add: planPaymentAllocation_eq_Inr)
qed

definition sample_payment :: PaymentAllocationInput where
  "sample_payment = \<lparr>pi_purchase = \<lparr>pa_totalTxnMinor = 1001, pa_totalBaseMinor = 3504, pa_outstandingTxnMinor = 1001, pa_conversion = lira\<rparr>,
     pi_sameCurrency = True, pi_paymentAmountMinor = 400, pi_payment = lira, pi_appliedMinor = 400\<rparr>"

theorem payment_allocation_accepted_witness: "\<exists>p. planPaymentAllocation sample_payment = Inr p"
proof -
  have "apSide supplier_payment (pi_purchase sample_payment) 400 = Inr
     \<lparr>ap_appliedMinor = 400, ap_releasedBeforeMinor = 0, ap_carryingReleasedMinor = 1400, ap_apConvertedMinor = 1400, ap_apDustBaseMinor = 0\<rparr>"
    by code_simp
  then show ?thesis
    by (subst payment_allocation_accepted)
      (auto simp: sample_payment_def limits conversion_ok_def no_residue_def lira_def converted_def R10_def halfEven_def)
qed

text \<open>Consuming a credit note in any number of parts of any sizes releases, part by part, never a
  negative value, and in total exactly its original carrying value.\<close>

theorem credit_note_exhausted:
  assumes "1 \<le> OA" "1 \<le> OB" "OA \<le> VALUE_LIMIT_MINOR" "OB \<le> VALUE_LIMIT_MINOR" "sum_list cs = OA" "list_all (\<lambda>c. 0 < c) cs"
  shows "\<exists>rs. creditRun OA OB OA cs = Inr rs \<and> sum_list rs = OB \<and> list_all (\<lambda>r. 0 \<le> r) rs"
  using creditRun_total [of OA OB OA cs] assms credit_note.releases_exhaust [of OA OB cs] by auto

theorem credit_note_exhausted_witness:
  "\<exists>rs. creditRun 7 5 7 [3, 2, 2] = Inr rs \<and> sum_list rs = 5 \<and> list_all (\<lambda>r. 0 \<le> r) rs"
  using credit_note_exhausted [of 7 5 "[3, 2, 2]"] by (simp add: limits)

end
