(* ===== verification/Purchase_Residue.thy ===== *)
theory Purchase_Residue
  imports Supplier_Settlement
begin

text \<open>
  packages/inventory/src/purchase-residue.ts: the outstanding amount of a purchase that
  converts to less than one base minor unit, how a return is kept from leaving one and how
  an existing one is written off. The payload builder of the same file is in
  Document_Payloads.
\<close>

subsection \<open>The code\<close>

text \<open>The conversion is the caller's: a parameter.\<close>

definition supplierReturnLeavesSubUnitResidue :: "int \<Rightarrow> int \<Rightarrow> (int \<Rightarrow> int result) \<Rightarrow> bool result" where
  "supplierReturnLeavesSubUnitResidue outstandingTxnMinor apTxnMinor conv =
     (if apTxnMinor < 0 \<or> outstandingTxnMinor < apTxnMinor then refuse (InventoryError arithmetic_invalid)
      else if apTxnMinor = 0 then Inr False
      else let left = outstandingTxnMinor - apTxnMinor
           in if 0 < left then bindR (conv left) (\<lambda>b. Inr (b = 0)) else Inr False)"

record ResidueWriteOffState =
  rw_totalTxnMinor :: int
  rw_totalBaseMinor :: int
  rw_outstandingTxnMinor :: int
  rw_conversion :: SettlementConversion

record ResidueWriteOffBound =
  rb_residueTxnMinor :: int
  rb_releasedBeforeTxnMinor :: int
  rb_residueBaseMinor :: int
  rb_entryLines :: "SettlementEntryLine list"

datatype ResidueWriteOffPlan = Nothing_outstanding | Not_below_base_unit | Write_off ResidueWriteOffBound

definition planResidueWriteOff :: "ResidueWriteOffState \<Rightarrow> ResidueWriteOffPlan result" where
  "planResidueWriteOff s =
     (let t = rw_totalTxnMinor s; b = rw_totalBaseMinor s; out = rw_outstandingTxnMinor s; c = rw_conversion s in
      if out < 0 \<or> t < out then refuse (InventoryError arithmetic_invalid)
      else if out = 0 then Inr Nothing_outstanding
      else bindR (convertToBase out (rateR10 c) (txnExponent c) (baseExponent c)) (\<lambda>base.
        if base \<noteq> 0 then Inr Not_below_base_unit
        else let x = t - out
             in bindR (apRelease b t x out) (\<lambda>rb.
                  Inr (Write_off \<lparr>rb_residueTxnMinor = out, rb_releasedBeforeTxnMinor = x, rb_residueBaseMinor = rb,
                    rb_entryLines =
                      (if rb = 0 then []
                       else [\<lparr>se_account = Acc_accounts_payable, se_side = Side_D, se_currency = Cur_base,
                              se_txnAmountMinor = rb, se_baseAmountMinor = rb, se_dimension = Dim_purchase\<rparr>,
                             \<lparr>se_account = Acc_fx_gain, se_side = Side_C, se_currency = Cur_base,
                              se_txnAmountMinor = rb, se_baseAmountMinor = rb, se_dimension = Dim_purchase\<rparr>])\<rparr>))))"

subsection \<open>The write-off\<close>

lemma planResidueWriteOff_bound:
  assumes "planResidueWriteOff s = Inr (Write_off w)"
  defines "T \<equiv> rw_totalTxnMinor s" and "B \<equiv> rw_totalBaseMinor s" and "out \<equiv> rw_outstandingTxnMinor s"
  shows "0 < out" "out \<le> T" "0 \<le> B" "converted out (rw_conversion s) = 0" "conversion_ok (rw_conversion s)"
    "rb_residueTxnMinor w = out" "rb_releasedBeforeTxnMinor w = T - out"
    "rb_residueBaseMinor w = apLeft T B out" "netDebit Acc_accounts_payable (rb_entryLines w) = apLeft T B out"
    "settlementBalance (rb_entryLines w) = 0"
proof -
  let ?c = "rw_conversion s"
  from assms(1) obtain base rb where a: "0 \<le> out" "out \<le> T" "out \<noteq> 0" "convert out ?c = Inr base" "base = 0"
    "apRelease B T (T - out) out = Inr rb"
    and w: "w = \<lparr>rb_residueTxnMinor = out, rb_releasedBeforeTxnMinor = T - out, rb_residueBaseMinor = rb,
                    rb_entryLines =
                      (if rb = 0 then []
                       else [\<lparr>se_account = Acc_accounts_payable, se_side = Side_D, se_currency = Cur_base,
                              se_txnAmountMinor = rb, se_baseAmountMinor = rb, se_dimension = Dim_purchase\<rparr>,
                             \<lparr>se_account = Acc_fx_gain, se_side = Side_C, se_currency = Cur_base,
                              se_txnAmountMinor = rb, se_baseAmountMinor = rb, se_dimension = Dim_purchase\<rparr>])\<rparr>"
    by (auto simp: planResidueWriteOff_def Let_def bindR_eq_Inr convert_def T_def B_def out_def not_less split: if_splits)
  have "rb = halfEven_rel B T (T - out) out" "0 \<le> B" "1 \<le> T" using a(6) by (simp_all add: apRelease_eq_Inr)
  then have rb: "rb = apLeft T B out" by (simp add: apRelease_apLeft ap.level_empty)
  show "0 < out" "out \<le> T" "0 \<le> B" "converted out ?c = 0" "conversion_ok ?c"
    using a \<open>0 \<le> B\<close> by (auto simp: convert_eq_Inr)
  show "rb_residueTxnMinor w = out" "rb_releasedBeforeTxnMinor w = T - out" "rb_residueBaseMinor w = apLeft T B out"
    "netDebit Acc_accounts_payable (rb_entryLines w) = apLeft T B out" "settlementBalance (rb_entryLines w) = 0"
    by (simp_all add: w rb)
qed

text \<open>
  A residue that converts to nothing carries at most one base minor unit, when the base
  total is the conversion of the purchase total.
\<close>

lemma residue_carries_at_most_one:
  assumes "1 \<le> T" "0 < D" "0 \<le> r" "0 < out" "out \<le> T" "halfEven (out * r) D = 0"
  defines "B \<equiv> halfEven (T * r) D"
  shows "0 \<le> apLeft T B out" "apLeft T B out \<le> 1"
proof -
  have B: "0 \<le> B" using assms by (simp add: B_def halfEven_nonneg)
  then show "0 \<le> apLeft T B out" using ap.level_bounds(1) [of T B out] assms(1,4,5) by simp
  have "2 * (out * r) \<le> D"
    using half_distance(2) [OF halfEven_error [OF assms(2), of "out * r"]] assms(6) by simp
  then have "T * (2 * (out * r)) \<le> T * D" using assms(1) by (intro mult_left_mono) simp_all
  moreover have "2 * (D * B) - D \<le> 2 * (T * r)"
    using half_distance(1) [OF halfEven_error [OF assms(2), of "T * r"]] by (simp add: B_def)
  then have "out * (2 * (D * B) - D) \<le> out * (2 * (T * r))" using assms(4) by (intro mult_left_mono) simp_all
  moreover have "D * out \<le> D * T" using assms(2,5) by simp
  ultimately have "D * (B * out) \<le> D * T" by (simp add: algebra_simps)
  then have BO: "B * out \<le> T" using assms(2) by simp
  have "2 * \<bar>B * (T - out) - T * halfEven (B * (T - out)) T\<bar> \<le> T"
    using assms(1) by (intro halfEven_error) simp
  then have "2 * (B * (T - out)) \<le> 2 * (T * halfEven (B * (T - out)) T) + T" by (rule half_distance(2))
  then have "2 * (T * apLeft T B out) \<le> 2 * (B * out) + T" by (simp add: apLeft_def algebra_simps)
  with BO have "T * (2 * apLeft T B out) \<le> T * 3" by (simp add: algebra_simps)
  with assms(1) have "2 * apLeft T B out \<le> 3" by simp
  then show "apLeft T B out \<le> 1" by simp
qed

lemma residue_base:
  assumes "planResidueWriteOff s = Inr (Write_off w)" "rw_totalBaseMinor s = converted (rw_totalTxnMinor s) (rw_conversion s)"
  shows "0 \<le> rb_residueBaseMinor w" "rb_residueBaseMinor w \<le> 1"
proof -
  note p = planResidueWriteOff_bound [OF assms(1)]
  let ?c = "rw_conversion s"
  let ?r = "rateR10 ?c * 10 ^ nat (max 0 (baseExponent ?c - txnExponent ?c))"
  let ?D = "R10 * 10 ^ nat (max 0 (txnExponent ?c - baseExponent ?c))"
  have c: "converted x ?c = halfEven (x * ?r) ?D" for x by (simp add: converted_def mult.assoc)
  have D: "0 < ?D" "0 \<le> ?r" using p(5) by (simp_all add: R10_def conversion_ok_def)
  have T: "1 \<le> rw_totalTxnMinor s" using p(1,2) by linarith
  have z: "halfEven (rw_outstandingTxnMinor s * ?r) ?D = 0" using p(4) c [of "rw_outstandingTxnMinor s"] by simp
  have B: "rw_totalBaseMinor s = halfEven (rw_totalTxnMinor s * ?r) ?D" using assms(2) c by simp
  from residue_carries_at_most_one [OF T D p(1,2) z]
  show "0 \<le> rb_residueBaseMinor w" "rb_residueBaseMinor w \<le> 1" unfolding p(8) B by blast+
qed

text \<open>A purchase with a residue is refused by every plan that would reduce it, which is why the write-off exists.\<close>

lemma residue_not_payable:
  assumes "conversion_ok (pa_conversion p)" "converted (pa_outstandingTxnMinor p) (pa_conversion p) = 0"
  shows "apSide d p a \<noteq> Inr ap"
proof
  assume "apSide d p a = Inr ap"
  then have "0 < converted a (pa_conversion p)" "a \<le> pa_outstandingTxnMinor p"
    by (simp_all add: apSide_eq_Inr apSide_ok_def)
  with converted_mono [OF assms(1), of a "pa_outstandingTxnMinor p"] assms(2) show False by simp
qed

subsection \<open>Properties\<close>

text \<open>C11: A residue write-off closes the purchase's base account exactly: it takes the whole outstanding amount, releases
  what the purchase still carries, never less than nothing, and its entry balances. When moreover the base total is the
  conversion of the purchase total at the same rate, what it releases is zero or one base minor unit; a base total that is
  not can leave more.\<close>

theorem residue_write_off_closes:
  assumes "planResidueWriteOff s = Inr (Write_off w)"
  shows "rb_residueTxnMinor w = rw_outstandingTxnMinor s \<and> 0 \<le> rb_residueBaseMinor w
     \<and> halfEven (rw_totalBaseMinor s * rb_releasedBeforeTxnMinor w) (rw_totalTxnMinor s) + rb_residueBaseMinor w = rw_totalBaseMinor s
     \<and> netDebit Acc_accounts_payable (rb_entryLines w) = rb_residueBaseMinor w \<and> settlementBalance (rb_entryLines w) = 0
     \<and> (rw_totalBaseMinor s = converted (rw_totalTxnMinor s) (rw_conversion s) \<longrightarrow> rb_residueBaseMinor w \<in> {0, 1})"
proof -
  note p = planResidueWriteOff_bound [OF assms]
  have "0 \<le> rb_residueBaseMinor w"
    using ap.level_bounds(1) [of "rw_totalTxnMinor s" "rw_totalBaseMinor s" "rw_outstandingTxnMinor s"] p by simp
  with p show ?thesis
    using residue_base [OF assms] by (auto simp: apLeft_def)
qed

definition kurus :: SettlementConversion where
  "kurus = \<lparr>rateR10 = 1100000000, txnExponent = 2, baseExponent = 2\<rparr>"

definition sample_residue :: ResidueWriteOffState where
  "sample_residue = \<lparr>rw_totalTxnMinor = 5000, rw_totalBaseMinor = 550, rw_outstandingTxnMinor = 1, rw_conversion = kurus\<rparr>"

definition sample_bound :: ResidueWriteOffBound where
  "sample_bound = \<lparr>rb_residueTxnMinor = 1, rb_releasedBeforeTxnMinor = 4999, rb_residueBaseMinor = 0, rb_entryLines = []\<rparr>"

theorem residue_write_off_closes_witness: "rb_residueBaseMinor sample_bound \<in> {0, 1}"
proof -
  have "planResidueWriteOff sample_residue = Inr (Write_off sample_bound)"
    "rw_totalBaseMinor sample_residue = converted (rw_totalTxnMinor sample_residue) (rw_conversion sample_residue)"
    by code_simp+
  from residue_write_off_closes [OF this(1)] this(2) show ?thesis by blast
qed

text \<open>A purchase left with a residue cannot be reduced by any payment or credit allocation: every applied
  amount is refused.\<close>

theorem residue_blocks_settlement:
  assumes "conversion_ok (pa_conversion p)" "converted (pa_outstandingTxnMinor p) (pa_conversion p) = 0"
  shows "apSide d p a \<noteq> Inr ap"
  using assms by (rule residue_not_payable)

theorem residue_blocks_settlement_witness:
  "\<not> (\<exists>ap. apSide supplier_payment \<lparr>pa_totalTxnMinor = 5000, pa_totalBaseMinor = 550, pa_outstandingTxnMinor = 1, pa_conversion = kurus\<rparr> 1 = Inr ap)"
  using residue_blocks_settlement [of "\<lparr>pa_totalTxnMinor = 5000, pa_totalBaseMinor = 550, pa_outstandingTxnMinor = 1, pa_conversion = kurus\<rparr>"]
  by (simp add: kurus_def conversion_ok_def converted_def R10_def halfEven_def)

end
