(* ===== verification/Supplier_Return.thy ===== *)
theory Supplier_Return
  imports Supplier_Settlement Landed_Cost
begin

text \<open>
  packages/inventory/src/supplier-return.ts: the amounts and the entry of a return to a
  supplier. The conversion at the purchase's rate is a parameter of the plan, as it is in the
  code; it may refuse.
\<close>

subsection \<open>The code\<close>

definition MAX_DOCUMENT_LINES :: nat where "MAX_DOCUMENT_LINES = 200"

definition assertQ4 :: "int \<Rightarrow> int \<Rightarrow> unit result" where
  "assertQ4 v lo = (if v < lo \<or> QTY_LIMIT_Q4 \<le> v then refuse (InventoryError quantity_invalid) else Inr ())"

definition carryingTxn :: "int \<Rightarrow> int \<Rightarrow> int \<Rightarrow> int \<Rightarrow> int result" where
  "carryingTxn lineTotalTxnMinor purchasedQ4 returnedBeforeQ4 returnQ4 =
     bindR (assertMinor lineTotalTxnMinor 0) (\<lambda>_.
     bindR (assertQ4 purchasedQ4 1) (\<lambda>_.
     bindR (assertQ4 returnedBeforeQ4 0) (\<lambda>_.
     bindR (assertQ4 returnQ4 1) (\<lambda>_.
       if purchasedQ4 < returnedBeforeQ4 + returnQ4 then refuse (InventoryError supplier_return_quantity_exceeds_purchased)
       else bindR (roundHalfEven (lineTotalTxnMinor * (returnedBeforeQ4 + returnQ4)) purchasedQ4) (\<lambda>x.
            bindR (roundHalfEven (lineTotalTxnMinor * returnedBeforeQ4) purchasedQ4) (\<lambda>y. Inr (x - y)))))))"

text \<open>\<open>{ apTxnMinor, creditTxnMinor }\<close> as a pair.\<close>

definition apSplit :: "int \<Rightarrow> int \<Rightarrow> (int \<times> int) result" where
  "apSplit carryingTxnMinor outstandingTxnMinor =
     bindR (assertMinor carryingTxnMinor 0) (\<lambda>_.
     bindR (assertMinor outstandingTxnMinor 0) (\<lambda>_.
       let apTxn = (if carryingTxnMinor < outstandingTxnMinor then carryingTxnMinor else outstandingTxnMinor)
       in Inr (apTxn, carryingTxnMinor - apTxn)))"

definition apBaseRelease :: "int \<Rightarrow> int \<Rightarrow> int \<Rightarrow> int \<Rightarrow> int result" where
  "apBaseRelease totalBaseMinor totalTxnMinor outstandingTxnMinor apTxnMinor =
     bindR (assertMinor totalBaseMinor 1) (\<lambda>_.
     bindR (assertMinor totalTxnMinor 1) (\<lambda>_.
     bindR (assertMinor outstandingTxnMinor 0) (\<lambda>_.
     bindR (assertMinor apTxnMinor 0) (\<lambda>_.
       if totalTxnMinor < outstandingTxnMinor then refuse (InventoryError arithmetic_invalid)
       else if outstandingTxnMinor < apTxnMinor then refuse (InventoryError arithmetic_invalid)
       else let released = totalTxnMinor - outstandingTxnMinor
            in bindR (roundHalfEven (totalBaseMinor * (released + apTxnMinor)) totalTxnMinor) (\<lambda>x.
               bindR (roundHalfEven (totalBaseMinor * released) totalTxnMinor) (\<lambda>y. Inr (x - y)))))))"

definition ppv :: "int \<Rightarrow> int \<Rightarrow> int \<Rightarrow> int result" where
  "ppv apBaseMinor creditBaseMinor inventoryValueMinor =
     bindR (assertMinor apBaseMinor 0) (\<lambda>_.
     bindR (assertMinor creditBaseMinor 0) (\<lambda>_.
     bindR (assertMinor inventoryValueMinor 0) (\<lambda>_.
       Inr (apBaseMinor + creditBaseMinor - inventoryValueMinor))))"

record SupplierReturnLineInput =
  sl_lineTotalTxnMinor :: int
  sl_purchasedQ4 :: int
  sl_returnedBeforeQ4 :: int
  sl_returnQ4 :: int
  sl_stock :: StockState

record SupplierReturnPlanInput =
  sr_totalTxnMinor :: int
  sr_totalBaseMinor :: int
  sr_outstandingTxnMinor :: int
  sr_lines :: "SupplierReturnLineInput list"

record SupplierReturnLinePlan =
  sp_carryingTxnMinor :: int
  sp_valueOutMinor :: int
  sp_unitCostSnapshotC10 :: int
  sp_stockAfter :: StockState

datatype SupplierReturnAccount = Ret_accounts_payable | Ret_supplier_receivable | Ret_inventory | Ret_purchase_price_variance

datatype ReturnCurrency = RCur_purchase | RCur_base

datatype ReturnDimension = RDim_purchase | RDim_return

record SupplierReturnEntryLine =
  re_systemKey :: SupplierReturnAccount
  re_side :: Side
  re_currency :: ReturnCurrency
  re_txnAmountMinor :: int
  re_baseAmountMinor :: int
  re_dimension :: ReturnDimension

text \<open>The amounts \<open>supplierReturnEntryLines\<close> picks from the plan.\<close>

record ReturnAmounts =
  ra_apTxnMinor :: int
  ra_apConvertedMinor :: int
  ra_apDustBaseMinor :: int
  ra_creditTxnMinor :: int
  ra_creditBaseMinor :: int
  ra_inventoryValueMinor :: int
  ra_ppvMinor :: int

record SupplierReturnPlan =
  srp_carryingTxnMinor :: int
  srp_apBaseMinor :: int
  srp_amounts :: ReturnAmounts
  srp_creditNote :: bool
  srp_lines :: "SupplierReturnLinePlan list"
  srp_entryLines :: "SupplierReturnEntryLine list"

definition convertPositive :: "(int \<Rightarrow> int result) \<Rightarrow> int \<Rightarrow> int result" where
  "convertPositive conv txnMinor =
     (if txnMinor = 0 then Inr 0
      else bindR (conv txnMinor) (\<lambda>base.
        if base < 0 \<or> VALUE_LIMIT_MINOR < base then refuse (InventoryError arithmetic_invalid)
        else if base = 0 then refuse (InventoryError supplier_return_amount_below_base_unit)
        else Inr base))"

definition returnLines :: "ReturnAmounts \<Rightarrow> SupplierReturnEntryLine list" where
  "returnLines a =
     (if ra_apTxnMinor a \<noteq> 0
      then [\<lparr>re_systemKey = Ret_accounts_payable, re_side = Side_D, re_currency = RCur_purchase,
             re_txnAmountMinor = ra_apTxnMinor a, re_baseAmountMinor = ra_apConvertedMinor a, re_dimension = RDim_purchase\<rparr>] else [])
   @ (if ra_apDustBaseMinor a \<noteq> 0
      then [\<lparr>re_systemKey = Ret_accounts_payable, re_side = (if 0 < ra_apDustBaseMinor a then Side_D else Side_C),
             re_currency = RCur_base, re_txnAmountMinor = absBig (ra_apDustBaseMinor a),
             re_baseAmountMinor = absBig (ra_apDustBaseMinor a), re_dimension = RDim_purchase\<rparr>] else [])
   @ (if ra_creditTxnMinor a \<noteq> 0
      then [\<lparr>re_systemKey = Ret_supplier_receivable, re_side = Side_D, re_currency = RCur_purchase,
             re_txnAmountMinor = ra_creditTxnMinor a, re_baseAmountMinor = ra_creditBaseMinor a, re_dimension = RDim_purchase\<rparr>] else [])
   @ (if ra_inventoryValueMinor a \<noteq> 0
      then [\<lparr>re_systemKey = Ret_inventory, re_side = Side_C, re_currency = RCur_base,
             re_txnAmountMinor = ra_inventoryValueMinor a, re_baseAmountMinor = ra_inventoryValueMinor a, re_dimension = RDim_return\<rparr>] else [])
   @ (if ra_ppvMinor a \<noteq> 0
      then [\<lparr>re_systemKey = Ret_purchase_price_variance, re_side = (if 0 < ra_ppvMinor a then Side_C else Side_D),
             re_currency = RCur_base, re_txnAmountMinor = absBig (ra_ppvMinor a), re_baseAmountMinor = absBig (ra_ppvMinor a),
             re_dimension = RDim_return\<rparr>] else [])"

fun returnBalance :: "int \<Rightarrow> SupplierReturnEntryLine list \<Rightarrow> int result" where
  "returnBalance balance [] = Inr balance"
| "returnBalance balance (l # ls) =
     (if re_baseAmountMinor l \<le> 0 then refuse (InventoryError arithmetic_invalid)
      else returnBalance (balance + (if re_side l = Side_D then re_baseAmountMinor l else - re_baseAmountMinor l)) ls)"

definition supplierReturnEntryLines :: "ReturnAmounts \<Rightarrow> SupplierReturnEntryLine list result" where
  "supplierReturnEntryLines a =
     (let out = returnLines a
      in bindR (returnBalance 0 out) (\<lambda>balance.
           if balance \<noteq> 0 \<or> \<not> list_ex (\<lambda>l. re_side l = Side_D) out then refuse (InventoryError arithmetic_invalid)
           else Inr out))"

definition returnLinePlan :: "SupplierReturnLineInput \<times> int \<Rightarrow> SupplierReturnLinePlan result" where
  "returnLinePlan lc =
     (let l = fst lc in
      bindR (outboundValue (sl_stock l) (- sl_returnQ4 l)) (\<lambda>(value, snapshot).
      bindR (applyMovement (sl_stock l) (- sl_returnQ4 l) value) (\<lambda>after.
        Inr \<lparr>sp_carryingTxnMinor = snd lc, sp_valueOutMinor = - value, sp_unitCostSnapshotC10 = snapshot, sp_stockAfter = after\<rparr>)))"

definition planSupplierReturn :: "(int \<Rightarrow> int result) \<Rightarrow> SupplierReturnPlanInput \<Rightarrow> SupplierReturnPlan result" where
  "planSupplierReturn conv input =
     (if sr_lines input = [] then refuse (InventoryError lines_required)
      else if MAX_DOCUMENT_LINES < length (sr_lines input) then refuse (InventoryError payload_invalid)
      else bindR (mapR (\<lambda>l. carryingTxn (sl_lineTotalTxnMinor l) (sl_purchasedQ4 l) (sl_returnedBeforeQ4 l) (sl_returnQ4 l))
                   (sr_lines input)) (\<lambda>carrying.
        let carryingMinor = foldl (+) 0 carrying
        in bindR (assertMinor carryingMinor 0) (\<lambda>_.
           bindR (apSplit carryingMinor (sr_outstandingTxnMinor input)) (\<lambda>(apTxn, creditTxn).
           bindR (apBaseRelease (sr_totalBaseMinor input) (sr_totalTxnMinor input) (sr_outstandingTxnMinor input) apTxn) (\<lambda>apBase.
           bindR (convertPositive conv apTxn) (\<lambda>apConverted.
           bindR (convertPositive conv creditTxn) (\<lambda>creditBase.
           bindR (mapR returnLinePlan (zip (sr_lines input) carrying)) (\<lambda>lines.
             let inventoryValue = foldl (\<lambda>a l. a + sp_valueOutMinor l) 0 lines
             in bindR (assertMinor inventoryValue 0) (\<lambda>_.
                if carryingMinor = 0 \<and> inventoryValue = 0 then refuse (InventoryError supplier_return_value_zero)
                else bindR (ppv apBase creditBase inventoryValue) (\<lambda>variance.
                  let amounts = \<lparr>ra_apTxnMinor = apTxn, ra_apConvertedMinor = apConverted,
                        ra_apDustBaseMinor = apBase - apConverted, ra_creditTxnMinor = creditTxn,
                        ra_creditBaseMinor = creditBase, ra_inventoryValueMinor = inventoryValue, ra_ppvMinor = variance\<rparr>
                  in bindR (supplierReturnEntryLines amounts) (\<lambda>entry.
                       Inr \<lparr>srp_carryingTxnMinor = carryingMinor, srp_apBaseMinor = apBase, srp_amounts = amounts,
                            srp_creditNote = (0 < creditTxn), srp_lines = lines, srp_entryLines = entry\<rparr>)))))))))))"

subsection \<open>Carrying values\<close>

lemma assertQ4_eq_Inr [result_simps]: "assertQ4 v lo = Inr u \<longleftrightarrow> lo \<le> v \<and> v < QTY_LIMIT_Q4"
  by (auto simp: assertQ4_def)

lemma carryingTxn_eq_Inr [result_simps]:
  "carryingTxn t Q X q = Inr c \<longleftrightarrow> 0 \<le> t \<and> t \<le> VALUE_LIMIT_MINOR \<and> 1 \<le> Q \<and> Q < QTY_LIMIT_Q4 \<and> 0 \<le> X \<and> 1 \<le> q
     \<and> X + q \<le> Q \<and> c = halfEven_rel t Q X q"
  by (auto simp: carryingTxn_def result_simps halfEven_rel_def not_less)

text \<open>The returns of one line, one after another.\<close>

fun returnRun :: "int \<Rightarrow> int \<Rightarrow> int \<Rightarrow> int list \<Rightarrow> int list result" where
  "returnRun t Q X [] = Inr []"
| "returnRun t Q X (q # qs) =
     bindR (carryingTxn t Q X q) (\<lambda>c. bindR (returnRun t Q (X + q) qs) (\<lambda>cs. Inr (c # cs)))"

lemma returnRun_total:
  assumes "returnRun t Q X qs = Inr cs" "0 < Q" "0 \<le> t"
  shows "sum_list cs = halfEven_rel t Q X (sum_list qs)" "list_all (\<lambda>c. 0 \<le> c) cs" "length cs = length qs"
proof -
  have "sum_list cs = halfEven_rel t Q X (sum_list qs) \<and> list_all (\<lambda>c. 0 \<le> c) cs \<and> length cs = length qs"
    using assms(1)
  proof (induction qs arbitrary: X cs)
    case Nil
    then show ?case by (simp add: halfEven_rel_def)
  next
    case (Cons q qs)
    then obtain c cs' where c: "cs = c # cs'" "c = halfEven_rel t Q X q" "1 \<le> q" "returnRun t Q (X + q) qs = Inr cs'"
      by (auto simp: bindR_eq_Inr carryingTxn_eq_Inr)
    have "0 \<le> c" unfolding c(2) using assms(2,3) c(3) by (intro half_even.rel_nonneg) simp_all
    moreover have "halfEven_rel t Q X q + halfEven_rel t Q (X + q) (sum_list qs) = halfEven_rel t Q X (q + sum_list qs)"
      by (rule half_even.rel_add)
    ultimately show ?case using Cons.IH [OF c(4)] c(1,2) by simp
  qed
  then show "sum_list cs = halfEven_rel t Q X (sum_list qs)" "list_all (\<lambda>c. 0 \<le> c) cs" "length cs = length qs" by blast+
qed

lemma returnRun_within:
  "returnRun t Q X qs = Inr cs \<Longrightarrow> X \<le> Q \<Longrightarrow> X + sum_list qs \<le> Q"
  by (induction qs arbitrary: X cs) (fastforce simp: bindR_eq_Inr carryingTxn_eq_Inr)+

subsection \<open>The entry\<close>

lemma apSplit_eq_Inr [result_simps]:
  "apSplit c out = Inr p \<longleftrightarrow> 0 \<le> c \<and> c \<le> VALUE_LIMIT_MINOR \<and> 0 \<le> out \<and> out \<le> VALUE_LIMIT_MINOR \<and> p = (min c out, c - min c out)"
  by (auto simp: apSplit_def result_simps Let_def min_def)

lemma apBaseRelease_eq_Inr [result_simps]:
  "apBaseRelease B T out a = Inr r \<longleftrightarrow> 1 \<le> B \<and> B \<le> VALUE_LIMIT_MINOR \<and> 1 \<le> T \<and> T \<le> VALUE_LIMIT_MINOR
     \<and> 0 \<le> a \<and> a \<le> out \<and> out \<le> T \<and> r = apLeft T B out - apLeft T B (out - a)"
  unfolding apRelease_apLeft [symmetric]
  by (auto simp: apBaseRelease_def result_simps halfEven_rel_def Let_def not_less)

lemma ppv_eq_Inr [result_simps]:
  "ppv a c i = Inr v \<longleftrightarrow> 0 \<le> a \<and> a \<le> VALUE_LIMIT_MINOR \<and> 0 \<le> c \<and> c \<le> VALUE_LIMIT_MINOR \<and> 0 \<le> i \<and> i \<le> VALUE_LIMIT_MINOR
     \<and> v = a + c - i"
  by (auto simp: ppv_def result_simps)

lemma convertPositive_eq_Inr [result_simps]:
  "convertPositive conv x = Inr b \<longleftrightarrow> (if x = 0 then b = 0 else conv x = Inr b \<and> 0 < b \<and> b \<le> VALUE_LIMIT_MINOR)"
  by (auto simp: convertPositive_def result_simps not_less)

abbreviation returnEntryBalance :: "SupplierReturnEntryLine list \<Rightarrow> int" where
  "returnEntryBalance \<equiv> entryBalance re_side re_baseAmountMinor"

definition amounts_ok :: "ReturnAmounts \<Rightarrow> bool" where
  "amounts_ok a \<longleftrightarrow> 0 \<le> ra_apTxnMinor a \<and> 0 \<le> ra_creditTxnMinor a \<and> 0 \<le> ra_inventoryValueMinor a
     \<and> (if ra_apTxnMinor a = 0 then ra_apConvertedMinor a = 0 else 0 < ra_apConvertedMinor a)
     \<and> (if ra_creditTxnMinor a = 0 then ra_creditBaseMinor a = 0 else 0 < ra_creditBaseMinor a)
     \<and> (ra_apTxnMinor a = 0 \<longrightarrow> ra_apDustBaseMinor a = 0)
     \<and> ra_ppvMinor a = ra_apConvertedMinor a + ra_apDustBaseMinor a + ra_creditBaseMinor a - ra_inventoryValueMinor a
     \<and> (ra_apTxnMinor a \<noteq> 0 \<or> ra_creditTxnMinor a \<noteq> 0 \<or> ra_inventoryValueMinor a \<noteq> 0)"

lemma returnBalance_total:
  "list_all (\<lambda>l. 0 < re_baseAmountMinor l) ls \<Longrightarrow> returnBalance b ls = Inr (b + returnEntryBalance ls)"
  by (induction ls arbitrary: b) (simp_all add: not_le add.assoc)

lemma if_singleton:
  "list_all P (if c then [x] else []) \<longleftrightarrow> (c \<longrightarrow> P x)" "list_ex P (if c then [x] else []) \<longleftrightarrow> c \<and> P x"
  "entryBalance side base (if c then [x] else []) = (if c then signed (side x) (base x) else 0)"
  by simp_all

lemma returnLines_positive:
  assumes "amounts_ok a" shows "list_all (\<lambda>l. 0 < re_baseAmountMinor l) (returnLines a)"
proof -
  have "ra_apTxnMinor a \<noteq> 0 \<longrightarrow> 0 < ra_apConvertedMinor a" "ra_creditTxnMinor a \<noteq> 0 \<longrightarrow> 0 < ra_creditBaseMinor a"
    "ra_inventoryValueMinor a \<noteq> 0 \<longrightarrow> 0 < ra_inventoryValueMinor a"
    using assms by (simp_all add: amounts_ok_def)
  then show ?thesis by (simp add: returnLines_def if_singleton del: if_split)
qed

lemma returnLines_sum:
  "returnEntryBalance (returnLines a) = (if ra_apTxnMinor a \<noteq> 0 then ra_apConvertedMinor a else 0) + ra_apDustBaseMinor a
     + (if ra_creditTxnMinor a \<noteq> 0 then ra_creditBaseMinor a else 0) - ra_inventoryValueMinor a - ra_ppvMinor a"
proof -
  have "(if v \<noteq> 0 then signed (if 0 < v then Side_D else Side_C) \<bar>v\<bar> else 0) = v"
    "(if v \<noteq> 0 then signed (if 0 < v then Side_C else Side_D) \<bar>v\<bar> else 0) = - v"
    "(if v \<noteq> 0 then - v else 0) = - v" for v :: int
    by simp_all
  then show ?thesis by (simp add: returnLines_def if_singleton del: if_split cong: if_cong)
qed

lemma returnLines_balance: assumes "amounts_ok a" shows "returnEntryBalance (returnLines a) = 0"
proof -
  have "(if ra_apTxnMinor a \<noteq> 0 then ra_apConvertedMinor a else 0) = ra_apConvertedMinor a"
    "(if ra_creditTxnMinor a \<noteq> 0 then ra_creditBaseMinor a else 0) = ra_creditBaseMinor a"
    "ra_ppvMinor a = ra_apConvertedMinor a + ra_apDustBaseMinor a + ra_creditBaseMinor a - ra_inventoryValueMinor a"
    using assms by (simp_all add: amounts_ok_def)
  then show ?thesis unfolding returnLines_sum by linarith
qed

lemma returnLines_debit: assumes "amounts_ok a" shows "list_ex (\<lambda>l. re_side l = Side_D) (returnLines a)"
proof (cases "ra_apTxnMinor a = 0 \<and> ra_creditTxnMinor a = 0")
  case True
  with assms have "ra_ppvMinor a < 0" by (simp add: amounts_ok_def)
  then show ?thesis by (simp add: returnLines_def if_singleton del: if_split)
qed (auto simp: returnLines_def if_singleton simp del: if_split)

text \<open>The assertions of \<open>supplierReturnEntryLines\<close> hold by construction.\<close>

lemma supplierReturnEntryLines_total: "amounts_ok a \<Longrightarrow> supplierReturnEntryLines a = Inr (returnLines a)"
  using returnLines_positive [of a] returnLines_balance [of a] returnLines_debit [of a]
  by (simp add: supplierReturnEntryLines_def returnBalance_total)

subsection \<open>The plan\<close>

lemma returnLinePlan_eq_Inr:
  "returnLinePlan lc = Inr p \<Longrightarrow> outboundValue (sl_stock (fst lc)) (- sl_returnQ4 (fst lc)) = Inr (- sp_valueOutMinor p, sp_unitCostSnapshotC10 p)
     \<and> applyMovement (sl_stock (fst lc)) (- sl_returnQ4 (fst lc)) (- sp_valueOutMinor p) = Inr (sp_stockAfter p)
     \<and> sp_carryingTxnMinor p = snd lc"
  by (auto simp: returnLinePlan_def Let_def bindR_eq_Inr simp del: applyMovement_eq_Inr outboundValue_eq_Inr)

definition return_ok :: "SupplierReturnPlanInput \<Rightarrow> SupplierReturnPlan \<Rightarrow> bool" where
  "return_ok i p \<longleftrightarrow> (let a = srp_amounts p in
     ra_apTxnMinor a + ra_creditTxnMinor a = srp_carryingTxnMinor p
     \<and> ra_apTxnMinor a = min (srp_carryingTxnMinor p) (sr_outstandingTxnMinor i)
     \<and> srp_carryingTxnMinor p = sum_list (map sp_carryingTxnMinor (srp_lines p))
     \<and> ra_inventoryValueMinor a = sum_list (map sp_valueOutMinor (srp_lines p))
     \<and> srp_apBaseMinor p = apLeft (sr_totalTxnMinor i) (sr_totalBaseMinor i) (sr_outstandingTxnMinor i)
         - apLeft (sr_totalTxnMinor i) (sr_totalBaseMinor i) (sr_outstandingTxnMinor i - ra_apTxnMinor a)
     \<and> ra_apConvertedMinor a + ra_apDustBaseMinor a = srp_apBaseMinor p
     \<and> srp_creditNote p = (0 < ra_creditTxnMinor a)
     \<and> amounts_ok a \<and> srp_entryLines p = returnLines a)"

lemma carrying_zip:
  assumes "mapR returnLinePlan (zip ls cs) = Inr ps" "length ls = length cs"
  shows "map sp_carryingTxnMinor ps = cs"
proof (rule nth_equalityI)
  have len: "length ps = length cs" using mapR_length [OF assms(1)] assms(2) by simp
  then show "length (map sp_carryingTxnMinor ps) = length cs" by simp
  fix k assume "k < length (map sp_carryingTxnMinor ps)"
  then have k: "k < length (zip ls cs)" using len assms(2) by simp
  from mapR_nth [OF assms(1) k] have "sp_carryingTxnMinor (ps ! k) = snd (zip ls cs ! k)"
    by (blast dest: returnLinePlan_eq_Inr)
  then show "map sp_carryingTxnMinor ps ! k = cs ! k" using k len assms(2) by simp
qed

text \<open>Up to its entry the plan is a pipeline of checked amounts, and they meet what the entry needs.\<close>

lemma planSupplierReturn_ok:
  assumes "planSupplierReturn conv i = Inr p"
  shows "return_ok i p"
proof -
  from assms obtain cs apBase apc cb ls where
    cs: "mapR (\<lambda>l. carryingTxn (sl_lineTotalTxnMinor l) (sl_purchasedQ4 l) (sl_returnedBeforeQ4 l) (sl_returnQ4 l)) (sr_lines i) = Inr cs"
    and C: "0 \<le> sum_list cs"
    and ab: "apBaseRelease (sr_totalBaseMinor i) (sr_totalTxnMinor i) (sr_outstandingTxnMinor i) (min (sum_list cs) (sr_outstandingTxnMinor i)) = Inr apBase"
    and apc: "convertPositive conv (min (sum_list cs) (sr_outstandingTxnMinor i)) = Inr apc"
    and cb: "convertPositive conv (sum_list cs - min (sum_list cs) (sr_outstandingTxnMinor i)) = Inr cb"
    and ls: "mapR returnLinePlan (zip (sr_lines i) cs) = Inr ls"
    and iv: "0 \<le> sum_list (map sp_valueOutMinor ls)" "\<not> (sum_list cs = 0 \<and> sum_list (map sp_valueOutMinor ls) = 0)"
    and pv: "0 \<le> apBase"
    and p: "supplierReturnEntryLines (srp_amounts p) = Inr (srp_entryLines p)" "srp_carryingTxnMinor p = sum_list cs"
      "srp_apBaseMinor p = apBase" "srp_lines p = ls"
      "srp_creditNote p = (0 < sum_list cs - min (sum_list cs) (sr_outstandingTxnMinor i))"
      "srp_amounts p = \<lparr>ra_apTxnMinor = min (sum_list cs) (sr_outstandingTxnMinor i), ra_apConvertedMinor = apc,
         ra_apDustBaseMinor = apBase - apc, ra_creditTxnMinor = sum_list cs - min (sum_list cs) (sr_outstandingTxnMinor i),
         ra_creditBaseMinor = cb, ra_inventoryValueMinor = sum_list (map sp_valueOutMinor ls),
         ra_ppvMinor = apBase + cb - sum_list (map sp_valueOutMinor ls)\<rparr>"
    by (auto simp: planSupplierReturn_def bindR_eq_Inr if_refuse_eq_Inr Let_def apSplit_eq_Inr ppv_eq_Inr assertMinor_eq_Inr
        foldl_plus_sum_list foldl_plus_map)
  have len: "length (sr_lines i) = length cs" using mapR_length [OF cs] by simp
  have abv: "apBase = apLeft (sr_totalTxnMinor i) (sr_totalBaseMinor i) (sr_outstandingTxnMinor i)
      - apLeft (sr_totalTxnMinor i) (sr_totalBaseMinor i) (sr_outstandingTxnMinor i - min (sum_list cs) (sr_outstandingTxnMinor i))"
    and out: "0 \<le> sr_outstandingTxnMinor i" using ab by (auto simp: apBaseRelease_eq_Inr)
  have "amounts_ok (srp_amounts p)"
    using p C apc cb iv abv out
    by (auto simp: amounts_ok_def convertPositive_eq_Inr min_def split: if_splits)
  then have "amounts_ok (srp_amounts p)" "srp_entryLines p = returnLines (srp_amounts p)"
    using supplierReturnEntryLines_total [of "srp_amounts p"] p(1) by simp_all
  then show "return_ok i p"
    using carrying_zip [OF ls len] abv by (simp add: return_ok_def Let_def p(2-6))
qed

lemma return_ok_entry:
  "return_ok i p \<Longrightarrow> debits re_side re_baseAmountMinor (srp_entryLines p) = credits re_side re_baseAmountMinor (srp_entryLines p)
     \<and> list_all (\<lambda>l. 0 < re_baseAmountMinor l) (srp_entryLines p)"
  using returnLines_balance [of "srp_amounts p"] returnLines_positive [of "srp_amounts p"]
  by (simp add: return_ok_def Let_def entryBalance_debits_credits)

subsection \<open>Properties\<close>

text \<open>Returning a whole purchase line in any number of returns takes back exactly the line's total: every
  return carries a non-negative value, they never exceed the purchased quantity, and together, once the
  quantity is exhausted, they are the line total to the minor unit.\<close>

theorem line_returns_add_up:
  assumes "returnRun t Q 0 qs = Inr cs" "qs \<noteq> []"
  shows "list_all (\<lambda>c. 0 \<le> c) cs \<and> sum_list qs \<le> Q \<and> sum_list cs = halfEven (t * sum_list qs) Q
     \<and> (sum_list qs = Q \<longrightarrow> sum_list cs = t)"
proof -
  have "0 < Q" "0 \<le> t" using assms by (cases qs; auto simp: bindR_eq_Inr carryingTxn_eq_Inr)+
  with returnRun_total [OF assms(1)] returnRun_within [OF assms(1)] show ?thesis
    by (auto simp: half_even.rel_from_zero half_even.rel_whole)
qed

theorem line_returns_add_up_witness:
  "sum_list [333, 334, 333 :: int] = 1000"
proof -
  have "returnRun 1000 30000 0 [10000, 10000, 10000] = Inr [333, 334, 333]" by code_simp
  from line_returns_add_up [OF this] show ?thesis by simp
qed

text \<open>C10: Every accepted supplier return balances: its payable and credit parts are the carrying value split
  at the outstanding amount, the released base is the cumulative share, the entry's debits equal its
  credits with every line positive.\<close>

theorem supplier_return_balances:
  assumes "planSupplierReturn conv i = Inr p"
  shows "return_ok i p \<and> debits re_side re_baseAmountMinor (srp_entryLines p) = credits re_side re_baseAmountMinor (srp_entryLines p)
     \<and> list_all (\<lambda>l. 0 < re_baseAmountMinor l) (srp_entryLines p)"
  using planSupplierReturn_ok [OF assms] return_ok_entry [of i p] by blast

definition sample_return :: SupplierReturnPlanInput where
  "sample_return = \<lparr>sr_totalTxnMinor = 1000, sr_totalBaseMinor = 3500, sr_outstandingTxnMinor = 100,
     sr_lines = [\<lparr>sl_lineTotalTxnMinor = 1000, sl_purchasedQ4 = 30000, sl_returnedBeforeQ4 = 0, sl_returnQ4 = 10000,
        sl_stock = \<lparr>onHand = 30000, valuation = 3600, avg = Some 12000000000000, lastStockSeq = 4\<rparr>\<rparr>]\<rparr>"

definition sample_convert :: "int \<Rightarrow> int result" where
  "sample_convert x = convertToBase x 35000000000 2 2"

definition sample_return_plan :: SupplierReturnPlan where
  "sample_return_plan = (case planSupplierReturn sample_convert sample_return of Inr p \<Rightarrow> p
     | Inl e \<Rightarrow> \<lparr>srp_carryingTxnMinor = 0, srp_apBaseMinor = 0, srp_amounts = \<lparr>ra_apTxnMinor = 0, ra_apConvertedMinor = 0,
         ra_apDustBaseMinor = 0, ra_creditTxnMinor = 0, ra_creditBaseMinor = 0, ra_inventoryValueMinor = 0, ra_ppvMinor = 0\<rparr>,
         srp_creditNote = False, srp_lines = [], srp_entryLines = []\<rparr>)"

theorem supplier_return_balances_witness:
  "debits re_side re_baseAmountMinor (srp_entryLines sample_return_plan) = credits re_side re_baseAmountMinor (srp_entryLines sample_return_plan)
   \<and> length (srp_entryLines sample_return_plan) = 4"
proof -
  have "planSupplierReturn sample_convert sample_return = Inr sample_return_plan" "length (srp_entryLines sample_return_plan) = 4"
    by code_simp+
  with supplier_return_balances [of sample_convert sample_return sample_return_plan] show ?thesis by blast
qed

end
