(* ===== verification/Customer_Settlement.thy ===== *)
theory Customer_Settlement
  imports Supplier_Settlement
begin

text \<open>
  packages/inventory/src/customer-settlement.ts: collected customer payments, the credit a
  surplus becomes, and the application of a credit to an invoice. All numbers come from the
  four primitives of the supplier side; the errors of those primitives pass through.

  The component promises to be the mirror of the supplier settlement: \<open>mirror_line\<close> states
  that (debits and credits exchanged, gains for losses), and the plans are shown to be its
  image. Gates of entries are interpretations of \<open>entry_gate\<close>.
\<close>

subsection \<open>The code\<close>

definition CUSTOMER_PAYMENT_MAX_ALLOCATIONS :: nat where "CUSTOMER_PAYMENT_MAX_ALLOCATIONS = 50"

datatype ArDomain = customer_payment | customer_credit_application

definition ar_assertMinor :: "int \<Rightarrow> int \<Rightarrow> unit result" where
  "ar_assertMinor v lo =
     (if v < lo \<or> VALUE_LIMIT_MINOR < v then refuse (ReceivableArithmeticError customer_payment_arithmetic_invalid) else Inr ())"

type_synonym ReceivableConversion = SettlementConversion

record InvoiceArState =
  ia_totalTxnMinor :: int
  ia_totalBaseMinor :: int
  ia_outstandingTxnMinor :: int
  ia_conversion :: ReceivableConversion

record CustomerCreditState =
  cc_originalMinor :: int
  cc_originalCarryingMinor :: int
  cc_remainingMinor :: int
  cc_conversion :: ReceivableConversion

record ArSide =
  ar_invoiceAmountAppliedMinor :: int
  ar_arReleasedBeforeMinor :: int
  ar_invoiceCarryingReleasedMinor :: int
  ar_arConvertedMinor :: int
  ar_arDustBaseMinor :: int

definition ar_amount_invalid :: "ArDomain \<Rightarrow> receivable_code" where
  "ar_amount_invalid d = (case d of customer_payment \<Rightarrow> customer_payment_amount_invalid
     | customer_credit_application \<Rightarrow> customer_credit_application_amount_invalid)"

definition ar_exceeds_outstanding :: "ArDomain \<Rightarrow> receivable_code" where
  "ar_exceeds_outstanding d = (case d of customer_payment \<Rightarrow> customer_payment_amount_exceeds_outstanding
     | customer_credit_application \<Rightarrow> customer_credit_application_amount_exceeds_outstanding)"

definition ar_below_base_unit :: "ArDomain \<Rightarrow> receivable_code" where
  "ar_below_base_unit d = (case d of customer_payment \<Rightarrow> customer_payment_amount_below_base_unit
     | customer_credit_application \<Rightarrow> customer_credit_application_amount_below_base_unit)"

definition arSide :: "ArDomain \<Rightarrow> InvoiceArState \<Rightarrow> int \<Rightarrow> ArSide result" where
  "arSide domain invoice appliedMinor =
     bindR (ar_assertMinor (ia_totalTxnMinor invoice) 1) (\<lambda>_.
     bindR (ar_assertMinor (ia_totalBaseMinor invoice) 0) (\<lambda>_.
     bindR (ar_assertMinor (ia_outstandingTxnMinor invoice) 0) (\<lambda>_.
       if ia_totalTxnMinor invoice < ia_outstandingTxnMinor invoice
         then refuse (ReceivableArithmeticError customer_payment_arithmetic_invalid)
       else if appliedMinor \<le> 0 then refuse (ReceivableArithmeticError (ar_amount_invalid domain))
       else if ia_outstandingTxnMinor invoice < appliedMinor
         then refuse (ReceivableArithmeticError (ar_exceeds_outstanding domain))
       else let releasedBefore = ia_totalTxnMinor invoice - ia_outstandingTxnMinor invoice
            in bindR (apRelease (ia_totalBaseMinor invoice) (ia_totalTxnMinor invoice) releasedBefore appliedMinor) (\<lambda>released.
               bindR (convert appliedMinor (ia_conversion invoice)) (\<lambda>converted.
                 if converted = 0 then refuse (ReceivableArithmeticError (ar_below_base_unit domain))
                 else Inr \<lparr>ar_invoiceAmountAppliedMinor = appliedMinor, ar_arReleasedBeforeMinor = releasedBefore,
                           ar_invoiceCarryingReleasedMinor = released, ar_arConvertedMinor = converted,
                           ar_arDustBaseMinor = released - converted\<rparr>)))))"

record ArCreditSide =
  ac_creditAmountConsumedMinor :: int
  ac_creditRemainingBeforeMinor :: int
  ac_creditCarryingReleasedMinor :: int
  ac_creditConvertedMinor :: int
  ac_creditDustBaseMinor :: int
  ac_remainingAfterMinor :: int
  ac_remainingCarryingAfterMinor :: int

definition ar_creditSide :: "CustomerCreditState \<Rightarrow> int \<Rightarrow> ArCreditSide result" where
  "ar_creditSide credit consumedMinor =
     bindR (ar_assertMinor (cc_originalMinor credit) 1) (\<lambda>_.
     bindR (ar_assertMinor (cc_originalCarryingMinor credit) 1) (\<lambda>_.
     bindR (ar_assertMinor (cc_remainingMinor credit) 0) (\<lambda>_.
       if cc_originalMinor credit < cc_remainingMinor credit
         then refuse (ReceivableArithmeticError customer_payment_arithmetic_invalid)
       else if cc_remainingMinor credit = 0 then refuse (ReceivableArithmeticError customer_credit_application_credit_exhausted)
       else if consumedMinor \<le> 0 then refuse (ReceivableArithmeticError customer_credit_application_amount_invalid)
       else if cc_remainingMinor credit < consumedMinor
         then refuse (ReceivableArithmeticError customer_credit_application_amount_exceeds_credit)
       else bindR (creditRelease (cc_originalMinor credit) (cc_originalCarryingMinor credit) (cc_remainingMinor credit) consumedMinor) (\<lambda>released.
            bindR (convert consumedMinor (cc_conversion credit)) (\<lambda>converted.
              if converted = 0 then refuse (ReceivableArithmeticError customer_credit_application_amount_below_base_unit)
              else let remainingAfter = cc_remainingMinor credit - consumedMinor
                   in bindR (creditRemainingCarrying (cc_originalMinor credit) (cc_originalCarryingMinor credit) remainingAfter) (\<lambda>after.
                        Inr \<lparr>ac_creditAmountConsumedMinor = consumedMinor, ac_creditRemainingBeforeMinor = cc_remainingMinor credit,
                             ac_creditCarryingReleasedMinor = released, ac_creditConvertedMinor = converted,
                             ac_creditDustBaseMinor = released - converted, ac_remainingAfterMinor = remainingAfter,
                             ac_remainingCarryingAfterMinor = after\<rparr>))))))"

datatype ReceivableAccount = Rcv_accounts_receivable | Rcv_customer_credit_liability | Rcv_fx_gain | Rcv_fx_loss | Rcv_posting_account

datatype ReceivableCurrency = ACur_invoice | ACur_credit | ACur_payment | ACur_base

record ReceivableEntryLine =
  ve_account :: ReceivableAccount
  ve_side :: Side
  ve_currency :: ReceivableCurrency
  ve_txnAmountMinor :: int
  ve_baseAmountMinor :: int

definition ar_baseLine :: "ReceivableAccount \<Rightarrow> Side \<Rightarrow> int \<Rightarrow> ReceivableEntryLine" where
  "ar_baseLine account side amount =
     \<lparr>ve_account = account, ve_side = side, ve_currency = ACur_base, ve_txnAmountMinor = amount, ve_baseAmountMinor = amount\<rparr>"

fun ar_balancedFrom :: "int \<Rightarrow> ReceivableEntryLine list \<Rightarrow> unit result" where
  "ar_balancedFrom balance [] =
     (if balance \<noteq> 0 then refuse (ReceivableArithmeticError customer_payment_arithmetic_invalid) else Inr ())"
| "ar_balancedFrom balance (l # ls) =
     (if ve_baseAmountMinor l \<le> 0 \<or> ve_txnAmountMinor l \<le> 0
        then refuse (ReceivableArithmeticError customer_payment_arithmetic_invalid)
      else ar_balancedFrom (balance + (if ve_side l = Side_D then ve_baseAmountMinor l else - ve_baseAmountMinor l)) ls)"

definition ar_balanced :: "ReceivableEntryLine list \<Rightarrow> ReceivableEntryLine list result" where
  "ar_balanced lines = bindR (ar_balancedFrom 0 lines) (\<lambda>_. Inr lines)"

definition arLines :: "ArSide \<Rightarrow> ReceivableEntryLine list" where
  "arLines ar =
     \<lparr>ve_account = Rcv_accounts_receivable, ve_side = Side_C, ve_currency = ACur_invoice,
      ve_txnAmountMinor = ar_invoiceAmountAppliedMinor ar, ve_baseAmountMinor = ar_arConvertedMinor ar\<rparr>
     # (if ar_arDustBaseMinor ar \<noteq> 0
        then [ar_baseLine Rcv_accounts_receivable (if 0 < ar_arDustBaseMinor ar then Side_C else Side_D) (absBig (ar_arDustBaseMinor ar))]
        else [])"

definition ar_creditLines :: "ArCreditSide \<Rightarrow> ReceivableEntryLine list" where
  "ar_creditLines cr =
     \<lparr>ve_account = Rcv_customer_credit_liability, ve_side = Side_D, ve_currency = ACur_credit,
      ve_txnAmountMinor = ac_creditAmountConsumedMinor cr, ve_baseAmountMinor = ac_creditConvertedMinor cr\<rparr>
     # (if ac_creditDustBaseMinor cr \<noteq> 0
        then [ar_baseLine Rcv_customer_credit_liability (if 0 < ac_creditDustBaseMinor cr then Side_D else Side_C) (absBig (ac_creditDustBaseMinor cr))]
        else [])"

definition realizedLines :: "int \<Rightarrow> ReceivableEntryLine list" where
  "realizedLines realizedMinor =
     (if realizedMinor = 0 then []
      else [ar_baseLine (if 0 < realizedMinor then Rcv_fx_gain else Rcv_fx_loss)
              (if 0 < realizedMinor then Side_C else Side_D) (absBig realizedMinor)])"

record CustomerPaymentAllocationInput =
  qi_invoice :: InvoiceArState
  qi_sameCurrency :: bool
  qi_paymentAmountMinor :: int
  qi_payment :: ReceivableConversion
  qi_appliedMinor :: int

record CustomerPaymentAllocationPlan =
  qp_ar :: ArSide
  qp_paymentAmountMinor :: int
  qp_paymentBaseMinor :: int
  qp_realizedFxMinor :: int
  qp_entryLines :: "ReceivableEntryLine list"

definition planCustomerPaymentAllocation :: "CustomerPaymentAllocationInput \<Rightarrow> CustomerPaymentAllocationPlan result" where
  "planCustomerPaymentAllocation input =
     (let p = qi_paymentAmountMinor input in
      if p \<le> 0 \<or> VALUE_LIMIT_MINOR < p then refuse (ReceivableArithmeticError customer_payment_allocations_invalid)
      else if qi_sameCurrency input \<and> p \<noteq> qi_appliedMinor input
        then refuse (ReceivableArithmeticError customer_payment_amount_mismatch)
      else bindR (arSide customer_payment (qi_invoice input) (qi_appliedMinor input)) (\<lambda>ar.
           bindR (convert p (qi_payment input)) (\<lambda>paymentBase.
             if paymentBase = 0 then refuse (ReceivableArithmeticError customer_payment_amount_below_base_unit)
             else bindR (strands (ia_outstandingTxnMinor (qi_invoice input) - ar_invoiceAmountAppliedMinor ar)
                          (ia_conversion (qi_invoice input))) (\<lambda>stranded.
               if stranded then refuse (ReceivableArithmeticError customer_payment_residue_below_base_unit)
               else let realized = paymentBase - ar_invoiceCarryingReleasedMinor ar;
                        lines = arLines ar
                          @ [\<lparr>ve_account = Rcv_posting_account, ve_side = Side_D, ve_currency = ACur_payment,
                              ve_txnAmountMinor = p, ve_baseAmountMinor = paymentBase\<rparr>]
                          @ realizedLines realized
                    in bindR (ar_balanced lines) (\<lambda>entry.
                      Inr \<lparr>qp_ar = ar, qp_paymentAmountMinor = p, qp_paymentBaseMinor = paymentBase,
                           qp_realizedFxMinor = realized, qp_entryLines = entry\<rparr>)))))"

record CustomerCreditCreationPlan =
  kp_originalAmountMinor :: int
  kp_originalCarryingBaseMinor :: int
  kp_entryLines :: "ReceivableEntryLine list"

definition planCustomerCreditCreation :: "int \<Rightarrow> ReceivableConversion \<Rightarrow> CustomerCreditCreationPlan result" where
  "planCustomerCreditCreation s payment =
     (if s \<le> 0 \<or> VALUE_LIMIT_MINOR < s then refuse (ReceivableArithmeticError customer_payment_allocations_invalid)
      else bindR (convert s payment) (\<lambda>base.
        if base = 0 then refuse (ReceivableArithmeticError customer_payment_credit_below_base_unit)
        else bindR (creditRemainingCarrying s base s) (\<lambda>g.
          if g \<noteq> base then refuse (ReceivableArithmeticError customer_payment_arithmetic_invalid)
          else bindR (ar_balanced
              [\<lparr>ve_account = Rcv_posting_account, ve_side = Side_D, ve_currency = ACur_payment, ve_txnAmountMinor = s, ve_baseAmountMinor = base\<rparr>,
               \<lparr>ve_account = Rcv_customer_credit_liability, ve_side = Side_C, ve_currency = ACur_payment, ve_txnAmountMinor = s, ve_baseAmountMinor = base\<rparr>]) (\<lambda>entry.
            Inr \<lparr>kp_originalAmountMinor = s, kp_originalCarryingBaseMinor = base, kp_entryLines = entry\<rparr>))))"

record CustomerCreditApplicationInput =
  xi_invoice :: InvoiceArState
  xi_credit :: CustomerCreditState
  xi_sameCurrency :: bool
  xi_consumedMinor :: int
  xi_appliedMinor :: int

record CustomerCreditApplicationPlan =
  xp_ar :: ArSide
  xp_cr :: ArCreditSide
  xp_realizedFxMinor :: int
  xp_entryLines :: "ReceivableEntryLine list"

definition planCustomerCreditApplication :: "CustomerCreditApplicationInput \<Rightarrow> CustomerCreditApplicationPlan result" where
  "planCustomerCreditApplication input =
     bindR (ar_creditSide (xi_credit input) (xi_consumedMinor input)) (\<lambda>cr.
       if xi_sameCurrency input \<and> ac_creditAmountConsumedMinor cr \<noteq> xi_appliedMinor input
         then refuse (ReceivableArithmeticError customer_credit_application_amount_mismatch)
       else bindR (arSide customer_credit_application (xi_invoice input) (xi_appliedMinor input)) (\<lambda>ar.
            bindR (strands (ia_outstandingTxnMinor (xi_invoice input) - ar_invoiceAmountAppliedMinor ar)
                    (ia_conversion (xi_invoice input))) (\<lambda>s1.
              if s1 then refuse (ReceivableArithmeticError customer_credit_application_residue_below_base_unit)
              else bindR (strands (ac_remainingAfterMinor cr) (cc_conversion (xi_credit input))) (\<lambda>s2.
                if s2 then refuse (ReceivableArithmeticError customer_credit_application_residue_below_base_unit)
                else let realized = ac_creditCarryingReleasedMinor cr - ar_invoiceCarryingReleasedMinor ar
                     in bindR (ar_balanced (ar_creditLines cr @ arLines ar @ realizedLines realized)) (\<lambda>entry.
                          Inr \<lparr>xp_ar = ar, xp_cr = cr, xp_realizedFxMinor = realized, xp_entryLines = entry\<rparr>)))))"

fun closureAllocated :: "int \<Rightarrow> int list \<Rightarrow> int result" where
  "closureAllocated allocated [] = Inr allocated"
| "closureAllocated allocated (p # ps) = bindR (ar_assertMinor p 1) (\<lambda>_. closureAllocated (allocated + p) ps)"

definition assertPaymentClosure :: "int \<Rightarrow> int list \<Rightarrow> int \<Rightarrow> unit result" where
  "assertPaymentClosure amountMinor allocationPaymentAmountsMinor creditCreatedMinor =
     bindR (ar_assertMinor amountMinor 1) (\<lambda>_.
     bindR (closureAllocated 0 allocationPaymentAmountsMinor) (\<lambda>allocated.
       if amountMinor < allocated then refuse (ReceivableArithmeticError customer_payment_allocations_invalid)
       else if allocated + creditCreatedMinor \<noteq> amountMinor
         then refuse (ReceivableArithmeticError customer_payment_allocations_invalid)
       else Inr ()))"

definition paymentSurplusMinor :: "int \<Rightarrow> int list \<Rightarrow> int result" where
  "paymentSurplusMinor amountMinor allocationPaymentAmountsMinor =
     (let allocated = foldl (+) 0 allocationPaymentAmountsMinor; surplus = amountMinor - allocated
      in if surplus < 0 then refuse (ReceivableArithmeticError customer_payment_allocations_invalid) else Inr surplus)"

record CustomerPaymentLegInput =
  lg_invoice :: InvoiceArState
  lg_sameCurrency :: bool
  lg_paymentAmountMinor :: int
  lg_appliedMinor :: int

record CustomerPaymentInput =
  cy_amountMinor :: int
  cy_payment :: ReceivableConversion
  cy_legs :: "CustomerPaymentLegInput list"

record CustomerPaymentPlan =
  cy_allocations :: "CustomerPaymentAllocationPlan list"
  cy_credit :: "CustomerCreditCreationPlan option"
  cy_baseAmountMinor :: int
  cy_surplusMinor :: int

definition legAllocation :: "ReceivableConversion \<Rightarrow> CustomerPaymentLegInput \<Rightarrow> CustomerPaymentAllocationInput" where
  "legAllocation payment leg = \<lparr>qi_invoice = lg_invoice leg, qi_sameCurrency = lg_sameCurrency leg,
     qi_paymentAmountMinor = lg_paymentAmountMinor leg, qi_payment = payment, qi_appliedMinor = lg_appliedMinor leg\<rparr>"

definition planCustomerPayment :: "CustomerPaymentInput \<Rightarrow> CustomerPaymentPlan result" where
  "planCustomerPayment input =
     (if CUSTOMER_PAYMENT_MAX_ALLOCATIONS < length (cy_legs input)
        then refuse (ReceivableArithmeticError customer_payment_allocations_invalid)
      else bindR (mapR (\<lambda>leg. planCustomerPaymentAllocation (legAllocation (cy_payment input) leg)) (cy_legs input)) (\<lambda>allocations.
        let paymentAmounts = map qp_paymentAmountMinor allocations
        in bindR (paymentSurplusMinor (cy_amountMinor input) paymentAmounts) (\<lambda>surplus.
           bindR (if 0 < surplus then bindR (planCustomerCreditCreation surplus (cy_payment input)) (\<lambda>c. Inr (Some c))
                  else Inr None) (\<lambda>credit.
           bindR (assertPaymentClosure (cy_amountMinor input) paymentAmounts
                   (case credit of None \<Rightarrow> 0 | Some c \<Rightarrow> kp_originalAmountMinor c)) (\<lambda>_.
             let base = foldl (\<lambda>sum a. sum + qp_paymentBaseMinor a)
                   (case credit of None \<Rightarrow> 0 | Some c \<Rightarrow> kp_originalCarryingBaseMinor c) allocations
             in if base \<le> 0 then refuse (ReceivableArithmeticError customer_payment_arithmetic_invalid)
                else Inr \<lparr>cy_allocations = allocations, cy_credit = credit, cy_baseAmountMinor = base, cy_surplusMinor = surplus\<rparr>)))))"

subsection \<open>The mirror\<close>

text \<open>The supplier document an invoice or a customer credit corresponds to, and the image of a line.\<close>

definition mirror_invoice :: "InvoiceArState \<Rightarrow> PurchaseApState" where
  "mirror_invoice i = \<lparr>pa_totalTxnMinor = ia_totalTxnMinor i, pa_totalBaseMinor = ia_totalBaseMinor i,
     pa_outstandingTxnMinor = ia_outstandingTxnMinor i, pa_conversion = ia_conversion i\<rparr>"

definition mirror_credit :: "CustomerCreditState \<Rightarrow> CreditNoteState" where
  "mirror_credit c = \<lparr>cn_originalMinor = cc_originalMinor c, cn_originalCarryingMinor = cc_originalCarryingMinor c,
     cn_remainingMinor = cc_remainingMinor c, cn_conversion = cc_conversion c\<rparr>"

definition mirror_ap :: "ApSide \<Rightarrow> ArSide" where
  "mirror_ap a = \<lparr>ar_invoiceAmountAppliedMinor = ap_appliedMinor a, ar_arReleasedBeforeMinor = ap_releasedBeforeMinor a,
     ar_invoiceCarryingReleasedMinor = ap_carryingReleasedMinor a, ar_arConvertedMinor = ap_apConvertedMinor a,
     ar_arDustBaseMinor = ap_apDustBaseMinor a\<rparr>"

definition mirror_cr :: "CreditSide \<Rightarrow> ArCreditSide" where
  "mirror_cr c = \<lparr>ac_creditAmountConsumedMinor = cs_consumedMinor c, ac_creditRemainingBeforeMinor = cs_remainingBeforeMinor c,
     ac_creditCarryingReleasedMinor = cs_creditReleasedMinor c, ac_creditConvertedMinor = cs_creditConvertedMinor c,
     ac_creditDustBaseMinor = cs_creditDustBaseMinor c, ac_remainingAfterMinor = cs_remainingAfterMinor c,
     ac_remainingCarryingAfterMinor = cs_remainingCarryingAfterMinor c\<rparr>"

fun flip :: "Side \<Rightarrow> Side" where
  "flip Side_D = Side_C"
| "flip Side_C = Side_D"

fun mirror_account :: "SettlementAccount \<Rightarrow> ReceivableAccount" where
  "mirror_account Acc_accounts_payable = Rcv_accounts_receivable"
| "mirror_account Acc_supplier_receivable = Rcv_customer_credit_liability"
| "mirror_account Acc_fx_gain = Rcv_fx_loss"
| "mirror_account Acc_fx_loss = Rcv_fx_gain"
| "mirror_account Acc_posting_account = Rcv_posting_account"

fun mirror_currency :: "LineCurrency \<Rightarrow> ReceivableCurrency" where
  "mirror_currency Cur_purchase = ACur_invoice"
| "mirror_currency Cur_note = ACur_credit"
| "mirror_currency Cur_payment = ACur_payment"
| "mirror_currency Cur_receipt = ACur_payment"
| "mirror_currency Cur_base = ACur_base"

definition mirror_line :: "SettlementEntryLine \<Rightarrow> ReceivableEntryLine" where
  "mirror_line l = \<lparr>ve_account = mirror_account (se_account l), ve_side = flip (se_side l),
     ve_currency = mirror_currency (se_currency l), ve_txnAmountMinor = se_txnAmountMinor l, ve_baseAmountMinor = se_baseAmountMinor l\<rparr>"

lemma signed_flip [simp]: "signed (flip s) v = - signed s v"
  by (cases s) simp_all

lemma flip_flip [simp]: "flip (flip s) = s"
  by (cases s) simp_all

abbreviation receivableBalance :: "ReceivableEntryLine list \<Rightarrow> int" where
  "receivableBalance \<equiv> entryBalance ve_side ve_baseAmountMinor"

definition ar_line_sound :: "ReceivableEntryLine \<Rightarrow> bool" where
  "ar_line_sound l \<longleftrightarrow> 0 < ve_baseAmountMinor l \<and> 0 < ve_txnAmountMinor l"

lemma mirror_balance: "receivableBalance (map mirror_line ls) = - settlementBalance ls"
  by (induction ls) (simp_all add: mirror_line_def)

lemma mirror_sound: "list_all ar_line_sound (map mirror_line ls) = list_all line_sound ls"
  by (simp add: list_all_iff ar_line_sound_def line_sound_def mirror_line_def)

lemma mirror_arLines: "arLines (mirror_ap ap) = map mirror_line (apLines ap)"
  by (simp add: arLines_def apLines_def mirror_ap_def mirror_line_def ar_baseLine_def baseLine_def)

lemma mirror_creditLines: "ar_creditLines (mirror_cr cr) = map mirror_line (creditLines cr)"
  by (simp add: ar_creditLines_def creditLines_def mirror_cr_def mirror_line_def ar_baseLine_def baseLine_def)

lemma mirror_realizedLines: "realizedLines v = map mirror_line (lossLine v d)"
  by (simp add: realizedLines_def fxLine_def mirror_line_def ar_baseLine_def baseLine_def)

lemma ar_balancedFrom_eq_Inr: "ar_balancedFrom b ls = Inr u \<longleftrightarrow> list_all ar_line_sound ls \<and> b + receivableBalance ls = 0"
proof (induction ls arbitrary: b)
  case (Cons l ls)
  have "ve_baseAmountMinor l \<le> 0 \<or> ve_txnAmountMinor l \<le> 0 \<longleftrightarrow> \<not> ar_line_sound l" by (auto simp: ar_line_sound_def)
  with Cons show ?case by (simp add: add.assoc)
qed simp

lemma ar_balanced_eq_Inr: "ar_balanced ls = Inr ms \<longleftrightarrow> ms = ls \<and> list_all ar_line_sound ls \<and> receivableBalance ls = 0"
proof -
  have "ar_balanced ls = Inr ms \<longleftrightarrow> ar_balancedFrom 0 ls = Inr () \<and> ms = ls"
    by (cases "ar_balancedFrom 0 ls") (auto simp: ar_balanced_def)
  then show ?thesis unfolding ar_balancedFrom_eq_Inr by auto
qed

interpretation receivable_entry: entry_gate ve_side ve_baseAmountMinor ar_line_sound ar_balanced
  by unfold_locales (rule ar_balanced_eq_Inr)

lemma mirror_balanced: "balanced ls = Inr ls \<Longrightarrow> ar_balanced (map mirror_line ls) = Inr (map mirror_line ls)"
  by (simp add: balanced_eq_Inr ar_balanced_eq_Inr mirror_balance mirror_sound)

lemma ar_assertMinor_eq_Inr [result_simps]: "ar_assertMinor v lo = Inr u \<longleftrightarrow> lo \<le> v \<and> v \<le> VALUE_LIMIT_MINOR"
  by (auto simp: ar_assertMinor_def)

lemma arSide_eq_Inr [result_simps]:
  "arSide d i a = Inr ar \<longleftrightarrow> (\<exists>ap. apSide_ok (mirror_invoice i) a ap \<and> ar = mirror_ap ap)"
  by (auto simp: arSide_def result_simps Let_def not_le not_less apSide_ok_def nonzero_converted mirror_invoice_def mirror_ap_def)

lemma ar_creditSide_eq_Inr [result_simps]:
  "ar_creditSide n c = Inr cr \<longleftrightarrow> (\<exists>x. creditSide_ok (mirror_credit n) c x \<and> cr = mirror_cr x)"
  by (auto simp: ar_creditSide_def result_simps Let_def not_le not_less creditSide_ok_def nonzero_converted mirror_credit_def mirror_cr_def)

definition mirror_payment_input :: "CustomerPaymentAllocationInput \<Rightarrow> PaymentAllocationInput" where
  "mirror_payment_input i = \<lparr>pi_purchase = mirror_invoice (qi_invoice i), pi_sameCurrency = qi_sameCurrency i,
     pi_paymentAmountMinor = qi_paymentAmountMinor i, pi_payment = qi_payment i, pi_appliedMinor = qi_appliedMinor i\<rparr>"

definition mirror_payment_plan :: "PaymentAllocationPlan \<Rightarrow> CustomerPaymentAllocationPlan" where
  "mirror_payment_plan p = \<lparr>qp_ar = mirror_ap (pp_ap p), qp_paymentAmountMinor = pp_paymentAmountMinor p,
     qp_paymentBaseMinor = pp_paymentBaseMinor p, qp_realizedFxMinor = pp_realizedMinor p,
     qp_entryLines = map mirror_line (pp_entryLines p)\<rparr>"

lemma mirror_fields [simp]:
  "ar_invoiceAmountAppliedMinor (mirror_ap ap) = ap_appliedMinor ap"
  "ar_invoiceCarryingReleasedMinor (mirror_ap ap) = ap_carryingReleasedMinor ap"
  "ac_creditAmountConsumedMinor (mirror_cr cr) = cs_consumedMinor cr"
  "ac_remainingAfterMinor (mirror_cr cr) = cs_remainingAfterMinor cr"
  "ac_creditCarryingReleasedMinor (mirror_cr cr) = cs_creditReleasedMinor cr"
  "pa_outstandingTxnMinor (mirror_invoice i) = ia_outstandingTxnMinor i" "pa_conversion (mirror_invoice i) = ia_conversion i"
  "cn_remainingMinor (mirror_credit c) = cc_remainingMinor c" "cn_conversion (mirror_credit c) = cc_conversion c"
  by (simp_all add: mirror_ap_def mirror_cr_def mirror_invoice_def mirror_credit_def)

lemma mirror_paymentEntry:
  "arLines (mirror_ap ap)
     @ [\<lparr>ve_account = Rcv_posting_account, ve_side = Side_D, ve_currency = ACur_payment, ve_txnAmountMinor = p, ve_baseAmountMinor = pb\<rparr>]
     @ realizedLines (pb - ap_carryingReleasedMinor ap) = map mirror_line (paymentEntry p pb ap)"
  by (simp add: paymentEntry_def mirror_arLines mirror_realizedLines [of _ Dim_purchase] mirror_line_def)

lemma gate_mirror: "balanced ls = Inr ls \<Longrightarrow> ar_balanced (map mirror_line ls) = Inr m \<longleftrightarrow> m = map mirror_line ls"
  using mirror_balanced [of ls] by auto

text \<open>A collected payment allocated to an invoice is the mirror of a supplier payment.\<close>

lemma planCustomerPaymentAllocation_mirror:
  "planCustomerPaymentAllocation i = Inr q \<longleftrightarrow>
     (\<exists>p. planPaymentAllocation (mirror_payment_input i) = Inr p \<and> q = mirror_payment_plan p)" (is "?l \<longleftrightarrow> ?r")
proof
  assume ?l
  then obtain ap pb en where g: "0 < qi_paymentAmountMinor i" "qi_paymentAmountMinor i \<le> VALUE_LIMIT_MINOR"
    "qi_sameCurrency i \<longrightarrow> qi_paymentAmountMinor i = qi_appliedMinor i"
    "apSide_ok (mirror_invoice (qi_invoice i)) (qi_appliedMinor i) ap" "convert (qi_paymentAmountMinor i) (qi_payment i) = Inr pb" "pb \<noteq> 0"
    "strands (ia_outstandingTxnMinor (qi_invoice i) - ap_appliedMinor ap) (ia_conversion (qi_invoice i)) = Inr False"
    and b: "ar_balanced (map mirror_line (paymentEntry (qi_paymentAmountMinor i) pb ap)) = Inr en"
    and q: "q = \<lparr>qp_ar = mirror_ap ap, qp_paymentAmountMinor = qi_paymentAmountMinor i, qp_paymentBaseMinor = pb,
         qp_realizedFxMinor = pb - ap_carryingReleasedMinor ap, qp_entryLines = en\<rparr>"
    by (auto simp: planCustomerPaymentAllocation_def Let_def bindR_eq_Inr if_refuse_eq_Inr arSide_eq_Inr not_le not_less
        mirror_paymentEntry [simplified])
  have pb: "0 < pb" "pb = converted (qi_paymentAmountMinor i) (qi_payment i)" "conversion_ok (qi_payment i)"
    using g(1,5,6) nonzero_converted by (auto simp: convert_eq_Inr)
  note l = apSide_left [OF g(4)]
  have "en = map mirror_line (paymentEntry (qi_paymentAmountMinor i) pb ap)"
    using b paymentEntry_passes [OF g(4,1) pb(1)] by (simp add: gate_mirror)
  then show ?r
    using g pb l strands_False [OF l(1-3)]
    by (intro exI [of _ "\<lparr>pp_ap = ap, pp_paymentAmountMinor = qi_paymentAmountMinor i, pp_paymentBaseMinor = pb,
      pp_realizedMinor = pb - ap_carryingReleasedMinor ap, pp_entryLines = paymentEntry (qi_paymentAmountMinor i) pb ap\<rparr>"])
      (simp add: q mirror_payment_plan_def planPaymentAllocation_eq_Inr mirror_payment_input_def)
next
  assume ?r
  then obtain p where p: "planPaymentAllocation (mirror_payment_input i) = Inr p" "q = mirror_payment_plan p" by blast
  then have a: "apSide_ok (mirror_invoice (qi_invoice i)) (qi_appliedMinor i) (pp_ap p)"
    by (simp add: planPaymentAllocation_eq_Inr mirror_payment_input_def)
  note l = apSide_left [OF a]
  have s: "strands (ia_outstandingTxnMinor (qi_invoice i) - ap_appliedMinor (pp_ap p)) (ia_conversion (qi_invoice i)) = Inr False"
    using p(1) l strands_False [OF l(1-3)] by (simp add: planPaymentAllocation_eq_Inr mirror_payment_input_def)
  have ar: "arSide customer_payment (qi_invoice i) (qi_appliedMinor i) = Inr (mirror_ap (pp_ap p))"
    using a by (auto simp: arSide_eq_Inr)
  have cv: "convert (qi_paymentAmountMinor i) (qi_payment i) = Inr (pp_paymentBaseMinor p)" "0 < pp_paymentBaseMinor p"
    "0 < qi_paymentAmountMinor i"
    using p(1) by (simp_all add: convert_eq_Inr planPaymentAllocation_eq_Inr mirror_payment_input_def)
  have "ar_balanced (arLines (mirror_ap (pp_ap p)) @ [\<lparr>ve_account = Rcv_posting_account, ve_side = Side_D, ve_currency = ACur_payment,
      ve_txnAmountMinor = qi_paymentAmountMinor i, ve_baseAmountMinor = pp_paymentBaseMinor p\<rparr>]
     @ realizedLines (pp_paymentBaseMinor p - ap_carryingReleasedMinor (pp_ap p)))
     = Inr (map mirror_line (paymentEntry (qi_paymentAmountMinor i) (pp_paymentBaseMinor p) (pp_ap p)))"
    unfolding mirror_paymentEntry by (rule mirror_balanced [OF paymentEntry_passes [OF a cv(3,2)]])
  then show ?l
    using p ar cv s
    by (simp add: planCustomerPaymentAllocation_def Let_def mirror_payment_plan_def)
      (simp add: planPaymentAllocation_eq_Inr mirror_payment_input_def)
qed

definition mirror_credit_input :: "CustomerCreditApplicationInput \<Rightarrow> CreditAllocationInput" where
  "mirror_credit_input i = \<lparr>ci_purchase = mirror_invoice (xi_invoice i), ci_note = mirror_credit (xi_credit i),
     ci_sameCurrency = xi_sameCurrency i, ci_consumedMinor = xi_consumedMinor i, ci_appliedMinor = xi_appliedMinor i\<rparr>"

text \<open>
  The application of a customer credit releases what the supplier credit allocation releases;
  its entry has the same lines with the two sides' lines in the other order.
\<close>

lemma planCustomerCreditApplication_mirror:
  assumes "planCustomerCreditApplication i = Inr q"
  obtains p where "planCreditAllocation (mirror_credit_input i) = Inr p" "xp_ar q = mirror_ap (ca_ap p)" "xp_cr q = mirror_cr (ca_cr p)"
    "xp_realizedFxMinor q = ca_realizedMinor p" "mset (xp_entryLines q) = mset (map mirror_line (ca_entryLines p))"
    "receivableBalance (xp_entryLines q) = 0" "list_all ar_line_sound (xp_entryLines q)"
proof -
  from assms obtain ap cr where g: "creditSide_ok (mirror_credit (xi_credit i)) (xi_consumedMinor i) cr"
    "apSide_ok (mirror_invoice (xi_invoice i)) (xi_appliedMinor i) ap"
    "xi_sameCurrency i \<longrightarrow> cs_consumedMinor cr = xi_appliedMinor i"
    "strands (ia_outstandingTxnMinor (xi_invoice i) - ap_appliedMinor ap) (ia_conversion (xi_invoice i)) = Inr False"
    "strands (cs_remainingAfterMinor cr) (cc_conversion (xi_credit i)) = Inr False"
    and b: "ar_balanced (ar_creditLines (mirror_cr cr) @ arLines (mirror_ap ap)
      @ realizedLines (cs_creditReleasedMinor cr - ap_carryingReleasedMinor ap)) = Inr (xp_entryLines q)"
    and q: "xp_ar q = mirror_ap ap" "xp_cr q = mirror_cr cr" "xp_realizedFxMinor q = cs_creditReleasedMinor cr - ap_carryingReleasedMinor ap"
    by (auto simp: planCustomerCreditApplication_def Let_def bindR_eq_Inr if_refuse_eq_Inr arSide_eq_Inr ar_creditSide_eq_Inr)
  note l = apSide_left [OF g(2)] and m = creditSide_left [OF g(1)]
  define p where "p = \<lparr>ca_ap = ap, ca_cr = cr, ca_realizedMinor = cs_creditReleasedMinor cr - ap_carryingReleasedMinor ap,
    ca_entryLines = creditAllocationEntry ap cr\<rparr>"
  have "planCreditAllocation (mirror_credit_input i) = Inr p"
    using g l m strands_False [OF l(1-3)] strands_False [OF m(1-3)]
    by (simp add: planCreditAllocation_eq_Inr p_def mirror_credit_input_def)
  moreover have e: "xp_entryLines q = ar_creditLines (mirror_cr cr) @ arLines (mirror_ap ap)
      @ realizedLines (cs_creditReleasedMinor cr - ap_carryingReleasedMinor ap)"
    "receivableBalance (xp_entryLines q) = 0" "list_all ar_line_sound (xp_entryLines q)"
    using b by (auto simp: ar_balanced_eq_Inr)
  moreover have "mset (xp_entryLines q) = mset (map mirror_line (ca_entryLines p))"
    unfolding e(1) by (simp add: p_def creditAllocationEntry_def mirror_arLines mirror_creditLines mirror_realizedLines [of _ Dim_purchase])
  ultimately show ?thesis using that [of p] q by (simp add: p_def)
qed

lemma planCustomerCreditApplication_defined:
  assumes "planCreditAllocation (mirror_credit_input i) = Inr p"
  shows "\<exists>q. planCustomerCreditApplication i = Inr q"
proof -
  from assms have a: "creditSide_ok (mirror_credit (xi_credit i)) (xi_consumedMinor i) (ca_cr p)"
    "apSide_ok (mirror_invoice (xi_invoice i)) (xi_appliedMinor i) (ca_ap p)"
    and same: "xi_sameCurrency i \<longrightarrow> xi_consumedMinor i = xi_appliedMinor i"
    and nr: "no_residue (ia_outstandingTxnMinor (xi_invoice i) - xi_appliedMinor i) (ia_conversion (xi_invoice i))"
      "no_residue (cc_remainingMinor (xi_credit i) - xi_consumedMinor i) (cc_conversion (xi_credit i))"
    by (simp_all add: planCreditAllocation_eq_Inr mirror_credit_input_def)
  note l = apSide_left [OF a(2)] and m = creditSide_left [OF a(1)]
  have s: "strands (ia_outstandingTxnMinor (xi_invoice i) - ap_appliedMinor (ca_ap p)) (ia_conversion (xi_invoice i)) = Inr False"
    "strands (cs_remainingAfterMinor (ca_cr p)) (cc_conversion (xi_credit i)) = Inr False"
    using nr l m strands_False [OF l(1-3)] strands_False [OF m(1-3)] by simp_all
  let ?es = "ar_creditLines (mirror_cr (ca_cr p)) @ arLines (mirror_ap (ca_ap p))
    @ realizedLines (cs_creditReleasedMinor (ca_cr p) - ap_carryingReleasedMinor (ca_ap p))"
  have "ar_balanced ?es = Inr ?es"
    using creditAllocationEntry_passes [OF a(2,1)]
    by (auto simp: ar_balanced_eq_Inr balanced_eq_Inr creditAllocationEntry_def mirror_arLines mirror_creditLines
        mirror_realizedLines [of _ Dim_purchase] mirror_balance mirror_sound simp del: map_append)
  moreover have "arSide customer_credit_application (xi_invoice i) (xi_appliedMinor i) = Inr (mirror_ap (ca_ap p))"
    "ar_creditSide (xi_credit i) (xi_consumedMinor i) = Inr (mirror_cr (ca_cr p))"
    using a by (auto simp: arSide_eq_Inr ar_creditSide_eq_Inr)
  ultimately show ?thesis using s same m by (simp add: planCustomerCreditApplication_def Let_def)
qed

subsection \<open>The whole payment\<close>

lemma planCustomerCreditCreation_eq_Inr:
  "planCustomerCreditCreation s c = Inr k \<longleftrightarrow> 0 < s \<and> s \<le> VALUE_LIMIT_MINOR \<and> conversion_ok c \<and> 0 < converted s c
     \<and> converted s c \<le> VALUE_LIMIT_MINOR
     \<and> k = \<lparr>kp_originalAmountMinor = s, kp_originalCarryingBaseMinor = converted s c, kp_entryLines =
         [\<lparr>ve_account = Rcv_posting_account, ve_side = Side_D, ve_currency = ACur_payment, ve_txnAmountMinor = s, ve_baseAmountMinor = converted s c\<rparr>,
          \<lparr>ve_account = Rcv_customer_credit_liability, ve_side = Side_C, ve_currency = ACur_payment, ve_txnAmountMinor = s, ve_baseAmountMinor = converted s c\<rparr>]\<rparr>"
proof -
  have "carried s (converted s c) s = converted s c" if "0 < s" "1 \<le> converted s c"
    using that by (intro credit_note.level_full) simp_all
  then show ?thesis
    using nonzero_converted [of c s]
    by (auto simp: planCustomerCreditCreation_def result_simps ar_balanced_eq_Inr ar_line_sound_def not_le not_less)
qed

lemma closureAllocated_eq_Inr:
  "closureAllocated a ps = Inr t \<longleftrightarrow> list_all (\<lambda>p. 1 \<le> p \<and> p \<le> VALUE_LIMIT_MINOR) ps \<and> t = a + sum_list ps"
  by (induction ps arbitrary: a) (simp_all add: bindR_eq_Inr ar_assertMinor_eq_Inr add.assoc eq_commute [of _ t])

lemma assertPaymentClosure_eq_Inr [result_simps]:
  "assertPaymentClosure m ps c = Inr u \<longleftrightarrow> 1 \<le> m \<and> m \<le> VALUE_LIMIT_MINOR \<and> list_all (\<lambda>p. 1 \<le> p \<and> p \<le> VALUE_LIMIT_MINOR) ps
     \<and> sum_list ps \<le> m \<and> sum_list ps + c = m"
  by (auto simp: assertPaymentClosure_def result_simps closureAllocated_eq_Inr not_less)

definition creditAmount :: "CustomerCreditCreationPlan option \<Rightarrow> int" where
  "creditAmount c = (case c of None \<Rightarrow> 0 | Some k \<Rightarrow> kp_originalAmountMinor k)"

definition creditBase :: "CustomerCreditCreationPlan option \<Rightarrow> int" where
  "creditBase c = (case c of None \<Rightarrow> 0 | Some k \<Rightarrow> kp_originalCarryingBaseMinor k)"

definition payment_closed :: "CustomerPaymentInput \<Rightarrow> CustomerPaymentPlan \<Rightarrow> bool" where
  "payment_closed i p \<longleftrightarrow>
     sum_list (map qp_paymentAmountMinor (cy_allocations p)) + creditAmount (cy_credit p) = cy_amountMinor i
     \<and> sum_list (map qp_paymentBaseMinor (cy_allocations p)) + creditBase (cy_credit p) = cy_baseAmountMinor p
     \<and> (cy_credit p = None \<longleftrightarrow> cy_surplusMinor p = 0) \<and> 0 \<le> cy_surplusMinor p \<and> 0 < cy_baseAmountMinor p
     \<and> (\<forall>k. cy_credit p = Some k \<longrightarrow> kp_originalAmountMinor k = cy_surplusMinor p
          \<and> carried (kp_originalAmountMinor k) (kp_originalCarryingBaseMinor k) (kp_originalAmountMinor k) = kp_originalCarryingBaseMinor k)
     \<and> length (cy_allocations p) = length (cy_legs i)"

lemma planCustomerPayment_closed:
  assumes "planCustomerPayment i = Inr p"
  shows "payment_closed i p"
proof -
  from assms obtain as s c where as: "mapR (\<lambda>leg. planCustomerPaymentAllocation (legAllocation (cy_payment i) leg)) (cy_legs i) = Inr as"
    and s: "s = cy_amountMinor i - sum_list (map qp_paymentAmountMinor as)" "0 \<le> s"
    and c: "(if 0 < s then bindR (planCustomerCreditCreation s (cy_payment i)) (\<lambda>c. Inr (Some c)) else Inr None) = Inr c"
    and cl: "assertPaymentClosure (cy_amountMinor i) (map qp_paymentAmountMinor as) (creditAmount c) = Inr ()"
    and b: "0 < creditBase c + sum_list (map qp_paymentBaseMinor as)"
    and p: "p = \<lparr>cy_allocations = as, cy_credit = c, cy_baseAmountMinor = creditBase c + sum_list (map qp_paymentBaseMinor as), cy_surplusMinor = s\<rparr>"
    by (auto simp: planCustomerPayment_def paymentSurplusMinor_def Let_def bindR_eq_Inr if_refuse_eq_Inr foldl_plus_sum_list
        foldl_plus_map not_less not_le creditAmount_def [symmetric] creditBase_def [symmetric])
  have "length as = length (cy_legs i)" using as by (rule mapR_length)
  moreover have "if 0 < s then (\<exists>k. c = Some k \<and> planCustomerCreditCreation s (cy_payment i) = Inr k) else c = None"
    using c by (auto simp: bindR_eq_Inr split: if_splits)
  moreover have "carried s (converted s (cy_payment i)) s = converted s (cy_payment i)" if "0 < s" "1 \<le> converted s (cy_payment i)"
    using that by (intro credit_note.level_full) simp_all
  ultimately show ?thesis
    using s cl b by (auto simp: payment_closed_def p planCustomerCreditCreation_eq_Inr assertPaymentClosure_eq_Inr split: if_splits)
qed

text \<open>The entries of a whole payment: one per allocation and one for the surplus.\<close>

definition paymentLines :: "CustomerPaymentPlan \<Rightarrow> ReceivableEntryLine list" where
  "paymentLines p = concat (map qp_entryLines (cy_allocations p))
     @ (case cy_credit p of None \<Rightarrow> [] | Some k \<Rightarrow> kp_entryLines k)"

definition netDebitR :: "ReceivableAccount \<Rightarrow> ReceivableEntryLine list \<Rightarrow> int" where
  "netDebitR a ls = receivableBalance (filter (\<lambda>l. ve_account l = a) ls)"

lemma netDebitR_simps [simp]:
  "netDebitR a [] = 0"
  "netDebitR a (l # ls) = (if ve_account l = a then signed (ve_side l) (ve_baseAmountMinor l) else 0) + netDebitR a ls"
  "netDebitR a (xs @ ys) = netDebitR a xs + netDebitR a ys"
  by (simp_all add: netDebitR_def)

lemma netDebitR_concat: "netDebitR a (concat lss) = sum_list (map (netDebitR a) lss)"
  by (induction lss) simp_all

lemma mirror_account_eq:
  "mirror_account a = Rcv_posting_account \<longleftrightarrow> a = Acc_posting_account"
  "mirror_account a = Rcv_accounts_receivable \<longleftrightarrow> a = Acc_accounts_payable"
  by (cases a; simp)+

lemma netDebitR_mirror:
  "netDebitR Rcv_posting_account (map mirror_line ls) = - netDebit Acc_posting_account ls"
  "netDebitR Rcv_accounts_receivable (map mirror_line ls) = - netDebit Acc_accounts_payable ls"
  by (induction ls) (simp_all add: mirror_line_def mirror_account_eq)

lemma paymentEntry_posting: "netDebit Acc_posting_account (paymentEntry q qb ap) = - qb"
  by (simp add: paymentEntry_def apLines_def fxLine_def)

lemma allocation_accounts:
  assumes "planCustomerPaymentAllocation i = Inr q"
  shows "netDebitR Rcv_posting_account (qp_entryLines q) = qp_paymentBaseMinor q"
    "netDebitR Rcv_accounts_receivable (qp_entryLines q) = - ar_invoiceCarryingReleasedMinor (qp_ar q)"
    "receivableBalance (qp_entryLines q) = 0"
proof -
  from assms obtain p where p: "planPaymentAllocation (mirror_payment_input i) = Inr p" "q = mirror_payment_plan p"
    by (auto simp: planCustomerPaymentAllocation_mirror)
  then have "apSide_ok (mirror_invoice (qi_invoice i)) (qi_appliedMinor i) (pp_ap p)"
    and "pp_entryLines p = paymentEntry (qi_paymentAmountMinor i) (pp_paymentBaseMinor p) (pp_ap p)"
    by (simp_all add: planPaymentAllocation_eq_Inr mirror_payment_input_def)
  with p(2) show "netDebitR Rcv_posting_account (qp_entryLines q) = qp_paymentBaseMinor q"
    "netDebitR Rcv_accounts_receivable (qp_entryLines q) = - ar_invoiceCarryingReleasedMinor (qp_ar q)"
    "receivableBalance (qp_entryLines q) = 0"
    by (simp_all add: mirror_payment_plan_def netDebitR_mirror paymentEntry_posting paymentEntry_accounts mirror_balance)
qed

text \<open>The money account of a whole payment moves by exactly its base amount.\<close>

lemma planCustomerPayment_posting:
  assumes "planCustomerPayment i = Inr p"
  shows "netDebitR Rcv_posting_account (paymentLines p) = cy_baseAmountMinor p"
proof -
  from assms obtain as s c where as: "mapR (\<lambda>leg. planCustomerPaymentAllocation (legAllocation (cy_payment i) leg)) (cy_legs i) = Inr as"
    and c: "(if 0 < s then bindR (planCustomerCreditCreation s (cy_payment i)) (\<lambda>c. Inr (Some c)) else Inr None) = Inr c"
    and p: "cy_allocations p = as" "cy_credit p = c"
    by (auto simp: planCustomerPayment_def Let_def bindR_eq_Inr if_refuse_eq_Inr)
  have "netDebitR Rcv_posting_account (qp_entryLines a) = qp_paymentBaseMinor a" if "a \<in> set as" for a
    using mapR_set [OF as that] allocation_accounts(1) by blast
  then have "netDebitR Rcv_posting_account (concat (map qp_entryLines as)) = sum_list (map qp_paymentBaseMinor as)"
    by (simp add: netDebitR_concat cong: map_cong)
  moreover have "netDebitR Rcv_posting_account (case c of None \<Rightarrow> [] | Some k \<Rightarrow> kp_entryLines k) = creditBase c"
    using c by (auto simp: creditBase_def bindR_eq_Inr planCustomerCreditCreation_eq_Inr split: if_splits option.splits)
  ultimately show ?thesis
    using planCustomerPayment_closed [OF assms] p by (simp add: paymentLines_def payment_closed_def)
qed

subsection \<open>Properties\<close>

text \<open>C9: Settling a receivable is the exact mirror of settling a payable: a customer payment allocation is
  accepted exactly when the supplier one is on the mirrored invoice, with the same amounts, and its entry
  is the supplier's with debits and credits, and gain and loss, exchanged.\<close>

theorem customer_payment_mirrors_supplier:
  "planCustomerPaymentAllocation i = Inr q \<longleftrightarrow>
     (\<exists>p. planPaymentAllocation (mirror_payment_input i) = Inr p \<and> q = mirror_payment_plan p)"
  by (rule planCustomerPaymentAllocation_mirror)

text \<open>Applying a customer credit to an invoice releases what the supplier credit allocation releases on
  the mirrored documents, posts the mirrored lines, and is accepted in exactly the same cases.\<close>

theorem customer_credit_mirrors_supplier:
  "(planCustomerCreditApplication i = Inr q \<longrightarrow>
     (\<exists>p. planCreditAllocation (mirror_credit_input i) = Inr p \<and> xp_ar q = mirror_ap (ca_ap p) \<and> xp_cr q = mirror_cr (ca_cr p)
        \<and> mset (xp_entryLines q) = mset (map mirror_line (ca_entryLines p)) \<and> receivableBalance (xp_entryLines q) = 0))
   \<and> (planCreditAllocation (mirror_credit_input i) = Inr p \<longrightarrow> (\<exists>q. planCustomerCreditApplication i = Inr q))"
  using planCustomerCreditApplication_defined by (blast elim: planCustomerCreditApplication_mirror)

definition shekel :: SettlementConversion where
  "shekel = \<lparr>rateR10 = R10, txnExponent = 2, baseExponent = 2\<rparr>"

definition sample_invoice :: InvoiceArState where
  "sample_invoice = \<lparr>ia_totalTxnMinor = 1000, ia_totalBaseMinor = 3500, ia_outstandingTxnMinor = 1000,
     ia_conversion = shekel\<lparr>rateR10 := 35000000000\<rparr>\<rparr>"

definition sample_application :: CustomerCreditApplicationInput where
  "sample_application = \<lparr>xi_invoice = sample_invoice, xi_credit = \<lparr>cc_originalMinor = 900, cc_originalCarryingMinor = 900,
     cc_remainingMinor = 500, cc_conversion = shekel\<rparr>, xi_sameCurrency = False, xi_consumedMinor = 500, xi_appliedMinor = 140\<rparr>"

definition sample_application_plan :: CustomerCreditApplicationPlan where
  "sample_application_plan = (case planCustomerCreditApplication sample_application of Inr q \<Rightarrow> q
     | Inl e \<Rightarrow> \<lparr>xp_ar = \<lparr>ar_invoiceAmountAppliedMinor = 0, ar_arReleasedBeforeMinor = 0, ar_invoiceCarryingReleasedMinor = 0,
         ar_arConvertedMinor = 0, ar_arDustBaseMinor = 0\<rparr>, xp_cr = \<lparr>ac_creditAmountConsumedMinor = 0, ac_creditRemainingBeforeMinor = 0,
         ac_creditCarryingReleasedMinor = 0, ac_creditConvertedMinor = 0, ac_creditDustBaseMinor = 0, ac_remainingAfterMinor = 0,
         ac_remainingCarryingAfterMinor = 0\<rparr>, xp_realizedFxMinor = 0, xp_entryLines = []\<rparr>)"

theorem customer_credit_mirrors_supplier_witness: "receivableBalance (xp_entryLines sample_application_plan) = 0"
proof -
  have "planCustomerCreditApplication sample_application = Inr sample_application_plan" by code_simp
  with customer_credit_mirrors_supplier [of sample_application sample_application_plan] show ?thesis by blast
qed

text \<open>A collected payment is closed in both currencies: the allocations and the credit add up to the
  payment's amount, their bases to its base amount, a credit exists exactly when there is a surplus and is
  born carrying its whole base, and the money account is debited by exactly the base amount.\<close>

theorem customer_payment_closed:
  assumes "planCustomerPayment i = Inr p"
  shows "payment_closed i p \<and> netDebitR Rcv_posting_account (paymentLines p) = cy_baseAmountMinor p"
  using planCustomerPayment_closed [OF assms] planCustomerPayment_posting [OF assms] by simp

definition sample_collected :: CustomerPaymentInput where
  "sample_collected = \<lparr>cy_amountMinor = 4000, cy_payment = shekel, cy_legs =
     [\<lparr>lg_invoice = sample_invoice, lg_sameCurrency = False, lg_paymentAmountMinor = 3600, lg_appliedMinor = 1000\<rparr>]\<rparr>"

definition sample_collected_plan :: CustomerPaymentPlan where
  "sample_collected_plan = (case planCustomerPayment sample_collected of Inr p \<Rightarrow> p
     | Inl e \<Rightarrow> \<lparr>cy_allocations = [], cy_credit = None, cy_baseAmountMinor = 0, cy_surplusMinor = 0\<rparr>)"

theorem customer_payment_closed_witness:
  "netDebitR Rcv_posting_account (paymentLines sample_collected_plan) = 4000"
proof -
  have "planCustomerPayment sample_collected = Inr sample_collected_plan" "cy_baseAmountMinor sample_collected_plan = 4000"
    by code_simp+
  with customer_payment_closed [of sample_collected sample_collected_plan] show ?thesis by simp
qed

end
