(* ===== verification/Calendar.thy ===== *)
theory Calendar
  imports Ascii_Text
begin

text \<open>
  Civil dates and instants, as the accounting package uses the language's \<open>Date\<close>: the
  proleptic Gregorian calendar, an instant as its milliseconds since 1970 (\<open>None\<close> is an
  invalid date), the text of \<open>toISOString\<close> and the midnight of a civil date.
\<close>

definition leap_year :: "int \<Rightarrow> bool" where
  "leap_year y \<longleftrightarrow> y mod 4 = 0 \<and> (y mod 100 \<noteq> 0 \<or> y mod 400 = 0)"

definition days_in_month :: "int \<Rightarrow> int \<Rightarrow> int" where
  "days_in_month y m = (if m = 2 then (if leap_year y then 29 else 28)
     else if m = 4 \<or> m = 6 \<or> m = 9 \<or> m = 11 then 30 else 31)"

type_synonym civil = "int \<times> int \<times> int"

fun civil_ok :: "civil \<Rightarrow> bool" where
  "civil_ok (y, m, d) \<longleftrightarrow> 1 \<le> m \<and> m \<le> 12 \<and> 1 \<le> d \<and> d \<le> days_in_month y m"

text \<open>\<open>/^\d{4}-\d{2}-\d{2}$/\<close>, as the three numbers.\<close>

definition date_parts :: "string \<Rightarrow> civil option" where
  "date_parts v = (if length v = 10 \<and> list_all is_digit (take 4 v) \<and> v ! 4 = CHR ''-''
       \<and> list_all is_digit (take 2 (drop 5 v)) \<and> v ! 7 = CHR ''-'' \<and> list_all is_digit (drop 8 v)
     then Some (digits_int (take 4 v), digits_int (take 2 (drop 5 v)), digits_int (drop 8 v)) else None)"

lemma date_parts_split:
  assumes "date_parts v = Some p" shows "v = take 4 v @ CHR ''-'' # take 2 (drop 5 v) @ CHR ''-'' # drop 8 v"
proof -
  from assms have "length v = 10" "v ! 4 = CHR ''-''" "v ! 7 = CHR ''-''" by (auto simp: date_parts_def split: if_splits)
  then show ?thesis by (auto simp: length_Suc_conv eval_nat_numeral)
qed

definition is_calendar_date :: "string \<Rightarrow> bool" where
  "is_calendar_date v = (case date_parts v of None \<Rightarrow> False | Some c \<Rightarrow> civil_ok c)"

subsection \<open>Days and civil dates\<close>

text \<open>
  Days since 1970-01-01, counted in years that start on the first of March, so that the
  leap day is the last day of its year.
\<close>

fun days_of_civil :: "civil \<Rightarrow> int" where
  "days_of_civil (y, m, d) =
     (let y' = (if m \<le> 2 then y - 1 else y); m' = (m + 9) mod 12
      in 365 * y' + y' div 4 - y' div 100 + y' div 400 + (153 * m' + 2) div 5 + (d - 1) - 719468)"

definition civil_of_days :: "int \<Rightarrow> civil" where
  "civil_of_days n =
     (let z = n + 719468;
          era = z div 146097;
          doe = z mod 146097;
          yoe = (doe - doe div 1460 + doe div 36524 - doe div 146096) div 365;
          doy = doe - (365 * yoe + yoe div 4 - yoe div 100);
          mp = (5 * doy + 2) div 153;
          d = doy - (153 * mp + 2) div 5 + 1;
          m = (if mp < 10 then mp + 3 else mp - 9)
      in (yoe + era * 400 + (if m \<le> 2 then 1 else 0), m, d))"

definition MS_PER_DAY :: int where "MS_PER_DAY = 86400000"

type_synonym instant = "int option"

text \<open>A year of four digits, or a sign and six digits outside them.\<close>

definition iso_year :: "int \<Rightarrow> string" where
  "iso_year y = (if 0 \<le> y \<and> y \<le> 9999 then padStart 4 (nat_string (nat y))
     else (if y < 0 then CHR ''-'' else CHR ''+'') # padStart 6 (nat_string (nat \<bar>y\<bar>)))"

definition two_digits :: "int \<Rightarrow> string" where
  "two_digits n = padStart 2 (nat_string (nat n))"

definition date_text :: "civil \<Rightarrow> string" where
  "date_text c = (case c of (y, m, d) \<Rightarrow> iso_year y @ ''-'' @ two_digits m @ ''-'' @ two_digits d)"

definition toISOString :: "int \<Rightarrow> string" where
  "toISOString ms =
     (let t = ms mod MS_PER_DAY
      in date_text (civil_of_days (ms div MS_PER_DAY))
         @ ''T'' @ two_digits (t div 3600000) @ '':'' @ two_digits (t div 60000 mod 60)
         @ '':'' @ two_digits (t div 1000 mod 60)
         @ ''.'' @ padStart 3 (nat_string (nat (t mod 1000))) @ ''Z'')"

text \<open>\<open>new Date(`${date}T00:00:00Z`)\<close> for a text of the shape of a date.\<close>

definition midnight :: "string \<Rightarrow> instant" where
  "midnight v = (case date_parts v of
       None \<Rightarrow> None
     | Some c \<Rightarrow> if civil_ok c then Some (days_of_civil c * MS_PER_DAY) else None)"

lemma calendar_date_midnight: "is_calendar_date v \<Longrightarrow> \<exists>n. midnight v = Some (n * MS_PER_DAY)"
  by (auto simp: is_calendar_date_def midnight_def split: option.splits)

lemma days_of_civil_examples:
  "days_of_civil (1970, 1, 1) = 0" "civil_of_days (days_of_civil (2024, 2, 29)) = (2024, 2, 29)"
  "civil_of_days (days_of_civil (1900, 3, 1)) = (1900, 3, 1)" "civil_of_days (- 1) = (1969, 12, 31)"
  by code_simp+

end
