(* ===== verification/Fingerprint.thy ===== *)
theory Fingerprint
  imports Calendar Entries "HOL-Library.Char_ord" "HOL-Library.List_Lexorder" "HOL-Library.Multiset"
begin

text \<open>
  packages/accounting/src/fingerprint.ts: the canonical byte stream of a posting. A buffer is
  a list of bytes, here characters; \<open>Buffer.compare\<close> is the lexicographic order on the
  bytes; \<open>createHash\<close> is a parameter of the definitions that use it.

  The locale \<open>separated\<close> states when joining fields with a separator loses nothing. The
  lemmas show that the stream determines the posting: two postings have the same stream
  exactly when their canonical headers agree and their canonical lines are the same
  multiset.
\<close>

subsection \<open>The code\<close>

definition US :: char where "US = char_of (31 :: nat)"
definition RS :: char where "RS = char_of (30 :: nat)"
definition NUL :: char where "NUL = char_of (0 :: nat)"
definition LF :: char where "LF = char_of (10 :: nat)"

definition ACCTFP_VERSION :: string where "ACCTFP_VERSION = ''acctfp/1''"

abbreviation payload_invalid_fp :: "'a result" where
  "payload_invalid_fp \<equiv> refuse (AccountingError accounting_payload_invalid)"

definition is_hex :: "char \<Rightarrow> bool" where
  "is_hex c \<longleftrightarrow> is_digit c \<or> 97 \<le> (of_char c :: nat) \<and> (of_char c :: nat) \<le> 102"

text \<open>\<open>/^[0-9a-f]{8}-[0-9a-f]{4}-[0-9a-f]{4}-[0-9a-f]{4}-[0-9a-f]{12}$/\<close>: the class of every character.\<close>

definition uuid_class :: "char \<Rightarrow> char" where
  "uuid_class c = (if c = CHR ''-'' then CHR ''-'' else if is_hex c then CHR ''h'' else CHR ''x'')"

definition is_uuid :: "string \<Rightarrow> bool" where
  "is_uuid v \<longleftrightarrow> map uuid_class v = ''hhhhhhhh-hhhh-hhhh-hhhh-hhhhhhhhhhhh''"

definition canonicalUuid :: "string \<Rightarrow> string result" where
  "canonicalUuid value = (let v = toLowerCase (trim value) in if \<not> is_uuid v then payload_invalid_fp else Inr v)"

definition canonicalCurrency :: "string \<Rightarrow> string result" where
  "canonicalCurrency value = (let v = toUpperCase (trim value)
     in if \<not> (length v = 3 \<and> list_all is_upper v) then payload_invalid_fp else Inr v)"

definition canonicalAmount :: "int \<Rightarrow> string result" where
  "canonicalAmount value = (if value < 0 then payload_invalid_fp else Inr (int_string value))"

text \<open>\<open>/^(\d+)(?:\.(\d{1,10}))?$/\<close>, as whole and fraction digits.\<close>

definition rateMatch :: "string \<Rightarrow> (string \<times> string) option" where
  "rateMatch v =
     (let whole = takeWhile is_digit v
      in if whole = [] then None
         else case dropWhile is_digit v of
           [] \<Rightarrow> Some (whole, [])
         | c # fraction \<Rightarrow>
             if c = CHR ''.'' \<and> fraction \<noteq> [] \<and> length fraction \<le> 10 \<and> list_all is_digit fraction
             then Some (whole, fraction) else None)"

text \<open>\<open>replace(/^0+(?=\d)/, '')\<close> on digits: leading zeros go, one digit stays.\<close>

definition stripZeros :: "string \<Rightarrow> string" where
  "stripZeros ds = (let r = dropWhile (\<lambda>c. c = CHR ''0'') ds in if r = [] then ''0'' else r)"

definition canonicalRate :: "string \<Rightarrow> string result" where
  "canonicalRate value = (case rateMatch (trim value) of
       None \<Rightarrow> payload_invalid_fp
     | Some (whole, fraction) \<Rightarrow> Inr (stripZeros whole @ ''.'' @ padEnd 10 fraction))"

definition canonicalDate :: "string \<Rightarrow> string result" where
  "canonicalDate value = (let v = trim value
     in if date_parts v = None then payload_invalid_fp
        else if \<not> is_calendar_date v then payload_invalid_fp else Inr v)"

definition canonicalInstantSecond :: "instant \<Rightarrow> string result" where
  "canonicalInstantSecond value = (case value of
       None \<Rightarrow> payload_invalid_fp
     | Some ms \<Rightarrow> if ms smod 1000 \<noteq> 0 then payload_invalid_fp else Inr (take 19 (toISOString ms) @ ''Z''))"

definition canonicalSide :: "Side \<Rightarrow> string" where
  "canonicalSide s = (case s of Side_D \<Rightarrow> ''D'' | Side_C \<Rightarrow> ''C'')"

record CanonicalLineInput =
  cl_accountIdentity :: string
  cl_side :: Side
  cl_baseAmountMinor :: int
  cl_baseCurrency :: string
  cl_txnAmountMinor :: int
  cl_txnCurrency :: string
  cl_fxRate :: string
  cl_fxRateSource :: string
  cl_fxRateAt :: instant
  cl_branchId :: "string option"
  cl_warehouseId :: "string option"

record CanonicalHeaderInput =
  ch_tenantId :: string
  ch_businessId :: string
  ch_sourceType :: string
  ch_sourceId :: string
  ch_entryDate :: string

definition dimension :: "string option \<Rightarrow> string result" where
  "dimension value = (case value of None \<Rightarrow> Inr [NUL] | Some v \<Rightarrow> canonicalUuid v)"

definition lineFields :: "CanonicalLineInput \<Rightarrow> string list result" where
  "lineFields line =
     (if cl_accountIdentity line = [] then payload_invalid_fp
      else if cl_fxRateSource line \<notin> {''base'', ''manual'', ''provider''} then payload_invalid_fp
      else bindR (canonicalAmount (cl_baseAmountMinor line)) (\<lambda>base.
           bindR (canonicalCurrency (cl_baseCurrency line)) (\<lambda>baseCur.
           bindR (canonicalAmount (cl_txnAmountMinor line)) (\<lambda>txn.
           bindR (canonicalCurrency (cl_txnCurrency line)) (\<lambda>txnCur.
           bindR (canonicalRate (cl_fxRate line)) (\<lambda>rate.
           bindR (canonicalInstantSecond (cl_fxRateAt line)) (\<lambda>rateAt.
           bindR (dimension (cl_branchId line)) (\<lambda>branch.
           bindR (dimension (cl_warehouseId line)) (\<lambda>warehouse.
             Inr [cl_accountIdentity line, canonicalSide (cl_side line), base, baseCur, txn, txnCur, rate,
                  cl_fxRateSource line, rateAt, branch, warehouse])))))))))"

text \<open>\<open>fields.forEach((f, i) => { if (i > 0) out.push(US); out.push(f); })\<close>, and \<open>join\<close>.\<close>

fun joinWith :: "char \<Rightarrow> string list \<Rightarrow> string" where
  "joinWith sep [] = []"
| "joinWith sep [f] = f"
| "joinWith sep (f # g # fs) = f @ sep # joinWith sep (g # fs)"

definition canonicalLineBytes :: "CanonicalLineInput \<Rightarrow> string result" where
  "canonicalLineBytes line = bindR (lineFields line) (\<lambda>fields. Inr (joinWith US fields))"

definition headerFields :: "CanonicalHeaderInput \<Rightarrow> string list result" where
  "headerFields h =
     bindR (canonicalUuid (ch_tenantId h)) (\<lambda>tenant.
     bindR (canonicalUuid (ch_businessId h)) (\<lambda>business.
     bindR (canonicalUuid (ch_sourceId h)) (\<lambda>source.
     bindR (canonicalDate (ch_entryDate h)) (\<lambda>date.
       Inr [ACCTFP_VERSION, tenant, business, ch_sourceType h, source, date]))))"

definition canonicalStream :: "CanonicalHeaderInput \<Rightarrow> CanonicalLineInput list \<Rightarrow> string result" where
  "canonicalStream header lines =
     (if lines = [] then payload_invalid_fp
      else if ch_sourceType header = [] then payload_invalid_fp
      else bindR (headerFields header) (\<lambda>fields.
           bindR (mapR canonicalLineBytes lines) (\<lambda>bytes.
             Inr (joinWith LF (fields @ [[]]) @ concat (map (\<lambda>l. l @ [RS]) (sort bytes))))))"

text \<open>\<open>createHash('sha256')...digest('hex')\<close> is the parameter \<open>sha256\<close>.\<close>

definition computeFingerprint :: "(string \<Rightarrow> string) \<Rightarrow> CanonicalHeaderInput \<Rightarrow> CanonicalLineInput list \<Rightarrow> string result" where
  "computeFingerprint sha256 header lines = bindR (canonicalStream header lines) (\<lambda>s. Inr (sha256 s))"

subsection \<open>Separated fields\<close>

locale separated =
  fixes sep :: char and clean :: "string \<Rightarrow> bool"
  assumes clean_sep: "clean f \<Longrightarrow> sep \<notin> set f"
begin

lemma cut:
  assumes "clean f" "clean g" shows "f @ sep # r = g @ sep # s \<longleftrightarrow> f = g \<and> r = s"
proof -
  have "f @ sep # r = g @ sep # s \<longleftrightarrow> f = g \<and> r = s" if "sep \<notin> set f" "sep \<notin> set g" for f g
    using that by (induction f arbitrary: g; case_tac g) auto
  then show ?thesis using assms clean_sep by blast
qed

lemma join_Cons: "fs \<noteq> [] \<Longrightarrow> joinWith sep (f # fs) = f @ sep # joinWith sep fs"
  by (cases fs) auto

lemma join_inject:
  assumes "length fs = length gs" "list_all clean fs" "list_all clean gs" "joinWith sep fs = joinWith sep gs"
  shows "fs = gs"
  using assms
proof (induction fs gs rule: list_induct2)
  case (Cons f fs g gs)
  show ?case
  proof (cases "fs = []")
    case False
    moreover from False Cons have "gs \<noteq> []" by auto
    ultimately show ?thesis using Cons by (simp add: join_Cons cut)
  qed (use Cons in simp)
qed simp

lemma join_end:
  assumes "length fs = length gs" "list_all clean fs" "list_all clean gs"
  shows "joinWith sep (fs @ [[]]) @ r = joinWith sep (gs @ [[]]) @ s \<longleftrightarrow> fs = gs \<and> r = s"
  using assms
proof (induction fs gs rule: list_induct2)
  case (Cons f fs g gs)
  then show ?case by (simp add: join_Cons cut)
qed simp

lemma terminated_inject:
  assumes "list_all clean fs" "list_all clean gs" "concat (map (\<lambda>f. f @ [sep]) fs) = concat (map (\<lambda>f. f @ [sep]) gs)"
  shows "fs = gs"
  using assms
proof (induction fs arbitrary: gs)
  case Nil
  then show ?case by (cases gs) auto
next
  case (Cons f fs)
  then obtain g gs' where gs: "gs = g # gs'" by (cases gs) auto
  with Cons.prems have "f @ sep # concat (map (\<lambda>f. f @ [sep]) fs) = g @ sep # concat (map (\<lambda>f. f @ [sep]) gs')"
    by simp
  moreover have "clean f" "clean g" "list_all clean fs" "list_all clean gs'" using Cons.prems gs by simp_all
  ultimately show ?case using Cons.IH cut gs by metis
qed

end

text \<open>A field with no control character other than the lone \<open>NUL\<close> of an absent dimension.\<close>

definition plain :: "string \<Rightarrow> bool" where
  "plain f \<longleftrightarrow> list_all (\<lambda>c. 32 \<le> (of_char c :: nat)) f \<or> f = [NUL]"

definition plain_line :: "string \<Rightarrow> bool" where
  "plain_line f \<longleftrightarrow> list_all (\<lambda>c. 31 \<le> (of_char c :: nat) \<or> c = NUL) f"

interpretation us: separated US plain
  by unfold_locales (auto simp: plain_def US_def NUL_def list_all_iff)

interpretation lf: separated LF plain
  by unfold_locales (auto simp: plain_def LF_def NUL_def list_all_iff)

interpretation rs: separated RS plain_line
  by unfold_locales (auto simp: plain_line_def RS_def NUL_def list_all_iff)

subsection \<open>The stream determines the posting\<close>

lemma uuid_chars: "is_uuid u \<Longrightarrow> c \<in> set u \<Longrightarrow> c = CHR ''-'' \<or> is_hex c"
proof -
  assume u: "is_uuid u" and c: "c \<in> set u"
  have "uuid_class c \<in> set (map uuid_class u)" using c by simp
  then have "uuid_class c \<noteq> CHR ''x''" using u by (auto simp: is_uuid_def)
  then show ?thesis by (auto simp: uuid_class_def split: if_splits)
qed

lemma uuid_plain: "canonicalUuid v = Inr u \<Longrightarrow> plain u"
  using uuid_chars [of u]
  by (fastforce simp: canonicalUuid_def Let_def if_refuse_eq_Inr plain_def list_all_iff is_hex_def is_digit_def)

lemma digits_plain: "list_all is_digit s \<Longrightarrow> list_all (\<lambda>c. 32 \<le> (of_char c :: nat)) s"
  by (auto simp: list_all_iff is_digit_def)

lemma nat_string_plain [simp]: "list_all (\<lambda>c. 32 \<le> (of_char c :: nat)) (nat_string n)"
  by (intro digits_plain nat_string_digits)

lemma padStart_plain [simp]: "list_all (\<lambda>c. 32 \<le> (of_char c :: nat)) (padStart k (nat_string n))"
  using nat_string_plain [of n] by (auto simp: padStart_def list_all_iff)

lemma currency_plain: "canonicalCurrency v = Inr u \<Longrightarrow> plain u"
  by (auto simp: canonicalCurrency_def Let_def result_simps plain_def list_all_iff is_upper_def)

lemma amount_plain: "canonicalAmount v = Inr u \<Longrightarrow> plain u"
  by (auto simp: canonicalAmount_def result_simps plain_def int_string_def)

lemma take_plain: "list_all P s \<Longrightarrow> list_all P (take k s)"
  by (auto simp: list_all_iff dest: in_set_takeD)

lemma iso_plain: "list_all (\<lambda>c. 32 \<le> (of_char c :: nat)) (toISOString ms)"
proof -
  obtain y m d where "civil_of_days (ms div MS_PER_DAY) = (y, m, d)" by (metis prod_cases3)
  then show ?thesis by (simp add: toISOString_def date_text_def two_digits_def iso_year_def Let_def)
qed

lemma instant_plain: "canonicalInstantSecond v = Inr u \<Longrightarrow> plain u"
  using take_plain [OF iso_plain]
  by (cases v) (simp_all add: canonicalInstantSecond_def plain_def if_refuse_eq_Inr flip: append.simps, auto)

lemma dimension_plain: "dimension v = Inr u \<Longrightarrow> plain u"
  by (auto simp: dimension_def uuid_plain split: option.splits) (simp add: plain_def)

lemma stripZeros_digits: "list_all is_digit ds \<Longrightarrow> list_all is_digit (stripZeros ds)"
  by (auto simp: stripZeros_def Let_def list_all_iff dest: set_dropWhileD)

lemma rateMatch_digits:
  "rateMatch v = Some (w, f) \<Longrightarrow> w \<noteq> [] \<and> list_all is_digit w \<and> list_all is_digit f \<and> length f \<le> 10"
  by (auto simp: rateMatch_def Let_def list_all_iff dest: set_takeWhileD split: if_splits list.splits)

lemma rate_plain: "canonicalRate v = Inr u \<Longrightarrow> plain u"
proof -
  assume u: "canonicalRate v = Inr u"
  then obtain w f where m: "rateMatch (trim v) = Some (w, f)" "u = stripZeros w @ ''.'' @ padEnd 10 f"
    by (auto simp: canonicalRate_def split: option.splits)
  from rateMatch_digits [OF m(1)] have w: "list_all is_digit (stripZeros w)" "list_all is_digit f"
    by (simp_all add: stripZeros_digits)
  from w(2) have "list_all is_digit (padEnd 10 f)" by (auto simp: padEnd_def list_all_iff)
  with w m(2) show ?thesis by (simp add: plain_def digits_plain)
qed

text \<open>Only the account identity and the source type are free text; the other fields are checked.\<close>

lemma lineFields_plain:
  assumes "lineFields l = Inr fs" "plain (cl_accountIdentity l)"
  shows "list_all plain fs \<and> length fs = 11"
proof -
  have "plain (canonicalSide (cl_side l))" by (cases "cl_side l") (simp_all add: canonicalSide_def plain_def)
  moreover have "cl_fxRateSource l \<in> {''base'', ''manual'', ''provider''} \<Longrightarrow> plain (cl_fxRateSource l)"
    by (auto simp: plain_def)
  ultimately show ?thesis using assms
    by (auto simp: lineFields_def result_simps amount_plain currency_plain rate_plain instant_plain dimension_plain)
qed

lemma headerFields_plain:
  "headerFields h = Inr fs \<Longrightarrow> plain (ch_sourceType h) \<Longrightarrow> list_all plain fs \<and> length fs = 6"
proof -
  have "plain d" if "canonicalDate v = Inr d" for v d
  proof -
    from that have d: "date_parts d \<noteq> None" by (auto simp: canonicalDate_def Let_def result_simps)
    then have "list_all (\<lambda>c. is_digit c \<or> c = CHR ''-'') d"
    proof -
      have l: "length d = 10" "list_all is_digit (take 4 d)" "d ! 4 = CHR ''-''" "list_all is_digit (take 2 (drop 5 d))"
        "d ! 7 = CHR ''-''" "list_all is_digit (drop 8 d)"
        using d by (auto simp: date_parts_def split: if_splits)
      have eq: "d = take 4 d @ [d ! 4] @ take 2 (drop 5 d) @ [d ! 7] @ drop 8 d"
        by (rule nth_equalityI) (use l(1) in \<open>auto simp: nth_append less_Suc_eq numeral_eq_Suc\<close>)
      have "list_all (\<lambda>c. is_digit c \<or> c = CHR ''-'') (take 4 d @ [d ! 4] @ take 2 (drop 5 d) @ [d ! 7] @ drop 8 d)"
        using l by (auto simp: list_all_iff)
      with eq show ?thesis by (rule ssubst)
    qed
    then show ?thesis by (auto simp: plain_def list_all_iff is_digit_def)
  qed
  then show "headerFields h = Inr fs \<Longrightarrow> plain (ch_sourceType h) \<Longrightarrow> ?thesis"
    by (auto simp: headerFields_def result_simps uuid_plain ACCTFP_VERSION_def) (auto simp: plain_def)
qed

lemma joinWith_plain_line: "list_all plain fs \<Longrightarrow> plain_line (joinWith US fs)"
proof -
  have "plain f \<Longrightarrow> plain_line f" for f by (auto simp: plain_def plain_line_def list_all_iff)
  moreover have "plain_line (f @ g)" if "plain_line f" "plain_line g" for f g
    using that by (simp add: plain_line_def)
  moreover have "plain_line (US # g)" if "plain_line g" for g using that by (simp add: plain_line_def US_def)
  ultimately show "list_all plain fs \<Longrightarrow> ?thesis"
  proof (induction US fs rule: joinWith.induct)
    case 1
    then show ?case by (simp add: plain_line_def)
  qed auto
qed

lemma mapR_lineBytes:
  "mapR canonicalLineBytes ls = Inr bs \<longleftrightarrow> (\<exists>fss. mapR lineFields ls = Inr fss \<and> bs = map (joinWith US) fss)"
proof (induction ls arbitrary: bs)
  case (Cons l ls)
  then show ?case by (auto simp: bindR_eq_Inr canonicalLineBytes_def)
qed auto

lemma sort_eq_iff_mset: "sort xs = sort ys \<longleftrightarrow> mset xs = mset ys"
  by (metis mset_sort properties_for_sort sorted_sort)

lemma mset_map_inject:
  assumes "inj_on f (set xs \<union> set ys)"
  shows "mset (map f xs) = mset (map f ys) \<longleftrightarrow> mset xs = mset ys"
proof
  assume *: "mset (map f xs) = mset (map f ys)"
  let ?g = "inv_into (set xs \<union> set ys) f"
  have "map ?g (map f xs) = xs" "map ?g (map f ys) = ys"
    using assms by (simp_all add: map_idI inv_into_f_f)
  then show "mset xs = mset ys" using * by (metis mset_map)
qed simp

lemma canonicalStream_eq_Inr:
  "canonicalStream h ls = Inr s \<longleftrightarrow> (\<exists>hf fss. headerFields h = Inr hf \<and> mapR lineFields ls = Inr fss \<and> ls \<noteq> []
     \<and> ch_sourceType h \<noteq> [] \<and> s = joinWith LF (hf @ [[]]) @ concat (map (\<lambda>l. l @ [RS]) (sort (map (joinWith US) fss))))"
  by (auto simp: canonicalStream_def result_simps mapR_lineBytes)

definition plain_posting :: "CanonicalHeaderInput \<Rightarrow> CanonicalLineInput list \<Rightarrow> bool" where
  "plain_posting h ls \<longleftrightarrow> plain (ch_sourceType h) \<and> list_all (\<lambda>l. plain (cl_accountIdentity l)) ls"

lemma lines_plain:
  assumes "mapR lineFields ls = Inr fss" "list_all (\<lambda>l. plain (cl_accountIdentity l)) ls" "fs \<in> set fss"
  shows "list_all plain fs \<and> length fs = 11"
  using mapR_set [OF assms(1,3)] assms(2) lineFields_plain by (auto simp: list_all_iff)

lemma stream_determines:
  assumes s: "canonicalStream h ls = Inr s" "canonicalStream h' ls' = Inr s'"
    and p: "plain_posting h ls" "plain_posting h' ls'"
  shows "s = s' \<longleftrightarrow> headerFields h = headerFields h' \<and> mset (map lineFields ls) = mset (map lineFields ls')"
proof -
  obtain hf fss where h: "headerFields h = Inr hf" "mapR lineFields ls = Inr fss"
    "s = joinWith LF (hf @ [[]]) @ concat (map (\<lambda>l. l @ [RS]) (sort (map (joinWith US) fss)))"
    using s(1) by (auto simp: canonicalStream_eq_Inr)
  obtain hf' fss' where h': "headerFields h' = Inr hf'" "mapR lineFields ls' = Inr fss'"
    "s' = joinWith LF (hf' @ [[]]) @ concat (map (\<lambda>l. l @ [RS]) (sort (map (joinWith US) fss')))"
    using s(2) by (auto simp: canonicalStream_eq_Inr)
  have plain: "list_all plain hf \<and> length hf = 6" "list_all plain hf' \<and> length hf' = 6"
    using headerFields_plain h(1) h'(1) p by (simp_all add: plain_posting_def)
  have fields: "list_all plain fs \<and> length fs = 11" if "fs \<in> set fss \<union> set fss'" for fs
    using that lines_plain h(2) h'(2) p by (auto simp: plain_posting_def)
  have "inj_on (joinWith US) (set fss \<union> set fss')"
    using fields by (intro inj_onI us.join_inject) auto
  then have "sort (map (joinWith US) fss) = sort (map (joinWith US) fss') \<longleftrightarrow> mset fss = mset fss'"
    by (simp only: sort_eq_iff_mset mset_map_inject)
  moreover have "plain_line (joinWith US fs)" if "fs \<in> set fss \<union> set fss'" for fs
    using fields [OF that] joinWith_plain_line by blast
  then have "list_all plain_line (sort (map (joinWith US) fss))" "list_all plain_line (sort (map (joinWith US) fss'))"
    by (auto simp: list_all_iff)
  then have "concat (map (\<lambda>l. l @ [RS]) (sort (map (joinWith US) fss))) = concat (map (\<lambda>l. l @ [RS]) (sort (map (joinWith US) fss')))
     \<longleftrightarrow> sort (map (joinWith US) fss) = sort (map (joinWith US) fss')" using rs.terminated_inject by metis
  ultimately have "s = s' \<longleftrightarrow> hf = hf' \<and> mset fss = mset fss'"
    unfolding h(3) h'(3) using lf.join_end plain by simp
  moreover have "map lineFields ls = map Inr fss" "map lineFields ls' = map Inr fss'"
    using h(2) h'(2) by (simp_all add: mapR_eq_map)
  then have "mset (map lineFields ls) = mset (map lineFields ls') \<longleftrightarrow> mset fss = mset fss'"
    using mset_map_inject [of Inr fss fss'] by simp
  ultimately show ?thesis using h(1) h'(1) by simp
qed

text \<open>The order in which the lines arrive does not matter.\<close>

lemma stream_permutation:
  assumes s: "canonicalStream h ls = Inr s" and p: "mset ls = mset ls'"
  shows "canonicalStream h ls' = Inr s"
proof -
  obtain hf fss where h: "headerFields h = Inr hf" "mapR lineFields ls = Inr fss" "ls \<noteq> []" "ch_sourceType h \<noteq> []"
    "s = joinWith LF (hf @ [[]]) @ concat (map (\<lambda>l. l @ [RS]) (sort (map (joinWith US) fss)))"
    using s by (auto simp: canonicalStream_eq_Inr)
  define fss' where "fss' = map (\<lambda>l. projr (lineFields l)) ls'"
  have all: "lineFields l = Inr (projr (lineFields l))" if "l \<in> set ls" for l
    using that h(2) by (metis in_set_conv_nth mapR_nth sum.sel(2))
  have set: "set ls' = set ls" using p by (metis set_mset_mset)
  then have "mapR lineFields ls' = Inr fss'" using all by (simp add: fss'_def mapR_eq_map)
  moreover have "fss = map (\<lambda>l. projr (lineFields l)) ls"
    using h(2) by (metis (no_types, lifting) all list.map_cong0 mapR_total sum.inject(2))
  then have "sort (map (joinWith US) fss) = sort (map (joinWith US) fss')"
    using p by (simp add: sort_eq_iff_mset fss'_def)
  moreover have "ls' \<noteq> []" using h(3) p by auto
  ultimately show ?thesis using h by (auto simp: canonicalStream_eq_Inr)
qed

subsection \<open>Properties\<close>

text \<open>C13: The fingerprint is taken over bytes that determine the posting: two postings whose source type and account
  identities hold no control character have the same stream exactly when their canonical headers are equal and their
  canonical lines are the same multiset.\<close>

theorem stream_identifies_posting:
  assumes "canonicalStream h ls = Inr s" "canonicalStream h' ls' = Inr s'" "plain_posting h ls" "plain_posting h' ls'"
  shows "s = s' \<longleftrightarrow> headerFields h = headerFields h' \<and> mset (map lineFields ls) = mset (map lineFields ls')"
  using assms by (rule stream_determines)

definition sample_header :: CanonicalHeaderInput where
  "sample_header = \<lparr>ch_tenantId = ''0a000000-0000-4000-8000-000000000001'', ch_businessId = ''0B000000-0000-4000-8000-000000000002'',
     ch_sourceType = ''sale'', ch_sourceId = ''0c000000-0000-4000-8000-000000000003'', ch_entryDate = ''2024-02-29''\<rparr>"

definition sample_fp_line :: "Side \<Rightarrow> int \<Rightarrow> CanonicalLineInput" where
  "sample_fp_line s v = \<lparr>cl_accountIdentity = ''cash'', cl_side = s, cl_baseAmountMinor = v, cl_baseCurrency = ''USD'',
     cl_txnAmountMinor = v, cl_txnCurrency = ''usd'', cl_fxRate = ''1'', cl_fxRateSource = ''base'',
     cl_fxRateAt = midnight ''2024-02-29'', cl_branchId = None, cl_warehouseId = None\<rparr>"

theorem stream_identifies_posting_witness:
  "canonicalStream sample_header [sample_fp_line Side_D 5, sample_fp_line Side_C 5]
     \<noteq> canonicalStream sample_header [sample_fp_line Side_D 6, sample_fp_line Side_C 5]"
proof -
  let ?a = "[sample_fp_line Side_D 5, sample_fp_line Side_C 5]" and ?b = "[sample_fp_line Side_D 6, sample_fp_line Side_C 5]"
  have a: "canonicalStream sample_header ?a = Inr (projr (canonicalStream sample_header ?a))"
    "plain_posting sample_header ?a" by code_simp+
  have b: "canonicalStream sample_header ?b = Inr (projr (canonicalStream sample_header ?b))"
    "plain_posting sample_header ?b" by code_simp+
  have "mset (map lineFields ?a) \<noteq> mset (map lineFields ?b)" by code_simp
  with stream_identifies_posting [OF a(1) b(1) a(2) b(2)] a(1) b(1) show ?thesis by metis
qed

text \<open>The order in which the lines of a posting arrive never changes its stream.\<close>

theorem stream_order_free:
  assumes "canonicalStream h ls = Inr s" "mset ls = mset ls'"
  shows "canonicalStream h ls' = Inr s"
  using assms by (rule stream_permutation)

theorem stream_order_free_witness:
  "canonicalStream sample_header [sample_fp_line Side_C 5, sample_fp_line Side_D 5]
     = Inr (projr (canonicalStream sample_header [sample_fp_line Side_D 5, sample_fp_line Side_C 5]))"
proof (rule stream_order_free)
  show "canonicalStream sample_header [sample_fp_line Side_D 5, sample_fp_line Side_C 5]
     = Inr (projr (canonicalStream sample_header [sample_fp_line Side_D 5, sample_fp_line Side_C 5]))" by code_simp
qed (simp add: add_mset_commute)

end
