(* ===== verification/Money_Value.thy ===== *)
theory Money_Value
  imports Fixed_Point
begin

text \<open>
  packages/domain-core/src/currencies.ts and money.ts: the currency registry and the
  \<open>Money\<close> value object, an exact amount of minor units with its currency and its sign
  policy. The private constructor is \<open>newMoney\<close>; a \<open>MoneyPolicy\<close> is its one flag.

  The lemmas show what the class promises: every value a program can build is of a
  registered currency and not negative unless it carries the signed policy, text is
  converted exactly or refused, and addition and subtraction are inverse.
\<close>

subsection \<open>The currency registry\<close>

record CurrencyMeta =
  cm_code :: string
  cm_numeric :: string
  cm_minorUnits :: nat

definition REGISTRY :: "(string \<times> CurrencyMeta) list" where
  "REGISTRY = map (\<lambda>(c, n, u). (c, \<lparr>cm_code = c, cm_numeric = n, cm_minorUnits = u\<rparr>))
    [(''ILS'', ''376'', 2), (''JOD'', ''400'', 3), (''LBP'', ''422'', 2), (''SYP'', ''760'', 2),
     (''TRY'', ''949'', 2), (''USD'', ''840'', 2), (''EUR'', ''978'', 2)]"

definition getCurrency :: "string \<Rightarrow> CurrencyMeta result" where
  "getCurrency code = (case map_of REGISTRY (toUpperCase code) of
       None \<Rightarrow> refuse CurrencyError_UNSUPPORTED_CURRENCY
     | Some m \<Rightarrow> Inr m)"

definition isSupportedCurrency :: "string \<Rightarrow> bool" where
  "isSupportedCurrency code \<longleftrightarrow> map_of REGISTRY (toUpperCase code) \<noteq> None"

definition supportedCurrencies :: "CurrencyMeta list" where
  "supportedCurrencies = map snd REGISTRY"

definition minorUnitsOf :: "string \<Rightarrow> nat result" where
  "minorUnitsOf code = bindR (getCurrency code) (\<lambda>m. Inr (cm_minorUnits m))"

lemma registry_entry:
  assumes "map_of REGISTRY k = Some m"
  shows "cm_code m = k" "toUpperCase k = k" "cm_minorUnits m \<le> 3" "2 \<le> cm_minorUnits m"
proof -
  from assms have "(k, m) \<in> set REGISTRY" by (rule map_of_SomeD)
  then have "cm_code m = k \<and> toUpperCase k = k \<and> cm_minorUnits m \<le> 3 \<and> 2 \<le> cm_minorUnits m"
    by (auto simp: REGISTRY_def toUpperCase_def upper_char_def is_lower_def)
  then show "cm_code m = k" "toUpperCase k = k" "cm_minorUnits m \<le> 3" "2 \<le> cm_minorUnits m" by auto
qed

lemma getCurrency_Inr:
  assumes "getCurrency c = Inr m"
  shows "cm_code m = toUpperCase c" "cm_minorUnits m \<le> 3" "getCurrency (cm_code m) = Inr m"
  using assms registry_entry [of "toUpperCase c" m]
  by (auto simp: getCurrency_def split: option.splits)

lemma getCurrency_upper [simp]: "getCurrency (toUpperCase c) = getCurrency c"
  by (simp add: getCurrency_def)

lemma getCurrency_supported: "(\<exists>m. getCurrency c = Inr m) \<longleftrightarrow> isSupportedCurrency c"
  by (auto simp: getCurrency_def isSupportedCurrency_def split: option.splits)

subsection \<open>The value object\<close>

record Money =
  m_amountMinor :: int
  m_currency :: string
  m_signed :: bool

text \<open>What \<open>ofMinor\<close> and \<open>times\<close> accept: a \<open>bigint\<close>, text or a \<open>number\<close>.\<close>

datatype AmountInput = Big int | Text string | Num JsNumber

fun toMinorBigInt :: "AmountInput \<Rightarrow> int result" where
  "toMinorBigInt (Big v) = Inr v"
| "toMinorBigInt (Num n) = (if \<not> isSafeInteger n then refuse (MoneyError UNSAFE_NUMBER) else Inr (number_int n))"
| "toMinorBigInt (Text t) = (case signed_digits (trim t) of
      None \<Rightarrow> refuse (MoneyError INVALID_AMOUNT)
    | Some v \<Rightarrow> Inr v)"

definition newMoney :: "int \<Rightarrow> string \<Rightarrow> bool \<Rightarrow> Money result" where
  "newMoney amountMinor currency sgnd = bindR (getCurrency currency) (\<lambda>_.
     if \<not> sgnd \<and> amountMinor < 0 then refuse (MoneyError NEGATIVE_NOT_ALLOWED)
     else Inr \<lparr>m_amountMinor = amountMinor, m_currency = currency, m_signed = sgnd\<rparr>)"

definition ofMinor :: "AmountInput \<Rightarrow> string \<Rightarrow> bool \<Rightarrow> Money result" where
  "ofMinor amountMinor currency allowNegative = bindR (toMinorBigInt amountMinor) (\<lambda>v.
     newMoney v (toUpperCase currency) allowNegative)"

definition zeroMoney :: "string \<Rightarrow> Money result" where
  "zeroMoney currency = newMoney 0 (toUpperCase currency) False"

text \<open>\<open>/^(-?)(\d+)(?:\.(\d+))?$/\<close>, as sign, whole and fraction digits.\<close>

definition majorMatch :: "string \<Rightarrow> (bool \<times> string \<times> string) option" where
  "majorMatch t =
     (let (negative, r) = strip_minus t;
          whole = takeWhile is_digit r
      in if whole = [] then None
         else case dropWhile is_digit r of
           [] \<Rightarrow> Some (negative, whole, [])
         | c # fraction \<Rightarrow>
             if c = CHR ''.'' \<and> fraction \<noteq> [] \<and> list_all is_digit fraction
             then Some (negative, whole, fraction) else None)"

definition ofMajor :: "string \<Rightarrow> string \<Rightarrow> bool \<Rightarrow> Money result" where
  "ofMajor major currency allowNegative = bindR (getCurrency currency) (\<lambda>cur.
     case majorMatch (trim major) of
       None \<Rightarrow> refuse (MoneyError INVALID_AMOUNT)
     | Some (negative, whole, fraction) \<Rightarrow>
         if cm_minorUnits cur < length fraction then refuse (MoneyError PRECISION_OVERFLOW)
         else let scale = 10 ^ cm_minorUnits cur;
                  padded = padEnd (cm_minorUnits cur) fraction;
                  minor = digits_int whole * scale + digits_int (if padded = [] then ''0'' else padded)
              in newMoney ((if negative then - 1 else 1) * minor) (cm_code cur) allowNegative)"

definition assertSameCurrency :: "Money \<Rightarrow> Money \<Rightarrow> unit result" where
  "assertSameCurrency a b = (if m_currency a \<noteq> m_currency b then refuse (MoneyError CURRENCY_MISMATCH) else Inr ())"

definition addMoney :: "Money \<Rightarrow> Money \<Rightarrow> bool \<Rightarrow> Money result" where
  "addMoney a b allowNegative = bindR (assertSameCurrency a b) (\<lambda>_.
     newMoney (m_amountMinor a + m_amountMinor b) (m_currency a) (m_signed a \<or> allowNegative))"

definition subtractMoney :: "Money \<Rightarrow> Money \<Rightarrow> bool \<Rightarrow> Money result" where
  "subtractMoney a b allowNegative = bindR (assertSameCurrency a b) (\<lambda>_.
     newMoney (m_amountMinor a - m_amountMinor b) (m_currency a) (m_signed a \<or> allowNegative))"

definition timesMoney :: "Money \<Rightarrow> AmountInput \<Rightarrow> Money result" where
  "timesMoney a factor = bindR (toMinorBigInt factor) (\<lambda>f.
     newMoney (m_amountMinor a * f) (m_currency a) (m_signed a))"

definition negateMoney :: "Money \<Rightarrow> Money result" where
  "negateMoney a = newMoney (- m_amountMinor a) (m_currency a) True"

definition isZeroMoney :: "Money \<Rightarrow> bool" where "isZeroMoney a \<longleftrightarrow> m_amountMinor a = 0"
definition isNegativeMoney :: "Money \<Rightarrow> bool" where "isNegativeMoney a \<longleftrightarrow> m_amountMinor a < 0"

definition compareTo :: "Money \<Rightarrow> Money \<Rightarrow> int result" where
  "compareTo a b = bindR (assertSameCurrency a b) (\<lambda>_.
     Inr (if m_amountMinor a < m_amountMinor b then - 1 else if m_amountMinor b < m_amountMinor a then 1 else 0))"

definition equalsMoney :: "Money \<Rightarrow> Money \<Rightarrow> bool" where
  "equalsMoney a b \<longleftrightarrow> m_currency a = m_currency b \<and> m_amountMinor a = m_amountMinor b"

definition minMoney :: "Money \<Rightarrow> Money \<Rightarrow> Money result" where
  "minMoney a b = bindR (compareTo a b) (\<lambda>c. Inr (if c \<le> 0 then a else b))"

definition maxMoney :: "Money \<Rightarrow> Money \<Rightarrow> Money result" where
  "maxMoney a b = bindR (compareTo a b) (\<lambda>c. Inr (if 0 \<le> c then a else b))"

definition toJSONMoney :: "Money \<Rightarrow> string \<times> string" where
  "toJSONMoney a = (int_string (m_amountMinor a), m_currency a)"

subsection \<open>Well-formed values\<close>

definition money_ok :: "Money \<Rightarrow> bool" where
  "money_ok m \<longleftrightarrow> isSupportedCurrency (m_currency m) \<and> toUpperCase (m_currency m) = m_currency m
     \<and> (m_signed m \<or> 0 \<le> m_amountMinor m)"

text \<open>The values a program can hold: the class has a private constructor, so only these.\<close>

inductive money_value :: "Money \<Rightarrow> bool" where
  mv_ofMinor: "ofMinor v c p = Inr m \<Longrightarrow> money_value m"
| mv_zero: "zeroMoney c = Inr m \<Longrightarrow> money_value m"
| mv_ofMajor: "ofMajor s c p = Inr m \<Longrightarrow> money_value m"
| mv_add: "money_value a \<Longrightarrow> money_value b \<Longrightarrow> addMoney a b p = Inr m \<Longrightarrow> money_value m"
| mv_subtract: "money_value a \<Longrightarrow> money_value b \<Longrightarrow> subtractMoney a b p = Inr m \<Longrightarrow> money_value m"
| mv_times: "money_value a \<Longrightarrow> timesMoney a f = Inr m \<Longrightarrow> money_value m"
| mv_negate: "money_value a \<Longrightarrow> negateMoney a = Inr m \<Longrightarrow> money_value m"

lemma newMoney_eq_Inr [result_simps]:
  "newMoney v c s = Inr m \<longleftrightarrow> isSupportedCurrency c \<and> (s \<or> 0 \<le> v) \<and> m = \<lparr>m_amountMinor = v, m_currency = c, m_signed = s\<rparr>"
  using getCurrency_supported [of c]
  by (cases "getCurrency c") (auto simp: newMoney_def)

lemma assertSameCurrency_eq_Inr [result_simps]: "assertSameCurrency a b = Inr u \<longleftrightarrow> m_currency a = m_currency b"
  by (auto simp: assertSameCurrency_def)

lemma newMoney_ok: "newMoney v c s = Inr m \<Longrightarrow> toUpperCase c = c \<Longrightarrow> money_ok m"
  by (auto simp: newMoney_eq_Inr money_ok_def)

lemma ofMajor_Inr:
  assumes "ofMajor s c p = Inr m"
  obtains cur negative whole fraction where "getCurrency c = Inr cur" "majorMatch (trim s) = Some (negative, whole, fraction)"
    "length fraction \<le> cm_minorUnits cur"
    "m_amountMinor m = (if negative then - 1 else 1) * (digits_int whole * 10 ^ cm_minorUnits cur + digits_int (padEnd (cm_minorUnits cur) fraction))"
    "newMoney (m_amountMinor m) (cm_code cur) p = Inr m"
proof -
  from assms obtain cur where cur: "getCurrency c = Inr cur" by (auto simp: ofMajor_def result_simps)
  with assms obtain n w f where m: "majorMatch (trim s) = Some (n, w, f)"
    by (cases "majorMatch (trim s)") (auto simp: ofMajor_def)
  have "digits_int (if padEnd (cm_minorUnits cur) f = [] then ''0'' else padEnd (cm_minorUnits cur) f)
     = digits_int (padEnd (cm_minorUnits cur) f)" by (simp add: digits_int_def)
  with assms cur m have *: "\<not> cm_minorUnits cur < length f"
    "newMoney ((if n then - 1 else 1) * (digits_int w * 10 ^ cm_minorUnits cur + digits_int (padEnd (cm_minorUnits cur) f)))
      (cm_code cur) p = Inr m"
    by (auto simp: ofMajor_def Let_def split: if_splits)
  then have "m_amountMinor m = (if n then - 1 else 1) * (digits_int w * 10 ^ cm_minorUnits cur + digits_int (padEnd (cm_minorUnits cur) f))"
    by (simp only: newMoney_eq_Inr) simp
  with that [OF cur m] * show thesis by (metis not_less)
qed

lemma money_value_ok: "money_value m \<Longrightarrow> money_ok m"
proof (induction rule: money_value.induct)
  case (mv_ofMajor s c p m)
  then show ?case by (metis ofMajor_Inr newMoney_ok getCurrency_Inr(1) toUpperCase_idem)
qed (auto simp: ofMinor_def zeroMoney_def addMoney_def subtractMoney_def timesMoney_def negateMoney_def
       bindR_eq_Inr money_ok_def dest!: newMoney_ok)

subsection \<open>Exact conversion of text\<close>

text \<open>The number a major-unit text denotes.\<close>

definition majorValue :: "string \<Rightarrow> rat" where
  "majorValue s = (case majorMatch (trim s) of
       None \<Rightarrow> 0
     | Some (negative, whole, fraction) \<Rightarrow>
         (if negative then - 1 else 1) * (of_int (digits_int whole) + of_int (digits_int fraction) / 10 ^ length fraction))"

lemma ofMajor_value:
  assumes "ofMajor s c p = Inr m" "getCurrency c = Inr cur"
  shows "of_int (m_amountMinor m) = majorValue s * 10 ^ cm_minorUnits cur"
proof -
  from assms obtain n w f where *: "majorMatch (trim s) = Some (n, w, f)" "length f \<le> cm_minorUnits cur"
    "m_amountMinor m = (if n then - 1 else 1) * (digits_int w * 10 ^ cm_minorUnits cur + digits_int (padEnd (cm_minorUnits cur) f))"
    by (auto elim: ofMajor_Inr)
  have "digits_int (padEnd (cm_minorUnits cur) f) = digits_int f * 10 ^ (cm_minorUnits cur - length f)"
    using digits_int_padEnd [of "[]" "cm_minorUnits cur" f] by simp
  moreover have "(10 :: rat) ^ cm_minorUnits cur = 10 ^ length f * 10 ^ (cm_minorUnits cur - length f)"
    using *(2) by (simp flip: power_add)
  ultimately show ?thesis using * by (simp add: majorValue_def field_simps)
qed

lemma majorMatch_splitDecimal:
  assumes "splitDecimal t = Some (n, w, f)" shows "majorMatch t = Some (n, w, f)"
proof -
  obtain b r where r: "strip_minus t = (b, r)" by fastforce
  have "takeWhile is_digit r \<noteq> []"
    using assms r by (auto simp only: splitDecimal_def whole_ok_def Let_def prod.case split: if_splits)
  with assms r show ?thesis
    by (simp only: splitDecimal_def majorMatch_def Let_def prod.case if_False split: if_splits) simp
qed

lemma trim_formatFixed:
  assumes "0 < sc" shows "trim (formatFixed u sc) = formatFixed u sc"
proof -
  obtain w f where w: "list_all is_digit w" "list_all is_digit f"
    and fmt: "formatFixed u sc = (if u < 0 then ''-'' else []) @ w @ CHR ''.'' # f"
    by (rule splitDecimal_formatFixed [OF assms, of u])
  have "list_all (\<lambda>c. \<not> is_space c) (formatFixed u sc)"
    unfolding fmt using digits_solid [OF w(1)] digits_solid [OF w(2)] by (simp add: is_space_def)
  then show ?thesis by (rule trim_solid)
qed

lemma ofMajor_formatFixed:
  assumes "getCurrency c = Inr cur" "p \<or> 0 \<le> v"
  shows "ofMajor (formatFixed v (cm_minorUnits cur)) c p = Inr \<lparr>m_amountMinor = v, m_currency = cm_code cur, m_signed = p\<rparr>"
proof -
  have u: "0 < cm_minorUnits cur"
    using assms(1) registry_entry(4) by (fastforce simp: getCurrency_def split: option.splits)
  then obtain w f where *: "splitDecimal (formatFixed v (cm_minorUnits cur)) = Some (v < 0, w, f)"
    "length f = cm_minorUnits cur" "digits_int (w @ f) = \<bar>v\<bar>"
    by (rule splitDecimal_formatFixed [of _ v])
  have pad: "padEnd (cm_minorUnits cur) f = f" "f \<noteq> []" using *(2) u by (auto simp: padEnd_def)
  have sup: "isSupportedCurrency (cm_code cur)" using assms(1) getCurrency_Inr getCurrency_supported by blast
  from assms * pad show ?thesis
    by (simp add: ofMajor_def trim_formatFixed u majorMatch_splitDecimal digits_int_concat newMoney_eq_Inr sup
        split: if_splits) auto
qed

subsection \<open>Arithmetic\<close>

lemma addMoney_eq_Inr:
  "money_ok a \<Longrightarrow> addMoney a b p = Inr m \<longleftrightarrow> m_currency a = m_currency b \<and> (m_signed a \<or> p \<or> 0 \<le> m_amountMinor a + m_amountMinor b)
     \<and> m = \<lparr>m_amountMinor = m_amountMinor a + m_amountMinor b, m_currency = m_currency a, m_signed = m_signed a \<or> p\<rparr>"
  by (auto simp: addMoney_def result_simps money_ok_def)

lemma subtractMoney_eq_Inr:
  "money_ok a \<Longrightarrow> subtractMoney a b p = Inr m \<longleftrightarrow> m_currency a = m_currency b \<and> (m_signed a \<or> p \<or> m_amountMinor b \<le> m_amountMinor a)
     \<and> m = \<lparr>m_amountMinor = m_amountMinor a - m_amountMinor b, m_currency = m_currency a, m_signed = m_signed a \<or> p\<rparr>"
  by (auto simp: subtractMoney_def result_simps money_ok_def)

lemma compareTo_eq_Inr [result_simps]:
  "compareTo a b = Inr k \<longleftrightarrow> m_currency a = m_currency b \<and> k = sgn (m_amountMinor a - m_amountMinor b)"
  by (auto simp: compareTo_def bindR_eq_Inr assertSameCurrency_eq_Inr sgn_if)

subsection \<open>Properties\<close>

text \<open>C12: Every money value a program can build, by the constructors and by any sequence of the operations, is of a
  registered currency under its canonical code, and is not negative unless it carries the signed policy.\<close>

theorem money_values_well_formed:
  assumes "money_value m"
  shows "(\<exists>cur. getCurrency (m_currency m) = Inr cur \<and> cm_code cur = m_currency m) \<and> (m_signed m \<or> 0 \<le> m_amountMinor m)"
  using money_value_ok [OF assms] getCurrency_supported [of "m_currency m"] getCurrency_Inr(1) [of "m_currency m"]
  by (auto simp: money_ok_def)

definition sample_till :: Money where
  "sample_till = \<lparr>m_amountMinor = - 25000, m_currency = ''USD'', m_signed = True\<rparr>"

theorem money_values_well_formed_witness:
  "(\<exists>cur. getCurrency (m_currency sample_till) = Inr cur \<and> cm_code cur = m_currency sample_till)
   \<and> (m_signed sample_till \<or> 0 \<le> m_amountMinor sample_till)"
proof (rule money_values_well_formed)
  have "ofMajor '' 250.00 '' ''usd'' False = Inr \<lparr>m_amountMinor = 25000, m_currency = ''USD'', m_signed = False\<rparr>"
    by code_simp
  then have "money_value \<lparr>m_amountMinor = 25000, m_currency = ''USD'', m_signed = False\<rparr>" by (rule mv_ofMajor)
  moreover have "negateMoney \<lparr>m_amountMinor = 25000, m_currency = ''USD'', m_signed = False\<rparr> = Inr sample_till"
    by code_simp
  ultimately show "money_value sample_till" by (rule mv_negate)
qed

text \<open>A major-unit text is converted exactly or refused, never rounded: the amount is the number the text denotes
  times ten to the currency's minor digits; and every amount, written with all of its fraction digits, is read back.\<close>

theorem major_text_exact:
  assumes "getCurrency c = Inr cur"
  shows "(ofMajor s c p = Inr m \<longrightarrow> of_int (m_amountMinor m) = majorValue s * 10 ^ cm_minorUnits cur \<and> m_currency m = cm_code cur)
   \<and> (p \<or> 0 \<le> v \<longrightarrow> ofMajor (formatFixed v (cm_minorUnits cur)) c p
        = Inr \<lparr>m_amountMinor = v, m_currency = cm_code cur, m_signed = p\<rparr>)"
proof -
  have "m_currency m = cm_code cur" if "ofMajor s c p = Inr m"
  proof -
    from that assms have "newMoney (m_amountMinor m) (cm_code cur) p = Inr m" by (auto elim: ofMajor_Inr)
    then show ?thesis by (simp only: newMoney_eq_Inr) (metis Money.select_convs(2))
  qed
  with assms show ?thesis by (simp add: ofMajor_value ofMajor_formatFixed)
qed

definition sample_dinar :: CurrencyMeta where
  "sample_dinar = \<lparr>cm_code = ''JOD'', cm_numeric = ''400'', cm_minorUnits = 3\<rparr>"

theorem major_text_exact_witness:
  "of_int 1234567 = majorValue '' 1234.567'' * 10 ^ 3
   \<and> ofMajor (formatFixed (- 5) 3) ''jod'' True = Inr \<lparr>m_amountMinor = - 5, m_currency = ''JOD'', m_signed = True\<rparr>"
proof -
  have "getCurrency ''jod'' = Inr sample_dinar"
    "ofMajor '' 1234.567'' ''jod'' True = Inr \<lparr>m_amountMinor = 1234567, m_currency = ''JOD'', m_signed = True\<rparr>"
    by code_simp+
  with major_text_exact [of "''jod''" sample_dinar "'' 1234.567''" True "\<lparr>m_amountMinor = 1234567, m_currency = ''JOD'', m_signed = True\<rparr>" "- 5"]
  show ?thesis by (simp add: sample_dinar_def)
qed

text \<open>Addition is exact and subtraction undoes it; both are refused exactly on a currency mismatch and on a
  negative result that neither the receiver nor the call allows.\<close>

theorem money_add_subtract:
  assumes "money_ok a"
  shows "((\<exists>m. addMoney a b p = Inr m) \<longleftrightarrow> m_currency a = m_currency b \<and> (m_signed a \<or> p \<or> 0 \<le> m_amountMinor a + m_amountMinor b))
   \<and> ((\<exists>m. subtractMoney a b p = Inr m) \<longleftrightarrow> m_currency a = m_currency b \<and> (m_signed a \<or> p \<or> m_amountMinor b \<le> m_amountMinor a))
   \<and> (\<forall>m. addMoney a b p = Inr m \<longrightarrow> (\<exists>r. subtractMoney m b q = Inr r \<and> equalsMoney r a))"
proof -
  have "\<exists>r. subtractMoney m b q = Inr r \<and> equalsMoney r a" if "addMoney a b p = Inr m" for m
  proof -
    have "money_ok m" "m_currency m = m_currency b" "m_amountMinor m = m_amountMinor a + m_amountMinor b"
      "m_signed a \<longrightarrow> m_signed m" "m_currency m = m_currency a"
      using that assms by (auto simp: addMoney_eq_Inr money_ok_def)
    with assms show ?thesis by (auto simp: subtractMoney_eq_Inr equalsMoney_def money_ok_def)
  qed
  with assms show ?thesis by (simp add: addMoney_eq_Inr subtractMoney_eq_Inr)
qed

theorem money_add_subtract_witness:
  "\<not> (\<exists>m. subtractMoney \<lparr>m_amountMinor = 3, m_currency = ''EUR'', m_signed = False\<rparr>
        \<lparr>m_amountMinor = 4, m_currency = ''EUR'', m_signed = True\<rparr> False = Inr m)"
proof -
  have "money_ok \<lparr>m_amountMinor = 3, m_currency = ''EUR'', m_signed = False\<rparr>" by code_simp
  from money_add_subtract [OF this, of "\<lparr>m_amountMinor = 4, m_currency = ''EUR'', m_signed = True\<rparr>" False]
  show ?thesis by simp
qed

end
