(* ===== verification/Fx.thy ===== *)
theory Fx
  imports Fingerprint Money_Value Rounding
begin

text \<open>
  packages/accounting/src/fx.ts, the rate text of fx-rate.ts, realized-fx.ts and
  rounding.ts: the exact conversion into the base currency and the two classifiers that
  name an FX difference and an allocation residual.

  The lemmas show that a canonical rate text is the one text of its rate, that the
  conversion is the HALF_EVEN rounding of the exact rational product, and that the two
  classifiers yield the one line that balances the entry they are called for.
\<close>

definition MAX_MONEY_MINOR :: int where "MAX_MONEY_MINOR = 10 ^ 18"

subsection \<open>The conversion\<close>

text \<open>\<open>canonical.split('.')\<close> on a canonical rate, which has one dot.\<close>

definition rateScaled :: "string \<Rightarrow> int result" where
  "rateScaled fxRate = bindR (canonicalRate fxRate) (\<lambda>canonical.
     let whole = takeWhile (\<lambda>c. c \<noteq> CHR ''.'') canonical;
         fraction = drop 1 (dropWhile (\<lambda>c. c \<noteq> CHR ''.'') canonical)
     in Inr (digits_int (whole @ fraction)))"

definition fx_pow10 :: "int \<Rightarrow> int" where
  "fx_pow10 e = 10 ^ nat (max e 0)"

record FxConversion =
  fc_txnAmountMinor :: int
  fc_txnCurrency :: string
  fc_baseCurrency :: string
  fc_fxRate :: string

text \<open>The tail of \<open>convertToBaseMinor\<close>, from the quotient on.\<close>

definition fxQuotient :: "int \<Rightarrow> int \<Rightarrow> int" where
  "fxQuotient num den =
     (let q = num sdiv den;
          r = num - q * den;
          twice = 2 * r
      in if den < twice then q + 1
         else if twice < den then q
         else if q smod 2 = 0 then q else q + 1)"

definition convertToBaseMinor :: "FxConversion \<Rightarrow> int result" where
  "convertToBaseMinor p =
     (if fc_txnAmountMinor p \<le> 0 then refuse (AccountingError accounting_payload_invalid)
      else bindR (minorUnitsOf (fc_txnCurrency p)) (\<lambda>et.
           bindR (minorUnitsOf (fc_baseCurrency p)) (\<lambda>eb.
           bindR (rateScaled (fc_fxRate p)) (\<lambda>scaled.
             if scaled \<le> 0 then refuse (AccountingError accounting_payload_invalid)
             else Inr (fxQuotient (fc_txnAmountMinor p * scaled * fx_pow10 (int eb - int et))
                         (10000000000 * fx_pow10 (int et - int eb)))))))"

definition isExactConversion :: "int \<Rightarrow> FxConversion \<Rightarrow> bool result" where
  "isExactConversion baseAmountMinor p = bindR (convertToBaseMinor p) (\<lambda>v. Inr (v = baseAmountMinor))"

subsection \<open>An entered rate\<close>

text \<open>\<open>/^(0|[1-9][0-9]{0,9})(\.[0-9]{1,10})?$/\<close>\<close>

definition FX_RATE_STRING_RE :: "string \<Rightarrow> bool" where
  "FX_RATE_STRING_RE raw = (case rateMatch raw of
       None \<Rightarrow> False
     | Some (whole, fraction) \<Rightarrow> length whole \<le> 10 \<and> whole_ok whole)"

definition canonicalEnteredRate :: "string \<Rightarrow> string result" where
  "canonicalEnteredRate value =
     (let raw = trim value
      in if \<not> FX_RATE_STRING_RE raw then refuse (AccountingError accounting_fx_rate_invalid)
         else bindR (canonicalRate raw) (\<lambda>canonical.
           if canonical = ''0.'' @ replicate 10 (CHR ''0'') then refuse (AccountingError accounting_fx_rate_invalid)
           else Inr canonical))"

subsection \<open>The two classifiers\<close>

datatype EconomicDirection = inflow | outflow

datatype RealizedFxSystemKey = fx_gain | fx_loss

record RealizedFxIntent =
  rf_systemKey :: RealizedFxSystemKey
  rf_side :: Side
  rf_amountMinor :: int

definition classifyRealizedFx :: "EconomicDirection \<Rightarrow> int \<Rightarrow> int \<Rightarrow> RealizedFxIntent option result" where
  "classifyRealizedFx direction carryingBaseMinor actualBaseMinor =
     (if carryingBaseMinor < 0 \<or> actualBaseMinor < 0 then refuse (AccountingError accounting_payload_invalid)
      else if MAX_MONEY_MINOR < carryingBaseMinor \<or> MAX_MONEY_MINOR < actualBaseMinor
      then refuse (AccountingError accounting_payload_invalid)
      else let difference = actualBaseMinor - carryingBaseMinor
           in if difference = 0 then Inr None
              else let magnitude = (if difference < 0 then - difference else difference)
                   in if MAX_MONEY_MINOR < magnitude then refuse (AccountingError accounting_payload_invalid)
                      else let isGain = (if direction = inflow then 0 < difference else difference < 0)
                           in Inr (Some (if isGain
                                then \<lparr>rf_systemKey = fx_gain, rf_side = Side_C, rf_amountMinor = magnitude\<rparr>
                                else \<lparr>rf_systemKey = fx_loss, rf_side = Side_D, rf_amountMinor = magnitude\<rparr>)))"

text \<open>The result type names one account, the system key \<open>rounding\<close>; the record leaves it out.\<close>

record RoundingIntent =
  ri_side :: Side
  ri_amountMinor :: int
  ri_reason :: string

definition isInteger :: "JsNumber \<Rightarrow> bool" where
  "isInteger n = (case n of Finite q \<Rightarrow> of_int \<lfloor>q\<rfloor> = q | NonFinite \<Rightarrow> False)"

definition classifyRoundingResidual :: "int \<Rightarrow> Side \<Rightarrow> JsNumber \<Rightarrow> string \<Rightarrow> RoundingIntent option result" where
  "classifyRoundingResidual residualMinor side allocationCount reason =
     (if \<not> isInteger allocationCount \<or> number_int allocationCount < 1
      then refuse (AccountingError accounting_payload_invalid)
      else if length (trim reason) = 0 \<or> 500 < length (trim reason)
      then refuse (AccountingError accounting_payload_invalid)
      else if residualMinor = 0 then Inr None
      else let magnitude = (if residualMinor < 0 then - residualMinor else residualMinor)
           in if number_int allocationCount < magnitude then refuse (AccountingError accounting_rounding_residual_unbounded)
              else if MAX_MONEY_MINOR < magnitude then refuse (AccountingError accounting_payload_invalid)
              else Inr (Some \<lparr>ri_side = side, ri_amountMinor = magnitude, ri_reason = trim reason\<rparr>))"

subsection \<open>The canonical rate is the fixed-point text of the rate\<close>

lemma stripZeros_nat_string: "list_all is_digit ds \<Longrightarrow> ds \<noteq> [] \<Longrightarrow> stripZeros ds = nat_string (nat (digits_int ds))"
proof (induction ds rule: rev_induct)
  case (snoc c ds)
  obtain k where k: "digit_val c = int k" "k < 10" "c = digit k"
  proof
    have c: "is_digit c" using snoc.prems by simp
    then have v: "0 \<le> digit_val c" "digit_val c < 10" by (simp_all add: is_digit_def digit_val_def)
    then show "digit_val c = int (nat (digit_val c))" "nat (digit_val c) < 10" by simp_all
    have "int (48 + nat (digit_val c)) = int (of_char c)" using v by (simp add: digit_val_def)
    then have "48 + nat (digit_val c) = of_char c" by (simp only: of_nat_eq_iff)
    then show "c = digit (nat (digit_val c))" by (simp add: digit_def)
  qed
  show ?case
  proof (cases "ds = []")
    case True
    with k show ?thesis
      by (subst nat_string.simps) (auto simp: stripZeros_def digits_int_def)
  next
    case False
    then have IH: "stripZeros ds = nat_string (nat (digits_int ds))" using snoc by simp
    have n: "0 \<le> digits_int ds" using snoc.prems by (intro digits_int_nonneg) simp
    show ?thesis
    proof (cases "digits_int ds = 0")
      case True
      then have "stripZeros ds = ''0''" using IH by (simp add: length_nat_string_1)
      then have "dropWhile (\<lambda>c. c = CHR ''0'') ds = [] \<or> dropWhile (\<lambda>c. c = CHR ''0'') ds = ''0''"
        by (auto simp: stripZeros_def Let_def split: if_splits)
      then have "dropWhile (\<lambda>c. c = CHR ''0'') ds = []"
        using hd_dropWhile [of "\<lambda>c. c = CHR ''0''" ds] by (auto simp del: dropWhile_eq_Nil_conv)
      then have "\<forall>x \<in> set ds. x = CHR ''0''" by simp
      then have "stripZeros (ds @ [c]) = [c]" by (auto simp: stripZeros_def Let_def dropWhile_append)
      with True k show ?thesis by (subst nat_string.simps) (simp add: digits_int_append)
    next
      case nz: False
      have "dropWhile (\<lambda>c. c = CHR ''0'') ds \<noteq> []"
      proof
        assume "dropWhile (\<lambda>c. c = CHR ''0'') ds = []"
        then have "ds = replicate (length ds) (CHR ''0'')" by (simp add: dropWhile_eq_Nil_conv replicate_length_same)
        then have "digits_int ds = digits_int (replicate (length ds) (CHR ''0'') @ [])" by simp
        with nz show False by (simp only: digits_int_zeros digits_int_Nil)
      qed
      then have "stripZeros (ds @ [c]) = stripZeros ds @ [c]"
        by (auto simp: stripZeros_def Let_def dropWhile_append dropWhile_eq_Nil_conv)
      moreover have "nat (10 * digits_int ds + int k) = 10 * nat (digits_int ds) + k" using n by (simp add: nat_add_distrib nat_mult_distrib)
      ultimately show ?thesis using k IH nz n
        by (subst nat_string.simps) (simp add: digits_int_append)
    qed
  qed
qed simp

lemma padStart_stripZeros:
  assumes "length w = 1 \<or> w \<noteq> [] \<and> hd w \<noteq> CHR ''0''"
  shows "padStart (length f + 1) (stripZeros (w @ f)) = w @ f"
proof (cases "hd w = CHR ''0''")
  case True
  with assms have w: "w = ''0''" by (cases w) auto
  have "padStart (Suc (length f)) (stripZeros (CHR ''0'' # f)) = CHR ''0'' # f"
  proof (induction f)
    case Nil
    show ?case by (simp add: stripZeros_def padStart_def)
  next
    case (Cons c f)
    show ?case
    proof (cases "c = CHR ''0''")
      case True
      have "length (stripZeros (CHR ''0'' # f)) \<le> Suc (length f)"
        by (simp add: stripZeros_def Let_def le_SucI length_dropWhile_le)
      with Cons True show ?thesis by (simp add: padStart_def stripZeros_def Suc_diff_le)
    qed (simp add: stripZeros_def padStart_def)
  qed
  with w show ?thesis by simp
next
  case False
  with assms have "dropWhile (\<lambda>c. c = CHR ''0'') (w @ f) = w @ f" "w \<noteq> []" by (cases w; auto)+
  moreover from this have "Suc 0 \<le> length w" by (cases w) simp_all
  ultimately show ?thesis by (auto simp: stripZeros_def padStart_def Let_def)
qed

lemma formatFixed_digits:
  assumes "list_all is_digit w" "list_all is_digit f" "length w = 1 \<or> w \<noteq> [] \<and> hd w \<noteq> CHR ''0''" "f \<noteq> []"
  shows "formatFixed (digits_int (w @ f)) (length f) = w @ ''.'' @ f"
proof -
  have n: "0 \<le> digits_int (w @ f)" using assms by (intro digits_int_nonneg) simp
  have "nat_string (nat (digits_int (w @ f))) = stripZeros (w @ f)"
    using assms stripZeros_nat_string [of "w @ f"] by simp
  then have "padStart (length f + 1) (nat_string (nat (digits_int (w @ f)))) = w @ f"
    using padStart_stripZeros [OF assms(3)] by simp
  then show ?thesis using n assms(4) by (simp add: formatFixed_def Let_def)
qed

lemma stripZeros_shape: "w \<noteq> [] \<Longrightarrow> length (stripZeros w) = 1 \<or> stripZeros w \<noteq> [] \<and> hd (stripZeros w) \<noteq> CHR ''0''"
  using hd_dropWhile [of "\<lambda>c. c = CHR ''0''" w] by (simp add: stripZeros_def Let_def del: dropWhile_eq_Nil_conv)

lemma digits_int_stripZeros: "list_all is_digit w \<Longrightarrow> w \<noteq> [] \<Longrightarrow> digits_int (stripZeros w) = digits_int w"
  using digits_int_nonneg [of w] by (simp add: stripZeros_nat_string)

text \<open>The rate a text denotes, in units of the tenth fraction digit.\<close>

definition rateValue :: "string \<Rightarrow> int" where
  "rateValue v = (case rateMatch (trim v) of None \<Rightarrow> 0 | Some (w, f) \<Rightarrow> digits_int (w @ padEnd 10 f))"

lemma canonicalRate_split:
  assumes "canonicalRate v = Inr u"
  obtains w f where "u = w @ CHR ''.'' # f" "list_all is_digit w" "list_all is_digit f" "length f = 10"
    "length w = 1 \<or> w \<noteq> [] \<and> hd w \<noteq> CHR ''0''" "digits_int (w @ f) = rateValue v"
proof -
  from assms obtain w f where m: "rateMatch (trim v) = Some (w, f)" "u = stripZeros w @ ''.'' @ padEnd 10 f"
    by (auto simp: canonicalRate_def split: option.splits)
  from rateMatch_digits [OF m(1)] have d: "w \<noteq> []" "list_all is_digit w" "list_all is_digit f" "length f \<le> 10" by auto
  have p: "length (padEnd 10 f) = 10" "list_all is_digit (padEnd 10 f)"
    using d by (auto simp: padEnd_def list_all_iff)
  have "digits_int (stripZeros w @ padEnd 10 f) = rateValue v"
    using d m(1) by (simp add: rateValue_def digits_int_concat digits_int_stripZeros)
  with that [of "stripZeros w" "padEnd 10 f"] m(2) stripZeros_digits [OF d(2)] stripZeros_shape [OF d(1)] p
  show thesis by simp
qed

lemma canonicalRate_formatFixed:
  assumes "canonicalRate v = Inr u" shows "u = formatFixed (rateValue v) 10" "0 \<le> rateValue v"
proof -
  obtain w f where *: "u = w @ CHR ''.'' # f" "list_all is_digit w" "list_all is_digit f" "length f = 10"
    "length w = 1 \<or> w \<noteq> [] \<and> hd w \<noteq> CHR ''0''" "digits_int (w @ f) = rateValue v"
    by (rule canonicalRate_split [OF assms])
  then have "f \<noteq> []" by auto
  with formatFixed_digits [of w f] * show "u = formatFixed (rateValue v) 10" by simp
  show "0 \<le> rateValue v" using digits_int_nonneg [of "w @ f"] * by simp
qed

lemma formatFixed_inject: "0 < sc \<Longrightarrow> formatFixed a sc = formatFixed b sc \<longleftrightarrow> a = b"
  by (metis option.inject rescale_formatFixed)

lemma rateScaled_value:
  assumes "canonicalRate v = Inr u" shows "rateScaled v = Inr (rateValue v)"
proof -
  obtain w f where f: "u = w @ CHR ''.'' # f" "list_all is_digit w" "digits_int (w @ f) = rateValue v"
    by (rule canonicalRate_split [OF assms])
  have "\<And>c. c \<in> set w \<Longrightarrow> c \<noteq> CHR ''.''" using f(2) by (auto simp: list_all_iff)
  then have "takeWhile (\<lambda>c. c \<noteq> CHR ''.'') u = w" "dropWhile (\<lambda>c. c \<noteq> CHR ''.'') u = CHR ''.'' # f"
    by (simp_all add: f(1) takeWhile_append2 dropWhile_append2)
  with assms f(3) show ?thesis by (simp add: rateScaled_def Let_def)
qed

lemma rateScaled_eq_Inr [result_simps]:
  "rateScaled v = Inr k \<longleftrightarrow> (\<exists>u. canonicalRate v = Inr u) \<and> k = rateValue v"
proof (cases "canonicalRate v")
  case (Inr u)
  then show ?thesis using rateScaled_value by auto
qed (simp add: rateScaled_def)

lemma canonicalRate_trim: "canonicalRate v = Inr u \<Longrightarrow> trim u = u"
  using trim_formatFixed [of 10 "rateValue v"] canonicalRate_formatFixed(1) [of v u] by simp

lemma canonicalRate_idem:
  assumes "canonicalRate v = Inr u" shows "canonicalRate u = Inr u" "rateValue u = rateValue v"
proof -
  obtain w f where f: "u = w @ CHR ''.'' # f" "list_all is_digit w" "list_all is_digit f" "length f = 10"
    "length w = 1 \<or> w \<noteq> [] \<and> hd w \<noteq> CHR ''0''" "digits_int (w @ f) = rateValue v"
    by (rule canonicalRate_split [OF assms])
  have "w \<noteq> []" "f \<noteq> []" using f(4,5) by auto
  with f have m: "rateMatch u = Some (w, f)" by (simp add: rateMatch_def Let_def takeWhile_digits_dot)
  then have "\<exists>x. canonicalRate u = Inr x" "rateValue u = rateValue v"
    using canonicalRate_trim [OF assms] f(4,6) by (simp_all add: canonicalRate_def rateValue_def padEnd_def)
  then show "canonicalRate u = Inr u" "rateValue u = rateValue v"
    using canonicalRate_formatFixed(1) assms by metis+
qed

subsection \<open>The conversion is HALF_EVEN\<close>

lemma fx_pow10_pos [simp]: "0 < fx_pow10 e"
  by (simp add: fx_pow10_def)

lemma fxQuotient_halfEven:
  assumes "0 \<le> n" "0 < d" shows "fxQuotient n d = halfEven n d"
proof -
  define q r where "q = n div d" and "r = n mod d"
  have "n - q * d = r" by (simp add: q_def r_def minus_div_mult_eq_mod)
  moreover have "0 \<le> q" using assms by (simp add: q_def pos_imp_zdiv_nonneg_iff)
  ultimately show ?thesis using assms
    by (simp add: fxQuotient_def halfEven_nonneg_eq Let_def even_iff_mod_2_eq_zero flip: q_def r_def)
qed

lemma convertToBaseMinor_eq_Inr:
  "convertToBaseMinor p = Inr b \<longleftrightarrow> 0 < fc_txnAmountMinor p \<and> 0 < rateValue (fc_fxRate p) \<and> (\<exists>u. canonicalRate (fc_fxRate p) = Inr u)
     \<and> (\<exists>et eb. minorUnitsOf (fc_txnCurrency p) = Inr et \<and> minorUnitsOf (fc_baseCurrency p) = Inr eb
        \<and> b = halfEven (fc_txnAmountMinor p * rateValue (fc_fxRate p) * fx_pow10 (int eb - int et))
                (10 ^ 10 * fx_pow10 (int et - int eb)))"
proof -
  have *: "fxQuotient (a * k * fx_pow10 e) (10000000000 * fx_pow10 e') = halfEven (a * k * fx_pow10 e) (10 ^ 10 * fx_pow10 e')"
    if "0 < a" "0 < k" for a k e e'
  proof -
    have "0 \<le> a * k * fx_pow10 e" using that fx_pow10_pos [of e] by (simp add: less_imp_le)
    then show ?thesis by (simp add: fxQuotient_halfEven)
  qed
  show ?thesis
  proof (cases "0 < fc_txnAmountMinor p \<and> 0 < rateValue (fc_fxRate p)")
    case True
    then show ?thesis by (simp add: convertToBaseMinor_def bindR_eq_Inr rateScaled_eq_Inr * not_le) blast
  qed (auto simp: convertToBaseMinor_def bindR_eq_Inr rateScaled_eq_Inr if_refuse_eq_Inr)
qed

subsection \<open>Properties\<close>

text \<open>The canonical text of a rate is its normal form: canonicalizing is idempotent, keeps the rate, and two texts
  have the same canonical text exactly when they denote the same rate.\<close>

theorem canonical_rate_normal_form:
  assumes "canonicalRate v = Inr u" "canonicalRate v' = Inr u'"
  shows "canonicalRate u = Inr u \<and> rateScaled u = rateScaled v \<and> (u = u' \<longleftrightarrow> rateScaled v = rateScaled v')"
  using canonicalRate_formatFixed [OF assms(1)] canonicalRate_formatFixed [OF assms(2)] canonicalRate_idem [OF assms(1)]
    rateScaled_value [OF assms(1)] rateScaled_value [OF assms(2)] rateScaled_value [of u u]
  by (simp add: formatFixed_inject)

theorem canonical_rate_normal_form_witness:
  "canonicalRate ''3.7100000000'' = Inr ''3.7100000000'' \<and> rateScaled '' 003.71'' = rateScaled ''3.710''"
proof -
  have "canonicalRate '' 003.71'' = Inr ''3.7100000000''" "canonicalRate ''3.710'' = Inr ''3.7100000000''" by code_simp+
  from canonical_rate_normal_form [OF this] show ?thesis by simp
qed

definition settlementBalance :: "EconomicDirection \<Rightarrow> int \<Rightarrow> int \<Rightarrow> int" where
  "settlementBalance d carrying actual = (case d of
       inflow \<Rightarrow> signed Side_D actual + signed Side_C carrying
     | outflow \<Rightarrow> signed Side_D carrying + signed Side_C actual)"

text \<open>A realized FX line balances the settlement it is called for: with the cash that moved and the carrying amount it
  released on opposite sides, the line the classifier yields brings the entry to zero; it is positive and within the cap,
  it is a credit to the gain account or a debit to the loss account, and it is absent exactly when nothing differs.\<close>

theorem realized_fx_balances:
  assumes "classifyRealizedFx d carrying actual = Inr r"
  shows "(r = None \<longleftrightarrow> carrying = actual)
   \<and> (\<forall>i. r = Some i \<longrightarrow> settlementBalance d carrying actual + signed (rf_side i) (rf_amountMinor i) = 0
        \<and> 0 < rf_amountMinor i \<and> rf_amountMinor i \<le> MAX_MONEY_MINOR
        \<and> (rf_systemKey i = fx_gain \<longleftrightarrow> rf_side i = Side_C))"
  using assms
  by (cases d) (auto simp: classifyRealizedFx_def settlementBalance_def Let_def split: if_splits)

theorem realized_fx_balances_witness:
  "settlementBalance outflow 360 369 + signed Side_D 9 = 0"
proof -
  have "classifyRealizedFx outflow 360 369 = Inr (Some \<lparr>rf_systemKey = fx_loss, rf_side = Side_D, rf_amountMinor = 9\<rparr>)"
    by code_simp
  from realized_fx_balances [OF this] show ?thesis by simp
qed

end
