(* ===== verification/Posting.thy ===== *)
theory Posting
  imports Fx
begin

text \<open>
  packages/accounting/src/types.ts, post.ts, sources.ts and domain-posting.ts: the posting
  command, its validation, the sources Phase 2 owns (adjustment, reversal, opening balance)
  and the engine. Every effect of the engine is behind a port: the minter, the reader and
  the writers are arguments of the definitions, and SHA-256 is one too. A port may refuse;
  the engine passes its answer on.

  The lemmas show what an accepted call has established: nothing reaches the ledger port
  that is not balanced, exactly converted, within the actor's branches and signed over its
  own fingerprint; a mirror undoes its entry; a derived opening balances.
\<close>

subsection \<open>The command\<close>

datatype AccountRef = System_account string | Code_account string

record PostingLineCommand =
  pl_account :: AccountRef
  pl_side :: Side
  pl_baseAmountMinor :: int
  pl_baseCurrency :: string
  pl_txnAmountMinor :: int
  pl_txnCurrency :: string
  pl_fxRate :: string
  pl_fxRateSource :: string
  pl_fxRateAt :: instant
  pl_branchId :: "string option"
  pl_warehouseId :: "string option"
  pl_memo :: "string option"

record PostingCommand =
  pc_tenantId :: string
  pc_businessId :: string
  pc_sourceType :: string
  pc_sourceId :: string
  pc_entryDate :: string
  pc_lines :: "PostingLineCommand list"
  pc_description :: "string option"
  pc_requestId :: "string option"

datatype BranchScope = Scope_all | Scope_assigned "string list"

text \<open>\<open>/^[a-z0-9_]{1,64}$/\<close>\<close>

definition system_key_ok :: "string \<Rightarrow> bool" where
  "system_key_ok k \<longleftrightarrow> 1 \<le> length k \<and> length k \<le> 64
     \<and> list_all (\<lambda>c. is_lower c \<or> is_digit c \<or> c = CHR ''_'') k"

fun canonicalAccountIdentity :: "AccountRef \<Rightarrow> string result" where
  "canonicalAccountIdentity (System_account k) =
     (if \<not> system_key_ok k then refuse (AccountingError accounting_payload_invalid) else Inr k)"
| "canonicalAccountIdentity (Code_account c) =
     (if length c = 0 \<or> 64 < length c then refuse (AccountingError accounting_payload_invalid)
      else Inr (''code:'' @ c))"

definition toCanonicalLine :: "PostingLineCommand \<Rightarrow> CanonicalLineInput result" where
  "toCanonicalLine l = bindR (canonicalAccountIdentity (pl_account l)) (\<lambda>a.
     Inr \<lparr>cl_accountIdentity = a, cl_side = pl_side l, cl_baseAmountMinor = pl_baseAmountMinor l,
          cl_baseCurrency = pl_baseCurrency l, cl_txnAmountMinor = pl_txnAmountMinor l,
          cl_txnCurrency = pl_txnCurrency l, cl_fxRate = pl_fxRate l, cl_fxRateSource = pl_fxRateSource l,
          cl_fxRateAt = pl_fxRateAt l, cl_branchId = pl_branchId l, cl_warehouseId = pl_warehouseId l\<rparr>)"

definition computeCommandFingerprint :: "(string \<Rightarrow> string) \<Rightarrow> PostingCommand \<Rightarrow> string result" where
  "computeCommandFingerprint sha256 c = bindR (mapR toCanonicalLine (pc_lines c)) (\<lambda>ls.
     computeFingerprint sha256
       \<lparr>ch_tenantId = pc_tenantId c, ch_businessId = pc_businessId c, ch_sourceType = pc_sourceType c,
        ch_sourceId = pc_sourceId c, ch_entryDate = pc_entryDate c\<rparr> ls)"

subsection \<open>Validation\<close>

definition lineConversion :: "PostingLineCommand \<Rightarrow> FxConversion" where
  "lineConversion l = \<lparr>fc_txnAmountMinor = pl_txnAmountMinor l, fc_txnCurrency = pl_txnCurrency l,
     fc_baseCurrency = pl_baseCurrency l, fc_fxRate = pl_fxRate l\<rparr>"

abbreviation posting_invalid :: "'a result" where
  "posting_invalid \<equiv> refuse (AccountingError accounting_payload_invalid)"

definition validateLine :: "PostingLineCommand \<Rightarrow> unit result" where
  "validateLine l =
     (if pl_baseAmountMinor l \<le> 0 then posting_invalid
      else if pl_txnAmountMinor l \<le> 0 then posting_invalid
      else if MAX_MONEY_MINOR < pl_baseAmountMinor l then posting_invalid
      else if MAX_MONEY_MINOR < pl_txnAmountMinor l then posting_invalid
      else let domestic = toUpperCase (pl_txnCurrency l) = toUpperCase (pl_baseCurrency l)
           in if domestic \<and> pl_fxRateSource l \<noteq> ''base'' then posting_invalid
              else if domestic \<and> pl_txnAmountMinor l \<noteq> pl_baseAmountMinor l then posting_invalid
              else if \<not> domestic \<and> pl_fxRateSource l \<noteq> ''manual'' \<and> pl_fxRateSource l \<noteq> ''provider'' then posting_invalid
              else bindR (isExactConversion (pl_baseAmountMinor l) (lineConversion l)) (\<lambda>exact.
                     if \<not> exact then posting_invalid else Inr ()))"

text \<open>The loop over the lines with its two running totals, and the balance test after it.\<close>

fun validateLines :: "PostingLineCommand list \<Rightarrow> int \<Rightarrow> int \<Rightarrow> unit result" where
  "validateLines [] debit credit = (if debit \<noteq> credit then posting_invalid else Inr ())"
| "validateLines (l # ls) debit credit = bindR (validateLine l) (\<lambda>_.
     if pl_side l = Side_D then validateLines ls (debit + pl_baseAmountMinor l) credit
     else validateLines ls debit (credit + pl_baseAmountMinor l))"

definition validatePostingCommand :: "PostingCommand \<Rightarrow> unit result" where
  "validatePostingCommand c =
     (if length (pc_lines c) < 2 then posting_invalid else validateLines (pc_lines c) 0 0)"

definition validateBranchLine :: "string set \<Rightarrow> PostingLineCommand \<Rightarrow> unit result" where
  "validateBranchLine allowed l = (case pl_branchId l of
       None \<Rightarrow> refuse (AccountingError accounting_branch_scope_violation)
     | Some b \<Rightarrow> if toLowerCase b \<notin> allowed then refuse (AccountingError accounting_branch_scope_violation) else Inr ())"

definition validateBranchScope :: "PostingLineCommand list \<Rightarrow> BranchScope \<Rightarrow> unit result" where
  "validateBranchScope ls sc = (case sc of
       Scope_all \<Rightarrow> Inr ()
     | Scope_assigned ids \<Rightarrow>
         bindR (mapR (validateBranchLine (set (map toLowerCase ids))) ls) (\<lambda>_. Inr ()))"

subsection \<open>Derived sources\<close>

record PostedLineSnapshot =
  ps_lineNo :: int
  ps_line :: PostingLineCommand

text \<open>
  A \<open>PostedLineSnapshot\<close> has the fields of a posting line and a line number; the mirror copies
  every field but the side.
\<close>

record PostedEntrySnapshot =
  pe_entryId :: string
  pe_tenantId :: string
  pe_businessId :: string
  pe_sourceType :: string
  pe_entryDate :: string
  pe_lines :: "PostedLineSnapshot list"

definition flipSide :: "Side \<Rightarrow> Side" where
  "flipSide s = (if s = Side_D then Side_C else Side_D)"

definition mirrorReversalLines :: "PostedEntrySnapshot \<Rightarrow> PostingLineCommand list result" where
  "mirrorReversalLines original =
     (if pe_sourceType original = ''reversal'' then refuse (AccountingError accounting_reversal_of_reversal)
      else if length (pe_lines original) < 2 then refuse (AccountingError accounting_entry_not_found)
      else Inr (map (\<lambda>s. ps_line s\<lparr>pl_side := flipSide (pl_side (ps_line s))\<rparr>) (sort_key ps_lineNo (pe_lines original))))"

fun snapshotAccountIdentity :: "AccountRef \<Rightarrow> string" where
  "snapshotAccountIdentity (System_account k) = k"
| "snapshotAccountIdentity (Code_account c) = ''code:'' @ c"

definition toCanonical :: "PostingLineCommand \<Rightarrow> CanonicalLineInput" where
  "toCanonical l =
     \<lparr>cl_accountIdentity = snapshotAccountIdentity (pl_account l), cl_side = pl_side l,
      cl_baseAmountMinor = pl_baseAmountMinor l, cl_baseCurrency = pl_baseCurrency l,
      cl_txnAmountMinor = pl_txnAmountMinor l, cl_txnCurrency = pl_txnCurrency l, cl_fxRate = pl_fxRate l,
      cl_fxRateSource = pl_fxRateSource l, cl_fxRateAt = pl_fxRateAt l, cl_branchId = pl_branchId l,
      cl_warehouseId = pl_warehouseId l\<rparr>"

definition computeReversalFingerprint ::
  "(string \<Rightarrow> string) \<Rightarrow> PostedEntrySnapshot \<Rightarrow> string \<Rightarrow> PostingLineCommand list \<Rightarrow> string result" where
  "computeReversalFingerprint sha256 original entryDate mirrored = bindR (canonicalDate entryDate) (\<lambda>date.
     computeFingerprint sha256
       \<lparr>ch_tenantId = pe_tenantId original, ch_businessId = pe_businessId original, ch_sourceType = ''reversal'',
        ch_sourceId = pe_entryId original, ch_entryDate = date\<rparr> (map toCanonical mirrored))"

definition OPENING_EQUITY_SYSTEM_KEY :: string where "OPENING_EQUITY_SYSTEM_KEY = ''opening_equity''"

record OpeningPosition =
  op_account :: AccountRef
  op_side :: Side
  op_baseAmountMinor :: int
  op_baseCurrency :: string
  op_txnAmountMinor :: int
  op_txnCurrency :: string
  op_fxRate :: string
  op_fxRateSource :: string
  op_fxRateAt :: instant
  op_memo :: "string option"

record OpeningEquityPlug =
  oe_amountMinor :: int
  oe_side :: Side

fun positionTotals :: "OpeningPosition list \<Rightarrow> int \<Rightarrow> int \<Rightarrow> (int \<times> int) result" where
  "positionTotals [] debit credit = Inr (debit, credit)"
| "positionTotals (p # ps) debit credit =
     (if op_baseAmountMinor p \<le> 0 \<or> MAX_MONEY_MINOR < op_baseAmountMinor p then posting_invalid
      else if op_side p = Side_D then positionTotals ps (debit + op_baseAmountMinor p) credit
      else positionTotals ps debit (credit + op_baseAmountMinor p))"

definition computeOpeningEquityPlug :: "OpeningPosition list \<Rightarrow> OpeningEquityPlug result" where
  "computeOpeningEquityPlug positions = bindR (positionTotals positions 0 0) (\<lambda>(debit, credit).
     let diff = debit - credit;
         amountMinor = (if diff < 0 then - diff else diff)
     in if MAX_MONEY_MINOR < amountMinor then posting_invalid
        else Inr \<lparr>oe_amountMinor = amountMinor, oe_side = (if 0 < diff then Side_C else Side_D)\<rparr>)"

fun checkPositions :: "OpeningPosition list \<Rightarrow> string \<Rightarrow> unit result" where
  "checkPositions [] baseCurrency = Inr ()"
| "checkPositions (p # ps) baseCurrency =
     (if op_account p = System_account OPENING_EQUITY_SYSTEM_KEY then posting_invalid
      else if toUpperCase (op_baseCurrency p) \<noteq> toUpperCase baseCurrency
      then refuse (AccountingError accounting_entry_base_currency_mismatch)
      else checkPositions ps baseCurrency)"

definition positionLine :: "OpeningPosition \<Rightarrow> PostingLineCommand" where
  "positionLine p =
     \<lparr>pl_account = op_account p, pl_side = op_side p, pl_baseAmountMinor = op_baseAmountMinor p,
      pl_baseCurrency = toUpperCase (op_baseCurrency p), pl_txnAmountMinor = op_txnAmountMinor p,
      pl_txnCurrency = toUpperCase (op_txnCurrency p), pl_fxRate = op_fxRate p, pl_fxRateSource = op_fxRateSource p,
      pl_fxRateAt = op_fxRateAt p, pl_branchId = None, pl_warehouseId = None, pl_memo = op_memo p\<rparr>"

definition plugLine :: "OpeningEquityPlug \<Rightarrow> string \<Rightarrow> string \<Rightarrow> PostingLineCommand" where
  "plugLine plug baseCurrency date =
     \<lparr>pl_account = System_account OPENING_EQUITY_SYSTEM_KEY, pl_side = oe_side plug,
      pl_baseAmountMinor = oe_amountMinor plug, pl_baseCurrency = toUpperCase baseCurrency,
      pl_txnAmountMinor = oe_amountMinor plug, pl_txnCurrency = toUpperCase baseCurrency,
      pl_fxRate = ''1.0000000000'', pl_fxRateSource = ''base'', pl_fxRateAt = midnight date,
      pl_branchId = None, pl_warehouseId = None, pl_memo = None\<rparr>"

definition deriveOpeningBalanceLines :: "OpeningPosition list \<Rightarrow> string \<Rightarrow> string \<Rightarrow> PostingLineCommand list result" where
  "deriveOpeningBalanceLines positions baseCurrency asOfDate =
     (if positions = [] then posting_invalid
      else bindR (checkPositions positions baseCurrency) (\<lambda>_.
           bindR (canonicalDate asOfDate) (\<lambda>date.
           bindR (computeOpeningEquityPlug positions) (\<lambda>plug.
             Inr (map positionLine positions
                  @ (if 0 < oe_amountMinor plug then [plugLine plug baseCurrency date] else []))))))"

definition computeOpeningBalanceFingerprint ::
  "(string \<Rightarrow> string) \<Rightarrow> string \<Rightarrow> string \<Rightarrow> string \<Rightarrow> string \<Rightarrow> PostingLineCommand list \<Rightarrow> string result" where
  "computeOpeningBalanceFingerprint sha256 tenantId businessId openingBalanceId asOfDate ls =
     bindR (canonicalDate asOfDate) (\<lambda>date.
       computeFingerprint sha256
         \<lparr>ch_tenantId = tenantId, ch_businessId = businessId, ch_sourceType = ''opening_balance'',
          ch_sourceId = openingBalanceId, ch_entryDate = date\<rparr> (map toCanonical ls))"

subsection \<open>The engine\<close>

text \<open>
  \<open>AccountingEngine\<close> over its ports. \<open>mint\<close> is the minter, \<open>readEntry\<close> and \<open>readBase\<close> the ledger
  reader in the scope of the call, and the last function argument the writing port; what the port
  answers is the answer of the engine.
\<close>

definition NATIVE_SOURCE_TYPES :: "string list" where
  "NATIVE_SOURCE_TYPES = [''manual_adjustment'', ''reversal'', ''opening_balance'']"

definition DOMAIN_SOURCE_TYPES :: "string list" where
  "DOMAIN_SOURCE_TYPES =
     [''inventory_adjustment'', ''inventory_opening'', ''purchase'', ''negative_inventory_cost_adjustment'',
      ''supplier_return'', ''supplier_payment'', ''supplier_credit_allocation'', ''supplier_refund'',
      ''purchase_residue_write_off'', ''sale'', ''invoice'', ''customer_payment_allocation'',
      ''customer_credit_application'', ''customer_credit'']"

definition DOMAIN_REVERSIBLE_SOURCE_TYPES :: "string list" where
  "DOMAIN_REVERSIBLE_SOURCE_TYPES = [''purchase'']"

datatype AccountingOperationKind = Op_post | Op_reverse

record AccountingAssertionClaims =
  ac_actorUserId :: string
  ac_tenantId :: string
  ac_businessId :: string
  ac_operationKind :: AccountingOperationKind
  ac_sourceType :: string
  ac_sourceId :: string
  ac_postingFingerprint :: string

record AuthorizedPostingContext =
  ax_actorUserId :: string
  ax_branchScope :: BranchScope

record PostEntryRequest =
  rq_assertion :: string
  rq_command :: PostingCommand

record PostAdjustmentRequest =
  aq_assertion :: string
  aq_command :: PostingCommand
  aq_reason :: string

record PostReversalRequest =
  vq_assertion :: string
  vq_businessId :: string
  vq_originalEntryId :: string
  vq_entryDate :: string
  vq_reason :: string
  vq_requestId :: "string option"

record PostOpeningBalanceRequest =
  oq_assertion :: string
  oq_businessId :: string
  oq_openingBalanceId :: string
  oq_asOfDate :: string
  oq_positions :: "OpeningPosition list"
  oq_description :: "string option"
  oq_requestId :: "string option"

definition commandClaims :: "string \<Rightarrow> PostingCommand \<Rightarrow> string \<Rightarrow> AccountingAssertionClaims" where
  "commandClaims actor c fingerprint =
     \<lparr>ac_actorUserId = actor, ac_tenantId = pc_tenantId c, ac_businessId = pc_businessId c,
      ac_operationKind = Op_post, ac_sourceType = pc_sourceType c, ac_sourceId = pc_sourceId c,
      ac_postingFingerprint = fingerprint\<rparr>"

abbreviation wrong_source :: "'a result" where
  "wrong_source \<equiv> refuse (AccountingError accounting_assertion_wrong_source)"

definition post ::
  "(string \<Rightarrow> string) \<Rightarrow> (AccountingAssertionClaims \<Rightarrow> string result) \<Rightarrow> (PostEntryRequest \<Rightarrow> 'r result)
   \<Rightarrow> PostingCommand \<Rightarrow> AuthorizedPostingContext \<Rightarrow> 'r result" where
  "post sha256 mint postEntry command context =
     (if pc_sourceType command \<in> set NATIVE_SOURCE_TYPES then wrong_source
      else if pc_sourceType command \<in> set DOMAIN_SOURCE_TYPES then wrong_source
      else bindR (validatePostingCommand command) (\<lambda>_.
           bindR (validateBranchScope (pc_lines command) (ax_branchScope context)) (\<lambda>_.
           bindR (computeCommandFingerprint sha256 command) (\<lambda>fingerprint.
           bindR (mint (commandClaims (ax_actorUserId context) command fingerprint)) (\<lambda>assertion.
             postEntry \<lparr>rq_assertion = assertion, rq_command = command\<rparr>)))))"

definition adjust ::
  "(string \<Rightarrow> string) \<Rightarrow> (AccountingAssertionClaims \<Rightarrow> string result) \<Rightarrow> (PostAdjustmentRequest \<Rightarrow> 'r result)
   \<Rightarrow> PostingCommand \<Rightarrow> string \<Rightarrow> AuthorizedPostingContext \<Rightarrow> 'r result" where
  "adjust sha256 mint postAdjustment command reason context =
     (if pc_sourceType command \<noteq> ''manual_adjustment'' then wrong_source
      else if trim reason = [] then refuse (AccountingError accounting_adjustment_reason_required)
      else bindR (validatePostingCommand command) (\<lambda>_.
           bindR (validateBranchScope (pc_lines command) (ax_branchScope context)) (\<lambda>_.
           bindR (computeCommandFingerprint sha256 command) (\<lambda>fingerprint.
           bindR (mint (commandClaims (ax_actorUserId context) command fingerprint)) (\<lambda>assertion.
             postAdjustment \<lparr>aq_assertion = assertion, aq_command = command, aq_reason = trim reason\<rparr>)))))"

record ReverseInput =
  ri_tenantId :: string
  ri_businessId :: string
  ri_originalEntryId :: string
  ri_entryDate :: string
  ri_reversalReason :: string
  ri_requestId :: "string option"

definition reverse ::
  "(string \<Rightarrow> string) \<Rightarrow> (AccountingAssertionClaims \<Rightarrow> string result)
   \<Rightarrow> (string \<Rightarrow> string \<Rightarrow> string \<Rightarrow> PostedEntrySnapshot option result)
   \<Rightarrow> (PostReversalRequest \<Rightarrow> 'r result) \<Rightarrow> ReverseInput \<Rightarrow> AuthorizedPostingContext \<Rightarrow> 'r result" where
  "reverse sha256 mint readEntry postReversal input context =
     (if trim (ri_reversalReason input) = [] then refuse (AccountingError accounting_reversal_reason_required)
      else bindR (readEntry (ri_tenantId input) (ri_businessId input) (ri_originalEntryId input)) (\<lambda>found.
        case found of
          None \<Rightarrow> refuse (AccountingError accounting_entry_not_found)
        | Some original \<Rightarrow>
            if pe_tenantId original \<noteq> ri_tenantId input then refuse (AccountingError accounting_entry_not_found)
            else if ri_entryDate input < pe_entryDate original
            then refuse (AccountingError accounting_entry_date_before_original)
            else bindR (mirrorReversalLines original) (\<lambda>mirrored.
                 bindR (validateBranchScope mirrored (ax_branchScope context)) (\<lambda>_.
                 bindR (computeReversalFingerprint sha256 original (ri_entryDate input) mirrored) (\<lambda>fingerprint.
                 bindR (mint \<lparr>ac_actorUserId = ax_actorUserId context, ac_tenantId = ri_tenantId input,
                              ac_businessId = ri_businessId input, ac_operationKind = Op_reverse,
                              ac_sourceType = ''reversal'', ac_sourceId = ri_originalEntryId input,
                              ac_postingFingerprint = fingerprint\<rparr>) (\<lambda>assertion.
                   postReversal \<lparr>vq_assertion = assertion, vq_businessId = ri_businessId input,
                     vq_originalEntryId = ri_originalEntryId input, vq_entryDate = ri_entryDate input,
                     vq_reason = trim (ri_reversalReason input), vq_requestId = ri_requestId input\<rparr>))))))"

record OpeningBalanceInput =
  ob_tenantId :: string
  ob_businessId :: string
  ob_openingBalanceId :: string
  ob_asOfDate :: string
  ob_positions :: "OpeningPosition list"
  ob_description :: "string option"
  ob_requestId :: "string option"

definition openingBalance ::
  "(string \<Rightarrow> string) \<Rightarrow> (AccountingAssertionClaims \<Rightarrow> string result) \<Rightarrow> (string \<Rightarrow> string \<Rightarrow> string option result)
   \<Rightarrow> (PostOpeningBalanceRequest \<Rightarrow> 'r result) \<Rightarrow> OpeningBalanceInput \<Rightarrow> AuthorizedPostingContext \<Rightarrow> 'r result" where
  "openingBalance sha256 mint readBase postOpening input context =
     (if ax_branchScope context \<noteq> Scope_all then refuse (AccountingError accounting_branch_scope_violation)
      else bindR (readBase (ob_tenantId input) (ob_businessId input)) (\<lambda>found.
        case found of
          None \<Rightarrow> refuse (AccountingError accounting_forbidden)
        | Some baseCurrency \<Rightarrow>
            bindR (deriveOpeningBalanceLines (ob_positions input) baseCurrency (ob_asOfDate input)) (\<lambda>ls.
            bindR (validatePostingCommand
                \<lparr>pc_tenantId = ob_tenantId input, pc_businessId = ob_businessId input, pc_sourceType = ''opening_balance'',
                 pc_sourceId = ob_openingBalanceId input, pc_entryDate = ob_asOfDate input, pc_lines = ls,
                 pc_description = None, pc_requestId = None\<rparr>) (\<lambda>_.
            bindR (computeOpeningBalanceFingerprint sha256 (ob_tenantId input) (ob_businessId input)
                (ob_openingBalanceId input) (ob_asOfDate input) ls) (\<lambda>fingerprint.
            bindR (mint \<lparr>ac_actorUserId = ax_actorUserId context, ac_tenantId = ob_tenantId input,
                         ac_businessId = ob_businessId input, ac_operationKind = Op_post,
                         ac_sourceType = ''opening_balance'', ac_sourceId = ob_openingBalanceId input,
                         ac_postingFingerprint = fingerprint\<rparr>) (\<lambda>assertion.
              postOpening \<lparr>oq_assertion = assertion, oq_businessId = ob_businessId input,
                oq_openingBalanceId = ob_openingBalanceId input, oq_asOfDate = ob_asOfDate input,
                oq_positions = ob_positions input, oq_description = ob_description input,
                oq_requestId = ob_requestId input\<rparr>))))))"

subsection \<open>Domain commands\<close>

definition isDomainSourceType :: "string \<Rightarrow> bool" where
  "isDomainSourceType t \<longleftrightarrow> t \<in> set DOMAIN_SOURCE_TYPES"

definition isDomainReversibleSourceType :: "string \<Rightarrow> bool" where
  "isDomainReversibleSourceType t \<longleftrightarrow> t \<in> set DOMAIN_REVERSIBLE_SOURCE_TYPES"

definition mintDomainPostingAssertion ::
  "(string \<Rightarrow> string) \<Rightarrow> (AccountingAssertionClaims \<Rightarrow> string result) \<Rightarrow> PostingCommand \<Rightarrow> string \<Rightarrow> string result" where
  "mintDomainPostingAssertion sha256 mint command actorUserId =
     (if pc_sourceType command \<in> set NATIVE_SOURCE_TYPES then wrong_source
      else if \<not> isDomainSourceType (pc_sourceType command) then wrong_source
      else bindR (validatePostingCommand command) (\<lambda>_.
           bindR (computeCommandFingerprint sha256 command) (\<lambda>fingerprint.
             mint (commandClaims actorUserId command fingerprint))))"

definition mintDomainReversalAssertion ::
  "(string \<Rightarrow> string) \<Rightarrow> (AccountingAssertionClaims \<Rightarrow> string result) \<Rightarrow> PostedEntrySnapshot \<Rightarrow> string \<Rightarrow> string \<Rightarrow> string result" where
  "mintDomainReversalAssertion sha256 mint original entryDate actorUserId =
     (if \<not> isDomainReversibleSourceType (pe_sourceType original) then wrong_source
      else bindR (canonicalDate entryDate) (\<lambda>date.
           bindR (canonicalDate (pe_entryDate original)) (\<lambda>originalDate.
             if date < originalDate then refuse (AccountingError accounting_entry_date_before_original)
             else bindR (mirrorReversalLines original) (\<lambda>mirrored.
                  bindR (computeReversalFingerprint sha256 original date mirrored) (\<lambda>fingerprint.
                    mint \<lparr>ac_actorUserId = actorUserId, ac_tenantId = pe_tenantId original,
                          ac_businessId = pe_businessId original, ac_operationKind = Op_reverse,
                          ac_sourceType = ''reversal'', ac_sourceId = pe_entryId original,
                          ac_postingFingerprint = fingerprint\<rparr>)))))"

subsection \<open>What validation accepts\<close>

definition line_sound :: "PostingLineCommand \<Rightarrow> bool" where
  "line_sound l \<longleftrightarrow> 0 < pl_baseAmountMinor l \<and> pl_baseAmountMinor l \<le> MAX_MONEY_MINOR
     \<and> 0 < pl_txnAmountMinor l \<and> pl_txnAmountMinor l \<le> MAX_MONEY_MINOR
     \<and> (if toUpperCase (pl_txnCurrency l) = toUpperCase (pl_baseCurrency l)
        then pl_fxRateSource l = ''base'' \<and> pl_txnAmountMinor l = pl_baseAmountMinor l
        else pl_fxRateSource l = ''manual'' \<or> pl_fxRateSource l = ''provider'')
     \<and> convertToBaseMinor (lineConversion l) = Inr (pl_baseAmountMinor l)"

lemma isExactConversion_True [result_simps]: "isExactConversion v p = Inr True \<longleftrightarrow> convertToBaseMinor p = Inr v"
  by (cases "convertToBaseMinor p") (auto simp: isExactConversion_def)

lemma validateLine_eq_Inr: "validateLine l = Inr () \<longleftrightarrow> line_sound l"
  by (cases "isExactConversion (pl_baseAmountMinor l) (lineConversion l)")
    (auto simp: validateLine_def line_sound_def Let_def isExactConversion_True [symmetric])

lemma validateLines_eq_Inr:
  "validateLines ls d c = Inr () \<longleftrightarrow> list_all line_sound ls \<and> d - c + entryBalance pl_side pl_baseAmountMinor ls = 0"
proof (induction ls arbitrary: d c)
  case (Cons l ls)
  show ?case
    by (cases "pl_side l") (auto simp: bindR_eq_Inr validateLine_eq_Inr Cons)
qed simp

text \<open>The validation is a gate on the lines of an entry.\<close>

interpretation posting_entry: entry_gate pl_side pl_baseAmountMinor line_sound "\<lambda>ls. bindR (validateLines ls 0 0) (\<lambda>_. Inr ls)"
  by unfold_locales (auto simp: bindR_eq_Inr validateLines_eq_Inr)

definition entry_sound :: "PostingLineCommand list \<Rightarrow> bool" where
  "entry_sound ls \<longleftrightarrow> 2 \<le> length ls \<and> list_all line_sound ls
     \<and> debits pl_side pl_baseAmountMinor ls = credits pl_side pl_baseAmountMinor ls"

lemma validatePostingCommand_eq_Inr [result_simps]: "validatePostingCommand c = Inr () \<longleftrightarrow> entry_sound (pc_lines c)"
  by (auto simp: validatePostingCommand_def validateLines_eq_Inr entry_sound_def entryBalance_debits_credits)

fun in_scope :: "BranchScope \<Rightarrow> PostingLineCommand \<Rightarrow> bool" where
  "in_scope Scope_all l = True"
| "in_scope (Scope_assigned ids) l = (\<exists>b. pl_branchId l = Some b \<and> (\<exists>i \<in> set ids. toLowerCase i = toLowerCase b))"

lemma validateBranchScope_eq_Inr [result_simps]: "validateBranchScope ls sc = Inr () \<longleftrightarrow> list_all (in_scope sc) ls"
proof (cases sc)
  case (Scope_assigned ids)
  have "mapR (validateBranchLine (set (map toLowerCase ids))) ls = Inr us
      \<longleftrightarrow> list_all (in_scope sc) ls \<and> length us = length ls" for us
  proof (induction ls arbitrary: us)
    case (Cons l ls)
    have "validateBranchLine (set (map toLowerCase ids)) l = Inr () \<longleftrightarrow> in_scope sc l"
      by (auto simp: validateBranchLine_def Scope_assigned image_iff split: option.splits)
    with Cons show ?case by (cases us) (auto simp: bindR_eq_Inr)
  qed auto
  then show ?thesis
    by (auto simp: validateBranchScope_def Scope_assigned bindR_eq_Inr intro: Ex_list_of_length)
qed (auto simp: validateBranchScope_def list_all_iff)

subsection \<open>What reaches a port\<close>

text \<open>The evidence a posting carries to a port: its own fingerprint under the actor's authority.\<close>

definition signed_over :: "(AccountingAssertionClaims \<Rightarrow> string result) \<Rightarrow> string \<Rightarrow> AccountingAssertionClaims \<Rightarrow> bool" where
  "signed_over mint assertion claims \<longleftrightarrow> mint claims = Inr assertion"

lemma post_eq_Inr:
  "post sha mint port c x = Inr r \<longleftrightarrow>
     pc_sourceType c \<notin> set NATIVE_SOURCE_TYPES \<and> pc_sourceType c \<notin> set DOMAIN_SOURCE_TYPES
     \<and> entry_sound (pc_lines c) \<and> list_all (in_scope (ax_branchScope x)) (pc_lines c)
     \<and> (\<exists>fp a. computeCommandFingerprint sha c = Inr fp \<and> signed_over mint a (commandClaims (ax_actorUserId x) c fp)
          \<and> port \<lparr>rq_assertion = a, rq_command = c\<rparr> = Inr r)"
  by (auto simp: post_def result_simps signed_over_def)

lemma adjust_eq_Inr:
  "adjust sha mint port c reason x = Inr r \<longleftrightarrow>
     pc_sourceType c = ''manual_adjustment'' \<and> trim reason \<noteq> []
     \<and> entry_sound (pc_lines c) \<and> list_all (in_scope (ax_branchScope x)) (pc_lines c)
     \<and> (\<exists>fp a. computeCommandFingerprint sha c = Inr fp \<and> signed_over mint a (commandClaims (ax_actorUserId x) c fp)
          \<and> port \<lparr>aq_assertion = a, aq_command = c, aq_reason = trim reason\<rparr> = Inr r)"
  by (auto simp: adjust_def result_simps signed_over_def)

subsection \<open>The mirror\<close>

lemma flipSide_simps [simp]: "flipSide Side_D = Side_C" "flipSide Side_C = Side_D" "flipSide (flipSide s) = s"
  by (cases s; simp add: flipSide_def)+

lemma signed_flipSide [simp]: "signed (flipSide s) v = - signed s v"
  by (cases s) simp_all

definition snapshotLines :: "PostedEntrySnapshot \<Rightarrow> PostingLineCommand list" where
  "snapshotLines e = map ps_line (sort_key ps_lineNo (pe_lines e))"

definition mirrorLine :: "PostingLineCommand \<Rightarrow> PostingLineCommand" where
  "mirrorLine l = l\<lparr>pl_side := flipSide (pl_side l)\<rparr>"

lemma mirrorLine_sel [simp]:
  "pl_side (mirrorLine l) = flipSide (pl_side l)" "pl_baseAmountMinor (mirrorLine l) = pl_baseAmountMinor l"
  "pl_account (mirrorLine l) = pl_account l" "pl_txnAmountMinor (mirrorLine l) = pl_txnAmountMinor l"
  "line_sound (mirrorLine l) = line_sound l" "mirrorLine (mirrorLine l) = l"
  by (simp_all add: mirrorLine_def line_sound_def lineConversion_def)

lemma mirrorReversalLines_eq_Inr [result_simps]:
  "mirrorReversalLines e = Inr ms \<longleftrightarrow> pe_sourceType e \<noteq> ''reversal'' \<and> 2 \<le> length (pe_lines e) \<and> ms = map mirrorLine (snapshotLines e)"
  by (auto simp: mirrorReversalLines_def snapshotLines_def mirrorLine_def)

lemma reversal_balance: "entryBalance pl_side f (map mirrorLine ls) = - entryBalance pl_side (\<lambda>l. f (mirrorLine l)) ls"
  by (induction ls) auto

text \<open>The movement an entry makes on one account, in one currency of the caller's choice.\<close>

definition accountMovement :: "AccountRef \<Rightarrow> (PostingLineCommand \<Rightarrow> int) \<Rightarrow> PostingLineCommand list \<Rightarrow> int" where
  "accountMovement a amount ls = entryBalance pl_side amount (filter (\<lambda>l. pl_account l = a) ls)"

lemma accountMovement_append [simp]:
  "accountMovement a f (xs @ ys) = accountMovement a f xs + accountMovement a f ys"
  by (simp add: accountMovement_def)

lemma mirror_movement:
  assumes "\<And>l. f (mirrorLine l) = f l"
  shows "accountMovement a f (map mirrorLine ls) = - accountMovement a f ls"
  by (induction ls) (auto simp: accountMovement_def assms)

lemma reversal_sound: "list_all line_sound (map mirrorLine ls) = list_all line_sound ls"
  by (simp add: list_all_iff)

subsection \<open>The opening\<close>

definition positionsNet :: "OpeningPosition list \<Rightarrow> int" where
  "positionsNet ps = entryBalance op_side op_baseAmountMinor ps"

lemma positionTotals_eq_Inr:
  "positionTotals ps d c = Inr t \<longleftrightarrow> list_all (\<lambda>p. 0 < op_baseAmountMinor p \<and> op_baseAmountMinor p \<le> MAX_MONEY_MINOR) ps
     \<and> t = (d + debits op_side op_baseAmountMinor ps, c + credits op_side op_baseAmountMinor ps)"
proof (induction ps arbitrary: d c)
  case (Cons p ps)
  then show ?case by (cases "op_side p") (auto simp: debits_def credits_def)
qed (auto simp: debits_def credits_def)

lemma computeOpeningEquityPlug_eq_Inr [result_simps]:
  "computeOpeningEquityPlug ps = Inr g \<longleftrightarrow>
     list_all (\<lambda>p. 0 < op_baseAmountMinor p \<and> op_baseAmountMinor p \<le> MAX_MONEY_MINOR) ps \<and> \<bar>positionsNet ps\<bar> \<le> MAX_MONEY_MINOR
     \<and> g = \<lparr>oe_amountMinor = \<bar>positionsNet ps\<bar>, oe_side = (if 0 < positionsNet ps then Side_C else Side_D)\<rparr>"
  by (auto simp: computeOpeningEquityPlug_def bindR_eq_Inr positionTotals_eq_Inr Let_def positionsNet_def
      entryBalance_debits_credits split: if_splits)

lemma positionLine_balance: "entryBalance pl_side pl_baseAmountMinor (map positionLine ps) = positionsNet ps"
  by (induction ps) (simp_all add: positionsNet_def positionLine_def)

lemma checkPositions_eq_Inr [result_simps]:
  "checkPositions ps b = Inr () \<longleftrightarrow> list_all (\<lambda>p. op_account p \<noteq> System_account OPENING_EQUITY_SYSTEM_KEY
     \<and> toUpperCase (op_baseCurrency p) = toUpperCase b) ps"
  by (induction ps) auto

lemma deriveOpeningBalanceLines_eq_Inr:
  "deriveOpeningBalanceLines ps b d = Inr ls \<longleftrightarrow> ps \<noteq> []
     \<and> list_all (\<lambda>p. op_account p \<noteq> System_account OPENING_EQUITY_SYSTEM_KEY \<and> toUpperCase (op_baseCurrency p) = toUpperCase b) ps
     \<and> list_all (\<lambda>p. 0 < op_baseAmountMinor p \<and> op_baseAmountMinor p \<le> MAX_MONEY_MINOR) ps \<and> \<bar>positionsNet ps\<bar> \<le> MAX_MONEY_MINOR
     \<and> (\<exists>date. canonicalDate d = Inr date \<and> ls = map positionLine ps
          @ (if positionsNet ps = 0 then [] else [plugLine \<lparr>oe_amountMinor = \<bar>positionsNet ps\<bar>,
               oe_side = (if 0 < positionsNet ps then Side_C else Side_D)\<rparr> b date]))"
  by (auto simp: deriveOpeningBalanceLines_def bindR_eq_Inr checkPositions_eq_Inr computeOpeningEquityPlug_eq_Inr)

lemma opening_balance_zero:
  assumes "deriveOpeningBalanceLines ps b d = Inr ls" shows "entryBalance pl_side pl_baseAmountMinor ls = 0"
  using assms
  by (auto simp: deriveOpeningBalanceLines_eq_Inr positionLine_balance plugLine_def)

lemma opening_movement:
  assumes "deriveOpeningBalanceLines ps b d = Inr ls"
  shows "accountMovement (System_account OPENING_EQUITY_SYSTEM_KEY) pl_baseAmountMinor ls = - positionsNet ps"
proof -
  have "filter (\<lambda>l. pl_account l = System_account OPENING_EQUITY_SYSTEM_KEY) (map positionLine ps) = []"
    using assms by (auto simp: deriveOpeningBalanceLines_eq_Inr filter_empty_conv positionLine_def list_all_iff)
  with assms show ?thesis
    by (auto simp: deriveOpeningBalanceLines_eq_Inr accountMovement_def plugLine_def)
qed

subsection \<open>Properties\<close>

text \<open>C14: Whatever the generic posting entry point hands to the ledger port is a sound entry: of a source type neither
  Phase 2 nor a domain owns, at least two lines, each positive, capped, with the rate source its currencies call for and
  the exact conversion of its transaction amount, debits equal to credits, every line in the member's branches, and
  carrying an assertion minted over this command's own fingerprint.\<close>

theorem post_hands_over_sound_entries:
  assumes "post sha mint (\<lambda>r. Inr r) c x = Inr r"
  shows "rq_command r = c \<and> entry_sound (pc_lines c) \<and> list_all (in_scope (ax_branchScope x)) (pc_lines c)
     \<and> pc_sourceType c \<notin> set NATIVE_SOURCE_TYPES \<union> set DOMAIN_SOURCE_TYPES
     \<and> (\<exists>fp. computeCommandFingerprint sha c = Inr fp
          \<and> signed_over mint (rq_assertion r) (commandClaims (ax_actorUserId x) c fp))"
  using assms by (auto simp: post_eq_Inr)

definition sample_posting_line :: "string \<Rightarrow> Side \<Rightarrow> PostingLineCommand" where
  "sample_posting_line k s =
     \<lparr>pl_account = System_account k, pl_side = s, pl_baseAmountMinor = 371, pl_baseCurrency = ''ILS'',
      pl_txnAmountMinor = 100, pl_txnCurrency = ''USD'', pl_fxRate = ''3.71'', pl_fxRateSource = ''manual'',
      pl_fxRateAt = midnight ''2024-02-29'', pl_branchId = Some ''0d000000-0000-4000-8000-000000000004'',
      pl_warehouseId = None, pl_memo = None\<rparr>"

definition sample_posting :: PostingCommand where
  "sample_posting =
     \<lparr>pc_tenantId = ''0a000000-0000-4000-8000-000000000001'', pc_businessId = ''0b000000-0000-4000-8000-000000000002'',
      pc_sourceType = ''fee'', pc_sourceId = ''0c000000-0000-4000-8000-000000000003'', pc_entryDate = ''2024-02-29'',
      pc_lines = [sample_posting_line ''bank'' Side_D, sample_posting_line ''cash'' Side_C],
      pc_description = None, pc_requestId = None\<rparr>"

definition sample_member :: AuthorizedPostingContext where
  "sample_member = \<lparr>ax_actorUserId = ''u'', ax_branchScope = Scope_assigned [''0D000000-0000-4000-8000-000000000004'']\<rparr>"

theorem post_hands_over_sound_entries_witness:
  "debits pl_side pl_baseAmountMinor (pc_lines sample_posting) = credits pl_side pl_baseAmountMinor (pc_lines sample_posting)"
proof -
  have "post (\<lambda>s. ''digest'') (\<lambda>c. Inr ''token'') (\<lambda>r. Inr r) sample_posting sample_member
      = Inr \<lparr>rq_assertion = ''token'', rq_command = sample_posting\<rparr>" by code_simp
  from post_hands_over_sound_entries [OF this] show ?thesis by (simp add: entry_sound_def)
qed

text \<open>A reversal undoes its entry: the mirror of a sound entry is again a sound entry, it moves every account by
  exactly the opposite amount, in the base currency and in the transaction currency, and mirroring twice restores the
  lines.\<close>

theorem mirror_undoes:
  assumes "mirrorReversalLines e = Inr ms" "entry_sound (snapshotLines e)"
  shows "entry_sound ms
   \<and> accountMovement a pl_baseAmountMinor (snapshotLines e @ ms) = 0
   \<and> accountMovement a pl_txnAmountMinor (snapshotLines e @ ms) = 0
   \<and> map mirrorLine ms = snapshotLines e"
proof -
  have ms: "ms = map mirrorLine (snapshotLines e)" using assms(1) by (simp add: mirrorReversalLines_eq_Inr)
  have "entryBalance pl_side pl_baseAmountMinor (snapshotLines e) = 0"
    using assms(2) by (simp add: entry_sound_def entryBalance_debits_credits)
  then have "entryBalance pl_side pl_baseAmountMinor ms = 0" by (simp add: ms reversal_balance)
  then show ?thesis using assms(2)
    by (simp add: ms entry_sound_def reversal_sound mirror_movement entryBalance_debits_credits comp_def)
qed

definition sample_entry :: PostedEntrySnapshot where
  "sample_entry =
     \<lparr>pe_entryId = ''e'', pe_tenantId = ''t'', pe_businessId = ''b'', pe_sourceType = ''purchase'', pe_entryDate = ''2024-02-29'',
      pe_lines = [\<lparr>ps_lineNo = 2, ps_line = sample_posting_line ''cash'' Side_C\<rparr>,
                  \<lparr>ps_lineNo = 1, ps_line = sample_posting_line ''bank'' Side_D\<rparr>]\<rparr>"

theorem mirror_undoes_witness:
  "entry_sound [sample_posting_line ''bank'' Side_C, sample_posting_line ''cash'' Side_D]"
proof -
  have m: "mirrorReversalLines sample_entry = Inr [sample_posting_line ''bank'' Side_C, sample_posting_line ''cash'' Side_D]"
    by code_simp
  have "validatePostingCommand sample_posting = Inr ()" by code_simp
  moreover have "pc_lines sample_posting = snapshotLines sample_entry" by code_simp
  ultimately have "entry_sound (snapshotLines sample_entry)" by (simp add: validatePostingCommand_eq_Inr)
  from mirror_undoes [OF m this] show ?thesis by blast
qed

text \<open>A derived opening balance balances: its positions are carried as stated, the equity account takes exactly what
  they leave over, and the plug line is there exactly when they do not already balance.\<close>

theorem opening_balance_derived:
  assumes "deriveOpeningBalanceLines ps b d = Inr ls"
  shows "debits pl_side pl_baseAmountMinor ls = credits pl_side pl_baseAmountMinor ls
   \<and> take (length ps) ls = map positionLine ps
   \<and> (length ls = length ps \<longleftrightarrow> positionsNet ps = 0) \<and> length ls \<le> length ps + 1
   \<and> accountMovement (System_account OPENING_EQUITY_SYSTEM_KEY) pl_baseAmountMinor ls = - positionsNet ps"
proof -
  have "debits pl_side pl_baseAmountMinor ls = credits pl_side pl_baseAmountMinor ls"
    using opening_balance_zero [OF assms] by (simp add: entryBalance_debits_credits)
  with opening_movement [OF assms] show ?thesis using assms
    by (auto simp: deriveOpeningBalanceLines_eq_Inr split: if_splits)
qed

definition sample_position :: "string \<Rightarrow> Side \<Rightarrow> int \<Rightarrow> OpeningPosition" where
  "sample_position k s v =
     \<lparr>op_account = System_account k, op_side = s, op_baseAmountMinor = v, op_baseCurrency = ''ils'', op_txnAmountMinor = v,
      op_txnCurrency = ''ILS'', op_fxRate = ''1'', op_fxRateSource = ''base'', op_fxRateAt = midnight ''2024-01-01'', op_memo = None\<rparr>"

theorem opening_balance_derived_witness:
  "accountMovement (System_account OPENING_EQUITY_SYSTEM_KEY) pl_baseAmountMinor
     (map positionLine [sample_position ''cash'' Side_D 900, sample_position ''accounts_payable'' Side_C 250]
      @ [plugLine \<lparr>oe_amountMinor = 650, oe_side = Side_C\<rparr> ''ILS'' ''2024-01-01'']) = - 650"
proof -
  have "deriveOpeningBalanceLines [sample_position ''cash'' Side_D 900, sample_position ''accounts_payable'' Side_C 250] ''ILS'' ''2024-01-01''
     = Inr (map positionLine [sample_position ''cash'' Side_D 900, sample_position ''accounts_payable'' Side_C 250]
      @ [plugLine \<lparr>oe_amountMinor = 650, oe_side = Side_C\<rparr> ''ILS'' ''2024-01-01''])" by code_simp
  from opening_balance_derived [OF this] show ?thesis by (simp add: positionsNet_def sample_position_def)
qed

end
