(* ===== verification/Sale_Posting.thy ===== *)
theory Sale_Posting
  imports Posting Allocation
begin

text \<open>
  packages/accounting/src/sale-posting.ts: the two journal entries of a confirmed sale, the
  base shares of its invoice lines and the assertions its commit presents. A line number is
  an integer; \<open>sort\<close> by line number is stable, \<open>sort_key\<close>.

  \<open>splitBaseByLargestRemainder\<close> restates the inventory package's split, under the money cap
  and with its own refusals; it interprets the same locale \<open>allocator\<close>. The lemmas show that
  an accepted sale posts two balanced entries of positive lines, that the entries pass the
  posting engine's validation whenever the invoice's base total is the exact conversion, and
  that the shares of the lines add up to it.
\<close>

subsection \<open>The facts\<close>

datatype SaleSettlementKind = Settle_cash | Settle_credit

record SaleFxSnapshot =
  sx_sourceToBaseRate :: string
  sx_rateSource :: string
  sx_rateTimestamp :: instant

record SaleInvoiceLineFacts =
  il_lineNo :: int
  il_netTxnMinor :: int
  il_taxMinor :: int

record SaleInvoiceFacts =
  si_tenantId :: string
  si_businessId :: string
  si_invoiceId :: string
  si_issueDate :: string
  si_branchId :: string
  si_customerId :: "string option"
  si_settlementKind :: SaleSettlementKind
  si_settlementAccount :: "AccountRef option"
  si_currencyCode :: string
  si_baseCurrency :: string
  si_subtotalTxnMinor :: int
  si_discountTxnMinor :: int
  si_taxMinor :: int
  si_totalTxnMinor :: int
  si_totalBaseMinor :: int
  si_fx :: SaleFxSnapshot
  si_lines :: "SaleInvoiceLineFacts list"

record SaleMovementFacts =
  sm_sourceLineId :: string
  sm_valueDeltaBaseMinor :: int

record SaleCogsFacts =
  sc_tenantId :: string
  sc_businessId :: string
  sc_saleId :: string
  sc_soldOn :: string
  sc_branchId :: string
  sc_warehouseId :: string
  sc_baseCurrency :: string
  sc_movements :: "SaleMovementFacts list"

definition SALE_SOURCE_TYPE :: string where "SALE_SOURCE_TYPE = ''sale''"
definition INVOICE_SOURCE_TYPE :: string where "INVOICE_SOURCE_TYPE = ''invoice''"
definition SALE_REVENUE_SYSTEM_KEY :: string where "SALE_REVENUE_SYSTEM_KEY = ''sales_revenue''"
definition SALE_RECEIVABLE_SYSTEM_KEY :: string where "SALE_RECEIVABLE_SYSTEM_KEY = ''accounts_receivable''"
definition SALE_COGS_SYSTEM_KEY :: string where "SALE_COGS_SYSTEM_KEY = ''cogs''"
definition SALE_INVENTORY_SYSTEM_KEY :: string where "SALE_INVENTORY_SYSTEM_KEY = ''inventory''"

definition SALE_SETTLEMENT_SYSTEM_KEYS :: "string list" where
  "SALE_SETTLEMENT_SYSTEM_KEYS = [''cash'', ''bank'', ''card_clearing'', ''wallet_clearing'', ''cheque_clearing'']"

lemmas sale_keys = SALE_SOURCE_TYPE_def INVOICE_SOURCE_TYPE_def SALE_REVENUE_SYSTEM_KEY_def SALE_RECEIVABLE_SYSTEM_KEY_def
  SALE_COGS_SYSTEM_KEY_def SALE_INVENTORY_SYSTEM_KEY_def SALE_SETTLEMENT_SYSTEM_KEYS_def

definition sale_assertMinor :: "int \<Rightarrow> int result" where
  "sale_assertMinor v = (if v < 0 \<or> MAX_MONEY_MINOR < v then posting_invalid else Inr v)"

lemma sale_assertMinor_eq_Inr [result_simps]:
  "sale_assertMinor v = Inr w \<longleftrightarrow> 0 \<le> v \<and> v \<le> MAX_MONEY_MINOR \<and> w = v"
  by (auto simp: sale_assertMinor_def)

definition assertSalesTaxStructurallyZero :: "int \<Rightarrow> SaleInvoiceLineFacts list \<Rightarrow> unit result" where
  "assertSalesTaxStructurallyZero taxMinor ls =
     (if taxMinor \<noteq> 0 then refuse (AccountingError accounting_sales_tax_unsupported)
      else if list_ex (\<lambda>l. il_taxMinor l \<noteq> 0) ls then refuse (AccountingError accounting_sales_tax_unsupported)
      else Inr ())"

subsection \<open>The base split\<close>

definition splitBaseByLargestRemainder :: "int \<Rightarrow> int list \<Rightarrow> int list result" where
  "splitBaseByLargestRemainder totalBaseMinor lineTxnMinor =
     bindR (sale_assertMinor totalBaseMinor) (\<lambda>_.
       if lineTxnMinor = [] then posting_invalid
       else bindR (mapR sale_assertMinor lineTxnMinor) (\<lambda>_.
         let s = foldl (+) 0 lineTxnMinor
         in if s = 0
            then if totalBaseMinor \<noteq> 0 then posting_invalid else Inr (map (\<lambda>_. 0) lineTxnMinor)
            else let shares = map (\<lambda>t. (totalBaseMinor * t) sdiv s) lineTxnMinor;
                     remainders = map (\<lambda>t. (totalBaseMinor * t) smod s) lineTxnMinor;
                     residue = totalBaseMinor - foldl (+) 0 shares;
                     (shares', residue') = giveOut (remainderOrder remainders) shares residue
                 in if residue' \<noteq> 0 then posting_invalid else Inr shares'))"

subsection \<open>The revenue entry\<close>

definition saleLine ::
  "AccountRef \<Rightarrow> Side \<Rightarrow> int \<Rightarrow> string \<Rightarrow> int \<Rightarrow> string \<Rightarrow> SaleFxSnapshot \<Rightarrow> string option \<Rightarrow> string option \<Rightarrow> PostingLineCommand" where
  "saleLine account side baseAmountMinor baseCurrency txnAmountMinor txnCurrency fx branchId warehouseId =
     \<lparr>pl_account = account, pl_side = side, pl_baseAmountMinor = baseAmountMinor,
      pl_baseCurrency = toUpperCase baseCurrency, pl_txnAmountMinor = txnAmountMinor,
      pl_txnCurrency = toUpperCase txnCurrency, pl_fxRate = sx_sourceToBaseRate fx,
      pl_fxRateSource = sx_rateSource fx, pl_fxRateAt = sx_rateTimestamp fx, pl_branchId = branchId,
      pl_warehouseId = warehouseId, pl_memo = None\<rparr>"

definition saleInvoiceDebitAccount :: "SaleSettlementKind \<Rightarrow> AccountRef option \<Rightarrow> string option \<Rightarrow> AccountRef result" where
  "saleInvoiceDebitAccount settlementKind settlementAccount customerId =
     (if settlementKind = Settle_cash
      then case settlementAccount of
             None \<Rightarrow> posting_invalid
           | Some (Code_account c) \<Rightarrow> posting_invalid
           | Some (System_account k) \<Rightarrow>
               if k \<notin> set SALE_SETTLEMENT_SYSTEM_KEYS then posting_invalid else Inr (System_account k)
      else if settlementAccount \<noteq> None then posting_invalid
      else if customerId = None then posting_invalid
      else Inr (System_account SALE_RECEIVABLE_SYSTEM_KEY))"

text \<open>\<open>facts.lines.reduce((a, l) => a + assertMinor(l.netTxnMinor, ...), 0n)\<close>\<close>

fun sumNets :: "SaleInvoiceLineFacts list \<Rightarrow> int \<Rightarrow> int result" where
  "sumNets [] a = Inr a"
| "sumNets (l # ls) a = bindR (sale_assertMinor (il_netTxnMinor l)) (\<lambda>v. sumNets ls (a + v))"

definition deriveSaleInvoiceEntryLines :: "SaleInvoiceFacts \<Rightarrow> PostingLineCommand list result" where
  "deriveSaleInvoiceEntryLines f =
     bindR (assertSalesTaxStructurallyZero (si_taxMinor f) (si_lines f)) (\<lambda>_.
     bindR (sale_assertMinor (si_subtotalTxnMinor f)) (\<lambda>_.
     bindR (sale_assertMinor (si_discountTxnMinor f)) (\<lambda>_.
       if si_subtotalTxnMinor f < si_discountTxnMinor f then posting_invalid
       else if si_totalTxnMinor f \<noteq> si_subtotalTxnMinor f - si_discountTxnMinor f + si_taxMinor f then posting_invalid
       else if si_totalTxnMinor f \<le> 0 \<or> MAX_MONEY_MINOR < si_totalTxnMinor f then posting_invalid
       else if si_totalBaseMinor f \<le> 0 \<or> MAX_MONEY_MINOR < si_totalBaseMinor f then posting_invalid
       else if si_lines f = [] then posting_invalid
       else bindR (sumNets (si_lines f) 0) (\<lambda>lineSum.
         if lineSum \<noteq> si_totalTxnMinor f then posting_invalid
         else bindR (saleInvoiceDebitAccount (si_settlementKind f) (si_settlementAccount f) (si_customerId f)) (\<lambda>debit.
           Inr [saleLine debit Side_D (si_totalBaseMinor f) (si_baseCurrency f) (si_totalTxnMinor f) (si_currencyCode f)
                  (si_fx f) (Some (si_branchId f)) None,
                saleLine (System_account SALE_REVENUE_SYSTEM_KEY) Side_C (si_totalBaseMinor f) (si_baseCurrency f)
                  (si_totalTxnMinor f) (si_currencyCode f) (si_fx f) (Some (si_branchId f)) None])))))"

record SaleInvoiceBaseShare =
  bs_lineNo :: int
  bs_shareMinor :: int

fun adjacentEqual :: "int list \<Rightarrow> bool" where
  "adjacentEqual (a # b # xs) = (b = a \<or> adjacentEqual (b # xs))"
| "adjacentEqual xs = False"

definition deriveSaleInvoiceBaseShares :: "int \<Rightarrow> SaleInvoiceLineFacts list \<Rightarrow> SaleInvoiceBaseShare list result" where
  "deriveSaleInvoiceBaseShares totalBaseMinor ls =
     (let ordered = sort_key il_lineNo ls
      in if adjacentEqual (map il_lineNo ordered) then posting_invalid
         else bindR (splitBaseByLargestRemainder totalBaseMinor (map il_netTxnMinor ordered)) (\<lambda>shares.
           if foldl (+) 0 shares \<noteq> totalBaseMinor then posting_invalid
           else Inr (map (\<lambda>(l, s). \<lparr>bs_lineNo = il_lineNo l, bs_shareMinor = s\<rparr>) (zip ordered shares))))"

subsection \<open>The COGS entry\<close>

fun releasedValue :: "SaleMovementFacts list \<Rightarrow> int \<Rightarrow> int result" where
  "releasedValue [] tot = Inr tot"
| "releasedValue (m # ms) tot =
     (if 0 < sm_valueDeltaBaseMinor m then posting_invalid else releasedValue ms (tot - sm_valueDeltaBaseMinor m))"

definition saleCogsReleasedBaseMinor :: "SaleCogsFacts \<Rightarrow> int result" where
  "saleCogsReleasedBaseMinor f =
     (if sc_movements f = [] then posting_invalid
      else bindR (releasedValue (sc_movements f) 0) (\<lambda>tot.
        if MAX_MONEY_MINOR < tot then posting_invalid else Inr tot))"

definition deriveSaleCogsEntryLines :: "SaleCogsFacts \<Rightarrow> PostingLineCommand list option result" where
  "deriveSaleCogsEntryLines f =
     bindR (saleCogsReleasedBaseMinor f) (\<lambda>tot.
       if tot = 0 then Inr None
       else bindR (canonicalDate (sc_soldOn f)) (\<lambda>date.
         let fx = \<lparr>sx_sourceToBaseRate = ''1.0000000000'', sx_rateSource = ''base'', sx_rateTimestamp = midnight date\<rparr>
         in Inr (Some
              [saleLine (System_account SALE_COGS_SYSTEM_KEY) Side_D tot (sc_baseCurrency f) tot (sc_baseCurrency f) fx
                 (Some (sc_branchId f)) (Some (sc_warehouseId f)),
               saleLine (System_account SALE_INVENTORY_SYSTEM_KEY) Side_C tot (sc_baseCurrency f) tot (sc_baseCurrency f) fx
                 (Some (sc_branchId f)) (Some (sc_warehouseId f))])))"

subsection \<open>The postings of a commit\<close>

definition computeSaleCogsFingerprint :: "(string \<Rightarrow> string) \<Rightarrow> SaleCogsFacts \<Rightarrow> PostingLineCommand list \<Rightarrow> string result" where
  "computeSaleCogsFingerprint sha256 f ls = bindR (canonicalDate (sc_soldOn f)) (\<lambda>date.
     computeFingerprint sha256
       \<lparr>ch_tenantId = sc_tenantId f, ch_businessId = sc_businessId f, ch_sourceType = SALE_SOURCE_TYPE,
        ch_sourceId = sc_saleId f, ch_entryDate = date\<rparr> (map toCanonical ls))"

definition computeSaleInvoiceFingerprint :: "(string \<Rightarrow> string) \<Rightarrow> SaleInvoiceFacts \<Rightarrow> PostingLineCommand list \<Rightarrow> string result" where
  "computeSaleInvoiceFingerprint sha256 f ls = bindR (canonicalDate (si_issueDate f)) (\<lambda>date.
     computeFingerprint sha256
       \<lparr>ch_tenantId = si_tenantId f, ch_businessId = si_businessId f, ch_sourceType = INVOICE_SOURCE_TYPE,
        ch_sourceId = si_invoiceId f, ch_entryDate = date\<rparr> (map toCanonical ls))"

record SalePosting =
  sp_sourceType :: string
  sp_sourceId :: string
  sp_entryDate :: string
  sp_lines :: "PostingLineCommand list"
  sp_fingerprint :: string

record SaleCommitPostings =
  cp_cogs :: "SalePosting option"
  cp_revenue :: SalePosting
  cp_baseShares :: "SaleInvoiceBaseShare list"

definition cogsPosting :: "(string \<Rightarrow> string) \<Rightarrow> SaleCogsFacts \<Rightarrow> PostingLineCommand list option \<Rightarrow> SalePosting option result" where
  "cogsPosting sha256 f cogsLines = (case cogsLines of
       None \<Rightarrow> Inr None
     | Some ls \<Rightarrow>
         bindR (canonicalDate (sc_soldOn f)) (\<lambda>date.
         bindR (computeSaleCogsFingerprint sha256 f ls) (\<lambda>fingerprint.
           Inr (Some \<lparr>sp_sourceType = SALE_SOURCE_TYPE, sp_sourceId = sc_saleId f, sp_entryDate = date,
                      sp_lines = ls, sp_fingerprint = fingerprint\<rparr>))))"

definition deriveSaleCommitPostings :: "(string \<Rightarrow> string) \<Rightarrow> SaleInvoiceFacts \<Rightarrow> SaleCogsFacts \<Rightarrow> SaleCommitPostings result" where
  "deriveSaleCommitPostings sha256 invoice cogs =
     (if si_businessId invoice \<noteq> sc_businessId cogs \<or> si_tenantId invoice \<noteq> sc_tenantId cogs then posting_invalid
      else bindR (canonicalDate (si_issueDate invoice)) (\<lambda>issued. bindR (canonicalDate (sc_soldOn cogs)) (\<lambda>sold.
        if issued \<noteq> sold then posting_invalid
        else if si_branchId invoice \<noteq> sc_branchId cogs then posting_invalid
        else bindR (deriveSaleCogsEntryLines cogs) (\<lambda>cogsLines.
             bindR (deriveSaleInvoiceEntryLines invoice) (\<lambda>revenueLines.
             bindR (cogsPosting sha256 cogs cogsLines) (\<lambda>cogsP.
             bindR (computeSaleInvoiceFingerprint sha256 invoice revenueLines) (\<lambda>fingerprint.
             bindR (deriveSaleInvoiceBaseShares (si_totalBaseMinor invoice) (si_lines invoice)) (\<lambda>shares.
               Inr \<lparr>cp_cogs = cogsP,
                    cp_revenue = \<lparr>sp_sourceType = INVOICE_SOURCE_TYPE, sp_sourceId = si_invoiceId invoice,
                      sp_entryDate = issued, sp_lines = revenueLines, sp_fingerprint = fingerprint\<rparr>,
                    cp_baseShares = shares\<rparr>))))))))"

definition saleClaims :: "SaleInvoiceFacts \<Rightarrow> string \<Rightarrow> string \<Rightarrow> SalePosting \<Rightarrow> AccountingAssertionClaims" where
  "saleClaims invoice actor sourceType p =
     \<lparr>ac_actorUserId = actor, ac_tenantId = si_tenantId invoice, ac_businessId = si_businessId invoice,
      ac_operationKind = Op_post, ac_sourceType = sourceType, ac_sourceId = sp_sourceId p,
      ac_postingFingerprint = sp_fingerprint p\<rparr>"

text \<open>The assertions, in the order they are minted and presented.\<close>

definition mintSaleCommitAssertions ::
  "(AccountingAssertionClaims \<Rightarrow> string result) \<Rightarrow> SaleCommitPostings \<Rightarrow> SaleInvoiceFacts \<Rightarrow> string \<Rightarrow> string list result" where
  "mintSaleCommitAssertions mint postings invoice actorUserId =
     (case cp_cogs postings of
        None \<Rightarrow> bindR (mint (saleClaims invoice actorUserId INVOICE_SOURCE_TYPE (cp_revenue postings))) (\<lambda>a. Inr [a])
      | Some c \<Rightarrow> bindR (mint (saleClaims invoice actorUserId SALE_SOURCE_TYPE c)) (\<lambda>a.
                  bindR (mint (saleClaims invoice actorUserId INVOICE_SOURCE_TYPE (cp_revenue postings))) (\<lambda>b. Inr [a, b])))"

subsection \<open>The split is the inventory package's split\<close>

lemma mapR_sale_assertMinor:
  "mapR sale_assertMinor ws = Inr vs \<longleftrightarrow> vs = ws \<and> list_all (\<lambda>w. 0 \<le> w \<and> w \<le> MAX_MONEY_MINOR) ws"
proof (induction ws arbitrary: vs)
  case (Cons w ws)
  then show ?case by (auto simp: bindR_eq_Inr sale_assertMinor_eq_Inr)
qed auto

lemma splitBase_split:
  "splitBaseByLargestRemainder t ws = Inr ss \<longleftrightarrow>
     largestRemainderInts t ws = Inr ss \<and> t \<le> MAX_MONEY_MINOR \<and> list_all (\<lambda>w. w \<le> MAX_MONEY_MINOR) ws"
proof (cases "0 \<le> t \<and> t \<le> MAX_MONEY_MINOR \<and> ws \<noteq> [] \<and> list_all (\<lambda>w. 0 \<le> w \<and> w \<le> MAX_MONEY_MINOR) ws")
  case True
  then have "list_all (\<lambda>w. 0 \<le> w) ws" "list_all (\<lambda>w. w \<le> MAX_MONEY_MINOR) ws" by (auto simp: list_all_iff)
  moreover have "mapR sale_assertMinor ws = Inr ws" "sale_assertMinor t = Inr t"
    using True by (auto simp: mapR_sale_assertMinor sale_assertMinor_eq_Inr)
  ultimately show ?thesis using True
    by (simp add: splitBaseByLargestRemainder_def largestRemainderInts_alt splitUnits_def foldl_plus_sum_list Let_def
        case_prod_beta)
next
  case False
  have "splitBaseByLargestRemainder t ws \<noteq> Inr ss"
    using False by (auto simp: splitBaseByLargestRemainder_def bindR_eq_Inr sale_assertMinor_eq_Inr mapR_sale_assertMinor if_refuse_eq_Inr)
  moreover have "\<not> (largestRemainderInts t ws = Inr ss \<and> t \<le> MAX_MONEY_MINOR \<and> list_all (\<lambda>w. w \<le> MAX_MONEY_MINOR) ws)"
    using False by (auto simp: largestRemainderInts_alt list_all_iff split: if_splits)
  ultimately show ?thesis by blast
qed

definition base_admits :: "int \<Rightarrow> int list \<Rightarrow> bool" where
  "base_admits t ws \<longleftrightarrow> split_admits t ws \<and> t \<le> MAX_MONEY_MINOR \<and> list_all (\<lambda>w. w \<le> MAX_MONEY_MINOR) ws"

interpretation sb: allocator splitBaseByLargestRemainder base_admits
proof (unfold_locales, unfold splitBase_split, goal_cases)
  case (1 t ws ss)
  then show ?case by (blast intro: lr.split_sum)
next
  case (2 t ws ss)
  then show ?case by (blast intro: lr.split_length)
next
  case (3 t ws ss i)
  then show ?case by (blast intro: lr.split_nonneg)
next
  case (4 t ws ss i)
  then show ?case by (blast intro: lr.split_quota)
next
  case (5 t ws ss i)
  then show ?case by (blast intro: lr.split_zero)
next
  case (6 t ws)
  then show ?case using lr.split_defined [of t ws] by (auto simp: base_admits_def)
qed

subsection \<open>The entries\<close>

lemma sumNets_eq_Inr:
  "sumNets ls a = Inr v \<longleftrightarrow> list_all (\<lambda>l. 0 \<le> il_netTxnMinor l \<and> il_netTxnMinor l \<le> MAX_MONEY_MINOR) ls
     \<and> v = a + sum_list (map il_netTxnMinor ls)"
proof (induction ls arbitrary: a)
  case (Cons l ls)
  show ?case by (simp add: bindR_eq_Inr sale_assertMinor_eq_Inr Cons add.assoc conj_assoc)
qed auto

lemma assertSalesTax_eq_Inr:
  "assertSalesTaxStructurallyZero t ls = Inr () \<longleftrightarrow> t = 0 \<and> list_all (\<lambda>l. il_taxMinor l = 0) ls"
  by (auto simp: assertSalesTaxStructurallyZero_def list_all_iff list_ex_iff)

definition invoice_sound :: "SaleInvoiceFacts \<Rightarrow> bool" where
  "invoice_sound f \<longleftrightarrow> si_taxMinor f = 0 \<and> list_all (\<lambda>l. il_taxMinor l = 0) (si_lines f)
     \<and> 0 \<le> si_subtotalTxnMinor f \<and> si_subtotalTxnMinor f \<le> MAX_MONEY_MINOR
     \<and> 0 \<le> si_discountTxnMinor f \<and> si_discountTxnMinor f \<le> si_subtotalTxnMinor f
     \<and> si_totalTxnMinor f = si_subtotalTxnMinor f - si_discountTxnMinor f \<and> 0 < si_totalTxnMinor f
     \<and> 0 < si_totalBaseMinor f \<and> si_totalBaseMinor f \<le> MAX_MONEY_MINOR
     \<and> list_all (\<lambda>l. 0 \<le> il_netTxnMinor l \<and> il_netTxnMinor l \<le> MAX_MONEY_MINOR) (si_lines f)
     \<and> sum_list (map il_netTxnMinor (si_lines f)) = si_totalTxnMinor f"

definition revenueEntry :: "SaleInvoiceFacts \<Rightarrow> AccountRef \<Rightarrow> PostingLineCommand list" where
  "revenueEntry f debit =
     [saleLine debit Side_D (si_totalBaseMinor f) (si_baseCurrency f) (si_totalTxnMinor f) (si_currencyCode f)
        (si_fx f) (Some (si_branchId f)) None,
      saleLine (System_account SALE_REVENUE_SYSTEM_KEY) Side_C (si_totalBaseMinor f) (si_baseCurrency f)
        (si_totalTxnMinor f) (si_currencyCode f) (si_fx f) (Some (si_branchId f)) None]"

lemma deriveSaleInvoiceEntryLines_eq_Inr:
  "deriveSaleInvoiceEntryLines f = Inr ls \<longleftrightarrow> invoice_sound f
     \<and> (\<exists>debit. saleInvoiceDebitAccount (si_settlementKind f) (si_settlementAccount f) (si_customerId f) = Inr debit
          \<and> ls = revenueEntry f debit)"
proof (cases "invoice_sound f")
  case True
  then have "sumNets (si_lines f) 0 = Inr (si_totalTxnMinor f)" "assertSalesTaxStructurallyZero (si_taxMinor f) (si_lines f) = Inr ()"
    "sale_assertMinor (si_subtotalTxnMinor f) = Inr (si_subtotalTxnMinor f)"
    "sale_assertMinor (si_discountTxnMinor f) = Inr (si_discountTxnMinor f)"
    by (auto simp: invoice_sound_def sumNets_eq_Inr assertSalesTax_eq_Inr sale_assertMinor_eq_Inr)
  moreover have "si_lines f \<noteq> []" "si_totalTxnMinor f \<le> MAX_MONEY_MINOR" using True by (auto simp: invoice_sound_def)
  ultimately show ?thesis using True
    by (auto simp: deriveSaleInvoiceEntryLines_def bindR_eq_Inr invoice_sound_def revenueEntry_def)
next
  case False
  have "invoice_sound f" if "deriveSaleInvoiceEntryLines f = Inr ls"
  proof -
    have "assertSalesTaxStructurallyZero (si_taxMinor f) (si_lines f) = Inr ()" "sumNets (si_lines f) 0 = Inr (si_totalTxnMinor f)"
      "sale_assertMinor (si_subtotalTxnMinor f) \<noteq> Inl (AccountingError accounting_payload_invalid)"
      "sale_assertMinor (si_discountTxnMinor f) \<noteq> Inl (AccountingError accounting_payload_invalid)"
      "\<not> si_subtotalTxnMinor f < si_discountTxnMinor f"
      "si_totalTxnMinor f = si_subtotalTxnMinor f - si_discountTxnMinor f + si_taxMinor f" "0 < si_totalTxnMinor f"
      "0 < si_totalBaseMinor f" "si_totalBaseMinor f \<le> MAX_MONEY_MINOR"
      using that by (auto simp: deriveSaleInvoiceEntryLines_def bindR_def split: sum.splits if_splits)
    then show ?thesis by (auto simp: invoice_sound_def sumNets_eq_Inr assertSalesTax_eq_Inr sale_assertMinor_def split: if_splits)
  qed
  with False show ?thesis by blast
qed

lemma saleInvoiceDebitAccount_eq_Inr:
  "saleInvoiceDebitAccount Settle_cash a c = Inr d \<longleftrightarrow>
     (\<exists>key \<in> set SALE_SETTLEMENT_SYSTEM_KEYS. a = Some (System_account key) \<and> d = System_account key)"
  "saleInvoiceDebitAccount Settle_credit a c = Inr d \<longleftrightarrow>
     a = None \<and> c \<noteq> None \<and> d = System_account SALE_RECEIVABLE_SYSTEM_KEY"
  by (auto simp: saleInvoiceDebitAccount_def if_refuse_eq_Inr split: option.splits AccountRef.splits)

lemma releasedValue_eq_Inr:
  "releasedValue ms t = Inr v \<longleftrightarrow> list_all (\<lambda>m. sm_valueDeltaBaseMinor m \<le> 0) ms \<and> v = t - sum_list (map sm_valueDeltaBaseMinor ms)"
proof (induction ms arbitrary: t)
  case (Cons m ms)
  show ?case by (simp add: if_refuse_eq_Inr Cons not_less conj_assoc algebra_simps)
qed auto

definition releasedStock :: "SaleCogsFacts \<Rightarrow> int" where
  "releasedStock f = - sum_list (map sm_valueDeltaBaseMinor (sc_movements f))"

lemma saleCogsReleased_eq_Inr [result_simps]:
  "saleCogsReleasedBaseMinor f = Inr v \<longleftrightarrow> sc_movements f \<noteq> [] \<and> list_all (\<lambda>m. sm_valueDeltaBaseMinor m \<le> 0) (sc_movements f)
     \<and> releasedStock f \<le> MAX_MONEY_MINOR \<and> v = releasedStock f"
  by (auto simp: saleCogsReleasedBaseMinor_def bindR_eq_Inr releasedValue_eq_Inr releasedStock_def)

lemma releasedStock_nonneg:
  assumes "list_all (\<lambda>m. sm_valueDeltaBaseMinor m \<le> 0) (sc_movements f)" shows "0 \<le> releasedStock f"
proof -
  have "list_all (\<lambda>m. sm_valueDeltaBaseMinor m \<le> 0) ms \<Longrightarrow> sum_list (map sm_valueDeltaBaseMinor ms) \<le> 0" for ms
    by (induction ms) auto
  with assms show ?thesis by (simp add: releasedStock_def)
qed

definition cogsEntry :: "SaleCogsFacts \<Rightarrow> string \<Rightarrow> PostingLineCommand list" where
  "cogsEntry f date =
     (let fx = \<lparr>sx_sourceToBaseRate = ''1.0000000000'', sx_rateSource = ''base'', sx_rateTimestamp = midnight date\<rparr>; t = releasedStock f
      in [saleLine (System_account SALE_COGS_SYSTEM_KEY) Side_D t (sc_baseCurrency f) t (sc_baseCurrency f) fx
            (Some (sc_branchId f)) (Some (sc_warehouseId f)),
          saleLine (System_account SALE_INVENTORY_SYSTEM_KEY) Side_C t (sc_baseCurrency f) t (sc_baseCurrency f) fx
            (Some (sc_branchId f)) (Some (sc_warehouseId f))])"

lemma deriveSaleCogsEntryLines_eq_Inr:
  "deriveSaleCogsEntryLines f = Inr r \<longleftrightarrow> sc_movements f \<noteq> []
     \<and> list_all (\<lambda>m. sm_valueDeltaBaseMinor m \<le> 0) (sc_movements f) \<and> releasedStock f \<le> MAX_MONEY_MINOR
     \<and> (if releasedStock f = 0 then r = None
        else \<exists>date. canonicalDate (sc_soldOn f) = Inr date \<and> r = Some (cogsEntry f date))"
proof (cases "releasedStock f = 0")
  case True
  then show ?thesis by (auto simp: deriveSaleCogsEntryLines_def bindR_eq_Inr saleCogsReleased_eq_Inr)
next
  case False
  then show ?thesis
    by (auto simp: deriveSaleCogsEntryLines_def bindR_eq_Inr saleCogsReleased_eq_Inr cogsEntry_def Let_def)
qed

subsection \<open>The base shares\<close>

lemma adjacentEqual_sorted: "sorted xs \<Longrightarrow> adjacentEqual xs \<longleftrightarrow> \<not> distinct xs"
  by (induction xs rule: adjacentEqual.induct) auto

lemma deriveSaleInvoiceBaseShares_eq_Inr:
  "deriveSaleInvoiceBaseShares t ls = Inr bs \<longleftrightarrow> distinct (map il_lineNo ls)
     \<and> (\<exists>ss. splitBaseByLargestRemainder t (map il_netTxnMinor (sort_key il_lineNo ls)) = Inr ss
          \<and> bs = map (\<lambda>(l, s). \<lparr>bs_lineNo = il_lineNo l, bs_shareMinor = s\<rparr>) (zip (sort_key il_lineNo ls) ss))"
proof -
  have "adjacentEqual (map il_lineNo (sort_key il_lineNo ls)) \<longleftrightarrow> \<not> distinct (map il_lineNo (sort_key il_lineNo ls))"
    by (rule adjacentEqual_sorted) simp
  moreover have "distinct (map il_lineNo (sort_key il_lineNo ls)) \<longleftrightarrow> distinct (map il_lineNo ls)"
    by (intro mset_eq_imp_distinct_iff) simp
  ultimately have d: "adjacentEqual (map il_lineNo (sort_key il_lineNo ls)) \<longleftrightarrow> \<not> distinct (map il_lineNo ls)" by simp
  show ?thesis
    unfolding deriveSaleInvoiceBaseShares_def Let_def d bindR_eq_Inr if_refuse_eq_Inr foldl_plus_sum_list
    using sb.split_sum by (auto simp: eq_commute)
qed

lemma baseShares_sum:
  assumes "deriveSaleInvoiceBaseShares t ls = Inr bs"
  shows "sum_list (map bs_shareMinor bs) = t" "list_all (\<lambda>b. 0 \<le> bs_shareMinor b) bs"
    "map bs_lineNo bs = sort (map il_lineNo ls)" "distinct (map bs_lineNo bs)"
proof -
  let ?o = "sort_key il_lineNo ls"
  obtain ss where d: "distinct (map il_lineNo ls)" and ss: "splitBaseByLargestRemainder t (map il_netTxnMinor ?o) = Inr ss"
    and bs: "bs = map (\<lambda>(l, s). \<lparr>bs_lineNo = il_lineNo l, bs_shareMinor = s\<rparr>) (zip ?o ss)"
    using assms by (auto simp: deriveSaleInvoiceBaseShares_eq_Inr)
  have len: "length ss = length ?o" using sb.split_length [OF ss] by simp
  have sh: "map bs_shareMinor bs = ss" using len by (simp add: bs comp_def case_prod_beta)
  with sb.split_sum [OF ss] show "sum_list (map bs_shareMinor bs) = t" by simp
  have "\<forall>x \<in> set (map bs_shareMinor bs). 0 \<le> x" unfolding sh using sb.split_all_nonneg [OF ss] by blast
  then show "list_all (\<lambda>b. 0 \<le> bs_shareMinor b) bs" by (simp add: list_all_iff)
  have "map bs_lineNo bs = map il_lineNo (map fst (zip ?o ss))" by (simp add: bs case_prod_beta)
  then have "map bs_lineNo bs = map il_lineNo ?o" using len by simp
  also have "\<dots> = sort (map il_lineNo ls)" by (rule properties_for_sort [symmetric]) simp_all
  finally show e: "map bs_lineNo bs = sort (map il_lineNo ls)" .
  show "distinct (map bs_lineNo bs)" using d by (simp add: e)
qed

subsection \<open>The postings\<close>

lemma deriveSaleCommitPostings_Inr:
  assumes "deriveSaleCommitPostings sha i cogs = Inr p"
  obtains date cl rl where "canonicalDate (si_issueDate i) = Inr date" "canonicalDate (sc_soldOn cogs) = Inr date"
    "deriveSaleCogsEntryLines cogs = Inr cl" "cogsPosting sha cogs cl = Inr (cp_cogs p)"
    "deriveSaleInvoiceEntryLines i = Inr rl" "sp_lines (cp_revenue p) = rl" "sp_entryDate (cp_revenue p) = date"
    "deriveSaleInvoiceBaseShares (si_totalBaseMinor i) (si_lines i) = Inr (cp_baseShares p)"
    "computeSaleInvoiceFingerprint sha i rl = Inr (sp_fingerprint (cp_revenue p))" "sp_sourceId (cp_revenue p) = si_invoiceId i"
  using assms by (auto simp: deriveSaleCommitPostings_def bindR_eq_Inr if_refuse_eq_Inr)

lemma cogsPosting_lines:
  assumes "cogsPosting sha f cl = Inr c" shows "map_option sp_lines c = cl"
  using assms by (auto simp: cogsPosting_def bindR_eq_Inr split: option.splits)

lemma cogsPosting_date:
  "cogsPosting sha f cl = Inr (Some c) \<Longrightarrow> canonicalDate (sc_soldOn f) = Inr (sp_entryDate c)"
  by (auto simp: cogsPosting_def bindR_eq_Inr split: option.splits)

lemma saleLine_sel [simp]:
  "pl_account (saleLine a s b bc t tc fx br wh) = a" "pl_side (saleLine a s b bc t tc fx br wh) = s"
  "pl_baseAmountMinor (saleLine a s b bc t tc fx br wh) = b" "pl_txnAmountMinor (saleLine a s b bc t tc fx br wh) = t"
  "lineConversion (saleLine a s b bc t tc fx br wh) = \<lparr>fc_txnAmountMinor = t, fc_txnCurrency = toUpperCase tc,
     fc_baseCurrency = toUpperCase bc, fc_fxRate = sx_sourceToBaseRate fx\<rparr>"
  "pl_fxRateSource (saleLine a s b bc t tc fx br wh) = sx_rateSource fx"
  "pl_txnCurrency (saleLine a s b bc t tc fx br wh) = toUpperCase tc" "pl_baseCurrency (saleLine a s b bc t tc fx br wh) = toUpperCase bc"
  by (simp_all add: saleLine_def lineConversion_def)

lemma cogsEntry_movement:
  "accountMovement (System_account SALE_INVENTORY_SYSTEM_KEY) pl_baseAmountMinor (cogsEntry f d) = - releasedStock f"
  "accountMovement (System_account SALE_COGS_SYSTEM_KEY) pl_baseAmountMinor (cogsEntry f d) = releasedStock f"
  by (simp_all add: cogsEntry_def accountMovement_def sale_keys Let_def)

lemma revenueEntry_movement:
  assumes "saleInvoiceDebitAccount (si_settlementKind f) (si_settlementAccount f) (si_customerId f) = Inr debit"
  shows "accountMovement (System_account SALE_REVENUE_SYSTEM_KEY) pl_baseAmountMinor (revenueEntry f debit) = - si_totalBaseMinor f"
    "accountMovement debit pl_baseAmountMinor (revenueEntry f debit) = si_totalBaseMinor f"
proof -
  have "debit \<noteq> System_account SALE_REVENUE_SYSTEM_KEY"
    using assms by (cases "si_settlementKind f") (auto simp: saleInvoiceDebitAccount_eq_Inr sale_keys)
  then show "accountMovement (System_account SALE_REVENUE_SYSTEM_KEY) pl_baseAmountMinor (revenueEntry f debit) = - si_totalBaseMinor f"
    "accountMovement debit pl_baseAmountMinor (revenueEntry f debit) = si_totalBaseMinor f"
    by (simp_all add: revenueEntry_def accountMovement_def)
qed

text \<open>A conversion at rate one within one currency is exact.\<close>

lemma unit_conversion:
  assumes "isSupportedCurrency c" "0 < t"
  shows "convertToBaseMinor \<lparr>fc_txnAmountMinor = t, fc_txnCurrency = toUpperCase c, fc_baseCurrency = toUpperCase c,
     fc_fxRate = ''1.0000000000''\<rparr> = Inr t"
proof -
  have "canonicalRate ''1.0000000000'' = Inr ''1.0000000000''" "rateValue ''1.0000000000'' = 10 ^ 10" by code_simp+
  moreover obtain m where "minorUnitsOf (toUpperCase c) = Inr m"
    using assms(1) getCurrency_supported [of c] by (auto simp: minorUnitsOf_def)
  moreover have "halfEven (t * 10 ^ 10) (10 ^ 10) = t" using assms(2) by (simp add: halfEven_nonneg_eq Let_def)
  ultimately show ?thesis using assms(2) by (simp add: convertToBaseMinor_eq_Inr fx_pow10_def)
qed

lemma minorUnitsOf_supported: "minorUnitsOf (toUpperCase c) = Inr m \<Longrightarrow> isSupportedCurrency c"
  using getCurrency_supported [of c] by (auto simp: minorUnitsOf_def bindR_eq_Inr)

lemma cogsEntry_sound:
  assumes "deriveSaleCogsEntryLines f = Inr (Some ls)"
  shows "entry_sound ls \<longleftrightarrow> isSupportedCurrency (sc_baseCurrency f)"
proof -
  obtain d where ls: "ls = cogsEntry f d" and t: "releasedStock f \<noteq> 0" "releasedStock f \<le> MAX_MONEY_MINOR"
    "list_all (\<lambda>m. sm_valueDeltaBaseMinor m \<le> 0) (sc_movements f)"
    using assms(1) by (auto simp: deriveSaleCogsEntryLines_eq_Inr split: if_splits)
  with releasedStock_nonneg [OF t(3)] have "0 < releasedStock f" by simp
  with t have s: "entry_sound ls \<longleftrightarrow> convertToBaseMinor \<lparr>fc_txnAmountMinor = releasedStock f, fc_txnCurrency = toUpperCase (sc_baseCurrency f),
      fc_baseCurrency = toUpperCase (sc_baseCurrency f), fc_fxRate = ''1.0000000000''\<rparr> = Inr (releasedStock f)"
    by (auto simp: ls cogsEntry_def Let_def entry_sound_def line_sound_def debits_def credits_def)
  show ?thesis
  proof
    assume "entry_sound ls"
    then have "convertToBaseMinor \<lparr>fc_txnAmountMinor = releasedStock f, fc_txnCurrency = toUpperCase (sc_baseCurrency f),
      fc_baseCurrency = toUpperCase (sc_baseCurrency f), fc_fxRate = ''1.0000000000''\<rparr> = Inr (releasedStock f)" using s by blast
    then show "isSupportedCurrency (sc_baseCurrency f)"
      by (auto simp: convertToBaseMinor_eq_Inr dest: minorUnitsOf_supported)
  next
    assume "isSupportedCurrency (sc_baseCurrency f)"
    from unit_conversion [OF this \<open>0 < releasedStock f\<close>] s show "entry_sound ls" by blast
  qed
qed

text \<open>The invoice's stated rate and base total, as the document stores them.\<close>

definition invoice_fx_ok :: "SaleInvoiceFacts \<Rightarrow> bool" where
  "invoice_fx_ok f \<longleftrightarrow>
     convertToBaseMinor \<lparr>fc_txnAmountMinor = si_totalTxnMinor f, fc_txnCurrency = toUpperCase (si_currencyCode f),
        fc_baseCurrency = toUpperCase (si_baseCurrency f), fc_fxRate = sx_sourceToBaseRate (si_fx f)\<rparr> = Inr (si_totalBaseMinor f)
     \<and> (if toUpperCase (si_currencyCode f) = toUpperCase (si_baseCurrency f)
        then sx_rateSource (si_fx f) = ''base'' \<and> si_totalTxnMinor f = si_totalBaseMinor f
        else sx_rateSource (si_fx f) = ''manual'' \<or> sx_rateSource (si_fx f) = ''provider'')"

lemma revenueEntry_sound:
  assumes "deriveSaleInvoiceEntryLines f = Inr ls" shows "entry_sound ls \<longleftrightarrow> invoice_fx_ok f"
proof -
  obtain d where ls: "ls = revenueEntry f d" and i: "invoice_sound f"
    using assms(1) by (auto simp: deriveSaleInvoiceEntryLines_eq_Inr)
  from i have "0 < si_totalTxnMinor f" "si_totalTxnMinor f \<le> MAX_MONEY_MINOR" "0 < si_totalBaseMinor f" "si_totalBaseMinor f \<le> MAX_MONEY_MINOR"
    by (auto simp: invoice_sound_def)
  then show ?thesis
    by (auto simp: ls revenueEntry_def entry_sound_def line_sound_def invoice_fx_ok_def debits_def credits_def split: if_splits)
qed

subsection \<open>The recorded vectors\<close>

definition SALE_BASE_SPLIT_DRIFT_VECTOR :: "string \<times> int list \<times> int \<times> int \<times> int list \<times> int list \<times> int" where
  "SALE_BASE_SPLIT_DRIFT_VECTOR = (''1.0850000000'', [3500, 999], 4499, 4881, [3797, 1084], [3798, 1084], 1)"

definition SALE_BASE_SPLIT_AGREEMENT_VECTORS :: "(int \<times> int list \<times> int list) list" where
  "SALE_BASE_SPLIT_AGREEMENT_VECTORS =
     [(4881, [3500, 999], [3797, 1084]), (100, [1, 1, 1], [34, 33, 33]), (10, [1, 1, 1, 1], [3, 3, 2, 2]),
      (1, [1, 1], [1, 0]), (7, [0, 7], [0, 7]), (0, [5, 5], [0, 0])]"

text \<open>Both implementations give the recorded shares; a per-line conversion drifts by the recorded unit.\<close>

lemma agreement_vectors:
  "list_all (\<lambda>(t, ws, ss). splitBaseByLargestRemainder t ws = Inr ss \<and> largestRemainderInts t ws = Inr ss) SALE_BASE_SPLIT_AGREEMENT_VECTORS"
  by code_simp

lemma drift_vector:
  "(case SALE_BASE_SPLIT_DRIFT_VECTOR of (rate, txns, totalTxn, totalBase, split, perRow, drift) \<Rightarrow>
      sum_list txns = totalTxn \<and> splitBaseByLargestRemainder totalBase txns = Inr split
      \<and> halfEven (totalTxn * rateValue rate) (10 ^ 10) = totalBase
      \<and> map (\<lambda>t. halfEven (t * rateValue rate) (10 ^ 10)) txns = perRow \<and> sum_list perRow - totalBase = drift)"
  by code_simp

subsection \<open>Properties\<close>

text \<open>C15: An accepted sale posts what it owes: the revenue entry moves the base total from sales revenue to the till's
  settlement account or to the customer's receivable; the COGS entry exists exactly when stock value was released, is
  dated the same day, and moves exactly the value the stock writer recorded out of inventory into COGS; and the shares
  of the invoice lines, one for each line, add up to the base total.\<close>

theorem sale_commit_posts_what_it_owes:
  assumes "deriveSaleCommitPostings sha i cogs = Inr p"
  shows "(\<exists>debit. saleInvoiceDebitAccount (si_settlementKind i) (si_settlementAccount i) (si_customerId i) = Inr debit
        \<and> accountMovement debit pl_baseAmountMinor (sp_lines (cp_revenue p)) = si_totalBaseMinor i)
   \<and> accountMovement (System_account SALE_REVENUE_SYSTEM_KEY) pl_baseAmountMinor (sp_lines (cp_revenue p)) = - si_totalBaseMinor i
   \<and> (cp_cogs p = None \<longleftrightarrow> releasedStock cogs = 0)
   \<and> (\<forall>c. cp_cogs p = Some c \<longrightarrow> sp_entryDate c = sp_entryDate (cp_revenue p)
        \<and> accountMovement (System_account SALE_INVENTORY_SYSTEM_KEY) pl_baseAmountMinor (sp_lines c)
            = sum_list (map sm_valueDeltaBaseMinor (sc_movements cogs))
        \<and> accountMovement (System_account SALE_COGS_SYSTEM_KEY) pl_baseAmountMinor (sp_lines c) = releasedStock cogs)
   \<and> sum_list (map bs_shareMinor (cp_baseShares p)) = si_totalBaseMinor i
   \<and> map bs_lineNo (cp_baseShares p) = sort (map il_lineNo (si_lines i))"
proof -
  obtain date cl rl where d: "canonicalDate (sc_soldOn cogs) = Inr date" "sp_entryDate (cp_revenue p) = date"
    and cl: "deriveSaleCogsEntryLines cogs = Inr cl" "cogsPosting sha cogs cl = Inr (cp_cogs p)"
    and rl: "deriveSaleInvoiceEntryLines i = Inr rl" "sp_lines (cp_revenue p) = rl"
    and bs: "deriveSaleInvoiceBaseShares (si_totalBaseMinor i) (si_lines i) = Inr (cp_baseShares p)"
    using deriveSaleCommitPostings_Inr [OF assms] by metis
  obtain debit where debit: "saleInvoiceDebitAccount (si_settlementKind i) (si_settlementAccount i) (si_customerId i) = Inr debit"
    "rl = revenueEntry i debit" using rl(1) by (auto simp: deriveSaleInvoiceEntryLines_eq_Inr)
  have opt: "map_option sp_lines (cp_cogs p) = cl" using cogsPosting_lines [OF cl(2)] .
  have none: "cp_cogs p = None \<longleftrightarrow> releasedStock cogs = 0"
    using opt cl(1) by (cases "cp_cogs p") (auto simp: deriveSaleCogsEntryLines_eq_Inr split: if_splits)
  have some: "sp_entryDate c = date \<and> (\<exists>d. sp_lines c = cogsEntry cogs d)" if c: "cp_cogs p = Some c" for c
  proof -
    have "releasedStock cogs \<noteq> 0" "cl = Some (sp_lines c)" using none opt c by auto
    with cl(1) have "\<exists>d. sp_lines c = cogsEntry cogs d" by (auto simp: deriveSaleCogsEntryLines_eq_Inr)
    moreover have "canonicalDate (sc_soldOn cogs) = Inr (sp_entryDate c)" using cl(2) c by (metis cogsPosting_date)
    ultimately show ?thesis using d(1) by auto
  qed
  have inv: "accountMovement (System_account SALE_INVENTORY_SYSTEM_KEY) pl_baseAmountMinor (cogsEntry cogs d)
      = sum_list (map sm_valueDeltaBaseMinor (sc_movements cogs))" for d
    using cogsEntry_movement(1) [of cogs d] by (simp add: releasedStock_def)
  show ?thesis
    unfolding rl(2) d(2) using debit revenueEntry_movement [OF debit(1)] none some inv cogsEntry_movement(2) baseShares_sum(1,3) [OF bs]
    by fastforce
qed

definition sample_fx :: SaleFxSnapshot where
  "sample_fx = \<lparr>sx_sourceToBaseRate = ''1.0850000000'', sx_rateSource = ''manual'', sx_rateTimestamp = midnight ''2024-05-01''\<rparr>"

definition sample_invoice :: SaleInvoiceFacts where
  "sample_invoice =
     \<lparr>si_tenantId = ''0a000000-0000-4000-8000-000000000001'', si_businessId = ''0b000000-0000-4000-8000-000000000002'',
      si_invoiceId = ''0c000000-0000-4000-8000-000000000003'', si_issueDate = ''2024-05-01'',
      si_branchId = ''0d000000-0000-4000-8000-000000000004'', si_customerId = None, si_settlementKind = Settle_cash,
      si_settlementAccount = Some (System_account ''cash''), si_currencyCode = ''EUR'', si_baseCurrency = ''USD'',
      si_subtotalTxnMinor = 4500, si_discountTxnMinor = 1, si_taxMinor = 0, si_totalTxnMinor = 4499, si_totalBaseMinor = 4881,
      si_fx = sample_fx, si_lines = [\<lparr>il_lineNo = 2, il_netTxnMinor = 999, il_taxMinor = 0\<rparr>,
        \<lparr>il_lineNo = 1, il_netTxnMinor = 3500, il_taxMinor = 0\<rparr>]\<rparr>"

definition sample_cogs :: SaleCogsFacts where
  "sample_cogs =
     \<lparr>sc_tenantId = ''0a000000-0000-4000-8000-000000000001'', sc_businessId = ''0b000000-0000-4000-8000-000000000002'',
      sc_saleId = ''0e000000-0000-4000-8000-000000000005'', sc_soldOn = ''2024-05-01'',
      sc_branchId = ''0d000000-0000-4000-8000-000000000004'', sc_warehouseId = ''0f000000-0000-4000-8000-000000000006'',
      sc_baseCurrency = ''USD'', sc_movements = [\<lparr>sm_sourceLineId = ''a'', sm_valueDeltaBaseMinor = - 2100\<rparr>,
        \<lparr>sm_sourceLineId = ''b'', sm_valueDeltaBaseMinor = - 37\<rparr>]\<rparr>"

lemma sample_sale: "deriveSaleCommitPostings (\<lambda>s. ''digest'') sample_invoice sample_cogs
    = Inr (projr (deriveSaleCommitPostings (\<lambda>s. ''digest'') sample_invoice sample_cogs))"
proof -
  have "\<not> isl (deriveSaleCommitPostings (\<lambda>s. ''digest'') sample_invoice sample_cogs)" by code_simp
  then show ?thesis by (simp add: isl_def sum.expand)
qed

theorem sale_commit_posts_what_it_owes_witness:
  "sum_list (map bs_shareMinor (cp_baseShares (projr (deriveSaleCommitPostings (\<lambda>s. ''digest'') sample_invoice sample_cogs)))) = 4881"
  using sale_commit_posts_what_it_owes [OF sample_sale] by (simp add: sample_invoice_def)

text \<open>C16: When the entries of an accepted sale pass the posting engine's validation: the revenue entry exactly when the
  invoice's base total is the exact conversion of its total at its rate snapshot and the source of that rate is one the
  engine admits, \<open>base\<close> with equal totals in the base currency and a registered source in any other; the COGS entry, when
  there is one, exactly when its base currency is registered. Nothing else of the sale can make either be refused.\<close>

theorem sale_entries_pass_validation:
  assumes "deriveSaleCommitPostings sha i cogs = Inr p"
  shows "(entry_sound (sp_lines (cp_revenue p)) \<longleftrightarrow> invoice_fx_ok i)
    \<and> (\<forall>c. cp_cogs p = Some c \<longrightarrow> (entry_sound (sp_lines c) \<longleftrightarrow> isSupportedCurrency (sc_baseCurrency cogs)))"
proof -
  obtain date cl rl where cl: "deriveSaleCogsEntryLines cogs = Inr cl" "cogsPosting sha cogs cl = Inr (cp_cogs p)"
    and rl: "deriveSaleInvoiceEntryLines i = Inr rl" "sp_lines (cp_revenue p) = rl"
    using deriveSaleCommitPostings_Inr [OF assms(1)] by metis
  have "entry_sound (sp_lines c) \<longleftrightarrow> isSupportedCurrency (sc_baseCurrency cogs)" if "cp_cogs p = Some c" for c
  proof -
    have "cl = Some (sp_lines c)" using cogsPosting_lines [OF cl(2)] that by simp
    with cl(1) show ?thesis by (simp add: cogsEntry_sound)
  qed
  with revenueEntry_sound [OF rl(1)] rl(2) show ?thesis by simp
qed

theorem sale_entries_pass_validation_witness:
  "entry_sound (sp_lines (cp_revenue (projr (deriveSaleCommitPostings (\<lambda>s. ''digest'') sample_invoice sample_cogs))))"
proof -
  have "invoice_fx_ok sample_invoice" by code_simp
  with sale_entries_pass_validation [OF sample_sale] show ?thesis by blast
qed

text \<open>The invoice's base split is the purchase receipt's base split: the two implementations accept the same inputs and
  return the same shares, except that the accounting one also holds its amounts to the money cap.\<close>

theorem base_split_agrees:
  "splitBaseByLargestRemainder t ws = Inr ss \<longleftrightarrow>
     largestRemainder (map (\<lambda>u. \<lparr>ed_units = u, ed_scale = 0\<rparr>) ws) t = Inr ss
     \<and> t \<le> MAX_MONEY_MINOR \<and> list_all (\<lambda>w. w \<le> MAX_MONEY_MINOR) ws"
  unfolding splitBase_split largestRemainderInts_def ..

end
