(* ===== verification/Payload_Schemas.thy ===== *)
theory Payload_Schemas
  imports Fingerprint
begin

text \<open>
  packages/inventory/src/payload.ts: the registered operation kinds, the typed fields of a
  signed inventory command, the schema of every kind, and the schema of its intent. A field's
  \<open>value\<close> of type \<open>number | bigint\<close> is a \<open>payload_int\<close>. Theory Payload holds the encoder.
\<close>

subsection \<open>Operation kinds\<close>

definition INVENTORY_S1_OPERATION_CODES :: "string list" where
  "INVENTORY_S1_OPERATION_CODES =
     [''inventory.configure_product'', ''structure.associate_warehouse_branch'', ''structure.dissociate_warehouse_branch'']"

definition INVENTORY_S3_OPERATION_CODES :: "string list" where
  "INVENTORY_S3_OPERATION_CODES =
     [''inventory.transfer'', ''inventory.adjust'', ''inventory.damage'', ''inventory.stocktake_open'',
      ''inventory.stocktake_count'', ''inventory.stocktake_finalize'', ''inventory.opening'']"

definition INVENTORY_S4_OPERATION_CODES :: "string list" where
  "INVENTORY_S4_OPERATION_CODES =
     [''supplier.create'', ''supplier.update'', ''supplier.archive'', ''supplier.reactivate'',
      ''purchase.draft'', ''purchase.cancel'', ''purchase.receive'']"

definition INVENTORY_S5_OPERATION_CODES :: "string list" where
  "INVENTORY_S5_OPERATION_CODES = [''purchase.return'', ''purchase.reverse'']"

definition INVENTORY_S6_OPERATION_CODES :: "string list" where
  "INVENTORY_S6_OPERATION_CODES =
     [''payment.create_method'', ''payment.update_method'', ''payment.deactivate_method'', ''payment.activate_method'',
      ''supplier.pay'', ''supplier.allocate_credit'', ''supplier.receive_refund'']"

definition INVENTORY_CORRECTIVE_OPERATION_CODES :: "string list" where
  "INVENTORY_CORRECTIVE_OPERATION_CODES = [''purchase.write_off_residue'']"

definition INVENTORY_P4_S1_OPERATION_CODES :: "string list" where
  "INVENTORY_P4_S1_OPERATION_CODES =
     [''customer.create'', ''customer.update'', ''customer.archive'', ''customer.reactivate'']"

definition INVENTORY_P4_S2_OPERATION_CODES :: "string list" where
  "INVENTORY_P4_S2_OPERATION_CODES = [''sale.commit'']"

definition INVENTORY_P4_S3_OPERATION_CODES :: "string list" where
  "INVENTORY_P4_S3_OPERATION_CODES =
     [''pos.session_open'', ''pos.session_close'', ''pos.cart_set_line'', ''pos.cart_remove_line'']"

definition INVENTORY_P4_S4_OPERATION_CODES :: "string list" where
  "INVENTORY_P4_S4_OPERATION_CODES = [''customer.collect_payment'', ''customer.apply_credit'']"

definition INVENTORY_OPERATION_CODES :: "string list" where
  "INVENTORY_OPERATION_CODES =
     INVENTORY_S1_OPERATION_CODES @ INVENTORY_S3_OPERATION_CODES @ INVENTORY_S4_OPERATION_CODES
     @ INVENTORY_S5_OPERATION_CODES @ INVENTORY_S6_OPERATION_CODES @ INVENTORY_CORRECTIVE_OPERATION_CODES
     @ INVENTORY_P4_S1_OPERATION_CODES @ INVENTORY_P4_S2_OPERATION_CODES @ INVENTORY_P4_S3_OPERATION_CODES
     @ INVENTORY_P4_S4_OPERATION_CODES"

definition isInventoryOperationCode :: "string \<Rightarrow> bool" where
  "isInventoryOperationCode v \<longleftrightarrow> v \<in> set INVENTORY_OPERATION_CODES"

definition INVPL_DOMAIN :: string where "INVPL_DOMAIN = ''invpl/1''"

text \<open>\<open>/^[a-z]+(\.[a-z_]+)+$/\<close>, with the separator as an argument: the wire form has colons.\<close>

definition op_segments_ok :: "string list \<Rightarrow> bool" where
  "op_segments_ok segs = (case segs of
       s # t # r \<Rightarrow> s \<noteq> [] \<and> list_all is_lower s
         \<and> list_all (\<lambda>x. x \<noteq> [] \<and> list_all (\<lambda>c. is_lower c \<or> c = CHR ''_'') x) (t # r)
     | _ \<Rightarrow> False)"

definition OPERATION_CODE_RE :: "string \<Rightarrow> bool" where
  "OPERATION_CODE_RE v = op_segments_ok (splitOn (CHR ''.'') v)"

text \<open>\<open>/^[a-z][a-z0-9_]{0,31}$/\<close>\<close>

definition REGISTRY_CODE_RE :: "string \<Rightarrow> bool" where
  "REGISTRY_CODE_RE v = (case v of [] \<Rightarrow> False
     | c # r \<Rightarrow> is_lower c \<and> length r \<le> 31 \<and> list_all (\<lambda>d. is_lower d \<or> is_digit d \<or> d = CHR ''_'') r)"

definition INT8_MIN :: int where "INT8_MIN = - (2 ^ 63)"
definition INT8_MAX :: int where "INT8_MAX = 2 ^ 63 - 1"

subsection \<open>Fields and schemas\<close>

datatype payload_int = Big int | Num JsNumber

datatype InventoryPayloadField =
    F_uuid string
  | F_boolean bool
  | F_integer payload_int
  | F_code string
  | F_null

datatype InventoryPayloadFieldType = T_uuid | T_boolean | T_integer | T_code

record InventoryPayloadFieldSpec =
  fs_name :: string
  fs_type :: InventoryPayloadFieldType
  fs_nullable :: bool

record InventoryPayloadRepeat =
  rp_countField :: string
  rp_fields :: "InventoryPayloadFieldSpec list"

record InventoryPayloadTrailer =
  tr_countField :: InventoryPayloadFieldSpec
  tr_fields :: "InventoryPayloadFieldSpec list"
  tr_perLine :: "InventoryPayloadFieldSpec option"

record InventoryPayloadSchema =
  ps_header :: "InventoryPayloadFieldSpec list"
  ps_repeat :: "InventoryPayloadRepeat option"
  ps_trailer :: "InventoryPayloadTrailer option"

definition spec :: "string \<Rightarrow> InventoryPayloadFieldType \<Rightarrow> bool \<Rightarrow> InventoryPayloadFieldSpec" where
  "spec name t nullable = \<lparr>fs_name = name, fs_type = t, fs_nullable = nullable\<rparr>"

abbreviation req :: "string \<Rightarrow> InventoryPayloadFieldType \<Rightarrow> InventoryPayloadFieldSpec" where
  "req name t \<equiv> spec name t False"

abbreviation opt :: "string \<Rightarrow> InventoryPayloadFieldType \<Rightarrow> InventoryPayloadFieldSpec" where
  "opt name t \<equiv> spec name t True"

text \<open>A schema that is a header and nothing else.\<close>

definition header_only :: "InventoryPayloadFieldSpec list \<Rightarrow> InventoryPayloadSchema" where
  "header_only h = \<lparr>ps_header = h, ps_repeat = None, ps_trailer = None\<rparr>"

definition withGroup ::
  "InventoryPayloadFieldSpec list \<Rightarrow> string \<Rightarrow> InventoryPayloadFieldSpec list \<Rightarrow> InventoryPayloadSchema" where
  "withGroup header countField groupFields =
     \<lparr>ps_header = header, ps_repeat = Some \<lparr>rp_countField = countField, rp_fields = groupFields\<rparr>, ps_trailer = None\<rparr>"

definition withLines :: "InventoryPayloadFieldSpec list \<Rightarrow> InventoryPayloadFieldSpec list \<Rightarrow> InventoryPayloadSchema" where
  "withLines header lfs = withGroup header ''line_count'' lfs"

definition withLinesAndTrailer ::
  "InventoryPayloadFieldSpec list \<Rightarrow> InventoryPayloadFieldSpec list \<Rightarrow> InventoryPayloadTrailer \<Rightarrow> InventoryPayloadSchema" where
  "withLinesAndTrailer header lfs trailer =
     \<lparr>ps_header = header, ps_repeat = Some \<lparr>rp_countField = ''line_count'', rp_fields = lfs\<rparr>,
      ps_trailer = Some trailer\<rparr>"

definition textWordSpecs :: "string \<Rightarrow> bool \<Rightarrow> InventoryPayloadFieldSpec list" where
  "textWordSpecs prefix nullable = map (\<lambda>i. spec (prefix @ ''_w'' @ int_string i) T_integer nullable) [1..8]"

definition REASON_WORDS :: "InventoryPayloadFieldSpec list" where
  "REASON_WORDS = map (\<lambda>i. req (''reason_w'' @ int_string i) T_integer) [1..8]"

definition SUPPLIER_TEXT :: "InventoryPayloadFieldSpec list" where
  "SUPPLIER_TEXT = textWordSpecs ''name'' False @ textWordSpecs ''phone'' True @ textWordSpecs ''email'' True
     @ textWordSpecs ''tax_identifier'' True @ textWordSpecs ''notes'' True"

definition CUSTOMER_TEXT :: "InventoryPayloadFieldSpec list" where
  "CUSTOMER_TEXT = textWordSpecs ''name'' False @ textWordSpecs ''phone'' True @ textWordSpecs ''email'' True
     @ textWordSpecs ''notes'' True"

definition PAYMENT_METHOD_NAMES :: "InventoryPayloadFieldSpec list" where
  "PAYMENT_METHOD_NAMES = textWordSpecs ''name_ar'' True @ textWordSpecs ''name_en'' True @ textWordSpecs ''name_tr'' True"

subsection \<open>The schema of every kind\<close>

definition schema_configure_product :: InventoryPayloadSchema where
  "schema_configure_product = header_only [req ''product_id'' T_uuid, req ''track_inventory'' T_boolean, opt ''unit_code'' T_code,
       opt ''unit_decimals'' T_integer]"

definition schema_associate_warehouse_branch :: InventoryPayloadSchema where
  "schema_associate_warehouse_branch = header_only [req ''warehouse_id'' T_uuid, req ''branch_id'' T_uuid]"

definition schema_dissociate_warehouse_branch :: InventoryPayloadSchema where
  "schema_dissociate_warehouse_branch = header_only [req ''warehouse_id'' T_uuid, req ''branch_id'' T_uuid]"

definition schema_transfer :: InventoryPayloadSchema where
  "schema_transfer = withLines
     [req ''transfer_id'' T_uuid, req ''source_warehouse_id'' T_uuid,
       req ''destination_warehouse_id'' T_uuid, req ''line_count'' T_integer]
     [req ''variant_id'' T_uuid, req ''qty_q4'' T_integer]"

definition schema_adjust :: InventoryPayloadSchema where
  "schema_adjust = withLines
     ([req ''adjustment_id'' T_uuid, req ''warehouse_id'' T_uuid, req ''occurred_on'' T_integer]
      @ REASON_WORDS
      @ [req ''line_count'' T_integer])
     [req ''variant_id'' T_uuid, req ''qty_delta_q4'' T_integer, opt ''unit_cost_c10'' T_integer,
       req ''expected_value'' T_integer]"

definition schema_damage :: InventoryPayloadSchema where
  "schema_damage = withLines
     ([req ''adjustment_id'' T_uuid, req ''warehouse_id'' T_uuid, req ''occurred_on'' T_integer]
      @ REASON_WORDS
      @ [req ''line_count'' T_integer])
     [req ''variant_id'' T_uuid, req ''qty_q4'' T_integer, req ''expected_value'' T_integer]"

definition schema_stocktake_open :: InventoryPayloadSchema where
  "schema_stocktake_open = header_only [req ''stocktake_id'' T_uuid, req ''warehouse_id'' T_uuid]"

definition schema_stocktake_count :: InventoryPayloadSchema where
  "schema_stocktake_count = withLines
     [req ''stocktake_id'' T_uuid, req ''warehouse_id'' T_uuid, req ''line_count'' T_integer]
     [req ''variant_id'' T_uuid, req ''counted_q4'' T_integer]"

definition schema_stocktake_finalize :: InventoryPayloadSchema where
  "schema_stocktake_finalize = withLines
     [req ''stocktake_id'' T_uuid, req ''warehouse_id'' T_uuid, req ''outcome'' T_code,
       opt ''occurred_on'' T_integer, req ''line_count'' T_integer]
     [req ''variant_id'' T_uuid, req ''variance_q4'' T_integer, opt ''unit_cost_c10'' T_integer,
       req ''expected_value'' T_integer]"

definition schema_opening :: InventoryPayloadSchema where
  "schema_opening = withLines
     [req ''opening_id'' T_uuid, req ''occurred_on'' T_integer, opt ''opening_balance_id'' T_uuid,
       opt ''position_minor'' T_integer, req ''line_count'' T_integer]
     [req ''warehouse_id'' T_uuid, req ''variant_id'' T_uuid, req ''qty_q4'' T_integer,
       req ''unit_cost_c10'' T_integer]"

definition schema_supplier_create :: InventoryPayloadSchema where
  "schema_supplier_create = header_only ([req ''supplier_id'' T_uuid]
      @ SUPPLIER_TEXT)"

definition schema_supplier_update :: InventoryPayloadSchema where
  "schema_supplier_update = header_only ([req ''supplier_id'' T_uuid, req ''expected_revision'' T_integer]
      @ SUPPLIER_TEXT)"

definition schema_supplier_archive :: InventoryPayloadSchema where
  "schema_supplier_archive = header_only [req ''supplier_id'' T_uuid, req ''expected_revision'' T_integer]"

definition schema_supplier_reactivate :: InventoryPayloadSchema where
  "schema_supplier_reactivate = header_only [req ''supplier_id'' T_uuid, req ''expected_revision'' T_integer]"

definition schema_purchase_draft :: InventoryPayloadSchema where
  "schema_purchase_draft = withLinesAndTrailer
     ([req ''purchase_id'' T_uuid, req ''expected_revision'' T_integer, req ''supplier_id'' T_uuid,
       req ''warehouse_id'' T_uuid, opt ''previous_warehouse_id'' T_uuid, req ''currency'' T_code,
       req ''document_date'' T_integer]
      @ textWordSpecs ''supplier_reference'' True
      @ textWordSpecs ''notes'' True
      @ [req ''tax_minor'' T_integer, req ''line_count'' T_integer])
     [req ''line_id'' T_uuid, req ''variant_id'' T_uuid, req ''qty_q4'' T_integer,
       req ''unit_price_c10'' T_integer, req ''discount_minor'' T_integer]
     \<lparr>tr_countField = req ''landed_count'' T_integer,
      tr_fields = ([req ''landed_cost_id'' T_uuid, req ''mode'' T_code, req ''amount_minor'' T_integer]
        @ textWordSpecs ''description'' True),
      tr_perLine = Some (opt ''allocation_minor'' T_integer)\<rparr>"

definition schema_purchase_cancel :: InventoryPayloadSchema where
  "schema_purchase_cancel = header_only [req ''purchase_id'' T_uuid, req ''warehouse_id'' T_uuid, req ''draft_revision'' T_integer]"

definition schema_purchase_receive :: InventoryPayloadSchema where
  "schema_purchase_receive = withLines
     [req ''purchase_id'' T_uuid, req ''warehouse_id'' T_uuid, req ''draft_revision'' T_integer,
       req ''supplier_id'' T_uuid, req ''supplier_revision'' T_integer, req ''document_date'' T_integer,
       req ''currency'' T_code, opt ''rate_id'' T_uuid, req ''rate_r10'' T_integer,
       req ''rate_source'' T_code, req ''rate_at'' T_integer, req ''total_txn_minor'' T_integer,
       req ''total_base_minor'' T_integer, opt ''coverage_adjustment_id'' T_uuid,
       req ''line_count'' T_integer]
     [req ''line_id'' T_uuid, req ''variant_id'' T_uuid, req ''qty_q4'' T_integer,
       req ''base_share_minor'' T_integer, req ''covered_q4'' T_integer,
       req ''catch_up_minor'' T_integer]"

definition schema_purchase_return :: InventoryPayloadSchema where
  "schema_purchase_return = withLines
     ([req ''return_id'' T_uuid, req ''purchase_id'' T_uuid, req ''warehouse_id'' T_uuid,
       req ''document_date'' T_integer]
      @ textWordSpecs ''reason'' True
      @ [opt ''credit_note_id'' T_uuid, req ''carrying_txn'' T_integer, req ''ap_txn'' T_integer,
       req ''ap_base'' T_integer, req ''credit_txn'' T_integer, req ''credit_base'' T_integer,
       req ''inventory_value'' T_integer, req ''ppv'' T_integer, req ''line_count'' T_integer])
     [req ''return_line_id'' T_uuid, req ''purchase_line_id'' T_uuid, req ''variant_id'' T_uuid,
       req ''qty_q4'' T_integer, req ''carrying_txn'' T_integer, req ''value_out'' T_integer]"

definition schema_purchase_reverse :: InventoryPayloadSchema where
  "schema_purchase_reverse = withLines
     ([req ''purchase_id'' T_uuid, req ''warehouse_id'' T_uuid, req ''reversal_date'' T_integer]
      @ textWordSpecs ''reason'' False
      @ [req ''original_entry_id'' T_uuid, req ''total_value'' T_integer, req ''line_count'' T_integer])
     [req ''line_id'' T_uuid, req ''variant_id'' T_uuid, req ''qty_q4'' T_integer,
       req ''value'' T_integer]"

definition schema_create_method :: InventoryPayloadSchema where
  "schema_create_method = header_only ([req ''payment_method_id'' T_uuid, req ''system_type'' T_code, req ''posting_account_id'' T_uuid,
       req ''requires_reference'' T_boolean, req ''sort_order'' T_integer]
      @ PAYMENT_METHOD_NAMES)"

definition schema_update_method :: InventoryPayloadSchema where
  "schema_update_method = header_only ([req ''payment_method_id'' T_uuid, req ''expected_revision'' T_integer,
       req ''posting_account_id'' T_uuid, req ''requires_reference'' T_boolean,
       req ''sort_order'' T_integer]
      @ PAYMENT_METHOD_NAMES)"

definition schema_deactivate_method :: InventoryPayloadSchema where
  "schema_deactivate_method = header_only [req ''payment_method_id'' T_uuid, req ''expected_revision'' T_integer]"

definition schema_activate_method :: InventoryPayloadSchema where
  "schema_activate_method = header_only [req ''payment_method_id'' T_uuid, req ''expected_revision'' T_integer]"

definition schema_pay :: InventoryPayloadSchema where
  "schema_pay = withGroup
     ([req ''payment_id'' T_uuid, req ''supplier_id'' T_uuid, req ''payment_method_id'' T_uuid,
       req ''posting_account_id'' T_uuid, req ''payment_date'' T_integer, req ''currency'' T_code,
       req ''amount'' T_integer, opt ''rate_id'' T_uuid, req ''rate'' T_integer,
       req ''rate_source'' T_code, req ''rate_at'' T_integer, req ''base_amount'' T_integer]
      @ textWordSpecs ''reference'' True
      @ [req ''allocation_count'' T_integer])
     ''allocation_count''
     [req ''allocation_id'' T_uuid, req ''purchase_id'' T_uuid, req ''warehouse_id'' T_uuid,
       req ''purchase_currency'' T_code, req ''payment_amount'' T_integer,
       req ''payment_base'' T_integer, req ''applied'' T_integer, req ''released_before'' T_integer,
       req ''carrying_released'' T_integer, req ''ap_dust'' T_integer, req ''realized'' T_integer]"

definition schema_allocate_credit :: InventoryPayloadSchema where
  "schema_allocate_credit = header_only [req ''allocation_id'' T_uuid, req ''credit_note_id'' T_uuid, req ''purchase_id'' T_uuid,
       req ''warehouse_id'' T_uuid, req ''allocation_date'' T_integer, req ''credit_currency'' T_code,
       req ''consumed'' T_integer, req ''remaining_before'' T_integer, req ''credit_released'' T_integer,
       req ''credit_dust'' T_integer, req ''purchase_currency'' T_code, req ''applied'' T_integer,
       req ''ap_released_before'' T_integer, req ''ap_released'' T_integer, req ''ap_dust'' T_integer,
       req ''realized'' T_integer]"

definition schema_receive_refund :: InventoryPayloadSchema where
  "schema_receive_refund = header_only ([req ''refund_id'' T_uuid, req ''credit_note_id'' T_uuid, req ''payment_method_id'' T_uuid,
       req ''posting_account_id'' T_uuid, req ''refund_date'' T_integer, req ''source_currency'' T_code,
       req ''consumed'' T_integer, req ''remaining_before'' T_integer, req ''source_released'' T_integer,
       req ''source_dust'' T_integer, req ''receipt_currency'' T_code, req ''receipt_amount'' T_integer,
       opt ''rate_id'' T_uuid, req ''rate'' T_integer, req ''rate_source'' T_code,
       req ''rate_at'' T_integer, req ''receipt_base'' T_integer, req ''realized'' T_integer]
      @ textWordSpecs ''reference'' True)"

definition schema_purchase_write_off_residue :: InventoryPayloadSchema where
  "schema_purchase_write_off_residue = header_only ([req ''purchase_id'' T_uuid, req ''write_off_date'' T_integer]
      @ textWordSpecs ''reason'' False
      @ [req ''residue'' T_integer, req ''released_before'' T_integer, req ''residue_base'' T_integer])"

definition schema_customer_create :: InventoryPayloadSchema where
  "schema_customer_create = header_only ([req ''customer_id'' T_uuid]
      @ CUSTOMER_TEXT)"

definition schema_customer_update :: InventoryPayloadSchema where
  "schema_customer_update = header_only ([req ''customer_id'' T_uuid, req ''expected_revision'' T_integer]
      @ CUSTOMER_TEXT)"

definition schema_customer_archive :: InventoryPayloadSchema where
  "schema_customer_archive = header_only [req ''customer_id'' T_uuid, req ''expected_revision'' T_integer]"

definition schema_customer_reactivate :: InventoryPayloadSchema where
  "schema_customer_reactivate = header_only [req ''customer_id'' T_uuid, req ''expected_revision'' T_integer]"

definition schema_sale_commit :: InventoryPayloadSchema where
  "schema_sale_commit = withLines
     ([req ''sale_id'' T_uuid, req ''settlement_mode'' T_code, opt ''customer_id'' T_uuid,
       req ''warehouse_id'' T_uuid, req ''branch_id'' T_uuid, req ''invoice_id'' T_uuid,
       req ''document_date'' T_integer, opt ''due_date'' T_integer, req ''currency'' T_code,
       opt ''rate_id'' T_uuid, req ''rate_r10'' T_integer, req ''rate_source'' T_code,
       req ''rate_at'' T_integer, req ''subtotal_txn_minor'' T_integer,
       req ''discount_txn_minor'' T_integer, req ''tax_minor'' T_integer,
       req ''total_txn_minor'' T_integer, req ''total_base_minor'' T_integer]
      @ textWordSpecs ''notes'' True
      @ [req ''line_count'' T_integer])
     [req ''line_id'' T_uuid, req ''product_id'' T_uuid, opt ''merchant_variant_id'' T_uuid,
       req ''variant_id'' T_uuid, req ''qty_q4'' T_integer, req ''discount_minor'' T_integer,
       req ''unit_price_c10'' T_integer, req ''net_txn_minor'' T_integer,
       req ''base_share_minor'' T_integer]"

definition schema_pos_session_open :: InventoryPayloadSchema where
  "schema_pos_session_open = header_only [req ''session_id'' T_uuid, req ''branch_id'' T_uuid, req ''warehouse_id'' T_uuid,
       req ''terminal_code'' T_code, req ''currency_code'' T_code, req ''opening_float_minor'' T_integer]"

definition schema_pos_session_close :: InventoryPayloadSchema where
  "schema_pos_session_close = header_only [req ''session_id'' T_uuid, req ''closing_count_minor'' T_integer]"

definition schema_pos_cart_set_line :: InventoryPayloadSchema where
  "schema_pos_cart_set_line = header_only [req ''session_id'' T_uuid, req ''line_id'' T_uuid, req ''line_no'' T_integer,
       req ''product_id'' T_uuid, req ''variant_id'' T_uuid, req ''qty_q4'' T_integer,
       req ''requested_discount_minor'' T_integer]"

definition schema_pos_cart_remove_line :: InventoryPayloadSchema where
  "schema_pos_cart_remove_line = header_only [req ''session_id'' T_uuid, req ''line_id'' T_uuid]"

definition schema_collect_payment :: InventoryPayloadSchema where
  "schema_collect_payment = withGroup
     ([req ''payment_id'' T_uuid, req ''customer_id'' T_uuid, req ''payment_method_id'' T_uuid,
       req ''posting_account_id'' T_uuid, req ''payment_date'' T_integer, req ''currency'' T_code,
       req ''amount'' T_integer, opt ''rate_id'' T_uuid, req ''rate'' T_integer,
       req ''rate_source'' T_code, req ''rate_at'' T_integer, req ''base_amount'' T_integer]
      @ textWordSpecs ''reference'' True
      @ [opt ''credit_id'' T_uuid, opt ''credit_amount'' T_integer, opt ''credit_carrying_base'' T_integer,
       req ''allocation_count'' T_integer])
     ''allocation_count''
     [req ''allocation_id'' T_uuid, req ''invoice_id'' T_uuid, req ''invoice_currency'' T_code,
       req ''payment_amount'' T_integer, req ''payment_base'' T_integer, req ''applied'' T_integer,
       req ''ar_released_before'' T_integer, req ''carrying_released'' T_integer,
       req ''ar_dust'' T_integer, req ''realized'' T_integer]"

definition schema_apply_credit :: InventoryPayloadSchema where
  "schema_apply_credit = header_only [req ''application_id'' T_uuid, req ''credit_id'' T_uuid, req ''invoice_id'' T_uuid,
       req ''application_date'' T_integer, req ''credit_currency'' T_code, req ''consumed'' T_integer,
       req ''remaining_before'' T_integer, req ''credit_carrying_released'' T_integer,
       req ''credit_dust'' T_integer, req ''invoice_currency'' T_code, req ''applied'' T_integer,
       req ''ar_released_before'' T_integer, req ''carrying_released'' T_integer,
       req ''ar_dust'' T_integer, req ''realized'' T_integer]"

definition INVENTORY_PAYLOAD_SCHEMAS :: "(string \<times> InventoryPayloadSchema) list" where
  "INVENTORY_PAYLOAD_SCHEMAS =
     [(''inventory.configure_product'', schema_configure_product),
      (''structure.associate_warehouse_branch'', schema_associate_warehouse_branch),
      (''structure.dissociate_warehouse_branch'', schema_dissociate_warehouse_branch),
      (''inventory.transfer'', schema_transfer),
      (''inventory.adjust'', schema_adjust),
      (''inventory.damage'', schema_damage),
      (''inventory.stocktake_open'', schema_stocktake_open),
      (''inventory.stocktake_count'', schema_stocktake_count),
      (''inventory.stocktake_finalize'', schema_stocktake_finalize),
      (''inventory.opening'', schema_opening),
      (''supplier.create'', schema_supplier_create),
      (''supplier.update'', schema_supplier_update),
      (''supplier.archive'', schema_supplier_archive),
      (''supplier.reactivate'', schema_supplier_reactivate),
      (''purchase.draft'', schema_purchase_draft),
      (''purchase.cancel'', schema_purchase_cancel),
      (''purchase.receive'', schema_purchase_receive),
      (''purchase.return'', schema_purchase_return),
      (''purchase.reverse'', schema_purchase_reverse),
      (''payment.create_method'', schema_create_method),
      (''payment.update_method'', schema_update_method),
      (''payment.deactivate_method'', schema_deactivate_method),
      (''payment.activate_method'', schema_activate_method),
      (''supplier.pay'', schema_pay),
      (''supplier.allocate_credit'', schema_allocate_credit),
      (''supplier.receive_refund'', schema_receive_refund),
      (''purchase.write_off_residue'', schema_purchase_write_off_residue),
      (''customer.create'', schema_customer_create),
      (''customer.update'', schema_customer_update),
      (''customer.archive'', schema_customer_archive),
      (''customer.reactivate'', schema_customer_reactivate),
      (''sale.commit'', schema_sale_commit),
      (''pos.session_open'', schema_pos_session_open),
      (''pos.session_close'', schema_pos_session_close),
      (''pos.cart_set_line'', schema_pos_cart_set_line),
      (''pos.cart_remove_line'', schema_pos_cart_remove_line),
      (''customer.collect_payment'', schema_collect_payment),
      (''customer.apply_credit'', schema_apply_credit)]"

lemmas schema_defs = header_only_def withGroup_def withLines_def withLinesAndTrailer_def textWordSpecs_def REASON_WORDS_def
  SUPPLIER_TEXT_def CUSTOMER_TEXT_def PAYMENT_METHOD_NAMES_def

subsection \<open>Intents\<close>

definition INVENTORY_SERVER_DERIVED_FIELDS :: "string list" where
  "INVENTORY_SERVER_DERIVED_FIELDS = [''expected_value'', ''opening_balance_id'', ''position_minor'', ''variance_q4'']"

text \<open>\<open>Array.from({ length: 8 }, (_, i) => `${prefix}_w${i + 1}`)\<close>\<close>

definition wordNames :: "string \<Rightarrow> string list" where
  "wordNames prefix = map (\<lambda>i. prefix @ ''_w'' @ int_string i) [1..8]"

definition INVENTORY_OPERATION_INTENT_FIELDS :: "(string \<times> string list) list" where
  "INVENTORY_OPERATION_INTENT_FIELDS =
     [(''purchase.receive'', [''purchase_id'', ''warehouse_id'', ''draft_revision'']),
      (''purchase.return'', [''return_id'', ''purchase_id'', ''warehouse_id'', ''document_date''] @ wordNames ''reason''
         @ [''line_count'', ''return_line_id'', ''purchase_line_id'', ''qty_q4'']),
      (''purchase.reverse'', [''purchase_id'', ''warehouse_id'', ''reversal_date''] @ wordNames ''reason''),
      (''supplier.pay'', [''payment_id'', ''supplier_id'', ''payment_method_id'', ''payment_date'', ''currency'',
         ''amount''] @ wordNames ''reference'' @ [''allocation_count'', ''allocation_id'',
         ''purchase_id'', ''payment_amount'', ''applied'']),
      (''supplier.allocate_credit'', [''allocation_id'', ''credit_note_id'', ''purchase_id'', ''allocation_date'', ''consumed'',
         ''applied'']),
      (''supplier.receive_refund'', [''refund_id'', ''credit_note_id'', ''payment_method_id'', ''refund_date'', ''consumed'',
         ''receipt_currency'', ''receipt_amount''] @ wordNames ''reference''),
      (''purchase.write_off_residue'', [''purchase_id'', ''write_off_date''] @ wordNames ''reason'' @ [''residue'']),
      (''sale.commit'', [''sale_id'', ''settlement_mode'', ''customer_id'', ''warehouse_id'', ''document_date'',
         ''due_date'', ''tax_minor''] @ wordNames ''notes'' @ [''line_count'', ''line_id'',
         ''product_id'', ''merchant_variant_id'', ''qty_q4'', ''discount_minor'']),
      (''customer.collect_payment'', [''payment_id'', ''customer_id'', ''payment_method_id'', ''payment_date'', ''currency'',
         ''amount''] @ wordNames ''reference'' @ [''credit_id'', ''credit_amount'', ''allocation_count'',
         ''allocation_id'', ''invoice_id'', ''payment_amount'', ''applied'']),
      (''customer.apply_credit'', [''application_id'', ''credit_id'', ''invoice_id'', ''application_date'', ''consumed'',
         ''applied''])]"

definition intent_keep :: "string list option \<Rightarrow> InventoryPayloadFieldSpec \<Rightarrow> bool" where
  "intent_keep only s \<longleftrightarrow> fs_name s \<notin> set INVENTORY_SERVER_DERIVED_FIELDS
     \<and> (case only of None \<Rightarrow> True | Some names \<Rightarrow> fs_name s \<in> set names)"

definition keepOf :: "string \<Rightarrow> InventoryPayloadFieldSpec \<Rightarrow> bool" where
  "keepOf opCode = intent_keep (map_of INVENTORY_OPERATION_INTENT_FIELDS opCode)"

definition intentOf :: "(InventoryPayloadFieldSpec \<Rightarrow> bool) \<Rightarrow> InventoryPayloadSchema \<Rightarrow> InventoryPayloadSchema" where
  "intentOf keep schema =
     (let header = filter keep (ps_header schema)
      in case ps_repeat schema of
           None \<Rightarrow> header_only header
         | Some r \<Rightarrow>
             if \<not> list_ex (\<lambda>s. fs_name s = rp_countField r) header then header_only header
             else let lfs = filter keep (rp_fields r)
                  in case ps_trailer schema of
                       None \<Rightarrow> withGroup header (rp_countField r) lfs
                     | Some t \<Rightarrow>
                         if \<not> keep (tr_countField t) then withGroup header (rp_countField r) lfs
                         else withLinesAndTrailer header lfs
                                \<lparr>tr_countField = tr_countField t, tr_fields = filter keep (tr_fields t),
                                 tr_perLine = (case tr_perLine t of None \<Rightarrow> None | Some p \<Rightarrow> if keep p then Some p else None)\<rparr>)"

abbreviation payload_refused :: "'a result" where
  "payload_refused \<equiv> refuse (InventoryError payload_invalid)"

definition inventoryIntentSchema :: "string \<Rightarrow> InventoryPayloadSchema result" where
  "inventoryIntentSchema opCode =
     (if \<not> isInventoryOperationCode opCode then payload_refused
      else case map_of INVENTORY_PAYLOAD_SCHEMAS opCode of
             None \<Rightarrow> payload_refused
           | Some schema \<Rightarrow> Inr (intentOf (keepOf opCode) schema))"

end
