(* ===== verification/Payload.thy ===== *)
theory Payload
  imports Payload_Schemas
begin

text \<open>
  packages/inventory/src/payload.ts: the encoder of the \<open>invpl/1\<close> stream of a command and of
  its intent. A byte is a character; SHA-256 is a parameter.

  The lemmas show that the encoder accepts exactly the field lists that follow the schema,
  that the framing assertion after it is unreachable, that the stream determines the
  operation, the scope and every field, and that the stream of the intent is the stream of
  the command with the server-derived lines struck out.
\<close>

subsection \<open>Encoding one field\<close>

fun payload_value :: "payload_int \<Rightarrow> int option" where
  "payload_value (Big n) = Some n"
| "payload_value (Num x) = (if isSafeInteger x then Some (number_int x) else None)"

definition encodeUuid :: "string \<Rightarrow> string result" where
  "encodeUuid v = (if \<not> is_uuid v then payload_refused else Inr v)"

definition encodeInteger :: "payload_int \<Rightarrow> string result" where
  "encodeInteger v = (case payload_value v of
       None \<Rightarrow> payload_refused
     | Some n \<Rightarrow> if n < INT8_MIN \<or> INT8_MAX < n then payload_refused else Inr (int_string n))"

definition encodeCode :: "string \<Rightarrow> string result" where
  "encodeCode v = (if \<not> REGISTRY_CODE_RE v then payload_refused else Inr v)"

definition encodeInventoryField :: "InventoryPayloadField \<Rightarrow> InventoryPayloadFieldSpec \<Rightarrow> string result" where
  "encodeInventoryField field s = (case field of
       F_null \<Rightarrow> if \<not> fs_nullable s then payload_refused else Inr [NUL]
     | F_uuid v \<Rightarrow> if fs_type s \<noteq> T_uuid then payload_refused else encodeUuid v
     | F_boolean v \<Rightarrow> if fs_type s \<noteq> T_boolean then payload_refused else Inr (if v then ''true'' else ''false'')
     | F_integer v \<Rightarrow> if fs_type s \<noteq> T_integer then payload_refused else encodeInteger v
     | F_code v \<Rightarrow> if fs_type s \<noteq> T_code then payload_refused else encodeCode v)"

subsection \<open>Expanding the schema\<close>

text \<open>\<open>BigInt(text)\<close> of an encoded integer.\<close>

definition BigInt_text :: "string \<Rightarrow> int" where
  "BigInt_text t = (let (negative, ds) = strip_minus t in if negative then - digits_int ds else digits_int ds)"

definition countAt :: "InventoryPayloadField list \<Rightarrow> nat \<Rightarrow> int result" where
  "countAt fs idx =
     (if length fs \<le> idx then payload_refused
      else case fs ! idx of
             F_integer v \<Rightarrow> bindR (encodeInteger v) (\<lambda>t.
               let count = BigInt_text t in if count < 0 then payload_refused else Inr count)
           | _ \<Rightarrow> payload_refused)"

text \<open>The fields of one trailer group: its own, and the per-line field once per line.\<close>

definition trailerGroup :: "InventoryPayloadTrailer \<Rightarrow> int \<Rightarrow> InventoryPayloadFieldSpec list" where
  "trailerGroup t lineCount =
     tr_fields t @ (case tr_perLine t of None \<Rightarrow> [] | Some p \<Rightarrow> replicate (nat lineCount) p)"

definition expandTrailer ::
  "InventoryPayloadSchema \<Rightarrow> InventoryPayloadRepeat \<Rightarrow> InventoryPayloadTrailer \<Rightarrow> int \<Rightarrow> InventoryPayloadField list
   \<Rightarrow> InventoryPayloadFieldSpec list result" where
  "expandTrailer schema r t lineCount fs =
     (let tc = tr_countField t
      in if fs_type tc \<noteq> T_integer \<or> fs_nullable tc \<or> tr_fields t = [] then payload_refused
         else let before = int (length (ps_header schema)) + lineCount * int (length (rp_fields r))
              in if int (length fs) \<le> before then payload_refused
                 else bindR (countAt fs (nat before)) (\<lambda>count.
                   let width = int (length (tr_fields t)) + (case tr_perLine t of None \<Rightarrow> 0 | Some p \<Rightarrow> lineCount)
                   in if int (length fs) \<noteq> before + 1 + count * width then payload_refused
                      else Inr (ps_header schema @ concat (replicate (nat lineCount) (rp_fields r)) @ [tc]
                                @ concat (replicate (nat count) (trailerGroup t lineCount)))))"

definition expandSchema ::
  "InventoryPayloadSchema \<Rightarrow> InventoryPayloadField list \<Rightarrow> InventoryPayloadFieldSpec list result" where
  "expandSchema schema fs = (case ps_repeat schema of
       None \<Rightarrow>
         if ps_trailer schema \<noteq> None then payload_refused
         else if length fs \<noteq> length (ps_header schema) then payload_refused
         else Inr (ps_header schema)
     | Some r \<Rightarrow>
         let idx = length (takeWhile (\<lambda>s. fs_name s \<noteq> rp_countField r) (ps_header schema))
         in if length (ps_header schema) \<le> idx \<or> fs_type (ps_header schema ! idx) \<noteq> T_integer
               \<or> fs_nullable (ps_header schema ! idx) \<or> rp_fields r = [] then payload_refused
            else bindR (countAt fs idx) (\<lambda>count.
              case ps_trailer schema of
                Some t \<Rightarrow> expandTrailer schema r t count fs
              | None \<Rightarrow>
                  if int (length fs) \<noteq> int (length (ps_header schema)) + count * int (length (rp_fields r))
                  then payload_refused
                  else Inr (ps_header schema @ concat (replicate (nat count) (rp_fields r)))))"

subsection \<open>The stream\<close>

fun encodeFields :: "InventoryPayloadFieldSpec list \<Rightarrow> InventoryPayloadField list \<Rightarrow> string list result" where
  "encodeFields [] fs = Inr []"
| "encodeFields (s # ss) [] = payload_refused"
| "encodeFields (s # ss) (f # fs) =
     bindR (encodeInventoryField f s) (\<lambda>b. bindR (encodeFields ss fs) (\<lambda>bs. Inr (b # bs)))"

definition unframeable :: "string \<Rightarrow> bool" where
  "unframeable line \<longleftrightarrow> line = [] \<or> LF \<in> set line \<or> line \<noteq> [NUL] \<and> NUL \<in> set line"

definition framed :: "string list \<Rightarrow> string" where
  "framed lines = concat (map (\<lambda>l. l @ [LF]) lines)"

definition payloadStream ::
  "string \<Rightarrow> string \<Rightarrow> string \<Rightarrow> InventoryPayloadSchema \<Rightarrow> InventoryPayloadField list \<Rightarrow> string result" where
  "payloadStream opCode tenantId businessId schema fs =
     bindR (expandSchema schema fs) (\<lambda>specs.
     bindR (encodeUuid tenantId) (\<lambda>tenant.
     bindR (encodeUuid businessId) (\<lambda>business.
     bindR (encodeFields specs fs) (\<lambda>encoded.
       let lines = INVPL_DOMAIN # opCode # tenant # business # encoded
       in if list_ex unframeable lines then payload_refused else Inr (framed lines)))))"

definition canonicalInventoryPayload ::
  "string \<Rightarrow> string \<Rightarrow> string \<Rightarrow> InventoryPayloadField list \<Rightarrow> string result" where
  "canonicalInventoryPayload opCode tenantId businessId fs =
     (if \<not> isInventoryOperationCode opCode \<or> \<not> OPERATION_CODE_RE opCode then payload_refused
      else case map_of INVENTORY_PAYLOAD_SCHEMAS opCode of
             None \<Rightarrow> payload_refused
           | Some schema \<Rightarrow> payloadStream opCode tenantId businessId schema fs)"

definition canonicalInventoryIntent ::
  "string \<Rightarrow> string \<Rightarrow> string \<Rightarrow> InventoryPayloadField list \<Rightarrow> string result" where
  "canonicalInventoryIntent opCode tenantId businessId fs =
     (if \<not> isInventoryOperationCode opCode \<or> \<not> OPERATION_CODE_RE opCode then payload_refused
      else bindR (inventoryIntentSchema opCode) (\<lambda>schema.
             payloadStream opCode tenantId businessId schema fs))"

definition inventoryPayloadSha256 ::
  "(string \<Rightarrow> string) \<Rightarrow> string \<Rightarrow> string \<Rightarrow> string \<Rightarrow> InventoryPayloadField list \<Rightarrow> string result" where
  "inventoryPayloadSha256 sha256 opCode tenantId businessId fs =
     bindR (canonicalInventoryPayload opCode tenantId businessId fs) (\<lambda>s. Inr (sha256 s))"

definition inventoryIntentSha256 ::
  "(string \<Rightarrow> string) \<Rightarrow> string \<Rightarrow> string \<Rightarrow> string \<Rightarrow> InventoryPayloadField list \<Rightarrow> string result" where
  "inventoryIntentSha256 sha256 opCode tenantId businessId fs =
     bindR (canonicalInventoryIntent opCode tenantId businessId fs) (\<lambda>s. Inr (sha256 s))"

record InventoryPayload =
  ip_opCode :: string
  ip_bytes :: string
  ip_sha256 :: string

definition buildInventoryPayload ::
  "(string \<Rightarrow> string) \<Rightarrow> string \<Rightarrow> string \<Rightarrow> string \<Rightarrow> InventoryPayloadField list \<Rightarrow> InventoryPayload result" where
  "buildInventoryPayload sha256 opCode tenantId businessId fs =
     bindR (canonicalInventoryPayload opCode tenantId businessId fs) (\<lambda>bytes.
       Inr \<lparr>ip_opCode = opCode, ip_bytes = bytes, ip_sha256 = sha256 bytes\<rparr>)"

subsection \<open>The registered schemas\<close>

text \<open>What the expansion requires of a schema, which is a fact of the registry and not of a command.\<close>

definition count_index :: "InventoryPayloadSchema \<Rightarrow> InventoryPayloadRepeat \<Rightarrow> nat" where
  "count_index schema r = length (takeWhile (\<lambda>s. fs_name s \<noteq> rp_countField r) (ps_header schema))"

definition schema_ok :: "InventoryPayloadSchema \<Rightarrow> bool" where
  "schema_ok schema = (case ps_repeat schema of
       None \<Rightarrow> ps_trailer schema = None
     | Some r \<Rightarrow> count_index schema r < length (ps_header schema)
         \<and> fs_type (ps_header schema ! count_index schema r) = T_integer
         \<and> \<not> fs_nullable (ps_header schema ! count_index schema r) \<and> rp_fields r \<noteq> []
         \<and> (case ps_trailer schema of None \<Rightarrow> True
            | Some t \<Rightarrow> fs_type (tr_countField t) = T_integer \<and> \<not> fs_nullable (tr_countField t) \<and> tr_fields t \<noteq> []))"

definition registered_ok :: "string \<times> InventoryPayloadSchema \<Rightarrow> bool" where
  "registered_ok r \<longleftrightarrow> OPERATION_CODE_RE (fst r) \<and> schema_ok (snd r) \<and> schema_ok (intentOf (keepOf (fst r)) (snd r))"

lemma registry_ok: "list_all registered_ok INVENTORY_PAYLOAD_SCHEMAS"
  by code_simp

lemma registry_complete: "map fst INVENTORY_PAYLOAD_SCHEMAS = INVENTORY_OPERATION_CODES"
  by code_simp

lemma registry_lookup:
  assumes "isInventoryOperationCode opCode"
  obtains schema where "map_of INVENTORY_PAYLOAD_SCHEMAS opCode = Some schema" "registered_ok (opCode, schema)"
proof -
  have "opCode \<in> fst ` set INVENTORY_PAYLOAD_SCHEMAS"
    using assms registry_complete by (metis isInventoryOperationCode_def set_map)
  then obtain schema where s: "map_of INVENTORY_PAYLOAD_SCHEMAS opCode = Some schema"
    by (metis map_of_eq_None_iff not_None_eq)
  then have "(opCode, schema) \<in> set INVENTORY_PAYLOAD_SCHEMAS" by (rule map_of_SomeD)
  with s show thesis using that registry_ok by (simp add: list_all_iff)
qed

subsection \<open>What the encoder accepts\<close>

fun fits :: "InventoryPayloadFieldSpec \<Rightarrow> InventoryPayloadField \<Rightarrow> bool" where
  "fits s F_null \<longleftrightarrow> fs_nullable s"
| "fits s (F_uuid v) \<longleftrightarrow> fs_type s = T_uuid \<and> is_uuid v"
| "fits s (F_boolean v) \<longleftrightarrow> fs_type s = T_boolean"
| "fits s (F_integer v) \<longleftrightarrow> fs_type s = T_integer
     \<and> (case payload_value v of None \<Rightarrow> False | Some n \<Rightarrow> INT8_MIN \<le> n \<and> n \<le> INT8_MAX)"
| "fits s (F_code v) \<longleftrightarrow> fs_type s = T_code \<and> REGISTRY_CODE_RE v"

fun field_bytes :: "InventoryPayloadField \<Rightarrow> string" where
  "field_bytes F_null = [NUL]"
| "field_bytes (F_uuid v) = v"
| "field_bytes (F_boolean v) = (if v then ''true'' else ''false'')"
| "field_bytes (F_integer v) = (case payload_value v of None \<Rightarrow> [] | Some n \<Rightarrow> int_string n)"
| "field_bytes (F_code v) = v"

text \<open>A number and a \<open>bigint\<close> of the same value are the same field.\<close>

fun canonField :: "InventoryPayloadField \<Rightarrow> InventoryPayloadField" where
  "canonField (F_integer v) = (case payload_value v of None \<Rightarrow> F_integer v | Some n \<Rightarrow> F_integer (Big n))"
| "canonField f = f"

lemma encodeField_eq_Inr [result_simps]: "encodeInventoryField f s = Inr b \<longleftrightarrow> fits s f \<and> b = field_bytes f"
  by (cases f) (auto simp: encodeInventoryField_def encodeUuid_def encodeInteger_def encodeCode_def split: option.splits if_splits)

definition solid :: "string \<Rightarrow> bool" where
  "solid b \<longleftrightarrow> b \<noteq> [] \<and> list_all (\<lambda>c. 32 \<le> (of_char c :: nat)) b"

lemma solid_framed: "solid b \<Longrightarrow> \<not> unframeable b" "solid b \<Longrightarrow> b \<noteq> [NUL]"
  by (auto simp: solid_def unframeable_def list_all_iff LF_def NUL_def)

lemma is_uuid_nonempty [simp]: "\<not> is_uuid []"
  by (simp add: is_uuid_def)

lemma is_uuid_solid: "is_uuid v \<Longrightarrow> solid v"
  using uuid_chars [of v] is_uuid_nonempty
  by (force simp: solid_def list_all_iff is_hex_def is_digit_def)

lemma registry_code_solid: "REGISTRY_CODE_RE v \<Longrightarrow> solid v"
  by (auto simp: REGISTRY_CODE_RE_def solid_def list_all_iff is_lower_def is_digit_def split: list.splits)

lemma int_string_solid': "solid (int_string n)"
  using nat_string_plain by (auto simp: solid_def int_string_def)

lemma boolean_solid: "solid ''true''" "solid ''false''"
  by (simp_all add: solid_def)

lemma field_solid: "fits s f \<Longrightarrow> f \<noteq> F_null \<Longrightarrow> solid (field_bytes f)"
  by (cases f) (auto simp: is_uuid_solid registry_code_solid int_string_solid' boolean_solid split: option.splits)

lemma field_framed: "fits s f \<Longrightarrow> \<not> unframeable (field_bytes f)"
  using solid_framed(1) [OF field_solid, of s f]
  by (cases "f = F_null") (simp_all add: unframeable_def NUL_def LF_def)

lemma int_string_inject [simp]: "int_string m = int_string n \<longleftrightarrow> m = n"
  by (metis signed_digits_int_string option.inject)

lemma field_inject:
  assumes "fits s f" "fits s g" "field_bytes f = field_bytes g" shows "canonField f = canonField g"
proof (cases "f = F_null \<or> g = F_null")
  case True
  with assms show ?thesis using field_solid [OF assms(1)] field_solid [OF assms(2)] solid_framed(2) by force
next
  case False
  with assms show ?thesis by (cases f; cases g) (auto split: option.splits if_splits)
qed

lemma encodeFields_eq_Inr:
  "length ss = length fs \<Longrightarrow> encodeFields ss fs = Inr bs \<longleftrightarrow> list_all2 fits ss fs \<and> bs = map field_bytes fs"
  by (induction ss fs arbitrary: bs rule: list_induct2) (auto simp: bindR_eq_Inr encodeField_eq_Inr)

lemma BigInt_text_int [simp]: "BigInt_text (int_string n) = n"
  using signed_digits_int_string [of n]
  by (auto simp: signed_digits_def BigInt_text_def split: prod.splits if_splits)

text \<open>The value a count field carries.\<close>

definition counts :: "InventoryPayloadField \<Rightarrow> nat \<Rightarrow> bool" where
  "counts f n \<longleftrightarrow> (case f of F_integer v \<Rightarrow> payload_value v = Some (int n) \<and> int n \<le> INT8_MAX | _ \<Rightarrow> False)"

lemma counts_unique: "counts f n \<Longrightarrow> counts g m \<Longrightarrow> canonField f = canonField g \<Longrightarrow> n = m"
  by (auto simp: counts_def split: InventoryPayloadField.splits option.splits)

lemma countAt_eq_Inr:
  "countAt fs i = Inr c \<longleftrightarrow> i < length fs \<and> (\<exists>n. c = int n \<and> counts (fs ! i) n)"
proof (cases "\<exists>v k. fs ! i = F_integer v \<and> payload_value v = Some k")
  case True
  then obtain v k where v: "fs ! i = F_integer v" "payload_value v = Some k" by blast
  have "(\<exists>n. c = int n \<and> k = int n \<and> k \<le> INT8_MAX) \<longleftrightarrow> 0 \<le> k \<and> c = k \<and> k \<le> INT8_MAX"
    by (metis of_nat_0_le_iff zero_le_imp_eq_int)
  moreover have "0 \<le> k \<Longrightarrow> \<not> k < INT8_MIN" by (simp add: INT8_MIN_def)
  ultimately show ?thesis
    by (auto simp: countAt_def counts_def encodeInteger_def bindR_eq_Inr if_refuse_eq_Inr Let_def v)
next
  case False
  then show ?thesis
    by (cases "fs ! i") (auto simp: countAt_def counts_def encodeInteger_def if_refuse_eq_Inr split: option.splits)
qed

lemma ex_int: "(\<exists>c. (\<exists>n. c = int n \<and> P n) \<and> Q c) \<longleftrightarrow> (\<exists>n. P n \<and> Q (int n))"
  by blast

lemma int_line_count: "int a = int b + int c * int d \<longleftrightarrow> a = b + c * d"
  by (metis of_nat_add of_nat_eq_iff of_nat_mult)

text \<open>The shape of a command: the specifications of its fields for given numbers of lines and of trailer groups.\<close>

definition shape :: "InventoryPayloadSchema \<Rightarrow> nat \<Rightarrow> nat \<Rightarrow> InventoryPayloadFieldSpec list" where
  "shape schema n m = ps_header schema @ (case ps_repeat schema of
       None \<Rightarrow> []
     | Some r \<Rightarrow> concat (replicate n (rp_fields r)) @ (case ps_trailer schema of
           None \<Rightarrow> []
         | Some t \<Rightarrow> tr_countField t # concat (replicate m (trailerGroup t (int n)))))"

text \<open>The counts a command states: the count field of its lines and of its trailer groups.\<close>

definition stated :: "InventoryPayloadSchema \<Rightarrow> InventoryPayloadField list \<Rightarrow> nat \<Rightarrow> nat \<Rightarrow> bool" where
  "stated schema fs n m = (case ps_repeat schema of
       None \<Rightarrow> n = 0 \<and> m = 0
     | Some r \<Rightarrow> counts (fs ! count_index schema r) n \<and> (case ps_trailer schema of
           None \<Rightarrow> m = 0
         | Some t \<Rightarrow> counts (fs ! (length (ps_header schema) + n * length (rp_fields r))) m))"

lemma length_concat_replicate [simp]: "length (concat (replicate n xs)) = n * length xs"
  by (induction n) auto

lemma length_trailerGroup: "length (trailerGroup t (int n)) = length (tr_fields t) + (case tr_perLine t of None \<Rightarrow> 0 | Some p \<Rightarrow> n)"
  by (simp add: trailerGroup_def split: option.splits)

lemma expandTrailer_eq_Inr:
  assumes "fs_type (tr_countField t) = T_integer" "\<not> fs_nullable (tr_countField t)" "tr_fields t \<noteq> []"
    "ps_repeat schema = Some r" "ps_trailer schema = Some t"
  shows "expandTrailer schema r t (int n) fs = Inr specs \<longleftrightarrow>
    (\<exists>m. counts (fs ! (length (ps_header schema) + n * length (rp_fields r))) m
       \<and> specs = shape schema n m \<and> length fs = length specs)"
proof -
  define b where "b = length (ps_header schema) + n * length (rp_fields r)"
  have b: "int (length (ps_header schema)) + int n * int (length (rp_fields r)) = int b" by (simp add: b_def)
  have w: "(int (length (tr_fields t)) + (case tr_perLine t of None \<Rightarrow> 0 | Some p \<Rightarrow> int n)) = int (length (trailerGroup t (int n)))"
    by (simp add: length_trailerGroup split: option.splits)
  have g: "int a = int b + 1 + int m * int k \<longleftrightarrow> a = b + 1 + m * k" for a m k
    by (metis of_nat_1 of_nat_add of_nat_eq_iff of_nat_mult)
  have l: "length (shape schema n m) = b + 1 + m * length (trailerGroup t (int n))" for m
    using assms by (simp add: shape_def b_def)
  show ?thesis
    unfolding expandTrailer_def Let_def b w using assms
    by (auto simp: if_refuse_eq_Inr bindR_eq_Inr countAt_eq_Inr g l b_def [symmetric]) (auto simp: shape_def)
qed

lemma expandSchema_eq_Inr:
  assumes "schema_ok schema"
  shows "expandSchema schema fs = Inr specs \<longleftrightarrow>
    (\<exists>n m. stated schema fs n m \<and> specs = shape schema n m \<and> length fs = length specs)"
proof (cases "ps_repeat schema")
  case None
  with assms show ?thesis by (auto simp: expandSchema_def schema_ok_def stated_def shape_def if_refuse_eq_Inr)
next
  case (Some r)
  define i where "i = count_index schema r"
  have i: "i < length (ps_header schema)" "fs_type (ps_header schema ! i) = T_integer" "\<not> fs_nullable (ps_header schema ! i)"
    "rp_fields r \<noteq> []"
    using assms Some by (auto simp: schema_ok_def i_def)
  show ?thesis
  proof (cases "ps_trailer schema")
    case None
    have l: "length (shape schema n m) = length (ps_header schema) + n * length (rp_fields r)" for n m
      using Some None by (simp add: shape_def)
    show ?thesis
      using Some None i
      by (auto simp: expandSchema_def Let_def count_index_def [symmetric] i_def [symmetric] bindR_eq_Inr countAt_eq_Inr if_refuse_eq_Inr
          int_line_count stated_def l) (auto simp: shape_def)
  next
    case t: (Some t)
    then have t': "fs_type (tr_countField t) = T_integer" "\<not> fs_nullable (tr_countField t)" "tr_fields t \<noteq> []"
      using assms Some by (auto simp: schema_ok_def)
    have l: "i < length (shape schema n m)" for n m using i by (simp add: shape_def)
    have "expandSchema schema fs = Inr specs \<longleftrightarrow> i < length fs
        \<and> (\<exists>n. counts (fs ! i) n \<and> expandTrailer schema r t (int n) fs = Inr specs)"
      using Some t i
      by (simp add: expandSchema_def Let_def count_index_def [symmetric] i_def [symmetric] bindR_eq_Inr countAt_eq_Inr
          conj_assoc ex_int)
    then show ?thesis using l unfolding expandTrailer_eq_Inr [OF t' Some t]
      by (auto simp: stated_def Some t i_def)
  qed
qed

text \<open>A command follows its schema when it has the shape its counts state and every field fits its place.\<close>

definition follows :: "InventoryPayloadSchema \<Rightarrow> InventoryPayloadField list \<Rightarrow> bool" where
  "follows schema fs \<longleftrightarrow> (\<exists>n m. stated schema fs n m \<and> list_all2 fits (shape schema n m) fs)"

lemma framed_lines:
  assumes "OPERATION_CODE_RE opCode" "is_uuid t" "is_uuid b" "list_all2 fits ss fs"
  shows "\<not> list_ex unframeable (INVPL_DOMAIN # opCode # t # b # map field_bytes fs)"
    "list_all (\<lambda>l. LF \<notin> set l) (INVPL_DOMAIN # opCode # t # b # map field_bytes fs)"
proof -
  have "solid opCode"
  proof -
    have join: "concat (map (\<lambda>s. s @ [CHR ''.'']) (splitOn (CHR ''.'') s)) = s @ [CHR ''.'']" for s
      by (induction s) (auto split: list.splits)
    obtain s t r where segs: "splitOn (CHR ''.'') opCode = s # t # r" "s \<noteq> []"
      "list_all (list_all (\<lambda>c. is_lower c \<or> c = CHR ''_'')) (s # t # r)"
      using assms(1) by (auto simp: OPERATION_CODE_RE_def op_segments_ok_def list_all_iff split: list.splits)
    have "c \<in> set opCode \<Longrightarrow> c = CHR ''.'' \<or> (\<exists>x \<in> set (s # t # r). c \<in> set x)" for c
    proof -
      assume "c \<in> set opCode"
      then have "c \<in> set (concat (map (\<lambda>s. s @ [CHR ''.'']) (s # t # r)))"
        using join [of opCode] segs(1) by (metis UnI1 set_append)
      then show ?thesis by (auto split: if_splits)
    qed
    then have "32 \<le> (of_char c :: nat)" if "c \<in> set opCode" for c
      using segs(3) that by (fastforce simp: list_all_iff is_lower_def)
    moreover have "opCode \<noteq> []" using segs by auto
    ultimately show ?thesis by (auto simp: solid_def list_all_iff)
  qed
  moreover have "solid INVPL_DOMAIN" by (simp add: solid_def INVPL_DOMAIN_def)
  moreover have "\<not> unframeable x" if "x \<in> set (map field_bytes fs)" for x
    using assms(4) that by (auto simp: list_all2_conv_all_nth in_set_conv_nth dest!: field_framed)
  ultimately show "\<not> list_ex unframeable (INVPL_DOMAIN # opCode # t # b # map field_bytes fs)"
    using assms(2,3) by (auto simp: list_ex_iff is_uuid_solid solid_framed)
  then show "list_all (\<lambda>l. LF \<notin> set l) (INVPL_DOMAIN # opCode # t # b # map field_bytes fs)"
    by (simp add: unframeable_def list_ex_iff list_all_iff)
qed

lemma payloadStream_eq_Inr:
  assumes "schema_ok schema" "OPERATION_CODE_RE opCode"
  shows "payloadStream opCode t b schema fs = Inr x \<longleftrightarrow> is_uuid t \<and> is_uuid b \<and> follows schema fs
     \<and> x = framed (INVPL_DOMAIN # opCode # t # b # map field_bytes fs)"
proof -
  have "payloadStream opCode t b schema fs = Inr x \<longleftrightarrow> is_uuid t \<and> is_uuid b
     \<and> (\<exists>specs. expandSchema schema fs = Inr specs \<and> list_all2 fits specs fs)
     \<and> x = framed (INVPL_DOMAIN # opCode # t # b # map field_bytes fs)" (is "?l \<longleftrightarrow> ?r")
  proof
    assume ?l
    then obtain specs encs where s: "expandSchema schema fs = Inr specs" "encodeFields specs fs = Inr encs" "is_uuid t" "is_uuid b"
      "x = framed (INVPL_DOMAIN # opCode # t # b # encs)"
      by (auto simp: payloadStream_def bindR_eq_Inr encodeUuid_def Let_def if_refuse_eq_Inr)
    from s(1) have "length specs = length fs" by (auto simp: expandSchema_eq_Inr [OF assms(1)])
    with s show ?r by (auto simp: encodeFields_eq_Inr)
  next
    assume ?r
    then obtain specs where s: "expandSchema schema fs = Inr specs" "list_all2 fits specs fs" "is_uuid t" "is_uuid b"
      "x = framed (INVPL_DOMAIN # opCode # t # b # map field_bytes fs)" by blast
    have "encodeFields specs fs = Inr (map field_bytes fs)"
      using s(2) by (simp add: encodeFields_eq_Inr list_all2_lengthD)
    with s framed_lines(1) [OF assms(2) s(3,4,2)] show ?l
      by (simp add: payloadStream_def encodeUuid_def Let_def)
  qed
  also have "(\<exists>specs. expandSchema schema fs = Inr specs \<and> list_all2 fits specs fs) \<longleftrightarrow> follows schema fs"
    unfolding expandSchema_eq_Inr [OF assms(1)] follows_def by (metis list_all2_lengthD)
  finally show ?thesis .
qed

lemma canonicalPayload_eq_Inr:
  "canonicalInventoryPayload op t b fs = Inr x \<longleftrightarrow>
     is_uuid t \<and> is_uuid b \<and> (\<exists>schema. map_of INVENTORY_PAYLOAD_SCHEMAS op = Some schema \<and> follows schema fs)
     \<and> x = framed (INVPL_DOMAIN # op # t # b # map field_bytes fs)"
proof (cases "isInventoryOperationCode op")
  case True
  then obtain schema where "map_of INVENTORY_PAYLOAD_SCHEMAS op = Some schema" "registered_ok (op, schema)"
    by (rule registry_lookup)
  then show ?thesis using True by (auto simp: canonicalInventoryPayload_def registered_ok_def payloadStream_eq_Inr)
next
  case False
  then have "map_of INVENTORY_PAYLOAD_SCHEMAS op = None"
    using registry_complete by (simp add: map_of_eq_None_iff isInventoryOperationCode_def flip: set_map)
  with False show ?thesis by (simp add: canonicalInventoryPayload_def)
qed

lemma canonicalIntent_eq_Inr:
  "canonicalInventoryIntent op t b fs = Inr x \<longleftrightarrow>
     is_uuid t \<and> is_uuid b
     \<and> (\<exists>schema. map_of INVENTORY_PAYLOAD_SCHEMAS op = Some schema \<and> follows (intentOf (keepOf op) schema) fs)
     \<and> x = framed (INVPL_DOMAIN # op # t # b # map field_bytes fs)"
proof (cases "isInventoryOperationCode op")
  case True
  then obtain schema where "map_of INVENTORY_PAYLOAD_SCHEMAS op = Some schema" "registered_ok (op, schema)"
    by (rule registry_lookup)
  then show ?thesis using True
    by (auto simp: canonicalInventoryIntent_def inventoryIntentSchema_def registered_ok_def payloadStream_eq_Inr)
next
  case False
  then have "map_of INVENTORY_PAYLOAD_SCHEMAS op = None"
    using registry_complete by (simp add: map_of_eq_None_iff isInventoryOperationCode_def flip: set_map)
  with False show ?thesis by (simp add: canonicalInventoryIntent_def)
qed

lemma registered_schema:
  assumes "map_of INVENTORY_PAYLOAD_SCHEMAS op = Some schema"
  shows "registered_ok (op, schema)" "OPERATION_CODE_RE op" "schema_ok schema" "schema_ok (intentOf (keepOf op) schema)"
    "isInventoryOperationCode op"
proof -
  have m: "(op, schema) \<in> set INVENTORY_PAYLOAD_SCHEMAS" using assms by (rule map_of_SomeD)
  then show "registered_ok (op, schema)" using registry_ok by (simp add: list_all_iff)
  then show "OPERATION_CODE_RE op" "schema_ok schema" "schema_ok (intentOf (keepOf op) schema)"
    by (simp_all add: registered_ok_def)
  from m have "op \<in> set (map fst INVENTORY_PAYLOAD_SCHEMAS)" by force
  then show "isInventoryOperationCode op" by (simp add: registry_complete isInventoryOperationCode_def)
qed

subsection \<open>The stream determines the command\<close>

interpretation framing: separated LF "\<lambda>l. LF \<notin> set l"
  by unfold_locales simp

lemma framed_inject:
  assumes "list_all (\<lambda>l. LF \<notin> set l) xs" "list_all (\<lambda>l. LF \<notin> set l) ys" "framed xs = framed ys" shows "xs = ys"
  using framing.terminated_inject assms unfolding framed_def by blast

lemma fields_inject:
  assumes "list_all2 fits ss fs" "list_all2 fits ss' gs" "map field_bytes fs = map field_bytes gs"
    "take k ss = take k ss'" "i < k" "i < length fs"
  shows "canonField (fs ! i) = canonField (gs ! i)"
proof -
  have l: "length ss = length fs" "length ss' = length gs" "length fs = length gs"
    using assms list_all2_lengthD map_eq_imp_length_eq by blast+
  have "fits (ss ! i) (fs ! i)" "fits (ss' ! i) (gs ! i)"
    using assms(1,2,6) l by (auto simp: list_all2_conv_all_nth)
  moreover have "ss ! i = ss' ! i" using assms(4,5) by (metis nth_take)
  moreover have "field_bytes (fs ! i) = field_bytes (gs ! i)" using assms(3,6) l by (metis nth_map)
  ultimately show ?thesis using field_inject by metis
qed

lemma shape_take: "k \<le> length (ps_header schema) \<Longrightarrow> take k (shape schema n m) = take k (ps_header schema)"
  by (simp add: shape_def)

lemma shape_take_trailer:
  assumes "ps_repeat schema = Some r" "ps_trailer schema = Some t"
  shows "take (Suc (length (ps_header schema) + n * length (rp_fields r))) (shape schema n m)
    = ps_header schema @ concat (replicate n (rp_fields r)) @ [tr_countField t]"
  using assms by (simp add: shape_def)

text \<open>Equal bytes under one schema: the stated counts agree, and so does every field.\<close>

lemma follows_inject:
  assumes "schema_ok schema" "follows schema fs" "follows schema gs" "map field_bytes fs = map field_bytes gs"
  shows "map canonField fs = map canonField gs"
proof -
  from assms(2,3) obtain n m n' m' where f: "stated schema fs n m" "list_all2 fits (shape schema n m) fs"
    and g: "stated schema gs n' m'" "list_all2 fits (shape schema n' m') gs" by (auto simp: follows_def)
  have l: "length fs = length gs" using assms(4) by (rule map_eq_imp_length_eq)
  note inject = fields_inject [OF f(2) g(2) assms(4)]
  have "shape schema n m = shape schema n' m'"
  proof (cases "ps_repeat schema")
    case (Some r)
    define i where "i = count_index schema r"
    have i: "i < length (ps_header schema)" using assms(1) Some by (auto simp: schema_ok_def i_def)
    then have "i < length fs" using f(2) by (auto dest!: list_all2_lengthD simp: shape_def)
    with i have "canonField (fs ! i) = canonField (gs ! i)"
      by (intro inject [of "Suc i"]) (simp_all add: shape_take)
    then have n: "n = n'" using f(1) g(1) counts_unique by (auto simp: stated_def Some i_def)
    show ?thesis
    proof (cases "ps_trailer schema")
      case None
      with n Some show ?thesis by (simp add: shape_def)
    next
      case t: (Some t)
      define j where "j = length (ps_header schema) + n * length (rp_fields r)"
      have "j < length fs" using f(2) by (auto dest!: list_all2_lengthD simp: shape_def Some t j_def)
      then have "canonField (fs ! j) = canonField (gs ! j)"
        by (intro inject [of "Suc j"]) (simp_all add: shape_take_trailer [OF Some t] j_def flip: n)
      then have "m = m'" using f(1) g(1) counts_unique by (auto simp: stated_def Some t j_def simp flip: n)
      with n show ?thesis by simp
    qed
  qed (simp add: shape_def)
  then have "i < length fs \<Longrightarrow> canonField (fs ! i) = canonField (gs ! i)" for i
    by (intro inject [of "Suc i"]) simp_all
  then show ?thesis using l by (simp add: list_eq_iff_nth_eq)
qed

lemma framed_command:
  assumes "is_uuid t" "is_uuid b" "OPERATION_CODE_RE op" "follows schema fs"
    "is_uuid t'" "is_uuid b'" "OPERATION_CODE_RE op'" "follows schema' gs"
    "framed (INVPL_DOMAIN # op # t # b # map field_bytes fs) = framed (INVPL_DOMAIN # op' # t' # b' # map field_bytes gs)"
  shows "op = op' \<and> t = t' \<and> b = b' \<and> map field_bytes fs = map field_bytes gs"
proof -
  from assms(4,8) obtain ss ss' where "list_all2 fits ss fs" "list_all2 fits ss' gs" by (auto simp: follows_def)
  with assms have "INVPL_DOMAIN # op # t # b # map field_bytes fs = INVPL_DOMAIN # op' # t' # b' # map field_bytes gs"
    by (intro framed_inject framed_lines(2))
  then show ?thesis by simp
qed

subsection \<open>The intent is the command with the derived lines struck out\<close>

definition project :: "('s \<Rightarrow> bool) \<Rightarrow> 's list \<Rightarrow> 'f list \<Rightarrow> 'f list" where
  "project keep ss fs = map snd (filter (\<lambda>p. keep (fst p)) (zip ss fs))"

text \<open>What the registry guarantees of an intent: a group whose count is derived is derived as a whole.\<close>

definition trailer_dropped :: "(InventoryPayloadFieldSpec \<Rightarrow> bool) \<Rightarrow> InventoryPayloadTrailer \<Rightarrow> bool" where
  "trailer_dropped keep t \<longleftrightarrow> \<not> keep (tr_countField t) \<and> \<not> list_ex keep (tr_fields t)
     \<and> (case tr_perLine t of None \<Rightarrow> True | Some p \<Rightarrow> \<not> keep p)"

definition projectable :: "(InventoryPayloadFieldSpec \<Rightarrow> bool) \<Rightarrow> InventoryPayloadSchema \<Rightarrow> bool" where
  "projectable keep schema = (case ps_repeat schema of
       None \<Rightarrow> True
     | Some r \<Rightarrow>
         (if keep (ps_header schema ! count_index schema r)
          then (case ps_trailer schema of None \<Rightarrow> True
                | Some t \<Rightarrow> rp_countField r = ''line_count'' \<and> (keep (tr_countField t) \<or> trailer_dropped keep t))
          else \<not> list_ex keep (rp_fields r) \<and> (case ps_trailer schema of None \<Rightarrow> True | Some t \<Rightarrow> trailer_dropped keep t)))"

lemma registry_projectable: "list_all (\<lambda>r. projectable (keepOf (fst r)) (snd r)) INVENTORY_PAYLOAD_SCHEMAS"
  by code_simp

lemma keep_name: "fs_name s = fs_name s' \<Longrightarrow> keepOf op s = keepOf op s'"
  by (simp add: keepOf_def intent_keep_def split: option.split)

lemma filter_concat_replicate: "filter P (concat (replicate n xs)) = concat (replicate n (filter P xs))"
  by (induction n) auto

lemma filter_replicate_all: "filter P (replicate n x) = (if P x then replicate n x else [])"
  by (induction n) auto

lemma filter_index: "i < length xs \<Longrightarrow> P (xs ! i) \<Longrightarrow> filter P xs ! length (filter P (take i xs)) = xs ! i"
proof -
  assume i: "i < length xs" "P (xs ! i)"
  then have "filter P xs = filter P (take i xs @ xs ! i # drop (Suc i) xs)" using id_take_nth_drop by metis
  with i(2) show ?thesis by (simp add: nth_append)
qed

lemma project_index:
  assumes "length ss = length fs" "i < length fs" "keep (ss ! i)"
  shows "project keep ss fs ! length (filter keep (take i ss)) = fs ! i"
proof -
  let ?P = "\<lambda>p. keep (fst p)"
  have "length (filter keep (take i ss)) = length (filter ?P (take i (zip ss fs)))"
    using assms by (simp add: take_zip filter_map [of keep fst, unfolded comp_def, symmetric] flip: length_map [of fst])
  moreover have "filter ?P (zip ss fs) ! length (filter ?P (take i (zip ss fs))) = zip ss fs ! i"
    using assms by (intro filter_index) simp_all
  moreover have "length (filter ?P (take i (zip ss fs))) < length (filter ?P (zip ss fs))"
  proof -
    have "filter ?P (zip ss fs) = filter ?P (take i (zip ss fs)) @ filter ?P (drop i (zip ss fs))"
      by (metis append_take_drop_id filter_append)
    moreover have "drop i (zip ss fs) = zip ss fs ! i # drop (Suc i) (zip ss fs)"
      using assms(1,2) by (intro Cons_nth_drop_Suc [symmetric]) simp
    then have "zip ss fs ! i \<in> set (drop i (zip ss fs))" "?P (zip ss fs ! i)"
      using assms by simp_all
    then have "filter ?P (drop i (zip ss fs)) \<noteq> []" by (metis filter_empty_conv)
    ultimately show ?thesis by simp
  qed
  ultimately show ?thesis using assms by (simp add: project_def)
qed

lemma project_fits: "list_all2 fits ss fs \<Longrightarrow> list_all2 fits (filter keep ss) (project keep ss fs)"
  by (induction ss fs rule: list_all2_induct) (simp_all add: project_def)

lemma takeWhile_filter_name:
  assumes "length (takeWhile (\<lambda>s. fs_name s \<noteq> c) xs) < length xs" "keep (xs ! length (takeWhile (\<lambda>s. fs_name s \<noteq> c) xs))"
  shows "takeWhile (\<lambda>s. fs_name s \<noteq> c) (filter keep xs) = filter keep (takeWhile (\<lambda>s. fs_name s \<noteq> c) xs)"
  using assms by (induction xs) (auto split: if_splits)

lemma count_index_name:
  "count_index schema r < length (ps_header schema) \<Longrightarrow> fs_name (ps_header schema ! count_index schema r) = rp_countField r"
  unfolding count_index_def using nth_length_takeWhile by fastforce

lemma take_count_index: "take (count_index schema r) (ps_header schema) = takeWhile (\<lambda>s. fs_name s \<noteq> rp_countField r) (ps_header schema)"
  by (simp add: count_index_def takeWhile_eq_take [symmetric])

text \<open>The intent schema, and the two counts it keeps.\<close>

lemma intent_shape:
  assumes keep: "\<And>s s'. fs_name s = fs_name s' \<Longrightarrow> keep s = keep s'" and ok: "schema_ok schema" "projectable keep schema"
    and st: "stated schema fs n m" and l: "length fs = length (shape schema n m)"
  shows "\<exists>n' m'. filter keep (shape schema n m) = shape (intentOf keep schema) n' m'
    \<and> stated (intentOf keep schema) (project keep (shape schema n m) fs) n' m'"
proof (cases "ps_repeat schema")
  case None
  with st show ?thesis by (simp add: shape_def intentOf_def header_only_def stated_def)
next
  case (Some r)
  define i where "i = count_index schema r"
  have i: "i < length (ps_header schema)" using ok(1) Some by (auto simp: schema_ok_def i_def)
  have ex: "list_ex (\<lambda>s. fs_name s = rp_countField r) (filter keep (ps_header schema)) \<longleftrightarrow> keep (ps_header schema ! i)"
  proof
    assume "list_ex (\<lambda>s. fs_name s = rp_countField r) (filter keep (ps_header schema))"
    then obtain s where "keep s" "fs_name s = rp_countField r" by (auto simp: list_ex_iff)
    moreover have "fs_name (ps_header schema ! i) = rp_countField r" using i count_index_name by (simp add: i_def)
    ultimately show "keep (ps_header schema ! i)" using keep [of s "ps_header schema ! i"] by simp
  next
    assume "keep (ps_header schema ! i)"
    moreover have "fs_name (ps_header schema ! i) = rp_countField r" using i count_index_name by (simp add: i_def)
    ultimately show "list_ex (\<lambda>s. fs_name s = rp_countField r) (filter keep (ps_header schema))"
      using nth_mem [OF i] by (simp add: list_ex_iff, blast)
  qed
  show ?thesis
  proof (cases "keep (ps_header schema ! i)")
    case False
    then have "intentOf keep schema = header_only (filter keep (ps_header schema))"
      using ex by (simp add: intentOf_def Some Let_def)
    moreover have "filter keep (shape schema n m) = filter keep (ps_header schema)"
      using ok(2) False
      by (auto simp: shape_def Some projectable_def i_def filter_concat_replicate trailer_dropped_def trailerGroup_def
          filter_empty_conv list_ex_iff split: option.splits)
    ultimately show ?thesis by (simp add: shape_def header_only_def stated_def)
  next
    case True
    let ?fs = "project keep (shape schema n m) fs"
    have first: "count_index \<lparr>ps_header = filter keep (ps_header schema), ps_repeat = q, ps_trailer = u\<rparr>
        \<lparr>rp_countField = rp_countField r, rp_fields = v\<rparr> = length (filter keep (take i (ps_header schema)))" for q u v
    proof -
      have "take i (ps_header schema) = takeWhile (\<lambda>s. fs_name s \<noteq> rp_countField r) (ps_header schema)"
        by (simp add: i_def take_count_index)
      with takeWhile_filter_name [of "rp_countField r" "ps_header schema" keep] i True show ?thesis
        by (simp add: count_index_def i_def)
    qed
    have "?fs ! length (filter keep (take i (shape schema n m))) = fs ! i"
      using i l True by (intro project_index) (simp_all add: shape_def nth_append)
    then have fi: "?fs ! length (filter keep (take i (ps_header schema))) = fs ! i"
      using i by (simp add: shape_take)
    have n: "counts (fs ! i) n" using st by (simp add: stated_def Some i_def)
    show ?thesis
    proof (cases "ps_trailer schema")
      case None
      then have "intentOf keep schema = withGroup (filter keep (ps_header schema)) (rp_countField r) (filter keep (rp_fields r))"
        using True ex by (simp add: intentOf_def Some Let_def)
      then show ?thesis using first fi n None st
        by (intro exI [of _ n] exI [of _ 0]) (simp add: shape_def Some withGroup_def filter_concat_replicate stated_def)
    next
      case t: (Some t)
      have lc: "rp_countField r = ''line_count''" using ok(2) True by (simp add: projectable_def Some t i_def)
      show ?thesis
      proof (cases "keep (tr_countField t)")
        case False
        then have "intentOf keep schema = withGroup (filter keep (ps_header schema)) (rp_countField r) (filter keep (rp_fields r))"
          using True ex by (simp add: intentOf_def Some t Let_def)
        moreover have "trailer_dropped keep t" using ok(2) True False by (simp add: projectable_def Some t i_def)
        then have "filter keep (shape schema n m) = filter keep (ps_header schema) @ concat (replicate n (filter keep (rp_fields r)))"
          by (auto simp: shape_def Some t filter_concat_replicate trailer_dropped_def trailerGroup_def
              filter_empty_conv list_ex_iff split: option.splits)
        ultimately show ?thesis using first fi n
          by (intro exI [of _ n] exI [of _ 0]) (simp add: shape_def withGroup_def stated_def)
      next
        case tc: True
        define j where "j = length (ps_header schema) + n * length (rp_fields r)"
        have m: "counts (fs ! j) m" using st by (simp add: stated_def Some t j_def)
        have tj: "take j (shape schema n m) = ps_header schema @ concat (replicate n (rp_fields r))"
          by (simp add: shape_def Some t j_def)
        have "shape schema n m ! j = tr_countField t" "j < length (shape schema n m)"
          by (simp_all add: shape_def Some t j_def nth_append)
        then have "?fs ! length (filter keep (take j (shape schema n m))) = fs ! j"
          using l tc by (intro project_index) simp_all
        then have fj: "?fs ! (length (filter keep (ps_header schema)) + n * length (filter keep (rp_fields r))) = fs ! j"
          by (simp add: tj filter_concat_replicate)
        define t' where "t' = \<lparr>tr_countField = tr_countField t, tr_fields = filter keep (tr_fields t),
          tr_perLine = (case tr_perLine t of None \<Rightarrow> None | Some p \<Rightarrow> if keep p then Some p else None)\<rparr>"
        have g: "filter keep (trailerGroup t (int n)) = trailerGroup t' (int n)"
          by (simp add: trailerGroup_def t'_def filter_replicate_all split: option.splits)
        have "intentOf keep schema = withLinesAndTrailer (filter keep (ps_header schema)) (filter keep (rp_fields r)) t'"
          using True tc ex by (simp add: intentOf_def Some t Let_def t'_def)
        then show ?thesis using first fi n fj m tc g
          by (intro exI [of _ n] exI [of _ m])
             (simp add: shape_def Some t withLinesAndTrailer_def filter_concat_replicate stated_def lc [symmetric] t'_def)
      qed
    qed
  qed
qed

text \<open>The fields of a command that its intent carries.\<close>

definition intentFields :: "string \<Rightarrow> InventoryPayloadField list \<Rightarrow> InventoryPayloadField list" where
  "intentFields op fs = (case map_of INVENTORY_PAYLOAD_SCHEMAS op of
       None \<Rightarrow> []
     | Some schema \<Rightarrow> (case expandSchema schema fs of Inl e \<Rightarrow> [] | Inr ss \<Rightarrow> project (keepOf op) ss fs))"

lemma intentFields_follow:
  assumes "map_of INVENTORY_PAYLOAD_SCHEMAS op = Some schema" "follows schema fs"
  shows "follows (intentOf (keepOf op) schema) (intentFields op fs)"
proof -
  note ok = registered_schema [OF assms(1)]
  have "projectable (keepOf op) schema"
    using registry_projectable map_of_SomeD [OF assms(1)] by (force simp: list_all_iff)
  then have proj: "projectable (keepOf op) schema" by simp
  from assms(2) obtain n m where f: "stated schema fs n m" "list_all2 fits (shape schema n m) fs" by (auto simp: follows_def)
  then have l: "length fs = length (shape schema n m)" by (simp add: list_all2_lengthD)
  then have "expandSchema schema fs = Inr (shape schema n m)" using f(1) by (auto simp: expandSchema_eq_Inr [OF ok(3)])
  then have "intentFields op fs = project (keepOf op) (shape schema n m) fs" by (simp add: intentFields_def assms(1))
  moreover from intent_shape [OF keep_name ok(3) proj f(1) l] obtain n' m'
    where "filter (keepOf op) (shape schema n m) = shape (intentOf (keepOf op) schema) n' m'"
      "stated (intentOf (keepOf op) schema) (project (keepOf op) (shape schema n m) fs) n' m'" by blast
  ultimately show ?thesis using project_fits [OF f(2), of "keepOf op"] unfolding follows_def by auto
qed

lemma intent_of_command:
  assumes "canonicalInventoryPayload op t b fs = Inr x"
  shows "canonicalInventoryIntent op t b (intentFields op fs)
    = Inr (framed (INVPL_DOMAIN # op # t # b # map field_bytes (intentFields op fs)))"
  using assms by (auto simp: canonicalPayload_eq_Inr canonicalIntent_eq_Inr intentFields_follow)

subsection \<open>Refusals\<close>

lemma encode_refused: "encodeInventoryField f s = Inl e \<Longrightarrow> e = InventoryError payload_invalid"
  by (auto simp: encodeInventoryField_def encodeUuid_def encodeInteger_def encodeCode_def
      split: InventoryPayloadField.splits if_splits option.splits)

lemma encodeFields_refused: "encodeFields ss fs = Inl e \<Longrightarrow> e = InventoryError payload_invalid"
  by (induction ss fs rule: encodeFields.induct) (auto simp: bindR_eq_Inl dest: encode_refused)

lemma countAt_refused: "countAt fs i = Inl e \<Longrightarrow> e = InventoryError payload_invalid"
  by (auto simp: countAt_def bindR_eq_Inl encodeInteger_def Let_def split: if_splits InventoryPayloadField.splits option.splits)

lemma expandTrailer_refused: "expandTrailer schema r t n fs = Inl e \<Longrightarrow> e = InventoryError payload_invalid"
  by (auto simp: expandTrailer_def Let_def bindR_eq_Inl dest: countAt_refused split: if_splits)

lemma expandSchema_refused: "expandSchema schema fs = Inl e \<Longrightarrow> e = InventoryError payload_invalid"
  by (auto simp: expandSchema_def Let_def bindR_eq_Inl dest: countAt_refused expandTrailer_refused split: if_splits option.splits)

lemma payloadStream_refused: "payloadStream op t b schema fs = Inl e \<Longrightarrow> e = InventoryError payload_invalid"
  by (auto simp: payloadStream_def Let_def bindR_eq_Inl encodeUuid_def dest: expandSchema_refused encodeFields_refused split: if_splits)

lemma canonicalPayload_refused: "canonicalInventoryPayload op t b fs = Inl e \<Longrightarrow> e = InventoryError payload_invalid"
  by (auto simp: canonicalInventoryPayload_def dest: payloadStream_refused split: if_splits option.splits)

lemma streams_determine:
  assumes "canonicalInventoryPayload op t b fs = Inr x \<and> canonicalInventoryPayload op' t' b' gs = Inr x
    \<or> canonicalInventoryIntent op t b fs = Inr x \<and> canonicalInventoryIntent op' t' b' gs = Inr x"
  shows "op = op' \<and> t = t' \<and> b = b' \<and> map canonField fs = map canonField gs"
proof -
  from assms obtain s s' where s: "map_of INVENTORY_PAYLOAD_SCHEMAS op = Some s" "map_of INVENTORY_PAYLOAD_SCHEMAS op' = Some s'"
    and cases: "follows s fs \<and> follows s' gs \<or> follows (intentOf (keepOf op) s) fs \<and> follows (intentOf (keepOf op') s') gs"
    and u: "is_uuid t" "is_uuid b" "is_uuid t'" "is_uuid b'"
    and x: "framed (INVPL_DOMAIN # op # t # b # map field_bytes fs) = framed (INVPL_DOMAIN # op' # t' # b' # map field_bytes gs)"
    by (auto simp: canonicalPayload_eq_Inr canonicalIntent_eq_Inr)
  note ok = registered_schema [OF s(1)] registered_schema [OF s(2)]
  from cases obtain w w' where "follows w fs" "follows w' gs" by blast
  with framed_command [OF u(1,2) ok(2) _ u(3,4) ok(7) _ x]
  have eq: "op = op'" "t = t'" "b = b'" "map field_bytes fs = map field_bytes gs" by blast+
  with s have "s' = s" by simp
  with cases eq(1) ok(3,4) follows_inject eq(4) have "map canonField fs = map canonField gs" by metis
  with eq show ?thesis by simp
qed

subsection \<open>Properties\<close>

text \<open>C17: A command is encoded exactly when its operation is registered, tenant and business are canonical identifiers and
  its fields follow the schema of the operation: there are numbers of lines and of trailer groups, stated by the count
  fields, under which every field fits the type, the range and the nullability of its place. Anything else is refused with
  one code; the malformed-schema refusals and the framing assertion are unreachable.\<close>

theorem payload_accepts_exactly:
  "canonicalInventoryPayload op t b fs = (case map_of INVENTORY_PAYLOAD_SCHEMAS op of
       None \<Rightarrow> payload_refused
     | Some schema \<Rightarrow>
         if is_uuid t \<and> is_uuid b \<and> (\<exists>n m. stated schema fs n m \<and> list_all2 fits (shape schema n m) fs)
         then Inr (framed (INVPL_DOMAIN # op # t # b # map field_bytes fs)) else payload_refused)"
proof (cases "canonicalInventoryPayload op t b fs")
  case (Inl e)
  moreover from this canonicalPayload_eq_Inr [of op t b fs "framed (INVPL_DOMAIN # op # t # b # map field_bytes fs)"]
  have "\<not> (is_uuid t \<and> is_uuid b \<and> (\<exists>schema. map_of INVENTORY_PAYLOAD_SCHEMAS op = Some schema \<and> follows schema fs))" by simp
  ultimately show ?thesis using canonicalPayload_refused [OF Inl]
    by (simp add: follows_def split: option.splits) blast
next
  case (Inr x)
  from iffD1 [OF canonicalPayload_eq_Inr Inr] obtain schema where "is_uuid t" "is_uuid b"
    "map_of INVENTORY_PAYLOAD_SCHEMAS op = Some schema" "follows schema fs"
    "x = framed (INVPL_DOMAIN # op # t # b # map field_bytes fs)" by blast
  with Inr show ?thesis by (simp add: follows_def)
qed

text \<open>C18: The bytes a signature covers determine the command: two accepted commands with the same stream are the same
  operation, of the same tenant and business, with the same fields, a number and a bigint of one value being one field.
  The same holds of the streams of intents.\<close>

theorem payload_stream_determines:
  assumes "canonicalInventoryPayload op t b fs = Inr x \<and> canonicalInventoryPayload op' t' b' gs = Inr x
    \<or> canonicalInventoryIntent op t b fs = Inr x \<and> canonicalInventoryIntent op' t' b' gs = Inr x"
  shows "op = op' \<and> t = t' \<and> b = b' \<and> map canonField fs = map canonField gs"
  using assms by (rule streams_determine)

definition sample_uuid :: string where "sample_uuid = ''0b000000-0000-4000-8000-000000000002''"

definition sample_cancel :: "payload_int \<Rightarrow> InventoryPayloadField list" where
  "sample_cancel v = [F_uuid sample_uuid, F_uuid sample_uuid, F_integer v]"

lemma accepted_exists: "\<not> isl m \<Longrightarrow> \<exists>x. m = Inr x"
  by (cases m) auto

theorem payload_stream_determines_witness:
  "map canonField (sample_cancel (Num (Finite 3))) = map canonField (sample_cancel (Big 3))"
proof -
  have "\<not> isl (canonicalInventoryPayload ''purchase.cancel'' sample_uuid sample_uuid (sample_cancel (Big 3)))"
    by code_simp
  then obtain x where x: "canonicalInventoryPayload ''purchase.cancel'' sample_uuid sample_uuid (sample_cancel (Big 3)) = Inr x"
    using accepted_exists by blast
  moreover have "canonicalInventoryPayload ''purchase.cancel'' sample_uuid sample_uuid (sample_cancel (Num (Finite 3)))
      = canonicalInventoryPayload ''purchase.cancel'' sample_uuid sample_uuid (sample_cancel (Big 3))" by code_simp
  ultimately have "canonicalInventoryPayload ''purchase.cancel'' sample_uuid sample_uuid (sample_cancel (Num (Finite 3))) = Inr x
    \<and> canonicalInventoryPayload ''purchase.cancel'' sample_uuid sample_uuid (sample_cancel (Big 3)) = Inr x" by simp
  from payload_stream_determines [OF disjI1, OF this] show ?thesis by simp
qed

lemma intent_streams_agree:
  assumes "canonicalInventoryPayload op t b fs = Inr x" "canonicalInventoryPayload op' t' b' gs = Inr y"
  shows "canonicalInventoryIntent op t b (intentFields op fs)
      = Inr (framed (INVPL_DOMAIN # op # t # b # map field_bytes (intentFields op fs)))
   \<and> (canonicalInventoryIntent op t b (intentFields op fs) = canonicalInventoryIntent op' t' b' (intentFields op' gs)
      \<longleftrightarrow> op = op' \<and> t = t' \<and> b = b' \<and> map canonField (intentFields op fs) = map canonField (intentFields op' gs))"
proof -
  have "field_bytes (canonField f) = field_bytes f" for f
    by (cases f) (auto split: option.splits)
  then have "map field_bytes us = map field_bytes (map canonField us)" for us by simp
  then have bytes: "map field_bytes us = map field_bytes vs" if "map canonField us = map canonField vs" for us vs
    using that by metis
  note i = intent_of_command [OF assms(1)] and j = intent_of_command [OF assms(2)]
  show ?thesis (is "?i \<and> (?e \<longleftrightarrow> ?c)")
  proof (rule conjI [OF i], rule iffI)
    assume e: ?e
    from e j i show ?c by (intro streams_determine disjI2) simp
  next
    assume ?c
    then have "op = op'" "t = t'" "b = b'" "map field_bytes (intentFields op fs) = map field_bytes (intentFields op' gs)"
      using bytes by blast+
    then show ?e unfolding i j by simp
  qed
qed

text \<open>C19: The intent of an accepted command is its stream with the server-derived lines struck out: it is never refused,
  and two accepted commands have the same intent exactly when they are of the same operation, tenant and business and agree
  on every field the client stated, whatever the server derived.\<close>

theorem intent_strikes_derived:
  assumes "canonicalInventoryPayload op t b fs = Inr x" "canonicalInventoryPayload op' t' b' gs = Inr y"
  shows "canonicalInventoryIntent op t b (intentFields op fs)
      = Inr (framed (INVPL_DOMAIN # op # t # b # map field_bytes (intentFields op fs)))
   \<and> (canonicalInventoryIntent op t b (intentFields op fs) = canonicalInventoryIntent op' t' b' (intentFields op' gs)
      \<longleftrightarrow> op = op' \<and> t = t' \<and> b = b' \<and> map canonField (intentFields op fs) = map canonField (intentFields op' gs))"
  using assms by (rule intent_streams_agree)

definition sample_opening :: "InventoryPayloadField \<Rightarrow> InventoryPayloadField list" where
  "sample_opening position =
     [F_uuid sample_uuid, F_integer (Big 20240229), F_null, position, F_integer (Big 1),
      F_uuid sample_uuid, F_uuid sample_uuid, F_integer (Big 50000), F_integer (Big 123)]"

theorem intent_strikes_derived_witness:
  "map canonField (intentFields ''inventory.opening'' (sample_opening F_null))
   = map canonField (intentFields ''inventory.opening'' (sample_opening (F_integer (Big 77))))"
proof -
  have "\<not> isl (canonicalInventoryPayload ''inventory.opening'' sample_uuid sample_uuid (sample_opening F_null))"
    "\<not> isl (canonicalInventoryPayload ''inventory.opening'' sample_uuid sample_uuid (sample_opening (F_integer (Big 77))))"
    by code_simp+
  then obtain x y where "canonicalInventoryPayload ''inventory.opening'' sample_uuid sample_uuid (sample_opening F_null) = Inr x"
    "canonicalInventoryPayload ''inventory.opening'' sample_uuid sample_uuid (sample_opening (F_integer (Big 77))) = Inr y"
    using accepted_exists by metis
  note intent_strikes_derived [OF this]
  moreover have "intentFields ''inventory.opening'' (sample_opening F_null)
      = intentFields ''inventory.opening'' (sample_opening (F_integer (Big 77)))" by code_simp
  ultimately show ?thesis by metis
qed

end
