(* ===== verification/Assertions.thy ===== *)
theory Assertions
  imports Payload Posting "HOL-Library.Word"
begin

text \<open>
  The signed assertions of the two packages: \<open>invctl/1\<close> (packages/inventory/src/assertion.ts),
  the posting assertion (packages/accounting/src/assertion.ts), \<open>acctctl/1\<close>
  (control-assertion.ts) and the comparison of HMAC keys (assertion-keys.ts).

  The cryptographic library and the runtime are parameters: \<open>hmac secret text\<close> is the hex
  HMAC-SHA-256, \<open>sha256\<close> the digest of a buffer, \<open>decode64\<close> \<open>Buffer.from(_, 'base64')\<close> and \<open>uuid\<close>
  the fresh random UUID of the call. A \<open>Date\<close> is an \<open>instant\<close>, and a \<open>ttlSeconds\<close> a \<open>number\<close>.
\<close>

type_synonym buffer = "8 word list"

subsection \<open>Patterns\<close>

definition INVCTL_DOMAIN :: string where "INVCTL_DOMAIN = ''invctl/1''"
definition INVCTL_VERSION :: string where "INVCTL_VERSION = ''invctl1''"
definition INVENTORY_ASSERTION_COMPONENTS :: nat where "INVENTORY_ASSERTION_COMPONENTS = 10"
definition INVENTORY_ASSERTION_TTL_SECONDS :: int where "INVENTORY_ASSERTION_TTL_SECONDS = 60"

definition kid_char :: "char \<Rightarrow> bool" where
  "kid_char c \<longleftrightarrow> is_upper c \<or> is_lower c \<or> is_digit c \<or> c = CHR ''_'' \<or> c = CHR ''-''"

text \<open>\<open>/^[A-Za-z0-9_-]{1,32}$/\<close>, \<open>/^[a-z]+(:[a-z_]+)+$/\<close>, \<open>/^[0-9a-f]{64}$/\<close>, \<open>/^[1-9][0-9]{0,18}$/\<close>,
  \<open>/^[A-Za-z0-9+/]+={0,2}$/\<close>\<close>

definition KID_RE :: "string \<Rightarrow> bool" where
  "KID_RE v \<longleftrightarrow> 1 \<le> length v \<and> length v \<le> 32 \<and> list_all kid_char v"

definition WIRE_OPERATION_CODE_RE :: "string \<Rightarrow> bool" where
  "WIRE_OPERATION_CODE_RE v = op_segments_ok (splitOn (CHR '':'') v)"

definition SHA256_HEX_RE :: "string \<Rightarrow> bool" where
  "SHA256_HEX_RE v \<longleftrightarrow> length v = 64 \<and> list_all is_hex v"

definition EXP_RE :: "string \<Rightarrow> bool" where
  "EXP_RE v = (case v of [] \<Rightarrow> False
     | c # r \<Rightarrow> is_digit c \<and> c \<noteq> CHR ''0'' \<and> length r \<le> 18 \<and> list_all is_digit r)"

definition base64_char :: "char \<Rightarrow> bool" where
  "base64_char c \<longleftrightarrow> is_upper c \<or> is_lower c \<or> is_digit c \<or> c = CHR ''+'' \<or> c = CHR ''/''"

definition STANDARD_BASE64_RE :: "string \<Rightarrow> bool" where
  "STANDARD_BASE64_RE v \<longleftrightarrow> takeWhile base64_char v \<noteq> [] \<and> length (dropWhile base64_char v) \<le> 2
     \<and> list_all (\<lambda>c. c = CHR ''='') (dropWhile base64_char v)"

subsection \<open>\<open>invctl/1\<close>\<close>

record InventoryAssertionKey =
  ik_kid :: string
  ik_secret :: buffer

record InventoryAssertionClaims =
  ia_actorUserId :: string
  ia_tenantId :: string
  ia_businessId :: string
  ia_opCode :: string
  ia_payloadSha256 :: string
  ia_jti :: "string option"

record InventoryAssertionParts =
  ap_version :: string
  ap_kid :: string
  ap_actorUserId :: string
  ap_tenantId :: string
  ap_businessId :: string
  ap_wireOperation :: string
  ap_payloadSha256 :: string
  ap_exp :: string
  ap_jti :: string
  ap_mac :: string
  ap_components :: "string list"

abbreviation invctl_reject :: "'a result" where
  "invctl_reject \<equiv> refuse (InventoryError assertion_malformed)"

definition parseInventoryAssertionKey :: "(string \<Rightarrow> buffer) \<Rightarrow> string \<Rightarrow> string \<Rightarrow> InventoryAssertionKey result" where
  "parseInventoryAssertionKey decode64 kid keyBase64 =
     (if \<not> KID_RE kid then refuse Thrown_Error
      else if \<not> STANDARD_BASE64_RE keyBase64 then refuse Thrown_Error
      else let secret = decode64 keyBase64
           in if length secret < 32 then refuse Thrown_Error else Inr \<lparr>ik_kid = kid, ik_secret = secret\<rparr>)"

text \<open>The packages' two copies of \<open>secretsAreIdentical\<close>; \<open>timingSafeEqual\<close> compares the bytes.\<close>

definition secretsAreIdentical :: "buffer \<Rightarrow> buffer \<Rightarrow> bool" where
  "secretsAreIdentical a b = (if length a \<noteq> length b then False else a = b)"

definition replaceAll :: "char \<Rightarrow> char \<Rightarrow> string \<Rightarrow> string" where
  "replaceAll a b = map (\<lambda>c. if c = a then b else c)"

definition wireOperationCode :: "string \<Rightarrow> string result" where
  "wireOperationCode opCode =
     (if \<not> isInventoryOperationCode opCode \<or> \<not> OPERATION_CODE_RE opCode then invctl_reject
      else let wire = replaceAll (CHR ''.'') (CHR '':'') opCode
           in if \<not> WIRE_OPERATION_CODE_RE wire then invctl_reject else Inr wire)"

definition operationCodeFromWire :: "string \<Rightarrow> string result" where
  "operationCodeFromWire wire =
     (if \<not> WIRE_OPERATION_CODE_RE wire then invctl_reject
      else let opCode = replaceAll (CHR '':'') (CHR ''.'') wire
           in if \<not> isInventoryOperationCode opCode then invctl_reject else Inr opCode)"

definition inventoryAssertionPreimage :: "string list \<Rightarrow> string result" where
  "inventoryAssertionPreimage signedComponents =
     (if length signedComponents \<noteq> INVENTORY_ASSERTION_COMPONENTS - 1 then invctl_reject
      else Inr (INVCTL_DOMAIN @ LF # joinWith (CHR ''.'') signedComponents))"

text \<open>\<open>Number.isInteger\<close>, and the check of a time to live.\<close>

definition isInteger :: "JsNumber \<Rightarrow> bool" where
  "isInteger n = (case n of Finite q \<Rightarrow> of_int \<lfloor>q\<rfloor> = q | NonFinite \<Rightarrow> False)"

definition ttl_ok :: "JsNumber \<Rightarrow> int \<Rightarrow> bool" where
  "ttl_ok ttl limit \<longleftrightarrow> isInteger ttl \<and> 1 \<le> number_int ttl \<and> number_int ttl \<le> limit"

text \<open>A component that is empty, holds the separator or (\<open>invctl/1\<close>) white space.\<close>

definition illegal_component :: "string \<Rightarrow> bool" where
  "illegal_component c \<longleftrightarrow> c = [] \<or> CHR ''.'' \<in> set c"

definition mintInventoryAssertion ::
  "(buffer \<Rightarrow> string \<Rightarrow> string) \<Rightarrow> string \<Rightarrow> InventoryAssertionClaims \<Rightarrow> InventoryAssertionKey \<Rightarrow> instant \<Rightarrow> JsNumber \<Rightarrow> string result" where
  "mintInventoryAssertion hmac uuid claims key now ttlSeconds =
     (if \<not> KID_RE (ik_kid key) then invctl_reject
      else if length (ik_secret key) < 32 then invctl_reject
      else if \<not> is_uuid (ia_actorUserId claims) then invctl_reject
      else if \<not> is_uuid (ia_tenantId claims) then invctl_reject
      else if \<not> is_uuid (ia_businessId claims) then invctl_reject
      else if \<not> SHA256_HEX_RE (ia_payloadSha256 claims) then invctl_reject
      else bindR (wireOperationCode (ia_opCode claims)) (\<lambda>wireOp.
        if \<not> ttl_ok ttlSeconds INVENTORY_ASSERTION_TTL_SECONDS then invctl_reject
        else case now of None \<Rightarrow> invctl_reject
             | Some ms \<Rightarrow>
                 let expiry = int_string (ms div 1000 + number_int ttlSeconds)
                 in if \<not> EXP_RE expiry then invctl_reject
                    else let jti = (case ia_jti claims of None \<Rightarrow> uuid | Some j \<Rightarrow> j)
                         in if \<not> is_uuid jti then invctl_reject
                            else let signed = [INVCTL_VERSION, ik_kid key, ia_actorUserId claims, ia_tenantId claims,
                                       ia_businessId claims, wireOp, ia_payloadSha256 claims, expiry, jti]
                                 in if list_ex (\<lambda>c. illegal_component c \<or> list_ex is_space c) signed then invctl_reject
                                    else bindR (inventoryAssertionPreimage signed) (\<lambda>preimage.
                                      Inr (joinWith (CHR ''.'') signed @ ''.'' @ hmac (ik_secret key) preimage))))"

definition splitInventoryAssertion :: "string \<Rightarrow> InventoryAssertionParts result" where
  "splitInventoryAssertion raw =
     (let c = splitOn (CHR ''.'') raw
      in if length c \<noteq> INVENTORY_ASSERTION_COMPONENTS \<or> c ! 0 \<noteq> INVCTL_VERSION then invctl_reject
         else Inr \<lparr>ap_version = c ! 0, ap_kid = c ! 1, ap_actorUserId = c ! 2, ap_tenantId = c ! 3, ap_businessId = c ! 4,
                   ap_wireOperation = c ! 5, ap_payloadSha256 = c ! 6, ap_exp = c ! 7, ap_jti = c ! 8, ap_mac = c ! 9,
                   ap_components = c\<rparr>)"

subsection \<open>The posting assertion\<close>

record AccountingAssertionKey =
  ak_kid :: string
  ak_secret :: buffer

definition ACCOUNTING_ASSERTION_TTL_SECONDS :: int where "ACCOUNTING_ASSERTION_TTL_SECONDS = 60"
definition ACCOUNTING_ASSERTION_COMPONENTS :: nat where "ACCOUNTING_ASSERTION_COMPONENTS = 12"

definition ACCOUNTING_OPERATION_KINDS :: "AccountingOperationKind list" where
  "ACCOUNTING_OPERATION_KINDS = [Op_post, Op_reverse]"

definition operationKindText :: "AccountingOperationKind \<Rightarrow> string" where
  "operationKindText k = (case k of Op_post \<Rightarrow> ''post'' | Op_reverse \<Rightarrow> ''reverse'')"

abbreviation acct_reject :: "'a result" where
  "acct_reject \<equiv> refuse (AccountingError accounting_assertion_malformed)"

text \<open>The same patterns under the flag \<open>i\<close>.\<close>

definition uuid_any_case :: "string \<Rightarrow> bool" where "uuid_any_case v = is_uuid (toLowerCase v)"
definition sha256_any_case :: "string \<Rightarrow> bool" where "sha256_any_case v = SHA256_HEX_RE (toLowerCase v)"

definition parseAccountingAssertionKey ::
  "(string \<Rightarrow> buffer) \<Rightarrow> string option \<Rightarrow> string option \<Rightarrow> AccountingAssertionKey option result" where
  "parseAccountingAssertionKey decode64 key kid = (case key of
       None \<Rightarrow> Inr None
     | Some k \<Rightarrow>
         if k = [] then Inr None
         else let secret = decode64 k
              in if length secret < 32 then refuse Thrown_Error
                 else let kid' = (case kid of None \<Rightarrow> ''v1'' | Some v \<Rightarrow> v)
                      in if \<not> KID_RE kid' then refuse Thrown_Error else Inr (Some \<lparr>ak_kid = kid', ak_secret = secret\<rparr>))"

text \<open>\<open>String(Math.floor(now.getTime() / 1000) + ttlSeconds)\<close>: the time of an invalid date is \<open>NaN\<close>.\<close>

definition expiryText :: "instant \<Rightarrow> JsNumber \<Rightarrow> string" where
  "expiryText now ttl = (case now of None \<Rightarrow> ''NaN'' | Some ms \<Rightarrow> int_string (ms div 1000 + number_int ttl))"

definition legal_components :: "string list \<Rightarrow> string list result" where
  "legal_components parts = (if list_ex illegal_component parts then acct_reject else Inr parts)"

definition claimComponents :: "string \<Rightarrow> AccountingAssertionClaims \<Rightarrow> string \<Rightarrow> string \<Rightarrow> string list result" where
  "claimComponents kid claims expiry jti = legal_components
     [''v1'', kid, toLowerCase (ac_actorUserId claims), toLowerCase (ac_tenantId claims), toLowerCase (ac_businessId claims),
      operationKindText (ac_operationKind claims), ac_sourceType claims, toLowerCase (ac_sourceId claims),
      toLowerCase (ac_postingFingerprint claims), expiry, toLowerCase jti]"

definition mintAccountingAssertion ::
  "(buffer \<Rightarrow> string \<Rightarrow> string) \<Rightarrow> string \<Rightarrow> AccountingAssertionKey \<Rightarrow> AccountingAssertionClaims \<Rightarrow> instant \<Rightarrow> JsNumber \<Rightarrow> string result" where
  "mintAccountingAssertion hmac uuid key claims now ttlSeconds =
     (if \<not> uuid_any_case (ac_actorUserId claims) then acct_reject
      else if \<not> uuid_any_case (ac_tenantId claims) then acct_reject
      else if \<not> uuid_any_case (ac_businessId claims) then acct_reject
      else if \<not> uuid_any_case (ac_sourceId claims) then acct_reject
      else if \<not> sha256_any_case (ac_postingFingerprint claims) then acct_reject
      else if ac_operationKind claims \<notin> set ACCOUNTING_OPERATION_KINDS then acct_reject
      else if \<not> (1 \<le> length (ac_sourceType claims) \<and> length (ac_sourceType claims) \<le> 64
                \<and> list_all (\<lambda>c. is_lower c \<or> c = CHR ''_'') (ac_sourceType claims)) then acct_reject
      else if \<not> ttl_ok ttlSeconds ACCOUNTING_ASSERTION_TTL_SECONDS then acct_reject
      else bindR (claimComponents (ak_kid key) claims (expiryText now ttlSeconds) uuid) (\<lambda>parts.
             Inr (joinWith (CHR ''.'') parts @ ''.'' @ hmac (ak_secret key) (joinWith (CHR ''.'') parts))))"

definition splitAccountingAssertion :: "string \<Rightarrow> string list result" where
  "splitAccountingAssertion raw =
     (let parts = splitOn (CHR ''.'') raw
      in if length parts \<noteq> ACCOUNTING_ASSERTION_COMPONENTS \<or> parts ! 0 \<noteq> ''v1'' then acct_reject else Inr parts)"

subsection \<open>\<open>acctctl/1\<close>\<close>

datatype AccountingControlCommandKind = Cmd_fx_rate_enter | Cmd_period_create | Cmd_period_close | Cmd_period_reopen

definition ACCOUNTING_CONTROL_COMMAND_KINDS :: "AccountingControlCommandKind list" where
  "ACCOUNTING_CONTROL_COMMAND_KINDS = [Cmd_fx_rate_enter, Cmd_period_create, Cmd_period_close, Cmd_period_reopen]"

definition commandKindText :: "AccountingControlCommandKind \<Rightarrow> string" where
  "commandKindText k = (case k of Cmd_fx_rate_enter \<Rightarrow> ''fx_rate_enter'' | Cmd_period_create \<Rightarrow> ''period_create''
     | Cmd_period_close \<Rightarrow> ''period_close'' | Cmd_period_reopen \<Rightarrow> ''period_reopen'')"

definition ACCTCTL_DOMAIN :: string where "ACCTCTL_DOMAIN = ''acctctl/1''"
definition ACCTCTL_VERSION :: string where "ACCTCTL_VERSION = ''acctctl1''"
definition ACCOUNTING_CONTROL_ASSERTION_COMPONENTS :: nat where "ACCOUNTING_CONTROL_ASSERTION_COMPONENTS = 11"

record AccountingControlAssertionClaims =
  cc_actorUserId :: string
  cc_tenantId :: string
  cc_businessId :: string
  cc_commandKind :: AccountingControlCommandKind
  cc_resourceId :: string
  cc_payloadFingerprint :: string

definition control_claimComponents ::
  "string \<Rightarrow> AccountingControlAssertionClaims \<Rightarrow> string \<Rightarrow> string \<Rightarrow> string list result" where
  "control_claimComponents kid claims expiry jti = legal_components
     [ACCTCTL_VERSION, kid, toLowerCase (cc_actorUserId claims), toLowerCase (cc_tenantId claims),
      toLowerCase (cc_businessId claims), commandKindText (cc_commandKind claims), toLowerCase (cc_resourceId claims),
      toLowerCase (cc_payloadFingerprint claims), expiry, toLowerCase jti]"

definition controlAssertionPreimage :: "string list \<Rightarrow> string" where
  "controlAssertionPreimage signedComponents = ACCTCTL_DOMAIN @ LF # joinWith (CHR ''.'') signedComponents"

definition mintAccountingControlAssertion ::
  "(buffer \<Rightarrow> string \<Rightarrow> string) \<Rightarrow> string \<Rightarrow> AccountingAssertionKey \<Rightarrow> AccountingControlAssertionClaims \<Rightarrow> instant \<Rightarrow> JsNumber
   \<Rightarrow> string result" where
  "mintAccountingControlAssertion hmac uuid key claims now ttlSeconds =
     (if \<not> uuid_any_case (cc_actorUserId claims) then acct_reject
      else if \<not> uuid_any_case (cc_tenantId claims) then acct_reject
      else if \<not> uuid_any_case (cc_businessId claims) then acct_reject
      else if \<not> uuid_any_case (cc_resourceId claims) then acct_reject
      else if \<not> sha256_any_case (cc_payloadFingerprint claims) then acct_reject
      else if cc_commandKind claims \<notin> set ACCOUNTING_CONTROL_COMMAND_KINDS then acct_reject
      else if \<not> ttl_ok ttlSeconds ACCOUNTING_ASSERTION_TTL_SECONDS then acct_reject
      else bindR (control_claimComponents (ak_kid key) claims (expiryText now ttlSeconds) uuid) (\<lambda>parts.
             Inr (joinWith (CHR ''.'') parts @ ''.'' @ hmac (ak_secret key) (controlAssertionPreimage parts))))"

definition splitAccountingControlAssertion :: "string \<Rightarrow> string list result" where
  "splitAccountingControlAssertion raw =
     (let parts = splitOn (CHR ''.'') raw
      in if length parts \<noteq> ACCOUNTING_CONTROL_ASSERTION_COMPONENTS \<or> parts ! 0 \<noteq> ACCTCTL_VERSION then acct_reject
         else Inr parts)"

subsection \<open>Effective keys\<close>

definition HMAC_SHA256_BLOCK_BYTES :: nat where "HMAC_SHA256_BLOCK_BYTES = 64"

text \<open>\<open>while (end > 0 && k[end - 1] === 0) end -= 1;\<close>\<close>

fun keyEnd :: "buffer \<Rightarrow> nat \<Rightarrow> nat" where
  "keyEnd k 0 = 0"
| "keyEnd k (Suc e) = (if k ! e = 0 then keyEnd k e else Suc e)"

definition effectiveHmacKey :: "(buffer \<Rightarrow> buffer) \<Rightarrow> buffer \<Rightarrow> buffer" where
  "effectiveHmacKey sha256 key =
     (let k = (if HMAC_SHA256_BLOCK_BYTES < length key then sha256 key else key)
      in take (keyEnd k (length k)) k)"

definition hmacKeysEquivalent :: "(buffer \<Rightarrow> buffer) \<Rightarrow> buffer \<Rightarrow> buffer \<Rightarrow> bool" where
  "hmacKeysEquivalent sha256 a b =
     (let na = effectiveHmacKey sha256 a; nb = effectiveHmacKey sha256 b
      in if length na \<noteq> length nb then False else na = nb)"

subsection \<open>Wire operations\<close>

lemma replaceAll_inverse: "b \<notin> set s \<Longrightarrow> replaceAll b a (replaceAll a b s) = s"
  by (induction s) (auto simp: replaceAll_def)

definition wire_ok :: "string \<Rightarrow> bool" where
  "wire_ok opCode \<longleftrightarrow> OPERATION_CODE_RE opCode \<and> CHR '':'' \<notin> set opCode
     \<and> WIRE_OPERATION_CODE_RE (replaceAll (CHR ''.'') (CHR '':'') opCode) \<and> CHR ''.'' \<notin> set (replaceAll (CHR ''.'') (CHR '':'') opCode)"

lemma registry_wire: "list_all wire_ok INVENTORY_OPERATION_CODES"
  by code_simp

lemma wireOperationCode_eq_Inr:
  "wireOperationCode op = Inr w \<longleftrightarrow> isInventoryOperationCode op \<and> w = replaceAll (CHR ''.'') (CHR '':'') op"
  using registry_wire
  by (auto simp: wireOperationCode_def Let_def if_refuse_eq_Inr isInventoryOperationCode_def list_all_iff wire_ok_def)

lemma wire_roundtrip: "wireOperationCode op = Inr w \<Longrightarrow> operationCodeFromWire w = Inr op"
  using registry_wire
  by (auto simp: wireOperationCode_eq_Inr operationCodeFromWire_def Let_def isInventoryOperationCode_def list_all_iff wire_ok_def
      replaceAll_inverse)

subsection \<open>Joined components\<close>

lemma joinWith_snoc: "fs \<noteq> [] \<Longrightarrow> joinWith sep (fs @ [g]) = joinWith sep fs @ sep # g"
  by (induction sep fs rule: joinWith.induct) simp_all

context separated
begin

lemma split_join: "fs \<noteq> [] \<Longrightarrow> list_all clean fs \<Longrightarrow> splitOn sep (joinWith sep fs) = fs"
proof (induction fs)
  case (Cons f fs)
  then show ?case
    by (cases "fs = []") (simp_all add: join_Cons splitOn_cut splitOn_solid clean_sep)
qed simp

end

interpretation dot: separated "CHR ''.''" "\<lambda>c. \<not> illegal_component c"
  by unfold_locales (simp add: illegal_component_def)

interpretation nodot: separated "CHR ''.''" "\<lambda>c. CHR ''.'' \<notin> set c"
  by unfold_locales simp

lemma hex_no_dot: "list_all is_hex m \<Longrightarrow> CHR ''.'' \<notin> set m"
  by (auto simp: list_all_iff is_hex_def is_digit_def)

lemma split_signed:
  assumes "parts \<noteq> []" "\<not> list_ex illegal_component parts" "CHR ''.'' \<notin> set mac"
  shows "splitOn (CHR ''.'') (joinWith (CHR ''.'') parts @ ''.'' @ mac) = parts @ [mac]"
proof -
  have eq: "joinWith (CHR ''.'') parts @ ''.'' @ mac = joinWith (CHR ''.'') (parts @ [mac])"
    using assms(1) by (simp add: joinWith_snoc)
  have "list_all (\<lambda>f. CHR ''.'' \<notin> set f) (parts @ [mac])"
    using assms by (auto simp: list_all_iff list_ex_iff illegal_component_def)
  then show ?thesis unfolding eq by (intro nodot.split_join) simp_all
qed

lemma legal_components_eq_Inr [result_simps]: "legal_components ps = Inr qs \<longleftrightarrow> qs = ps \<and> \<not> list_ex illegal_component ps"
  by (auto simp: legal_components_def)

lemma legal_inject:
  assumes "legal_components ps = Inr xs" "legal_components qs = Inr ys" "length ps = length qs"
    "joinWith (CHR ''.'') xs = joinWith (CHR ''.'') ys"
  shows "xs = ys"
  using assms by (intro dot.join_inject) (auto simp: legal_components_eq_Inr list_all_iff list_ex_iff)

subsection \<open>Effective keys are the keys HMAC uses\<close>

text \<open>RFC 2104: a key longer than the block is hashed, and the result padded with zero bytes to the block.\<close>

definition hmac_block :: "(buffer \<Rightarrow> buffer) \<Rightarrow> buffer \<Rightarrow> buffer" where
  "hmac_block sha256 key =
     (let k = (if HMAC_SHA256_BLOCK_BYTES < length key then sha256 key else key)
      in k @ replicate (HMAC_SHA256_BLOCK_BYTES - length k) 0)"

definition stripZeroBytes :: "buffer \<Rightarrow> buffer" where
  "stripZeroBytes k = rev (dropWhile (\<lambda>b. b = 0) (rev k))"

lemma keyEnd_strip: "n \<le> length k \<Longrightarrow> take (keyEnd k n) k = stripZeroBytes (take n k)"
  by (induction n) (auto simp: stripZeroBytes_def take_Suc_conv_app_nth)

lemma strip_pad: "stripZeroBytes (k @ replicate m 0) = stripZeroBytes k"
proof -
  have "dropWhile (\<lambda>b. b = 0) (replicate m 0 @ xs) = dropWhile (\<lambda>b. b = 0) xs" for xs :: buffer
    by (induction m) simp_all
  then show ?thesis by (simp add: stripZeroBytes_def)
qed

lemma strip_rest: "k = stripZeroBytes k @ replicate (length k - length (stripZeroBytes k)) 0"
proof -
  have "takeWhile (\<lambda>b. b = 0) (rev k) = replicate (length (takeWhile (\<lambda>b. b = 0) (rev k))) 0"
    by (rule replicate_length_same [symmetric]) (auto dest: set_takeWhileD)
  moreover have "k = stripZeroBytes k @ rev (takeWhile (\<lambda>b. b = 0) (rev k))"
    by (simp add: stripZeroBytes_def flip: rev_append)
  ultimately show ?thesis by (metis length_append add_diff_cancel_left' length_replicate rev_replicate)
qed

lemma pad_strip: "length k \<le> N \<Longrightarrow> k @ replicate (N - length k) 0 = stripZeroBytes k @ replicate (N - length (stripZeroBytes k)) 0"
proof -
  assume N: "length k \<le> N"
  have l: "length (stripZeroBytes k) \<le> length k" using strip_rest [of k] by (metis length_append le_add1)
  have "k @ replicate (N - length k) 0
    = stripZeroBytes k @ replicate (length k - length (stripZeroBytes k)) 0 @ replicate (N - length k) 0"
    using strip_rest [of k] by (metis append.assoc)
  then show ?thesis using N l by (simp flip: replicate_add)
qed

lemma effectiveHmacKey_strip: "effectiveHmacKey sha256 key =
    stripZeroBytes (if HMAC_SHA256_BLOCK_BYTES < length key then sha256 key else key)"
  using keyEnd_strip [OF order_refl] by (simp add: effectiveHmacKey_def Let_def)

lemma minted_parts:
  assumes minted: "mintInventoryAssertion hmac uuid claims key now ttl = Inr a" and hex: "\<And>k p. list_all is_hex (hmac k p)"
  shows "\<exists>parts ms s preimage. splitInventoryAssertion a = Inr parts \<and> now = Some ms
   \<and> ap_kid parts = ik_kid key \<and> ap_actorUserId parts = ia_actorUserId claims \<and> ap_tenantId parts = ia_tenantId claims
   \<and> ap_businessId parts = ia_businessId claims \<and> operationCodeFromWire (ap_wireOperation parts) = Inr (ia_opCode claims)
   \<and> ap_payloadSha256 parts = ia_payloadSha256 claims
   \<and> ap_exp parts = int_string (ms div 1000 + s) \<and> 1 \<le> s \<and> s \<le> INVENTORY_ASSERTION_TTL_SECONDS
   \<and> ap_jti parts = (case ia_jti claims of None \<Rightarrow> uuid | Some j \<Rightarrow> j)
   \<and> inventoryAssertionPreimage (take 9 (ap_components parts)) = Inr preimage \<and> ap_mac parts = hmac (ik_secret key) preimage"
proof -
  define jti where "jti = (case ia_jti claims of None \<Rightarrow> uuid | Some j \<Rightarrow> j)"
  define s where "s = number_int ttl"
  from minted obtain ms w where now: "now = Some ms" and w: "wireOperationCode (ia_opCode claims) = Inr w"
    and ttl: "ttl_ok ttl INVENTORY_ASSERTION_TTL_SECONDS"
    by (cases now) (auto simp: mintInventoryAssertion_def result_simps)
  define signed where "signed = [INVCTL_VERSION, ik_kid key, ia_actorUserId claims, ia_tenantId claims, ia_businessId claims, w,
    ia_payloadSha256 claims, int_string (ms div 1000 + s), jti]"
  define preimage where "preimage = INVCTL_DOMAIN @ LF # joinWith (CHR ''.'') signed"
  have p: "inventoryAssertionPreimage signed = Inr preimage"
    by (simp add: inventoryAssertionPreimage_def signed_def INVENTORY_ASSERTION_COMPONENTS_def preimage_def)
  from minted have "\<not> list_ex (\<lambda>c. illegal_component c \<or> list_ex is_space c) signed"
    and a: "a = joinWith (CHR ''.'') signed @ ''.'' @ hmac (ik_secret key) preimage"
    using p
    by (simp_all only: mintInventoryAssertion_def now w bindR_simps option.case Let_def if_refuse_eq_Inr
        signed_def [symmetric] s_def [symmetric] jti_def [symmetric] bindR_eq_Inr) (simp_all add: bindR_eq_Inr)
  then have "\<not> list_ex illegal_component signed" by (auto simp: list_ex_iff)
  then have "splitOn (CHR ''.'') a = signed @ [hmac (ik_secret key) preimage]"
    using hex_no_dot [OF hex] by (simp only: a) (rule split_signed, simp_all add: signed_def)
  then show ?thesis using p wire_roundtrip [OF w] ttl now
    by (simp add: splitInventoryAssertion_def INVENTORY_ASSERTION_COMPONENTS_def signed_def ttl_ok_def s_def jti_def)
qed

subsection \<open>Properties\<close>

text \<open>A minted inventory assertion splits back into exactly the claims it was minted from: the wire operation decodes to
  the operation, the expiry is at most the time to live after the minting time, and the last component is the MAC over the
  domain prefix and the nine others.\<close>

theorem inventory_assertion_roundtrip:
  assumes minted: "mintInventoryAssertion hmac uuid claims key now ttl = Inr a" and hex: "\<And>k p. list_all is_hex (hmac k p)"
  shows "\<exists>parts ms s preimage. splitInventoryAssertion a = Inr parts \<and> now = Some ms
   \<and> ap_kid parts = ik_kid key \<and> ap_actorUserId parts = ia_actorUserId claims \<and> ap_tenantId parts = ia_tenantId claims
   \<and> ap_businessId parts = ia_businessId claims \<and> operationCodeFromWire (ap_wireOperation parts) = Inr (ia_opCode claims)
   \<and> ap_payloadSha256 parts = ia_payloadSha256 claims
   \<and> ap_exp parts = int_string (ms div 1000 + s) \<and> 1 \<le> s \<and> s \<le> INVENTORY_ASSERTION_TTL_SECONDS
   \<and> ap_jti parts = (case ia_jti claims of None \<Rightarrow> uuid | Some j \<Rightarrow> j)
   \<and> inventoryAssertionPreimage (take 9 (ap_components parts)) = Inr preimage \<and> ap_mac parts = hmac (ik_secret key) preimage"
  by (rule minted_parts [OF assms])

definition sample_claims :: InventoryAssertionClaims where
  "sample_claims = \<lparr>ia_actorUserId = sample_uuid, ia_tenantId = sample_uuid, ia_businessId = sample_uuid,
     ia_opCode = ''purchase.receive'', ia_payloadSha256 = replicate 64 (CHR ''a''), ia_jti = None\<rparr>"

definition sample_key :: InventoryAssertionKey where
  "sample_key = \<lparr>ik_kid = ''k1'', ik_secret = replicate 32 7\<rparr>"

definition sample_minted :: "string result" where
  "sample_minted = mintInventoryAssertion (\<lambda>k p. ''beef'') sample_uuid sample_claims sample_key (Some 1709164800000) (Finite 60)"

theorem inventory_assertion_roundtrip_witness:
  "\<exists>parts. splitInventoryAssertion (projr sample_minted) = Inr parts \<and> operationCodeFromWire (ap_wireOperation parts) = Inr ''purchase.receive''
     \<and> ap_actorUserId parts = sample_uuid"
proof -
  have "\<not> isl sample_minted" by code_simp
  then have m: "mintInventoryAssertion (\<lambda>k p. ''beef'') sample_uuid sample_claims sample_key (Some 1709164800000) (Finite 60)
      = Inr (projr sample_minted)" by (simp add: sample_minted_def)
  have "list_all is_hex ''beef''" by code_simp
  from inventory_assertion_roundtrip [OF m this] show ?thesis by (auto simp: sample_claims_def)
qed

text \<open>C20: The three signed formats never share bytes under a MAC: the text an \<open>invctl/1\<close>, an \<open>acctctl/1\<close> and a posting
  assertion is signed over are pairwise different, whatever the claims, and within one format the signed text determines
  every component.\<close>

theorem signed_texts_disjoint:
  assumes inv: "inventoryAssertionPreimage cs = Inr p" "inventoryAssertionPreimage cs' = Inr p'"
    "\<not> list_ex illegal_component cs" "\<not> list_ex illegal_component cs'"
    and post: "claimComponents kid claims e j = Inr ps" "claimComponents kid' claims' e' j' = Inr ps'"
    and ctl: "control_claimComponents ckid cclaims ce cj = Inr xs" "control_claimComponents ckid' cclaims' ce' cj' = Inr xs'"
  shows "p \<noteq> controlAssertionPreimage xs \<and> p \<noteq> joinWith (CHR ''.'') ps \<and> controlAssertionPreimage xs \<noteq> joinWith (CHR ''.'') ps
   \<and> (p = p' \<longleftrightarrow> cs = cs') \<and> (joinWith (CHR ''.'') ps = joinWith (CHR ''.'') ps' \<longleftrightarrow> ps = ps')
   \<and> (controlAssertionPreimage xs = controlAssertionPreimage xs' \<longleftrightarrow> xs = xs')"
proof -
  have p: "p = INVCTL_DOMAIN @ LF # joinWith (CHR ''.'') cs" "length cs = 9"
    "p' = INVCTL_DOMAIN @ LF # joinWith (CHR ''.'') cs'" "length cs' = 9"
    using inv by (auto simp: inventoryAssertionPreimage_def if_refuse_eq_Inr INVENTORY_ASSERTION_COMPONENTS_def)
  have v1: "\<exists>r. joinWith (CHR ''.'') ps = CHR ''v'' # r"
    using post by (auto simp: claimComponents_def legal_components_eq_Inr)
  have "p = p' \<longleftrightarrow> cs = cs'"
    using inv(3,4) p by (auto simp: list_all_iff list_ex_iff intro: dot.join_inject)
  moreover have "joinWith (CHR ''.'') ps = joinWith (CHR ''.'') ps' \<Longrightarrow> ps = ps'"
    using post unfolding claimComponents_def by (auto intro: legal_inject)
  moreover have "controlAssertionPreimage xs = controlAssertionPreimage xs' \<Longrightarrow> xs = xs'"
    using ctl unfolding control_claimComponents_def controlAssertionPreimage_def by (auto intro: legal_inject)
  ultimately show ?thesis using v1
    by (auto simp: p INVCTL_DOMAIN_def controlAssertionPreimage_def ACCTCTL_DOMAIN_def)
qed

definition sample_posting_claims :: AccountingAssertionClaims where
  "sample_posting_claims = \<lparr>ac_actorUserId = sample_uuid, ac_tenantId = sample_uuid, ac_businessId = sample_uuid,
     ac_operationKind = Op_post, ac_sourceType = ''sale'', ac_sourceId = sample_uuid, ac_postingFingerprint = ''aa''\<rparr>"

definition sample_control_claims :: AccountingControlAssertionClaims where
  "sample_control_claims = \<lparr>cc_actorUserId = sample_uuid, cc_tenantId = sample_uuid, cc_businessId = sample_uuid,
     cc_commandKind = Cmd_period_close, cc_resourceId = sample_uuid, cc_payloadFingerprint = ''aa''\<rparr>"

theorem signed_texts_disjoint_witness:
  "controlAssertionPreimage (projr (control_claimComponents ''k'' sample_control_claims ''9'' sample_uuid))
     \<noteq> joinWith (CHR ''.'') (projr (claimComponents ''k'' sample_posting_claims ''9'' sample_uuid))"
proof -
  have i: "inventoryAssertionPreimage (replicate 9 ''a'') = Inr (INVCTL_DOMAIN @ LF # joinWith (CHR ''.'') (replicate 9 ''a''))"
    "\<not> list_ex illegal_component (replicate 9 ''a'')" by code_simp+
  have c: "claimComponents ''k'' sample_posting_claims ''9'' sample_uuid = Inr (projr (claimComponents ''k'' sample_posting_claims ''9'' sample_uuid))"
    "control_claimComponents ''k'' sample_control_claims ''9'' sample_uuid
       = Inr (projr (control_claimComponents ''k'' sample_control_claims ''9'' sample_uuid))" by code_simp+
  from signed_texts_disjoint [OF i(1) i(1) i(2) i(2) c(1) c(1) c(2) c(2)] show ?thesis by blast
qed

text \<open>Two keys compare equivalent exactly when HMAC-SHA-256 pads them to the same block: byte-different keys that sign
  alike are recognized, and no two keys that sign by different blocks are confused.\<close>

theorem hmac_keys_equivalent_iff:
  assumes "\<And>k. length (sha256 k) = 32"
  shows "hmacKeysEquivalent sha256 a b \<longleftrightarrow> hmac_block sha256 a = hmac_block sha256 b"
proof -
  define norm where "norm k = (if HMAC_SHA256_BLOCK_BYTES < length k then sha256 k else k)" for k :: buffer
  have l: "length (norm k) \<le> HMAC_SHA256_BLOCK_BYTES" for k using assms by (simp add: norm_def HMAC_SHA256_BLOCK_BYTES_def)
  have e: "effectiveHmacKey sha256 k = stripZeroBytes (norm k)" for k by (simp add: effectiveHmacKey_strip norm_def)
  have b: "hmac_block sha256 k = norm k @ replicate (HMAC_SHA256_BLOCK_BYTES - length (norm k)) 0" for k
    by (simp add: hmac_block_def norm_def Let_def)
  have "stripZeroBytes (norm a) = stripZeroBytes (norm b) \<longleftrightarrow> hmac_block sha256 a = hmac_block sha256 b"
  proof
    assume "stripZeroBytes (norm a) = stripZeroBytes (norm b)"
    then show "hmac_block sha256 a = hmac_block sha256 b" unfolding b pad_strip [OF l] by simp
  next
    assume "hmac_block sha256 a = hmac_block sha256 b"
    then have "stripZeroBytes (hmac_block sha256 a) = stripZeroBytes (hmac_block sha256 b)" by simp
    then show "stripZeroBytes (norm a) = stripZeroBytes (norm b)" unfolding b strip_pad .
  qed
  then show ?thesis by (auto simp: hmacKeysEquivalent_def e Let_def)
qed

theorem hmac_keys_equivalent_iff_witness:
  "hmacKeysEquivalent (\<lambda>k. replicate 32 1) [1, 2] [1, 2, 0] \<longleftrightarrow> hmac_block (\<lambda>k. replicate 32 1) [1, 2] = hmac_block (\<lambda>k. replicate 32 1) [1, 2, 0]"
  by (rule hmac_keys_equivalent_iff) simp

end
