(* ===== verification/Document_Text.thy ===== *)
theory Document_Text
  imports Prelude "HOL-Library.Word"
begin

text \<open>
  Free text under the \<open>invpl/1\<close> grammar: packages/inventory/src/reason-digest.ts and the text
  functions of supplier-payloads.ts. A text is its sequence of UTF-16 code units, as the
  language has it; \<open>Buffer.from(text, 'utf8')\<close> is written out, and SHA-256 is a parameter from
  the bytes to the 32 bytes of the digest.

  The lemmas show that the bytes of a well-formed text determine it, so that the eight words
  a signature covers bind the text up to a collision of the hash.
\<close>

type_synonym utf16 = "16 word list"
type_synonym octets = "8 word list"

subsection \<open>Code points\<close>

definition is_high :: "16 word \<Rightarrow> bool" where "is_high u \<longleftrightarrow> 0xD800 \<le> unat u \<and> unat u \<le> 0xDBFF"
definition is_low :: "16 word \<Rightarrow> bool" where "is_low u \<longleftrightarrow> 0xDC00 \<le> unat u \<and> unat u \<le> 0xDFFF"

text \<open>\<open>/[\uD800-\uDBFF](?![\uDC00-\uDFFF])|(?<![\uD800-\uDBFF])[\uDC00-\uDFFF]/\<close>; the flag is that the
  unit before is a high surrogate.\<close>

fun lone_from :: "bool \<Rightarrow> utf16 \<Rightarrow> bool" where
  "lone_from before [] = False"
| "lone_from before (u # us) =
     (is_high u \<and> \<not> (us \<noteq> [] \<and> is_low (hd us)) \<or> is_low u \<and> \<not> before \<or> lone_from (is_high u) us)"

definition LONE_SURROGATE :: "utf16 \<Rightarrow> bool" where "LONE_SURROGATE t = lone_from False t"

text \<open>\<open>[...text]\<close>: the iterator pairs a high surrogate with the low one after it.\<close>

fun code_points :: "utf16 \<Rightarrow> nat list" where
  "code_points [] = []"
| "code_points [u] = [unat u]"
| "code_points (u # v # us) =
     (if is_high u \<and> is_low v then (0x10000 + (unat u - 0xD800) * 0x400 + (unat v - 0xDC00)) # code_points us
      else unat u # code_points (v # us))"

definition octet :: "nat \<Rightarrow> 8 word" where "octet n = of_nat n"

text \<open>One code point in UTF-8; a surrogate half becomes the replacement character.\<close>

definition utf8_point :: "nat \<Rightarrow> octets" where
  "utf8_point c =
     (if c < 0x80 then [octet c]
      else if c < 0x800 then [octet (0xC0 + c div 0x40), octet (0x80 + c mod 0x40)]
      else if 0xD800 \<le> c \<and> c \<le> 0xDFFF then [0xEF, 0xBF, 0xBD]
      else if c < 0x10000
        then [octet (0xE0 + c div 0x1000), octet (0x80 + c div 0x40 mod 0x40), octet (0x80 + c mod 0x40)]
      else [octet (0xF0 + c div 0x40000), octet (0x80 + c div 0x1000 mod 0x40), octet (0x80 + c div 0x40 mod 0x40),
            octet (0x80 + c mod 0x40)])"

definition utf8 :: "utf16 \<Rightarrow> octets" where "utf8 t = concat (map utf8_point (code_points t))"

subsection \<open>White space\<close>

text \<open>The white space and line terminators \<open>trim\<close> removes.\<close>

definition is_js_space :: "16 word \<Rightarrow> bool" where
  "is_js_space u \<longleftrightarrow> (let n = unat u in 9 \<le> n \<and> n \<le> 13 \<or> n = 32 \<or> n = 0xA0 \<or> n = 0x1680 \<or> 0x2000 \<le> n \<and> n \<le> 0x200A
     \<or> n = 0x2028 \<or> n = 0x2029 \<or> n = 0x202F \<or> n = 0x205F \<or> n = 0x3000 \<or> n = 0xFEFF)"

definition strip :: "(16 word \<Rightarrow> bool) \<Rightarrow> utf16 \<Rightarrow> utf16" where
  "strip p t = rev (dropWhile p (rev (dropWhile p t)))"

definition trim16 :: "utf16 \<Rightarrow> utf16" where "trim16 = strip is_js_space"

text \<open>\<open>reason.replace(/^ +| +$/g, '')\<close>\<close>

definition BTRIM_SPACES :: "utf16 \<Rightarrow> utf16" where "BTRIM_SPACES = strip (\<lambda>u. u = 32)"

subsection \<open>Words of a digest\<close>

definition REASON_WORD_COUNT :: nat where "REASON_WORD_COUNT = 8"
definition REASON_MAX_CHARS :: nat where "REASON_MAX_CHARS = 500"

text \<open>\<open>readUInt32BE\<close>\<close>

definition readUInt32BE :: "octets \<Rightarrow> nat \<Rightarrow> int" where
  "readUInt32BE d i = uint (d ! i) * 2 ^ 24 + uint (d ! (i + 1)) * 2 ^ 16 + uint (d ! (i + 2)) * 2 ^ 8 + uint (d ! (i + 3))"

definition digest_words :: "octets \<Rightarrow> int list" where
  "digest_words d = map (\<lambda>i. readUInt32BE d (i * 4)) [0, 1, 2, 3, 4, 5, 6, 7]"

definition assertStorableReason :: "utf16 \<Rightarrow> unit result" where
  "assertStorableReason reason =
     (let trimmed = BTRIM_SPACES reason; n = length (code_points trimmed)
      in if n = 0 then refuse (InventoryError reason_required)
         else if REASON_MAX_CHARS < n then refuse (InventoryError payload_invalid)
         else if 0 \<in> set reason \<or> LONE_SURROGATE reason then refuse (InventoryError payload_invalid)
         else Inr ())"

definition reasonWords :: "(octets \<Rightarrow> octets) \<Rightarrow> utf16 \<Rightarrow> int list result" where
  "reasonWords sha reason = bindR (assertStorableReason reason) (\<lambda>_. Inr (digest_words (sha (utf8 reason))))"

definition normalizeDocumentText :: "utf16 option \<Rightarrow> utf16 option" where
  "normalizeDocumentText raw = (case raw of
       None \<Rightarrow> None
     | Some t \<Rightarrow> let trimmed = trim16 t in if trimmed = [] then None else Some trimmed)"

record text_bounds =
  tb_min :: nat
  tb_max :: nat

definition documentTextWords :: "(octets \<Rightarrow> octets) \<Rightarrow> utf16 option \<Rightarrow> text_bounds \<Rightarrow> int option list result" where
  "documentTextWords sha text bounds = (case text of
       None \<Rightarrow> Inr (replicate 8 None)
     | Some t \<Rightarrow>
         if t \<noteq> trim16 t \<or> t = [] then refuse (InventoryError payload_invalid)
         else if 0 \<in> set t \<or> LONE_SURROGATE t then refuse (InventoryError payload_invalid)
         else let n = length (code_points t)
              in if n < tb_min bounds \<or> tb_max bounds < n then refuse (InventoryError payload_invalid)
                 else Inr (map Some (digest_words (sha (utf8 t)))))"

lemma digest_words_length [simp]: "length (digest_words d) = 8"
  by (simp add: digest_words_def)

lemma documentTextWords_length: "documentTextWords sha t b = Inr ws \<Longrightarrow> length ws = 8"
  by (auto simp: documentTextWords_def Let_def split: option.splits if_splits)

lemma reasonWords_length: "reasonWords sha r = Inr ws \<Longrightarrow> length ws = 8"
  by (auto simp: reasonWords_def bindR_eq_Inr)

subsection \<open>The bytes of a text determine it\<close>

definition scalar :: "nat \<Rightarrow> bool" where
  "scalar c \<longleftrightarrow> c < 0x110000 \<and> \<not> (0xD800 \<le> c \<and> c \<le> 0xDFFF)"

lemma octet_inject: "m < 256 \<Longrightarrow> n < 256 \<Longrightarrow> octet m = octet n \<longleftrightarrow> m = n"
  by (simp add: octet_def word_of_nat_eq_iff take_bit_eq_mod)

definition utf8_numbers :: "nat \<Rightarrow> nat list" where
  "utf8_numbers c =
     (if c < 0x80 then [c]
      else if c < 0x800 then [0xC0 + c div 0x40, 0x80 + c mod 0x40]
      else if c < 0x10000 then [0xE0 + c div 0x1000, 0x80 + c div 0x40 mod 0x40, 0x80 + c mod 0x40]
      else [0xF0 + c div 0x40000, 0x80 + c div 0x1000 mod 0x40, 0x80 + c div 0x40 mod 0x40, 0x80 + c mod 0x40])"

lemma utf8_point_numbers: "scalar c \<Longrightarrow> utf8_point c = map octet (utf8_numbers c)"
  by (auto simp: utf8_point_def utf8_numbers_def scalar_def)

lemma utf8_numbers_small: "scalar c \<Longrightarrow> n \<in> set (utf8_numbers c) \<Longrightarrow> n < 256"
  by (auto simp: utf8_numbers_def scalar_def split: if_splits)

text \<open>The first byte fixes the length, so that no encoded code point is a prefix of another.\<close>

lemma utf8_numbers_length:
  assumes "scalar c"
  shows "length (utf8_numbers c) = (let h = hd (utf8_numbers c) in if h < 0x80 then 1 else if h < 0xE0 then 2 else if h < 0xF0 then 3 else 4)"
    "utf8_numbers c \<noteq> []"
proof -
  have "c < 0x800 \<Longrightarrow> c div 0x40 < 0x20" "c < 0x800 \<Longrightarrow> c div 0x40 < 0x30" "c < 0x10000 \<Longrightarrow> c div 0x1000 < 0x10"
    by (simp_all add: less_mult_imp_div_less)
  then show "length (utf8_numbers c) = (let h = hd (utf8_numbers c) in if h < 0x80 then 1 else if h < 0xE0 then 2 else if h < 0xF0 then 3 else 4)"
    "utf8_numbers c \<noteq> []"
    by (simp_all add: utf8_numbers_def Let_def)
qed

lemma digits_64: "c = d" if "c div 64 = d div 64" "c mod 64 = (d mod 64 :: nat)" for c d :: nat
  using that by (metis div_mult_mod_eq)

lemma utf8_numbers_inject:
  assumes "scalar c" "scalar d" "utf8_numbers c = utf8_numbers d" shows "c = d"
proof -
  have l: "length (utf8_numbers c) = length (utf8_numbers d)" using assms(3) by simp
  have k2: "c div 64 = d div 64" if "c div 4096 = d div 4096" "c div 64 mod 64 = d div 64 mod 64"
    by (rule digits_64) (use that in \<open>simp_all flip: div_mult2_eq\<close>)
  have k3: "c div 4096 = d div 4096" if "c div 262144 = d div 262144" "c div 4096 mod 64 = d div 4096 mod 64"
    by (rule digits_64) (use that in \<open>simp_all flip: div_mult2_eq\<close>)
  consider "c < 0x80" "d < 0x80" | "0x80 \<le> c" "c < 0x800" "0x80 \<le> d" "d < 0x800"
    | "0x800 \<le> c" "c < 0x10000" "0x800 \<le> d" "d < 0x10000" | "0x10000 \<le> c" "0x10000 \<le> d"
    using l by (auto simp: utf8_numbers_def not_less split: if_splits)
  then show ?thesis
  proof cases
    case 1 with assms(3) show ?thesis by (simp add: utf8_numbers_def)
  next
    case 2
    with assms(3) have "c div 64 = d div 64" "c mod 64 = d mod 64" by (simp_all add: utf8_numbers_def)
    then show ?thesis by (rule digits_64)
  next
    case 3
    with assms(3) have "c div 4096 = d div 4096" "c div 64 mod 64 = d div 64 mod 64" and m: "c mod 64 = d mod 64"
      by (simp_all add: utf8_numbers_def)
    from digits_64 [OF k2 [OF this(1,2)] m] show ?thesis .
  next
    case 4
    with assms(3) have "c div 262144 = d div 262144" "c div 4096 mod 64 = d div 4096 mod 64"
      and m: "c div 64 mod 64 = d div 64 mod 64" "c mod 64 = d mod 64"
      by (simp_all add: utf8_numbers_def)
    from digits_64 [OF k2 [OF k3 [OF this(1,2)] m(1)] m(2)] show ?thesis .
  qed
qed

lemma utf8_point_cut:
  assumes "scalar c" "scalar d" "utf8_point c @ r = utf8_point d @ s" shows "c = d \<and> r = s"
proof -
  have inj: "inj_on octet {n. n < 256}" by (rule inj_onI) (simp add: octet_inject)
  note eq = assms(3) [unfolded utf8_point_numbers [OF assms(1)] utf8_point_numbers [OF assms(2)]]
  have ne: "utf8_numbers c \<noteq> []" "utf8_numbers d \<noteq> []" using assms(1,2) utf8_numbers_length(2) by blast+
  then have "octet (hd (utf8_numbers c)) = octet (hd (utf8_numbers d))"
    using eq by (metis append_is_Nil_conv hd_append2 hd_map map_is_Nil_conv)
  then have "hd (utf8_numbers c) = hd (utf8_numbers d)"
    using ne assms(1,2) by (simp add: octet_inject utf8_numbers_small)
  then have "length (utf8_numbers c) = length (utf8_numbers d)"
    by (simp add: utf8_numbers_length(1) [OF assms(1)] utf8_numbers_length(1) [OF assms(2)])
  then have "map octet (utf8_numbers c) = map octet (utf8_numbers d)" "r = s" using eq by simp_all
  moreover from this(1) have "utf8_numbers c = utf8_numbers d"
    using utf8_numbers_small assms(1,2) by (intro map_inj_on [OF _ inj_on_subset [OF inj]]) auto
  ultimately show ?thesis using utf8_numbers_inject assms(1,2) by blast
qed

lemma utf8_points_inject:
  "list_all scalar cs \<Longrightarrow> list_all scalar ds \<Longrightarrow> concat (map utf8_point cs) = concat (map utf8_point ds) \<Longrightarrow> cs = ds"
proof (induction cs arbitrary: ds)
  case Nil
  then show ?case using utf8_numbers_length(2) by (cases ds) (auto simp: utf8_point_numbers)
next
  case (Cons c cs)
  then obtain d ds' where ds: "ds = d # ds'" using utf8_numbers_length(2) by (cases ds) (auto simp: utf8_point_numbers)
  with Cons.prems have "c = d \<and> concat (map utf8_point cs) = concat (map utf8_point ds')"
    by (intro utf8_point_cut) simp_all
  with Cons ds show ?case by simp
qed

text \<open>A text without lone surrogates is its code points.\<close>

lemma unit_bound: "unat (u :: 16 word) < 0x10000"
  using unsigned_less [of u] by simp

fun units_of :: "nat list \<Rightarrow> nat list" where
  "units_of [] = []"
| "units_of (c # cs) = (if c < 0x10000 then c # units_of cs
     else (0xD800 + (c - 0x10000) div 0x400) # (0xDC00 + (c - 0x10000) mod 0x400) # units_of cs)"

lemma units_code_points: "units_of (code_points t) = map unat t"
proof (induction t rule: code_points.induct)
  case (2 u)
  then show ?case using unit_bound [of u] by simp
next
  case (3 u v us)
  show ?case
  proof (cases "is_high u \<and> is_low v")
    case True
    then obtain a b where "unat u = 0xD800 + a" "a < 0x400" "unat v = 0xDC00 + b" "b < 0x400"
      using that [of "unat u - 0xD800" "unat v - 0xDC00"] by (auto simp: is_high_def is_low_def)
    then show ?thesis using True 3 by simp
  next
    case False
    then show ?thesis using 3(2) unit_bound [of u] by (auto simp del: code_points.simps simp: code_points.simps(3))
  qed
qed simp

lemma scalar_points: "\<not> lone_from False t \<Longrightarrow> list_all scalar (code_points t)"
proof (induction t rule: code_points.induct)
  case (2 u)
  then show ?case using unit_bound [of u] by (auto simp: scalar_def is_high_def is_low_def)
next
  case (3 u v us)
  show ?case
  proof (cases "is_high u \<and> is_low v")
    case True
    then have "\<not> is_high v" by (auto simp: is_high_def is_low_def)
    then have "list_all scalar (code_points us)" using 3 True by simp
    moreover have "scalar (0x10000 + (unat u - 0xD800) * 0x400 + (unat v - 0xDC00))"
      using True by (auto simp: scalar_def is_high_def is_low_def)
    ultimately show ?thesis using True by simp
  next
    case False
    then have u: "\<not> is_high u" "\<not> is_low u" using 3(3) by auto
    then have "list_all scalar (code_points (v # us))" using 3(2) 3(3) False by simp
    moreover have "scalar (unat u)" using u unit_bound [of u] by (auto simp: scalar_def is_high_def is_low_def)
    ultimately show ?thesis using False by auto
  qed
qed simp

lemma utf8_inject:
  assumes "\<not> LONE_SURROGATE t" "\<not> LONE_SURROGATE t'" "utf8 t = utf8 t'" shows "t = t'"
proof -
  have "code_points t = code_points t'"
    using assms by (intro utf8_points_inject) (simp_all add: LONE_SURROGATE_def scalar_points utf8_def)
  then have "map unat t = map unat t'" using units_code_points by metis
  then show ?thesis by (metis inj_unsigned map_inj_on inj_on_subset top_greatest)
qed


subsection \<open>The words of a digest determine it\<close>

lemma uint_octet: "0 \<le> uint (w :: 8 word)" "uint (w :: 8 word) < 256"
  using unsigned_less [of w, where ?'a = int] by simp_all

lemma octet_eq: "uint (a :: 8 word) = uint b \<Longrightarrow> a = b"
  by (metis injD inj_unsigned)

lemma readUInt32BE_inject:
  assumes "readUInt32BE d i = readUInt32BE e i"
  shows "d ! i = e ! i \<and> d ! (i + 1) = e ! (i + 1) \<and> d ! (i + 2) = e ! (i + 2) \<and> d ! (i + 3) = e ! (i + 3)"
proof -
  have r: "readUInt32BE f i = ((uint (f ! i) * 256 + uint (f ! (i + 1))) * 256 + uint (f ! (i + 2))) * 256 + uint (f ! (i + 3))" for f
    by (simp add: readUInt32BE_def algebra_simps)
  show ?thesis
    using assms unfolding r
    by (elim base_step [elim_format] conjE) (simp_all add: uint_octet, blast dest: octet_eq)
qed

lemma digest_words_inject:
  assumes "length d = 32" "length e = 32" "digest_words d = digest_words e" shows "d = e"
proof (rule nth_equalityI)
  fix n assume "n < length d"
  with assms(1) have "n div 4 < 8" by (simp add: less_mult_imp_div_less)
  then have "n div 4 \<in> set [0, 1, 2, 3, 4, 5, 6, 7]" by (simp, arith)
  moreover have "\<forall>k \<in> set [0, 1, 2, 3, 4, 5, 6, 7]. readUInt32BE d (k * 4) = readUInt32BE e (k * 4)"
    using assms(3) unfolding digest_words_def map_eq_conv .
  ultimately have "readUInt32BE d (n div 4 * 4) = readUInt32BE e (n div 4 * 4)" by blast
  note r = readUInt32BE_inject [OF this]
  have "n mod 4 = 0 \<or> n mod 4 = 1 \<or> n mod 4 = 2 \<or> n mod 4 = 3" by arith
  with r have "d ! (n div 4 * 4 + n mod 4) = e ! (n div 4 * 4 + n mod 4)" by (elim disjE) simp_all
  then show "d ! n = e ! n" by simp
qed (use assms in simp)

text \<open>Two accepted texts with different bytes and the same digest.\<close>

definition text_collision :: "(octets \<Rightarrow> octets) \<Rightarrow> utf16 option \<Rightarrow> utf16 option \<Rightarrow> bool" where
  "text_collision digest t t' \<longleftrightarrow> (\<exists>u u'. t = Some u \<and> t' = Some u' \<and> utf8 u \<noteq> utf8 u' \<and> digest (utf8 u) = digest (utf8 u'))"

lemma documentTextWords_eq_Inr:
  "documentTextWords sha text b = Inr ws \<longleftrightarrow> (case text of
       None \<Rightarrow> ws = replicate 8 None
     | Some t \<Rightarrow> trim16 t = t \<and> t \<noteq> [] \<and> 0 \<notin> set t \<and> \<not> LONE_SURROGATE t \<and> tb_min b \<le> length (code_points t)
         \<and> length (code_points t) \<le> tb_max b \<and> ws = map Some (digest_words (sha (utf8 t))))"
  by (auto simp: documentTextWords_def Let_def split: option.split)

lemma words_bind_text:
  assumes "documentTextWords digest t b = Inr ws" "documentTextWords digest t' b' = Inr ws" "\<And>x. length (digest x) = 32"
    "\<not> text_collision digest t t'"
  shows "t = t'"
proof (cases "t = None \<or> t' = None")
  case True
  then show ?thesis using assms(1,2)
    by (auto simp: documentTextWords_eq_Inr digest_words_def numeral_eq_Suc split: option.splits)
next
  case False
  then obtain u u' where u: "t = Some u" "t' = Some u'" by auto
  with assms(1,2) have "digest_words (digest (utf8 u)) = digest_words (digest (utf8 u'))" "\<not> LONE_SURROGATE u" "\<not> LONE_SURROGATE u'"
    by (auto simp: documentTextWords_eq_Inr dest: map_injective)
  then show ?thesis using digest_words_inject [OF assms(3,3)] assms(4) utf8_inject u by (metis text_collision_def)
qed

subsection \<open>Properties\<close>

text \<open>The eight words a signature covers stand for the text: whatever the bounds, two texts a document accepts have the
  same words exactly when they are the same text, unless the hash collides on their bytes; no text shares its words with no text; and
  an accepted text is trimmed, not empty, without NUL, of well-formed UTF-16 and within its bounds in characters.\<close>

theorem text_binding:
  assumes "documentTextWords digest t b = Inr ws" "documentTextWords digest t' b' = Inr ws'" "\<And>x. length (digest x) = 32"
  shows "((ws = ws' \<longleftrightarrow> t = t') \<or> text_collision digest t t') \<and> length ws = 8
   \<and> (\<forall>u. t = Some u \<longrightarrow> trim16 u = u \<and> u \<noteq> [] \<and> 0 \<notin> set u \<and> \<not> LONE_SURROGATE u
        \<and> tb_min b \<le> length (code_points u) \<and> length (code_points u) \<le> tb_max b)"
proof -
  have "ws = ws' \<longleftrightarrow> t = t'" if "\<not> text_collision digest t t'"
  proof
    assume "ws = ws'"
    with assms(2) show "t = t'" using words_bind_text [OF assms(1) _ assms(3) that] by blast
  next
    assume "t = t'"
    with assms(1,2) show "ws = ws'" by (cases t') (simp_all add: documentTextWords_eq_Inr)
  qed
  moreover have "\<forall>u. t = Some u \<longrightarrow> trim16 u = u \<and> u \<noteq> [] \<and> 0 \<notin> set u \<and> \<not> LONE_SURROGATE u
      \<and> tb_min b \<le> length (code_points u) \<and> length (code_points u) \<le> tb_max b"
    using assms(1) by (cases t) (simp_all add: documentTextWords_eq_Inr)
  ultimately show ?thesis using documentTextWords_length [OF assms(1)] by blast
qed

definition sample_text :: utf16 where "sample_text = [0xD83D, 0xDE00, 84]"

theorem text_binding_witness:
  "length (code_points sample_text) \<le> 40"
proof -
  have w: "documentTextWords (\<lambda>x. replicate 32 7) (Some sample_text) \<lparr>tb_min = 1, tb_max = 40\<rparr>
    = Inr (map Some (digest_words (replicate 32 7)))"
  proof -
    have "trim16 sample_text = sample_text" "\<not> LONE_SURROGATE sample_text" "length (code_points sample_text) = 2"
      "sample_text \<noteq> [] \<and> 0 \<notin> set sample_text"
      by (simp_all add: sample_text_def trim16_def strip_def is_js_space_def LONE_SURROGATE_def is_high_def is_low_def)
    then show ?thesis by (simp add: documentTextWords_eq_Inr)
  qed
  have "length (replicate 32 (7 :: 8 word)) = 32" by simp
  with text_binding [OF w w] show ?thesis by simp
qed

end
