(* ===== verification/Movement_Payloads.thy ===== *)
theory Movement_Payloads
  imports Payload Document_Text Supplier_Return
begin

text \<open>
  packages/inventory/src/movement-payloads.ts: the builders of the seven stock operations. A
  builder takes the arguments of the routine in fixed point and returns the signed payload
  and the digest of the client's intent; an entry is a field and whether the server derived it.

  \<open>sha\<close> is the hex SHA-256 of a stream, \<open>digest\<close> the SHA-256 of a text's bytes. A runtime type
  test (\<open>typeof v !== 'bigint'\<close>) holds of every value of the declared type and is left out.
\<close>

definition MAX_STOCKTAKE_LINES :: nat where "MAX_STOCKTAKE_LINES = 2000"

record MovementPayload =
  mp_payload :: InventoryPayload
  mp_intentSha256 :: string

definition toQ4 :: "string \<Rightarrow> int result" where "toQ4 quantity = parseQuantity quantity"
definition toC10 :: "string \<Rightarrow> int result" where "toC10 unitCost = parseUnitCost unitCost"

text \<open>\<open>ISO_DATE_RE\<close> is \<open>date_parts\<close> of theory Calendar.\<close>

definition yyyymmdd :: "string \<Rightarrow> int result" where
  "yyyymmdd date = (case date_parts date of
       None \<Rightarrow> payload_refused
     | Some (year, month, day) \<Rightarrow>
         let leap = (year mod 4 = 0 \<and> year mod 100 \<noteq> 0) \<or> year mod 400 = 0;
             monthDays = (if month < 1 \<or> 12 < month then None
                          else Some (if month = 2 then (if leap then 29 else 28)
                                     else if month \<in> {4, 6, 9, 11} then 30 else 31))
         in if year < 1 then payload_refused
            else case monthDays of
                   None \<Rightarrow> payload_refused
                 | Some n \<Rightarrow> if day < 1 \<or> n < day then payload_refused else Inr (year * 10000 + month * 100 + day))"

definition compareUuid :: "string \<Rightarrow> string \<Rightarrow> int" where
  "compareUuid a b = (if a < b then - 1 else if b < a then 1 else 0)"

subsection \<open>Entries\<close>

record Entry =
  en_field :: InventoryPayloadField
  en_derived :: bool

definition e_uuid :: "string \<Rightarrow> Entry" where "e_uuid v = \<lparr>en_field = F_uuid v, en_derived = False\<rparr>"
definition e_int :: "int \<Rightarrow> Entry" where "e_int v = \<lparr>en_field = F_integer (Big v), en_derived = False\<rparr>"
definition e_code :: "string \<Rightarrow> Entry" where "e_code v = \<lparr>en_field = F_code v, en_derived = False\<rparr>"
definition e_nul :: Entry where "e_nul = \<lparr>en_field = F_null, en_derived = False\<rparr>"
definition derived :: "Entry \<Rightarrow> Entry" where "derived e = \<lparr>en_field = en_field e, en_derived = True\<rparr>"
definition e_intOrNull :: "int option \<Rightarrow> Entry" where
  "e_intOrNull v = (case v of None \<Rightarrow> e_nul | Some n \<Rightarrow> e_int n)"

definition reasonEntries :: "(octets \<Rightarrow> octets) \<Rightarrow> utf16 \<Rightarrow> Entry list result" where
  "reasonEntries digest text = bindR (reasonWords digest text) (\<lambda>ws. Inr (map e_int ws))"

definition finish ::
  "(string \<Rightarrow> string) \<Rightarrow> string \<Rightarrow> string \<Rightarrow> string \<Rightarrow> Entry list \<Rightarrow> MovementPayload result" where
  "finish sha opCode tenantId businessId entries =
     bindR (buildInventoryPayload sha opCode tenantId businessId (map en_field entries)) (\<lambda>payload.
     bindR (inventoryIntentSha256 sha opCode tenantId businessId
              (map en_field (filter (\<lambda>e. \<not> en_derived e) entries))) (\<lambda>intent.
       Inr \<lparr>mp_payload = payload, mp_intentSha256 = intent\<rparr>))"

definition assertLineCount :: "nat \<Rightarrow> nat \<Rightarrow> unit result" where
  "assertLineCount n limit =
     (if n = 0 then refuse (InventoryError lines_required) else if limit < n then payload_refused else Inr ())"

definition assertUuid :: "string \<Rightarrow> unit result" where
  "assertUuid v = (if \<not> is_uuid v then payload_refused else Inr ())"

definition assertDistinct :: "string list \<Rightarrow> unit result" where
  "assertDistinct keys = (if \<not> distinct keys then refuse (InventoryError duplicate_line) else Inr ())"

fun ascendingUuids :: "string list \<Rightarrow> bool" where
  "ascendingUuids (a # b # r) = (compareUuid a b < 0 \<and> ascendingUuids (b # r))"
| "ascendingUuids r = True"

definition assertVariantOrder :: "string list \<Rightarrow> unit result" where
  "assertVariantOrder ids = bindR (mapR assertUuid ids) (\<lambda>_. bindR (assertDistinct ids) (\<lambda>_.
     if \<not> ascendingUuids ids then payload_refused else Inr ()))"

definition assertPositive :: "int \<Rightarrow> unit result" where
  "assertPositive q = (if q \<le> 0 then payload_refused else Inr ())"

subsection \<open>Transfer\<close>

record TransferLine =
  tl_variantId :: string
  tl_qtyQ4 :: int

record TransferPayloadInput =
  ti_tenantId :: string
  ti_businessId :: string
  ti_transferId :: string
  ti_sourceWarehouseId :: string
  ti_destinationWarehouseId :: string
  ti_lines :: "TransferLine list"

definition transferEntries :: "TransferLine \<Rightarrow> Entry list result" where
  "transferEntries l = bindR (assertPositive (tl_qtyQ4 l)) (\<lambda>_. Inr [e_uuid (tl_variantId l), e_int (tl_qtyQ4 l)])"

definition transferPayload :: "(string \<Rightarrow> string) \<Rightarrow> TransferPayloadInput \<Rightarrow> MovementPayload result" where
  "transferPayload sha i =
     bindR (assertLineCount (length (ti_lines i)) MAX_DOCUMENT_LINES) (\<lambda>_.
       if ti_sourceWarehouseId i = ti_destinationWarehouseId i then payload_refused
       else bindR (assertDistinct (map tl_variantId (ti_lines i))) (\<lambda>_.
            bindR (mapR transferEntries (ti_lines i)) (\<lambda>ls.
              finish sha ''inventory.transfer'' (ti_tenantId i) (ti_businessId i)
                ([e_uuid (ti_transferId i), e_uuid (ti_sourceWarehouseId i), e_uuid (ti_destinationWarehouseId i),
                  e_int (int (length (ti_lines i)))] @ concat ls))))"

subsection \<open>Adjustment and damage\<close>

record AdjustLine =
  aj_variantId :: string
  aj_qtyDeltaQ4 :: int
  aj_unitCostC10 :: "int option"
  aj_expectedValue :: int

record AdjustPayloadInput =
  ai_tenantId :: string
  ai_businessId :: string
  ai_adjustmentId :: string
  ai_warehouseId :: string
  ai_occurredOn :: string
  ai_reason :: utf16
  ai_lines :: "AdjustLine list"

definition adjustEntries :: "AdjustLine \<Rightarrow> Entry list result" where
  "adjustEntries l =
     (let entries = Inr [e_uuid (aj_variantId l), e_int (aj_qtyDeltaQ4 l), e_intOrNull (aj_unitCostC10 l),
                         derived (e_int (aj_expectedValue l))]
      in if aj_qtyDeltaQ4 l = 0 then payload_refused
         else if 0 < aj_qtyDeltaQ4 l
           then case aj_unitCostC10 l of
                  None \<Rightarrow> refuse (InventoryError unit_cost_required)
                | Some c \<Rightarrow> if c < 0 then payload_refused
                            else if aj_expectedValue l < 0 then payload_refused else entries
         else if aj_unitCostC10 l \<noteq> None then payload_refused
         else if 0 < aj_expectedValue l then payload_refused else entries)"

definition adjustPayload :: "(string \<Rightarrow> string) \<Rightarrow> (octets \<Rightarrow> octets) \<Rightarrow> AdjustPayloadInput \<Rightarrow> MovementPayload result" where
  "adjustPayload sha digest i =
     bindR (assertLineCount (length (ai_lines i)) MAX_DOCUMENT_LINES) (\<lambda>_.
     bindR (assertDistinct (map aj_variantId (ai_lines i))) (\<lambda>_.
     bindR (yyyymmdd (ai_occurredOn i)) (\<lambda>date.
     bindR (reasonEntries digest (ai_reason i)) (\<lambda>reason.
     bindR (mapR adjustEntries (ai_lines i)) (\<lambda>ls.
       finish sha ''inventory.adjust'' (ai_tenantId i) (ai_businessId i)
         ([e_uuid (ai_adjustmentId i), e_uuid (ai_warehouseId i), e_int date] @ reason
          @ [e_int (int (length (ai_lines i)))] @ concat ls))))))"

record DamageLine =
  dl_variantId :: string
  dl_qtyQ4 :: int
  dl_expectedValue :: int

record DamagePayloadInput =
  di_tenantId :: string
  di_businessId :: string
  di_adjustmentId :: string
  di_warehouseId :: string
  di_occurredOn :: string
  di_reason :: utf16
  di_lines :: "DamageLine list"

definition damageEntries :: "DamageLine \<Rightarrow> Entry list result" where
  "damageEntries l = bindR (assertPositive (dl_qtyQ4 l)) (\<lambda>_.
     if 0 < dl_expectedValue l then payload_refused
     else Inr [e_uuid (dl_variantId l), e_int (dl_qtyQ4 l), derived (e_int (dl_expectedValue l))])"

definition damagePayload :: "(string \<Rightarrow> string) \<Rightarrow> (octets \<Rightarrow> octets) \<Rightarrow> DamagePayloadInput \<Rightarrow> MovementPayload result" where
  "damagePayload sha digest i =
     bindR (assertLineCount (length (di_lines i)) MAX_DOCUMENT_LINES) (\<lambda>_.
     bindR (assertDistinct (map dl_variantId (di_lines i))) (\<lambda>_.
     bindR (yyyymmdd (di_occurredOn i)) (\<lambda>date.
     bindR (reasonEntries digest (di_reason i)) (\<lambda>reason.
     bindR (mapR damageEntries (di_lines i)) (\<lambda>ls.
       finish sha ''inventory.damage'' (di_tenantId i) (di_businessId i)
         ([e_uuid (di_adjustmentId i), e_uuid (di_warehouseId i), e_int date] @ reason
          @ [e_int (int (length (di_lines i)))] @ concat ls))))))"

subsection \<open>Stocktake\<close>

record StocktakeOpenPayloadInput =
  so_tenantId :: string
  so_businessId :: string
  so_stocktakeId :: string
  so_warehouseId :: string

definition stocktakeOpenPayload :: "(string \<Rightarrow> string) \<Rightarrow> StocktakeOpenPayloadInput \<Rightarrow> MovementPayload result" where
  "stocktakeOpenPayload sha i =
     finish sha ''inventory.stocktake_open'' (so_tenantId i) (so_businessId i) [e_uuid (so_stocktakeId i), e_uuid (so_warehouseId i)]"

record StocktakeCountLine =
  cn_variantId :: string
  cn_countedQ4 :: int

record StocktakeCountPayloadInput =
  ci_tenantId :: string
  ci_businessId :: string
  ci_stocktakeId :: string
  ci_warehouseId :: string
  ci_lines :: "StocktakeCountLine list"

definition countEntries :: "StocktakeCountLine \<Rightarrow> Entry list result" where
  "countEntries l = (if cn_countedQ4 l < 0 then payload_refused else Inr [e_uuid (cn_variantId l), e_int (cn_countedQ4 l)])"

definition stocktakeCountPayload :: "(string \<Rightarrow> string) \<Rightarrow> StocktakeCountPayloadInput \<Rightarrow> MovementPayload result" where
  "stocktakeCountPayload sha i =
     bindR (assertLineCount (length (ci_lines i)) MAX_DOCUMENT_LINES) (\<lambda>_.
     bindR (assertVariantOrder (map cn_variantId (ci_lines i))) (\<lambda>_.
     bindR (mapR countEntries (ci_lines i)) (\<lambda>ls.
       finish sha ''inventory.stocktake_count'' (ci_tenantId i) (ci_businessId i)
         ([e_uuid (ci_stocktakeId i), e_uuid (ci_warehouseId i), e_int (int (length (ci_lines i)))] @ concat ls))))"

datatype StocktakeOutcome = Outcome_finalized | Outcome_cancelled

definition outcomeText :: "StocktakeOutcome \<Rightarrow> string" where
  "outcomeText x = (case x of Outcome_finalized \<Rightarrow> ''finalized'' | Outcome_cancelled \<Rightarrow> ''cancelled'')"

record StocktakeFinalizeLine =
  fl_variantId :: string
  fl_varianceQ4 :: int
  fl_unitCostC10 :: "int option"
  fl_expectedValue :: int

record StocktakeFinalizePayloadInput =
  fi_tenantId :: string
  fi_businessId :: string
  fi_stocktakeId :: string
  fi_warehouseId :: string
  fi_outcome :: StocktakeOutcome
  fi_occurredOn :: "string option"
  fi_lines :: "StocktakeFinalizeLine list"

definition checkOutcome :: "StocktakeFinalizePayloadInput \<Rightarrow> unit result" where
  "checkOutcome i = (case fi_outcome i of
       Outcome_cancelled \<Rightarrow> if fi_occurredOn i \<noteq> None \<or> length (fi_lines i) \<noteq> 0 then payload_refused else Inr ()
     | Outcome_finalized \<Rightarrow>
         if fi_occurredOn i = None then payload_refused
         else bindR (assertLineCount (length (fi_lines i)) MAX_STOCKTAKE_LINES) (\<lambda>_.
                assertVariantOrder (map fl_variantId (fi_lines i))))"

definition finalizeEntries :: "StocktakeFinalizeLine \<Rightarrow> Entry list result" where
  "finalizeEntries l =
     (if (case fl_unitCostC10 l of None \<Rightarrow> False | Some c \<Rightarrow> fl_varianceQ4 l \<le> 0 \<or> c < 0) then payload_refused
      else if (if fl_varianceQ4 l = 0 then fl_expectedValue l \<noteq> 0
               else if 0 < fl_varianceQ4 l then fl_expectedValue l < 0 else 0 < fl_expectedValue l) then payload_refused
      else Inr [e_uuid (fl_variantId l), derived (e_int (fl_varianceQ4 l)), e_intOrNull (fl_unitCostC10 l),
                derived (e_int (fl_expectedValue l))])"

definition stocktakeFinalizePayload :: "(string \<Rightarrow> string) \<Rightarrow> StocktakeFinalizePayloadInput \<Rightarrow> MovementPayload result" where
  "stocktakeFinalizePayload sha i =
     bindR (checkOutcome i) (\<lambda>_.
     bindR (case fi_occurredOn i of None \<Rightarrow> Inr e_nul | Some d \<Rightarrow> bindR (yyyymmdd d) (\<lambda>n. Inr (e_int n))) (\<lambda>date.
     bindR (mapR finalizeEntries (fi_lines i)) (\<lambda>ls.
       finish sha ''inventory.stocktake_finalize'' (fi_tenantId i) (fi_businessId i)
         ([e_uuid (fi_stocktakeId i), e_uuid (fi_warehouseId i), e_code (outcomeText (fi_outcome i)), date,
           e_int (int (length (fi_lines i)))] @ concat ls))))"

subsection \<open>Opening\<close>

record OpeningPayloadLine =
  ol_warehouseId :: string
  ol_variantId :: string
  ol_qtyQ4 :: int
  ol_unitCostC10 :: int

record OpeningPayloadInput =
  oi_tenantId :: string
  oi_businessId :: string
  oi_openingId :: string
  oi_occurredOn :: string
  oi_openingBalanceId :: "string option"
  oi_positionMinor :: "int option"
  oi_lines :: "OpeningPayloadLine list"

definition openingEntries :: "OpeningPayloadLine \<Rightarrow> Entry list result" where
  "openingEntries l = bindR (assertPositive (ol_qtyQ4 l)) (\<lambda>_.
     if ol_unitCostC10 l < 0 then payload_refused
     else Inr [e_uuid (ol_warehouseId l), e_uuid (ol_variantId l), e_int (ol_qtyQ4 l), e_int (ol_unitCostC10 l)])"

definition openingPayload :: "(string \<Rightarrow> string) \<Rightarrow> OpeningPayloadInput \<Rightarrow> MovementPayload result" where
  "openingPayload sha i =
     bindR (assertLineCount (length (oi_lines i)) MAX_DOCUMENT_LINES) (\<lambda>_.
       if (oi_openingBalanceId i = None) \<noteq> (oi_positionMinor i = None) then payload_refused
       else bindR (assertDistinct (map (\<lambda>l. ol_warehouseId l @ ''|'' @ ol_variantId l) (oi_lines i))) (\<lambda>_.
            bindR (yyyymmdd (oi_occurredOn i)) (\<lambda>date.
            bindR (mapR openingEntries (oi_lines i)) (\<lambda>ls.
              finish sha ''inventory.opening'' (oi_tenantId i) (oi_businessId i)
                ([e_uuid (oi_openingId i), e_int date,
                  derived (case oi_openingBalanceId i of None \<Rightarrow> e_nul | Some b \<Rightarrow> e_uuid b),
                  derived (e_intOrNull (oi_positionMinor i)), e_int (int (length (oi_lines i)))] @ concat ls)))))"

subsection \<open>Intents before any state is read\<close>

text \<open>
  The intent functions take the input without the derived values; here they take the whole
  record and overwrite those values, as the placeholders of the code do.
\<close>

definition adjustIntentSha256 :: "(string \<Rightarrow> string) \<Rightarrow> (octets \<Rightarrow> octets) \<Rightarrow> AdjustPayloadInput \<Rightarrow> string result" where
  "adjustIntentSha256 sha digest i =
     bindR (adjustPayload sha digest (i\<lparr>ai_lines := map (\<lambda>l. l\<lparr>aj_expectedValue := 0\<rparr>) (ai_lines i)\<rparr>)) (\<lambda>p. Inr (mp_intentSha256 p))"

definition damageIntentSha256 :: "(string \<Rightarrow> string) \<Rightarrow> (octets \<Rightarrow> octets) \<Rightarrow> DamagePayloadInput \<Rightarrow> string result" where
  "damageIntentSha256 sha digest i =
     bindR (damagePayload sha digest (i\<lparr>di_lines := map (\<lambda>l. l\<lparr>dl_expectedValue := 0\<rparr>) (di_lines i)\<rparr>)) (\<lambda>p. Inr (mp_intentSha256 p))"

definition stocktakeFinalizeIntentSha256 :: "(string \<Rightarrow> string) \<Rightarrow> StocktakeFinalizePayloadInput \<Rightarrow> string result" where
  "stocktakeFinalizeIntentSha256 sha i =
     bindR (stocktakeFinalizePayload sha
         (i\<lparr>fi_lines := map (\<lambda>l. l\<lparr>fl_varianceQ4 := (if fl_unitCostC10 l = None then 0 else 1), fl_expectedValue := 0\<rparr>) (fi_lines i)\<rparr>))
       (\<lambda>p. Inr (mp_intentSha256 p))"

definition openingIntentSha256 :: "(string \<Rightarrow> string) \<Rightarrow> OpeningPayloadInput \<Rightarrow> string result" where
  "openingIntentSha256 sha i =
     bindR (openingPayload sha (i\<lparr>oi_openingBalanceId := None, oi_positionMinor := None\<rparr>)) (\<lambda>p. Inr (mp_intentSha256 p))"

end
