(* ===== verification/Payload_Parts.thy ===== *)
theory Payload_Parts
  imports Movement_Payloads Landed_Cost
begin

text \<open>
  What the document builders of packages/inventory share: the checked fields (\<open>uuid\<close>, \<open>int\<close>,
  \<open>words\<close>, revisions, currencies, rates), of which every builder file has its own identical
  copy, and the assembly of a field list, whose elements are evaluated from left to right.
\<close>

abbreviation int_field :: "int \<Rightarrow> InventoryPayloadField" where
  "int_field n \<equiv> F_integer (Big n)"

definition intOrNull :: "int option \<Rightarrow> InventoryPayloadField" where
  "intOrNull v = (case v of None \<Rightarrow> F_null | Some n \<Rightarrow> int_field n)"

definition uuidField :: "string \<Rightarrow> InventoryPayloadField result" where
  "uuidField v = (if \<not> is_uuid v then payload_refused else Inr (F_uuid v))"

definition uuidOrNull :: "string option \<Rightarrow> InventoryPayloadField result" where
  "uuidOrNull v = (case v of None \<Rightarrow> Inr F_null | Some u \<Rightarrow> uuidField u)"

text \<open>\<open>[a, ...b, c]\<close> where any element may throw.\<close>

definition fieldList :: "InventoryPayloadField list result list \<Rightarrow> InventoryPayloadField list result" where
  "fieldList parts = bindR (mapR (\<lambda>p. p) parts) (\<lambda>xs. Inr (concat xs))"

definition one :: "InventoryPayloadField result \<Rightarrow> InventoryPayloadField list result" where
  "one r = bindR r (\<lambda>f. Inr [f])"

definition ints :: "int list \<Rightarrow> InventoryPayloadField list result" where
  "ints ns = Inr (map (\<lambda>n. int_field n) ns)"

definition wordFields :: "(octets \<Rightarrow> octets) \<Rightarrow> utf16 option \<Rightarrow> nat \<Rightarrow> nat \<Rightarrow> InventoryPayloadField list result" where
  "wordFields digest text lo hi =
     bindR (documentTextWords digest text \<lparr>tb_min = lo, tb_max = hi\<rparr>) (\<lambda>ws. Inr (map intOrNull ws))"

text \<open>A date field; the text of a currency as its lowercase code.\<close>

definition dateField :: "string \<Rightarrow> InventoryPayloadField result" where
  "dateField d = bindR (yyyymmdd d) (\<lambda>n. Inr (int_field n))"

definition dateOrNull :: "string option \<Rightarrow> InventoryPayloadField result" where
  "dateOrNull d = (case d of None \<Rightarrow> Inr F_null | Some t \<Rightarrow> dateField t)"

definition ISO_CURRENCY_RE :: "string \<Rightarrow> bool" where
  "ISO_CURRENCY_RE v \<longleftrightarrow> length v = 3 \<and> list_all is_upper v"

definition currencyCode :: "string \<Rightarrow> string result" where
  "currencyCode currency = (if \<not> ISO_CURRENCY_RE currency then payload_refused else Inr (toLowerCase currency))"

definition currencyField :: "string \<Rightarrow> InventoryPayloadField result" where
  "currencyField currency = bindR (currencyCode currency) (\<lambda>c. Inr (F_code c))"

text \<open>\<open>Number.isSafeInteger(v)\<close> and a range.\<close>

definition numberField :: "JsNumber \<Rightarrow> int \<Rightarrow> int \<Rightarrow> InventoryPayloadField result" where
  "numberField v lo hi = (if \<not> isSafeInteger v \<or> number_int v < lo \<or> hi < number_int v then payload_refused
     else Inr (F_integer (Num v)))"

definition revisionField :: "JsNumber \<Rightarrow> InventoryPayloadField result" where
  "revisionField v = numberField v 1 2147483647"

text \<open>A length as a \<open>number\<close>.\<close>

definition lengthField :: "nat \<Rightarrow> InventoryPayloadField" where
  "lengthField n = F_integer (Num (Finite (of_nat n)))"

definition DOMESTIC_RATE_R10 :: int where "DOMESTIC_RATE_R10 = 10 ^ 10"

datatype RateSource = Rate_base | Rate_manual

definition rateSourceText :: "RateSource \<Rightarrow> string" where
  "rateSourceText s = (case s of Rate_base \<Rightarrow> ''base'' | Rate_manual \<Rightarrow> ''manual'')"

record ReceiptRate =
  rr_rateId :: "string option"
  rr_rateR10 :: int
  rr_source :: RateSource
  rr_rateAtEpochSeconds :: int

text \<open>A domestic snapshot has no registry row and a rate of exactly 1; a foreign one a row and a positive rate.\<close>

definition checkRate :: "ReceiptRate \<Rightarrow> unit result" where
  "checkRate r =
     (if (rr_source r = Rate_base) \<noteq> (rr_rateId r = None) then payload_refused
      else if (if rr_source r = Rate_base then rr_rateR10 r \<noteq> DOMESTIC_RATE_R10 else rr_rateR10 r \<le> 0) then payload_refused
      else Inr ())"

text \<open>The payload and the intent of a kind whose every field is intent.\<close>

definition finishS4 ::
  "(string \<Rightarrow> string) \<Rightarrow> string \<Rightarrow> string \<Rightarrow> string \<Rightarrow> InventoryPayloadField list \<Rightarrow> MovementPayload result" where
  "finishS4 sha opCode tenantId businessId fs =
     bindR (buildInventoryPayload sha opCode tenantId businessId fs) (\<lambda>payload.
     bindR (inventoryIntentSha256 sha opCode tenantId businessId fs) (\<lambda>intent.
       Inr \<lparr>mp_payload = payload, mp_intentSha256 = intent\<rparr>))"

text \<open>The payload of a kind whose intent has been computed by its own function.\<close>

definition finishWith ::
  "(string \<Rightarrow> string) \<Rightarrow> string \<Rightarrow> string \<Rightarrow> string \<Rightarrow> InventoryPayloadField list \<Rightarrow> string result \<Rightarrow> MovementPayload result" where
  "finishWith sha opCode tenantId businessId fs intent =
     bindR (buildInventoryPayload sha opCode tenantId businessId fs) (\<lambda>payload.
     bindR intent (\<lambda>i. Inr \<lparr>mp_payload = payload, mp_intentSha256 = i\<rparr>))"

end
