(* ===== verification/Party_Payloads.thy ===== *)
theory Party_Payloads
  imports Payload_Parts
begin

text \<open>
  The builders whose every field is intent: packages/inventory/src/supplier-payloads.ts,
  customer-payloads.ts, payment-method-payloads.ts, and the builders of payload.ts. An input
  that extends another is a record extension, as the interface is. A name is an optional text
  because the code tests it for \<open>null\<close>.
\<close>

subsection \<open>Suppliers\<close>

record SupplierText =
  spt_name :: "utf16 option"
  spt_phone :: "utf16 option"
  spt_email :: "utf16 option"
  spt_taxIdentifier :: "utf16 option"
  spt_notes :: "utf16 option"

definition supplierTextFields :: "(octets \<Rightarrow> octets) \<Rightarrow> 'a SupplierText_scheme \<Rightarrow> InventoryPayloadField list result" where
  "supplierTextFields digest t =
     (if spt_name t = None then payload_refused
      else fieldList [wordFields digest (spt_name t) 1 200, wordFields digest (spt_phone t) 1 40,
        wordFields digest (spt_email t) 3 254, wordFields digest (spt_taxIdentifier t) 1 64, wordFields digest (spt_notes t) 1 1000])"

record SupplierCreatePayloadInput = SupplierText +
  spc_tenantId :: string
  spc_businessId :: string
  spc_supplierId :: string

definition supplierCreatePayload ::
  "(string \<Rightarrow> string) \<Rightarrow> (octets \<Rightarrow> octets) \<Rightarrow> SupplierCreatePayloadInput \<Rightarrow> MovementPayload result" where
  "supplierCreatePayload sha digest i =
     bindR (fieldList [one (uuidField (spc_supplierId i)), supplierTextFields digest i])
       (finishS4 sha ''supplier.create'' (spc_tenantId i) (spc_businessId i))"

record SupplierUpdatePayloadInput = SupplierCreatePayloadInput +
  su_expectedRevision :: JsNumber

definition supplierUpdatePayload ::
  "(string \<Rightarrow> string) \<Rightarrow> (octets \<Rightarrow> octets) \<Rightarrow> SupplierUpdatePayloadInput \<Rightarrow> MovementPayload result" where
  "supplierUpdatePayload sha digest i =
     bindR (fieldList [one (uuidField (spc_supplierId i)), one (revisionField (su_expectedRevision i)), supplierTextFields digest i])
       (finishS4 sha ''supplier.update'' (spc_tenantId i) (spc_businessId i))"

record SupplierLifecyclePayloadInput =
  sl_tenantId :: string
  sl_businessId :: string
  sl_supplierId :: string
  sl_expectedRevision :: JsNumber

definition supplierArchivePayload :: "(string \<Rightarrow> string) \<Rightarrow> SupplierLifecyclePayloadInput \<Rightarrow> MovementPayload result" where
  "supplierArchivePayload sha i =
     bindR (fieldList [one (uuidField (sl_supplierId i)), one (revisionField (sl_expectedRevision i))])
       (finishS4 sha ''supplier.archive'' (sl_tenantId i) (sl_businessId i))"

definition supplierReactivatePayload :: "(string \<Rightarrow> string) \<Rightarrow> SupplierLifecyclePayloadInput \<Rightarrow> MovementPayload result" where
  "supplierReactivatePayload sha i =
     bindR (fieldList [one (uuidField (sl_supplierId i)), one (revisionField (sl_expectedRevision i))])
       (finishS4 sha ''supplier.reactivate'' (sl_tenantId i) (sl_businessId i))"

subsection \<open>Customers\<close>

record CustomerText =
  cx_name :: "utf16 option"
  cx_phone :: "utf16 option"
  cx_email :: "utf16 option"
  cx_notes :: "utf16 option"

definition customerTextFields :: "(octets \<Rightarrow> octets) \<Rightarrow> 'a CustomerText_scheme \<Rightarrow> InventoryPayloadField list result" where
  "customerTextFields digest t =
     (if cx_name t = None then payload_refused
      else fieldList [wordFields digest (cx_name t) 1 200, wordFields digest (cx_phone t) 1 40,
        wordFields digest (cx_email t) 3 254, wordFields digest (cx_notes t) 1 1000])"

definition finishP4S1 ::
  "(string \<Rightarrow> string) \<Rightarrow> string \<Rightarrow> string \<Rightarrow> string \<Rightarrow> InventoryPayloadField list \<Rightarrow> MovementPayload result" where
  "finishP4S1 sha opCode tenantId businessId fs =
     bindR (buildInventoryPayload sha opCode tenantId businessId fs) (\<lambda>payload.
     bindR (inventoryIntentSha256 sha opCode tenantId businessId fs) (\<lambda>intent.
       Inr \<lparr>mp_payload = payload, mp_intentSha256 = intent\<rparr>))"

record CustomerCreatePayloadInput = CustomerText +
  kc_tenantId :: string
  kc_businessId :: string
  kc_customerId :: string

definition customerCreatePayload ::
  "(string \<Rightarrow> string) \<Rightarrow> (octets \<Rightarrow> octets) \<Rightarrow> CustomerCreatePayloadInput \<Rightarrow> MovementPayload result" where
  "customerCreatePayload sha digest i =
     bindR (fieldList [one (uuidField (kc_customerId i)), customerTextFields digest i])
       (finishP4S1 sha ''customer.create'' (kc_tenantId i) (kc_businessId i))"

record CustomerUpdatePayloadInput = CustomerCreatePayloadInput +
  ku_expectedRevision :: JsNumber

definition customerUpdatePayload ::
  "(string \<Rightarrow> string) \<Rightarrow> (octets \<Rightarrow> octets) \<Rightarrow> CustomerUpdatePayloadInput \<Rightarrow> MovementPayload result" where
  "customerUpdatePayload sha digest i =
     bindR (fieldList [one (uuidField (kc_customerId i)), one (revisionField (ku_expectedRevision i)), customerTextFields digest i])
       (finishP4S1 sha ''customer.update'' (kc_tenantId i) (kc_businessId i))"

record CustomerLifecyclePayloadInput =
  kl_tenantId :: string
  kl_businessId :: string
  kl_customerId :: string
  kl_expectedRevision :: JsNumber

definition customerArchivePayload :: "(string \<Rightarrow> string) \<Rightarrow> CustomerLifecyclePayloadInput \<Rightarrow> MovementPayload result" where
  "customerArchivePayload sha i =
     bindR (fieldList [one (uuidField (kl_customerId i)), one (revisionField (kl_expectedRevision i))])
       (finishP4S1 sha ''customer.archive'' (kl_tenantId i) (kl_businessId i))"

definition customerReactivatePayload :: "(string \<Rightarrow> string) \<Rightarrow> CustomerLifecyclePayloadInput \<Rightarrow> MovementPayload result" where
  "customerReactivatePayload sha i =
     bindR (fieldList [one (uuidField (kl_customerId i)), one (revisionField (kl_expectedRevision i))])
       (finishP4S1 sha ''customer.reactivate'' (kl_tenantId i) (kl_businessId i))"

subsection \<open>Payment methods\<close>

definition PAYMENT_METHOD_SYSTEM_TYPES :: "string list" where
  "PAYMENT_METHOD_SYSTEM_TYPES = [''cash'', ''card'', ''bank_transfer'', ''wallet'', ''cheque'', ''other'']"

definition PAYMENT_METHOD_NAME_MAX :: nat where "PAYMENT_METHOD_NAME_MAX = 100"
definition PAYMENT_METHOD_SORT_ORDER_MAX :: int where "PAYMENT_METHOD_SORT_ORDER_MAX = 10000"

definition pm_finish ::
  "(string \<Rightarrow> string) \<Rightarrow> string \<Rightarrow> string \<Rightarrow> string \<Rightarrow> InventoryPayloadField list \<Rightarrow> MovementPayload result" where
  "pm_finish sha opCode tenantId businessId fs =
     bindR (buildInventoryPayload sha opCode tenantId businessId fs) (\<lambda>payload.
     bindR (inventoryIntentSha256 sha opCode tenantId businessId fs) (\<lambda>intent.
       Inr \<lparr>mp_payload = payload, mp_intentSha256 = intent\<rparr>))"

definition sortOrderField :: "JsNumber \<Rightarrow> InventoryPayloadField result" where
  "sortOrderField v = numberField v 0 PAYMENT_METHOD_SORT_ORDER_MAX"

record PaymentMethodNames =
  pn_ar :: "utf16 option"
  pn_en :: "utf16 option"
  pn_tr :: "utf16 option"

text \<open>Any refusal of a name's words is reported as an invalid name.\<close>

definition nameWords :: "(octets \<Rightarrow> octets) \<Rightarrow> utf16 option \<Rightarrow> InventoryPayloadField list result" where
  "nameWords digest name = (case wordFields digest name 1 PAYMENT_METHOD_NAME_MAX of
       Inl e \<Rightarrow> refuse (InventoryError payment_method_name_invalid)
     | Inr ws \<Rightarrow> Inr ws)"

definition paymentMethodNameFields :: "(octets \<Rightarrow> octets) \<Rightarrow> PaymentMethodNames \<Rightarrow> InventoryPayloadField list result" where
  "paymentMethodNameFields digest names =
     (let locales = [pn_ar names, pn_en names, pn_tr names]
      in if list_all (\<lambda>n. n = None) locales then refuse (InventoryError payment_method_name_required)
         else fieldList (map (nameWords digest) locales))"

definition systemTypeField :: "string \<Rightarrow> InventoryPayloadField result" where
  "systemTypeField systemType =
     (if systemType \<notin> set PAYMENT_METHOD_SYSTEM_TYPES then payload_refused else Inr (F_code systemType))"

record PaymentMethodCreatePayloadInput =
  mc_tenantId :: string
  mc_businessId :: string
  mc_paymentMethodId :: string
  mc_systemType :: string
  mc_postingAccountId :: string
  mc_requiresReference :: bool
  mc_sortOrder :: JsNumber
  mc_names :: PaymentMethodNames

definition paymentMethodCreatePayload ::
  "(string \<Rightarrow> string) \<Rightarrow> (octets \<Rightarrow> octets) \<Rightarrow> PaymentMethodCreatePayloadInput \<Rightarrow> MovementPayload result" where
  "paymentMethodCreatePayload sha digest i =
     bindR (fieldList [one (uuidField (mc_paymentMethodId i)), one (systemTypeField (mc_systemType i)),
         one (uuidField (mc_postingAccountId i)), Inr [F_boolean (mc_requiresReference i)],
         one (sortOrderField (mc_sortOrder i)), paymentMethodNameFields digest (mc_names i)])
       (pm_finish sha ''payment.create_method'' (mc_tenantId i) (mc_businessId i))"

record PaymentMethodUpdatePayloadInput =
  mu_tenantId :: string
  mu_businessId :: string
  mu_paymentMethodId :: string
  mu_expectedRevision :: JsNumber
  mu_postingAccountId :: string
  mu_requiresReference :: bool
  mu_sortOrder :: JsNumber
  mu_names :: PaymentMethodNames

definition paymentMethodUpdatePayload ::
  "(string \<Rightarrow> string) \<Rightarrow> (octets \<Rightarrow> octets) \<Rightarrow> PaymentMethodUpdatePayloadInput \<Rightarrow> MovementPayload result" where
  "paymentMethodUpdatePayload sha digest i =
     bindR (fieldList [one (uuidField (mu_paymentMethodId i)), one (revisionField (mu_expectedRevision i)),
         one (uuidField (mu_postingAccountId i)), Inr [F_boolean (mu_requiresReference i)],
         one (sortOrderField (mu_sortOrder i)), paymentMethodNameFields digest (mu_names i)])
       (pm_finish sha ''payment.update_method'' (mu_tenantId i) (mu_businessId i))"

record PaymentMethodLifecyclePayloadInput =
  ml_tenantId :: string
  ml_businessId :: string
  ml_paymentMethodId :: string
  ml_expectedRevision :: JsNumber

definition paymentMethodDeactivatePayload :: "(string \<Rightarrow> string) \<Rightarrow> PaymentMethodLifecyclePayloadInput \<Rightarrow> MovementPayload result" where
  "paymentMethodDeactivatePayload sha i =
     bindR (fieldList [one (uuidField (ml_paymentMethodId i)), one (revisionField (ml_expectedRevision i))])
       (pm_finish sha ''payment.deactivate_method'' (ml_tenantId i) (ml_businessId i))"

definition paymentMethodActivatePayload :: "(string \<Rightarrow> string) \<Rightarrow> PaymentMethodLifecyclePayloadInput \<Rightarrow> MovementPayload result" where
  "paymentMethodActivatePayload sha i =
     bindR (fieldList [one (uuidField (ml_paymentMethodId i)), one (revisionField (ml_expectedRevision i))])
       (pm_finish sha ''payment.activate_method'' (ml_tenantId i) (ml_businessId i))"

subsection \<open>Products, warehouses and till sessions\<close>

text \<open>These return the payload alone and leave every check to the encoder.\<close>

record ConfigureProductPayloadInput =
  cfg_tenantId :: string
  cfg_businessId :: string
  cfg_productId :: string
  cfg_trackInventory :: bool
  cfg_unitCode :: "string option"
  cfg_unitDecimals :: "JsNumber option"

definition configureProductPayload :: "(string \<Rightarrow> string) \<Rightarrow> ConfigureProductPayloadInput \<Rightarrow> InventoryPayload result" where
  "configureProductPayload sha i =
     buildInventoryPayload sha ''inventory.configure_product'' (cfg_tenantId i) (cfg_businessId i)
       [F_uuid (cfg_productId i), F_boolean (cfg_trackInventory i),
        (case cfg_unitCode i of None \<Rightarrow> F_null | Some c \<Rightarrow> F_code c),
        (case cfg_unitDecimals i of None \<Rightarrow> F_null | Some n \<Rightarrow> F_integer (Num n))]"

record WarehouseBranchPayloadInput =
  wb_tenantId :: string
  wb_businessId :: string
  wb_warehouseId :: string
  wb_branchId :: string

definition associateWarehouseBranchPayload :: "(string \<Rightarrow> string) \<Rightarrow> WarehouseBranchPayloadInput \<Rightarrow> InventoryPayload result" where
  "associateWarehouseBranchPayload sha i =
     buildInventoryPayload sha ''structure.associate_warehouse_branch'' (wb_tenantId i) (wb_businessId i)
       [F_uuid (wb_warehouseId i), F_uuid (wb_branchId i)]"

definition dissociateWarehouseBranchPayload :: "(string \<Rightarrow> string) \<Rightarrow> WarehouseBranchPayloadInput \<Rightarrow> InventoryPayload result" where
  "dissociateWarehouseBranchPayload sha i =
     buildInventoryPayload sha ''structure.dissociate_warehouse_branch'' (wb_tenantId i) (wb_businessId i)
       [F_uuid (wb_warehouseId i), F_uuid (wb_branchId i)]"

record TillSessionOpenPayloadInput =
  to_tenantId :: string
  to_businessId :: string
  to_sessionId :: string
  to_branchId :: string
  to_warehouseId :: string
  to_terminalCode :: string
  to_currencyCode :: string
  to_openingFloatMinor :: int

definition tillSessionOpenPayload :: "(string \<Rightarrow> string) \<Rightarrow> TillSessionOpenPayloadInput \<Rightarrow> InventoryPayload result" where
  "tillSessionOpenPayload sha i =
     buildInventoryPayload sha ''pos.session_open'' (to_tenantId i) (to_businessId i)
       [F_uuid (to_sessionId i), F_uuid (to_branchId i), F_uuid (to_warehouseId i), F_code (to_terminalCode i),
        F_code (toLowerCase (to_currencyCode i)), int_field (to_openingFloatMinor i)]"

record TillSessionClosePayloadInput =
  tc_tenantId :: string
  tc_businessId :: string
  tc_sessionId :: string
  tc_closingCountMinor :: int

definition tillSessionClosePayload :: "(string \<Rightarrow> string) \<Rightarrow> TillSessionClosePayloadInput \<Rightarrow> InventoryPayload result" where
  "tillSessionClosePayload sha i =
     buildInventoryPayload sha ''pos.session_close'' (tc_tenantId i) (tc_businessId i)
       [F_uuid (tc_sessionId i), int_field (tc_closingCountMinor i)]"

end
