(* ===== verification/Document_Payloads.thy ===== *)
theory Document_Payloads
  imports Payload_Parts Purchase_Residue
begin

text \<open>
  The builders of the documents that move stock: packages/inventory/src/purchase-payloads.ts,
  purchase-reversal-payloads.ts, supplier-return-payloads.ts and the payload
  part of purchase-residue.ts. A builder checks what the database would refuse, runs the
  arithmetic of the document where it has it, and signs the fields in the order of the routine.
\<close>

abbreviation duplicate_refused :: "'a result" where
  "duplicate_refused \<equiv> refuse (InventoryError duplicate_line)"

text \<open>The checks of a document's line identities, the same in every builder: at least one line, at
  most the document bound, both identities distinct.\<close>

definition assertLines :: "string list \<Rightarrow> string list \<Rightarrow> unit result" where
  "assertLines ids variants =
     (if length ids = 0 then refuse (InventoryError lines_required)
      else if MAX_DOCUMENT_LINES < length ids then payload_refused
      else if \<not> distinct ids \<or> \<not> distinct variants then duplicate_refused
      else Inr ())"

text \<open>A guard over the lines, in order, with one code.\<close>

definition checkAll :: "('a \<Rightarrow> bool) \<Rightarrow> 'a list \<Rightarrow> unit result" where
  "checkAll ok xs = (if list_all ok xs then Inr () else payload_refused)"

subsection \<open>Purchase drafts and cancellations\<close>

definition PURCHASE_TEXT_MAX_supplierReference :: nat where "PURCHASE_TEXT_MAX_supplierReference = 200"
definition PURCHASE_TEXT_MAX_notes :: nat where "PURCHASE_TEXT_MAX_notes = 1000"
definition PURCHASE_TEXT_MAX_landedDescription :: nat where "PURCHASE_TEXT_MAX_landedDescription = 200"

record PurchaseDraftLine = PurchaseLineInput +
  dn_lineId :: string
  dn_variantId :: string

record PurchaseDraftLandedCost = LandedCostInput +
  dc_landedCostId :: string
  dc_description :: "utf16 option"

record PurchaseDraftPayloadInput =
  dp_tenantId :: string
  dp_businessId :: string
  dp_purchaseId :: string
  dp_expectedRevision :: JsNumber
  dp_supplierId :: string
  dp_warehouseId :: string
  dp_previousWarehouseId :: "string option"
  dp_currency :: string
  dp_documentDate :: string
  dp_supplierReference :: "utf16 option"
  dp_notes :: "utf16 option"
  dp_taxMinor :: int
  dp_lines :: "PurchaseDraftLine list"
  dp_landedCosts :: "PurchaseDraftLandedCost list"

record PurchaseDraftPayload = MovementPayload +
  pp_totals :: PurchaseTotals

definition landedModeText :: "LandedCostMode \<Rightarrow> string" where
  "landedModeText m = (case m of by_value \<Rightarrow> ''by_value'' | manual \<Rightarrow> ''manual'')"

definition draftLineFields :: "PurchaseDraftLine \<Rightarrow> InventoryPayloadField list result" where
  "draftLineFields l = fieldList [one (uuidField (dn_lineId l)), one (uuidField (dn_variantId l)),
     ints [pl_qtyQ4 l, pl_unitPriceC10 l, pl_discountMinor l]]"

text \<open>\<open>c.allocations === null ? null : int(c.allocations[i] ?? -1n)\<close> for every line \<open>i\<close>.\<close>

definition allocationFields :: "int list option \<Rightarrow> nat \<Rightarrow> InventoryPayloadField list" where
  "allocationFields allocations n = map (\<lambda>i. case allocations of
       None \<Rightarrow> F_null
     | Some as \<Rightarrow> int_field (if i < length as then as ! i else - 1)) [0..<n]"

definition draftCostFields :: "(octets \<Rightarrow> octets) \<Rightarrow> nat \<Rightarrow> PurchaseDraftLandedCost \<Rightarrow> InventoryPayloadField list result" where
  "draftCostFields digest n c = fieldList [one (uuidField (dc_landedCostId c)), Inr [F_code (landedModeText (lc_mode c))],
     ints [lc_amountMinor c], wordFields digest (dc_description c) 1 PURCHASE_TEXT_MAX_landedDescription,
     Inr (allocationFields (lc_allocations c) n)]"

definition draftFields :: "(octets \<Rightarrow> octets) \<Rightarrow> PurchaseDraftPayloadInput \<Rightarrow> InventoryPayloadField list result" where
  "draftFields digest i = fieldList (
     [one (uuidField (dp_purchaseId i)), one (numberField (dp_expectedRevision i) 0 2147483647),
      one (uuidField (dp_supplierId i)), one (uuidField (dp_warehouseId i)), one (uuidOrNull (dp_previousWarehouseId i)),
      one (currencyField (dp_currency i)), one (dateField (dp_documentDate i)),
      wordFields digest (dp_supplierReference i) 1 PURCHASE_TEXT_MAX_supplierReference,
      wordFields digest (dp_notes i) 1 PURCHASE_TEXT_MAX_notes,
      ints [dp_taxMinor i], Inr [lengthField (length (dp_lines i))]]
     @ map draftLineFields (dp_lines i)
     @ [Inr [lengthField (length (dp_landedCosts i))]]
     @ map (draftCostFields digest (length (dp_lines i))) (dp_landedCosts i))"

definition purchaseDraftPayload ::
  "(string \<Rightarrow> string) \<Rightarrow> (octets \<Rightarrow> octets) \<Rightarrow> PurchaseDraftPayloadInput \<Rightarrow> PurchaseDraftPayload result" where
  "purchaseDraftPayload sha digest i =
     bindR (assertLines (map dn_lineId (dp_lines i)) (map dn_variantId (dp_lines i))) (\<lambda>_.
       if MAX_LANDED_COSTS < length (dp_landedCosts i) then payload_refused
       else if \<not> distinct (map dn_lineId (dp_lines i) @ map dc_landedCostId (dp_landedCosts i)) then duplicate_refused
       else if dp_previousWarehouseId i \<noteq> None
           \<and> (dp_expectedRevision i = Finite 0 \<or> dp_previousWarehouseId i = Some (dp_warehouseId i)) then payload_refused
       else bindR (lineTotals (map PurchaseLineInput.truncate (dp_lines i)) (map LandedCostInput.truncate (dp_landedCosts i)) (dp_taxMinor i)) (\<lambda>totals.
            bindR (draftFields digest i) (\<lambda>fs.
            bindR (finishS4 sha ''purchase.draft'' (dp_tenantId i) (dp_businessId i) fs) (\<lambda>m.
              Inr (MovementPayload.extend m (PurchaseDraftPayload.fields totals))))))"

record PurchaseCancelPayloadInput =
  pc_tenantId :: string
  pc_businessId :: string
  pc_purchaseId :: string
  pc_warehouseId :: string
  pc_draftRevision :: JsNumber

definition purchaseCancelPayload :: "(string \<Rightarrow> string) \<Rightarrow> PurchaseCancelPayloadInput \<Rightarrow> MovementPayload result" where
  "purchaseCancelPayload sha i =
     bindR (fieldList [one (uuidField (pc_purchaseId i)), one (uuidField (pc_warehouseId i)), one (revisionField (pc_draftRevision i))])
       (finishS4 sha ''purchase.cancel'' (pc_tenantId i) (pc_businessId i))"

subsection \<open>Purchase receipts\<close>

record PurchaseReceiveLine =
  rl_lineId :: string
  rl_variantId :: string
  rl_qtyQ4 :: int
  rl_baseShareMinor :: int
  rl_coveredQ4 :: int
  rl_catchUpMinor :: int

record PurchaseReceiveIntentInput =
  rp_tenantId :: string
  rp_businessId :: string
  rp_purchaseId :: string
  rp_warehouseId :: string
  rp_draftRevision :: JsNumber

record PurchaseReceivePayloadInput = PurchaseReceiveIntentInput +
  rp_supplierId :: string
  rp_supplierRevision :: JsNumber
  rp_documentDate :: string
  rp_currency :: string
  rp_rate :: ReceiptRate
  rp_totalTxnMinor :: int
  rp_totalBaseMinor :: int
  rp_coverageAdjustmentId :: "string option"
  rp_lines :: "PurchaseReceiveLine list"

definition purchaseReceiveIntentSha256 :: "(string \<Rightarrow> string) \<Rightarrow> 'a PurchaseReceiveIntentInput_scheme \<Rightarrow> string result" where
  "purchaseReceiveIntentSha256 sha i =
     bindR (fieldList [one (uuidField (rp_purchaseId i)), one (uuidField (rp_warehouseId i)), one (revisionField (rp_draftRevision i))])
       (inventoryIntentSha256 sha ''purchase.receive'' (rp_tenantId i) (rp_businessId i))"

definition receiveLineOk :: "PurchaseReceiveLine \<Rightarrow> bool" where
  "receiveLineOk l \<longleftrightarrow> 0 < rl_qtyQ4 l \<and> 0 \<le> rl_baseShareMinor l \<and> 0 \<le> rl_coveredQ4 l \<and> rl_coveredQ4 l \<le> rl_qtyQ4 l
     \<and> \<not> (rl_coveredQ4 l = 0 \<and> rl_catchUpMinor l \<noteq> 0)"

definition receiveLineFields :: "PurchaseReceiveLine \<Rightarrow> InventoryPayloadField list result" where
  "receiveLineFields l = fieldList [one (uuidField (rl_lineId l)), one (uuidField (rl_variantId l)),
     ints [rl_qtyQ4 l, rl_baseShareMinor l, rl_coveredQ4 l, rl_catchUpMinor l]]"

definition receiveFields :: "PurchaseReceivePayloadInput \<Rightarrow> InventoryPayloadField list result" where
  "receiveFields i = fieldList (
     [one (uuidField (rp_purchaseId i)), one (uuidField (rp_warehouseId i)), one (revisionField (rp_draftRevision i)),
      one (uuidField (rp_supplierId i)), one (revisionField (rp_supplierRevision i)), one (dateField (rp_documentDate i)),
      one (currencyField (rp_currency i)), one (uuidOrNull (rr_rateId (rp_rate i))), ints [rr_rateR10 (rp_rate i)],
      Inr [F_code (rateSourceText (rr_source (rp_rate i)))], ints [rr_rateAtEpochSeconds (rp_rate i)],
      ints [rp_totalTxnMinor i], ints [rp_totalBaseMinor i], one (uuidOrNull (rp_coverageAdjustmentId i)),
      Inr [lengthField (length (rp_lines i))]] @ map receiveLineFields (rp_lines i))"

definition purchaseReceivePayload :: "(string \<Rightarrow> string) \<Rightarrow> PurchaseReceivePayloadInput \<Rightarrow> MovementPayload result" where
  "purchaseReceivePayload sha i =
     bindR (assertLines (map rl_lineId (rp_lines i)) (map rl_variantId (rp_lines i))) (\<lambda>_.
     bindR (checkRate (rp_rate i)) (\<lambda>_.
       if rp_totalTxnMinor i \<le> 0 \<or> rp_totalBaseMinor i \<le> 0 then refuse (InventoryError purchase_total_zero)
       else bindR (checkAll receiveLineOk (rp_lines i)) (\<lambda>_.
         if foldl (\<lambda>a l. a + rl_baseShareMinor l) 0 (rp_lines i) \<noteq> rp_totalBaseMinor i then payload_refused
         else if (foldl (\<lambda>a l. a + rl_coveredQ4 l) 0 (rp_lines i) = 0) \<noteq> (rp_coverageAdjustmentId i = None) then payload_refused
         else bindR (receiveFields i) (\<lambda>fs.
           finishWith sha ''purchase.receive'' (rp_tenantId i) (rp_businessId i) fs (purchaseReceiveIntentSha256 sha i)))))"

subsection \<open>Purchase reversals\<close>

definition purchaseReversalReasonWords :: "(octets \<Rightarrow> octets) \<Rightarrow> utf16 option \<Rightarrow> InventoryPayloadField list result" where
  "purchaseReversalReasonWords digest reason =
     (if reason = None then refuse (InventoryError reason_required) else wordFields digest reason 1 REASON_MAX_CHARS)"

record PurchaseReverseIntentInput =
  rv_tenantId :: string
  rv_businessId :: string
  rv_purchaseId :: string
  rv_warehouseId :: string
  rv_reversalDate :: string
  rv_reason :: "utf16 option"

definition reverseIntentFields :: "(octets \<Rightarrow> octets) \<Rightarrow> 'a PurchaseReverseIntentInput_scheme \<Rightarrow> InventoryPayloadField list result" where
  "reverseIntentFields digest i = fieldList [one (uuidField (rv_purchaseId i)), one (uuidField (rv_warehouseId i)),
     one (dateField (rv_reversalDate i)), purchaseReversalReasonWords digest (rv_reason i)]"

definition purchaseReverseIntentSha256 ::
  "(string \<Rightarrow> string) \<Rightarrow> (octets \<Rightarrow> octets) \<Rightarrow> 'a PurchaseReverseIntentInput_scheme \<Rightarrow> string result" where
  "purchaseReverseIntentSha256 sha digest i =
     bindR (reverseIntentFields digest i) (inventoryIntentSha256 sha ''purchase.reverse'' (rv_tenantId i) (rv_businessId i))"

record PurchaseReverseLine =
  vl_lineId :: string
  vl_variantId :: string
  vl_qtyQ4 :: int
  vl_valueMinor :: int

record PurchaseReversePayloadInput = PurchaseReverseIntentInput +
  rv_originalEntryId :: string
  rv_totalValueMinor :: int
  rv_lines :: "PurchaseReverseLine list"

definition reverseLineFields :: "PurchaseReverseLine \<Rightarrow> InventoryPayloadField list result" where
  "reverseLineFields l = fieldList [one (uuidField (vl_lineId l)), one (uuidField (vl_variantId l)), ints [vl_qtyQ4 l, vl_valueMinor l]]"

definition purchaseReversePayload ::
  "(string \<Rightarrow> string) \<Rightarrow> (octets \<Rightarrow> octets) \<Rightarrow> PurchaseReversePayloadInput \<Rightarrow> MovementPayload result" where
  "purchaseReversePayload sha digest i =
     bindR (assertLines (map vl_lineId (rv_lines i)) (map vl_variantId (rv_lines i))) (\<lambda>_.
       if rv_totalValueMinor i \<le> 0 then payload_refused
       else bindR (checkAll (\<lambda>l. 0 < vl_qtyQ4 l \<and> 0 \<le> vl_valueMinor l) (rv_lines i)) (\<lambda>_.
         if foldl (\<lambda>a l. a + vl_valueMinor l) 0 (rv_lines i) \<noteq> rv_totalValueMinor i then payload_refused
         else bindR (fieldList ([reverseIntentFields digest i, one (uuidField (rv_originalEntryId i)), ints [rv_totalValueMinor i],
                ints [int (length (rv_lines i))]] @ map reverseLineFields (rv_lines i))) (\<lambda>fs.
           finishWith sha ''purchase.reverse'' (rv_tenantId i) (rv_businessId i) fs (purchaseReverseIntentSha256 sha digest i))))"

datatype ReversalLineVerdict = Verdict_ok int StockState | Verdict_insufficient_stock | Verdict_valuation_residue

definition reversalLineVerdict :: "StockState \<Rightarrow> int \<Rightarrow> int \<Rightarrow> ReversalLineVerdict result" where
  "reversalLineVerdict state qtyQ4 purchaseValueMinor =
     (if qtyQ4 \<le> 0 then payload_refused
      else if purchaseValueMinor < 0 then payload_refused
      else if onHand state < qtyQ4 then Inr Verdict_insufficient_stock
      else let onHandAfter = onHand state - qtyQ4; valuationAfter = valuation state - purchaseValueMinor
           in if onHandAfter = 0 \<and> valuationAfter \<noteq> 0 \<or> 0 < onHandAfter \<and> valuationAfter < 0 then Inr Verdict_valuation_residue
              else bindR (applyMovement state (- qtyQ4) (- purchaseValueMinor)) (\<lambda>after. Inr (Verdict_ok (- purchaseValueMinor) after)))"

subsection \<open>Supplier returns\<close>

definition amount :: "int \<Rightarrow> unit result" where
  "amount v = (if v < 0 then payload_refused else Inr ())"

definition supplierReturnReasonWords :: "(octets \<Rightarrow> octets) \<Rightarrow> utf16 option \<Rightarrow> InventoryPayloadField list result" where
  "supplierReturnReasonWords digest reason = wordFields digest reason 1 REASON_MAX_CHARS"

record SupplierReturnIntentLine =
  sl_returnLineId :: string
  sl_purchaseLineId :: string
  sl_qtyQ4 :: int

record 'l SupplierReturnIntentInput =
  si_tenantId :: string
  si_businessId :: string
  si_returnId :: string
  si_purchaseId :: string
  si_warehouseId :: string
  si_documentDate :: string
  si_reason :: "utf16 option"
  si_lines :: "'l list"

definition return_assertLines :: "'a SupplierReturnIntentLine_scheme list \<Rightarrow> unit result" where
  "return_assertLines lines = bindR (assertLines (map sl_returnLineId lines) (map sl_purchaseLineId lines)) (\<lambda>_.
     checkAll (\<lambda>l. 0 < sl_qtyQ4 l) lines)"

definition returnIntentFields ::
  "(octets \<Rightarrow> octets) \<Rightarrow> ('l SupplierReturnIntentLine_scheme, 'a) SupplierReturnIntentInput_scheme \<Rightarrow> InventoryPayloadField list result" where
  "returnIntentFields digest i = bindR (return_assertLines (si_lines i)) (\<lambda>_. fieldList (
     [one (uuidField (si_returnId i)), one (uuidField (si_purchaseId i)), one (uuidField (si_warehouseId i)),
      one (dateField (si_documentDate i)), supplierReturnReasonWords digest (si_reason i), ints [int (length (si_lines i))]]
     @ map (\<lambda>l. fieldList [one (uuidField (sl_returnLineId l)), one (uuidField (sl_purchaseLineId l)), ints [sl_qtyQ4 l]]) (si_lines i)))"

definition supplierReturnIntentSha256 ::
  "(string \<Rightarrow> string) \<Rightarrow> (octets \<Rightarrow> octets) \<Rightarrow> ('l SupplierReturnIntentLine_scheme, 'a) SupplierReturnIntentInput_scheme \<Rightarrow> string result" where
  "supplierReturnIntentSha256 sha digest i =
     bindR (returnIntentFields digest i) (inventoryIntentSha256 sha ''purchase.return'' (si_tenantId i) (si_businessId i))"

record SupplierReturnPayloadLine = SupplierReturnIntentLine +
  sl_variantId :: string
  sl_carryingTxnMinor :: int
  sl_valueOutMinor :: int

record SupplierReturnAmounts =
  am_carryingTxnMinor :: int
  am_apTxnMinor :: int
  am_apBaseMinor :: int
  am_creditTxnMinor :: int
  am_creditBaseMinor :: int
  am_inventoryValueMinor :: int
  am_ppvMinor :: int

record SupplierReturnPayloadInput = "SupplierReturnPayloadLine SupplierReturnIntentInput" +
  si_amounts :: SupplierReturnAmounts
  si_creditNoteId :: "string option"

definition returnHeaderOk :: "SupplierReturnPayloadInput \<Rightarrow> bool" where
  "returnHeaderOk i \<longleftrightarrow> (let a = si_amounts i in
     foldl (\<lambda>s l. s + sl_carryingTxnMinor l) 0 (si_lines i) = am_carryingTxnMinor a
     \<and> am_apTxnMinor a + am_creditTxnMinor a = am_carryingTxnMinor a
     \<and> (am_creditTxnMinor a = 0) = (am_creditBaseMinor a = 0)
     \<and> (am_creditTxnMinor a = 0) = (si_creditNoteId i = None)
     \<and> \<not> (am_apTxnMinor a = 0 \<and> am_apBaseMinor a \<noteq> 0)
     \<and> foldl (\<lambda>s l. s + sl_valueOutMinor l) 0 (si_lines i) = am_inventoryValueMinor a
     \<and> am_ppvMinor a = am_apBaseMinor a + am_creditBaseMinor a - am_inventoryValueMinor a)"

definition returnLineFields :: "SupplierReturnPayloadLine \<Rightarrow> InventoryPayloadField list result" where
  "returnLineFields l = fieldList [one (uuidField (sl_returnLineId l)), one (uuidField (sl_purchaseLineId l)),
     one (uuidField (sl_variantId l)), ints [sl_qtyQ4 l, sl_carryingTxnMinor l, sl_valueOutMinor l]]"

definition returnFields :: "(octets \<Rightarrow> octets) \<Rightarrow> SupplierReturnPayloadInput \<Rightarrow> InventoryPayloadField list result" where
  "returnFields digest i = (let a = si_amounts i in fieldList (
     [one (uuidField (si_returnId i)), one (uuidField (si_purchaseId i)), one (uuidField (si_warehouseId i)),
      one (dateField (si_documentDate i)), supplierReturnReasonWords digest (si_reason i), one (uuidOrNull (si_creditNoteId i)),
      ints [am_carryingTxnMinor a, am_apTxnMinor a, am_apBaseMinor a, am_creditTxnMinor a, am_creditBaseMinor a,
            am_inventoryValueMinor a, am_ppvMinor a, int (length (si_lines i))]]
     @ map returnLineFields (si_lines i)))"

definition supplierReturnPayload ::
  "(string \<Rightarrow> string) \<Rightarrow> (octets \<Rightarrow> octets) \<Rightarrow> SupplierReturnPayloadInput \<Rightarrow> MovementPayload result" where
  "supplierReturnPayload sha digest i =
     bindR (return_assertLines (si_lines i)) (\<lambda>_.
       let a = si_amounts i in
       bindR (mapR amount [am_carryingTxnMinor a, am_apTxnMinor a, am_apBaseMinor a, am_creditTxnMinor a, am_creditBaseMinor a,
                           am_inventoryValueMinor a]) (\<lambda>_.
       bindR (checkAll (\<lambda>l. 0 \<le> sl_carryingTxnMinor l \<and> 0 \<le> sl_valueOutMinor l) (si_lines i)) (\<lambda>_.
         if \<not> returnHeaderOk i then payload_refused
         else if am_carryingTxnMinor a = 0 \<and> am_inventoryValueMinor a = 0 then refuse (InventoryError supplier_return_value_zero)
         else bindR (returnFields digest i) (\<lambda>fs.
           finishWith sha ''purchase.return'' (si_tenantId i) (si_businessId i) fs (supplierReturnIntentSha256 sha digest i)))))"

subsection \<open>Residue write-offs\<close>

definition purchaseResidueReasonWords :: "(octets \<Rightarrow> octets) \<Rightarrow> utf16 option \<Rightarrow> InventoryPayloadField list result" where
  "purchaseResidueReasonWords digest reason =
     (if reason = None then refuse (InventoryError reason_required) else wordFields digest reason 1 REASON_MAX_CHARS)"

record PurchaseResidueWriteOffIntentInput =
  wo_tenantId :: string
  wo_businessId :: string
  wo_purchaseId :: string
  wo_writeOffDate :: string
  wo_reason :: "utf16 option"
  wo_residueTxnMinor :: int

definition residueIntentFields ::
  "(octets \<Rightarrow> octets) \<Rightarrow> 'a PurchaseResidueWriteOffIntentInput_scheme \<Rightarrow> InventoryPayloadField list result" where
  "residueIntentFields digest i =
     (if wo_residueTxnMinor i \<le> 0 then payload_refused
      else fieldList [one (uuidField (wo_purchaseId i)), one (dateField (wo_writeOffDate i)),
             purchaseResidueReasonWords digest (wo_reason i), ints [wo_residueTxnMinor i]])"

definition purchaseResidueWriteOffIntentSha256 ::
  "(string \<Rightarrow> string) \<Rightarrow> (octets \<Rightarrow> octets) \<Rightarrow> 'a PurchaseResidueWriteOffIntentInput_scheme \<Rightarrow> string result" where
  "purchaseResidueWriteOffIntentSha256 sha digest i =
     bindR (residueIntentFields digest i) (inventoryIntentSha256 sha ''purchase.write_off_residue'' (wo_tenantId i) (wo_businessId i))"

record PurchaseResidueWriteOffPayloadInput = PurchaseResidueWriteOffIntentInput +
  wo_releasedBeforeTxnMinor :: int
  wo_residueBaseMinor :: int

definition purchaseResidueWriteOffPayload ::
  "(string \<Rightarrow> string) \<Rightarrow> (octets \<Rightarrow> octets) \<Rightarrow> PurchaseResidueWriteOffPayloadInput \<Rightarrow> MovementPayload result" where
  "purchaseResidueWriteOffPayload sha digest i =
     (if wo_releasedBeforeTxnMinor i \<le> 0 then payload_refused
      else if wo_residueBaseMinor i < 0 then payload_refused
      else bindR (fieldList [residueIntentFields digest i, ints [wo_releasedBeforeTxnMinor i, wo_residueBaseMinor i]]) (\<lambda>fs.
        finishWith sha ''purchase.write_off_residue'' (wo_tenantId i) (wo_businessId i) fs
          (purchaseResidueWriteOffIntentSha256 sha digest i)))"

end
