(* ===== verification/Sale_Payloads.thy ===== *)
theory Sale_Payloads
  imports Document_Payloads
begin

text \<open>
  packages/inventory/src/sale-payloads.ts: the intent of a sale, computed from the request alone,
  and the signed payload with every figure the server resolved. The intent functions work on any
  extension of the request, as the code passes the whole payload input to them.
\<close>

definition MAX_SALE_PAYLOAD_LINES :: nat where "MAX_SALE_PAYLOAD_LINES = MAX_DOCUMENT_LINES"
definition SALE_PAYLOAD_TEXT_MAX_notes :: nat where "SALE_PAYLOAD_TEXT_MAX_notes = 1000"
definition SALE_DOMESTIC_RATE_R10 :: int where "SALE_DOMESTIC_RATE_R10 = 10 ^ 10"

definition notesWords :: "(octets \<Rightarrow> octets) \<Rightarrow> utf16 option \<Rightarrow> InventoryPayloadField list result" where
  "notesWords digest notes = wordFields digest notes 1 SALE_PAYLOAD_TEXT_MAX_notes"

text \<open>The rate snapshot of a sale has the fields of a receipt's.\<close>

type_synonym SaleRateSnapshot = ReceiptRate

definition checkSaleRate :: "SaleRateSnapshot \<Rightarrow> unit result" where
  "checkSaleRate r =
     (if (rr_source r = Rate_base) \<noteq> (rr_rateId r = None) then payload_refused
      else if (if rr_source r = Rate_base then rr_rateR10 r \<noteq> SALE_DOMESTIC_RATE_R10 else rr_rateR10 r \<le> 0) then payload_refused
      else Inr ())"

datatype SettlementMode = Mode_credit | Mode_cash

definition settlementModeText :: "SettlementMode \<Rightarrow> string" where
  "settlementModeText m = (case m of Mode_credit \<Rightarrow> ''credit'' | Mode_cash \<Rightarrow> ''cash'')"

record SaleCommitIntentLine =
  sn_lineId :: string
  sn_productId :: string
  sn_merchantVariantId :: "string option"
  sn_qtyQ4 :: int
  sn_discountMinor :: int

record SaleCommitPayloadLine = SaleCommitIntentLine +
  sn_variantId :: string
  sn_unitPriceC10 :: int
  sn_netTxnMinor :: int
  sn_baseShareMinor :: int

record 'l SaleCommitIntentInput =
  ss_tenantId :: string
  ss_businessId :: string
  ss_saleId :: string
  ss_settlementMode :: SettlementMode
  ss_customerId :: "string option"
  ss_warehouseId :: string
  ss_documentDate :: string
  ss_dueDate :: "string option"
  ss_taxMinor :: int
  ss_notes :: "utf16 option"
  ss_lines :: "'l list"

record SaleCommitPayloadInput = "SaleCommitPayloadLine SaleCommitIntentInput" +
  ss_branchId :: string
  ss_invoiceId :: string
  ss_currency :: string
  ss_rate :: SaleRateSnapshot
  ss_subtotalTxnMinor :: int
  ss_discountTxnMinor :: int
  ss_totalTxnMinor :: int
  ss_totalBaseMinor :: int

definition sale_assertLines :: "string list \<Rightarrow> string list \<Rightarrow> unit result" where
  "sale_assertLines ids identities =
     (if length ids = 0 then refuse (InventoryError lines_required)
      else if MAX_SALE_PAYLOAD_LINES < length ids then payload_refused
      else if \<not> distinct ids \<or> \<not> distinct identities then duplicate_refused
      else Inr ())"

definition statedIdentity :: "'a SaleCommitIntentLine_scheme \<Rightarrow> string" where
  "statedIdentity l = sn_productId l @ '':'' @ (case sn_merchantVariantId l of None \<Rightarrow> '''' | Some v \<Rightarrow> v)"

definition assertIntentLine :: "'a SaleCommitIntentLine_scheme \<Rightarrow> unit result" where
  "assertIntentLine l =
     bindR (uuidField (sn_productId l)) (\<lambda>_.
     bindR (uuidOrNull (sn_merchantVariantId l)) (\<lambda>_.
       if sn_qtyQ4 l \<le> 0 then payload_refused else if sn_discountMinor l < 0 then payload_refused else Inr ()))"

definition assertIntentLines :: "'a SaleCommitIntentLine_scheme list \<Rightarrow> unit result" where
  "assertIntentLines lines =
     bindR (sale_assertLines (map sn_lineId lines) (map statedIdentity lines)) (\<lambda>_.
     bindR (mapR assertIntentLine lines) (\<lambda>_. Inr ()))"

definition saleIntentLineFields :: "'a SaleCommitIntentLine_scheme \<Rightarrow> InventoryPayloadField list result" where
  "saleIntentLineFields l = fieldList [one (uuidField (sn_lineId l)), one (uuidField (sn_productId l)),
     one (uuidOrNull (sn_merchantVariantId l)), ints [sn_qtyQ4 l, sn_discountMinor l]]"

definition saleIntentFields ::
  "(octets \<Rightarrow> octets) \<Rightarrow> ('l SaleCommitIntentLine_scheme, 'a) SaleCommitIntentInput_scheme \<Rightarrow> InventoryPayloadField list result" where
  "saleIntentFields digest i = fieldList (
     [one (uuidField (ss_saleId i)), Inr [F_code (settlementModeText (ss_settlementMode i))], one (uuidOrNull (ss_customerId i)),
      one (uuidField (ss_warehouseId i)), one (dateField (ss_documentDate i)), one (dateOrNull (ss_dueDate i)), ints [ss_taxMinor i],
      notesWords digest (ss_notes i), ints [int (length (ss_lines i))]]
     @ map saleIntentLineFields (ss_lines i))"

definition saleCommitIntentSha256 ::
  "(string \<Rightarrow> string) \<Rightarrow> (octets \<Rightarrow> octets) \<Rightarrow> ('l SaleCommitIntentLine_scheme, 'a) SaleCommitIntentInput_scheme \<Rightarrow> string result" where
  "saleCommitIntentSha256 sha digest i =
     bindR (assertIntentLines (ss_lines i)) (\<lambda>_.
       if ss_settlementMode i = Mode_credit \<and> ss_customerId i = None then payload_refused
       else if ss_dueDate i \<noteq> None \<and> (ss_customerId i = None \<or> ss_settlementMode i \<noteq> Mode_credit) then payload_refused
       else if ss_taxMinor i \<noteq> 0 then refuse (InventoryError sale_tax_policy_absent)
       else bindR (saleIntentFields digest i) (inventoryIntentSha256 sha ''sale.commit'' (ss_tenantId i) (ss_businessId i)))"

definition checkSaleTotals :: "SaleCommitPayloadInput \<Rightarrow> unit result" where
  "checkSaleTotals i =
     bindR (checkAll (\<lambda>v. 0 \<le> v) [ss_subtotalTxnMinor i, ss_discountTxnMinor i, ss_totalTxnMinor i, ss_totalBaseMinor i]) (\<lambda>_.
       if ss_subtotalTxnMinor i < ss_discountTxnMinor i then payload_refused
       else if ss_totalTxnMinor i \<noteq> ss_subtotalTxnMinor i - ss_discountTxnMinor i + ss_taxMinor i then payload_refused
       else if ss_totalTxnMinor i \<le> 0 \<or> ss_totalBaseMinor i \<le> 0 then refuse (InventoryError sale_total_zero)
       else Inr ())"

definition checkSaleLines :: "SaleCommitPayloadInput \<Rightarrow> unit result" where
  "checkSaleLines i =
     bindR (checkAll (\<lambda>l. 0 \<le> sn_unitPriceC10 l \<and> 0 \<le> sn_netTxnMinor l \<and> 0 \<le> sn_baseShareMinor l) (ss_lines i)) (\<lambda>_.
       if foldl (\<lambda>a l. a + sn_baseShareMinor l) 0 (ss_lines i) \<noteq> ss_totalBaseMinor i then payload_refused
       else if foldl (\<lambda>a l. a + sn_netTxnMinor l) 0 (ss_lines i) \<noteq> ss_subtotalTxnMinor i - ss_discountTxnMinor i then payload_refused
       else Inr ())"

definition saleLineFields :: "SaleCommitPayloadLine \<Rightarrow> InventoryPayloadField list result" where
  "saleLineFields l = fieldList [one (uuidField (sn_lineId l)), one (uuidField (sn_productId l)),
     one (uuidOrNull (sn_merchantVariantId l)), one (uuidField (sn_variantId l)),
     ints [sn_qtyQ4 l, sn_discountMinor l, sn_unitPriceC10 l, sn_netTxnMinor l, sn_baseShareMinor l]]"

definition saleFields :: "(octets \<Rightarrow> octets) \<Rightarrow> SaleCommitPayloadInput \<Rightarrow> InventoryPayloadField list result" where
  "saleFields digest i = fieldList (
     [one (uuidField (ss_saleId i)), Inr [F_code (settlementModeText (ss_settlementMode i))], one (uuidOrNull (ss_customerId i)),
      one (uuidField (ss_warehouseId i)), one (uuidField (ss_branchId i)), one (uuidField (ss_invoiceId i)),
      one (dateField (ss_documentDate i)), one (dateOrNull (ss_dueDate i)), one (currencyField (ss_currency i)),
      one (uuidOrNull (rr_rateId (ss_rate i))), ints [rr_rateR10 (ss_rate i)], Inr [F_code (rateSourceText (rr_source (ss_rate i)))],
      ints [rr_rateAtEpochSeconds (ss_rate i), ss_subtotalTxnMinor i, ss_discountTxnMinor i, ss_taxMinor i, ss_totalTxnMinor i,
            ss_totalBaseMinor i],
      notesWords digest (ss_notes i), ints [int (length (ss_lines i))]]
     @ map saleLineFields (ss_lines i))"

definition saleCommitPayload ::
  "(string \<Rightarrow> string) \<Rightarrow> (octets \<Rightarrow> octets) \<Rightarrow> SaleCommitPayloadInput \<Rightarrow> MovementPayload result" where
  "saleCommitPayload sha digest i =
     bindR (saleCommitIntentSha256 sha digest i) (\<lambda>intent.
     bindR (checkSaleRate (ss_rate i)) (\<lambda>_.
     bindR (checkSaleTotals i) (\<lambda>_.
     bindR (checkSaleLines i) (\<lambda>_.
     bindR (saleFields digest i) (\<lambda>fs.
     bindR (buildInventoryPayload sha ''sale.commit'' (ss_tenantId i) (ss_businessId i) fs) (\<lambda>payload.
       Inr \<lparr>mp_payload = payload, mp_intentSha256 = intent\<rparr>))))))"

end
