(* ===== verification/Settlement_Payloads.thy ===== *)
theory Settlement_Payloads
  imports Payload_Parts
begin

text \<open>
  packages/inventory/src/supplier-settlement-payloads.ts: the builders and intents of a supplier
  payment, a credit allocation and a refund received. Every base, release, dust and realized
  amount is derived; the builders hold them to the identities of the rows they will become.
\<close>

definition SUPPLIER_PAYMENT_MAX_ALLOCATIONS :: nat where "SUPPLIER_PAYMENT_MAX_ALLOCATIONS = 50"
definition SETTLEMENT_REFERENCE_MAX :: nat where "SETTLEMENT_REFERENCE_MAX = 100"

definition positive_or :: "inventory_code \<Rightarrow> int \<Rightarrow> int result" where
  "positive_or onRefusal v = (if v \<le> 0 \<or> VALUE_LIMIT_MINOR < v then refuse (InventoryError onRefusal) else Inr v)"

definition positive :: "int \<Rightarrow> int result" where "positive = positive_or payload_invalid"

definition nonNegative :: "int \<Rightarrow> int result" where
  "nonNegative v = (if v < 0 \<or> VALUE_LIMIT_MINOR < v then payload_refused else Inr v)"

definition signedAmount :: "int \<Rightarrow> int result" where
  "signedAmount v = (if v < - VALUE_LIMIT_MINOR \<or> VALUE_LIMIT_MINOR < v then payload_refused else Inr v)"

definition referenceWords :: "(octets \<Rightarrow> octets) \<Rightarrow> utf16 option \<Rightarrow> inventory_code \<Rightarrow> InventoryPayloadField list result" where
  "referenceWords digest reference onRefusal = (case wordFields digest reference 1 SETTLEMENT_REFERENCE_MAX of
       Inl e \<Rightarrow> refuse (InventoryError onRefusal)
     | Inr ws \<Rightarrow> Inr ws)"

definition rateFields :: "ReceiptRate \<Rightarrow> InventoryPayloadField list result" where
  "rateFields rate =
     (if (if rr_source rate = Rate_base then rr_rateR10 rate \<noteq> DOMESTIC_RATE_R10 \<or> rr_rateId rate \<noteq> None
          else rr_rateR10 rate \<le> 0 \<or> rr_rateId rate = None) then payload_refused
      else fieldList [one (uuidOrNull (rr_rateId rate)), ints [rr_rateR10 rate], Inr [F_code (rateSourceText (rr_source rate))],
             ints [rr_rateAtEpochSeconds rate]])"

text \<open>\<open>int(positive(v))\<close> and its like.\<close>

definition amountField :: "int result \<Rightarrow> InventoryPayloadField list result" where
  "amountField r = bindR r (\<lambda>v. Inr [int_field v])"

subsection \<open>Payments\<close>

record SupplierPayIntentAllocation =
  pa_allocationId :: string
  pa_purchaseId :: string
  pa_paymentAmountMinor :: int
  pa_appliedMinor :: int

record 'l SupplierPayIntentInput =
  py_tenantId :: string
  py_businessId :: string
  py_paymentId :: string
  py_supplierId :: string
  py_paymentMethodId :: string
  py_paymentDate :: string
  py_currency :: string
  py_amountMinor :: int
  py_reference :: "utf16 option"
  py_allocations :: "'l list"

abbreviation allocations_refused :: "'a result" where
  "allocations_refused \<equiv> refuse (InventoryError supplier_payment_allocations_invalid)"

text \<open>The loop: each amount of each allocation, and their total.\<close>

fun allocationTotal :: "int \<Rightarrow> 'a SupplierPayIntentAllocation_scheme list \<Rightarrow> int result" where
  "allocationTotal tot [] = Inr tot"
| "allocationTotal tot (a # as) =
     bindR (positive_or supplier_payment_allocations_invalid (pa_paymentAmountMinor a)) (\<lambda>p.
     bindR (positive_or supplier_payment_allocations_invalid (pa_appliedMinor a)) (\<lambda>_. allocationTotal (tot + p) as))"

definition assertAllocations :: "'a SupplierPayIntentAllocation_scheme list \<Rightarrow> int \<Rightarrow> unit result" where
  "assertAllocations allocations amountMinor =
     (if allocations = [] \<or> SUPPLIER_PAYMENT_MAX_ALLOCATIONS < length allocations then allocations_refused
      else if \<not> distinct (map pa_allocationId allocations) \<or> \<not> distinct (map pa_purchaseId allocations) then allocations_refused
      else bindR (allocationTotal 0 allocations) (\<lambda>tot.
           bindR (positive_or supplier_payment_allocations_invalid amountMinor) (\<lambda>m.
             if tot \<noteq> m then allocations_refused else Inr ())))"

definition payIntentFields ::
  "(octets \<Rightarrow> octets) \<Rightarrow> ('l SupplierPayIntentAllocation_scheme, 'a) SupplierPayIntentInput_scheme \<Rightarrow> InventoryPayloadField list result" where
  "payIntentFields digest i = bindR (assertAllocations (py_allocations i) (py_amountMinor i)) (\<lambda>_. fieldList (
     [one (uuidField (py_paymentId i)), one (uuidField (py_supplierId i)), one (uuidField (py_paymentMethodId i)),
      one (dateField (py_paymentDate i)), one (currencyField (py_currency i)), ints [py_amountMinor i],
      referenceWords digest (py_reference i) supplier_payment_allocations_invalid, ints [int (length (py_allocations i))]]
     @ map (\<lambda>a. fieldList [one (uuidField (pa_allocationId a)), one (uuidField (pa_purchaseId a)),
                ints [pa_paymentAmountMinor a, pa_appliedMinor a]]) (py_allocations i)))"

definition supplierPayIntentSha256 ::
  "(string \<Rightarrow> string) \<Rightarrow> (octets \<Rightarrow> octets) \<Rightarrow> ('l SupplierPayIntentAllocation_scheme, 'a) SupplierPayIntentInput_scheme \<Rightarrow> string result" where
  "supplierPayIntentSha256 sha digest i =
     bindR (payIntentFields digest i) (inventoryIntentSha256 sha ''supplier.pay'' (py_tenantId i) (py_businessId i))"

record SupplierPayPayloadAllocation = SupplierPayIntentAllocation +
  pa_warehouseId :: string
  pa_purchaseCurrency :: string
  pa_paymentBaseMinor :: int
  pa_releasedBeforeMinor :: int
  pa_carryingReleasedMinor :: int
  pa_apDustBaseMinor :: int
  pa_realizedMinor :: int

record SupplierPayPayloadInput = "SupplierPayPayloadAllocation SupplierPayIntentInput" +
  py_postingAccountId :: string
  py_rate :: ReceiptRate
  py_baseAmountMinor :: int

fun payBaseTotal :: "string \<Rightarrow> int \<Rightarrow> SupplierPayPayloadAllocation list \<Rightarrow> int result" where
  "payBaseTotal currency tot [] = Inr tot"
| "payBaseTotal currency tot (a # as) =
     bindR (positive (pa_paymentBaseMinor a)) (\<lambda>pb.
     bindR (nonNegative (pa_carryingReleasedMinor a)) (\<lambda>rel.
     bindR (nonNegative (pa_releasedBeforeMinor a)) (\<lambda>_.
     bindR (signedAmount (pa_apDustBaseMinor a)) (\<lambda>_.
     bindR (signedAmount (pa_realizedMinor a)) (\<lambda>realized.
       if realized \<noteq> pb - rel then payload_refused
       else bindR (currencyCode (pa_purchaseCurrency a)) (\<lambda>c.
            bindR (currencyCode currency) (\<lambda>p.
              if c = p \<and> pa_paymentAmountMinor a \<noteq> pa_appliedMinor a then refuse (InventoryError supplier_payment_amount_mismatch)
              else payBaseTotal currency (tot + pb) as)))))))"

definition payAllocationFields :: "SupplierPayPayloadAllocation \<Rightarrow> InventoryPayloadField list result" where
  "payAllocationFields a = fieldList [one (uuidField (pa_allocationId a)), one (uuidField (pa_purchaseId a)),
     one (uuidField (pa_warehouseId a)), one (currencyField (pa_purchaseCurrency a)),
     ints [pa_paymentAmountMinor a, pa_paymentBaseMinor a, pa_appliedMinor a, pa_releasedBeforeMinor a, pa_carryingReleasedMinor a,
           pa_apDustBaseMinor a, pa_realizedMinor a]]"

definition payFields :: "(octets \<Rightarrow> octets) \<Rightarrow> SupplierPayPayloadInput \<Rightarrow> InventoryPayloadField list result" where
  "payFields digest i = fieldList (
     [one (uuidField (py_paymentId i)), one (uuidField (py_supplierId i)), one (uuidField (py_paymentMethodId i)),
      one (uuidField (py_postingAccountId i)), one (dateField (py_paymentDate i)), one (currencyField (py_currency i)),
      ints [py_amountMinor i], rateFields (py_rate i), ints [py_baseAmountMinor i],
      referenceWords digest (py_reference i) supplier_payment_allocations_invalid, ints [int (length (py_allocations i))]]
     @ map payAllocationFields (py_allocations i))"

definition supplierPayPayload ::
  "(string \<Rightarrow> string) \<Rightarrow> (octets \<Rightarrow> octets) \<Rightarrow> SupplierPayPayloadInput \<Rightarrow> MovementPayload result" where
  "supplierPayPayload sha digest i =
     bindR (supplierPayIntentSha256 sha digest i) (\<lambda>intent.
     bindR (payBaseTotal (py_currency i) 0 (py_allocations i)) (\<lambda>baseTotal.
     bindR (positive (py_baseAmountMinor i)) (\<lambda>base.
       if base \<noteq> baseTotal then payload_refused
       else bindR (payFields digest i) (\<lambda>fs.
            bindR (buildInventoryPayload sha ''supplier.pay'' (py_tenantId i) (py_businessId i) fs) (\<lambda>payload.
              Inr \<lparr>mp_payload = payload, mp_intentSha256 = intent\<rparr>)))))"

subsection \<open>Credit allocations\<close>

record SupplierAllocateCreditIntentInput =
  ca_tenantId :: string
  ca_businessId :: string
  ca_allocationId :: string
  ca_creditNoteId :: string
  ca_purchaseId :: string
  ca_allocationDate :: string
  ca_consumedMinor :: int
  ca_appliedMinor :: int

definition allocateIntentFields :: "'a SupplierAllocateCreditIntentInput_scheme \<Rightarrow> InventoryPayloadField list result" where
  "allocateIntentFields i = fieldList [one (uuidField (ca_allocationId i)), one (uuidField (ca_creditNoteId i)),
     one (uuidField (ca_purchaseId i)), one (dateField (ca_allocationDate i)),
     amountField (positive (ca_consumedMinor i)), amountField (positive (ca_appliedMinor i))]"

definition supplierAllocateCreditIntentSha256 :: "(string \<Rightarrow> string) \<Rightarrow> 'a SupplierAllocateCreditIntentInput_scheme \<Rightarrow> string result" where
  "supplierAllocateCreditIntentSha256 sha i =
     bindR (allocateIntentFields i) (inventoryIntentSha256 sha ''supplier.allocate_credit'' (ca_tenantId i) (ca_businessId i))"

record SupplierAllocateCreditPayloadInput = SupplierAllocateCreditIntentInput +
  ca_warehouseId :: string
  ca_creditCurrency :: string
  ca_remainingBeforeMinor :: int
  ca_creditReleasedMinor :: int
  ca_creditDustBaseMinor :: int
  ca_purchaseCurrency :: string
  ca_apReleasedBeforeMinor :: int
  ca_apReleasedMinor :: int
  ca_apDustBaseMinor :: int
  ca_realizedMinor :: int

definition allocateFields :: "SupplierAllocateCreditPayloadInput \<Rightarrow> InventoryPayloadField list result" where
  "allocateFields i = fieldList [one (uuidField (ca_allocationId i)), one (uuidField (ca_creditNoteId i)),
     one (uuidField (ca_purchaseId i)), one (uuidField (ca_warehouseId i)), one (dateField (ca_allocationDate i)),
     one (currencyField (ca_creditCurrency i)), ints [ca_consumedMinor i, ca_remainingBeforeMinor i, ca_creditReleasedMinor i],
     amountField (signedAmount (ca_creditDustBaseMinor i)), one (currencyField (ca_purchaseCurrency i)),
     ints [ca_appliedMinor i, ca_apReleasedBeforeMinor i, ca_apReleasedMinor i], amountField (signedAmount (ca_apDustBaseMinor i)),
     ints [ca_realizedMinor i]]"

definition supplierAllocateCreditPayload :: "(string \<Rightarrow> string) \<Rightarrow> SupplierAllocateCreditPayloadInput \<Rightarrow> MovementPayload result" where
  "supplierAllocateCreditPayload sha i =
     bindR (supplierAllocateCreditIntentSha256 sha i) (\<lambda>intent.
     bindR (positive (ca_remainingBeforeMinor i)) (\<lambda>rb.
       if rb < ca_consumedMinor i then refuse (InventoryError supplier_credit_allocation_amount_exceeds_credit)
       else bindR (nonNegative (ca_creditReleasedMinor i)) (\<lambda>crRel.
            bindR (nonNegative (ca_apReleasedMinor i)) (\<lambda>rel.
            bindR (nonNegative (ca_apReleasedBeforeMinor i)) (\<lambda>_.
            bindR (signedAmount (ca_realizedMinor i)) (\<lambda>realized.
              if realized \<noteq> crRel - rel then payload_refused
              else bindR (currencyCode (ca_creditCurrency i)) (\<lambda>cc.
                   bindR (currencyCode (ca_purchaseCurrency i)) (\<lambda>pc.
                     if cc = pc \<and> ca_consumedMinor i \<noteq> ca_appliedMinor i
                       then refuse (InventoryError supplier_credit_allocation_amount_mismatch)
                     else bindR (allocateFields i) (\<lambda>fs.
                          bindR (buildInventoryPayload sha ''supplier.allocate_credit'' (ca_tenantId i) (ca_businessId i) fs) (\<lambda>payload.
                            Inr \<lparr>mp_payload = payload, mp_intentSha256 = intent\<rparr>))))))))))"

subsection \<open>Refunds received\<close>

record SupplierReceiveRefundIntentInput =
  rf_tenantId :: string
  rf_businessId :: string
  rf_refundId :: string
  rf_creditNoteId :: string
  rf_paymentMethodId :: string
  rf_refundDate :: string
  rf_consumedMinor :: int
  rf_receiptCurrency :: string
  rf_receiptAmountMinor :: int
  rf_reference :: "utf16 option"

definition refundIntentFields :: "(octets \<Rightarrow> octets) \<Rightarrow> 'a SupplierReceiveRefundIntentInput_scheme \<Rightarrow> InventoryPayloadField list result" where
  "refundIntentFields digest i = fieldList [one (uuidField (rf_refundId i)), one (uuidField (rf_creditNoteId i)),
     one (uuidField (rf_paymentMethodId i)), one (dateField (rf_refundDate i)), amountField (positive (rf_consumedMinor i)),
     one (currencyField (rf_receiptCurrency i)), amountField (positive (rf_receiptAmountMinor i)),
     referenceWords digest (rf_reference i) payload_invalid]"

definition supplierReceiveRefundIntentSha256 ::
  "(string \<Rightarrow> string) \<Rightarrow> (octets \<Rightarrow> octets) \<Rightarrow> 'a SupplierReceiveRefundIntentInput_scheme \<Rightarrow> string result" where
  "supplierReceiveRefundIntentSha256 sha digest i =
     bindR (refundIntentFields digest i) (inventoryIntentSha256 sha ''supplier.receive_refund'' (rf_tenantId i) (rf_businessId i))"

record SupplierReceiveRefundPayloadInput = SupplierReceiveRefundIntentInput +
  rf_postingAccountId :: string
  rf_sourceCurrency :: string
  rf_remainingBeforeMinor :: int
  rf_sourceReleasedMinor :: int
  rf_sourceDustBaseMinor :: int
  rf_rate :: ReceiptRate
  rf_receiptBaseMinor :: int
  rf_realizedMinor :: int

definition refundFields :: "(octets \<Rightarrow> octets) \<Rightarrow> SupplierReceiveRefundPayloadInput \<Rightarrow> InventoryPayloadField list result" where
  "refundFields digest i = fieldList [one (uuidField (rf_refundId i)), one (uuidField (rf_creditNoteId i)),
     one (uuidField (rf_paymentMethodId i)), one (uuidField (rf_postingAccountId i)), one (dateField (rf_refundDate i)),
     one (currencyField (rf_sourceCurrency i)), ints [rf_consumedMinor i, rf_remainingBeforeMinor i, rf_sourceReleasedMinor i],
     amountField (signedAmount (rf_sourceDustBaseMinor i)), one (currencyField (rf_receiptCurrency i)), ints [rf_receiptAmountMinor i],
     rateFields (rf_rate i), ints [rf_receiptBaseMinor i, rf_realizedMinor i], referenceWords digest (rf_reference i) payload_invalid]"

definition supplierReceiveRefundPayload ::
  "(string \<Rightarrow> string) \<Rightarrow> (octets \<Rightarrow> octets) \<Rightarrow> SupplierReceiveRefundPayloadInput \<Rightarrow> MovementPayload result" where
  "supplierReceiveRefundPayload sha digest i =
     bindR (supplierReceiveRefundIntentSha256 sha digest i) (\<lambda>intent.
     bindR (positive (rf_remainingBeforeMinor i)) (\<lambda>rb.
       if rb < rf_consumedMinor i then refuse (InventoryError supplier_refund_amount_exceeds_credit)
       else bindR (nonNegative (rf_sourceReleasedMinor i)) (\<lambda>crRel.
            bindR (positive (rf_receiptBaseMinor i)) (\<lambda>mb.
            bindR (signedAmount (rf_realizedMinor i)) (\<lambda>realized.
              if realized \<noteq> mb - crRel then payload_refused
              else bindR (currencyCode (rf_sourceCurrency i)) (\<lambda>sc.
                   bindR (currencyCode (rf_receiptCurrency i)) (\<lambda>rc.
                     if sc = rc \<and> rf_consumedMinor i \<noteq> rf_receiptAmountMinor i
                       then refuse (InventoryError supplier_refund_amount_mismatch)
                     else bindR (refundFields digest i) (\<lambda>fs.
                          bindR (buildInventoryPayload sha ''supplier.receive_refund'' (rf_tenantId i) (rf_businessId i) fs) (\<lambda>payload.
                            Inr \<lparr>mp_payload = payload, mp_intentSha256 = intent\<rparr>)))))))))"

end
