(* ===== verification/Payload_Builders.thy ===== *)
theory Payload_Builders
  imports Party_Payloads Sale_Payloads Settlement_Payloads
begin

text \<open>
  The builders against the registry. Every builder computes the digest of the client's intent
  from a field list of its own, for most kinds before any state is read; the registry says, by
  field name, which lines of the signed payload the intent consists of. The lemmas show that the
  two agree: the digest a builder returns is the digest of the payload's own stream with the
  derived lines struck out.
\<close>

subsection \<open>Picking the client's fields\<close>

definition pick :: "bool list \<Rightarrow> 'f list \<Rightarrow> 'f list" where
  "pick flags fs = map snd (filter fst (zip flags fs))"

lemma pick_simps [simp]:
  "pick [] fs = []" "pick bs [] = []" "pick (True # bs) (f # fs) = f # pick bs fs" "pick (False # bs) (f # fs) = pick bs fs"
  by (simp_all add: pick_def)

lemma pick_append: "length bs = length fs \<Longrightarrow> pick (bs @ cs) (fs @ gs) = pick bs fs @ pick cs gs"
  by (simp add: pick_def)

lemma project_pick: "project keep ss fs = pick (map keep ss) fs"
proof (induction ss arbitrary: fs)
  case (Cons s ss)
  then show ?case by (cases fs; cases "keep s") (auto simp: project_def pick_def)
qed (simp add: project_def)

lemma pick_all: "length fs = length bs \<Longrightarrow> list_all (\<lambda>b. b) bs \<Longrightarrow> pick bs fs = fs"
  by (induction fs bs rule: list_induct2) auto

lemma pick_lines: "\<forall>l \<in> set ls. length l = length flags \<Longrightarrow>
    pick (concat (replicate (length ls) flags)) (concat ls) = concat (map (pick flags) ls)"
  by (induction ls) (auto simp: pick_append)

subsection \<open>The intent of a built payload\<close>

definition coherent :: "(string \<Rightarrow> string) \<Rightarrow> string \<Rightarrow> string \<Rightarrow> string \<Rightarrow> 'a MovementPayload_scheme \<Rightarrow> bool" where
  "coherent sha op t b m \<longleftrightarrow> (\<exists>fs. buildInventoryPayload sha op t b fs = Inr (mp_payload m)
     \<and> inventoryIntentSha256 sha op t b (intentFields op fs) = Inr (mp_intentSha256 m))"

lemma built_shape:
  assumes "buildInventoryPayload sha op t b fs = Inr p" "map_of INVENTORY_PAYLOAD_SCHEMAS op = Some schema"
  shows "\<exists>n k. stated schema fs n k \<and> list_all2 fits (shape schema n k) fs
    \<and> intentFields op fs = pick (map (keepOf op) (shape schema n k)) fs"
proof -
  from assms(1) obtain x where "canonicalInventoryPayload op t b fs = Inr x"
    by (auto simp: buildInventoryPayload_def bindR_eq_Inr)
  then have "follows schema fs" using assms(2) by (auto simp: canonicalPayload_eq_Inr)
  then obtain n k where f: "stated schema fs n k" "list_all2 fits (shape schema n k) fs" by (auto simp: follows_def)
  then have "expandSchema schema fs = Inr (shape schema n k)"
    using registered_schema(3) [OF assms(2)] by (auto simp: expandSchema_eq_Inr list_all2_lengthD)
  then have "intentFields op fs = project (keepOf op) (shape schema n k) fs" by (simp add: intentFields_def assms(2))
  with f show ?thesis by (auto simp: project_pick)
qed

lemma header_intent:
  assumes "buildInventoryPayload sha op t b fs = Inr p" "map_of INVENTORY_PAYLOAD_SCHEMAS op = Some schema"
    "ps_repeat schema = None"
  shows "intentFields op fs = pick (map (keepOf op) (ps_header schema)) fs"
  using built_shape [OF assms(1,2)] assms(3) by (auto simp: shape_def stated_def)

lemma group_intent:
  assumes built: "buildInventoryPayload sha op t b (hs @ concat ls) = Inr p" and s: "map_of INVENTORY_PAYLOAD_SCHEMAS op = Some schema"
    and r: "ps_repeat schema = Some r" "ps_trailer schema = None"
    and l: "length hs = length (ps_header schema)" "\<forall>l \<in> set ls. length l = length (rp_fields r)"
    and c: "hs ! count_index schema r = F_integer v" "\<And>k. payload_value v = Some k \<Longrightarrow> k = int (length ls)"
  shows "intentFields op (hs @ concat ls)
    = pick (map (keepOf op) (ps_header schema)) hs @ concat (map (pick (map (keepOf op) (rp_fields r))) ls)"
proof -
  have i: "count_index schema r < length hs"
    using registered_schema(3) [OF s] r l(1) by (auto simp: schema_ok_def)
  from built_shape [OF built s] obtain n k where st: "stated schema (hs @ concat ls) n k"
    and p: "intentFields op (hs @ concat ls) = pick (map (keepOf op) (shape schema n k)) (hs @ concat ls)" by blast
  have "n = length ls" using st i c by (auto simp: stated_def r nth_append counts_def split: option.splits)
  then have "shape schema n k = ps_header schema @ concat (replicate (length ls) (rp_fields r))" by (simp add: shape_def r)
  then show ?thesis using l by (simp add: p pick_append map_concat pick_lines)
qed

lemma length_value: "payload_value (Num (Finite (of_nat n))) = Some k \<Longrightarrow> k = int n"
  by (auto simp: number_int_def split: if_splits)

text \<open>A kind of which the registry strikes out nothing.\<close>

definition all_specs :: "InventoryPayloadSchema \<Rightarrow> InventoryPayloadFieldSpec list" where
  "all_specs schema = ps_header schema
     @ (case ps_repeat schema of None \<Rightarrow> [] | Some r \<Rightarrow> rp_fields r)
     @ (case ps_trailer schema of None \<Rightarrow> []
        | Some t \<Rightarrow> tr_countField t # tr_fields t @ (case tr_perLine t of None \<Rightarrow> [] | Some p \<Rightarrow> [p]))"

definition whole_kind :: "string \<Rightarrow> bool" where
  "whole_kind op = (case map_of INVENTORY_PAYLOAD_SCHEMAS op of None \<Rightarrow> False
     | Some schema \<Rightarrow> list_all (keepOf op) (all_specs schema))"

lemma shape_specs: "set (shape schema n k) \<subseteq> set (all_specs schema)"
  by (auto simp: shape_def all_specs_def trailerGroup_def split: option.splits)

lemma whole_intent:
  assumes "buildInventoryPayload sha op t b fs = Inr p" "whole_kind op"
  shows "intentFields op fs = fs"
proof -
  from assms(2) obtain schema where s: "map_of INVENTORY_PAYLOAD_SCHEMAS op = Some schema" "list_all (keepOf op) (all_specs schema)"
    by (auto simp: whole_kind_def split: option.splits)
  from built_shape [OF assms(1) s(1)] obtain n k where "list_all2 fits (shape schema n k) fs"
    "intentFields op fs = pick (map (keepOf op) (shape schema n k)) fs" by blast
  with s(2) shape_specs [of schema n k] show ?thesis
    by (auto simp: list_all_iff list_all2_lengthD subset_iff intro!: pick_all)
qed

definition WHOLE_KINDS :: "string list" where
  "WHOLE_KINDS = [''inventory.transfer'', ''inventory.stocktake_open'', ''inventory.stocktake_count'',
     ''supplier.create'', ''supplier.update'', ''supplier.archive'', ''supplier.reactivate'',
     ''customer.create'', ''customer.update'', ''customer.archive'', ''customer.reactivate'',
     ''payment.create_method'', ''payment.update_method'', ''payment.deactivate_method'', ''payment.activate_method'',
     ''purchase.draft'', ''purchase.cancel'']"

lemma whole_kinds: "list_all whole_kind WHOLE_KINDS"
  by code_simp

text \<open>A builder that signs its whole field list as the intent.\<close>

lemma whole_coherent:
  assumes "buildInventoryPayload sha op t b fs = Inr p" "inventoryIntentSha256 sha op t b fs = Inr h" "op \<in> set WHOLE_KINDS"
  shows "coherent sha op t b \<lparr>mp_payload = p, mp_intentSha256 = h\<rparr>"
  using assms whole_kinds whole_intent [OF assms(1)] by (auto simp: coherent_def list_all_iff)

subsection \<open>Field lists\<close>

named_theorems field_simps "inversion of the assembly of a field list"

lemma fieldList_eq_Inr [field_simps]:
  "fieldList [] = Inr fs \<longleftrightarrow> fs = []"
  "fieldList (p # ps) = Inr fs \<longleftrightarrow> (\<exists>x y. p = Inr x \<and> fieldList ps = Inr y \<and> fs = x @ y)"
  "one r = Inr fs \<longleftrightarrow> (\<exists>f. r = Inr f \<and> fs = [f])"
  "ints ns = Inr fs \<longleftrightarrow> fs = map (\<lambda>n. int_field n) ns"
  by (auto simp: fieldList_def one_def ints_def bindR_eq_Inr)

lemma mapR_append: "mapR f (xs @ ys) = Inr zs \<longleftrightarrow> (\<exists>a b. mapR f xs = Inr a \<and> mapR f ys = Inr b \<and> zs = a @ b)"
  by (auto simp: mapR_eq_Inr_iff list_all2_append1) (metis list_all2_lengthD)

lemma fieldList_append: "fieldList (ps @ qs) = Inr fs \<longleftrightarrow> (\<exists>x y. fieldList ps = Inr x \<and> fieldList qs = Inr y \<and> fs = x @ y)"
  unfolding fieldList_def bindR_eq_Inr mapR_append by (auto; blast)

lemma fieldList_map: "fieldList (map f ls) = Inr fs \<longleftrightarrow> (\<exists>ys. mapR f ls = Inr ys \<and> fs = concat ys)"
proof -
  have "mapR (\<lambda>p. p) (map f ls) = mapR f ls" by (induction ls) simp_all
  then show ?thesis by (auto simp: fieldList_def bindR_eq_Inr)
qed

lemma wordFields_8: "wordFields digest t lo hi = Inr ws \<Longrightarrow> \<exists>a b c d e f g h. ws = [a, b, c, d, e, f, g, h]"
  by (auto simp: wordFields_def bindR_eq_Inr dest!: documentTextWords_length simp: length_Suc_conv eval_nat_numeral)

lemma mapR_lines:
  assumes "mapR f xs = Inr ls" "\<And>x l. f x = Inr l \<Longrightarrow> length l = k \<and> g x = Inr (h l)"
  shows "mapR g xs = Inr (map h ls) \<and> (\<forall>l \<in> set ls. length l = k) \<and> length ls = length xs"
  using assms by (induction xs arbitrary: ls) (auto simp: bindR_eq_Inr)


subsection \<open>Kinds of which everything is intent\<close>

lemma finishS4_coherent: "finishS4 sha op t b fs = Inr m \<Longrightarrow> op \<in> set WHOLE_KINDS \<Longrightarrow> coherent sha op t b m"
  by (auto simp: finishS4_def bindR_eq_Inr intro: whole_coherent)

lemma finishP4S1_coherent: "finishP4S1 sha op t b fs = Inr m \<Longrightarrow> op \<in> set WHOLE_KINDS \<Longrightarrow> coherent sha op t b m"
  by (auto simp: finishP4S1_def bindR_eq_Inr intro: whole_coherent)

lemma pm_finish_coherent: "pm_finish sha op t b fs = Inr m \<Longrightarrow> op \<in> set WHOLE_KINDS \<Longrightarrow> coherent sha op t b m"
  by (auto simp: pm_finish_def bindR_eq_Inr intro: whole_coherent)

lemma finish_coherent:
  "finish sha op t b es = Inr m \<Longrightarrow> list_all (\<lambda>e. \<not> en_derived e) es \<Longrightarrow> op \<in> set WHOLE_KINDS \<Longrightarrow> coherent sha op t b m"
  by (auto simp: finish_def bindR_eq_Inr list_all_iff filter_id_conv intro!: whole_coherent)


lemma party_coherent:
  "supplierCreatePayload sha digest sc = Inr m \<Longrightarrow> coherent sha ''supplier.create'' (spc_tenantId sc) (spc_businessId sc) m"
  "supplierUpdatePayload sha digest su = Inr m \<Longrightarrow> coherent sha ''supplier.update'' (spc_tenantId su) (spc_businessId su) m"
  "supplierArchivePayload sha sl = Inr m \<Longrightarrow> coherent sha ''supplier.archive'' (sl_tenantId sl) (sl_businessId sl) m"
  "supplierReactivatePayload sha sl = Inr m \<Longrightarrow> coherent sha ''supplier.reactivate'' (sl_tenantId sl) (sl_businessId sl) m"
  "customerCreatePayload sha digest kc = Inr m \<Longrightarrow> coherent sha ''customer.create'' (kc_tenantId kc) (kc_businessId kc) m"
  "customerUpdatePayload sha digest ku = Inr m \<Longrightarrow> coherent sha ''customer.update'' (kc_tenantId ku) (kc_businessId ku) m"
  "customerArchivePayload sha kl = Inr m \<Longrightarrow> coherent sha ''customer.archive'' (kl_tenantId kl) (kl_businessId kl) m"
  "customerReactivatePayload sha kl = Inr m \<Longrightarrow> coherent sha ''customer.reactivate'' (kl_tenantId kl) (kl_businessId kl) m"
  "paymentMethodCreatePayload sha digest mc = Inr m \<Longrightarrow> coherent sha ''payment.create_method'' (mc_tenantId mc) (mc_businessId mc) m"
  "paymentMethodUpdatePayload sha digest mu = Inr m \<Longrightarrow> coherent sha ''payment.update_method'' (mu_tenantId mu) (mu_businessId mu) m"
  "paymentMethodDeactivatePayload sha ml = Inr m \<Longrightarrow> coherent sha ''payment.deactivate_method'' (ml_tenantId ml) (ml_businessId ml) m"
  "paymentMethodActivatePayload sha ml = Inr m \<Longrightarrow> coherent sha ''payment.activate_method'' (ml_tenantId ml) (ml_businessId ml) m"
  by (auto simp: supplierCreatePayload_def supplierUpdatePayload_def supplierArchivePayload_def supplierReactivatePayload_def
      customerCreatePayload_def customerUpdatePayload_def customerArchivePayload_def customerReactivatePayload_def
      paymentMethodCreatePayload_def paymentMethodUpdatePayload_def paymentMethodDeactivatePayload_def paymentMethodActivatePayload_def
      bindR_eq_Inr WHOLE_KINDS_def dest!: finishS4_coherent finishP4S1_coherent pm_finish_coherent)

lemma draft_coherent:
  assumes "purchaseDraftPayload sha digest i = Inr m"
  shows "coherent sha ''purchase.draft'' (dp_tenantId i) (dp_businessId i) m"
proof -
  from assms obtain fs q t where "finishS4 sha ''purchase.draft'' (dp_tenantId i) (dp_businessId i) fs = Inr q"
    "m = MovementPayload.extend q (PurchaseDraftPayload.fields t)"
    by (auto simp: purchaseDraftPayload_def result_simps)
  then show ?thesis using finishS4_coherent [of sha "''purchase.draft''" "dp_tenantId i" "dp_businessId i" fs q]
    by (simp add: WHOLE_KINDS_def coherent_def MovementPayload.defs)
qed

lemma cancel_coherent:
  "purchaseCancelPayload sha i = Inr m \<Longrightarrow> coherent sha ''purchase.cancel'' (pc_tenantId i) (pc_businessId i) m"
  by (auto simp: purchaseCancelPayload_def bindR_eq_Inr WHOLE_KINDS_def intro!: finishS4_coherent)

lemma entry_not_derived [simp]:
  "\<not> en_derived (e_uuid u)" "\<not> en_derived (e_int n)" "\<not> en_derived (e_code c)" "\<not> en_derived e_nul" "en_derived (derived e)"
  "\<not> en_derived (e_intOrNull v)"
  by (simp_all add: e_uuid_def e_int_def e_code_def e_nul_def derived_def e_intOrNull_def split: option.split)

lemma mapR_all: "mapR f xs = Inr ls \<Longrightarrow> (\<And>x l. f x = Inr l \<Longrightarrow> list_all P l) \<Longrightarrow> list_all P (concat ls)"
  by (induction xs arbitrary: ls) (auto simp: bindR_eq_Inr)

lemma transfer_coherent:
  assumes "transferPayload sha i = Inr m" shows "coherent sha ''inventory.transfer'' (ti_tenantId i) (ti_businessId i) m"
proof -
  from assms obtain ls where l: "mapR transferEntries (ti_lines i) = Inr ls" and f: "finish sha ''inventory.transfer''
      (ti_tenantId i) (ti_businessId i) ([e_uuid (ti_transferId i), e_uuid (ti_sourceWarehouseId i), e_uuid (ti_destinationWarehouseId i),
        e_int (int (length (ti_lines i)))] @ concat ls) = Inr m"
    by (auto simp: transferPayload_def result_simps)
  have "list_all (\<lambda>e. \<not> en_derived e) (concat ls)" by (rule mapR_all [OF l]) (auto simp: transferEntries_def bindR_eq_Inr)
  with f show ?thesis by (auto simp: WHOLE_KINDS_def intro!: finish_coherent)
qed

lemma stocktakeOpen_coherent:
  "stocktakeOpenPayload sha i = Inr m \<Longrightarrow> coherent sha ''inventory.stocktake_open'' (so_tenantId i) (so_businessId i) m"
  by (auto simp: stocktakeOpenPayload_def WHOLE_KINDS_def intro!: finish_coherent)

lemma stocktakeCount_coherent:
  assumes "stocktakeCountPayload sha i = Inr m" shows "coherent sha ''inventory.stocktake_count'' (ci_tenantId i) (ci_businessId i) m"
proof -
  from assms obtain ls where l: "mapR countEntries (ci_lines i) = Inr ls" and f: "finish sha ''inventory.stocktake_count''
      (ci_tenantId i) (ci_businessId i) ([e_uuid (ci_stocktakeId i), e_uuid (ci_warehouseId i), e_int (int (length (ci_lines i)))] @ concat ls) = Inr m"
    by (auto simp: stocktakeCountPayload_def result_simps)
  have "list_all (\<lambda>e. \<not> en_derived e) (concat ls)" by (rule mapR_all [OF l]) (auto simp: countEntries_def result_simps)
  with f show ?thesis by (auto simp: WHOLE_KINDS_def intro!: finish_coherent)
qed


subsection \<open>Kinds with derived fields\<close>

text \<open>Which fields of the header and of a line are intent, and where the line count stands.\<close>

definition kind_flags :: "string \<Rightarrow> (bool list \<times> (nat \<times> bool list) option) option" where
  "kind_flags op = (case map_of INVENTORY_PAYLOAD_SCHEMAS op of
       None \<Rightarrow> None
     | Some s \<Rightarrow> if ps_trailer s \<noteq> None then None
                 else Some (map (keepOf op) (ps_header s),
                        (case ps_repeat s of None \<Rightarrow> None | Some r \<Rightarrow> Some (count_index s r, map (keepOf op) (rp_fields r)))))"

lemma kind_flags_code:
  "kind_flags ''purchase.write_off_residue'' = Some (replicate 11 True @ [False, False], None)"
  "kind_flags ''supplier.allocate_credit'' = Some ([True, True, True, False, True, False, True, False, False, False, False, True,
     False, False, False, False], None)"
  "kind_flags ''supplier.receive_refund'' = Some ([True, True, True, False, True, False, True, False, False, False, True, True,
     False, False, False, False, False, False] @ replicate 8 True, None)"
  "kind_flags ''purchase.receive'' = Some (replicate 3 True @ replicate 12 False, Some (14, replicate 6 False))"
  "kind_flags ''purchase.return'' = Some (replicate 12 True @ replicate 8 False @ [True], Some (20, [True, True, False, True, False, False]))"
  "kind_flags ''purchase.reverse'' = Some (replicate 11 True @ replicate 3 False, Some (13, replicate 4 False))"
  "kind_flags ''sale.commit'' = Some ([True, True, True, True, False, False, True, True, False, False, False, False, False, False,
     False, True, False, False] @ replicate 9 True, Some (26, [True, True, True, False, True, True, False, False, False]))"
  "kind_flags ''supplier.pay'' = Some ([True, True, True, False, True, True, True, False, False, False, False, False] @ replicate 9 True,
     Some (20, [True, True, False, False, True, False, True, False, False, False, False]))"
  "kind_flags ''inventory.adjust'' = Some (replicate 12 True, Some (11, [True, True, True, False]))"
  "kind_flags ''inventory.damage'' = Some (replicate 12 True, Some (11, [True, True, False]))"
  "kind_flags ''inventory.stocktake_finalize'' = Some (replicate 5 True, Some (4, [True, False, True, False]))"
  "kind_flags ''inventory.opening'' = Some ([True, True, False, False, True], Some (4, replicate 4 True))"
  by code_simp+

lemma kind_header:
  "kind_flags op = Some (hf, None) \<Longrightarrow> buildInventoryPayload sha op t b fs = Inr p \<Longrightarrow> intentFields op fs = pick hf fs"
  by (auto simp: kind_flags_def header_intent split: option.splits if_splits)

lemma kind_group:
  assumes "kind_flags op = Some (hf, Some (c, lf))" "buildInventoryPayload sha op t b (hs @ concat ls) = Inr p"
    "length hs = length hf" "\<forall>l \<in> set ls. length l = length lf" "hs ! c = F_integer v" "\<And>k. payload_value v = Some k \<Longrightarrow> k = int (length ls)"
  shows "intentFields op (hs @ concat ls) = pick hf hs @ concat (map (pick lf) ls)"
  using assms group_intent [of sha op t b hs ls p]
  by (auto simp: kind_flags_def split: option.splits if_splits)

lemma coherentI:
  "buildInventoryPayload sha op t b fs = Inr (mp_payload m) \<Longrightarrow> intentFields op fs = gs \<Longrightarrow>
   inventoryIntentSha256 sha op t b gs = Inr (mp_intentSha256 m) \<Longrightarrow> coherent sha op t b m"
  by (auto simp: coherent_def)

lemma residue_coherent:
  assumes "purchaseResidueWriteOffPayload sha digest i = Inr m"
  shows "coherent sha ''purchase.write_off_residue'' (wo_tenantId i) (wo_businessId i) m"
proof -
  let ?build = "buildInventoryPayload sha ''purchase.write_off_residue'' (wo_tenantId i) (wo_businessId i)"
  from assms obtain gs where g: "residueIntentFields digest i = Inr gs"
    and b: "?build (gs @ map (\<lambda>n. int_field n) [wo_releasedBeforeTxnMinor i, wo_residueBaseMinor i]) = Inr (mp_payload m)"
    and h: "inventoryIntentSha256 sha ''purchase.write_off_residue'' (wo_tenantId i) (wo_businessId i) gs = Inr (mp_intentSha256 m)"
    by (auto simp: purchaseResidueWriteOffPayload_def purchaseResidueWriteOffIntentSha256_def finishWith_def result_simps field_simps)
  from g obtain u d ws n where gs: "gs = [u, d] @ ws @ [n]" and w: "wordFields digest (wo_reason i) 1 REASON_MAX_CHARS = Inr ws"
    by (auto simp: residueIntentFields_def purchaseResidueReasonWords_def result_simps field_simps)
  have "length gs = 11" using wordFields_8 [OF w] by (auto simp: gs)
  then have "intentFields ''purchase.write_off_residue'' (gs @ map (\<lambda>n. int_field n) [wo_releasedBeforeTxnMinor i, wo_residueBaseMinor i]) = gs"
    unfolding kind_header [OF kind_flags_code(1) b] by (simp add: pick_append pick_all list_all_iff)
  from coherentI [OF b this h] show ?thesis .
qed


lemma mapR_lines_none:
  "mapR f xs = Inr ls \<Longrightarrow> (\<And>x l. f x = Inr l \<Longrightarrow> length l = k) \<Longrightarrow> (\<forall>l \<in> set ls. length l = k) \<and> length ls = length xs"
  by (induction xs arbitrary: ls) (auto simp: bindR_eq_Inr)

lemma pick_none: "concat (map (pick (replicate k False)) ls) = []"
proof -
  have "pick (replicate k False) l = []" for l :: "'a list"
    by (induction k arbitrary: l) (auto simp: pick_def zip_Cons1 split: list.split)
  then show ?thesis by simp
qed

lemma receive_coherent:
  assumes "purchaseReceivePayload sha i = Inr m" shows "coherent sha ''purchase.receive'' (rp_tenantId i) (rp_businessId i) m"
proof -
  let ?build = "buildInventoryPayload sha ''purchase.receive'' (rp_tenantId i) (rp_businessId i)"
  from assms obtain fs gs where f: "receiveFields i = Inr fs" and b: "?build fs = Inr (mp_payload m)"
    and g: "fieldList [one (uuidField (rp_purchaseId i)), one (uuidField (rp_warehouseId i)), one (revisionField (rp_draftRevision i))] = Inr gs"
    and h: "inventoryIntentSha256 sha ''purchase.receive'' (rp_tenantId i) (rp_businessId i) gs = Inr (mp_intentSha256 m)"
    by (auto simp: purchaseReceivePayload_def purchaseReceiveIntentSha256_def finishWith_def result_simps)
  from f g obtain hs ls where l: "mapR receiveLineFields (rp_lines i) = Inr ls" and fs: "fs = hs @ concat ls" "length hs = 15"
    "hs ! 14 = lengthField (length (rp_lines i))" "take 3 hs = gs"
    by (auto simp: receiveFields_def fieldList_append fieldList_map field_simps)
  have ls: "(\<forall>l \<in> set ls. length l = 6) \<and> length ls = length (rp_lines i)"
    by (rule mapR_lines_none [OF l]) (auto simp: receiveLineFields_def field_simps)
  have "pick (replicate 3 True @ replicate 12 False) hs = gs"
  proof -
    have "hs = gs @ drop 3 hs" "length gs = 3" using fs(2,4) append_take_drop_id [of 3 hs] by auto
    then show ?thesis using pick_append [of "replicate 3 True" gs "replicate 12 False" "drop 3 hs"] pick_none [of 12 "[drop 3 hs]"]
      by (simp add: pick_all list_all_iff)
  qed
  then have "intentFields ''purchase.receive'' fs = gs"
    using kind_group [OF kind_flags_code(4) b [unfolded fs(1)]] fs ls pick_none [of 6 ls] length_value by (simp add: lengthField_def)
  from coherentI [OF b this h] show ?thesis .
qed

lemma reverse_coherent:
  assumes "purchaseReversePayload sha digest i = Inr m" shows "coherent sha ''purchase.reverse'' (rv_tenantId i) (rv_businessId i) m"
proof -
  let ?build = "buildInventoryPayload sha ''purchase.reverse'' (rv_tenantId i) (rv_businessId i)"
  from assms obtain fs gs where g: "reverseIntentFields digest i = Inr gs" and b: "?build fs = Inr (mp_payload m)"
    and f: "fieldList ([reverseIntentFields digest i, one (uuidField (rv_originalEntryId i)), ints [rv_totalValueMinor i],
        ints [int (length (rv_lines i))]] @ map reverseLineFields (rv_lines i)) = Inr fs"
    and h: "inventoryIntentSha256 sha ''purchase.reverse'' (rv_tenantId i) (rv_businessId i) gs = Inr (mp_intentSha256 m)"
    by (auto simp: purchaseReversePayload_def purchaseReverseIntentSha256_def finishWith_def result_simps simp del: append.simps)
  from g obtain a c d ws where gs: "gs = [a, c, d] @ ws" and w: "wordFields digest (rv_reason i) 1 REASON_MAX_CHARS = Inr ws"
    by (auto simp: reverseIntentFields_def purchaseReversalReasonWords_def result_simps field_simps)
  then have lg: "length gs = 11" using wordFields_8 [OF w] by auto
  from f g obtain e ls where l: "mapR reverseLineFields (rv_lines i) = Inr ls"
    and fs: "fs = (gs @ [e, int_field (rv_totalValueMinor i), int_field (int (length (rv_lines i)))]) @ concat ls"
    by (auto simp: fieldList_append fieldList_map field_simps)
  have ls: "(\<forall>l \<in> set ls. length l = 4) \<and> length ls = length (rv_lines i)"
    by (rule mapR_lines_none [OF l]) (auto simp: reverseLineFields_def field_simps)
  have "intentFields ''purchase.reverse'' fs = gs"
    using kind_group [OF kind_flags_code(6) b [unfolded fs]] ls lg pick_none [of 4 ls] pick_none [of 3 "[[e, int_field (rv_totalValueMinor i), int_field (int (length (rv_lines i)))]]"]
    by (simp add: fs nth_append pick_append pick_all list_all_iff)
  from coherentI [OF b this h] show ?thesis .
qed


lemma allocate_coherent:
  assumes "supplierAllocateCreditPayload sha i = Inr m"
  shows "coherent sha ''supplier.allocate_credit'' (ca_tenantId i) (ca_businessId i) m"
proof -
  let ?build = "buildInventoryPayload sha ''supplier.allocate_credit'' (ca_tenantId i) (ca_businessId i)"
  from assms obtain fs gs where f: "allocateFields i = Inr fs" and g: "allocateIntentFields i = Inr gs" and b: "?build fs = Inr (mp_payload m)"
    and h: "inventoryIntentSha256 sha ''supplier.allocate_credit'' (ca_tenantId i) (ca_businessId i) gs = Inr (mp_intentSha256 m)"
    by (auto simp: supplierAllocateCreditPayload_def supplierAllocateCreditIntentSha256_def result_simps)
  have "intentFields ''supplier.allocate_credit'' fs = gs"
    unfolding kind_header [OF kind_flags_code(2) b] using f g
    by (auto simp: allocateFields_def allocateIntentFields_def amountField_def positive_def positive_or_def result_simps field_simps)
  from coherentI [OF b this h] show ?thesis .
qed

lemma refund_coherent:
  assumes "supplierReceiveRefundPayload sha digest i = Inr m"
  shows "coherent sha ''supplier.receive_refund'' (rf_tenantId i) (rf_businessId i) m"
proof -
  let ?build = "buildInventoryPayload sha ''supplier.receive_refund'' (rf_tenantId i) (rf_businessId i)"
  from assms obtain fs gs where f: "refundFields digest i = Inr fs" and g: "refundIntentFields digest i = Inr gs" and b: "?build fs = Inr (mp_payload m)"
    and h: "inventoryIntentSha256 sha ''supplier.receive_refund'' (rf_tenantId i) (rf_businessId i) gs = Inr (mp_intentSha256 m)"
    by (auto simp: supplierReceiveRefundPayload_def supplierReceiveRefundIntentSha256_def result_simps)
  from f obtain ws where w: "referenceWords digest (rf_reference i) payload_invalid = Inr ws"
    by (auto simp: refundFields_def field_simps)
  have "\<exists>a b c d e f g h. ws = [a, b, c, d, e, f, g, h]"
    by (rule wordFields_8) (use w in \<open>auto simp: referenceWords_def split: sum.splits\<close>)
  then obtain w1 w2 w3 w4 w5 w6 w7 w8 where ws: "ws = [w1, w2, w3, w4, w5, w6, w7, w8]" by blast
  have "intentFields ''supplier.receive_refund'' fs = gs"
    unfolding kind_header [OF kind_flags_code(3) b] using f g
    by (auto simp: refundFields_def refundIntentFields_def rateFields_def amountField_def positive_def positive_or_def w ws
        numeral_eq_Suc result_simps field_simps)
  from coherentI [OF b this h] show ?thesis .
qed


lemma return_coherent:
  assumes "supplierReturnPayload sha digest i = Inr m" shows "coherent sha ''purchase.return'' (si_tenantId i) (si_businessId i) m"
proof -
  let ?build = "buildInventoryPayload sha ''purchase.return'' (si_tenantId i) (si_businessId i)"
  from assms obtain fs gs where f: "returnFields digest i = Inr fs" and g: "returnIntentFields digest i = Inr gs"
    and b: "?build fs = Inr (mp_payload m)"
    and h: "inventoryIntentSha256 sha ''purchase.return'' (si_tenantId i) (si_businessId i) gs = Inr (mp_intentSha256 m)"
    by (auto simp: supplierReturnPayload_def supplierReturnIntentSha256_def finishWith_def Let_def result_simps)
  from f obtain ws ls where w: "wordFields digest (si_reason i) 1 REASON_MAX_CHARS = Inr ws"
    and l: "mapR returnLineFields (si_lines i) = Inr ls"
    by (auto simp: returnFields_def supplierReturnReasonWords_def Let_def fieldList_append fieldList_map field_simps)
  from wordFields_8 [OF w] obtain w1 w2 w3 w4 w5 w6 w7 w8 where ws: "ws = [w1, w2, w3, w4, w5, w6, w7, w8]" by blast
  have ls: "mapR (\<lambda>l. fieldList [one (uuidField (sl_returnLineId l)), one (uuidField (sl_purchaseLineId l)), ints [sl_qtyQ4 l]]) (si_lines i)
      = Inr (map (pick [True, True, False, True, False, False]) ls) \<and> (\<forall>l \<in> set ls. length l = 6) \<and> length ls = length (si_lines i)"
    by (rule mapR_lines [OF l]) (auto simp: returnLineFields_def field_simps)
  from f obtain hs where fs: "fs = hs @ concat ls" "length hs = 21" "hs ! 20 = int_field (int (length (si_lines i)))"
    and gs: "gs = pick (replicate 12 True @ replicate 8 False @ [True]) hs @ concat (map (pick [True, True, False, True, False, False]) ls)"
    using g ls
    by (auto simp: returnFields_def returnIntentFields_def supplierReturnReasonWords_def Let_def fieldList_append fieldList_map l w [unfolded One_nat_def] ws
        numeral_eq_Suc result_simps field_simps)
  have "intentFields ''purchase.return'' fs = gs"
    using kind_group [OF kind_flags_code(5) b [unfolded fs(1)]] fs ls by (simp add: gs)
  from coherentI [OF b this h] show ?thesis .
qed


lemma pay_coherent:
  assumes "supplierPayPayload sha digest i = Inr m" shows "coherent sha ''supplier.pay'' (py_tenantId i) (py_businessId i) m"
proof -
  let ?build = "buildInventoryPayload sha ''supplier.pay'' (py_tenantId i) (py_businessId i)"
  let ?lf = "[True, True, False, False, True, False, True, False, False, False, False]"
  from assms obtain fs gs where f: "payFields digest i = Inr fs" and g: "payIntentFields digest i = Inr gs"
    and b: "?build fs = Inr (mp_payload m)"
    and h: "inventoryIntentSha256 sha ''supplier.pay'' (py_tenantId i) (py_businessId i) gs = Inr (mp_intentSha256 m)"
    by (auto simp: supplierPayPayload_def supplierPayIntentSha256_def result_simps)
  from f obtain ws ls where w: "referenceWords digest (py_reference i) supplier_payment_allocations_invalid = Inr ws"
    and l: "mapR payAllocationFields (py_allocations i) = Inr ls"
    by (auto simp: payFields_def fieldList_append fieldList_map field_simps)
  have "\<exists>a b c d e f g h. ws = [a, b, c, d, e, f, g, h]"
    by (rule wordFields_8) (use w in \<open>auto simp: referenceWords_def split: sum.splits\<close>)
  then obtain w1 w2 w3 w4 w5 w6 w7 w8 where ws: "ws = [w1, w2, w3, w4, w5, w6, w7, w8]" by blast
  have ls: "mapR (\<lambda>a. fieldList [one (uuidField (pa_allocationId a)), one (uuidField (pa_purchaseId a)),
      ints [pa_paymentAmountMinor a, pa_appliedMinor a]]) (py_allocations i) = Inr (map (pick ?lf) ls)
      \<and> (\<forall>l \<in> set ls. length l = 11) \<and> length ls = length (py_allocations i)"
    by (rule mapR_lines [OF l]) (auto simp: payAllocationFields_def field_simps)
  from f obtain hs where fs: "fs = hs @ concat ls" "length hs = 21" "hs ! 20 = int_field (int (length (py_allocations i)))"
    and gs: "gs = pick ([True, True, True, False, True, True, True, False, False, False, False, False] @ replicate 9 True) hs
      @ concat (map (pick ?lf) ls)"
    using g ls
    by (auto simp: payFields_def payIntentFields_def rateFields_def fieldList_append fieldList_map l w ws
        numeral_eq_Suc result_simps field_simps)
  have "intentFields ''supplier.pay'' fs = gs"
    using kind_group [OF kind_flags_code(8) b [unfolded fs(1)]] fs ls by (simp add: gs)
  from coherentI [OF b this h] show ?thesis .
qed

lemma sale_coherent:
  assumes "saleCommitPayload sha digest i = Inr m" shows "coherent sha ''sale.commit'' (ss_tenantId i) (ss_businessId i) m"
proof -
  let ?build = "buildInventoryPayload sha ''sale.commit'' (ss_tenantId i) (ss_businessId i)"
  let ?lf = "[True, True, True, False, True, True, False, False, False]"
  from assms obtain fs gs where f: "saleFields digest i = Inr fs" and g: "saleIntentFields digest i = Inr gs"
    and b: "?build fs = Inr (mp_payload m)"
    and h: "inventoryIntentSha256 sha ''sale.commit'' (ss_tenantId i) (ss_businessId i) gs = Inr (mp_intentSha256 m)"
    by (auto simp: saleCommitPayload_def saleCommitIntentSha256_def result_simps)
  from f obtain ws ls where w: "notesWords digest (ss_notes i) = Inr ws" and l: "mapR saleLineFields (ss_lines i) = Inr ls"
    by (auto simp: saleFields_def fieldList_append fieldList_map field_simps)
  from wordFields_8 [OF w [unfolded notesWords_def]] obtain w1 w2 w3 w4 w5 w6 w7 w8
    where ws: "ws = [w1, w2, w3, w4, w5, w6, w7, w8]" by blast
  have ls: "mapR saleIntentLineFields (ss_lines i) = Inr (map (pick ?lf) ls) \<and> (\<forall>l \<in> set ls. length l = 9) \<and> length ls = length (ss_lines i)"
    by (rule mapR_lines [OF l]) (auto simp: saleLineFields_def saleIntentLineFields_def field_simps)
  from f obtain hs where fs: "fs = hs @ concat ls" "length hs = 27" "hs ! 26 = int_field (int (length (ss_lines i)))"
    and gs: "gs = pick ([True, True, True, True, False, False, True, True, False, False, False, False, False, False,
       False, True, False, False] @ replicate 9 True) hs @ concat (map (pick ?lf) ls)"
    using g ls
    by (auto simp: saleFields_def saleIntentFields_def fieldList_append fieldList_map l w ws numeral_eq_Suc result_simps field_simps)
  have "intentFields ''sale.commit'' fs = gs"
    using kind_group [OF kind_flags_code(7) b [unfolded fs(1)]] fs ls by (simp add: gs)
  from coherentI [OF b this h] show ?thesis .
qed


subsection \<open>Movements with derived values\<close>

lemma pick_filter: "pick (map P xs) (map f xs) = map f (filter P xs)"
  by (induction xs) (auto simp: pick_def)

lemma finish_group:
  assumes k: "kind_flags op = Some (hf, Some (c, lf))" and f: "finish sha op t b (hs @ concat ls) = Inr m"
    and hs: "map (\<lambda>e. \<not> en_derived e) hs = hf" "c < length hs" "en_field (hs ! c) = int_field (int (length ls))"
    and ls: "\<forall>l \<in> set ls. map (\<lambda>e. \<not> en_derived e) l = lf"
  shows "coherent sha op t b m"
proof -
  let ?P = "\<lambda>e. \<not> en_derived e"
  have fields: "map en_field (hs @ concat ls) = map en_field hs @ concat (map (map en_field) ls)" by (simp add: map_concat)
  from f have b: "buildInventoryPayload sha op t b (map en_field hs @ concat (map (map en_field) ls)) = Inr (mp_payload m)"
    and h: "inventoryIntentSha256 sha op t b (map en_field (filter ?P (hs @ concat ls))) = Inr (mp_intentSha256 m)"
    by (auto simp: finish_def bindR_eq_Inr map_concat)
  have "concat (map (pick lf) (map (map en_field) ls)) = concat (map (\<lambda>l. map en_field (filter ?P l)) ls)"
    using ls by (induction ls) (auto simp: pick_filter)
  moreover have "pick hf (map en_field hs) = map en_field (filter ?P hs)" using hs(1) by (auto simp: pick_filter)
  moreover have "\<forall>l \<in> set (map (map en_field) ls). length l = length lf" using ls by (auto dest: map_eq_imp_length_eq)
  moreover have "length (map en_field hs) = length hf" using hs(1) by auto
  ultimately have "intentFields op (map en_field hs @ concat (map (map en_field) ls)) = map en_field (filter ?P (hs @ concat ls))"
    using kind_group [OF k b] hs by (simp add: map_concat filter_concat comp_def)
  from coherentI [OF b this h] show ?thesis .
qed

lemma mapR_flags:
  "mapR f xs = Inr ls \<Longrightarrow> (\<And>x l. f x = Inr l \<Longrightarrow> map (\<lambda>e. \<not> en_derived e) l = lf)
    \<Longrightarrow> (\<forall>l \<in> set ls. map (\<lambda>e. \<not> en_derived e) l = lf) \<and> length ls = length xs"
  by (induction xs arbitrary: ls) (auto simp: bindR_eq_Inr)

lemma reason_8: "reasonEntries digest r = Inr es \<Longrightarrow> length es = 8 \<and> map (\<lambda>e. \<not> en_derived e) es = replicate 8 True"
  by (auto simp: reasonEntries_def bindR_eq_Inr comp_def map_replicate_const dest!: reasonWords_length)

lemma int_entry [simp]: "en_field (e_int n) = int_field n"
  by (simp add: e_int_def)

lemma adjust_coherent:
  assumes "adjustPayload sha digest i = Inr m" shows "coherent sha ''inventory.adjust'' (ai_tenantId i) (ai_businessId i) m"
proof -
  from assms obtain d rs ls where r: "reasonEntries digest (ai_reason i) = Inr rs" and l: "mapR adjustEntries (ai_lines i) = Inr ls"
    and f: "finish sha ''inventory.adjust'' (ai_tenantId i) (ai_businessId i)
      (([e_uuid (ai_adjustmentId i), e_uuid (ai_warehouseId i), e_int d] @ rs @ [e_int (int (length (ai_lines i)))]) @ concat ls) = Inr m"
    by (auto simp: adjustPayload_def result_simps)
  have "(\<forall>l \<in> set ls. map (\<lambda>e. \<not> en_derived e) l = [True, True, True, False]) \<and> length ls = length (ai_lines i)"
    by (rule mapR_flags [OF l]) (auto simp: adjustEntries_def Let_def split: if_splits option.splits)
  then show ?thesis using reason_8 [OF r] by (intro finish_group [OF kind_flags_code(9) f]) (auto simp: nth_append numeral_eq_Suc)
qed

lemma damage_coherent:
  assumes "damagePayload sha digest i = Inr m" shows "coherent sha ''inventory.damage'' (di_tenantId i) (di_businessId i) m"
proof -
  from assms obtain d rs ls where r: "reasonEntries digest (di_reason i) = Inr rs" and l: "mapR damageEntries (di_lines i) = Inr ls"
    and f: "finish sha ''inventory.damage'' (di_tenantId i) (di_businessId i)
      (([e_uuid (di_adjustmentId i), e_uuid (di_warehouseId i), e_int d] @ rs @ [e_int (int (length (di_lines i)))]) @ concat ls) = Inr m"
    by (auto simp: damagePayload_def result_simps)
  have "(\<forall>l \<in> set ls. map (\<lambda>e. \<not> en_derived e) l = [True, True, False]) \<and> length ls = length (di_lines i)"
    by (rule mapR_flags [OF l]) (auto simp: damageEntries_def result_simps)
  then show ?thesis using reason_8 [OF r] by (intro finish_group [OF kind_flags_code(10) f]) (auto simp: nth_append numeral_eq_Suc)
qed

lemma finalize_coherent:
  assumes "stocktakeFinalizePayload sha i = Inr m"
  shows "coherent sha ''inventory.stocktake_finalize'' (fi_tenantId i) (fi_businessId i) m"
proof -
  from assms obtain d ls where c: "(case fi_occurredOn i of None \<Rightarrow> Inr e_nul | Some d \<Rightarrow> bindR (yyyymmdd d) (\<lambda>n. Inr (e_int n))) = Inr d"
    and l: "mapR finalizeEntries (fi_lines i) = Inr ls"
    and f: "finish sha ''inventory.stocktake_finalize'' (fi_tenantId i) (fi_businessId i)
      ([e_uuid (fi_stocktakeId i), e_uuid (fi_warehouseId i), e_code (outcomeText (fi_outcome i)), d,
        e_int (int (length (fi_lines i)))] @ concat ls) = Inr m"
    by (auto simp: stocktakeFinalizePayload_def bindR_eq_Inr)
  from c have d: "\<not> en_derived d" by (auto simp: bindR_eq_Inr split: option.splits)
  have "(\<forall>l \<in> set ls. map (\<lambda>e. \<not> en_derived e) l = [True, False, True, False]) \<and> length ls = length (fi_lines i)"
    by (rule mapR_flags [OF l]) (auto simp: finalizeEntries_def result_simps split: if_splits)
  then show ?thesis using d by (intro finish_group [OF kind_flags_code(11) f]) (auto simp: numeral_eq_Suc)
qed

lemma opening_coherent:
  assumes "openingPayload sha i = Inr m" shows "coherent sha ''inventory.opening'' (oi_tenantId i) (oi_businessId i) m"
proof -
  from assms obtain d ls where l: "mapR openingEntries (oi_lines i) = Inr ls"
    and f: "finish sha ''inventory.opening'' (oi_tenantId i) (oi_businessId i)
      ([e_uuid (oi_openingId i), e_int d, derived (case oi_openingBalanceId i of None \<Rightarrow> e_nul | Some b \<Rightarrow> e_uuid b),
        derived (e_intOrNull (oi_positionMinor i)), e_int (int (length (oi_lines i)))] @ concat ls) = Inr m"
    by (auto simp: openingPayload_def result_simps)
  have "(\<forall>l \<in> set ls. map (\<lambda>e. \<not> en_derived e) l = replicate 4 True) \<and> length ls = length (oi_lines i)"
    by (rule mapR_flags [OF l]) (auto simp: openingEntries_def numeral_eq_Suc result_simps)
  then show ?thesis by (intro finish_group [OF kind_flags_code(12) f]) (auto simp: numeral_eq_Suc)
qed


subsection \<open>Intents before any state is read\<close>

text \<open>The derived values are placeholders there; the encoder accepts the placeholders whenever it accepts the values.\<close>

definition placeheld :: "InventoryPayloadField \<Rightarrow> InventoryPayloadField \<Rightarrow> bool" where
  "placeheld f f' \<longleftrightarrow> f' = f \<or> (\<exists>n k. f = int_field n \<and> f' = int_field k \<and> (k = 0 \<or> k = 1))"

lemma placeheld_refl [simp]: "placeheld f f" "placeheld (int_field n) (int_field 0)" "placeheld (int_field n) (int_field 1)"
  by (auto simp: placeheld_def)

lemma placeheld_fits: "list_all2 fits ss fs \<Longrightarrow> list_all2 placeheld fs fs' \<Longrightarrow> list_all2 fits ss fs'"
  by (erule (1) list_all2_trans [rotated]) (auto simp: placeheld_def INT8_MIN_def INT8_MAX_def)

lemma list_all2_concat: "list_all2 (list_all2 R) ls ls' \<Longrightarrow> list_all2 R (concat ls) (concat ls')"
  by (induction rule: list_all2_induct) (auto intro: list_all2_appendI)

lemma build_placeheld:
  assumes "buildInventoryPayload sha op t b fs = Inr p" "map_of INVENTORY_PAYLOAD_SCHEMAS op = Some schema"
    "ps_trailer schema = None" "\<And>r. ps_repeat schema = Some r \<Longrightarrow> fs' ! count_index schema r = fs ! count_index schema r"
    "\<And>ss. list_all2 fits ss fs \<Longrightarrow> take (length (ps_header schema)) ss = ps_header schema \<Longrightarrow> list_all2 fits ss fs'"
  shows "\<exists>p'. buildInventoryPayload sha op t b fs' = Inr p'"
proof -
  from assms(1) obtain x where "canonicalInventoryPayload op t b fs = Inr x"
    by (auto simp: buildInventoryPayload_def bindR_eq_Inr)
  then have u: "is_uuid t" "is_uuid b" and "follows schema fs" using assms(2) by (auto simp: canonicalPayload_eq_Inr)
  then obtain n k where "stated schema fs n k" "list_all2 fits (shape schema n k) fs" by (auto simp: follows_def)
  then have "stated schema fs' n k" "list_all2 fits (shape schema n k) fs'"
    using assms(3-5) by (auto simp: stated_def shape_def split: option.splits)
  then have "follows schema fs'" by (auto simp: follows_def)
  with u assms(2) show ?thesis by (auto simp: buildInventoryPayload_def bindR_eq_Inr canonicalPayload_eq_Inr)
qed


abbreviation stated_fields :: "Entry list \<Rightarrow> InventoryPayloadField list" where
  "stated_fields es \<equiv> map en_field (filter (\<lambda>e. \<not> en_derived e) es)"

lemma finish_placeholders:
  assumes "finish sha op t b es = Inr m" "stated_fields es' = stated_fields es"
    "\<And>p. buildInventoryPayload sha op t b (map en_field es) = Inr p \<Longrightarrow> \<exists>p'. buildInventoryPayload sha op t b (map en_field es') = Inr p'"
  shows "\<exists>m'. finish sha op t b es' = Inr m' \<and> mp_intentSha256 m' = mp_intentSha256 m"
  using assms by (auto simp: finish_def bindR_eq_Inr)

definition line_placeheld :: "Entry list \<Rightarrow> Entry list \<Rightarrow> bool" where
  "line_placeheld l l' \<longleftrightarrow> list_all2 placeheld (map en_field l) (map en_field l') \<and> stated_fields l' = stated_fields l"

lemma lines_placeheld:
  "list_all2 line_placeheld ls ls' \<Longrightarrow>
   list_all2 placeheld (map en_field (concat ls)) (map en_field (concat ls')) \<and> stated_fields (concat ls') = stated_fields (concat ls)"
  by (induction rule: list_all2_induct) (auto simp: line_placeheld_def intro: list_all2_appendI)

lemma mapR_placeheld:
  "mapR f xs = Inr ls \<Longrightarrow> (\<And>x l. f x = Inr l \<Longrightarrow> \<exists>l'. f (u x) = Inr l' \<and> line_placeheld l l')
    \<Longrightarrow> \<exists>ls'. mapR f (map u xs) = Inr ls' \<and> list_all2 line_placeheld ls ls'"
proof (induction xs arbitrary: ls)
  case (Cons x xs)
  from Cons.prems(1) obtain l r where "f x = Inr l" "mapR f xs = Inr r" "ls = l # r" by (auto simp: bindR_eq_Inr)
  moreover from this Cons.prems(2) obtain l' where "f (u x) = Inr l'" "line_placeheld l l'" by blast
  moreover from Cons.IH [OF \<open>mapR f xs = Inr r\<close> Cons.prems(2)] obtain r' where
    "mapR f (map u xs) = Inr r'" "list_all2 line_placeheld r r'" by blast
  ultimately show ?case by simp
qed simp

lemma finish_lines:
  assumes k: "kind_flags op = Some (hf, Some (c, lf))" "c < length hs" and f: "finish sha op t b (hs @ concat ls) = Inr m"
    and l: "list_all2 line_placeheld ls ls'"
  shows "\<exists>m'. finish sha op t b (hs @ concat ls') = Inr m' \<and> mp_intentSha256 m' = mp_intentSha256 m"
proof -
  from k obtain schema r where s: "map_of INVENTORY_PAYLOAD_SCHEMAS op = Some schema" "ps_trailer schema = None"
    "ps_repeat schema = Some r" "count_index schema r = c"
    by (auto simp: kind_flags_def split: option.splits if_splits)
  have p: "list_all2 placeheld (map en_field (hs @ concat ls)) (map en_field (hs @ concat ls'))"
    using lines_placeheld [OF l] by (auto intro!: list_all2_appendI list.rel_refl_strong)
  show ?thesis
  proof (rule finish_placeholders [OF f])
    show "stated_fields (hs @ concat ls') = stated_fields (hs @ concat ls)" using lines_placeheld [OF l] by simp
  next
    fix x assume x: "buildInventoryPayload sha op t b (map en_field (hs @ concat ls)) = Inr x"
    show "\<exists>p'. buildInventoryPayload sha op t b (map en_field (hs @ concat ls')) = Inr p'"
      by (rule build_placeheld [OF x s(1,2)]) (use s(3,4) k(2) p in \<open>auto simp: nth_append intro: placeheld_fits\<close>)
  qed
qed

lemma adjust_intent_early:
  assumes "adjustPayload sha digest i = Inr m" shows "adjustIntentSha256 sha digest i = Inr (mp_intentSha256 m)"
proof -
  let ?u = "\<lambda>l. l\<lparr>aj_expectedValue := 0\<rparr>"
  from assms obtain d rs ls where a: "assertLineCount (length (ai_lines i)) MAX_DOCUMENT_LINES = Inr ()"
    "assertDistinct (map aj_variantId (ai_lines i)) = Inr ()" "yyyymmdd (ai_occurredOn i) = Inr d"
    and r: "reasonEntries digest (ai_reason i) = Inr rs" and l: "mapR adjustEntries (ai_lines i) = Inr ls"
    and f: "finish sha ''inventory.adjust'' (ai_tenantId i) (ai_businessId i)
      (([e_uuid (ai_adjustmentId i), e_uuid (ai_warehouseId i), e_int d] @ rs @ [e_int (int (length (ai_lines i)))]) @ concat ls) = Inr m"
    by (auto simp: adjustPayload_def result_simps)
  have "\<exists>ls'. mapR adjustEntries (map ?u (ai_lines i)) = Inr ls' \<and> list_all2 line_placeheld ls ls'"
    by (rule mapR_placeheld [OF l])
       (auto simp: adjustEntries_def Let_def line_placeheld_def derived_def e_int_def split: if_splits option.splits)
  then obtain ls' where ls': "mapR adjustEntries (map ?u (ai_lines i)) = Inr ls'" "list_all2 line_placeheld ls ls'" by blast
  from finish_lines [OF kind_flags_code(9) _ f ls'(2)] reason_8 [OF r] obtain m' where
    "finish sha ''inventory.adjust'' (ai_tenantId i) (ai_businessId i)
      (([e_uuid (ai_adjustmentId i), e_uuid (ai_warehouseId i), e_int d] @ rs @ [e_int (int (length (ai_lines i)))]) @ concat ls') = Inr m'"
    "mp_intentSha256 m' = mp_intentSha256 m" by (auto simp: numeral_eq_Suc)
  then show ?thesis using a r ls'(1) by (simp add: adjustIntentSha256_def adjustPayload_def comp_def)
qed

lemma damage_intent_early:
  assumes "damagePayload sha digest i = Inr m" shows "damageIntentSha256 sha digest i = Inr (mp_intentSha256 m)"
proof -
  let ?u = "\<lambda>l. l\<lparr>dl_expectedValue := 0\<rparr>"
  from assms obtain d rs ls where a: "assertLineCount (length (di_lines i)) MAX_DOCUMENT_LINES = Inr ()"
    "assertDistinct (map dl_variantId (di_lines i)) = Inr ()" "yyyymmdd (di_occurredOn i) = Inr d"
    and r: "reasonEntries digest (di_reason i) = Inr rs" and l: "mapR damageEntries (di_lines i) = Inr ls"
    and f: "finish sha ''inventory.damage'' (di_tenantId i) (di_businessId i)
      (([e_uuid (di_adjustmentId i), e_uuid (di_warehouseId i), e_int d] @ rs @ [e_int (int (length (di_lines i)))]) @ concat ls) = Inr m"
    by (auto simp: damagePayload_def result_simps)
  have "\<exists>ls'. mapR damageEntries (map ?u (di_lines i)) = Inr ls' \<and> list_all2 line_placeheld ls ls'"
    by (rule mapR_placeheld [OF l]) (auto simp: damageEntries_def line_placeheld_def derived_def e_int_def result_simps)
  then obtain ls' where ls': "mapR damageEntries (map ?u (di_lines i)) = Inr ls'" "list_all2 line_placeheld ls ls'" by blast
  from finish_lines [OF kind_flags_code(10) _ f ls'(2)] reason_8 [OF r] obtain m' where
    "finish sha ''inventory.damage'' (di_tenantId i) (di_businessId i)
      (([e_uuid (di_adjustmentId i), e_uuid (di_warehouseId i), e_int d] @ rs @ [e_int (int (length (di_lines i)))]) @ concat ls') = Inr m'"
    "mp_intentSha256 m' = mp_intentSha256 m" by (auto simp: numeral_eq_Suc)
  then show ?thesis using a r ls'(1) by (simp add: damageIntentSha256_def damagePayload_def comp_def)
qed


lemma finalize_intent_early:
  assumes "stocktakeFinalizePayload sha i = Inr m" shows "stocktakeFinalizeIntentSha256 sha i = Inr (mp_intentSha256 m)"
proof -
  let ?u = "\<lambda>l. l\<lparr>fl_varianceQ4 := (if fl_unitCostC10 l = None then 0 else 1), fl_expectedValue := 0\<rparr>"
  from assms obtain d ls where a: "checkOutcome i = Inr ()"
    "(case fi_occurredOn i of None \<Rightarrow> Inr e_nul | Some d \<Rightarrow> bindR (yyyymmdd d) (\<lambda>n. Inr (e_int n))) = Inr d"
    and l: "mapR finalizeEntries (fi_lines i) = Inr ls"
    and f: "finish sha ''inventory.stocktake_finalize'' (fi_tenantId i) (fi_businessId i)
      ([e_uuid (fi_stocktakeId i), e_uuid (fi_warehouseId i), e_code (outcomeText (fi_outcome i)), d,
        e_int (int (length (fi_lines i)))] @ concat ls) = Inr m"
    by (auto simp: stocktakeFinalizePayload_def bindR_eq_Inr)
  have "\<exists>ls'. mapR finalizeEntries (map ?u (fi_lines i)) = Inr ls' \<and> list_all2 line_placeheld ls ls'"
    by (rule mapR_placeheld [OF l])
       (auto simp: finalizeEntries_def line_placeheld_def derived_def e_int_def split: if_splits option.splits)
  then obtain ls' where ls': "mapR finalizeEntries (map ?u (fi_lines i)) = Inr ls'" "list_all2 line_placeheld ls ls'" by blast
  from finish_lines [OF kind_flags_code(11) _ f ls'(2)] obtain m' where
    "finish sha ''inventory.stocktake_finalize'' (fi_tenantId i) (fi_businessId i)
      ([e_uuid (fi_stocktakeId i), e_uuid (fi_warehouseId i), e_code (outcomeText (fi_outcome i)), d,
        e_int (int (length (fi_lines i)))] @ concat ls') = Inr m'" "mp_intentSha256 m' = mp_intentSha256 m" by auto
  moreover have "checkOutcome (i\<lparr>fi_lines := map ?u (fi_lines i)\<rparr>) = Inr ()"
    using a(1) by (auto simp: checkOutcome_def comp_def split: StocktakeOutcome.splits if_splits)
  ultimately show ?thesis using a(2) ls'(1) by (simp add: stocktakeFinalizeIntentSha256_def stocktakeFinalizePayload_def)
qed

lemma opening_nullable:
  "map_of INVENTORY_PAYLOAD_SCHEMAS ''inventory.opening'' = Some schema_opening" "ps_trailer schema_opening = None"
  "map_option (count_index schema_opening) (ps_repeat schema_opening) = Some 4"
  "map fs_nullable (take 4 (ps_header schema_opening)) = [False, False, True, True]" "length (ps_header schema_opening) = 5"
  by code_simp+

lemma opening_intent_early:
  assumes "openingPayload sha i = Inr m" shows "openingIntentSha256 sha i = Inr (mp_intentSha256 m)"
proof -
  let ?e = "\<lambda>b p d. [e_uuid (oi_openingId i), e_int d, derived (case b of None \<Rightarrow> e_nul | Some b \<Rightarrow> e_uuid b),
        derived (e_intOrNull p), e_int (int (length (oi_lines i)))]"
  from assms obtain d ls where a: "assertLineCount (length (oi_lines i)) MAX_DOCUMENT_LINES = Inr ()"
    "assertDistinct (map (\<lambda>l. ol_warehouseId l @ ''|'' @ ol_variantId l) (oi_lines i)) = Inr ()" "yyyymmdd (oi_occurredOn i) = Inr d"
    and l: "mapR openingEntries (oi_lines i) = Inr ls"
    and f: "finish sha ''inventory.opening'' (oi_tenantId i) (oi_businessId i)
      (?e (oi_openingBalanceId i) (oi_positionMinor i) d @ concat ls) = Inr m"
    by (auto simp: openingPayload_def result_simps)
  have "\<exists>m'. finish sha ''inventory.opening'' (oi_tenantId i) (oi_businessId i) (?e None None d @ concat ls) = Inr m'
    \<and> mp_intentSha256 m' = mp_intentSha256 m"
  proof (rule finish_placeholders [OF f])
    show "stated_fields (?e None None d @ concat ls) = stated_fields (?e (oi_openingBalanceId i) (oi_positionMinor i) d @ concat ls)"
      by simp
  next
    fix p
    let ?fs = "\<lambda>b p. map en_field (?e b p d @ concat ls)"
    assume b: "buildInventoryPayload sha ''inventory.opening'' (oi_tenantId i) (oi_businessId i)
        (?fs (oi_openingBalanceId i) (oi_positionMinor i)) = Inr p"
    show "\<exists>p'. buildInventoryPayload sha ''inventory.opening'' (oi_tenantId i) (oi_businessId i) (?fs None None) = Inr p'"
    proof (rule build_placeheld [OF b opening_nullable(1,2)])
      fix r assume "ps_repeat schema_opening = Some r"
      then show "?fs None None ! count_index schema_opening r
        = ?fs (oi_openingBalanceId i) (oi_positionMinor i) ! count_index schema_opening r"
        using opening_nullable(3) by (simp add: numeral_eq_Suc)
    next
      fix ss
      assume ss: "list_all2 fits ss (?fs (oi_openingBalanceId i) (oi_positionMinor i))"
        and t: "take (length (ps_header schema_opening)) ss = ps_header schema_opening"
      have "take 4 ss = take 4 (take 5 ss)" by simp
      also have "\<dots> = take 4 (ps_header schema_opening)" using t by (simp only: opening_nullable(5))
      finally have "map fs_nullable (take 4 ss) = [False, False, True, True]" by (simp only: opening_nullable(4))
      with ss show "list_all2 fits ss (?fs None None)"
        by (auto simp: derived_def e_nul_def e_intOrNull_def list_all2_Cons2 numeral_eq_Suc)
    qed
  qed
  then show ?thesis using a l by (auto simp: openingIntentSha256_def openingPayload_def bindR_eq_Inr)
qed


subsection \<open>All builders\<close>

text \<open>A payload and an intent digest some builder returned, for an operation of a tenant and a business.\<close>

inductive built :: "(string \<Rightarrow> string) \<Rightarrow> (octets \<Rightarrow> octets) \<Rightarrow> string \<Rightarrow> string \<Rightarrow> string \<Rightarrow> InventoryPayload \<Rightarrow> string \<Rightarrow> bool"
  for sha :: "string \<Rightarrow> string" and digest :: "octets \<Rightarrow> octets" where
  "supplierCreatePayload sha digest spc = Inr m \<Longrightarrow> built sha digest ''supplier.create'' (spc_tenantId spc) (spc_businessId spc) (mp_payload m) (mp_intentSha256 m)"
| "supplierUpdatePayload sha digest spc = Inr m \<Longrightarrow> built sha digest ''supplier.update'' (spc_tenantId spc) (spc_businessId spc) (mp_payload m) (mp_intentSha256 m)"
| "supplierArchivePayload sha sl = Inr m \<Longrightarrow> built sha digest ''supplier.archive'' (sl_tenantId sl) (sl_businessId sl) (mp_payload m) (mp_intentSha256 m)"
| "supplierReactivatePayload sha sl = Inr m \<Longrightarrow> built sha digest ''supplier.reactivate'' (sl_tenantId sl) (sl_businessId sl) (mp_payload m) (mp_intentSha256 m)"
| "customerCreatePayload sha digest kc = Inr m \<Longrightarrow> built sha digest ''customer.create'' (kc_tenantId kc) (kc_businessId kc) (mp_payload m) (mp_intentSha256 m)"
| "customerUpdatePayload sha digest kc = Inr m \<Longrightarrow> built sha digest ''customer.update'' (kc_tenantId kc) (kc_businessId kc) (mp_payload m) (mp_intentSha256 m)"
| "customerArchivePayload sha kl = Inr m \<Longrightarrow> built sha digest ''customer.archive'' (kl_tenantId kl) (kl_businessId kl) (mp_payload m) (mp_intentSha256 m)"
| "customerReactivatePayload sha kl = Inr m \<Longrightarrow> built sha digest ''customer.reactivate'' (kl_tenantId kl) (kl_businessId kl) (mp_payload m) (mp_intentSha256 m)"
| "paymentMethodCreatePayload sha digest mc = Inr m \<Longrightarrow> built sha digest ''payment.create_method'' (mc_tenantId mc) (mc_businessId mc) (mp_payload m) (mp_intentSha256 m)"
| "paymentMethodUpdatePayload sha digest mu = Inr m \<Longrightarrow> built sha digest ''payment.update_method'' (mu_tenantId mu) (mu_businessId mu) (mp_payload m) (mp_intentSha256 m)"
| "paymentMethodDeactivatePayload sha ml = Inr m \<Longrightarrow> built sha digest ''payment.deactivate_method'' (ml_tenantId ml) (ml_businessId ml) (mp_payload m) (mp_intentSha256 m)"
| "paymentMethodActivatePayload sha ml = Inr m \<Longrightarrow> built sha digest ''payment.activate_method'' (ml_tenantId ml) (ml_businessId ml) (mp_payload m) (mp_intentSha256 m)"
| "transferPayload sha ti = Inr m \<Longrightarrow> built sha digest ''inventory.transfer'' (ti_tenantId ti) (ti_businessId ti) (mp_payload m) (mp_intentSha256 m)"
| "adjustPayload sha digest ai = Inr m \<Longrightarrow> built sha digest ''inventory.adjust'' (ai_tenantId ai) (ai_businessId ai) (mp_payload m) (mp_intentSha256 m)"
| "damagePayload sha digest di = Inr m \<Longrightarrow> built sha digest ''inventory.damage'' (di_tenantId di) (di_businessId di) (mp_payload m) (mp_intentSha256 m)"
| "stocktakeOpenPayload sha so = Inr m \<Longrightarrow> built sha digest ''inventory.stocktake_open'' (so_tenantId so) (so_businessId so) (mp_payload m) (mp_intentSha256 m)"
| "stocktakeCountPayload sha ci = Inr m \<Longrightarrow> built sha digest ''inventory.stocktake_count'' (ci_tenantId ci) (ci_businessId ci) (mp_payload m) (mp_intentSha256 m)"
| "stocktakeFinalizePayload sha fi = Inr m \<Longrightarrow> built sha digest ''inventory.stocktake_finalize'' (fi_tenantId fi) (fi_businessId fi) (mp_payload m) (mp_intentSha256 m)"
| "openingPayload sha oi = Inr m \<Longrightarrow> built sha digest ''inventory.opening'' (oi_tenantId oi) (oi_businessId oi) (mp_payload m) (mp_intentSha256 m)"
| "purchaseDraftPayload sha digest dp = Inr m \<Longrightarrow> built sha digest ''purchase.draft'' (dp_tenantId dp) (dp_businessId dp) (mp_payload m) (mp_intentSha256 m)"
| "purchaseCancelPayload sha pc = Inr m \<Longrightarrow> built sha digest ''purchase.cancel'' (pc_tenantId pc) (pc_businessId pc) (mp_payload m) (mp_intentSha256 m)"
| "purchaseReceivePayload sha rp = Inr m \<Longrightarrow> built sha digest ''purchase.receive'' (rp_tenantId rp) (rp_businessId rp) (mp_payload m) (mp_intentSha256 m)"
| "purchaseReversePayload sha digest rv = Inr m \<Longrightarrow> built sha digest ''purchase.reverse'' (rv_tenantId rv) (rv_businessId rv) (mp_payload m) (mp_intentSha256 m)"
| "supplierReturnPayload sha digest si = Inr m \<Longrightarrow> built sha digest ''purchase.return'' (si_tenantId si) (si_businessId si) (mp_payload m) (mp_intentSha256 m)"
| "purchaseResidueWriteOffPayload sha digest wo = Inr m \<Longrightarrow> built sha digest ''purchase.write_off_residue'' (wo_tenantId wo) (wo_businessId wo) (mp_payload m) (mp_intentSha256 m)"
| "saleCommitPayload sha digest ss = Inr m \<Longrightarrow> built sha digest ''sale.commit'' (ss_tenantId ss) (ss_businessId ss) (mp_payload m) (mp_intentSha256 m)"
| "supplierPayPayload sha digest py = Inr m \<Longrightarrow> built sha digest ''supplier.pay'' (py_tenantId py) (py_businessId py) (mp_payload m) (mp_intentSha256 m)"
| "supplierAllocateCreditPayload sha ca = Inr m \<Longrightarrow> built sha digest ''supplier.allocate_credit'' (ca_tenantId ca) (ca_businessId ca) (mp_payload m) (mp_intentSha256 m)"
| "supplierReceiveRefundPayload sha digest rf = Inr m \<Longrightarrow> built sha digest ''supplier.receive_refund'' (rf_tenantId rf) (rf_businessId rf) (mp_payload m) (mp_intentSha256 m)"

lemmas builders_coherent = party_coherent draft_coherent cancel_coherent transfer_coherent stocktakeOpen_coherent stocktakeCount_coherent
  residue_coherent receive_coherent reverse_coherent allocate_coherent refund_coherent return_coherent pay_coherent sale_coherent
  adjust_coherent damage_coherent finalize_coherent opening_coherent

lemma built_coherent:
  assumes "built sha digest op t b p h"
  shows "\<exists>fs. buildInventoryPayload sha op t b fs = Inr p \<and> inventoryIntentSha256 sha op t b (intentFields op fs) = Inr h"
  using assms by cases (drule builders_coherent, simp only: coherent_def)+

lemma buildPayload_eq_Inr:
  "buildInventoryPayload sha op t b fs = Inr p \<longleftrightarrow> canonicalInventoryPayload op t b fs = Inr (ip_bytes p)
     \<and> ip_opCode p = op \<and> ip_sha256 p = sha (ip_bytes p)"
  by (cases p) (auto simp: buildInventoryPayload_def bindR_eq_Inr)

end
