(* ===== verification/Signed_Commands.thy ===== *)
theory Signed_Commands
  imports Payload_Builders
begin

text \<open>
  What a signature over a built payload binds. The fields of a payload are functions of the
  input (an identifier, a date, a currency code, the words of a text); each is shown to determine
  its argument, so that two commands with the same signed bytes have the same input.
\<close>

subsection \<open>Fields that determine what they carry\<close>

locale field_binding =
  fixes field :: "'a \<Rightarrow> InventoryPayloadField result"
  assumes binds: "field a = Inr x \<Longrightarrow> field b = Inr y \<Longrightarrow> canonField x = canonField y \<Longrightarrow> a = b"
begin

text \<open>So does the field of an optional value, where \<open>null\<close> stands for none.\<close>

lemma binds_option:
  assumes null: "\<And>a x. field a = Inr x \<Longrightarrow> canonField x \<noteq> F_null"
    and a: "(case a of None \<Rightarrow> Inr F_null | Some v \<Rightarrow> field v) = Inr x"
    and b: "(case b of None \<Rightarrow> Inr F_null | Some v \<Rightarrow> field v) = Inr y"
    and e: "canonField x = canonField y"
  shows "a = b"
proof (cases a)
  case None
  with a b e null show ?thesis by (cases b) fastforce+
next
  case (Some u)
  with a b e null show ?thesis
    by (cases b) (use binds in fastforce)+
qed

end

lemma digits_inject:
  assumes "length xs = length ys" "list_all is_digit xs" "list_all is_digit ys" "digits_int xs = digits_int ys" shows "xs = ys"
  using assms
proof (induction xs ys rule: rev_induct2)
  case (4 x xs y ys)
  then have d: "0 \<le> digit_val x" "digit_val x < 10" "0 \<le> digit_val y" "digit_val y < 10"
    by (auto simp: digit_val_def is_digit_def)
  have "10 * digits_int xs + digit_val x = 10 * digits_int ys + digit_val y" using 4 by (simp add: digits_int_append)
  with d base_step [of "digits_int xs" 10 "digit_val x" "digits_int ys" "digit_val y"]
  have "digits_int xs = digits_int ys" "digit_val x = digit_val y" by (simp_all add: algebra_simps)
  moreover from this(2) have "x = y" by (simp add: digit_val_def)
  ultimately show ?case using 4 by simp
qed simp_all

lemma date_parts_inject:
  assumes "date_parts d = Some (y, m, a)" "date_parts e = Some (y, m, a)" shows "d = e"
proof -
  have "take 4 d = take 4 e" "take 2 (drop 5 d) = take 2 (drop 5 e)" "drop 8 d = drop 8 e"
    using assms by (auto simp: date_parts_def intro!: digits_inject split: if_splits)
  then have "take 4 d @ CHR ''-'' # take 2 (drop 5 d) @ CHR ''-'' # drop 8 d
      = take 4 e @ CHR ''-'' # take 2 (drop 5 e) @ CHR ''-'' # drop 8 e" by (simp only:)
  then show ?thesis using date_parts_split [OF assms(1)] date_parts_split [OF assms(2)] by (simp only:)
qed

lemma yyyymmdd_inject:
  assumes "yyyymmdd d = Inr n" "yyyymmdd e = Inr n" shows "d = e"
proof -
  have "\<exists>y m a. date_parts v = Some (y, m, a) \<and> n = y * 10000 + m * 100 + a \<and> 1 \<le> m \<and> m \<le> 12 \<and> 1 \<le> a \<and> a \<le> 31"
    if "yyyymmdd v = Inr n" for v
    using that by (auto simp: yyyymmdd_def Let_def result_simps split: option.splits prod.splits if_splits)
  from this [OF assms(1)] this [OF assms(2)] obtain y m a y' m' a' where
    p: "date_parts d = Some (y, m, a)" "date_parts e = Some (y', m', a')" and
    n: "y * 10000 + m * 100 + a = y' * 10000 + m' * 100 + a'" "1 \<le> m" "m \<le> 12" "1 \<le> a" "a \<le> 31" "1 \<le> m'" "m' \<le> 12" "1 \<le> a'" "a' \<le> 31"
    by auto
  then have "(y * 100 + m) * 100 + a = (y' * 100 + m') * 100 + a'" by simp
  then have "y * 100 + m = y' * 100 + m' \<and> a = a'" using n by (intro base_step [where k = 100]) simp_all
  moreover from this have "y = y' \<and> m = m'" using n by (intro base_step [where k = 100]) simp_all
  ultimately have "y = y' \<and> m = m' \<and> a = a'" by blast
  with p show ?thesis using date_parts_inject by blast
qed

lemma lower_inject: "is_upper c \<Longrightarrow> is_upper d \<Longrightarrow> lower_char c = lower_char d \<Longrightarrow> c = d"
  by (auto simp: lower_char_def is_upper_def)

lemma lower_list_inject:
  "length xs = length ys \<Longrightarrow> list_all is_upper xs \<Longrightarrow> list_all is_upper ys \<Longrightarrow> map lower_char xs = map lower_char ys \<Longrightarrow> xs = ys"
  by (induction xs ys rule: list_induct2) (simp, simp, blast intro: lower_inject)

lemma currency_inject:
  "ISO_CURRENCY_RE a \<Longrightarrow> ISO_CURRENCY_RE b \<Longrightarrow> toLowerCase a = toLowerCase b \<Longrightarrow> a = b"
  by (rule lower_list_inject) (simp_all add: ISO_CURRENCY_RE_def toLowerCase_def)

interpretation uuid_field: field_binding uuidField
  by unfold_locales (auto simp: uuidField_def split: if_splits)

interpretation date_field: field_binding dateField
  by unfold_locales (auto simp: dateField_def bindR_eq_Inr dest: yyyymmdd_inject)

interpretation currency_field: field_binding currencyField
  by unfold_locales (auto simp: currencyField_def currencyCode_def bindR_eq_Inr result_simps dest: currency_inject)

lemma uuidOrNull_binds:
  assumes "uuidOrNull a = Inr x" "uuidOrNull b = Inr y" "canonField x = canonField y" shows "a = b"
  by (rule uuid_field.binds_option [OF _ assms(1,2) [unfolded uuidOrNull_def] assms(3)]) (auto simp: uuidField_def split: if_splits)

lemma dateOrNull_binds:
  assumes "dateOrNull a = Inr x" "dateOrNull b = Inr y" "canonField x = canonField y" shows "a = b"
  by (rule date_field.binds_option [OF _ assms(1,2) [unfolded dateOrNull_def] assms(3)]) (auto simp: dateField_def bindR_eq_Inr)

lemma intOrNull_canon: "canonField (intOrNull a) = canonField (intOrNull b) \<longleftrightarrow> a = b"
  by (cases a; cases b) (auto simp: intOrNull_def)

lemma wordFields_bind:
  assumes "wordFields digest t lo hi = Inr x" "wordFields digest t' lo' hi' = Inr y" "map canonField x = map canonField y"
    "\<And>x. length (digest x) = 32" "\<not> text_collision digest t t'"
  shows "t = t'"
proof -
  from assms(1,2) obtain ws ws' where w: "documentTextWords digest t \<lparr>tb_min = lo, tb_max = hi\<rparr> = Inr ws" "x = map intOrNull ws"
    "documentTextWords digest t' \<lparr>tb_min = lo', tb_max = hi'\<rparr> = Inr ws'" "y = map intOrNull ws'"
    by (auto simp: wordFields_def bindR_eq_Inr)
  have "ws = ws'"
    using assms(3) by (auto simp: w(2,4) intOrNull_canon list_eq_iff_nth_eq dest: map_eq_imp_length_eq)
  with words_bind_text [OF w(1)] w(3) assms(4,5) show ?thesis by blast
qed


subsection \<open>A sale\<close>

lemma settlementModeText_inject [simp]: "settlementModeText a = settlementModeText b \<longleftrightarrow> a = b"
  by (cases a; cases b) (simp_all add: settlementModeText_def)

lemma rateSourceText_inject [simp]: "rateSourceText a = rateSourceText b \<longleftrightarrow> a = b"
  by (cases a; cases b) (simp_all add: rateSourceText_def)

lemma saleLine_binds:
  assumes "saleLineFields l = Inr x" "saleLineFields l' = Inr y" "map canonField x = map canonField y" shows "l = l'"
proof -
  from assms obtain a b c d a' b' c' d' where f: "uuidField (sn_lineId l) = Inr a" "uuidField (sn_productId l) = Inr b"
    "uuidOrNull (sn_merchantVariantId l) = Inr c" "uuidField (sn_variantId l) = Inr d"
    "uuidField (sn_lineId l') = Inr a'" "uuidField (sn_productId l') = Inr b'"
    "uuidOrNull (sn_merchantVariantId l') = Inr c'" "uuidField (sn_variantId l') = Inr d'"
    and e: "canonField a = canonField a'" "canonField b = canonField b'" "canonField c = canonField c'" "canonField d = canonField d'"
      "sn_qtyQ4 l = sn_qtyQ4 l'" "sn_discountMinor l = sn_discountMinor l'" "sn_unitPriceC10 l = sn_unitPriceC10 l'"
      "sn_netTxnMinor l = sn_netTxnMinor l'" "sn_baseShareMinor l = sn_baseShareMinor l'"
    by (auto simp: saleLineFields_def field_simps)
  show ?thesis
    by (rule SaleCommitPayloadLine.equality)
       (use e uuid_field.binds [OF f(1,5) e(1)] uuid_field.binds [OF f(2,6) e(2)] uuidOrNull_binds [OF f(3,7) e(3)]
          uuid_field.binds [OF f(4,8) e(4)] in simp_all)
qed

lemma lines_bind:
  assumes "mapR f xs = Inr ls" "mapR f ys = Inr ks" "map canonField (concat ls) = map canonField (concat ks)" "length xs = length ys"
    and w: "\<And>x l. f x = Inr l \<Longrightarrow> length l = k"
    and b: "\<And>x y l m. f x = Inr l \<Longrightarrow> f y = Inr m \<Longrightarrow> map canonField l = map canonField m \<Longrightarrow> x = y"
  shows "xs = ys"
  using assms(4,1-3)
proof (induction xs ys arbitrary: ls ks rule: list_induct2)
  case (Cons x xs y ys)
  then obtain l ls' m ks' where l: "f x = Inr l" "f y = Inr m" "ls = l # ls'" "ks = m # ks'" "mapR f xs = Inr ls'" "mapR f ys = Inr ks'"
    by (auto simp: bindR_eq_Inr)
  with w [of x l] w [of y m] Cons.prems(3) have "map canonField l = map canonField m" "map canonField (concat ls') = map canonField (concat ks')"
    by auto
  with l Cons.IH b show ?case by blast
qed simp


lemma saleFields_Inr:
  "saleFields digest i = Inr fs \<Longrightarrow> (\<exists>a c w br inv d due cur rid ws ls.
     uuidField (ss_saleId i) = Inr a \<and> uuidOrNull (ss_customerId i) = Inr c \<and> uuidField (ss_warehouseId i) = Inr w
     \<and> uuidField (ss_branchId i) = Inr br \<and> uuidField (ss_invoiceId i) = Inr inv \<and> dateField (ss_documentDate i) = Inr d
     \<and> dateOrNull (ss_dueDate i) = Inr due \<and> currencyField (ss_currency i) = Inr cur \<and> uuidOrNull (rr_rateId (ss_rate i)) = Inr rid
     \<and> notesWords digest (ss_notes i) = Inr ws \<and> mapR saleLineFields (ss_lines i) = Inr ls
     \<and> fs = [a, F_code (settlementModeText (ss_settlementMode i)), c, w, br, inv, d, due, cur, rid, int_field (rr_rateR10 (ss_rate i)),
             F_code (rateSourceText (rr_source (ss_rate i)))]
          @ map (\<lambda>n. int_field n) [rr_rateAtEpochSeconds (ss_rate i), ss_subtotalTxnMinor i, ss_discountTxnMinor i, ss_taxMinor i,
               ss_totalTxnMinor i, ss_totalBaseMinor i] @ ws @ int_field (int (length (ss_lines i))) # concat ls)"
  unfolding saleFields_def fieldList_append fieldList_map by (auto simp: field_simps)

lemma sale_fields_bind:
  assumes i: "saleFields digest i = Inr fs" and j: "saleFields digest j = Inr gs" and e: "map canonField fs = map canonField gs"
    and t: "ss_tenantId i = ss_tenantId j" "ss_businessId i = ss_businessId j"
    and h: "\<And>x. length (digest x) = 32" "\<not> text_collision digest (ss_notes i) (ss_notes j)"
  shows "i = j"
proof -
  from saleFields_Inr [OF i] obtain a c w br inv d due cur rid ws ls where fi: "uuidField (ss_saleId i) = Inr a" "uuidOrNull (ss_customerId i) = Inr c"
    "uuidField (ss_warehouseId i) = Inr w" "uuidField (ss_branchId i) = Inr br" "uuidField (ss_invoiceId i) = Inr inv"
    "dateField (ss_documentDate i) = Inr d" "dateOrNull (ss_dueDate i) = Inr due" "currencyField (ss_currency i) = Inr cur"
    "uuidOrNull (rr_rateId (ss_rate i)) = Inr rid" "wordFields digest (ss_notes i) 1 SALE_PAYLOAD_TEXT_MAX_notes = Inr ws"
    "mapR saleLineFields (ss_lines i) = Inr ls"
    and fs: "fs = [a, F_code (settlementModeText (ss_settlementMode i)), c, w, br, inv, d, due, cur, rid, int_field (rr_rateR10 (ss_rate i)),
             F_code (rateSourceText (rr_source (ss_rate i)))]
          @ map (\<lambda>n. int_field n) [rr_rateAtEpochSeconds (ss_rate i), ss_subtotalTxnMinor i, ss_discountTxnMinor i, ss_taxMinor i,
               ss_totalTxnMinor i, ss_totalBaseMinor i] @ ws @ int_field (int (length (ss_lines i))) # concat ls"
    unfolding notesWords_def by blast
  from saleFields_Inr [OF j] obtain a' c' w' br' inv' d' due' cur' rid' ws' ls' where fj: "uuidField (ss_saleId j) = Inr a'" "uuidOrNull (ss_customerId j) = Inr c'"
    "uuidField (ss_warehouseId j) = Inr w'" "uuidField (ss_branchId j) = Inr br'" "uuidField (ss_invoiceId j) = Inr inv'"
    "dateField (ss_documentDate j) = Inr d'" "dateOrNull (ss_dueDate j) = Inr due'" "currencyField (ss_currency j) = Inr cur'"
    "uuidOrNull (rr_rateId (ss_rate j)) = Inr rid'" "wordFields digest (ss_notes j) 1 SALE_PAYLOAD_TEXT_MAX_notes = Inr ws'"
    "mapR saleLineFields (ss_lines j) = Inr ls'"
    and gs: "gs = [a', F_code (settlementModeText (ss_settlementMode j)), c', w', br', inv', d', due', cur', rid', int_field (rr_rateR10 (ss_rate j)),
             F_code (rateSourceText (rr_source (ss_rate j)))]
          @ map (\<lambda>n. int_field n) [rr_rateAtEpochSeconds (ss_rate j), ss_subtotalTxnMinor j, ss_discountTxnMinor j, ss_taxMinor j,
               ss_totalTxnMinor j, ss_totalBaseMinor j] @ ws' @ int_field (int (length (ss_lines j))) # concat ls'"
    unfolding notesWords_def by blast
  have "length ws = length ws'" using wordFields_8 [OF fi(10)] wordFields_8 [OF fj(10)] by auto
  with e have eq: "canonField a = canonField a'" "canonField c = canonField c'" "canonField w = canonField w'" "canonField br = canonField br'"
    "canonField inv = canonField inv'" "canonField d = canonField d'" "canonField due = canonField due'" "canonField cur = canonField cur'"
    "canonField rid = canonField rid'" "map canonField ws = map canonField ws'" "map canonField (concat ls) = map canonField (concat ls')"
    and v: "ss_settlementMode i = ss_settlementMode j" "rr_rateR10 (ss_rate i) = rr_rateR10 (ss_rate j)" "rr_source (ss_rate i) = rr_source (ss_rate j)"
    "rr_rateAtEpochSeconds (ss_rate i) = rr_rateAtEpochSeconds (ss_rate j)" "ss_subtotalTxnMinor i = ss_subtotalTxnMinor j"
    "ss_discountTxnMinor i = ss_discountTxnMinor j" "ss_taxMinor i = ss_taxMinor j" "ss_totalTxnMinor i = ss_totalTxnMinor j"
    "ss_totalBaseMinor i = ss_totalBaseMinor j" "length (ss_lines i) = length (ss_lines j)"
    by (simp_all add: fs gs)
  have "ss_lines i = ss_lines j"
    by (rule lines_bind [OF fi(11) fj(11) eq(11) v(10)]) (auto simp: saleLineFields_def field_simps intro: saleLine_binds)
  moreover have "ss_rate i = ss_rate j"
    by (rule ReceiptRate.equality) (use v uuidOrNull_binds [OF fi(9) fj(9) eq(9)] in simp_all)
  ultimately show ?thesis
    using t v uuid_field.binds [OF fi(1) fj(1) eq(1)] uuidOrNull_binds [OF fi(2) fj(2) eq(2)] uuid_field.binds [OF fi(3) fj(3) eq(3)]
      uuid_field.binds [OF fi(4) fj(4) eq(4)] uuid_field.binds [OF fi(5) fj(5) eq(5)] date_field.binds [OF fi(6) fj(6) eq(6)]
      dateOrNull_binds [OF fi(7) fj(7) eq(7)] currency_field.binds [OF fi(8) fj(8) eq(8)] wordFields_bind [OF fi(10) fj(10) eq(10) h]
    by (intro SaleCommitPayloadInput.equality) simp_all
qed


subsection \<open>Samples\<close>

definition sample_digest :: "octets \<Rightarrow> octets" where "sample_digest x = replicate 32 0"

definition sample_adjust :: AdjustPayloadInput where
  "sample_adjust = \<lparr>ai_tenantId = sample_uuid, ai_businessId = sample_uuid, ai_adjustmentId = sample_uuid, ai_warehouseId = sample_uuid,
     ai_occurredOn = ''2024-02-29'', ai_reason = [97, 97, 97],
     ai_lines = [\<lparr>aj_variantId = sample_uuid, aj_qtyDeltaQ4 = -5000, aj_unitCostC10 = None, aj_expectedValue = -7\<rparr>]\<rparr>"

definition sample_damage :: DamagePayloadInput where
  "sample_damage = \<lparr>di_tenantId = sample_uuid, di_businessId = sample_uuid, di_adjustmentId = sample_uuid, di_warehouseId = sample_uuid,
     di_occurredOn = ''2024-02-29'', di_reason = [97, 97, 97],
     di_lines = [\<lparr>dl_variantId = sample_uuid, dl_qtyQ4 = 5000, dl_expectedValue = -7\<rparr>]\<rparr>"

definition sample_finalize :: StocktakeFinalizePayloadInput where
  "sample_finalize = \<lparr>fi_tenantId = sample_uuid, fi_businessId = sample_uuid, fi_stocktakeId = sample_uuid, fi_warehouseId = sample_uuid,
     fi_outcome = Outcome_finalized, fi_occurredOn = Some ''2024-02-29'',
     fi_lines = [\<lparr>fl_variantId = sample_uuid, fl_varianceQ4 = 5000, fl_unitCostC10 = Some 123, fl_expectedValue = 7\<rparr>]\<rparr>"

definition sample_openings :: OpeningPayloadInput where
  "sample_openings = \<lparr>oi_tenantId = sample_uuid, oi_businessId = sample_uuid, oi_openingId = sample_uuid, oi_occurredOn = ''2024-02-29'',
     oi_openingBalanceId = Some sample_uuid, oi_positionMinor = Some 77,
     oi_lines = [\<lparr>ol_warehouseId = sample_uuid, ol_variantId = sample_uuid, ol_qtyQ4 = 50000, ol_unitCostC10 = 123\<rparr>]\<rparr>"

definition sample_sale :: "utf16 option \<Rightarrow> SaleCommitPayloadInput" where
  "sample_sale notes = \<lparr>ss_tenantId = sample_uuid, ss_businessId = sample_uuid, ss_saleId = sample_uuid, ss_settlementMode = Mode_cash,
     ss_customerId = None, ss_warehouseId = sample_uuid, ss_documentDate = ''2024-02-29'', ss_dueDate = None, ss_taxMinor = 0,
     ss_notes = notes,
     ss_lines = [\<lparr>sn_lineId = sample_uuid, sn_productId = sample_uuid, sn_merchantVariantId = None, sn_qtyQ4 = 20000, sn_discountMinor = 10,
       sn_variantId = sample_uuid, sn_unitPriceC10 = 450000000000, sn_netTxnMinor = 80, sn_baseShareMinor = 80\<rparr>],
     ss_branchId = sample_uuid, ss_invoiceId = sample_uuid, ss_currency = ''EUR'',
     ss_rate = \<lparr>rr_rateId = None, rr_rateR10 = 10000000000, rr_source = Rate_base, rr_rateAtEpochSeconds = 1709200000\<rparr>,
     ss_subtotalTxnMinor = 90, ss_discountTxnMinor = 10, ss_totalTxnMinor = 80, ss_totalBaseMinor = 80\<rparr>"

lemma sample_movements_accepted:
  "\<not> isl (openingPayload (\<lambda>s. s) sample_openings)" "\<not> isl (stocktakeFinalizePayload (\<lambda>s. s) sample_finalize)"
  by code_simp+

lemma sample_digest_words: "digest_words (sample_digest x) = replicate 8 0"
  by (simp add: digest_words_def sample_digest_def readUInt32BE_def upt_rec numeral_eq_Suc)

lemma ascii_text: "t = [a] \<or> t = [a, a, a] \<Longrightarrow> a = 97 \<or> a = 98 \<Longrightarrow>
    t \<noteq> [] \<and> 0 \<notin> set t \<and> trim16 t = t \<and> \<not> LONE_SURROGATE t \<and> length (code_points t) = length t"
  by (auto simp: trim16_def strip_def is_js_space_def LONE_SURROGATE_def is_high_def is_low_def)

lemma sample_reason: "reasonEntries sample_digest [97, 97, 97] = Inr (replicate 8 (e_int 0))"
proof -
  have "BTRIM_SPACES [97, 97, 97] = [97, 97, 97]" by (simp add: BTRIM_SPACES_def strip_def)
  moreover have "length (code_points [97, 97, 97]) = 3" "\<not> LONE_SURROGATE [97, 97, 97]" using ascii_text [of "[97, 97, 97]" 97] by simp_all
  ultimately have "assertStorableReason [97, 97, 97] = Inr ()"
    by (auto simp: assertStorableReason_def REASON_MAX_CHARS_def Let_def simp del: code_points.simps)
  then show ?thesis by (simp add: reasonEntries_def reasonWords_def sample_digest_words)
qed

lemma sample_notes:
  assumes "a = 97 \<or> a = 98" shows "notesWords sample_digest (Some [a]) = Inr (replicate 8 (int_field 0))"
proof -
  have "documentTextWords sample_digest (Some [a]) \<lparr>tb_min = 1, tb_max = SALE_PAYLOAD_TEXT_MAX_notes\<rparr> = Inr (replicate 8 (Some 0))"
    unfolding documentTextWords_eq_Inr using ascii_text [of "[a]" a] assms
    by (simp add: SALE_PAYLOAD_TEXT_MAX_notes_def sample_digest_words)
  then show ?thesis by (simp add: notesWords_def wordFields_def intOrNull_def)
qed

lemma sample_adjust_accepted: "\<not> isl (adjustPayload (\<lambda>s. s) sample_digest sample_adjust)"
proof -
  have r: "ai_reason sample_adjust = [97, 97, 97]" by (simp add: sample_adjust_def)
  show ?thesis unfolding adjustPayload_def r sample_reason by code_simp
qed

lemma sample_damage_accepted: "\<not> isl (damagePayload (\<lambda>s. s) sample_digest sample_damage)"
proof -
  have r: "di_reason sample_damage = [97, 97, 97]" by (simp add: sample_damage_def)
  show ?thesis unfolding damagePayload_def r sample_reason by code_simp
qed

lemma sample_sale_accepted:
  assumes "a = 97 \<or> a = 98" shows "\<not> isl (saleCommitPayload (\<lambda>s. s) sample_digest (sample_sale (Some [a])))"
proof -
  have r: "ss_notes (sample_sale (Some [a])) = Some [a]" by (simp add: sample_sale_def)
  show ?thesis unfolding saleCommitPayload_def saleFields_def saleCommitIntentSha256_def saleIntentFields_def r sample_notes [OF assms]
    by code_simp
qed

subsection \<open>Properties\<close>

text \<open>C21: Whatever a builder returns, its payload is an accepted stream of the operation with its digest, and its intent
  digest is the digest of that very stream with the registry's derived lines struck out: the hand-written intent of each of
  the twenty-nine builders agrees with the registry.\<close>

theorem builders_sign_registry_intent:
  assumes "built sha digest op t b p h"
  shows "\<exists>fs s. canonicalInventoryPayload op t b fs = Inr (ip_bytes p) \<and> ip_opCode p = op \<and> ip_sha256 p = sha (ip_bytes p)
    \<and> canonicalInventoryIntent op t b (intentFields op fs) = Inr s \<and> h = sha s"
  using built_coherent [OF assms] by (auto simp: buildPayload_eq_Inr inventoryIntentSha256_def bindR_eq_Inr)

definition sample_cancel_input :: PurchaseCancelPayloadInput where
  "sample_cancel_input = \<lparr>pc_tenantId = sample_uuid, pc_businessId = sample_uuid, pc_purchaseId = sample_uuid,
     pc_warehouseId = sample_uuid, pc_draftRevision = Finite 3\<rparr>"

definition sample_cancelled :: MovementPayload where
  "sample_cancelled = projr (purchaseCancelPayload (\<lambda>s. s) sample_cancel_input)"

lemma sample_cancel_built: "purchaseCancelPayload (\<lambda>s. s) sample_cancel_input = Inr sample_cancelled"
proof -
  have "\<not> isl (purchaseCancelPayload (\<lambda>s. s) sample_cancel_input)" by code_simp
  then show ?thesis by (simp add: sample_cancelled_def)
qed

theorem builders_sign_registry_intent_witness:
  "\<exists>fs s. canonicalInventoryPayload ''purchase.cancel'' sample_uuid sample_uuid fs = Inr (ip_bytes (mp_payload sample_cancelled))
    \<and> canonicalInventoryIntent ''purchase.cancel'' sample_uuid sample_uuid (intentFields ''purchase.cancel'' fs) = Inr s
    \<and> mp_intentSha256 sample_cancelled = s"
proof -
  have "built (\<lambda>s. s) (\<lambda>x. x) ''purchase.cancel'' sample_uuid sample_uuid (mp_payload sample_cancelled) (mp_intentSha256 sample_cancelled)"
    using built.intros(21) [OF sample_cancel_built, of "\<lambda>x. x"] by (simp add: sample_cancel_input_def)
  from builders_sign_registry_intent [OF this] show ?thesis by blast
qed

text \<open>The two-step protocol of a movement whose lines need a valuation agrees with itself: the digest under which the
  client registers the intent, before any stock state is read, is the intent digest of the payload built afterwards from
  that state.\<close>

theorem intents_before_state:
  "(adjustPayload sha digest a = Inr m \<longrightarrow> adjustIntentSha256 sha digest a = Inr (mp_intentSha256 m))
   \<and> (damagePayload sha digest d = Inr n \<longrightarrow> damageIntentSha256 sha digest d = Inr (mp_intentSha256 n))
   \<and> (stocktakeFinalizePayload sha f = Inr p \<longrightarrow> stocktakeFinalizeIntentSha256 sha f = Inr (mp_intentSha256 p))
   \<and> (openingPayload sha q = Inr r \<longrightarrow> openingIntentSha256 sha q = Inr (mp_intentSha256 r))"
  by (simp add: adjust_intent_early damage_intent_early finalize_intent_early opening_intent_early)

theorem intents_before_state_witness:
  "adjustIntentSha256 (\<lambda>s. s) sample_digest sample_adjust
      = Inr (mp_intentSha256 (projr (adjustPayload (\<lambda>s. s) sample_digest sample_adjust)))
   \<and> damageIntentSha256 (\<lambda>s. s) sample_digest sample_damage
      = Inr (mp_intentSha256 (projr (damagePayload (\<lambda>s. s) sample_digest sample_damage)))
   \<and> stocktakeFinalizeIntentSha256 (\<lambda>s. s) sample_finalize
      = Inr (mp_intentSha256 (projr (stocktakeFinalizePayload (\<lambda>s. s) sample_finalize)))
   \<and> openingIntentSha256 (\<lambda>s. s) sample_openings
      = Inr (mp_intentSha256 (projr (openingPayload (\<lambda>s. s) sample_openings)))"
proof -
  have acc: "r = Inr (projr r)" if "\<not> isl r" for r :: "MovementPayload result" using that by simp
  note i = intents_before_state [of "\<lambda>s. s" sample_digest sample_adjust _ sample_damage _ sample_finalize _ sample_openings]
  show ?thesis
    using i acc [OF sample_adjust_accepted] acc [OF sample_damage_accepted]
      acc [OF sample_movements_accepted(2)] acc [OF sample_movements_accepted(1)] by blast
qed

text \<open>C22: A replay is the same request: when two accepted commands carry the same intent digest, either their two intent
  streams are a collision of the digest, or the commands are of the same operation, tenant and business and state the same
  fields, whatever the server derived for each.\<close>

theorem replay_states_same:
  assumes "built sha digest op t b p h" "built sha digest op' t' b' q h"
  shows "\<exists>fs gs x y. canonicalInventoryPayload op t b fs = Inr (ip_bytes p) \<and> canonicalInventoryPayload op' t' b' gs = Inr (ip_bytes q)
    \<and> canonicalInventoryIntent op t b (intentFields op fs) = Inr x \<and> canonicalInventoryIntent op' t' b' (intentFields op' gs) = Inr y
    \<and> sha x = h \<and> sha y = h
    \<and> (x = y \<longleftrightarrow> op = op' \<and> t = t' \<and> b = b' \<and> map canonField (intentFields op fs) = map canonField (intentFields op' gs))"
proof -
  from built_coherent [OF assms(1)] obtain fs x where f: "canonicalInventoryPayload op t b fs = Inr (ip_bytes p)"
    "canonicalInventoryIntent op t b (intentFields op fs) = Inr x" "sha x = h"
    by (auto simp: buildPayload_eq_Inr inventoryIntentSha256_def bindR_eq_Inr)
  from built_coherent [OF assms(2)] obtain gs y where g: "canonicalInventoryPayload op' t' b' gs = Inr (ip_bytes q)"
    "canonicalInventoryIntent op' t' b' (intentFields op' gs) = Inr y" "sha y = h"
    by (auto simp: buildPayload_eq_Inr inventoryIntentSha256_def bindR_eq_Inr)
  have "Inr x = (Inr y :: string result)
      \<longleftrightarrow> op = op' \<and> t = t' \<and> b = b' \<and> map canonField (intentFields op fs) = map canonField (intentFields op' gs)"
    using conjunct2 [OF intent_streams_agree [OF f(1) g(1)]] unfolding f(2) g(2) .
  then have "x = y \<longleftrightarrow> op = op' \<and> t = t' \<and> b = b' \<and> map canonField (intentFields op fs) = map canonField (intentFields op' gs)"
    by simp
  with f g show ?thesis by blast
qed

theorem replay_states_same_witness:
  "\<exists>fs gs x y. canonicalInventoryPayload ''purchase.cancel'' sample_uuid sample_uuid fs = Inr (ip_bytes (mp_payload sample_cancelled))
    \<and> canonicalInventoryPayload ''purchase.cancel'' sample_uuid sample_uuid gs = Inr (ip_bytes (mp_payload sample_cancelled))
    \<and> x = mp_intentSha256 sample_cancelled \<and> x = y
    \<and> map canonField (intentFields ''purchase.cancel'' fs) = map canonField (intentFields ''purchase.cancel'' gs)"
proof -
  have "built (\<lambda>s. s) (\<lambda>x. x) ''purchase.cancel'' sample_uuid sample_uuid (mp_payload sample_cancelled) (mp_intentSha256 sample_cancelled)"
    using built.intros(21) [OF sample_cancel_built, of "\<lambda>x. x"] by (simp add: sample_cancel_input_def)
  from replay_states_same [OF this this] show ?thesis by metis
qed

text \<open>C23: The signed bytes of a sale determine the sale: two accepted sale payloads with the same bytes are of the same
  input in every field and every line, unless their two notes collide under the text digest.\<close>

theorem sale_payload_binds:
  assumes "saleCommitPayload sha digest i = Inr m" "saleCommitPayload sha digest j = Inr n"
    "ip_bytes (mp_payload m) = ip_bytes (mp_payload n)" "\<And>x. length (digest x) = 32"
  shows "i = j \<or> text_collision digest (ss_notes i) (ss_notes j)"
proof -
  from assms(1,2) obtain fs gs where f: "saleFields digest i = Inr fs"
    "canonicalInventoryPayload ''sale.commit'' (ss_tenantId i) (ss_businessId i) fs = Inr (ip_bytes (mp_payload m))"
    and g: "saleFields digest j = Inr gs"
    "canonicalInventoryPayload ''sale.commit'' (ss_tenantId j) (ss_businessId j) gs = Inr (ip_bytes (mp_payload n))"
    by (auto simp: saleCommitPayload_def bindR_eq_Inr buildPayload_eq_Inr)
  have "''sale.commit'' = ''sale.commit'' \<and> ss_tenantId i = ss_tenantId j \<and> ss_businessId i = ss_businessId j
    \<and> map canonField fs = map canonField gs"
    by (rule streams_determine [OF disjI1]) (use f(2) g(2) assms(3) in simp)
  with sale_fields_bind [OF f(1) g(1)] assms(4) show ?thesis by blast
qed

theorem sale_payload_binds_witness: "text_collision sample_digest (Some [97]) (Some [98])"
proof -
  let ?sale = "\<lambda>a. sample_sale (Some [a])"
  let ?built = "\<lambda>a. saleCommitPayload (\<lambda>s. s) sample_digest (?sale a)"
  have "?built 97 = Inr (projr (?built 97))" "?built 98 = Inr (projr (?built 98))"
    using sample_sale_accepted [of 97] sample_sale_accepted [of 98] by simp_all
  moreover have "mp_payload (projr (?built 97)) = mp_payload (projr (?built 98))"
  proof -
    have "?built a = ?built 97" if "a = 98" for a
    proof -
      have r: "ss_notes (?sale c) = Some [c]" for c by (simp add: sample_sale_def)
      have n: "notesWords sample_digest (Some [97]) = notesWords sample_digest (Some [a])"
        using that by (simp add: sample_notes)
      show ?thesis
        unfolding saleCommitPayload_def saleFields_def saleCommitIntentSha256_def saleIntentFields_def r n
        by (simp add: sample_sale_def checkSaleTotals_def checkSaleLines_def)
    qed
    from this [of 98] show ?thesis by simp
  qed
  moreover have "length (sample_digest x) = 32" for x by (simp add: sample_digest_def)
  ultimately have "?sale 97 = ?sale 98 \<or> text_collision sample_digest (ss_notes (?sale 97)) (ss_notes (?sale 98))"
    using sale_payload_binds by metis
  then show ?thesis by (simp add: sample_sale_def)
qed

end
