(* ===== verification/Report_Cursors.thy ===== *)
theory Report_Cursors
  imports Fingerprint
begin

text \<open>
  The cursors of packages/accounting/src/reports.ts: a keyset position of the ledger or of the
  entry list, sent to the client as a version, a dot and the base64url text of its fields.

  \<open>Buffer\<close>'s base64url codec is written out: three bytes are four characters of six bits, a
  remainder of one or two bytes is two or three characters without padding, and the decoder
  ignores the bits, or the single character, a remainder leaves over. A cursor's text is ASCII, so
  a byte is a character; text that decodes to a byte above 127 is no cursor field and is refused.
\<close>

subsection \<open>base64url\<close>

definition b64_char :: "nat \<Rightarrow> char" where
  "b64_char n = (if n < 26 then char_of (65 + n) else if n < 52 then char_of (71 + n) else if n < 62 then char_of (n - 4)
     else if n = 62 then CHR ''-'' else CHR ''_'')"

definition b64_value :: "char \<Rightarrow> nat" where
  "b64_value c = (if is_upper c then of_char c - 65 else if is_lower c then of_char c - 71 else if is_digit c then of_char c + 4
     else if c = CHR ''-'' then 62 else 63)"

fun base64url :: "string \<Rightarrow> string" where
  "base64url [] = []"
| "base64url [a] = [b64_char (of_char a div 4), b64_char (of_char a mod 4 * 16)]"
| "base64url [a, b] = [b64_char (of_char a div 4), b64_char (of_char a mod 4 * 16 + of_char b div 16), b64_char (of_char b mod 16 * 4)]"
| "base64url (a # b # c # s) = [b64_char (of_char a div 4), b64_char (of_char a mod 4 * 16 + of_char b div 16),
     b64_char (of_char b mod 16 * 4 + of_char c div 64), b64_char (of_char c mod 64)] @ base64url s"

fun base64url_decode :: "string \<Rightarrow> string" where
  "base64url_decode [] = []"
| "base64url_decode [p] = []"
| "base64url_decode [p, q] = [char_of (b64_value p * 4 + b64_value q div 16)]"
| "base64url_decode [p, q, r] = [char_of (b64_value p * 4 + b64_value q div 16), char_of (b64_value q mod 16 * 16 + b64_value r div 4)]"
| "base64url_decode (p # q # r # s # t) = [char_of (b64_value p * 4 + b64_value q div 16),
     char_of (b64_value q mod 16 * 16 + b64_value r div 4), char_of (b64_value r mod 4 * 64 + b64_value s)] @ base64url_decode t"

text \<open>\<open>/^[A-Za-z0-9_-]+$/\<close>\<close>

definition base64url_char :: "char \<Rightarrow> bool" where
  "base64url_char c \<longleftrightarrow> is_upper c \<or> is_lower c \<or> is_digit c \<or> c = CHR ''_'' \<or> c = CHR ''-''"

definition ascii :: "char \<Rightarrow> bool" where "ascii c \<longleftrightarrow> (of_char c :: nat) < 128"

subsection \<open>Cursors\<close>

definition LEDGER_CURSOR_VERSION :: string where "LEDGER_CURSOR_VERSION = ''glc/1''"
definition ENTRY_CURSOR_VERSION :: string where "ENTRY_CURSOR_VERSION = ''gec/1''"

record EntryCursor =
  cu_entryDate :: string
  cu_entryId :: string

record LedgerCursor = EntryCursor +
  cu_lineNo :: int

definition CIVIL_DATE :: "string \<Rightarrow> bool" where "CIVIL_DATE v \<longleftrightarrow> date_parts v \<noteq> None"

text \<open>\<open>/^[1-9]\d{0,8}$/\<close>\<close>

definition LINE_NO_RE :: "string \<Rightarrow> bool" where
  "LINE_NO_RE v \<longleftrightarrow> v \<noteq> [] \<and> length v \<le> 9 \<and> list_all is_digit v \<and> hd v \<noteq> CHR ''0''"

definition cursorRefusal :: "'a result" where
  "cursorRefusal = refuse (AccountingError accounting_report_cursor_invalid)"

definition startsWith :: "string \<Rightarrow> string \<Rightarrow> bool" where
  "startsWith raw prefix \<longleftrightarrow> take (length prefix) raw = prefix"

definition splitCursor :: "string \<Rightarrow> string \<Rightarrow> string list result" where
  "splitCursor raw version =
     (let prefix = version @ ''.''; payload = drop (length prefix) raw; decoded = base64url_decode payload
      in if length raw = 0 \<or> 512 < length raw then cursorRefusal
         else if \<not> startsWith raw prefix then cursorRefusal
         else if payload = [] \<or> \<not> list_all base64url_char payload then cursorRefusal
         else if \<not> list_all ascii decoded then cursorRefusal
         else if 256 < length decoded then cursorRefusal
         else Inr (splitOn (CHR ''|'') decoded))"

definition encodeLedgerCursor :: "LedgerCursor \<Rightarrow> string" where
  "encodeLedgerCursor c = LEDGER_CURSOR_VERSION @ ''.''
     @ base64url (cu_entryDate c @ ''|'' @ cu_entryId c @ ''|'' @ int_string (cu_lineNo c))"

definition decodeLedgerCursor :: "string \<Rightarrow> LedgerCursor result" where
  "decodeLedgerCursor raw = bindR (splitCursor raw LEDGER_CURSOR_VERSION) (\<lambda>parts. case parts of
       [entryDate, entryId, lineNoText] \<Rightarrow>
         if \<not> CIVIL_DATE entryDate \<or> \<not> is_uuid entryId \<or> \<not> LINE_NO_RE lineNoText then cursorRefusal
         else Inr \<lparr>cu_entryDate = entryDate, cu_entryId = entryId, cu_lineNo = digits_int lineNoText\<rparr>
     | _ \<Rightarrow> cursorRefusal)"

definition encodeEntryCursor :: "EntryCursor \<Rightarrow> string" where
  "encodeEntryCursor c = ENTRY_CURSOR_VERSION @ ''.'' @ base64url (cu_entryDate c @ ''|'' @ cu_entryId c)"

definition decodeEntryCursor :: "string \<Rightarrow> EntryCursor result" where
  "decodeEntryCursor raw = bindR (splitCursor raw ENTRY_CURSOR_VERSION) (\<lambda>parts. case parts of
       [entryDate, entryId] \<Rightarrow>
         if \<not> CIVIL_DATE entryDate \<or> \<not> is_uuid entryId then cursorRefusal
         else Inr \<lparr>cu_entryDate = entryDate, cu_entryId = entryId\<rparr>
     | _ \<Rightarrow> cursorRefusal)"

subsection \<open>The codec\<close>

lemma b64_char_value [simp]: "n < 64 \<Longrightarrow> b64_value (b64_char n) = n"
  by (auto simp: b64_char_def b64_value_def is_upper_def is_lower_def is_digit_def)

lemma b64_char_legal [simp]: "n < 64 \<Longrightarrow> base64url_char (b64_char n)"
  by (auto simp: b64_char_def base64url_char_def is_upper_def is_lower_def is_digit_def)

lemma byte_bound [simp]: "(of_char (a :: char) :: nat) < 256"
proof -
  have "(of_char a :: nat) \<in> {0..<256}" using range_nat_of_char by blast
  then show ?thesis by simp
qed

lemma byte_parts [simp]:
  "(of_char (a :: char) :: nat) div 4 < 64" "(of_char (b :: char) :: nat) div 16 < 16" "(of_char (c :: char) :: nat) div 64 < 4"
  using byte_bound [of a] byte_bound [of b] byte_bound [of c] by (simp_all del: byte_bound add: div_less_iff_less_mult)

lemma sextet_bounds [simp]:
  "y < 16 \<Longrightarrow> x mod 4 * 16 + y < (64 :: nat)" "y < 4 \<Longrightarrow> x mod 16 * 4 + y < (64 :: nat)" "x mod 4 * 16 < (64 :: nat)" "x mod 16 * 4 < (64 :: nat)"
  using mod_less_divisor [of 4 x] mod_less_divisor [of 16 x] by linarith+

lemma base64url_roundtrip [simp]: "base64url_decode (base64url s) = s"
  by (induction s rule: base64url.induct) (simp_all add: div_mult_mod_eq)

lemma base64url_legal: "list_all base64url_char (base64url s)"
  by (induction s rule: base64url.induct) simp_all

lemma base64url_length: "length (base64url s) \<le> 2 * length s"
  by (induction s rule: base64url.induct) simp_all

lemma base64url_nonempty: "s \<noteq> [] \<Longrightarrow> base64url s \<noteq> []"
  by (cases s rule: base64url.cases) simp_all

subsection \<open>Cursors come back\<close>

definition ledger_cursor_ok :: "LedgerCursor \<Rightarrow> bool" where
  "ledger_cursor_ok c \<longleftrightarrow> CIVIL_DATE (cu_entryDate c) \<and> is_uuid (cu_entryId c) \<and> 1 \<le> cu_lineNo c \<and> cu_lineNo c < 10 ^ 9"

definition entry_cursor_ok :: "EntryCursor \<Rightarrow> bool" where
  "entry_cursor_ok c \<longleftrightarrow> CIVIL_DATE (cu_entryDate c) \<and> is_uuid (cu_entryId c)"

definition cursor_text :: "string \<Rightarrow> bool" where
  "cursor_text t \<longleftrightarrow> CHR ''|'' \<notin> set t \<and> list_all ascii t"

lemma cursor_digits: "list_all is_digit t \<Longrightarrow> cursor_text t"
  by (auto simp: cursor_text_def list_all_iff is_digit_def ascii_def)

lemma cursor_date: "CIVIL_DATE d \<Longrightarrow> cursor_text d \<and> length d = 10"
proof -
  assume "CIVIL_DATE d"
  then obtain p where p: "date_parts d = Some p" by (auto simp: CIVIL_DATE_def)
  then have "cursor_text (take 4 d)" "cursor_text (take 2 (drop 5 d))" "cursor_text (drop 8 d)" "length d = 10"
    by (auto simp: date_parts_def cursor_digits split: if_splits)
  moreover from this have "cursor_text (take 4 d @ CHR ''-'' # take 2 (drop 5 d) @ CHR ''-'' # drop 8 d)"
    by (simp add: cursor_text_def ascii_def)
  ultimately show ?thesis using date_parts_split [OF p] by simp
qed

lemma cursor_uuid: "is_uuid u \<Longrightarrow> cursor_text u \<and> length u = 36"
proof -
  assume u: "is_uuid u"
  then have "length (map uuid_class u) = 36" unfolding is_uuid_def by (simp only:) simp
  moreover have "cursor_text u"
    using uuid_chars [OF u] by (fastforce simp: cursor_text_def list_all_iff is_hex_def is_digit_def ascii_def)
  ultimately show ?thesis by simp
qed

lemma nat_string_length_le: "n < 10 ^ Suc k \<Longrightarrow> length (nat_string n) \<le> Suc k"
proof (induction k arbitrary: n)
  case 0
  then show ?case by (subst nat_string.simps) simp
next
  case (Suc k)
  show ?case
  proof (cases "n < 10")
    case True
    then show ?thesis by (subst nat_string.simps) simp
  next
    case False
    have "n div 10 < 10 ^ Suc k" using Suc.prems by (simp add: div_less_iff_less_mult)
    with Suc.IH have "length (nat_string (n div 10)) \<le> Suc k" by blast
    with False show ?thesis by (subst nat_string.simps) simp
  qed
qed

lemma LINE_NO_bounds: "LINE_NO_RE t \<Longrightarrow> 1 \<le> digits_int t \<and> digits_int t < 10 ^ 9"
proof -
  assume re: "LINE_NO_RE t"
  have lt: "digits_int s < 10 ^ length s" if "list_all is_digit s" for s
    using that by (induction s rule: rev_induct) (auto simp: digits_int_append digit_val_def is_digit_def)
  from re obtain c s where t: "t = c # s" "list_all is_digit s" "is_digit c" "c \<noteq> CHR ''0''" "length t \<le> 9"
    by (cases t) (auto simp: LINE_NO_RE_def)
  have "digits_int t = digit_val c * 10 ^ length s + digits_int s"
    using digits_int_concat [of "[c]" s] digits_int_append [of "[]" c] by (simp add: t)
  moreover have "1 \<le> digit_val c"
  proof -
    have "(of_char c :: nat) \<noteq> of_char (CHR ''0'')" using t(4) of_char_eq_iff by blast
    with t(3) show ?thesis by (simp add: digit_val_def is_digit_def)
  qed
  then have "1 * 1 \<le> digit_val c * 10 ^ length s" by (intro mult_mono) auto
  moreover have "0 \<le> digits_int s" using digits_int_nonneg [OF t(2)] .
  moreover have "digits_int t < 10 ^ 9"
  proof -
    have "digits_int t < 10 ^ length t" using lt [of t] t(1-3) by simp
    also have "\<dots> \<le> 10 ^ 9" using t(5) by (intro power_increasing) auto
    finally show ?thesis .
  qed
  ultimately show ?thesis by simp
qed

lemma line_no_text: "1 \<le> n \<Longrightarrow> n < 10 ^ 9 \<Longrightarrow> LINE_NO_RE (int_string n) \<and> digits_int (int_string n) = n"
  using nat_string_length_le [of "nat n" 8] hd_nat_string [of "nat n"]
  by (simp add: LINE_NO_RE_def int_string_def nat_string_digits)

lemma splitCursor_encoded:
  assumes "list_all ascii t" "t \<noteq> []" "length t \<le> 200" "length version = 5"
  shows "splitCursor (version @ ''.'' @ base64url t) version = Inr (splitOn (CHR ''|'') t)"
  using assms base64url_length [of t] base64url_legal [of t] base64url_nonempty [of t]
  by (simp add: splitCursor_def startsWith_def Let_def)

lemma decodeLedgerCursor_ok: "decodeLedgerCursor raw = Inr c \<Longrightarrow> ledger_cursor_ok c"
  unfolding decodeLedgerCursor_def bindR_eq_Inr
  by (elim exE conjE) (auto simp: cursorRefusal_def ledger_cursor_ok_def dest: LINE_NO_bounds split: list.split_asm if_split_asm)

lemma decodeEntryCursor_ok: "decodeEntryCursor raw = Inr c \<Longrightarrow> entry_cursor_ok c"
  unfolding decodeEntryCursor_def bindR_eq_Inr
  by (elim exE conjE) (auto simp: cursorRefusal_def entry_cursor_ok_def split: list.split_asm if_split_asm)

lemma ledgerCursor_back: "ledger_cursor_ok c \<Longrightarrow> decodeLedgerCursor (encodeLedgerCursor c) = Inr c"
proof -
  assume ok: "ledger_cursor_ok c"
  note d = cursor_date [of "cu_entryDate c"] and u = cursor_uuid [of "cu_entryId c"] and n = line_no_text [of "cu_lineNo c"]
  from ok d u n have t: "cursor_text (cu_entryDate c)" "length (cu_entryDate c) = 10" "cursor_text (cu_entryId c)" "length (cu_entryId c) = 36"
    "LINE_NO_RE (int_string (cu_lineNo c))" "digits_int (int_string (cu_lineNo c)) = cu_lineNo c"
    by (simp_all add: ledger_cursor_ok_def)
  then have "cursor_text (int_string (cu_lineNo c))" "length (int_string (cu_lineNo c)) \<le> 9"
    by (auto simp: LINE_NO_RE_def intro: cursor_digits)
  with t have "splitCursor (encodeLedgerCursor c) LEDGER_CURSOR_VERSION
      = Inr [cu_entryDate c, cu_entryId c, int_string (cu_lineNo c)]"
    unfolding encodeLedgerCursor_def
    by (subst splitCursor_encoded) (auto simp: cursor_text_def ascii_def LEDGER_CURSOR_VERSION_def splitOn_cut splitOn_solid)
  with t ok show ?thesis by (simp add: decodeLedgerCursor_def ledger_cursor_ok_def)
qed

lemma entryCursor_back: "entry_cursor_ok c \<Longrightarrow> decodeEntryCursor (encodeEntryCursor c) = Inr c"
proof -
  assume ok: "entry_cursor_ok c"
  with cursor_date [of "cu_entryDate c"] cursor_uuid [of "cu_entryId c"]
  have t: "cursor_text (cu_entryDate c)" "length (cu_entryDate c) = 10" "cursor_text (cu_entryId c)" "length (cu_entryId c) = 36"
    by (simp_all add: entry_cursor_ok_def)
  then have "splitCursor (encodeEntryCursor c) ENTRY_CURSOR_VERSION = Inr [cu_entryDate c, cu_entryId c]"
    unfolding encodeEntryCursor_def
    by (subst splitCursor_encoded) (auto simp: cursor_text_def ascii_def ENTRY_CURSOR_VERSION_def splitOn_cut splitOn_solid)
  with ok show ?thesis by (simp add: decodeEntryCursor_def entry_cursor_ok_def)
qed

lemma splitCursor_version: "splitCursor raw version = Inr parts \<Longrightarrow> take (Suc (length version)) raw = version @ ''.''"
  by (auto simp: splitCursor_def startsWith_def cursorRefusal_def Let_def split: if_split_asm)

lemma cursor_versions_differ:
  assumes "decodeLedgerCursor raw = Inr c" shows "\<exists>e. decodeEntryCursor raw = Inl e"
proof (cases "decodeEntryCursor raw")
  case (Inr e)
  from assms obtain ps where "splitCursor raw LEDGER_CURSOR_VERSION = Inr ps" by (auto simp: decodeLedgerCursor_def bindR_eq_Inr)
  moreover from Inr obtain qs where "splitCursor raw ENTRY_CURSOR_VERSION = Inr qs" by (auto simp: decodeEntryCursor_def bindR_eq_Inr)
  ultimately show ?thesis
    using splitCursor_version [of raw LEDGER_CURSOR_VERSION] splitCursor_version [of raw ENTRY_CURSOR_VERSION]
    by (simp add: LEDGER_CURSOR_VERSION_def ENTRY_CURSOR_VERSION_def)
qed simp

text \<open>A cursor the server issues for a stored position is the position it comes back as, whatever text arrives is
  refused or decodes to a position of the ordering's own form, and a ledger cursor is never taken for an entry cursor.\<close>

theorem cursors_roundtrip:
  "(decodeLedgerCursor (encodeLedgerCursor c) = Inr c \<longleftrightarrow> ledger_cursor_ok c)
   \<and> (decodeEntryCursor (encodeEntryCursor e) = Inr e \<longleftrightarrow> entry_cursor_ok e)
   \<and> (decodeLedgerCursor raw = Inr d \<longrightarrow> ledger_cursor_ok d \<and> (\<exists>r. decodeEntryCursor raw = Inl r))"
  using ledgerCursor_back decodeLedgerCursor_ok entryCursor_back decodeEntryCursor_ok cursor_versions_differ by blast

definition sample_cursor :: LedgerCursor where
  "sample_cursor = \<lparr>cu_entryDate = ''2024-02-29'', cu_entryId = ''0b000000-0000-4000-8000-000000000002'', cu_lineNo = 120\<rparr>"

theorem cursors_roundtrip_witness:
  "ledger_cursor_ok sample_cursor \<and> (\<exists>r. decodeEntryCursor (encodeLedgerCursor sample_cursor) = Inl r)"
proof -
  have "ledger_cursor_ok sample_cursor" by code_simp
  with cursors_roundtrip [of sample_cursor _ "encodeLedgerCursor sample_cursor" sample_cursor] show ?thesis by blast
qed

end
