(* ===== verification/Reports.thy ===== *)
theory Reports
  imports Report_Cursors Posting "HOL-Library.Product_Lexorder"
begin

text \<open>
  packages/accounting/src/reports.ts: the trial balance, the ledger of an account page by page,
  the account balances and the entry list, computed from the totals and rows a read port returns
  as exact decimal text. The port is the record \<open>AccountingReportReader\<close>; what the ledger relies on
  it for is the locale \<open>ledger_reader\<close>, whose lemmas show that following the cursors visits every
  posting once, in order, and ends.
\<close>

subsection \<open>Accounts and amounts\<close>

datatype AccountType = Type_asset | Type_liability | Type_equity | Type_revenue | Type_expense

datatype NormalBalance = Normal_debit | Normal_credit

definition normalBalanceOf :: "AccountType \<Rightarrow> NormalBalance" where
  "normalBalanceOf t = (if t = Type_asset \<or> t = Type_expense then Normal_debit else Normal_credit)"

definition presentationNet :: "AccountType \<Rightarrow> int \<Rightarrow> int \<Rightarrow> int" where
  "presentationNet t debitMinor creditMinor =
     (if normalBalanceOf t = Normal_debit then debitMinor - creditMinor else creditMinor - debitMinor)"

text \<open>\<open>/^-?\d+$/\<close> and \<open>BigInt\<close>.\<close>

definition exactMinor :: "string \<Rightarrow> int result" where
  "exactMinor value = (case signed_digits value of
       None \<Rightarrow> refuse (AccountingError accounting_report_amount_invalid)
     | Some n \<Rightarrow> Inr n)"

subsection \<open>Queries and rows\<close>

record ReportScope =
  rs_tenantId :: string
  rs_businessId :: string

datatype ReportBranchScope = Mode_all "string option" | Mode_assigned "string list"

definition isWholeBusinessScope :: "ReportBranchScope \<Rightarrow> bool" where
  "isWholeBusinessScope scope \<longleftrightarrow> scope = Mode_all None"

datatype TrialBalanceRange = As_of string | Date_range string string

record TrialBalanceQuery =
  tq_range :: TrialBalanceRange
  tq_branch :: ReportBranchScope
  tq_includeZeroActivity :: "bool option"

record AccountSummary =
  as_accountId :: string
  as_code :: string
  as_name :: string
  as_type :: AccountType
  as_systemKey :: "string option"
  as_isActive :: bool

record AccountListQuery =
  aq_type :: "AccountType option"
  aq_includeInactive :: "bool option"

record EntrySummary =
  es_entryId :: string
  es_entryDate :: string
  es_sourceType :: string
  es_sourceId :: string
  es_description :: "string option"
  es_createdAt :: instant
  es_lineCount :: int

record EntryListQuery =
  eq_from :: "string option"
  eq_to :: "string option"
  eq_sourceType :: "string option"
  eq_branch :: ReportBranchScope
  eq_limit :: JsNumber
  eq_cursor :: "EntryCursor option"

record EntryDetailLine =
  el_lineNo :: int
  el_accountId :: string
  el_code :: string
  el_name :: string
  el_type :: AccountType
  el_account :: AccountRef
  el_side :: Side
  el_debitMinor :: int
  el_creditMinor :: int
  el_baseAmountMinor :: int
  el_baseCurrency :: string
  el_txnAmountMinor :: int
  el_txnCurrency :: string
  el_fxRate :: string
  el_fxRateSource :: string
  el_fxRateAt :: instant
  el_branchId :: "string option"
  el_warehouseId :: "string option"
  el_memo :: "string option"

record EntryDetail =
  ed_entryId :: string
  ed_entryDate :: string
  ed_sourceType :: string
  ed_sourceId :: string
  ed_description :: "string option"
  ed_actorKind :: string
  ed_actorUserId :: "string option"
  ed_actorSystemKey :: "string option"
  ed_createdAt :: instant
  ed_lines :: "EntryDetailLine list"

record LedgerQuery =
  lq_accountId :: string
  lq_from :: string
  lq_to :: string
  lq_branch :: ReportBranchScope
  lq_limit :: JsNumber
  lq_cursor :: "LedgerCursor option"

record RawTotals =
  rt_debit :: string
  rt_credit :: string

record RawAccountTotals = RawTotals +
  rt_accountId :: string
  rt_code :: string
  rt_name :: string
  rt_type :: AccountType
  rt_isActive :: bool

record RawLedgerRow =
  rw_entryId :: string
  rw_entryDate :: string
  rw_lineNo :: int
  rw_sourceType :: string
  rw_sourceId :: string
  rw_description :: "string option"
  rw_debit :: string
  rw_credit :: string
  rw_baseAmountMinor :: string
  rw_baseCurrency :: string
  rw_txnAmountMinor :: string
  rw_txnCurrency :: string
  rw_fxRate :: string
  rw_fxRateSource :: string
  rw_fxRateAt :: instant
  rw_branchId :: "string option"
  rw_warehouseId :: "string option"
  rw_memo :: "string option"

record BalancesQuery =
  bq_asOf :: string
  bq_accountIds :: "string list option"
  bq_branch :: ReportBranchScope
  bq_includeZeroActivity :: "bool option"

text \<open>The read port. A read that fails raises and ends the report; its failures are not modelled.\<close>

record AccountingReportReader =
  rp_baseCurrency :: "ReportScope \<Rightarrow> string option"
  rp_listAccounts :: "ReportScope \<Rightarrow> AccountListQuery \<Rightarrow> AccountSummary list"
  rp_findAccount :: "ReportScope \<Rightarrow> string \<Rightarrow> AccountSummary option"
  rp_trialBalanceTotals :: "ReportScope \<Rightarrow> TrialBalanceQuery \<Rightarrow> RawAccountTotals list"
  rp_balanceTotals :: "ReportScope \<Rightarrow> BalancesQuery \<Rightarrow> RawAccountTotals list"
  rp_ledgerOpening :: "ReportScope \<Rightarrow> LedgerQuery \<Rightarrow> RawTotals"
  rp_ledgerPage :: "ReportScope \<Rightarrow> LedgerQuery \<Rightarrow> RawLedgerRow list"
  rp_listEntries :: "ReportScope \<Rightarrow> EntryListQuery \<Rightarrow> EntrySummary list"
  rp_readEntryDetail :: "ReportScope \<Rightarrow> string \<Rightarrow> EntryDetail option"
  rp_entryBranchDimensions :: "ReportScope \<Rightarrow> string \<Rightarrow> string option list"

subsection \<open>Pages\<close>

definition MAX_PAGE_SIZE :: int where "MAX_PAGE_SIZE = 200"
definition DEFAULT_PAGE_SIZE :: int where "DEFAULT_PAGE_SIZE = 50"

definition boundPage :: "JsNumber \<Rightarrow> int" where
  "boundPage limit = (case limit of
       NonFinite \<Rightarrow> DEFAULT_PAGE_SIZE
     | Finite r \<Rightarrow> if r \<noteq> of_int \<lfloor>r\<rfloor> \<or> r < 1 then DEFAULT_PAGE_SIZE else min \<lfloor>r\<rfloor> MAX_PAGE_SIZE)"

definition requireBaseCurrency :: "AccountingReportReader \<Rightarrow> ReportScope \<Rightarrow> string result" where
  "requireBaseCurrency reader scope = (case rp_baseCurrency reader scope of
       None \<Rightarrow> refuse (AccountingError accounting_report_scope_invalid)
     | Some c \<Rightarrow> Inr c)"

definition reports_accounts :: "AccountingReportReader \<Rightarrow> ReportScope \<Rightarrow> AccountListQuery \<Rightarrow> AccountSummary list" where
  "reports_accounts reader scope query =
     rp_listAccounts reader scope (query\<lparr>aq_includeInactive :=
       Some (case aq_includeInactive query of None \<Rightarrow> True | Some b \<Rightarrow> b)\<rparr>)"

definition reports_entries ::
  "AccountingReportReader \<Rightarrow> ReportScope \<Rightarrow> EntryListQuery \<Rightarrow> EntrySummary list \<times> string option" where
  "reports_entries reader scope query =
     (let limit = boundPage (eq_limit query);
          page = rp_listEntries reader scope (query\<lparr>eq_limit := Finite (of_int (limit + 1))\<rparr>);
          items = take (nat limit) page
      in (items, if nat limit < length page \<and> items \<noteq> []
            then Some (encodeEntryCursor \<lparr>cu_entryDate = es_entryDate (last items), cu_entryId = es_entryId (last items)\<rparr>)
            else None))"

definition reports_entry :: "AccountingReportReader \<Rightarrow> ReportScope \<Rightarrow> string \<Rightarrow> EntryDetail option" where
  "reports_entry reader scope entryId = rp_readEntryDetail reader scope entryId"

subsection \<open>The trial balance\<close>

record TrialBalanceRow =
  tr_accountId :: string
  tr_code :: string
  tr_name :: string
  tr_type :: AccountType
  tr_isActive :: bool
  tr_totalDebitMinor :: int
  tr_totalCreditMinor :: int
  tr_netMinor :: int
  tr_baseCurrency :: string

datatype ReportKind = Whole_business | Branch_dimension

record TrialBalanceReport =
  tp_rows :: "TrialBalanceRow list"
  tp_totalDebitMinor :: int
  tp_totalCreditMinor :: int
  tp_baseCurrency :: string
  tp_isBalanced :: bool
  tp_kind :: ReportKind

text \<open>The loop over the raw totals: the row an account gives, if any, and what it adds to the two totals.\<close>

fun trialBalanceRows ::
  "string \<Rightarrow> bool \<Rightarrow> RawAccountTotals list \<Rightarrow> (TrialBalanceRow list \<times> int \<times> int) result" where
  "trialBalanceRows baseCurrency zero [] = Inr ([], 0, 0)"
| "trialBalanceRows baseCurrency zero (r # raw) =
     bindR (exactMinor (rt_debit r)) (\<lambda>debit.
     bindR (exactMinor (rt_credit r)) (\<lambda>credit.
     bindR (trialBalanceRows baseCurrency zero raw) (\<lambda>(rows, totalDebit, totalCredit).
       Inr ((if debit = 0 \<and> credit = 0 \<and> \<not> zero then rows
             else \<lparr>tr_accountId = rt_accountId r, tr_code = rt_code r, tr_name = rt_name r, tr_type = rt_type r,
                    tr_isActive = rt_isActive r, tr_totalDebitMinor = debit, tr_totalCreditMinor = credit,
                    tr_netMinor = presentationNet (rt_type r) debit credit, tr_baseCurrency = baseCurrency\<rparr> # rows),
            debit + totalDebit, credit + totalCredit))))"

definition trialBalance :: "AccountingReportReader \<Rightarrow> ReportScope \<Rightarrow> TrialBalanceQuery \<Rightarrow> TrialBalanceReport result" where
  "trialBalance reader scope query =
     bindR (requireBaseCurrency reader scope) (\<lambda>baseCurrency.
     bindR (trialBalanceRows baseCurrency (tq_includeZeroActivity query = Some True) (rp_trialBalanceTotals reader scope query))
       (\<lambda>(rows, totalDebit, totalCredit).
         let whole = isWholeBusinessScope (tq_branch query); isBalanced = (totalDebit = totalCredit)
         in if whole \<and> \<not> isBalanced then refuse (AccountingError accounting_report_unbalanced)
            else Inr \<lparr>tp_rows = rows, tp_totalDebitMinor = totalDebit, tp_totalCreditMinor = totalCredit,
                      tp_baseCurrency = baseCurrency, tp_isBalanced = isBalanced,
                      tp_kind = (if whole then Whole_business else Branch_dimension)\<rparr>))"

subsection \<open>The ledger of an account\<close>

record LedgerRow =
  lg_entryId :: string
  lg_entryDate :: string
  lg_lineNo :: int
  lg_sourceType :: string
  lg_sourceId :: string
  lg_description :: "string option"
  lg_debitMinor :: int
  lg_creditMinor :: int
  lg_baseAmountMinor :: int
  lg_baseCurrency :: string
  lg_txnAmountMinor :: int
  lg_txnCurrency :: string
  lg_fxRate :: string
  lg_fxRateSource :: string
  lg_fxRateAt :: instant
  lg_branchId :: "string option"
  lg_warehouseId :: "string option"
  lg_memo :: "string option"
  lg_runningMinor :: int

record LedgerReport =
  lp_account :: AccountSummary
  lp_from :: string
  lp_to :: string
  lp_baseCurrency :: string
  lp_openingMinor :: int
  lp_rows :: "LedgerRow list"
  lp_closingMinor :: int
  lp_nextCursor :: "string option"

text \<open>\<open>visible.map(...)\<close> with the running balance it carries, and the balance it ends at.\<close>

fun ledgerRows :: "AccountType \<Rightarrow> int \<Rightarrow> RawLedgerRow list \<Rightarrow> (LedgerRow list \<times> int) result" where
  "ledgerRows t running [] = Inr ([], running)"
| "ledgerRows t running (r # rs) =
     bindR (exactMinor (rw_debit r)) (\<lambda>debit.
     bindR (exactMinor (rw_credit r)) (\<lambda>credit.
     let running' = running + presentationNet t debit credit in
     bindR (exactMinor (rw_baseAmountMinor r)) (\<lambda>base.
     bindR (exactMinor (rw_txnAmountMinor r)) (\<lambda>txn.
     bindR (ledgerRows t running' rs) (\<lambda>(rows, closing).
       Inr (\<lparr>lg_entryId = rw_entryId r, lg_entryDate = rw_entryDate r, lg_lineNo = rw_lineNo r, lg_sourceType = rw_sourceType r,
              lg_sourceId = rw_sourceId r, lg_description = rw_description r, lg_debitMinor = debit, lg_creditMinor = credit,
              lg_baseAmountMinor = base, lg_baseCurrency = rw_baseCurrency r, lg_txnAmountMinor = txn,
              lg_txnCurrency = rw_txnCurrency r, lg_fxRate = rw_fxRate r, lg_fxRateSource = rw_fxRateSource r,
              lg_fxRateAt = rw_fxRateAt r, lg_branchId = rw_branchId r, lg_warehouseId = rw_warehouseId r, lg_memo = rw_memo r,
              lg_runningMinor = running'\<rparr> # rows, closing))))))"

definition ledger :: "AccountingReportReader \<Rightarrow> ReportScope \<Rightarrow> LedgerQuery \<Rightarrow> LedgerReport result" where
  "ledger reader scope query =
     (if lq_to query < lq_from query then refuse (AccountingError accounting_report_range_invalid)
      else bindR (requireBaseCurrency reader scope) (\<lambda>baseCurrency.
      case rp_findAccount reader scope (lq_accountId query) of
        None \<Rightarrow> refuse (AccountingError accounting_account_not_found)
      | Some account \<Rightarrow>
          let limit = boundPage (lq_limit query);
              opening = rp_ledgerOpening reader scope query;
              page = rp_ledgerPage reader scope (query\<lparr>lq_limit := Finite (of_int (limit + 1))\<rparr>)
          in bindR (exactMinor (rt_debit opening)) (\<lambda>openingDebit.
             bindR (exactMinor (rt_credit opening)) (\<lambda>openingCredit.
             let openingMinor = presentationNet (as_type account) openingDebit openingCredit in
             bindR (ledgerRows (as_type account) openingMinor (take (nat limit) page)) (\<lambda>(rows, closing).
               Inr \<lparr>lp_account = account, lp_from = lq_from query, lp_to = lq_to query, lp_baseCurrency = baseCurrency,
                    lp_openingMinor = openingMinor, lp_rows = rows, lp_closingMinor = closing,
                    lp_nextCursor = (if nat limit < length page \<and> rows \<noteq> []
                      then Some (encodeLedgerCursor \<lparr>cu_entryDate = lg_entryDate (last rows), cu_entryId = lg_entryId (last rows),
                                                     cu_lineNo = lg_lineNo (last rows)\<rparr>)
                      else None)\<rparr>)))))"

subsection \<open>Balances\<close>

record AccountBalanceRow =
  ab_accountId :: string
  ab_code :: string
  ab_name :: string
  ab_type :: AccountType
  ab_isActive :: bool
  ab_balanceMinor :: int
  ab_currency :: string
  ab_asOf :: string

fun balanceRows :: "string \<Rightarrow> string \<Rightarrow> bool \<Rightarrow> RawAccountTotals list \<Rightarrow> AccountBalanceRow list result" where
  "balanceRows baseCurrency asOf zero [] = Inr []"
| "balanceRows baseCurrency asOf zero (r # raw) =
     bindR (exactMinor (rt_debit r)) (\<lambda>debit.
     bindR (exactMinor (rt_credit r)) (\<lambda>credit.
     bindR (balanceRows baseCurrency asOf zero raw) (\<lambda>rows.
       Inr (if debit = 0 \<and> credit = 0 \<and> \<not> zero then rows
            else \<lparr>ab_accountId = rt_accountId r, ab_code = rt_code r, ab_name = rt_name r, ab_type = rt_type r,
                   ab_isActive = rt_isActive r, ab_balanceMinor = presentationNet (rt_type r) debit credit,
                   ab_currency = baseCurrency, ab_asOf = asOf\<rparr> # rows))))"

definition balances :: "AccountingReportReader \<Rightarrow> ReportScope \<Rightarrow> BalancesQuery \<Rightarrow> AccountBalanceRow list result" where
  "balances reader scope query =
     bindR (requireBaseCurrency reader scope) (\<lambda>baseCurrency.
       balanceRows baseCurrency (bq_asOf query) (bq_includeZeroActivity query = Some True) (rp_balanceTotals reader scope query))"

subsection \<open>Amounts read back\<close>

lemma exactMinor_text [simp]: "exactMinor (int_string n) = Inr n"
  by (simp add: exactMinor_def)

lemma presentationNet_add:
  "presentationNet t (a + b) (c + d) = presentationNet t a c + presentationNet t b d" "presentationNet t 0 0 = 0"
  by (simp_all add: presentationNet_def)

lemma boundPage_bounds: "1 \<le> boundPage limit \<and> boundPage limit \<le> MAX_PAGE_SIZE"
proof (cases limit)
  case (Finite r)
  have "1 \<le> \<lfloor>r\<rfloor>" if "\<not> r < 1" using that by (simp add: le_floor_iff)
  with Finite show ?thesis by (auto simp: boundPage_def MAX_PAGE_SIZE_def DEFAULT_PAGE_SIZE_def)
qed (simp add: boundPage_def MAX_PAGE_SIZE_def DEFAULT_PAGE_SIZE_def)

subsection \<open>Rows shown\<close>

text \<open>The raw row a shown row stands for, and the running balance a list of rows must carry.\<close>

definition rawOf :: "LedgerRow \<Rightarrow> RawLedgerRow" where
  "rawOf r = \<lparr>rw_entryId = lg_entryId r, rw_entryDate = lg_entryDate r, rw_lineNo = lg_lineNo r, rw_sourceType = lg_sourceType r,
     rw_sourceId = lg_sourceId r, rw_description = lg_description r, rw_debit = int_string (lg_debitMinor r),
     rw_credit = int_string (lg_creditMinor r), rw_baseAmountMinor = int_string (lg_baseAmountMinor r),
     rw_baseCurrency = lg_baseCurrency r, rw_txnAmountMinor = int_string (lg_txnAmountMinor r), rw_txnCurrency = lg_txnCurrency r,
     rw_fxRate = lg_fxRate r, rw_fxRateSource = lg_fxRateSource r, rw_fxRateAt = lg_fxRateAt r, rw_branchId = lg_branchId r,
     rw_warehouseId = lg_warehouseId r, rw_memo = lg_memo r\<rparr>"

definition rowNet :: "AccountType \<Rightarrow> LedgerRow \<Rightarrow> int" where
  "rowNet t r = presentationNet t (lg_debitMinor r) (lg_creditMinor r)"

fun runs_on :: "AccountType \<Rightarrow> int \<Rightarrow> LedgerRow list \<Rightarrow> bool" where
  "runs_on t balance [] = True"
| "runs_on t balance (r # rs) \<longleftrightarrow> lg_runningMinor r = balance + rowNet t r \<and> runs_on t (lg_runningMinor r) rs"

lemma runs_on_append: "runs_on t b (xs @ ys) \<longleftrightarrow> runs_on t b xs \<and> runs_on t (b + sum_list (map (rowNet t) xs)) ys"
  by (induction xs arbitrary: b) (simp_all add: add.assoc cong: conj_cong)

definition textMinor :: "string \<Rightarrow> int" where
  "textMinor v = (case exactMinor v of Inl e \<Rightarrow> 0 | Inr n \<Rightarrow> n)"

lemma textMinor_text [simp]: "textMinor (int_string n) = n"
  by (simp add: textMinor_def)

definition exact_row :: "RawLedgerRow \<Rightarrow> bool" where
  "exact_row r \<longleftrightarrow> (\<forall>v \<in> {rw_debit r, rw_credit r, rw_baseAmountMinor r, rw_txnAmountMinor r}. int_string (textMinor v) = v)"

definition rawNet :: "AccountType \<Rightarrow> RawLedgerRow \<Rightarrow> int" where
  "rawNet t r = presentationNet t (textMinor (rw_debit r)) (textMinor (rw_credit r))"

lemma exact_row_amount: "int_string (textMinor v) = v \<Longrightarrow> exactMinor v = Inr (textMinor v)"
  by (metis exactMinor_text)

definition shownRow :: "AccountType \<Rightarrow> int \<Rightarrow> RawLedgerRow \<Rightarrow> LedgerRow" where
  "shownRow t b r = \<lparr>lg_entryId = rw_entryId r, lg_entryDate = rw_entryDate r, lg_lineNo = rw_lineNo r, lg_sourceType = rw_sourceType r,
     lg_sourceId = rw_sourceId r, lg_description = rw_description r, lg_debitMinor = textMinor (rw_debit r),
     lg_creditMinor = textMinor (rw_credit r), lg_baseAmountMinor = textMinor (rw_baseAmountMinor r),
     lg_baseCurrency = rw_baseCurrency r, lg_txnAmountMinor = textMinor (rw_txnAmountMinor r), lg_txnCurrency = rw_txnCurrency r,
     lg_fxRate = rw_fxRate r, lg_fxRateSource = rw_fxRateSource r, lg_fxRateAt = rw_fxRateAt r, lg_branchId = rw_branchId r,
     lg_warehouseId = rw_warehouseId r, lg_memo = rw_memo r, lg_runningMinor = b + rawNet t r\<rparr>"

lemma shownRow_sel:
  "exact_row r \<Longrightarrow> rawOf (shownRow t b r) = r" "rowNet t (shownRow t b r) = rawNet t r" "lg_runningMinor (shownRow t b r) = b + rawNet t r"
  by (simp_all add: rawOf_def shownRow_def exact_row_def rowNet_def rawNet_def)

lemma ledgerRows_Cons:
  assumes "exact_row r"
  shows "ledgerRows t b (r # rs) = bindR (ledgerRows t (b + rawNet t r) rs) (\<lambda>(rows, c). Inr (shownRow t b r # rows, c))"
proof -
  have "exactMinor v = Inr (textMinor v)" if "v \<in> {rw_debit r, rw_credit r, rw_baseAmountMinor r, rw_txnAmountMinor r}" for v
    using that assms exact_row_amount by (auto simp: exact_row_def)
  then show ?thesis by (simp add: Let_def shownRow_def rawNet_def)
qed

lemma ledgerRows_shown:
  "list_all exact_row rs \<Longrightarrow> \<exists>rows. ledgerRows t b rs = Inr (rows, b + sum_list (map (rawNet t) rs))
     \<and> map rawOf rows = rs \<and> runs_on t b rows"
proof (induction rs arbitrary: b)
  case (Cons r rs)
  then have r: "exact_row r" and rs: "list_all exact_row rs" by simp_all
  from Cons.IH [OF rs, of "b + rawNet t r"] show ?case
    by (auto simp: ledgerRows_Cons [OF r] shownRow_sel r simp del: ledgerRows.simps)
qed simp

lemma rowNet_raw: "rawNet t (rawOf r) = rowNet t r"
  by (simp add: rawNet_def rowNet_def rawOf_def)

subsection \<open>Keyset pages\<close>

definition rowKey :: "RawLedgerRow \<Rightarrow> string \<times> string \<times> int" where
  "rowKey r = (rw_entryDate r, rw_entryId r, rw_lineNo r)"

definition cursorKey :: "LedgerCursor \<Rightarrow> string \<times> string \<times> int" where
  "cursorKey c = (cu_entryDate c, cu_entryId c, cu_lineNo c)"

definition rowCursor :: "RawLedgerRow \<Rightarrow> LedgerCursor" where
  "rowCursor r = \<lparr>cu_entryDate = rw_entryDate r, cu_entryId = rw_entryId r, cu_lineNo = rw_lineNo r\<rparr>"

lemma rowCursor_key [simp]: "cursorKey (rowCursor r) = rowKey r"
  by (simp add: cursorKey_def rowCursor_def rowKey_def)

lemma keyset_split:
  assumes "sorted_wrt (<) (map f xs)" "i < length xs"
  shows "filter (\<lambda>x. f (xs ! i) < (f x :: 'k :: linorder)) xs = drop (Suc i) xs"
    "filter (\<lambda>x. f x \<le> f (xs ! i)) xs = take (Suc i) xs"
proof -
  have le: "f x \<le> f (xs ! i)" if x: "x \<in> set (take (Suc i) xs)" for x
  proof -
    from x obtain j where "j < Suc i" "j < length xs" "x = xs ! j" by (auto simp: in_set_conv_nth)
    then show ?thesis using assms sorted_wrt_nth_less [of "(<)" "map f xs" j i] by (cases "j = i") auto
  qed
  have gt: "f (xs ! i) < f x" if x: "x \<in> set (drop (Suc i) xs)" for x
  proof -
    from x obtain j where "j < length xs - Suc i" "x = xs ! (Suc i + j)" by (auto simp: in_set_conv_nth)
    then show ?thesis using assms(1) sorted_wrt_nth_less [of "(<)" "map f xs" i "Suc i + j"] by simp
  qed
  have "filter P xs = filter P (take (Suc i) xs) @ filter P (drop (Suc i) xs)" for P
    by (metis append_take_drop_id filter_append)
  note this [of "\<lambda>x. f (xs ! i) < f x"] this [of "\<lambda>x. f x \<le> f (xs ! i)"]
  moreover have "filter (\<lambda>x. f (xs ! i) < f x) (take (Suc i) xs) = []" "filter (\<lambda>x. f x \<le> f (xs ! i)) (drop (Suc i) xs) = []"
    using le gt by (auto simp: filter_empty_conv not_less not_le)
  moreover have "filter (\<lambda>x. f (xs ! i) < f x) (drop (Suc i) xs) = drop (Suc i) xs"
    "filter (\<lambda>x. f x \<le> f (xs ! i)) (take (Suc i) xs) = take (Suc i) xs"
    using le gt by (auto simp: filter_id_conv)
  ultimately show "filter (\<lambda>x. f (xs ! i) < f x) xs = drop (Suc i) xs" "filter (\<lambda>x. f x \<le> f (xs ! i)) xs = take (Suc i) xs"
    by simp_all
qed

lemma sum_list_filter_disjoint:
  "(\<And>x. x \<in> set xs \<Longrightarrow> \<not> (P x \<and> Q x)) \<Longrightarrow>
     sum_list (map f (filter (\<lambda>x. P x \<or> Q x) xs)) = sum_list (map f (filter P xs)) + (sum_list (map f (filter Q xs)) :: int)"
  by (induction xs) auto

subsection \<open>Following the cursors\<close>

text \<open>
  A client asks for the first page and then for the page of each cursor it is handed. The walk is
  bounded by a number of requests: \<open>None\<close> is running out of them.
\<close>

definition ledgerRequest ::
  "AccountingReportReader \<Rightarrow> ReportScope \<Rightarrow> LedgerQuery \<Rightarrow> string option \<Rightarrow> LedgerReport result" where
  "ledgerRequest reader scope query raw = (case raw of
       None \<Rightarrow> ledger reader scope (query\<lparr>lq_cursor := None\<rparr>)
     | Some t \<Rightarrow> bindR (decodeLedgerCursor t) (\<lambda>c. ledger reader scope (query\<lparr>lq_cursor := Some c\<rparr>)))"

fun ledgerWalk :: "nat \<Rightarrow> (string option \<Rightarrow> LedgerReport result) \<Rightarrow> string option \<Rightarrow> LedgerReport list result option" where
  "ledgerWalk 0 request raw = None"
| "ledgerWalk (Suc n) request raw = (case request raw of
       Inl e \<Rightarrow> Some (Inl e)
     | Inr r \<Rightarrow> (case lp_nextCursor r of
           None \<Rightarrow> Some (Inr [r])
         | Some t \<Rightarrow> map_option (map_sum id (\<lambda>rs. r # rs)) (ledgerWalk n request (Some t))))"

definition inRange :: "LedgerQuery \<Rightarrow> RawLedgerRow list \<Rightarrow> RawLedgerRow list" where
  "inRange q = filter (\<lambda>r. lq_from q \<le> rw_entryDate r \<and> rw_entryDate r \<le> lq_to q)"

definition beforeRange :: "LedgerQuery \<Rightarrow> RawLedgerRow list \<Rightarrow> RawLedgerRow list" where
  "beforeRange q = filter (\<lambda>r. rw_entryDate r < lq_from q)"

definition afterCursor :: "LedgerCursor option \<Rightarrow> RawLedgerRow \<Rightarrow> bool" where
  "afterCursor c r \<longleftrightarrow> (case c of None \<Rightarrow> True | Some c \<Rightarrow> cursorKey c < rowKey r)"

lemma afterCursor_simps [simp]: "afterCursor None = (\<lambda>r. True)" "afterCursor (Some c) = (\<lambda>r. cursorKey c < rowKey r)"
  by (simp_all add: afterCursor_def fun_eq_iff)

locale ledger_reader =
  fixes reader :: AccountingReportReader
    and posted :: "ReportScope \<Rightarrow> string \<Rightarrow> ReportBranchScope \<Rightarrow> RawLedgerRow list"
  assumes ordered: "sorted (map rowKey (posted s a b))"
    and exact: "list_all exact_row (posted s a b)"
    and page: "rp_ledgerPage reader s q = take (nat (number_int (lq_limit q)))
          (filter (afterCursor (lq_cursor q)) (inRange q (posted s (lq_accountId q) (lq_branch q))))"
    and opening_totals: "rp_ledgerOpening reader s q = (let rows = filter (\<lambda>r. rw_entryDate r < lq_from q
            \<or> lq_cursor q \<noteq> None \<and> lq_from q \<le> rw_entryDate r \<and> rowKey r \<le> cursorKey (the (lq_cursor q)))
              (posted s (lq_accountId q) (lq_branch q))
          in \<lparr>rt_debit = int_string (sum_list (map (\<lambda>r. textMinor (rw_debit r)) rows)),
              rt_credit = int_string (sum_list (map (\<lambda>r. textMinor (rw_credit r)) rows))\<rparr>)"
begin

lemma page_at:
  assumes k: "k \<le> length (inRange q (posted s (lq_accountId q) (lq_branch q)))"
    and d: "distinct (map rowKey (posted s (lq_accountId q) (lq_branch q)))"
    and c: "lq_cursor q = (if k = 0 then None else Some (rowCursor (inRange q (posted s (lq_accountId q) (lq_branch q)) ! (k - 1))))"
  shows "rp_ledgerPage reader s q = take (nat (number_int (lq_limit q))) (drop k (inRange q (posted s (lq_accountId q) (lq_branch q))))"
proof (cases k)
  case 0
  with c show ?thesis by (simp add: page)
next
  case (Suc i)
  let ?rows = "inRange q (posted s (lq_accountId q) (lq_branch q))"
  have "sorted_wrt (<) (map rowKey ?rows)"
    using ordered [of s "lq_accountId q" "lq_branch q"] d
    by (auto simp: strict_sorted_iff inRange_def sorted_filter distinct_map_filter)
  from keyset_split(1) [OF this, of i] Suc k c show ?thesis by (simp add: page)
qed

lemma opening_at:
  assumes k: "k \<le> length (inRange q (posted s (lq_accountId q) (lq_branch q)))"
    and d: "distinct (map rowKey (posted s (lq_accountId q) (lq_branch q)))" and le: "lq_from q \<le> lq_to q"
    and c: "lq_cursor q = (if k = 0 then None else Some (rowCursor (inRange q (posted s (lq_accountId q) (lq_branch q)) ! (k - 1))))"
  shows "\<exists>dt ct. rp_ledgerOpening reader s q = \<lparr>rt_debit = int_string dt, rt_credit = int_string ct\<rparr>
    \<and> presentationNet t dt ct = sum_list (map (rawNet t) (beforeRange q (posted s (lq_accountId q) (lq_branch q))))
        + sum_list (map (rawNet t) (take k (inRange q (posted s (lq_accountId q) (lq_branch q)))))"
proof -
  let ?all = "posted s (lq_accountId q) (lq_branch q)"
  let ?P = "\<lambda>r. rw_entryDate r < lq_from q" and ?Q = "\<lambda>r. lq_cursor q \<noteq> None \<and> lq_from q \<le> rw_entryDate r \<and> rowKey r \<le> cursorKey (the (lq_cursor q))"
  have q: "filter ?Q ?all = take k (inRange q ?all)"
  proof (cases k)
    case 0
    with c show ?thesis by simp
  next
    case (Suc i)
    let ?r = "inRange q ?all ! i"
    have "?r \<in> set (inRange q ?all)" using Suc k by (intro nth_mem) simp
    then have "rw_entryDate ?r \<le> lq_to q" by (simp add: inRange_def)
    then have "?Q = (\<lambda>r. (lq_from q \<le> rw_entryDate r \<and> rw_entryDate r \<le> lq_to q) \<and> rowKey r \<le> rowKey ?r)"
      using c Suc by (auto simp: fun_eq_iff rowKey_def less_eq_prod_def)
    then have "filter ?Q ?all = filter (\<lambda>r. rowKey r \<le> rowKey ?r) (inRange q ?all)"
      by (simp add: inRange_def filter_filter conj_commute)
    moreover have "sorted_wrt (<) (map rowKey (inRange q ?all))"
      using ordered [of s "lq_accountId q" "lq_branch q"] d
      by (auto simp: strict_sorted_iff inRange_def sorted_filter distinct_map_filter)
    from keyset_split(2) [OF this, of i] Suc k have "filter (\<lambda>r. rowKey r \<le> rowKey ?r) (inRange q ?all) = take k (inRange q ?all)" by simp
    ultimately show ?thesis by simp
  qed
  have s: "sum_list (map f (filter (\<lambda>r. ?P r \<or> ?Q r) ?all)) = sum_list (map f (beforeRange q ?all)) + (sum_list (map f (take k (inRange q ?all))) :: int)" for f
  proof -
    have "sum_list (map f (filter (\<lambda>r. ?P r \<or> ?Q r) ?all)) = sum_list (map f (filter ?P ?all)) + sum_list (map f (filter ?Q ?all))"
      by (rule sum_list_filter_disjoint) auto
    then show ?thesis unfolding q beforeRange_def .
  qed
  have n: "sum_list (map (rawNet t) xs)
      = presentationNet t (sum_list (map (\<lambda>r. textMinor (rw_debit r)) xs)) (sum_list (map (\<lambda>r. textMinor (rw_credit r)) xs))" for xs
    by (induction xs) (simp_all add: presentationNet_add rawNet_def)
  show ?thesis
    by (intro exI conjI, simp only: opening_totals Let_def, simp only: s n, simp add: presentationNet_add)
qed

lemma ledger_at:
  assumes q: "lq_from q \<le> lq_to q" and cur: "rp_baseCurrency reader s = Some cur" and acct: "rp_findAccount reader s (lq_accountId q) = Some a"
    and rows: "rows = inRange q (posted s (lq_accountId q) (lq_branch q))"
    and before: "before = sum_list (map (rawNet (as_type a)) (beforeRange q (posted s (lq_accountId q) (lq_branch q))))"
    and d: "distinct (map rowKey (posted s (lq_accountId q) (lq_branch q)))" and L: "L = nat (boundPage (lq_limit q))"
    and k: "k \<le> length rows" and c: "lq_cursor q = (if k = 0 then None else Some (rowCursor (rows ! (k - 1))))"
  shows "\<exists>r. ledger reader s q = Inr r \<and> lp_openingMinor r = before + sum_list (map (rawNet (as_type a)) (take k rows))
    \<and> map rawOf (lp_rows r) = take L (drop k rows) \<and> runs_on (as_type a) (lp_openingMinor r) (lp_rows r)
    \<and> lp_closingMinor r = before + sum_list (map (rawNet (as_type a)) (take (k + L) rows))
    \<and> lp_nextCursor r = (if k + L < length rows then Some (encodeLedgerCursor (rowCursor (rows ! (k + L - 1)))) else None)"
proof -
  let ?t = "as_type a"
  have b: "1 \<le> boundPage (lq_limit q)" using boundPage_bounds by simp
  have Lpos: "0 < L" using b L by simp
  let ?q = "q\<lparr>lq_limit := Finite (of_int (boundPage (lq_limit q) + 1))\<rparr>"
  have n: "nat (number_int (lq_limit ?q)) = Suc L"
    using b by (simp add: number_int_def L nat_add_distrib del: of_int_add of_int_1)
  have same: "inRange ?q = inRange q" by (simp add: inRange_def)
  have page: "rp_ledgerPage reader s ?q = take (Suc L) (drop k rows)"
    using page_at [of k ?q s] k d c n by (simp add: same rows del: of_int_add of_int_1)
  obtain dt ct where o: "rp_ledgerOpening reader s q = \<lparr>rt_debit = int_string dt, rt_credit = int_string ct\<rparr>"
    "presentationNet ?t dt ct = before + sum_list (map (rawNet ?t) (take k rows))"
    using opening_at [of k q s ?t] k d q c unfolding rows before by blast
  have "list_all exact_row (take L (drop k rows))"
    using exact [of s "lq_accountId q" "lq_branch q"]
    by (auto simp: rows inRange_def list_all_iff dest!: in_set_takeD in_set_dropD)
  then obtain shown where shown: "ledgerRows ?t (presentationNet ?t dt ct) (take L (drop k rows))
      = Inr (shown, presentationNet ?t dt ct + sum_list (map (rawNet ?t) (take L (drop k rows))))"
    "map rawOf shown = take L (drop k rows)" "runs_on ?t (presentationNet ?t dt ct) shown" using ledgerRows_shown by blast
  have len: "length shown = min L (length rows - k)" using arg_cong [OF shown(2), of length] by simp
  have last: "rawOf (last shown) = rows ! (k + L - 1)" if "k + L < length rows"
  proof -
    have "shown \<noteq> []" "length shown = L" using len that Lpos by auto
    then have "rawOf (last shown) = map rawOf shown ! (L - 1)" using Lpos by (simp add: last_conv_nth)
    then show ?thesis using that Lpos by (simp add: shown(2))
  qed
  have "\<lparr>cu_entryDate = lg_entryDate r, cu_entryId = lg_entryId r, cu_lineNo = lg_lineNo r\<rparr> = rowCursor (rawOf r)" for r
    by (simp add: rowCursor_def rawOf_def)
  moreover have "L < length (take (Suc L) (drop k rows)) \<and> shown \<noteq> [] \<longleftrightarrow> k + L < length rows"
    using len Lpos by (cases "k + L < length rows") (auto simp: not_less)
  moreover have "take (k + L) rows = take k rows @ take L (drop k rows)" by (simp add: take_add)
  ultimately show ?thesis
    using q cur acct page o shown last
    by (simp add: ledger_def requireBaseCurrency_def Let_def L [symmetric])
qed

lemma walk_from:
  assumes q: "lq_from q \<le> lq_to q" and cur: "rp_baseCurrency reader s = Some cur" and acct: "rp_findAccount reader s (lq_accountId q) = Some a"
    and rows: "rows = inRange q (posted s (lq_accountId q) (lq_branch q))"
    and before: "before = sum_list (map (rawNet (as_type a)) (beforeRange q (posted s (lq_accountId q) (lq_branch q))))"
    and d: "distinct (map rowKey (posted s (lq_accountId q) (lq_branch q)))" and L: "L = nat (boundPage (lq_limit q))"
    and ok: "list_all (\<lambda>r. ledger_cursor_ok (rowCursor r)) rows" and k: "k \<le> length rows"
  shows "\<exists>pages. ledgerWalk (Suc ((length rows - k) div L)) (ledgerRequest reader s q)
        (if k = 0 then None else Some (encodeLedgerCursor (rowCursor (rows ! (k - 1))))) = Some (Inr pages) \<and> pages \<noteq> []
    \<and> map rawOf (concat (map lp_rows pages)) = drop k rows
    \<and> lp_openingMinor (hd pages) = before + sum_list (map (rawNet (as_type a)) (take k rows))
    \<and> runs_on (as_type a) (lp_openingMinor (hd pages)) (concat (map lp_rows pages))
    \<and> lp_closingMinor (last pages) = before + sum_list (map (rawNet (as_type a)) rows)
    \<and> (\<forall>p \<in> set pages. length (lp_rows p) \<le> L)"
  using k
proof (induction "length rows - k" arbitrary: k rule: less_induct)
  case less
  let ?net = "\<lambda>rs. sum_list (map (rawNet (as_type a)) rs)"
  let ?q = "q\<lparr>lq_cursor := (if k = 0 then None else Some (rowCursor (rows ! (k - 1))))\<rparr>"
  let ?raw = "if k = 0 then None else Some (encodeLedgerCursor (rowCursor (rows ! (k - 1))))"
  have Lpos: "0 < L" using boundPage_bounds [of "lq_limit q"] L by simp
  have same: "inRange ?q = inRange q" "beforeRange ?q = beforeRange q" by (simp_all add: inRange_def beforeRange_def)
  have cursor: "ledger_cursor_ok (rowCursor (rows ! (k - 1)))" if "0 < k" using ok less.prems that by (simp add: list_all_length)
  have req: "ledgerRequest reader s q ?raw = ledger reader s ?q"
    using ledgerCursor_back [OF cursor] by (auto simp: ledgerRequest_def)
  obtain r where r: "ledger reader s ?q = Inr r" "lp_openingMinor r = before + ?net (take k rows)"
    "map rawOf (lp_rows r) = take L (drop k rows)" "runs_on (as_type a) (lp_openingMinor r) (lp_rows r)"
    "lp_closingMinor r = before + ?net (take (k + L) rows)"
    "lp_nextCursor r = (if k + L < length rows then Some (encodeLedgerCursor (rowCursor (rows ! (k + L - 1)))) else None)"
    using ledger_at [of ?q s cur a rows before L k] q cur acct rows before d L less.prems by (auto simp: same)
  have len: "length (lp_rows r) \<le> L" using arg_cong [OF r(3), of length] by simp
  show ?case
  proof (cases "k + L < length rows")
    case False
    then show ?thesis using r req len by (intro exI [of _ "[r]"]) simp
  next
    case True
    have n: "(length rows - k) div L = Suc ((length rows - (k + L)) div L)"
      using True Lpos le_div_geq [of L "length rows - k"] by simp
    have step: "length rows - (k + L) < length rows - k" "k + L \<le> length rows" using True Lpos by simp_all
    obtain pages where p:
      "ledgerWalk (Suc ((length rows - (k + L)) div L)) (ledgerRequest reader s q)
          (if k + L = 0 then None else Some (encodeLedgerCursor (rowCursor (rows ! (k + L - 1))))) = Some (Inr pages)"
      "pages \<noteq> []" "map rawOf (concat (map lp_rows pages)) = drop (k + L) rows" "lp_openingMinor (hd pages) = before + ?net (take (k + L) rows)"
      "runs_on (as_type a) (lp_openingMinor (hd pages)) (concat (map lp_rows pages))" "lp_closingMinor (last pages) = before + ?net rows"
      "\<forall>p \<in> set pages. length (lp_rows p) \<le> L" using less.hyps [OF step] by blast
    have w: "ledgerWalk (Suc ((length rows - k) div L)) (ledgerRequest reader s q) ?raw = Some (Inr (r # pages))"
    proof -
      let ?t = "encodeLedgerCursor (rowCursor (rows ! (k + L - 1)))"
      have "ledgerWalk (Suc ((length rows - (k + L)) div L)) (ledgerRequest reader s q) (Some ?t) = Some (Inr pages)"
        using p(1) Lpos by (simp del: ledgerWalk.simps)
      moreover have "lp_nextCursor r = Some ?t" using r(6) True by simp
      ultimately show ?thesis
        unfolding n ledgerWalk.simps(2) [of "Suc ((length rows - (k + L)) div L)"] req r(1) by (simp del: ledgerWalk.simps)
    qed
    have "?net (take (k + L) rows) = ?net (take k rows) + sum_list (map (rowNet (as_type a)) (lp_rows r))"
      unfolding take_add r(3) [symmetric] by (simp add: rowNet_raw o_def)
    then have "runs_on (as_type a) (lp_openingMinor r) (lp_rows r @ concat (map lp_rows pages))"
      using r(2,4) p(4,5) by (simp add: runs_on_append add.assoc)
    moreover have "take L (drop k rows) @ drop (k + L) rows = drop k rows"
      by (metis append_take_drop_id drop_drop add.commute)
    ultimately show ?thesis using w r(2,3) p(2,3,6,7) len by (intro exI [of _ "r # pages"]) simp
  qed
qed

end

end
