(* ===== verification/Report_Reader.thy ===== *)
theory Report_Reader
  imports Reports
begin

text \<open>
  apps/api/src/modules/accounting/accounting-reports.reader.ts: the SELECTs behind the reports, over
  the rows of the chart and of the journal. A \<open>Books\<close> value is one snapshot of those tables as the
  caller sees them; a query is the list of rows its WHERE clause keeps, in the order its ORDER BY
  gives. Dates are the text \<open>to_char\<close> renders and identifiers canonical text, whose lexicographic
  order is the order of the columns; the collation of account codes is a field of the snapshot.
\<close>

record AccountTableRow =
  at_businessId :: string
  at_id :: string
  at_code :: string
  at_name :: string
  at_type :: AccountType
  at_systemKey :: "string option"
  at_isActive :: bool

record JournalEntryTableRow =
  je_businessId :: string
  je_id :: string
  je_entryDate :: string
  je_sourceType :: string
  je_sourceId :: string
  je_description :: "string option"
  je_actorKind :: string
  je_actorUserId :: "string option"
  je_actorSystemKey :: "string option"
  je_createdAt :: instant

record JournalLineTableRow =
  jl_businessId :: string
  jl_journalEntryId :: string
  jl_lineNo :: int
  jl_accountId :: string
  jl_debitMinor :: int
  jl_creditMinor :: int
  jl_baseAmountMinor :: int
  jl_baseCurrency :: string
  jl_txnAmountMinor :: int
  jl_txnCurrency :: string
  jl_fxRate :: string
  jl_fxRateSource :: string
  jl_fxRateAt :: instant
  jl_branchId :: "string option"
  jl_warehouseId :: "string option"
  jl_memo :: "string option"

record Books =
  bk_baseCurrency :: "string \<Rightarrow> string option"
  bk_collation :: "string \<Rightarrow> int"
  bk_accounts :: "AccountTableRow list"
  bk_entries :: "JournalEntryTableRow list"
  bk_lines :: "JournalLineTableRow list"

type_synonym posted_line = "JournalLineTableRow \<times> JournalEntryTableRow"

text \<open>\<open>journal_lines l JOIN journal_entries e ON e.business_id = l.business_id AND e.id = l.journal_entry_id\<close>\<close>

definition joined :: "Books \<Rightarrow> posted_line list" where
  "joined b = [(l, e). l \<leftarrow> bk_lines b, e \<leftarrow> bk_entries b, je_businessId e = jl_businessId l \<and> je_id e = jl_journalEntryId l]"

subsection \<open>Branches\<close>

text \<open>A comparison with a NULL branch is not true, so a line of the whole business is in no branch.\<close>

fun branchPredicate :: "ReportBranchScope \<Rightarrow> string option \<Rightarrow> bool" where
  "branchPredicate (Mode_all None) branch = True"
| "branchPredicate (Mode_all (Some x)) branch = (branch = Some x)"
| "branchPredicate (Mode_assigned bs) branch = (case branch of None \<Rightarrow> False | Some x \<Rightarrow> x \<in> set bs)"

definition entryLines :: "Books \<Rightarrow> JournalEntryTableRow \<Rightarrow> JournalLineTableRow list" where
  "entryLines b e = filter (\<lambda>l. jl_businessId l = je_businessId e \<and> jl_journalEntryId l = je_id e) (bk_lines b)"

fun entryVisibilityPredicate :: "Books \<Rightarrow> ReportBranchScope \<Rightarrow> JournalEntryTableRow \<Rightarrow> bool" where
  "entryVisibilityPredicate b (Mode_all None) e = True"
| "entryVisibilityPredicate b (Mode_all (Some x)) e = list_ex (\<lambda>l. jl_branchId l = Some x) (entryLines b e)"
| "entryVisibilityPredicate b (Mode_assigned bs) e =
     (\<not> list_ex (\<lambda>l. jl_branchId l = None \<or> \<not> branchPredicate (Mode_assigned bs) (jl_branchId l)) (entryLines b e))"

subsection \<open>The chart\<close>

definition toAccount :: "AccountTableRow \<Rightarrow> AccountSummary" where
  "toAccount r = \<lparr>as_accountId = at_id r, as_code = at_code r, as_name = at_name r, as_type = at_type r,
     as_systemKey = at_systemKey r, as_isActive = at_isActive r\<rparr>"

definition reader_listAccounts :: "Books \<Rightarrow> ReportScope \<Rightarrow> AccountListQuery \<Rightarrow> AccountSummary list" where
  "reader_listAccounts b scope query = map toAccount (sort_key (\<lambda>a. bk_collation b (at_code a))
     (filter (\<lambda>a. at_businessId a = rs_businessId scope \<and> (aq_includeInactive query = Some False \<longrightarrow> at_isActive a)
        \<and> (case aq_type query of None \<Rightarrow> True | Some t \<Rightarrow> at_type a = t)) (bk_accounts b)))"

definition reader_findAccount :: "Books \<Rightarrow> ReportScope \<Rightarrow> string \<Rightarrow> AccountSummary option" where
  "reader_findAccount b scope accountId =
     map_option toAccount (find (\<lambda>a. at_businessId a = rs_businessId scope \<and> at_id a = accountId) (bk_accounts b))"

subsection \<open>Totals per account\<close>

definition sumOf :: "(posted_line \<Rightarrow> int) \<Rightarrow> posted_line list \<Rightarrow> int" where
  "sumOf f rows = sum_list (map f rows)"

definition debitOf :: "posted_line \<Rightarrow> int" where "debitOf p = jl_debitMinor (fst p)"
definition creditOf :: "posted_line \<Rightarrow> int" where "creditOf p = jl_creditMinor (fst p)"

definition toTotals :: "posted_line list \<Rightarrow> AccountTableRow \<Rightarrow> RawAccountTotals" where
  "toTotals rows a = (let own = filter (\<lambda>p. jl_accountId (fst p) = at_id a) rows in
     \<lparr>rt_debit = int_string (sumOf debitOf own), rt_credit = int_string (sumOf creditOf own), rt_accountId = at_id a,
      rt_code = at_code a, rt_name = at_name a, rt_type = at_type a, rt_isActive = at_isActive a\<rparr>)"

definition accountTotalsSql :: "Books \<Rightarrow> (posted_line \<Rightarrow> bool) \<Rightarrow> (AccountTableRow \<Rightarrow> bool) \<Rightarrow> RawAccountTotals list" where
  "accountTotalsSql b lineConditions accountConditions =
     map (toTotals (filter lineConditions (joined b)))
       (sort_key (\<lambda>a. bk_collation b (at_code a)) (filter accountConditions (bk_accounts b)))"

fun rangeCondition :: "TrialBalanceRange \<Rightarrow> string \<Rightarrow> bool" where
  "rangeCondition (As_of asOf) d = (d \<le> asOf)"
| "rangeCondition (Date_range first final) d = (first \<le> d \<and> d \<le> final)"

definition reader_trialBalanceTotals :: "Books \<Rightarrow> ReportScope \<Rightarrow> TrialBalanceQuery \<Rightarrow> RawAccountTotals list" where
  "reader_trialBalanceTotals b scope query = accountTotalsSql b
     (\<lambda>(l, e). jl_businessId l = rs_businessId scope \<and> rangeCondition (tq_range query) (je_entryDate e)
        \<and> branchPredicate (tq_branch query) (jl_branchId l))
     (\<lambda>a. at_businessId a = rs_businessId scope)"

text \<open>An empty list of accounts restricts nothing.\<close>

definition accountFilter :: "BalancesQuery \<Rightarrow> string \<Rightarrow> bool" where
  "accountFilter query a = (case bq_accountIds query of None \<Rightarrow> True | Some ids \<Rightarrow> ids = [] \<or> a \<in> set ids)"

definition reader_balanceTotals :: "Books \<Rightarrow> ReportScope \<Rightarrow> BalancesQuery \<Rightarrow> RawAccountTotals list" where
  "reader_balanceTotals b scope query = accountTotalsSql b
     (\<lambda>(l, e). jl_businessId l = rs_businessId scope \<and> je_entryDate e \<le> bq_asOf query
        \<and> branchPredicate (bq_branch query) (jl_branchId l) \<and> accountFilter query (jl_accountId l))
     (\<lambda>a. at_businessId a = rs_businessId scope \<and> accountFilter query (at_id a))"

subsection \<open>The ledger\<close>

definition toLedgerRow :: "posted_line \<Rightarrow> RawLedgerRow" where
  "toLedgerRow p = (let l = fst p; e = snd p in
     \<lparr>rw_entryId = jl_journalEntryId l, rw_entryDate = je_entryDate e, rw_lineNo = jl_lineNo l, rw_sourceType = je_sourceType e,
      rw_sourceId = je_sourceId e, rw_description = je_description e, rw_debit = int_string (jl_debitMinor l),
      rw_credit = int_string (jl_creditMinor l), rw_baseAmountMinor = int_string (jl_baseAmountMinor l),
      rw_baseCurrency = jl_baseCurrency l, rw_txnAmountMinor = int_string (jl_txnAmountMinor l), rw_txnCurrency = jl_txnCurrency l,
      rw_fxRate = jl_fxRate l, rw_fxRateSource = jl_fxRateSource l, rw_fxRateAt = jl_fxRateAt l, rw_branchId = jl_branchId l,
      rw_warehouseId = jl_warehouseId l, rw_memo = jl_memo l\<rparr>)"

definition keyOf :: "posted_line \<Rightarrow> string \<times> string \<times> int" where
  "keyOf p = (je_entryDate (snd p), jl_journalEntryId (fst p), jl_lineNo (fst p))"

definition reader_ledgerOpening :: "Books \<Rightarrow> ReportScope \<Rightarrow> LedgerQuery \<Rightarrow> RawTotals" where
  "reader_ledgerOpening b scope query =
     (let rows = filter (\<lambda>(l, e). jl_businessId l = rs_businessId scope \<and> jl_accountId l = lq_accountId query
          \<and> branchPredicate (lq_branch query) (jl_branchId l)
          \<and> (case lq_cursor query of
               None \<Rightarrow> je_entryDate e < lq_from query
             | Some c \<Rightarrow> je_entryDate e < lq_from query \<or> lq_from query \<le> je_entryDate e \<and> keyOf (l, e) \<le> cursorKey c)) (joined b)
      in \<lparr>rt_debit = int_string (sumOf debitOf rows), rt_credit = int_string (sumOf creditOf rows)\<rparr>)"

definition reader_ledgerPage :: "Books \<Rightarrow> ReportScope \<Rightarrow> LedgerQuery \<Rightarrow> RawLedgerRow list" where
  "reader_ledgerPage b scope query = map toLedgerRow (take (nat (number_int (lq_limit query))) (sort_key keyOf
     (filter (\<lambda>(l, e). jl_businessId l = rs_businessId scope \<and> jl_accountId l = lq_accountId query
        \<and> lq_from query \<le> je_entryDate e \<and> je_entryDate e \<le> lq_to query \<and> branchPredicate (lq_branch query) (jl_branchId l)
        \<and> (case lq_cursor query of None \<Rightarrow> True | Some c \<Rightarrow> cursorKey c < keyOf (l, e))) (joined b))))"

subsection \<open>Entries\<close>

definition atMost :: "string option \<Rightarrow> string \<Rightarrow> bool" where "atMost bound d = (case bound of None \<Rightarrow> True | Some t \<Rightarrow> d \<le> t)"
definition atLeast :: "string option \<Rightarrow> string \<Rightarrow> bool" where "atLeast bound d = (case bound of None \<Rightarrow> True | Some t \<Rightarrow> t \<le> d)"

definition reader_listEntries :: "Books \<Rightarrow> ReportScope \<Rightarrow> EntryListQuery \<Rightarrow> EntrySummary list" where
  "reader_listEntries b scope query =
     map (\<lambda>e. \<lparr>es_entryId = je_id e, es_entryDate = je_entryDate e, es_sourceType = je_sourceType e, es_sourceId = je_sourceId e,
        es_description = je_description e, es_createdAt = je_createdAt e, es_lineCount = int (length (entryLines b e))\<rparr>)
       (take (nat (number_int (eq_limit query))) (sort_key (\<lambda>e. (je_entryDate e, je_id e))
         (filter (\<lambda>e. je_businessId e = rs_businessId scope \<and> atLeast (eq_from query) (je_entryDate e)
            \<and> atMost (eq_to query) (je_entryDate e)
            \<and> (case eq_sourceType query of None \<Rightarrow> True | Some t \<Rightarrow> je_sourceType e = t)
            \<and> entryVisibilityPredicate b (eq_branch query) e
            \<and> (case eq_cursor query of None \<Rightarrow> True | Some c \<Rightarrow> (cu_entryDate c, cu_entryId c) < (je_entryDate e, je_id e)))
          (bk_entries b))))"

definition toDetailLine :: "JournalLineTableRow \<times> AccountTableRow \<Rightarrow> EntryDetailLine" where
  "toDetailLine p = (let l = fst p; a = snd p in
     \<lparr>el_lineNo = jl_lineNo l, el_accountId = at_id a, el_code = at_code a, el_name = at_name a, el_type = at_type a,
      el_account = (case at_systemKey a of Some k \<Rightarrow> System_account k | None \<Rightarrow> Code_account (at_code a)),
      el_side = (if 0 < jl_debitMinor l then Side_D else Side_C), el_debitMinor = jl_debitMinor l, el_creditMinor = jl_creditMinor l,
      el_baseAmountMinor = jl_baseAmountMinor l, el_baseCurrency = jl_baseCurrency l, el_txnAmountMinor = jl_txnAmountMinor l,
      el_txnCurrency = jl_txnCurrency l, el_fxRate = jl_fxRate l, el_fxRateSource = jl_fxRateSource l, el_fxRateAt = jl_fxRateAt l,
      el_branchId = jl_branchId l, el_warehouseId = jl_warehouseId l, el_memo = jl_memo l\<rparr>)"

definition detailLines :: "Books \<Rightarrow> string \<Rightarrow> string \<Rightarrow> EntryDetailLine list" where
  "detailLines b businessId entryId = map toDetailLine (sort_key (\<lambda>p. jl_lineNo (fst p))
     [(l, a). l \<leftarrow> bk_lines b, jl_businessId l = businessId \<and> jl_journalEntryId l = entryId,
        a \<leftarrow> bk_accounts b, at_businessId a = jl_businessId l \<and> at_id a = jl_accountId l])"

definition reader_readEntryDetail :: "Books \<Rightarrow> ReportScope \<Rightarrow> string \<Rightarrow> EntryDetail option" where
  "reader_readEntryDetail b scope entryId =
     (case find (\<lambda>e. je_businessId e = rs_businessId scope \<and> je_id e = entryId) (bk_entries b) of
        None \<Rightarrow> None
      | Some head \<Rightarrow> Some \<lparr>ed_entryId = je_id head, ed_entryDate = je_entryDate head, ed_sourceType = je_sourceType head,
          ed_sourceId = je_sourceId head, ed_description = je_description head,
          ed_actorKind = (if je_actorKind head = ''system'' then ''system'' else ''user''), ed_actorUserId = je_actorUserId head,
          ed_actorSystemKey = je_actorSystemKey head, ed_createdAt = je_createdAt head,
          ed_lines = detailLines b (rs_businessId scope) entryId\<rparr>)"

definition reader_entryBranchDimensions :: "Books \<Rightarrow> ReportScope \<Rightarrow> string \<Rightarrow> string option list" where
  "reader_entryBranchDimensions b scope entryId =
     remdups (map jl_branchId (filter (\<lambda>l. jl_businessId l = rs_businessId scope \<and> jl_journalEntryId l = entryId) (bk_lines b)))"

definition databaseReader :: "Books \<Rightarrow> AccountingReportReader" where
  "databaseReader b = \<lparr>rp_baseCurrency = (\<lambda>scope. bk_baseCurrency b (rs_businessId scope)), rp_listAccounts = reader_listAccounts b,
     rp_findAccount = reader_findAccount b, rp_trialBalanceTotals = reader_trialBalanceTotals b,
     rp_balanceTotals = reader_balanceTotals b, rp_ledgerOpening = reader_ledgerOpening b, rp_ledgerPage = reader_ledgerPage b,
     rp_listEntries = reader_listEntries b, rp_readEntryDetail = reader_readEntryDetail b,
     rp_entryBranchDimensions = reader_entryBranchDimensions b\<rparr>"

subsection \<open>The reader keeps the ledger's contract\<close>

text \<open>An account's postings in the order of the ledger, as raw rows.\<close>

definition accountLines :: "Books \<Rightarrow> ReportScope \<Rightarrow> string \<Rightarrow> ReportBranchScope \<Rightarrow> posted_line list" where
  "accountLines b s a br = filter (\<lambda>(l, e). jl_businessId l = rs_businessId s \<and> jl_accountId l = a \<and> branchPredicate br (jl_branchId l))
     (joined b)"

definition accountPostings :: "Books \<Rightarrow> ReportScope \<Rightarrow> string \<Rightarrow> ReportBranchScope \<Rightarrow> RawLedgerRow list" where
  "accountPostings b s a br = map toLedgerRow (sort_key keyOf (accountLines b s a br))"

lemma toLedgerRow_sel [simp]:
  "rowKey (toLedgerRow p) = keyOf p" "rw_entryDate (toLedgerRow p) = je_entryDate (snd p)" "exact_row (toLedgerRow p)"
  "textMinor (rw_debit (toLedgerRow p)) = debitOf p" "textMinor (rw_credit (toLedgerRow p)) = creditOf p"
  by (simp_all add: toLedgerRow_def Let_def rowKey_def keyOf_def exact_row_def debitOf_def creditOf_def)

lemma sum_list_sort_key: "sum_list (map f (sort_key k xs)) = sum_list (map (f :: 'a \<Rightarrow> int) xs)"
  by (metis mset_map mset_sort sum_mset_sum_list)

lemma page_law:
  "reader_ledgerPage b s q = take (nat (number_int (lq_limit q)))
     (filter (afterCursor (lq_cursor q)) (inRange q (accountPostings b s (lq_accountId q) (lq_branch q))))"
proof -
  have "filter (\<lambda>(l, e). jl_businessId l = rs_businessId s \<and> jl_accountId l = lq_accountId q
        \<and> lq_from q \<le> je_entryDate e \<and> je_entryDate e \<le> lq_to q \<and> branchPredicate (lq_branch q) (jl_branchId l)
        \<and> (case lq_cursor q of None \<Rightarrow> True | Some c \<Rightarrow> cursorKey c < keyOf (l, e))) (joined b)
    = filter (\<lambda>p. afterCursor (lq_cursor q) (toLedgerRow p))
        (filter (\<lambda>p. lq_from q \<le> je_entryDate (snd p) \<and> je_entryDate (snd p) \<le> lq_to q) (accountLines b s (lq_accountId q) (lq_branch q)))"
    unfolding accountLines_def filter_filter
    by (rule filter_cong [OF refl]) (auto simp: afterCursor_def split: option.splits)
  then show ?thesis
    by (simp only: reader_ledgerPage_def accountPostings_def inRange_def filter_map o_def toLedgerRow_sel filter_sort take_map)
qed

lemma opening_law:
  "reader_ledgerOpening b s q = (let rows = filter (\<lambda>r. rw_entryDate r < lq_from q
        \<or> lq_cursor q \<noteq> None \<and> lq_from q \<le> rw_entryDate r \<and> rowKey r \<le> cursorKey (the (lq_cursor q)))
          (accountPostings b s (lq_accountId q) (lq_branch q))
      in \<lparr>rt_debit = int_string (sum_list (map (\<lambda>r. textMinor (rw_debit r)) rows)),
          rt_credit = int_string (sum_list (map (\<lambda>r. textMinor (rw_credit r)) rows))\<rparr>)"
proof -
  let ?P = "\<lambda>p. je_entryDate (snd p) < lq_from q
      \<or> lq_cursor q \<noteq> None \<and> lq_from q \<le> je_entryDate (snd p) \<and> keyOf p \<le> cursorKey (the (lq_cursor q))"
  have rows: "filter (\<lambda>(l, e). jl_businessId l = rs_businessId s \<and> jl_accountId l = lq_accountId q
          \<and> branchPredicate (lq_branch q) (jl_branchId l)
          \<and> (case lq_cursor q of
               None \<Rightarrow> je_entryDate e < lq_from q
             | Some c \<Rightarrow> je_entryDate e < lq_from q \<or> lq_from q \<le> je_entryDate e \<and> keyOf (l, e) \<le> cursorKey c)) (joined b)
    = filter ?P (accountLines b s (lq_accountId q) (lq_branch q))"
    unfolding accountLines_def filter_filter by (rule filter_cong [OF refl]) (auto split: option.splits)
  have "filter (\<lambda>r. rw_entryDate r < lq_from q
        \<or> lq_cursor q \<noteq> None \<and> lq_from q \<le> rw_entryDate r \<and> rowKey r \<le> cursorKey (the (lq_cursor q)))
          (accountPostings b s (lq_accountId q) (lq_branch q))
    = map toLedgerRow (sort_key keyOf (filter ?P (accountLines b s (lq_accountId q) (lq_branch q))))"
    by (simp only: accountPostings_def filter_map o_def toLedgerRow_sel filter_sort)
  then show ?thesis
    by (simp only: reader_ledgerOpening_def rows Let_def sumOf_def map_map o_def toLedgerRow_sel sum_list_sort_key)
qed

interpretation db: ledger_reader "databaseReader b" "accountPostings b" for b
proof
  show "sorted (map rowKey (accountPostings b s a br))" for s a br
    by (simp add: accountPostings_def o_def)
  show "list_all exact_row (accountPostings b s a br)" for s a br
    by (simp add: accountPostings_def list_all_iff)
qed (simp_all only: databaseReader_def AccountingReportReader.simps page_law opening_law)

lemma sumOf_sort [simp]: "sumOf f (sort_key k xs) = sumOf f xs"
  by (simp add: sumOf_def sum_list_sort_key)

lemma accountPostings_net:
  "sum_list (map (rawNet t) (filter (\<lambda>r. P (rw_entryDate r)) (accountPostings b s a br)))
     = presentationNet t (sumOf debitOf (filter (\<lambda>p. P (je_entryDate (snd p))) (accountLines b s a br)))
         (sumOf creditOf (filter (\<lambda>p. P (je_entryDate (snd p))) (accountLines b s a br)))"
proof -
  have "sum_list (map (\<lambda>p. presentationNet t (debitOf p) (creditOf p)) xs) = presentationNet t (sumOf debitOf xs) (sumOf creditOf xs)" for xs
    by (induction xs) (simp_all add: sumOf_def presentationNet_add)
  then show ?thesis
    by (simp add: accountPostings_def filter_map o_def filter_sort rawNet_def sum_list_sort_key)
qed

end
