(* ===== verification/Report_Agreement.thy ===== *)
theory Report_Agreement
  imports Report_Reader
begin

text \<open>
  What the reports of one snapshot owe each other: the ledger pages show every posting once, the
  trial balance of sound books always balances, and the ledger closes at the balance the balance
  report gives. \<open>books_ok\<close> states what the database's keys and constraints keep of the journal.
\<close>

subsection \<open>Sound books\<close>

definition lineKey :: "JournalLineTableRow \<Rightarrow> string \<times> string \<times> int" where
  "lineKey l = (jl_businessId l, jl_journalEntryId l, jl_lineNo l)"

definition books_ok :: "Books \<Rightarrow> bool" where
  "books_ok b \<longleftrightarrow>
     distinct (map (\<lambda>e. (je_businessId e, je_id e)) (bk_entries b))
   \<and> distinct (map lineKey (bk_lines b))
   \<and> distinct (map (\<lambda>a. (at_businessId a, at_id a)) (bk_accounts b))
   \<and> list_all (\<lambda>e. CIVIL_DATE (je_entryDate e) \<and> is_uuid (je_id e)
        \<and> sum_list (map jl_debitMinor (entryLines b e)) = sum_list (map jl_creditMinor (entryLines b e))) (bk_entries b)
   \<and> list_all (\<lambda>l. 1 \<le> jl_lineNo l \<and> jl_lineNo l < 10 ^ 9
        \<and> list_ex (\<lambda>a. at_businessId a = jl_businessId l \<and> at_id a = jl_accountId l) (bk_accounts b)) (bk_lines b)"

lemma sum_list_map_const_0: "sum_list (map (\<lambda>x. 0) xs) = (0 :: int)"
  by (induction xs) simp_all

lemma concat_if: "concat (map (\<lambda>e. if P e then [g e] else []) es) = map g (filter P es)"
  by (induction es) simp_all

lemma joined_concat: "joined b = concat (map (\<lambda>l. map (Pair l)
    (filter (\<lambda>e. je_businessId e = jl_businessId l \<and> je_id e = jl_journalEntryId l) (bk_entries b))) (bk_lines b))"
  by (simp add: joined_def concat_if)

text \<open>Every line meets at most one entry, so a position of the ledger is a line.\<close>

lemma joined_keys: "books_ok b \<Longrightarrow> distinct (map (\<lambda>p. lineKey (fst p)) (joined b))"
proof -
  assume ok: "books_ok b"
  let ?match = "\<lambda>l e. je_businessId e = jl_businessId l \<and> je_id e = jl_journalEntryId l"
  let ?es = "\<lambda>l. filter (?match l) (bk_entries b)"
  have one: "length (?es l) \<le> 1" for l
  proof (rule ccontr)
    assume "\<not> length (?es l) \<le> 1"
    then obtain e e' es where es: "?es l = e # e' # es" by (cases "?es l"; cases "tl (?es l)") auto
    then have "e \<in> set (?es l)" "e' \<in> set (?es l)" by simp_all
    then have "(je_businessId e, je_id e) = (je_businessId e', je_id e')" by simp
    moreover have "distinct (map (\<lambda>e. (je_businessId e, je_id e)) (?es l))" using ok by (simp add: books_ok_def distinct_map_filter)
    ultimately show False by (simp add: es)
  qed
  have "distinct (map (\<lambda>p. lineKey (fst p)) (concat (map (\<lambda>l. map (Pair l) (?es l)) ls)))" if "distinct (map lineKey ls)" for ls
    using that
  proof (induction ls)
    case (Cons l ls)
    let ?rest = "concat (map (\<lambda>l. map (Pair l) (?es l)) ls)"
    have own: "distinct (map (\<lambda>p. lineKey (fst p)) (map (Pair l) (?es l)))"
      using one [of l] by (cases "?es l") auto
    have rest: "distinct (map (\<lambda>p. lineKey (fst p)) ?rest)" using Cons.IH Cons.prems by simp
    have "lineKey l \<notin> set (map (\<lambda>p. lineKey (fst p)) ?rest)"
    proof
      assume "lineKey l \<in> set (map (\<lambda>p. lineKey (fst p)) ?rest)"
      then obtain l' where "l' \<in> set ls" "lineKey l = lineKey l'" by auto
      then have "lineKey l \<in> set (map lineKey ls)" by simp
      with Cons.prems show False by simp
    qed
    moreover have "set (map (\<lambda>p. lineKey (fst p)) (map (Pair l) (?es l))) \<subseteq> {lineKey l}" by auto
    ultimately have "set (map (\<lambda>p. lineKey (fst p)) (map (Pair l) (?es l))) \<inter> set (map (\<lambda>p. lineKey (fst p)) ?rest) = {}"
      by blast
    with own rest show ?case by (simp only: list.map concat.simps map_append distinct_append simp_thms)
  qed simp
  then show ?thesis using ok by (simp add: books_ok_def joined_concat)
qed

lemma joined_member: "(l, e) \<in> set (joined b) \<longleftrightarrow> l \<in> set (bk_lines b) \<and> e \<in> set (bk_entries b)
    \<and> je_businessId e = jl_businessId l \<and> je_id e = jl_journalEntryId l"
  by (auto simp: joined_def)

lemma postings_distinct:
  assumes "books_ok b" shows "distinct (map rowKey (accountPostings b s a br))"
proof -
  have "distinct (map (\<lambda>p. lineKey (fst p)) (accountLines b s a br))"
    using joined_keys [OF assms] by (simp add: accountLines_def distinct_map_filter)
  then have "inj_on (\<lambda>p. lineKey (fst p)) (set (accountLines b s a br))" "distinct (accountLines b s a br)"
    by (simp_all add: distinct_map)
  moreover have "inj_on keyOf (set (accountLines b s a br))"
  proof (rule inj_onI)
    fix p p' assume m: "p \<in> set (accountLines b s a br)" "p' \<in> set (accountLines b s a br)" and k: "keyOf p = keyOf p'"
    then have "lineKey (fst p) = lineKey (fst p')" by (auto simp: keyOf_def lineKey_def accountLines_def)
    with calculation(1) m show "p = p'" by (auto dest: inj_onD)
  qed
  ultimately have "distinct (map keyOf (accountLines b s a br))" by (simp add: distinct_map)
  then have "distinct (map keyOf (sort_key keyOf (accountLines b s a br)))"
    by (metis distinct_sort distinct_map set_sort)
  then show ?thesis by (simp add: accountPostings_def o_def)
qed

lemma postings_cursors: "books_ok b \<Longrightarrow> list_all (\<lambda>r. ledger_cursor_ok (rowCursor r)) (accountPostings b s a br)"
  by (auto simp: accountPostings_def accountLines_def joined_member list_all_iff books_ok_def ledger_cursor_ok_def rowCursor_def
      toLedgerRow_def Let_def)

subsection \<open>The whole ledger\<close>

lemma found_account:
  "reader_findAccount b s i = Some a \<Longrightarrow> \<exists>r \<in> set (bk_accounts b). a = toAccount r \<and> at_businessId r = rs_businessId s \<and> at_id r = i"
  by (auto simp: reader_findAccount_def find_Some_iff)

lemma upTo_split:
  assumes "lq_from q \<le> lq_to q"
  shows "sum_list (map f (beforeRange q rows)) + sum_list (map f (inRange q rows))
    = sum_list (map (f :: RawLedgerRow \<Rightarrow> int) (filter (\<lambda>r. rw_entryDate r \<le> lq_to q) rows))"
proof (induction rows)
  case (Cons r rows)
  have "rw_entryDate r \<le> lq_to q" if "rw_entryDate r < lq_from q" using that assms by order
  with Cons show ?case by (auto simp: beforeRange_def inRange_def)
qed (simp_all add: beforeRange_def inRange_def)

lemma ledger_walk:
  assumes "books_ok b" "lq_from q \<le> lq_to q" "bk_baseCurrency b (rs_businessId s) = Some cur"
    "reader_findAccount b s (lq_accountId q) = Some a" "rows = accountPostings b s (lq_accountId q) (lq_branch q)"
  shows "\<exists>pages. ledgerWalk (Suc (length (inRange q rows) div nat (boundPage (lq_limit q)))) (ledgerRequest (databaseReader b) s q) None
        = Some (Inr pages) \<and> pages \<noteq> [] \<and> map rawOf (concat (map lp_rows pages)) = inRange q rows
      \<and> lp_openingMinor (hd pages) = sum_list (map (rawNet (as_type a)) (beforeRange q rows))
      \<and> runs_on (as_type a) (lp_openingMinor (hd pages)) (concat (map lp_rows pages))
      \<and> lp_closingMinor (last pages) = sum_list (map (rawNet (as_type a)) (filter (\<lambda>r. rw_entryDate r \<le> lq_to q) rows))
      \<and> (\<forall>p \<in> set pages. length (lp_rows p) \<le> 200)"
proof -
  have "list_all (\<lambda>r. ledger_cursor_ok (rowCursor r)) (inRange q rows)"
    using postings_cursors [OF assms(1)] by (auto simp: assms(5) inRange_def list_all_iff)
  moreover have "rp_baseCurrency (databaseReader b) s = Some cur" "rp_findAccount (databaseReader b) s (lq_accountId q) = Some a"
    using assms by (simp_all add: databaseReader_def)
  moreover have "nat (boundPage (lq_limit q)) \<le> 200" using boundPage_bounds [of "lq_limit q"] by (simp add: MAX_PAGE_SIZE_def nat_le_iff)
  ultimately show ?thesis
    using db.walk_from [OF assms(2) _ _ refl refl postings_distinct [OF assms(1)] refl _ le0] upTo_split [OF assms(2)]
    unfolding assms(5) by (fastforce simp del: ledgerWalk.simps)
qed

subsection \<open>Totals over the chart\<close>

text \<open>A sum over accounts of the sums of their own lines is the sum over the lines.\<close>

lemma sum_by_account:
  assumes "distinct (map at_id accs)" "\<And>p. p \<in> set rows \<Longrightarrow> jl_accountId (fst p) \<in> at_id ` set accs"
  shows "sum_list (map (\<lambda>a. sumOf f (filter (\<lambda>p. jl_accountId (fst p) = at_id a) rows)) accs) = sumOf f rows"
  using assms(2)
proof (induction rows)
  case (Cons p rows)
  have one: "sum_list (map (\<lambda>a. if jl_accountId (fst p) = at_id a then v else 0) accs) = v" if "jl_accountId (fst p) \<in> at_id ` set accs" for v :: int
    using assms(1) that
  proof (induction accs)
    case (Cons a accs)
    then have "sum_list (map (\<lambda>a. if jl_accountId (fst p) = at_id a then v else 0) accs) = 0" if "jl_accountId (fst p) = at_id a"
      using that by (auto intro!: sum_list_0 cong: map_cong simp: image_iff)
    with Cons show ?case by auto
  qed simp
  have split: "sumOf f (filter (\<lambda>p. jl_accountId (fst p) = at_id a) (p # rows))
      = (if jl_accountId (fst p) = at_id a then f p else 0) + sumOf f (filter (\<lambda>p. jl_accountId (fst p) = at_id a) rows)" for a
    by (simp add: sumOf_def)
  have "sum_list (map (\<lambda>a. sumOf f (filter (\<lambda>p. jl_accountId (fst p) = at_id a) (p # rows))) accs)
      = sum_list (map (\<lambda>a. if jl_accountId (fst p) = at_id a then f p else 0) accs)
        + sum_list (map (\<lambda>a. sumOf f (filter (\<lambda>p. jl_accountId (fst p) = at_id a) rows)) accs)"
    by (simp only: split sum_list_addf)
  then show ?case using one [of "f p"] Cons by (simp add: sumOf_def)
qed (simp add: sumOf_def)

text \<open>A sum over the lines of the entries that qualify, entry by entry.\<close>

lemma sum_by_entry:
  "sumOf (\<lambda>p. f (fst p)) (filter (\<lambda>(l, e). jl_businessId l = i \<and> Q e) (joined b))
     = sum_list (map (\<lambda>e. sum_list (map f (entryLines b e))) (filter (\<lambda>e. je_businessId e = i \<and> Q e) (bk_entries b)))"
proof -
  let ?match = "\<lambda>l e. je_businessId e = jl_businessId l \<and> je_id e = jl_journalEntryId l"
  have swap: "sum_list (map (\<lambda>l. sum_list (map (\<lambda>e. g l e) es)) ls) = sum_list (map (\<lambda>e. sum_list (map (\<lambda>l. g l e) ls)) es)"
    for g :: "JournalLineTableRow \<Rightarrow> JournalEntryTableRow \<Rightarrow> int" and ls es
    by (induction ls) (simp_all add: sum_list_addf)
  have guard: "sum_list (map (\<lambda>x. if P x then h x else 0) xs) = sum_list (map h (filter P xs))" for P and h :: "'x \<Rightarrow> int" and xs
    by (induction xs) simp_all
  have pairs: "sumOf g (filter R (map h (filter P es))) = sum_list (map (\<lambda>e. if P e \<and> R (h e) then g (h e) else 0) es)"
    for g R P and h :: "JournalEntryTableRow \<Rightarrow> posted_line" and es
    by (induction es) (simp_all add: sumOf_def)
  have "sumOf (\<lambda>p. f (fst p)) (filter (\<lambda>(l, e). jl_businessId l = i \<and> Q e) (joined b))
      = sum_list (map (\<lambda>l. sum_list (map (\<lambda>e. if ?match l e \<and> jl_businessId l = i \<and> Q e then f l else 0) (bk_entries b))) (bk_lines b))"
  proof -
    have "sumOf (\<lambda>p. f (fst p)) (filter (\<lambda>(l, e). jl_businessId l = i \<and> Q e)
        (concat (map (\<lambda>l. map (Pair l) (filter (?match l) es)) ls)))
      = sum_list (map (\<lambda>l. sum_list (map (\<lambda>e. if ?match l e \<and> jl_businessId l = i \<and> Q e then f l else 0) es)) ls)" for es ls
    proof (induction ls)
      case (Cons l ls)
      have "sumOf (\<lambda>p. f (fst p)) (filter (\<lambda>(l, e). jl_businessId l = i \<and> Q e) (map (Pair l) (filter (?match l) es)))
          = sum_list (map (\<lambda>e. if ?match l e \<and> jl_businessId l = i \<and> Q e then f l else 0) es)"
        using pairs [of "\<lambda>p. f (fst p)" "\<lambda>(l, e). jl_businessId l = i \<and> Q e" "Pair l" "?match l" es] by (simp cong: if_cong)
      with Cons show ?case by (simp add: sumOf_def)
    qed (simp add: sumOf_def)
    then show ?thesis by (simp add: joined_concat)
  qed
  also have "\<dots> = sum_list (map (\<lambda>e. sum_list (map (\<lambda>l. if ?match l e \<and> jl_businessId l = i \<and> Q e then f l else 0) (bk_lines b))) (bk_entries b))"
    by (rule swap)
  also have "\<dots> = sum_list (map (\<lambda>e. if je_businessId e = i \<and> Q e then sum_list (map f (entryLines b e)) else 0) (bk_entries b))"
  proof (rule arg_cong [where f = sum_list], rule map_cong [OF refl])
    fix e
    have "(\<lambda>l. if ?match l e \<and> jl_businessId l = i \<and> Q e then f l else 0)
        = (\<lambda>l. if (jl_businessId l = je_businessId e \<and> jl_journalEntryId l = je_id e) \<and> (je_businessId e = i \<and> Q e) then f l else 0)"
      by (rule ext) auto
    then show "sum_list (map (\<lambda>l. if ?match l e \<and> jl_businessId l = i \<and> Q e then f l else 0) (bk_lines b))
        = (if je_businessId e = i \<and> Q e then sum_list (map f (entryLines b e)) else 0)"
      by (cases "je_businessId e = i \<and> Q e") (simp_all only: guard entryLines_def simp_thms if_True if_False sum_list_map_const_0)
  qed
  finally show ?thesis by (simp add: guard)
qed

subsection \<open>The trial balance\<close>

definition normalNets :: "NormalBalance \<Rightarrow> TrialBalanceRow list \<Rightarrow> int" where
  "normalNets n rows = sum_list (map tr_netMinor (filter (\<lambda>r. normalBalanceOf (tr_type r) = n) rows))"

definition ownSum :: "(posted_line \<Rightarrow> int) \<Rightarrow> posted_line list \<Rightarrow> AccountTableRow \<Rightarrow> int" where
  "ownSum f rows a = sumOf f (filter (\<lambda>p. jl_accountId (fst p) = at_id a) rows)"

lemma sum_own:
  assumes "distinct (map at_id accs)" "\<And>p. p \<in> set rows \<Longrightarrow> jl_accountId (fst p) \<in> at_id ` set accs"
  shows "sum_list (map (ownSum f rows) accs) = sumOf f rows"
  using sum_by_account [OF assms] by (simp only: ownSum_def [abs_def])

lemma trialBalanceRows_totals:
  "\<exists>shown. trialBalanceRows cur zero (map (toTotals rows) accs)
     = Inr (shown, sum_list (map (ownSum debitOf rows) accs), sum_list (map (ownSum creditOf rows) accs))
   \<and> normalNets Normal_debit shown - normalNets Normal_credit shown
     = sum_list (map (ownSum debitOf rows) accs) - sum_list (map (ownSum creditOf rows) accs)"
proof (induction accs)
  case (Cons a accs)
  let ?d = "ownSum debitOf rows a" and ?c = "ownSum creditOf rows a"
  let ?row = "\<lparr>tr_accountId = at_id a, tr_code = at_code a, tr_name = at_name a, tr_type = at_type a, tr_isActive = at_isActive a,
    tr_totalDebitMinor = ?d, tr_totalCreditMinor = ?c, tr_netMinor = presentationNet (at_type a) ?d ?c, tr_baseCurrency = cur\<rparr>"
  from Cons obtain shown where s: "trialBalanceRows cur zero (map (toTotals rows) accs)
     = Inr (shown, sum_list (map (ownSum debitOf rows) accs), sum_list (map (ownSum creditOf rows) accs))"
    "normalNets Normal_debit shown - normalNets Normal_credit shown
     = sum_list (map (ownSum debitOf rows) accs) - sum_list (map (ownSum creditOf rows) accs)" by blast
  have "toTotals rows a = \<lparr>rt_debit = int_string ?d, rt_credit = int_string ?c, rt_accountId = at_id a,
      rt_code = at_code a, rt_name = at_name a, rt_type = at_type a, rt_isActive = at_isActive a\<rparr>"
    by (simp add: toTotals_def ownSum_def Let_def)
  then have "trialBalanceRows cur zero (map (toTotals rows) (a # accs))
      = Inr (if ?d = 0 \<and> ?c = 0 \<and> \<not> zero then shown else ?row # shown,
             sum_list (map (ownSum debitOf rows) (a # accs)), sum_list (map (ownSum creditOf rows) (a # accs)))"
    using s(1) by simp
  moreover have "normalNets Normal_debit (if ?d = 0 \<and> ?c = 0 \<and> \<not> zero then shown else ?row # shown)
      - normalNets Normal_credit (if ?d = 0 \<and> ?c = 0 \<and> \<not> zero then shown else ?row # shown)
      = sum_list (map (ownSum debitOf rows) (a # accs)) - sum_list (map (ownSum creditOf rows) (a # accs))"
    using s(2) by (cases "normalBalanceOf (at_type a)") (simp_all add: normalNets_def presentationNet_def)
  ultimately show ?case by blast
qed (simp add: normalNets_def)

lemma trialBalance_whole:
  assumes ok: "books_ok b" and cur: "bk_baseCurrency b (rs_businessId s) = Some cur" and whole: "tq_branch q = Mode_all None"
  defines "moved \<equiv> sum_list (map (\<lambda>e. sum_list (map jl_debitMinor (entryLines b e)))
      (filter (\<lambda>e. je_businessId e = rs_businessId s \<and> rangeCondition (tq_range q) (je_entryDate e)) (bk_entries b)))"
  shows "\<exists>r. trialBalance (databaseReader b) s q = Inr r \<and> tp_kind r = Whole_business \<and> tp_isBalanced r
    \<and> tp_totalDebitMinor r = moved \<and> tp_totalCreditMinor r = moved
    \<and> normalNets Normal_debit (tp_rows r) = normalNets Normal_credit (tp_rows r)"
proof -
  let ?accs = "sort_key (\<lambda>a. bk_collation b (at_code a)) (filter (\<lambda>a. at_businessId a = rs_businessId s) (bk_accounts b))"
  let ?rows = "filter (\<lambda>(l, e). jl_businessId l = rs_businessId s \<and> rangeCondition (tq_range q) (je_entryDate e)) (joined b)"
  have raw: "reader_trialBalanceTotals b s q = map (toTotals ?rows) ?accs"
    by (simp add: reader_trialBalanceTotals_def accountTotalsSql_def whole case_prod_unfold)
  have "distinct (map at_id (filter (\<lambda>a. at_businessId a = rs_businessId s) (bk_accounts b)))"
    using ok unfolding books_ok_def distinct_map by (auto simp: inj_on_def)
  then have d: "distinct (map at_id ?accs)" by (auto simp: distinct_map)
  have m: "jl_accountId (fst p) \<in> at_id ` set ?accs" if "p \<in> set ?rows" for p
  proof -
    obtain l e where p: "p = (l, e)" by (cases p)
    with that have l: "l \<in> set (bk_lines b)" "jl_businessId l = rs_businessId s" by (simp_all add: joined_member)
    with ok obtain a where "a \<in> set (bk_accounts b)" "at_businessId a = jl_businessId l" "at_id a = jl_accountId l"
      by (auto simp: books_ok_def list_all_iff list_ex_iff)
    with l p show ?thesis by (auto simp: image_iff intro: bexI [of _ a])
  qed
  have bal: "sum_list (map jl_debitMinor (entryLines b e)) = sum_list (map jl_creditMinor (entryLines b e))" if "e \<in> set (bk_entries b)" for e
    using ok that by (simp add: books_ok_def list_all_iff)
  have t: "sumOf debitOf ?rows = moved"
    using sum_by_entry [of jl_debitMinor "rs_businessId s" "\<lambda>e. rangeCondition (tq_range q) (je_entryDate e)" b]
    by (simp add: moved_def debitOf_def [abs_def] fun_eq_iff [symmetric])
  have t': "sumOf creditOf ?rows = moved"
  proof -
    have "sumOf creditOf ?rows = sum_list (map (\<lambda>e. sum_list (map jl_creditMinor (entryLines b e)))
        (filter (\<lambda>e. je_businessId e = rs_businessId s \<and> rangeCondition (tq_range q) (je_entryDate e)) (bk_entries b)))"
      using sum_by_entry [of jl_creditMinor "rs_businessId s" "\<lambda>e. rangeCondition (tq_range q) (je_entryDate e)" b]
      by (simp add: creditOf_def [abs_def])
    also have "\<dots> = moved" unfolding moved_def by (rule arg_cong [where f = sum_list], rule map_cong [OF refl]) (simp add: bal)
    finally show ?thesis .
  qed
  have own: "sum_list (map (ownSum f ?rows) ?accs) = sumOf f ?rows" for f by (rule sum_own [OF d m])
  from trialBalanceRows_totals [of cur "tq_includeZeroActivity q = Some True" ?rows ?accs] obtain shown where
    "trialBalanceRows cur (tq_includeZeroActivity q = Some True) (map (toTotals ?rows) ?accs) = Inr (shown, moved, moved)"
    "normalNets Normal_debit shown - normalNets Normal_credit shown = 0"
    unfolding own t t' by auto
  then show ?thesis
    by (simp add: trialBalance_def requireBaseCurrency_def databaseReader_def cur raw whole isWholeBusinessScope_def Let_def)
qed

subsection \<open>The balance of an account\<close>

lemma single_account:
  assumes "books_ok b" "reader_findAccount b s i = Some a"
  shows "\<exists>r. filter (\<lambda>a. at_businessId a = rs_businessId s \<and> at_id a = i) (bk_accounts b) = [r] \<and> a = toAccount r"
proof -
  from found_account [OF assms(2)] obtain r where r: "r \<in> set (bk_accounts b)" "a = toAccount r"
    "at_businessId r = rs_businessId s" "at_id r = i" by blast
  let ?P = "\<lambda>a. (at_businessId a, at_id a) = (rs_businessId s, i)"
  have one: "filter (\<lambda>x. f x = y) xs = [x]" if "distinct (map f xs)" "x \<in> set xs" "f x = y" for f :: "AccountTableRow \<Rightarrow> string \<times> string" and xs x y
    using that
  proof (induction xs)
    case (Cons z zs)
    show ?case
    proof (cases "f z = y")
      case True
      then have "f z \<in> f ` set zs" if "x \<noteq> z" using that Cons.prems(2,3) by (metis imageI set_ConsD)
      with Cons.prems(1) have "x = z" by auto
      moreover have "filter (\<lambda>x. f x = y) zs = []" using Cons.prems(1) True by (force simp: filter_empty_conv image_iff)
      ultimately show ?thesis using True by simp
    next
      case False
      with Cons show ?thesis by auto
    qed
  qed simp
  have "filter ?P (bk_accounts b) = [r]"
    using assms(1) r by (intro one) (simp_all add: books_ok_def)
  with r(2) show ?thesis by auto
qed

lemma balance_asOf:
  assumes ok: "books_ok b" and cur: "bk_baseCurrency b (rs_businessId s) = Some cur" and acct: "reader_findAccount b s i = Some a"
  shows "balances (databaseReader b) s \<lparr>bq_asOf = d, bq_accountIds = Some [i], bq_branch = br, bq_includeZeroActivity = Some True\<rparr>
    = Inr [\<lparr>ab_accountId = i, ab_code = as_code a, ab_name = as_name a, ab_type = as_type a, ab_isActive = as_isActive a,
      ab_balanceMinor = sum_list (map (rawNet (as_type a)) (filter (\<lambda>r. rw_entryDate r \<le> d) (accountPostings b s i br))),
      ab_currency = cur, ab_asOf = d\<rparr>]"
proof -
  from single_account [OF ok acct] obtain r where r: "filter (\<lambda>a. at_businessId a = rs_businessId s \<and> at_id a = i) (bk_accounts b) = [r]"
    and a: "a = toAccount r" by blast
  have i: "at_id r = i" using arg_cong [OF r, of set] by auto
  let ?q = "\<lparr>bq_asOf = d, bq_accountIds = Some [i], bq_branch = br, bq_includeZeroActivity = Some True\<rparr>"
  have lines: "filter (\<lambda>p. jl_accountId (fst p) = i) (filter (\<lambda>(l, e). jl_businessId l = rs_businessId s \<and> je_entryDate e \<le> d
        \<and> branchPredicate br (jl_branchId l) \<and> accountFilter ?q (jl_accountId l)) (joined b))
      = filter (\<lambda>p. je_entryDate (snd p) \<le> d) (accountLines b s i br)"
    unfolding accountLines_def filter_filter
    by (rule filter_cong [OF refl]) (simp add: accountFilter_def case_prod_unfold, blast)
  have "reader_balanceTotals b s ?q = [\<lparr>
      rt_debit = int_string (sumOf debitOf (filter (\<lambda>p. je_entryDate (snd p) \<le> d) (accountLines b s i br))),
      rt_credit = int_string (sumOf creditOf (filter (\<lambda>p. je_entryDate (snd p) \<le> d) (accountLines b s i br))),
      rt_accountId = i, rt_code = at_code r, rt_name = at_name r, rt_type = at_type r, rt_isActive = at_isActive r\<rparr>]"
  proof -
    have f: "(\<lambda>a. at_businessId a = rs_businessId s \<and> accountFilter ?q (at_id a)) = (\<lambda>a. at_businessId a = rs_businessId s \<and> at_id a = i)"
      by (simp add: accountFilter_def)
    show ?thesis
      unfolding reader_balanceTotals_def accountTotalsSql_def f r
      by (simp add: toTotals_def Let_def i lines [simplified])
  qed
  then show ?thesis
    by (simp add: balances_def requireBaseCurrency_def databaseReader_def cur a toAccount_def accountPostings_net [where P = "\<lambda>x. x \<le> d"])
qed

subsection \<open>Properties\<close>

text \<open>C24: Following the cursors of a ledger ends: with one request more than whole pages fit, a client has been shown every
  posting of the account in the range and in its branches, each once and in order, never more than 200 at a time, with the
  running balance continuing from page to page from everything posted before the range to everything posted up to its end.\<close>

theorem ledger_walk_complete:
  assumes "books_ok b" "lq_from q \<le> lq_to q" "bk_baseCurrency b (rs_businessId s) = Some cur"
    "reader_findAccount b s (lq_accountId q) = Some a" "rows = accountPostings b s (lq_accountId q) (lq_branch q)"
  shows "\<exists>pages. ledgerWalk (Suc (length (inRange q rows) div nat (boundPage (lq_limit q)))) (ledgerRequest (databaseReader b) s q) None
        = Some (Inr pages) \<and> pages \<noteq> [] \<and> map rawOf (concat (map lp_rows pages)) = inRange q rows
      \<and> lp_openingMinor (hd pages) = sum_list (map (rawNet (as_type a)) (beforeRange q rows))
      \<and> runs_on (as_type a) (lp_openingMinor (hd pages)) (concat (map lp_rows pages))
      \<and> lp_closingMinor (last pages) = sum_list (map (rawNet (as_type a)) (filter (\<lambda>r. rw_entryDate r \<le> lq_to q) rows))
      \<and> (\<forall>p \<in> set pages. length (lp_rows p) \<le> 200)"
  using assms by (rule ledger_walk)

definition sample_id :: "char \<Rightarrow> string" where
  "sample_id c = ''0b000000-0000-4000-8000-00000000000'' @ [c]"

definition sample_line :: "char \<Rightarrow> int \<Rightarrow> char \<Rightarrow> int \<Rightarrow> int \<Rightarrow> JournalLineTableRow" where
  "sample_line e n a d c = \<lparr>jl_businessId = ''b'', jl_journalEntryId = sample_id e, jl_lineNo = n, jl_accountId = sample_id a,
     jl_debitMinor = d, jl_creditMinor = c, jl_baseAmountMinor = d + c, jl_baseCurrency = ''EUR'', jl_txnAmountMinor = d + c,
     jl_txnCurrency = ''EUR'', jl_fxRate = ''1'', jl_fxRateSource = ''base'', jl_fxRateAt = Some 0, jl_branchId = None,
     jl_warehouseId = None, jl_memo = None\<rparr>"

definition sample_entry :: "char \<Rightarrow> string \<Rightarrow> JournalEntryTableRow" where
  "sample_entry e d = \<lparr>je_businessId = ''b'', je_id = sample_id e, je_entryDate = d, je_sourceType = ''manual_adjustment'',
     je_sourceId = sample_id e, je_description = None, je_actorKind = ''user'', je_actorUserId = None, je_actorSystemKey = None,
     je_createdAt = Some 0\<rparr>"

definition sample_account :: "char \<Rightarrow> AccountType \<Rightarrow> AccountTableRow" where
  "sample_account a t = \<lparr>at_businessId = ''b'', at_id = sample_id a, at_code = [a], at_name = [a], at_type = t, at_systemKey = None,
     at_isActive = True\<rparr>"

definition sample_books :: Books where
  "sample_books = \<lparr>bk_baseCurrency = (\<lambda>i. if i = ''b'' then Some ''EUR'' else None), bk_collation = (\<lambda>c. int (length c)),
     bk_accounts = [sample_account (CHR ''1'') Type_asset, sample_account (CHR ''2'') Type_equity],
     bk_entries = [sample_entry (CHR ''a'') ''2024-01-31'', sample_entry (CHR ''b'') ''2024-02-29'', sample_entry (CHR ''c'') ''2024-02-29''],
     bk_lines = [sample_line (CHR ''a'') 1 (CHR ''1'') 500 0, sample_line (CHR ''a'') 2 (CHR ''2'') 0 500,
       sample_line (CHR ''c'') 1 (CHR ''1'') 0 70, sample_line (CHR ''c'') 2 (CHR ''2'') 70 0,
       sample_line (CHR ''b'') 1 (CHR ''1'') 30 0, sample_line (CHR ''b'') 2 (CHR ''2'') 0 30]\<rparr>"

definition sample_scope :: ReportScope where "sample_scope = \<lparr>rs_tenantId = ''t'', rs_businessId = ''b''\<rparr>"

definition sample_query :: LedgerQuery where
  "sample_query = \<lparr>lq_accountId = sample_id (CHR ''1''), lq_from = ''2024-02-01'', lq_to = ''2024-02-29'', lq_branch = Mode_all None,
     lq_limit = Finite 1, lq_cursor = None\<rparr>"

lemma sample_books_ok: "books_ok sample_books" by code_simp

lemma sample_books_read:
  "lq_from sample_query \<le> lq_to sample_query" "bk_baseCurrency sample_books (rs_businessId sample_scope) = Some ''EUR''"
  "reader_findAccount sample_books sample_scope (lq_accountId sample_query) = Some (toAccount (sample_account (CHR ''1'') Type_asset))"
  "map rw_debit (inRange sample_query (accountPostings sample_books sample_scope (sample_id (CHR ''1'')) (Mode_all None))) = [''30'', ''0'']"
  by code_simp+

theorem ledger_walk_complete_witness:
  "\<exists>pages. ledgerWalk 3 (ledgerRequest (databaseReader sample_books) sample_scope sample_query) None = Some (Inr pages)
    \<and> map (\<lambda>r. rw_debit (rawOf r)) (concat (map lp_rows pages)) = [''30'', ''0'']"
proof -
  let ?rows = "accountPostings sample_books sample_scope (lq_accountId sample_query) (lq_branch sample_query)"
  have q: "lq_accountId sample_query = sample_id (CHR ''1'')" "lq_branch sample_query = Mode_all None" by (simp_all add: sample_query_def)
  have d: "map rw_debit (inRange sample_query ?rows) = [''30'', ''0'']" using sample_books_read(4) by (simp only: q)
  then have "length (inRange sample_query ?rows) = 2" by (metis length_map length_Cons list.size(3) numeral_2_eq_2)
  moreover have "boundPage (lq_limit sample_query) = 1" by (simp add: boundPage_def sample_query_def MAX_PAGE_SIZE_def)
  ultimately have n: "Suc (length (inRange sample_query ?rows) div nat (boundPage (lq_limit sample_query))) = 3" by simp
  from ledger_walk_complete [OF sample_books_ok sample_books_read(1-3) refl] obtain pages where
    p: "ledgerWalk 3 (ledgerRequest (databaseReader sample_books) sample_scope sample_query) None = Some (Inr pages)"
      "map rawOf (concat (map lp_rows pages)) = inRange sample_query ?rows" unfolding n by blast
  have "map (\<lambda>r. rw_debit (rawOf r)) (concat (map lp_rows pages)) = map rw_debit (map rawOf (concat (map lp_rows pages)))"
    by (simp only: map_map o_def)
  with p d show ?thesis by (intro exI [of _ pages] conjI) simp_all
qed

text \<open>C25: The ledger and the balance report agree: the closing balance of the last page of an account's ledger is the
  balance of that account as of the last day of the range, for every range, branch filter and page size.\<close>

theorem ledger_closes_at_balance:
  assumes "books_ok b" "lq_from q \<le> lq_to q" "bk_baseCurrency b (rs_businessId s) = Some cur"
    "reader_findAccount b s (lq_accountId q) = Some a"
    "n = Suc (length (inRange q (accountPostings b s (lq_accountId q) (lq_branch q))) div nat (boundPage (lq_limit q)))"
  shows "\<exists>pages row. ledgerWalk n (ledgerRequest (databaseReader b) s q) None = Some (Inr pages)
      \<and> balances (databaseReader b) s \<lparr>bq_asOf = lq_to q, bq_accountIds = Some [lq_accountId q], bq_branch = lq_branch q,
            bq_includeZeroActivity = Some True\<rparr> = Inr [row]
      \<and> ab_accountId row = lq_accountId q \<and> ab_balanceMinor row = lp_closingMinor (last pages)"
  using ledger_walk [OF assms(1-4) refl] balance_asOf [OF assms(1,3,4), of "lq_to q" "lq_branch q"]
  unfolding assms(5) by (auto simp del: ledgerWalk.simps)

theorem ledger_closes_at_balance_witness:
  "\<exists>pages row. ledgerWalk 3 (ledgerRequest (databaseReader sample_books) sample_scope sample_query) None = Some (Inr pages)
      \<and> balances (databaseReader sample_books) sample_scope \<lparr>bq_asOf = ''2024-02-29'', bq_accountIds = Some [sample_id (CHR ''1'')],
            bq_branch = Mode_all None, bq_includeZeroActivity = Some True\<rparr> = Inr [row]
      \<and> ab_balanceMinor row = lp_closingMinor (last pages)"
proof -
  let ?rows = "accountPostings sample_books sample_scope (lq_accountId sample_query) (lq_branch sample_query)"
  have q: "lq_accountId sample_query = sample_id (CHR ''1'')" "lq_branch sample_query = Mode_all None" "lq_to sample_query = ''2024-02-29''"
    by (simp_all add: sample_query_def)
  have "map rw_debit (inRange sample_query ?rows) = [''30'', ''0'']" using sample_books_read(4) by (simp only: q)
  then have "length (inRange sample_query ?rows) = 2" by (metis length_map length_Cons list.size(3) numeral_2_eq_2)
  moreover have "boundPage (lq_limit sample_query) = 1" by (simp add: boundPage_def sample_query_def MAX_PAGE_SIZE_def)
  ultimately have "3 = Suc (length (inRange sample_query ?rows) div nat (boundPage (lq_limit sample_query)))" by simp
  from ledger_closes_at_balance [OF sample_books_ok sample_books_read(1-3) this] show ?thesis unfolding q by blast
qed

text \<open>C26: The trial balance of the whole business over sound books is never refused: over any date or range its two totals
  are equal, they are what the entries in the range moved, and the net amounts of the debit-normal accounts equal those of
  the credit-normal ones, whichever accounts are shown.\<close>

theorem trial_balance_balances:
  assumes "books_ok b" "bk_baseCurrency b (rs_businessId s) = Some cur" "tq_branch q = Mode_all None"
  shows "\<exists>r. trialBalance (databaseReader b) s q = Inr r \<and> tp_kind r = Whole_business \<and> tp_isBalanced r
    \<and> tp_totalDebitMinor r = sum_list (map (\<lambda>e. sum_list (map jl_debitMinor (entryLines b e)))
        (filter (\<lambda>e. je_businessId e = rs_businessId s \<and> rangeCondition (tq_range q) (je_entryDate e)) (bk_entries b)))
    \<and> tp_totalCreditMinor r = tp_totalDebitMinor r
    \<and> normalNets Normal_debit (tp_rows r) = normalNets Normal_credit (tp_rows r)"
  using trialBalance_whole [OF assms] by auto

theorem trial_balance_balances_witness:
  "\<exists>r. trialBalance (databaseReader sample_books) sample_scope
      \<lparr>tq_range = As_of ''2024-02-15'', tq_branch = Mode_all None, tq_includeZeroActivity = None\<rparr> = Inr r \<and> tp_totalCreditMinor r = 500"
proof -
  let ?q = "\<lparr>tq_range = As_of ''2024-02-15'', tq_branch = Mode_all None, tq_includeZeroActivity = None\<rparr>"
  have "sum_list (map (\<lambda>e. sum_list (map jl_debitMinor (entryLines sample_books e)))
      (filter (\<lambda>e. je_businessId e = rs_businessId sample_scope \<and> rangeCondition (tq_range ?q) (je_entryDate e)) (bk_entries sample_books))) = 500"
    by code_simp
  with trial_balance_balances [OF sample_books_ok sample_books_read(2), of ?q] show ?thesis by auto
qed

end
