(* ===== verification/Control_Streams.thy ===== *)
theory Control_Streams
  imports Fx Assertions Document_Text
begin

text \<open>
  What a signed control command of the books covers: packages/accounting/src/period.ts (the
  stream \<open>acctperiod/1\<close>, the identity of a reopening reason), fx-rate.ts (the stream
  \<open>fxrate/1\<close>) and the identities both derive from an idempotency key
  (\<open>deriveAccountingResourceId\<close> of sources.ts).

  SHA-256 is a parameter from the bytes to the bytes of the digest. A reason is UTF-16 text,
  every other field ASCII text. The kind and the source are kept as text, since the code
  tests them.

  The lemmas show that a stream determines its command, that no two kinds share a stream,
  and that a derived identity is a version 5 UUID that binds its label, business and key.
\<close>

unbundle bit_operations_syntax

subsection \<open>Digests as text\<close>

definition hex_digit :: "nat \<Rightarrow> char" where
  "hex_digit n = char_of (if n < 10 then 48 + n else 87 + n)"

text \<open>\<open>buffer.toString('hex')\<close>, and the bytes of ASCII text.\<close>

definition hexText :: "octets \<Rightarrow> string" where
  "hexText d = concat (map (\<lambda>w. [hex_digit (unat w div 16), hex_digit (unat w mod 16)]) d)"

definition ascii_octets :: "string \<Rightarrow> octets" where
  "ascii_octets s = map (\<lambda>c. octet (of_char c)) s"

subsection \<open>Accounting periods\<close>

definition ACCOUNTING_PERIOD_COMMAND_KINDS :: "string list" where
  "ACCOUNTING_PERIOD_COMMAND_KINDS = [''period_create'', ''period_close'', ''period_reopen'']"

definition ACCTPERIOD_VERSION :: string where "ACCTPERIOD_VERSION = ''acctperiod/1''"
definition PERIOD_REASON_MAX_LENGTH :: nat where "PERIOD_REASON_MAX_LENGTH = 500"

text \<open>\<open>/^[ \t\n\r]+|[ \t\n\r]+$/g\<close>\<close>

definition TRIMMED :: "16 word \<Rightarrow> bool" where
  "TRIMMED u \<longleftrightarrow> u = 32 \<or> u = 9 \<or> u = 10 \<or> u = 13"

definition normalizePeriodReason :: "utf16 \<Rightarrow> utf16 result" where
  "normalizePeriodReason raw =
     (let reason = strip TRIMMED raw
      in if reason = [] then refuse (AccountingError accounting_period_reopen_reason_required)
         else if PERIOD_REASON_MAX_LENGTH < length (code_points reason)
           then refuse (AccountingError accounting_period_reopen_reason_required)
         else Inr reason)"

definition periodReasonDigest :: "(octets \<Rightarrow> octets) \<Rightarrow> utf16 \<Rightarrow> string result" where
  "periodReasonDigest sha reason = bindR (normalizePeriodReason reason) (\<lambda>r. Inr (hexText (sha (utf8 r))))"

record PeriodCommandFacts =
  pc_kind :: string
  pc_tenantId :: string
  pc_businessId :: string
  pc_operationId :: string
  pc_periodId :: string
  pc_startDate :: "string option"
  pc_endDate :: "string option"
  pc_reason :: "utf16 option"

definition periodCanonicalStream :: "(octets \<Rightarrow> octets) \<Rightarrow> PeriodCommandFacts \<Rightarrow> string result" where
  "periodCanonicalStream sha facts =
     (if pc_kind facts \<notin> set ACCOUNTING_PERIOD_COMMAND_KINDS then payload_invalid_fp
      else bindR (canonicalUuid (pc_tenantId facts)) (\<lambda>tenant.
           bindR (canonicalUuid (pc_businessId facts)) (\<lambda>business.
           bindR (canonicalUuid (pc_operationId facts)) (\<lambda>operation.
           bindR (canonicalUuid (pc_periodId facts)) (\<lambda>period.
             let head = [ACCTPERIOD_VERSION, pc_kind facts, tenant, business, operation, period]
             in if pc_kind facts = ''period_create'' then
                  (case (pc_startDate facts, pc_endDate facts) of
                     (Some startDate, Some endDate) \<Rightarrow>
                       bindR (canonicalDate startDate) (\<lambda>start.
                       bindR (canonicalDate endDate) (\<lambda>stop.
                         if stop < start then refuse (AccountingError accounting_period_range_invalid)
                         else Inr (joinWith LF (head @ [start, stop, []]))))
                   | _ \<Rightarrow> refuse (AccountingError accounting_payload_missing_field))
                else if pc_kind facts = ''period_reopen'' then
                  (case pc_reason facts of
                     None \<Rightarrow> refuse (AccountingError accounting_period_reopen_reason_required)
                   | Some reason \<Rightarrow> bindR (periodReasonDigest sha reason) (\<lambda>digest.
                       Inr (joinWith LF (head @ [digest, []]))))
                else Inr (joinWith LF (head @ [[]])))))))"

definition computePeriodFingerprint :: "(octets \<Rightarrow> octets) \<Rightarrow> PeriodCommandFacts \<Rightarrow> string result" where
  "computePeriodFingerprint sha facts =
     bindR (periodCanonicalStream sha facts) (\<lambda>s. Inr (hexText (sha (ascii_octets s))))"

subsection \<open>Exchange rates\<close>

definition FX_RATE_SOURCE :: string where "FX_RATE_SOURCE = ''manual''"
definition FXRATE_VERSION :: string where "FXRATE_VERSION = ''fxrate/1''"

record FxRateFacts =
  fr_tenantId :: string
  fr_businessId :: string
  fr_rateId :: string
  fr_fromCurrency :: string
  fr_toCurrency :: string
  fr_rate :: string
  fr_effectiveAt :: instant
  fr_source :: string

definition fxRateCanonicalStream :: "FxRateFacts \<Rightarrow> string result" where
  "fxRateCanonicalStream facts =
     (if fr_source facts \<noteq> ''manual'' then payload_invalid_fp
      else bindR (canonicalCurrency (fr_fromCurrency facts)) (\<lambda>from_currency.
           bindR (canonicalCurrency (fr_toCurrency facts)) (\<lambda>to_currency.
             if from_currency = to_currency then refuse (AccountingError accounting_fx_same_currency)
             else bindR (canonicalUuid (fr_tenantId facts)) (\<lambda>tenant.
                  bindR (canonicalUuid (fr_businessId facts)) (\<lambda>business.
                  bindR (canonicalUuid (fr_rateId facts)) (\<lambda>rateId.
                  bindR (canonicalRate (fr_rate facts)) (\<lambda>rate.
                  bindR (canonicalInstantSecond (fr_effectiveAt facts)) (\<lambda>effective.
                    Inr (joinWith LF [FXRATE_VERSION, tenant, business, rateId, from_currency, to_currency, rate,
                           effective, fr_source facts, []])))))))))"

definition computeFxRateFingerprint :: "(octets \<Rightarrow> octets) \<Rightarrow> FxRateFacts \<Rightarrow> string result" where
  "computeFxRateFingerprint sha facts = bindR (fxRateCanonicalStream facts) (\<lambda>s. Inr (hexText (sha (ascii_octets s))))"

subsection \<open>Derived identities\<close>

text \<open>\<open>b[i] ?? 0\<close>\<close>

definition byte_at :: "octets \<Rightarrow> nat \<Rightarrow> 8 word" where
  "byte_at b i = (if i < length b then b ! i else 0)"

definition uuid_v5 :: "octets \<Rightarrow> octets" where
  "uuid_v5 digest = (let b = take 16 digest; b = b[6 := (byte_at b 6 AND 0x0f) OR 0x50]
     in b[8 := (byte_at b 8 AND 0x3f) OR 0x80])"

definition uuid_slices :: "string \<Rightarrow> string" where
  "uuid_slices h = take 8 h @ ''-'' @ take 4 (drop 8 h) @ ''-'' @ take 4 (drop 12 h) @ ''-'' @ take 4 (drop 16 h)
     @ ''-'' @ drop 20 h"

definition printable :: "char \<Rightarrow> bool" where
  "printable c \<longleftrightarrow> 0x20 \<le> (of_char c :: nat) \<and> (of_char c :: nat) \<le> 0x7e"

definition resource_preimage :: "string \<Rightarrow> string \<Rightarrow> string \<Rightarrow> string" where
  "resource_preimage domain businessId key = domain @ LF # toLowerCase businessId @ LF # key"

definition deriveAccountingResourceId :: "(octets \<Rightarrow> octets) \<Rightarrow> string \<Rightarrow> string \<Rightarrow> string \<Rightarrow> string result" where
  "deriveAccountingResourceId sha domain businessId idempotencyKey =
     (let key = trim idempotencyKey
      in if length key < 8 \<or> 200 < length key \<or> \<not> list_all printable key then payload_invalid_fp
         else if \<not> uuid_any_case businessId then payload_invalid_fp
         else Inr (uuid_slices (hexText (uuid_v5 (sha (ascii_octets (resource_preimage domain businessId key)))))))"

definition SOURCE_LABEL :: string where "SOURCE_LABEL = ''daftar/accounting-source-id/v1''"
definition FX_RATE_LABEL :: string where "FX_RATE_LABEL = ''daftar/accounting-fx-rate-id/v1''"
definition PERIOD_LABEL :: string where "PERIOD_LABEL = ''daftar/accounting-period-id/v1''"
definition PERIOD_OPERATION_LABEL :: string where "PERIOD_OPERATION_LABEL = ''daftar/accounting-period-operation-id/v1''"

definition deriveSourceId :: "(octets \<Rightarrow> octets) \<Rightarrow> string \<Rightarrow> string \<Rightarrow> string result" where
  "deriveSourceId sha = deriveAccountingResourceId sha SOURCE_LABEL"

definition deriveFxRateId :: "(octets \<Rightarrow> octets) \<Rightarrow> string \<Rightarrow> string \<Rightarrow> string result" where
  "deriveFxRateId sha = deriveAccountingResourceId sha FX_RATE_LABEL"

definition derivePeriodId :: "(octets \<Rightarrow> octets) \<Rightarrow> string \<Rightarrow> string \<Rightarrow> string result" where
  "derivePeriodId sha = deriveAccountingResourceId sha PERIOD_LABEL"

definition derivePeriodOperationId :: "(octets \<Rightarrow> octets) \<Rightarrow> string \<Rightarrow> string \<Rightarrow> string result" where
  "derivePeriodOperationId sha = deriveAccountingResourceId sha PERIOD_OPERATION_LABEL"

subsection \<open>Digest text and derived identities\<close>

lemma hex_digit_hex: "n < 16 \<Longrightarrow> is_hex (hex_digit n)"
  by (auto simp: is_hex_def is_digit_def hex_digit_def)

lemma hex_digit_inject: "m < 16 \<Longrightarrow> n < 16 \<Longrightarrow> hex_digit m = hex_digit n \<longleftrightarrow> m = n"
  unfolding of_char_eq_iff [where 'a = nat, symmetric] by (auto simp: hex_digit_def)

lemma octet_bound: "unat (w :: 8 word) < 256"
  using unsigned_less [of w] by simp

lemma hexText_hex: "list_all is_hex (hexText d)" "length (hexText d) = 2 * length d"
proof -
  have "unat w div 16 < 16" for w :: "8 word" using octet_bound [of w] by (simp add: less_mult_imp_div_less)
  then show "list_all is_hex (hexText d)" "length (hexText d) = 2 * length d"
    by (induction d) (auto simp: hexText_def hex_digit_hex)
qed

lemma hexText_Cons: "hexText (w # d) = hex_digit (unat w div 16) # hex_digit (unat w mod 16) # hexText d"
  by (simp add: hexText_def)

lemma hexText_inject: "hexText d = hexText e \<longleftrightarrow> d = e"
proof
  show "hexText d = hexText e \<Longrightarrow> d = e"
  proof (induction d arbitrary: e)
    case Nil
    then show ?case using hexText_hex(2) [of e] by (simp add: hexText_def)
  next
    case (Cons w d)
    then obtain v e' where e: "e = v # e'" by (cases e) (auto simp: hexText_def)
    have "unat w div 16 < 16" "unat v div 16 < 16"
      using octet_bound [of w] octet_bound [of v] by (simp_all add: less_mult_imp_div_less)
    with Cons.prems e have "unat w div 16 = unat v div 16" "unat w mod 16 = unat v mod 16" "hexText d = hexText e'"
      by (simp_all add: hexText_Cons hex_digit_inject)
    then show ?case using Cons.IH e by (metis div_mult_mod_eq unsigned_word_eqI)
  qed
qed simp

lemma ascii_octets_inject: "ascii_octets s = ascii_octets t \<longleftrightarrow> s = t"
proof -
  have "octet (of_char c) = octet (of_char d) \<longleftrightarrow> c = d" for c d :: char
    by (subst octet_inject) (simp_all add: of_char_eq_iff)
  then have "inj (\<lambda>c :: char. octet (of_char c))" by (auto intro: injI)
  then show ?thesis by (simp add: ascii_octets_def inj_map_eq_map)
qed

lemma class_hex: "list_all is_hex h \<Longrightarrow> map uuid_class h = replicate (length h) (CHR ''h'')"
  by (induction h) (auto simp: uuid_class_def is_hex_def is_digit_def)

lemma uuid_slices_uuid: "list_all is_hex h \<Longrightarrow> length h = 32 \<Longrightarrow> is_uuid (uuid_slices h)"
  by (drule class_hex) (simp add: is_uuid_def uuid_slices_def take_map [symmetric] drop_map [symmetric] uuid_class_def
      numeral_eq_Suc)

lemma uuid_slices_inject:
  assumes "length h = 32" "length g = 32" "uuid_slices h = uuid_slices g" shows "h = g"
proof -
  have cut: "h = take 8 h @ take 4 (drop 8 h) @ take 4 (drop 12 h) @ take 4 (drop 16 h) @ drop 20 h" for h :: string
    using append_take_drop_id [of 4 "drop 8 h"] append_take_drop_id [of 4 "drop 12 h"] append_take_drop_id [of 4 "drop 16 h"]
    by (simp add: drop_drop)
  have "take 8 h = take 8 g" "take 4 (drop 8 h) = take 4 (drop 8 g)" "take 4 (drop 12 h) = take 4 (drop 12 g)"
    "take 4 (drop 16 h) = take 4 (drop 16 g)" "drop 20 h = drop 20 g"
    using assms by (simp_all add: uuid_slices_def)
  then show ?thesis using cut [of h] cut [of g] by simp
qed

lemma uuid_v5_length [simp]: "length (uuid_v5 d) = min 16 (length d)"
  by (simp add: uuid_v5_def Let_def)

lemma derive_eq_Inr:
  "deriveAccountingResourceId sha l b k = Inr u \<longleftrightarrow> 8 \<le> length (trim k) \<and> length (trim k) \<le> 200
     \<and> list_all printable (trim k) \<and> uuid_any_case b
     \<and> u = uuid_slices (hexText (uuid_v5 (sha (ascii_octets (resource_preimage l b (trim k))))))"
  by (auto simp: deriveAccountingResourceId_def Let_def)

lemma printable_plain: "list_all printable k \<Longrightarrow> plain k"
  by (auto simp: plain_def printable_def list_all_iff)

lemma any_case_plain: "uuid_any_case b \<Longrightarrow> plain (toLowerCase b)"
  using uuid_chars [of "toLowerCase b"]
  by (fastforce simp: uuid_any_case_def plain_def list_all_iff is_hex_def is_digit_def)

lemma preimage_inject:
  assumes "plain l" "plain l'" "uuid_any_case b" "uuid_any_case b'"
    "resource_preimage l b k = resource_preimage l' b' k'"
  shows "l = l' \<and> toLowerCase b = toLowerCase b' \<and> k = k'"
  using assms(5) unfolding resource_preimage_def
  by (simp add: lf.cut assms(1,2) any_case_plain assms(3,4))

subsection \<open>Streams as fields\<close>

lemma date_plain: "canonicalDate v = Inr d \<Longrightarrow> plain d"
proof -
  assume "canonicalDate v = Inr d"
  then have "is_calendar_date d" by (auto simp: canonicalDate_def Let_def result_simps)
  then have p: "date_parts d \<noteq> None" by (cases "date_parts d") (auto simp: is_calendar_date_def)
  then have l: "list_all is_digit (take 4 d)" "list_all is_digit (take 2 (drop 5 d))" "list_all is_digit (drop 8 d)"
    by (auto simp: date_parts_def split: if_splits)
  have c: "list_all (\<lambda>c. 32 \<le> (of_char c :: nat)) (take 4 d @ CHR ''-'' # take 2 (drop 5 d) @ CHR ''-'' # drop 8 d)"
    using l [THEN digits_plain] by simp
  obtain q where "date_parts d = Some q" using p by blast
  from date_parts_split [OF this] c have "list_all (\<lambda>c. 32 \<le> (of_char c :: nat)) d" by (rule ssubst)
  then show ?thesis by (simp add: plain_def)
qed

lemma hexText_plain: "plain (hexText d)"
  using hexText_hex(1) [of d] by (auto simp: plain_def list_all_iff is_hex_def is_digit_def)

lemma plain_Nil [simp]: "plain []"
  by (simp add: plain_def)

text \<open>What follows the six common fields, by kind.\<close>

definition period_tail :: "(octets \<Rightarrow> octets) \<Rightarrow> PeriodCommandFacts \<Rightarrow> string list result" where
  "period_tail sha facts =
     (if pc_kind facts = ''period_create'' then
        (case (pc_startDate facts, pc_endDate facts) of
           (Some startDate, Some endDate) \<Rightarrow>
             bindR (canonicalDate startDate) (\<lambda>start.
             bindR (canonicalDate endDate) (\<lambda>stop.
               if stop < start then refuse (AccountingError accounting_period_range_invalid) else Inr [start, stop]))
         | _ \<Rightarrow> refuse (AccountingError accounting_payload_missing_field))
      else if pc_kind facts = ''period_reopen'' then
        (case pc_reason facts of
           None \<Rightarrow> refuse (AccountingError accounting_period_reopen_reason_required)
         | Some reason \<Rightarrow> bindR (periodReasonDigest sha reason) (\<lambda>digest. Inr [digest]))
      else Inr [])"

definition period_ids :: "PeriodCommandFacts \<Rightarrow> string list" where
  "period_ids f = [pc_tenantId f, pc_businessId f, pc_operationId f, pc_periodId f]"

lemma periodCanonicalStream_eq_Inr:
  "periodCanonicalStream sha f = Inr s \<longleftrightarrow> pc_kind f \<in> set ACCOUNTING_PERIOD_COMMAND_KINDS
     \<and> (\<exists>ids fs. mapR canonicalUuid (period_ids f) = Inr ids \<and> period_tail sha f = Inr fs
          \<and> s = joinWith LF (([ACCTPERIOD_VERSION, pc_kind f] @ ids @ fs) @ [[]]))"
proof -
  have "periodCanonicalStream sha f = (if pc_kind f \<notin> set ACCOUNTING_PERIOD_COMMAND_KINDS then payload_invalid_fp
     else bindR (mapR canonicalUuid (period_ids f)) (\<lambda>ids. bindR (period_tail sha f) (\<lambda>fs.
       Inr (joinWith LF (([ACCTPERIOD_VERSION, pc_kind f] @ ids @ fs) @ [[]])))))"
    unfolding periodCanonicalStream_def period_tail_def period_ids_def
    by (simp add: bindR_def Let_def split: sum.split option.split)
  then show ?thesis by (auto simp: result_simps)
qed

lemma period_tail_plain: "period_tail sha f = Inr fs \<Longrightarrow> list_all plain fs"
  by (auto simp: period_tail_def periodReasonDigest_def result_simps date_plain hexText_plain split: if_splits option.splits)

lemma ids_plain: "mapR canonicalUuid ids = Inr us \<Longrightarrow> list_all plain us"
  using mapR_set [of canonicalUuid ids us] by (auto simp: list_all_iff intro: uuid_plain)

lemma kind_plain: "k \<in> set ACCOUNTING_PERIOD_COMMAND_KINDS \<Longrightarrow> plain k"
  by (auto simp: ACCOUNTING_PERIOD_COMMAND_KINDS_def plain_def)

lemma join_LF_inject:
  assumes "list_all plain fs" "list_all plain gs" "joinWith LF (fs @ [[]]) = joinWith LF (gs @ [[]])" shows "fs = gs"
proof -
  have r: "splitOn LF (joinWith LF (hs @ [[]])) = hs @ [[]]" if "list_all plain hs" for hs
    by (rule lf.split_join) (use that in simp_all)
  have "fs @ [[]] = splitOn LF (joinWith LF (fs @ [[]]))" by (rule r [OF assms(1), symmetric])
  also have "\<dots> = splitOn LF (joinWith LF (gs @ [[]]))" by (rule arg_cong [OF assms(3)])
  also have "\<dots> = gs @ [[]]" by (rule r [OF assms(2)])
  finally have "fs @ [[]] = gs @ [[]]" .
  then show ?thesis by simp
qed

text \<open>What a period command says, in canonical form.\<close>

definition reason_text :: "PeriodCommandFacts \<Rightarrow> utf16 result option" where
  "reason_text f = map_option normalizePeriodReason (pc_reason f)"

definition period_said :: "PeriodCommandFacts \<Rightarrow> string \<times> string result list \<times> string result option list \<times> utf16 result option" where
  "period_said f = (pc_kind f, map canonicalUuid (period_ids f),
     if pc_kind f = ''period_create'' then map (map_option canonicalDate) [pc_startDate f, pc_endDate f] else [],
     if pc_kind f = ''period_reopen'' then reason_text f else None)"

text \<open>Two different reasons with one digest: the hash collides, or the text is not well-formed UTF-16.\<close>

definition reason_collision :: "(octets \<Rightarrow> octets) \<Rightarrow> PeriodCommandFacts \<Rightarrow> PeriodCommandFacts \<Rightarrow> bool" where
  "reason_collision sha f f' \<longleftrightarrow> (\<exists>r r'. reason_text f = Some (Inr r) \<and> reason_text f' = Some (Inr r') \<and> r \<noteq> r'
     \<and> (if utf8 r = utf8 r' then LONE_SURROGATE r \<or> LONE_SURROGATE r' else sha (utf8 r) = sha (utf8 r')))"

lemma period_tail_said:
  assumes "period_tail sha f = Inr fs" "period_tail sha f' = Inr fs'" "pc_kind f = pc_kind f'" "\<not> reason_collision sha f f'"
  shows "fs = fs' \<longleftrightarrow> snd (snd (period_said f)) = snd (snd (period_said f'))"
proof (cases "pc_kind f = ''period_create''")
  case True
  then have k: "pc_kind f' = ''period_create''" using assms(3) by simp
  obtain v w where f: "map (map_option canonicalDate) [pc_startDate f, pc_endDate f] = [Some (Inr v), Some (Inr w)]" "fs = [v, w]"
    using assms(1) True by (auto simp: period_tail_def result_simps split: option.splits)
  obtain v' w' where f': "map (map_option canonicalDate) [pc_startDate f', pc_endDate f'] = [Some (Inr v'), Some (Inr w')]" "fs' = [v', w']"
    using assms(2) k by (auto simp: period_tail_def result_simps split: option.splits)
  show ?thesis by (simp only: period_said_def True k f f') simp
next
  case False
  note not_create = this
  show ?thesis
  proof (cases "pc_kind f = ''period_reopen''")
    case True
    with assms(1-3) not_create obtain r r' where r: "reason_text f = Some (Inr r)" "reason_text f' = Some (Inr r')"
      "fs = [hexText (sha (utf8 r))]" "fs' = [hexText (sha (utf8 r'))]"
      by (auto simp: period_tail_def periodReasonDigest_def reason_text_def result_simps split: option.splits)
    then have "fs = fs' \<longleftrightarrow> sha (utf8 r) = sha (utf8 r')" by (simp add: hexText_inject)
    also have "\<dots> \<longleftrightarrow> r = r'"
      using assms(4) r(1,2) utf8_inject [of r r'] by (auto simp: reason_collision_def split: if_splits)
    finally show ?thesis using r True assms(3) by (simp add: period_said_def)
  next
    case False
    with assms not_create show ?thesis by (simp add: period_tail_def period_said_def)
  qed
qed

lemma mapR_same: "mapR f xs = Inr us \<Longrightarrow> mapR f ys = Inr vs \<Longrightarrow> us = vs \<longleftrightarrow> map f xs = map f ys"
proof -
  assume "mapR f xs = Inr us" "mapR f ys = Inr vs"
  then have "map f xs = map Inr us" "map f ys = map Inr vs" by (simp_all add: mapR_eq_map)
  then show ?thesis by (simp add: inj_map_eq_map)
qed

text \<open>What a rate entry says, in canonical form.\<close>

definition rate_said :: "FxRateFacts \<Rightarrow> string result list" where
  "rate_said f = [canonicalUuid (fr_tenantId f), canonicalUuid (fr_businessId f), canonicalUuid (fr_rateId f),
     canonicalCurrency (fr_fromCurrency f), canonicalCurrency (fr_toCurrency f), canonicalRate (fr_rate f),
     canonicalInstantSecond (fr_effectiveAt f)]"

lemma fxRateCanonicalStream_eq_Inr:
  "fxRateCanonicalStream f = Inr s \<longleftrightarrow> fr_source f = ''manual'' \<and> (\<exists>fs. mapR (\<lambda>r. r) (rate_said f) = Inr fs
     \<and> fs ! 3 \<noteq> fs ! 4 \<and> s = joinWith LF ((FXRATE_VERSION # fs @ [''manual'']) @ [[]]))"
  by (auto simp: fxRateCanonicalStream_def rate_said_def result_simps)

lemma rate_said_plain: "mapR (\<lambda>r. r) (rate_said f) = Inr fs \<Longrightarrow> list_all plain fs"
  by (auto simp: rate_said_def result_simps uuid_plain currency_plain rate_plain instant_plain)

text \<open>Two derivations from different facts whose digests agree on the 122 bits an identity keeps.\<close>

definition id_collision :: "(octets \<Rightarrow> octets) \<Rightarrow> string \<Rightarrow> string \<Rightarrow> bool" where
  "id_collision sha p p' \<longleftrightarrow> p \<noteq> p' \<and> uuid_v5 (sha (ascii_octets p)) = uuid_v5 (sha (ascii_octets p'))"

lemma version_nibble: "unat ((w AND 0x0f) OR 0x50 :: 8 word) div 16 = 5"
proof -
  have "drop_bit 4 ((w AND 0x0f) OR 0x50 :: 8 word) = 5" by (simp add: drop_bit_or drop_bit_and)
  then have "unat (drop_bit 4 ((w AND 0x0f) OR 0x50 :: 8 word)) = 5" by simp
  then show ?thesis by (simp add: drop_bit_eq_div unat_div)
qed

lemma variant_nibble: "unat ((w AND 0x3f) OR 0x80 :: 8 word) div 16 \<in> {8, 9, 10, 11}"
proof -
  define x where "x = drop_bit 4 w"
  have eq: "drop_bit 4 ((w AND 0x3f) OR 0x80 :: 8 word) = (x AND 3) OR 8" by (simp add: drop_bit_or drop_bit_and x_def)
  have "x AND 3 = take_bit 2 x" by (simp add: take_bit_eq_mask mask_eq_exp_minus_1 numeral_eq_Suc)
  then have "unat (x AND 3) < 4" by (simp add: take_bit_eq_mod unat_mod)
  moreover have "m < 4 \<Longrightarrow> m \<in> {0, 1, 2, 3}" for m :: nat by auto
  ultimately have "unat (x AND 3) \<in> {0, 1, 2, 3}" by blast
  moreover have "x AND 3 = of_nat (unat (x AND 3))" by (simp only: of_nat_unat ucast_id)
  ultimately obtain n where n: "x AND 3 = of_nat n" "n \<in> {0, 1, 2, 3}" by blast
  then have "unat ((x AND 3) OR 8) \<in> {8, 9, 10, 11}" by auto
  then show ?thesis unfolding eq [symmetric] by (simp add: drop_bit_eq_div unat_div)
qed

lemma variant_digit: "m \<in> {8, 9, 10, 11} \<Longrightarrow> hex_digit m \<in> set ''89ab''"
proof (elim insertE emptyE)
  assume "m = 8" then show ?thesis by (simp only:) code_simp
next
  assume "m = 9" then show ?thesis by (simp only:) code_simp
next
  assume "m = 10" then show ?thesis by (simp only:) code_simp
next
  assume "m = 11" then show ?thesis by (simp only:) code_simp
qed

lemma hexText_nth: "n < length d \<Longrightarrow> hexText d ! (2 * n) = hex_digit (unat (d ! n) div 16)"
proof (induction d arbitrary: n)
  case (Cons w d)
  then show ?case by (cases n) (simp_all add: hexText_Cons)
qed simp

lemma uuid_canonical: "is_uuid u \<Longrightarrow> canonicalUuid u = Inr u"
proof -
  assume u: "is_uuid u"
  have "c = CHR ''-'' \<or> is_hex c" if "c \<in> set u" for c using uuid_chars [OF u that] .
  then have "list_all (\<lambda>c. \<not> is_space c) u" "map lower_char u = u"
    by (force simp: list_all_iff is_hex_def is_digit_def is_space_def, intro map_idI)
       (force simp: lower_char_def is_upper_def is_hex_def is_digit_def)
  then show ?thesis using u by (simp add: canonicalUuid_def toLowerCase_def trim_solid)
qed

subsection \<open>Properties\<close>

text \<open>The signed stream of a period command is the command: two accepted commands have the same stream exactly when
  they agree on the kind, the canonical tenant, business, operation and period and, by kind, on the canonical dates
  or the stripped reason, unless two different reasons have one digest; so no create, close and reopen share a stream.\<close>

theorem period_stream_binds:
  assumes "periodCanonicalStream sha f = Inr s" "periodCanonicalStream sha f' = Inr s'"
  shows "(s = s' \<longleftrightarrow> period_said f = period_said f') \<or> reason_collision sha f f'"
proof -
  obtain ids fs where f: "pc_kind f \<in> set ACCOUNTING_PERIOD_COMMAND_KINDS" "mapR canonicalUuid (period_ids f) = Inr ids"
    "period_tail sha f = Inr fs" "s = joinWith LF (([ACCTPERIOD_VERSION, pc_kind f] @ ids @ fs) @ [[]])"
    using assms(1) by (auto simp: periodCanonicalStream_eq_Inr)
  obtain ids' fs' where f': "pc_kind f' \<in> set ACCOUNTING_PERIOD_COMMAND_KINDS" "mapR canonicalUuid (period_ids f') = Inr ids'"
    "period_tail sha f' = Inr fs'" "s' = joinWith LF (([ACCTPERIOD_VERSION, pc_kind f'] @ ids' @ fs') @ [[]])"
    using assms(2) by (auto simp: periodCanonicalStream_eq_Inr)
  have v: "plain ACCTPERIOD_VERSION" by (simp add: plain_def ACCTPERIOD_VERSION_def)
  have l: "length ids = length ids'" using mapR_length [OF f(2)] mapR_length [OF f'(2)] by (simp add: period_ids_def)
  have "s = s' \<longleftrightarrow> [ACCTPERIOD_VERSION, pc_kind f] @ ids @ fs = [ACCTPERIOD_VERSION, pc_kind f'] @ ids' @ fs'"
    unfolding f(4) f'(4)
    by (rule iffI, rule join_LF_inject)
       (use f f' v ids_plain period_tail_plain kind_plain in simp_all)
  also have "\<dots> \<longleftrightarrow> pc_kind f = pc_kind f' \<and> ids = ids' \<and> fs = fs'" using l by auto
  finally have "s = s' \<longleftrightarrow> pc_kind f = pc_kind f' \<and> map canonicalUuid (period_ids f) = map canonicalUuid (period_ids f') \<and> fs = fs'"
    by (simp add: mapR_same [OF f(2) f'(2)])
  with period_tail_said [OF f(3) f'(3)] show ?thesis by (auto simp: period_said_def)
qed


definition sample_period :: "string \<Rightarrow> PeriodCommandFacts" where
  "sample_period kind = \<lparr>pc_kind = kind, pc_tenantId = ''0a000000-0000-4000-8000-000000000001'',
     pc_businessId = ''0B000000-0000-4000-8000-000000000002'', pc_operationId = ''0c000000-0000-4000-8000-000000000003'',
     pc_periodId = ''0d000000-0000-4000-8000-000000000004'', pc_startDate = Some ''2024-02-01'', pc_endDate = Some ''2024-02-29'',
     pc_reason = None\<rparr>"

theorem period_stream_binds_witness:
  "periodCanonicalStream (\<lambda>x. x) (sample_period ''period_create'') \<noteq> periodCanonicalStream (\<lambda>x. x) (sample_period ''period_close'')"
proof -
  let ?a = "sample_period ''period_create''" and ?b = "sample_period ''period_close''"
  have a: "periodCanonicalStream (\<lambda>x. x) ?a = Inr (projr (periodCanonicalStream (\<lambda>x. x) ?a))" by code_simp
  have b: "periodCanonicalStream (\<lambda>x. x) ?b = Inr (projr (periodCanonicalStream (\<lambda>x. x) ?b))" by code_simp
  have n: "\<not> reason_collision (\<lambda>x. x) ?a ?b" by (simp add: reason_collision_def reason_text_def sample_period_def)
  have d: "period_said ?a \<noteq> period_said ?b" by (simp add: period_said_def sample_period_def)
  show ?thesis using period_stream_binds [OF a b] n d a b by metis
qed

text \<open>The kind is the second field, but the streams of a create and a close agree on their first 21 bytes, not on
  their first four.\<close>

lemma period_kinds_share_bytes:
  assumes "periodCanonicalStream sha f = Inr s" "periodCanonicalStream sha f' = Inr s'"
    "pc_kind f = ''period_create''" "pc_kind f' = ''period_close''"
  shows "take 21 s = take 21 s' \<and> take 21 s = ''acctperiod/1'' @ LF # ''period_c''"
  using assms by (auto simp: periodCanonicalStream_eq_Inr ACCTPERIOD_VERSION_def lf.join_Cons)

text \<open>The signed stream of a rate entry is the entry: two accepted entries have the same stream exactly when they
  agree on the canonical tenant, business, rate identity, currencies, rate and instant; and an accepted entry names two
  different currencies and the manual source.\<close>

theorem rate_stream_binds:
  assumes "fxRateCanonicalStream f = Inr s" "fxRateCanonicalStream f' = Inr s'"
  shows "(s = s' \<longleftrightarrow> rate_said f = rate_said f') \<and> fr_source f = FX_RATE_SOURCE
    \<and> canonicalCurrency (fr_fromCurrency f) \<noteq> canonicalCurrency (fr_toCurrency f)"
proof -
  obtain fs where f: "fr_source f = ''manual''" "mapR (\<lambda>r. r) (rate_said f) = Inr fs" "fs ! 3 \<noteq> fs ! 4"
    "s = joinWith LF ((FXRATE_VERSION # fs @ [''manual'']) @ [[]])"
    using assms(1) by (auto simp: fxRateCanonicalStream_eq_Inr)
  obtain fs' where f': "mapR (\<lambda>r. r) (rate_said f') = Inr fs'" "s' = joinWith LF ((FXRATE_VERSION # fs' @ [''manual'']) @ [[]])"
    using assms(2) by (auto simp: fxRateCanonicalStream_eq_Inr)
  have c: "plain FXRATE_VERSION" "plain ''manual''" by (simp_all add: plain_def FXRATE_VERSION_def)
  have "s = s' \<longleftrightarrow> FXRATE_VERSION # fs @ [''manual''] = FXRATE_VERSION # fs' @ [''manual'']"
    unfolding f(4) f'(2)
    by (rule iffI, rule join_LF_inject) (use rate_said_plain [OF f(2)] rate_said_plain [OF f'(1)] c in simp_all)
  also have "\<dots> \<longleftrightarrow> rate_said f = rate_said f'" using mapR_same [OF f(2) f'(1)] by simp
  finally have s: "s = s' \<longleftrightarrow> rate_said f = rate_said f'" .
  have "rate_said f = map Inr fs" using f(2) by (simp add: mapR_eq_map)
  moreover have "length fs = 7" using mapR_length [OF f(2)] by (simp add: rate_said_def)
  ultimately have "rate_said f ! 3 = Inr (fs ! 3)" "rate_said f ! 4 = Inr (fs ! 4)" by simp_all
  then have "canonicalCurrency (fr_fromCurrency f) \<noteq> canonicalCurrency (fr_toCurrency f)"
    using f(3) by (simp add: rate_said_def)
  with s f(1) show ?thesis by (simp add: FX_RATE_SOURCE_def)
qed

definition sample_rate_entry :: "string \<Rightarrow> FxRateFacts" where
  "sample_rate_entry rate = \<lparr>fr_tenantId = ''0a000000-0000-4000-8000-000000000001'',
     fr_businessId = ''0B000000-0000-4000-8000-000000000002'', fr_rateId = ''0c000000-0000-4000-8000-000000000003'',
     fr_fromCurrency = ''usd'', fr_toCurrency = ''ILS'', fr_rate = rate, fr_effectiveAt = Some 1706745600000, fr_source = ''manual''\<rparr>"

theorem rate_stream_binds_witness:
  "fxRateCanonicalStream (sample_rate_entry ''3.71'') = fxRateCanonicalStream (sample_rate_entry ''03.7100'')
   \<and> fxRateCanonicalStream (sample_rate_entry ''3.71'') \<noteq> fxRateCanonicalStream (sample_rate_entry ''3.72'')"
proof -
  let ?s = "\<lambda>r. fxRateCanonicalStream (sample_rate_entry r)"
  have a: "?s ''3.71'' = Inr (projr (?s ''3.71''))" "?s ''03.7100'' = Inr (projr (?s ''03.7100''))"
    "?s ''3.72'' = Inr (projr (?s ''3.72''))" by code_simp+
  have "rate_said (sample_rate_entry ''3.71'') = rate_said (sample_rate_entry ''03.7100'')"
    "rate_said (sample_rate_entry ''3.71'') \<noteq> rate_said (sample_rate_entry ''3.72'')" by code_simp+
  with rate_stream_binds [OF a(1,2)] rate_stream_binds [OF a(1,3)] a show ?thesis by metis
qed

text \<open>A derived identity is a version 5 UUID of the RFC variant, and it binds what it was derived from: two
  derivations give the same identity exactly when the label, the business and the trimmed key are the same, unless the
  digests of two different preimages agree on the bits an identity keeps; so one key never names a source, a rate, a
  period and an operation alike.\<close>

theorem resource_id_binds:
  assumes "deriveAccountingResourceId sha l b k = Inr u" "deriveAccountingResourceId sha l' b' k' = Inr u'"
    "\<And>x. length (sha x) = 32" "plain l" "plain l'"
  shows "((u = u' \<longleftrightarrow> l = l' \<and> toLowerCase b = toLowerCase b' \<and> trim k = trim k')
      \<or> id_collision sha (resource_preimage l b (trim k)) (resource_preimage l' b' (trim k')))
    \<and> canonicalUuid u = Inr u \<and> u ! 14 = CHR ''5'' \<and> u ! 19 \<in> set ''89ab''"
proof -
  let ?p = "resource_preimage l b (trim k)" and ?p' = "resource_preimage l' b' (trim k')"
  let ?d = "uuid_v5 (sha (ascii_octets ?p))" and ?d' = "uuid_v5 (sha (ascii_octets ?p'))"
  have u: "u = uuid_slices (hexText ?d)" "u' = uuid_slices (hexText ?d')" "uuid_any_case b" "uuid_any_case b'"
    using assms(1,2) by (simp_all add: derive_eq_Inr)
  have l: "length (hexText ?d) = 32" "length (hexText ?d') = 32" by (simp_all add: hexText_hex(2) assms(3))
  have "u = u' \<longleftrightarrow> ?d = ?d'" unfolding u(1,2)
    by (rule iffI, drule uuid_slices_inject [OF l], simp only: hexText_inject, simp)
  moreover have "?p = ?p' \<longleftrightarrow> l = l' \<and> toLowerCase b = toLowerCase b' \<and> trim k = trim k'"
    using preimage_inject [OF assms(4,5) u(3,4)] by (auto simp: resource_preimage_def)
  ultimately have binds: "(u = u' \<longleftrightarrow> l = l' \<and> toLowerCase b = toLowerCase b' \<and> trim k = trim k') \<or> id_collision sha ?p ?p'"
    unfolding id_collision_def by metis
  have "is_uuid u" unfolding u(1) using hexText_hex(1) l(1) by (rule uuid_slices_uuid)
  then have canonical: "canonicalUuid u = Inr u" by (rule uuid_canonical)
  have n: "hexText ?d ! (2 * n) = hex_digit (unat (?d ! n) div 16)" if "n < 16" for n
    by (rule hexText_nth) (use that in \<open>simp add: assms(3)\<close>)
  have d: "unat (?d ! 6) div 16 = 5" "unat (?d ! 8) div 16 \<in> {8, 9, 10, 11}"
    using version_nibble variant_nibble by (simp_all add: uuid_v5_def Let_def assms(3))
  have "u ! 14 = hexText ?d ! (2 * 6)" unfolding u(1) using l(1) by (simp add: uuid_slices_def nth_append)
  also have "\<dots> = hex_digit (unat (?d ! 6) div 16)" by (rule n) simp
  also have "\<dots> = CHR ''5''" unfolding d(1) by (simp add: hex_digit_def char_of_def bit_simps)
  finally have version: "u ! 14 = CHR ''5''" .
  have "u ! 19 = hexText ?d ! (2 * 8)" unfolding u(1) using l(1) by (simp add: uuid_slices_def nth_append)
  also have "\<dots> = hex_digit (unat (?d ! 8) div 16)" by (rule n) simp
  also have "\<dots> \<in> set ''89ab''" using d(2) by (rule variant_digit)
  finally have "u ! 19 \<in> set ''89ab''" .
  with binds canonical version show ?thesis by blast
qed


text \<open>A digest to evaluate with: the bytes in order, the first 32 of them.\<close>

definition sample_digest :: "octets \<Rightarrow> octets" where
  "sample_digest x = take 32 (rev x @ replicate 32 0)"

theorem resource_id_binds_witness:
  "derivePeriodId sample_digest ''0B000000-0000-4000-8000-000000000002'' ''  monthly-close ''
     \<noteq> derivePeriodId sample_digest ''0B000000-0000-4000-8000-000000000002'' ''monthly-close-2''"
proof -
  let ?i = "\<lambda>k. deriveAccountingResourceId sample_digest PERIOD_LABEL ''0B000000-0000-4000-8000-000000000002'' k"
  let ?p = "\<lambda>k. resource_preimage PERIOD_LABEL ''0B000000-0000-4000-8000-000000000002'' k"
  have a: "?i ''  monthly-close '' = Inr (projr (?i ''  monthly-close ''))"
    "?i ''monthly-close-2'' = Inr (projr (?i ''monthly-close-2''))"
    by (simp_all add: deriveAccountingResourceId_def Let_def) code_simp+
  have l: "plain PERIOD_LABEL" by (simp add: plain_def PERIOD_LABEL_def)
  have d: "length (sample_digest x) = 32" for x by (simp add: sample_digest_def)
  have t: "trim ''  monthly-close '' = ''monthly-close''" "trim ''monthly-close-2'' = ''monthly-close-2''" by code_simp+
  have "take 1 (uuid_v5 (sample_digest (ascii_octets (?p ''monthly-close''))))
      \<noteq> take 1 (uuid_v5 (sample_digest (ascii_octets (?p ''monthly-close-2''))))"
    by (simp add: uuid_v5_def Let_def sample_digest_def resource_preimage_def ascii_octets_def octet_def)
  then have n: "\<not> id_collision sample_digest (?p ''monthly-close'') (?p ''monthly-close-2'')"
    unfolding id_collision_def by metis
  show ?thesis using resource_id_binds [OF a d l l] n unfolding t derivePeriodId_def by auto
qed

end
