(* ===== verification/Permissions.thy ===== *)
theory Permissions
  imports Prelude
begin

text \<open>
  packages/domain-core/src/permissions.ts: the closed registry of permission keys, the built-in
  roles and the evaluator. A role set is the list of rows the server loaded; that only rows from
  the database become one is the type discipline of the source (a private constructor) and is not
  modelled. What delegation does with these functions is stated over the commands that use them, in Member_Roles
  and Invitations.
\<close>

subsection \<open>The registry\<close>

definition PERMISSIONS :: "string list" where
  "PERMISSIONS = [''business.view'', ''business.manage'', ''branch.view'', ''branch.manage'', ''warehouse.view'',
    ''warehouse.manage'', ''member.view'', ''member.invite'', ''member.manage'', ''member.suspend'',
    ''member.branch_scope.manage'', ''role.view'', ''role.create'', ''role.update'', ''role.delete'',
    ''role.assign'', ''catalog.view'', ''catalog.create'', ''catalog.update'', ''catalog.archive'',
    ''category.manage'', ''media.manage'', ''settings.view'', ''settings.manage'', ''billing.view'',
    ''billing.manage'', ''subscription.view'', ''subscription.manage'', ''accounting.view'', ''accounting.post'',
    ''accounting.reverse'', ''accounting.chart.manage'', ''accounting.fx.manage'', ''accounting.period.manage'',
    ''accounting.period.reopen'', ''inventory.view'', ''inventory.adjust'', ''inventory.transfer'',
    ''inventory.stocktake'', ''purchases.view'', ''purchases.manage'', ''purchases.receive'', ''purchases.return'',
    ''suppliers.view'', ''suppliers.manage'', ''suppliers.pay'', ''sales.view'', ''sales.create'', ''sales.void'',
    ''sales.return'', ''sales.discount'', ''customers.view'', ''customers.manage'', ''payments.collect'',
    ''payments.reverse'', ''refunds.approve'', ''receivables.view'', ''installments.manage'']"

definition SENSITIVE_PERMISSIONS :: "string list" where
  "SENSITIVE_PERMISSIONS = [''member.manage'', ''member.suspend'', ''member.branch_scope.manage'', ''role.create'', ''role.update'',
    ''role.delete'', ''role.assign'', ''billing.manage'', ''subscription.manage'', ''business.manage'',
    ''accounting.post'', ''accounting.reverse'', ''accounting.chart.manage'', ''accounting.fx.manage'',
    ''accounting.period.manage'', ''accounting.period.reopen'', ''inventory.adjust'', ''inventory.transfer'',
    ''inventory.stocktake'', ''purchases.manage'', ''purchases.receive'', ''purchases.return'', ''suppliers.manage'',
    ''suppliers.pay'', ''sales.void'', ''sales.return'', ''sales.discount'', ''payments.reverse'',
    ''refunds.approve'', ''installments.manage'']"

definition isSensitivePermission :: "string \<Rightarrow> bool" where
  "isSensitivePermission p \<longleftrightarrow> p \<in> set SENSITIVE_PERMISSIONS"

definition isPermission :: "string \<Rightarrow> bool" where
  "isPermission p \<longleftrightarrow> p \<in> set PERMISSIONS"

datatype BuiltinRoleKey = Role_owner | Role_manager | Role_cashier

fun BUILTIN_ROLE_PERMISSIONS :: "BuiltinRoleKey \<Rightarrow> string list" where
  "BUILTIN_ROLE_PERMISSIONS Role_owner = PERMISSIONS"
| "BUILTIN_ROLE_PERMISSIONS Role_manager = [''business.view'', ''branch.view'', ''branch.manage'', ''warehouse.view'', ''warehouse.manage'', ''member.view'',
    ''member.invite'', ''role.view'', ''role.assign'', ''catalog.view'', ''catalog.create'', ''catalog.update'',
    ''catalog.archive'', ''category.manage'', ''media.manage'', ''settings.view'', ''subscription.view'',
    ''inventory.view'', ''purchases.view'', ''suppliers.view'', ''sales.view'', ''sales.create'', ''customers.view'',
    ''customers.manage'', ''payments.collect'', ''receivables.view'']"
| "BUILTIN_ROLE_PERMISSIONS Role_cashier = [''catalog.view'', ''sales.view'', ''sales.create'', ''customers.view'', ''payments.collect'']"

subsection \<open>The evaluator\<close>

record RoleRow =
  rr_key :: string
  rr_isSystem :: bool
  rr_permissions :: "string set"

type_synonym TrustedRoleSet = "RoleRow list"

definition isSystemOwnerRole :: "RoleRow \<Rightarrow> bool" where
  "isSystemOwnerRole r \<longleftrightarrow> rr_isSystem r = True \<and> rr_key r = ''owner''"

fun hasPermission :: "TrustedRoleSet \<Rightarrow> string \<Rightarrow> bool" where
  "hasPermission [] permission = False"
| "hasPermission (r # rs) permission =
     (if isSystemOwnerRole r then True else if permission \<in> rr_permissions r then True else hasPermission rs permission)"

definition filterGranted :: "TrustedRoleSet \<Rightarrow> string list \<Rightarrow> string list" where
  "filterGranted roles permissions = filter (hasPermission roles) permissions"

definition isSystemOwner :: "TrustedRoleSet \<Rightarrow> bool" where
  "isSystemOwner roles = list_ex isSystemOwnerRole roles"

definition beyondGrantAuthority :: "TrustedRoleSet \<Rightarrow> string list \<Rightarrow> string list" where
  "beyondGrantAuthority roles permissions =
     (if list_ex isSystemOwnerRole roles then [] else filter (\<lambda>p. \<not> hasPermission roles p) permissions)"

subsection \<open>Delegation\<close>

lemma hasPermission_iff:
  "hasPermission roles p \<longleftrightarrow> isSystemOwner roles \<or> (\<exists>r \<in> set roles. p \<in> rr_permissions r)"
  by (induction roles) (auto simp: isSystemOwner_def)

lemma hasPermission_append: "hasPermission (xs @ ys) p \<longleftrightarrow> hasPermission xs p \<or> hasPermission ys p"
  by (auto simp: hasPermission_iff isSystemOwner_def)

lemma beyond_empty_iff:
  "beyondGrantAuthority roles ps = [] \<longleftrightarrow> list_all (hasPermission roles) ps"
  by (auto simp: beyondGrantAuthority_def filter_empty_conv list_all_iff hasPermission_iff isSystemOwner_def)

text \<open>A role as the lemmas of other theories use it.\<close>

definition sample_role :: "string list \<Rightarrow> RoleRow" where
  "sample_role ps = \<lparr>rr_key = ''till'', rr_isSystem = False, rr_permissions = set ps\<rparr>"

text \<open>The built-in lists are lists of distinct registered keys; of the sensitive keys a manager holds only the assignment
  of roles, and a cashier none.\<close>

lemma builtin_roles_sensitive:
  "distinct PERMISSIONS \<and> list_all (\<lambda>r. distinct (BUILTIN_ROLE_PERMISSIONS r) \<and> list_all isPermission (BUILTIN_ROLE_PERMISSIONS r))
     [Role_owner, Role_manager, Role_cashier] \<and> list_all isPermission SENSITIVE_PERMISSIONS
   \<and> filter isSensitivePermission (BUILTIN_ROLE_PERMISSIONS Role_manager) = [''role.assign'']
   \<and> filter isSensitivePermission (BUILTIN_ROLE_PERMISSIONS Role_cashier) = []"
  by code_simp

end
