(* ===== verification/Reports_Service.thy ===== *)
theory Reports_Service
  imports Report_Agreement Permissions
begin

text \<open>
  apps/api/src/modules/accounting/accounting-reports.service.ts: the authorization boundary in front
  of the financial reads. Permission, branch scope and date range are decided from the membership
  before the reports run; amounts leave as decimal text and instants to the second. The framework's
  two exceptions are refusals. The lemmas run the service over the reader of the database and show
  what an assigned member can and cannot reach.
\<close>

subsection \<open>The membership\<close>

datatype BranchScopeMode = Scope_all | Scope_assigned

record MembershipContext =
  mc_tenantId :: string
  mc_businessId :: string
  mc_userId :: string
  mc_roles :: TrustedRoleSet
  mc_roleKeys :: "string list"
  mc_branchScopeMode :: BranchScopeMode
  mc_allowedBranchIds :: "string list"

definition service_scope :: "MembershipContext \<Rightarrow> ReportScope" where
  "service_scope m = \<lparr>rs_tenantId = mc_tenantId m, rs_businessId = mc_businessId m\<rparr>"

definition authorize :: "MembershipContext \<Rightarrow> unit result" where
  "authorize m = (if \<not> hasPermission (mc_roles m) ''accounting.view'' then refuse ForbiddenException else Inr ())"

definition branchScope :: "MembershipContext \<Rightarrow> string option \<Rightarrow> bool \<Rightarrow> ReportBranchScope result" where
  "branchScope m requested wholeBusinessAllowed =
     (if mc_branchScopeMode m = Scope_assigned then
        (case requested of
           None \<Rightarrow> if wholeBusinessAllowed then refuse ForbiddenException else Inr (Mode_assigned (mc_allowedBranchIds m))
         | Some branch \<Rightarrow> if branch \<notin> set (mc_allowedBranchIds m) then refuse ForbiddenException else Inr (Mode_assigned [branch]))
      else (case requested of None \<Rightarrow> Inr (Mode_all None) | Some branch \<Rightarrow> Inr (Mode_all (Some branch))))"

text \<open>An absent and a null field are both \<open>None\<close>: every test of the source is \<open>present\<close> or \<open>?? null\<close>.\<close>

definition assertRange :: "string option \<Rightarrow> string option \<Rightarrow> unit result" where
  "assertRange first final = (case (first, final) of
       (Some f, Some t) \<Rightarrow> if t < f then refuse (AccountingError accounting_report_range_invalid) else Inr ()
     | _ \<Rightarrow> Inr ())"

definition resolveTrialBalanceRange :: "string option \<Rightarrow> string option \<Rightarrow> string option \<Rightarrow> TrialBalanceRange result" where
  "resolveTrialBalanceRange asOf first final =
     (let hasAsOf = asOf \<noteq> None; hasRange = first \<noteq> None \<or> final \<noteq> None
      in if hasAsOf \<and> hasRange then refuse (AccountingError accounting_report_range_ambiguous)
         else case asOf of
           Some d \<Rightarrow> Inr (As_of d)
         | None \<Rightarrow> (case (first, final) of
               (Some f, Some t) \<Rightarrow> bindR (assertRange first final) (\<lambda>_. Inr (Date_range f t))
             | _ \<Rightarrow> refuse (AccountingError accounting_report_range_invalid)))"

subsection \<open>What leaves the server\<close>

text \<open>\<open>`${value.toISOString().slice(0, 19)}Z`\<close>; an invalid date throws.\<close>

definition instantText :: "instant \<Rightarrow> string result" where
  "instantText value = (case value of None \<Rightarrow> refuse Thrown_Error | Some ms \<Rightarrow> Inr (take 19 (toISOString ms) @ ''Z''))"

type_synonym AccountingAccountDto = AccountSummary

definition toAccountDto :: "AccountSummary \<Rightarrow> AccountingAccountDto" where
  "toAccountDto a = \<lparr>as_accountId = as_accountId a, as_code = as_code a, as_name = as_name a, as_type = as_type a,
     as_systemKey = as_systemKey a, as_isActive = as_isActive a\<rparr>"

record AccountingEntrySummaryDto =
  sd_entryId :: string
  sd_entryDate :: string
  sd_sourceType :: string
  sd_sourceId :: string
  sd_description :: "string option"
  sd_createdAt :: string
  sd_lineCount :: int

definition toEntrySummaryDto :: "EntrySummary \<Rightarrow> AccountingEntrySummaryDto result" where
  "toEntrySummaryDto e = bindR (instantText (es_createdAt e)) (\<lambda>created.
     Inr \<lparr>sd_entryId = es_entryId e, sd_entryDate = es_entryDate e, sd_sourceType = es_sourceType e, sd_sourceId = es_sourceId e,
          sd_description = es_description e, sd_createdAt = created, sd_lineCount = es_lineCount e\<rparr>)"

record AccountingEntryLineDto =
  ld_lineNo :: int
  ld_accountId :: string
  ld_code :: string
  ld_name :: string
  ld_type :: AccountType
  ld_side :: Side
  ld_debitMinor :: string
  ld_creditMinor :: string
  ld_baseAmountMinor :: string
  ld_baseCurrency :: string
  ld_txnAmountMinor :: string
  ld_txnCurrency :: string
  ld_fxRate :: string
  ld_fxRateSource :: string
  ld_fxRateAt :: string
  ld_branchId :: "string option"
  ld_warehouseId :: "string option"
  ld_memo :: "string option"

definition toEntryLineDto :: "EntryDetailLine \<Rightarrow> AccountingEntryLineDto result" where
  "toEntryLineDto l = bindR (instantText (el_fxRateAt l)) (\<lambda>rateAt.
     Inr \<lparr>ld_lineNo = el_lineNo l, ld_accountId = el_accountId l, ld_code = el_code l, ld_name = el_name l, ld_type = el_type l,
          ld_side = el_side l, ld_debitMinor = int_string (el_debitMinor l), ld_creditMinor = int_string (el_creditMinor l),
          ld_baseAmountMinor = int_string (el_baseAmountMinor l), ld_baseCurrency = el_baseCurrency l,
          ld_txnAmountMinor = int_string (el_txnAmountMinor l), ld_txnCurrency = el_txnCurrency l, ld_fxRate = el_fxRate l,
          ld_fxRateSource = el_fxRateSource l, ld_fxRateAt = rateAt, ld_branchId = el_branchId l,
          ld_warehouseId = el_warehouseId l, ld_memo = el_memo l\<rparr>)"

record AccountingEntryDetailDto =
  dd_entryId :: string
  dd_entryDate :: string
  dd_sourceType :: string
  dd_sourceId :: string
  dd_description :: "string option"
  dd_actorKind :: string
  dd_actorUserId :: "string option"
  dd_actorSystemKey :: "string option"
  dd_createdAt :: string
  dd_lines :: "AccountingEntryLineDto list"

definition toEntryDetailDto :: "EntryDetail \<Rightarrow> AccountingEntryDetailDto result" where
  "toEntryDetailDto d =
     bindR (instantText (ed_createdAt d)) (\<lambda>created.
     bindR (mapR toEntryLineDto (ed_lines d)) (\<lambda>dtos.
       Inr \<lparr>dd_entryId = ed_entryId d, dd_entryDate = ed_entryDate d, dd_sourceType = ed_sourceType d, dd_sourceId = ed_sourceId d,
            dd_description = ed_description d, dd_actorKind = ed_actorKind d, dd_actorUserId = ed_actorUserId d,
            dd_actorSystemKey = ed_actorSystemKey d, dd_createdAt = created, dd_lines = dtos\<rparr>))"

record AccountingTrialBalanceRowDto =
  td_accountId :: string
  td_code :: string
  td_name :: string
  td_type :: AccountType
  td_isActive :: bool
  td_totalDebitMinor :: string
  td_totalCreditMinor :: string
  td_netMinor :: string
  td_baseCurrency :: string

record AccountingTrialBalanceDto =
  bd_kind :: ReportKind
  bd_isBalanced :: bool
  bd_totalDebitMinor :: string
  bd_totalCreditMinor :: string
  bd_baseCurrency :: string
  bd_items :: "AccountingTrialBalanceRowDto list"

definition toTrialBalanceDto :: "TrialBalanceReport \<Rightarrow> AccountingTrialBalanceDto" where
  "toTrialBalanceDto r = \<lparr>bd_kind = tp_kind r, bd_isBalanced = tp_isBalanced r,
     bd_totalDebitMinor = int_string (tp_totalDebitMinor r), bd_totalCreditMinor = int_string (tp_totalCreditMinor r),
     bd_baseCurrency = tp_baseCurrency r,
     bd_items = map (\<lambda>row. \<lparr>td_accountId = tr_accountId row, td_code = tr_code row, td_name = tr_name row, td_type = tr_type row,
       td_isActive = tr_isActive row, td_totalDebitMinor = int_string (tr_totalDebitMinor row),
       td_totalCreditMinor = int_string (tr_totalCreditMinor row), td_netMinor = int_string (tr_netMinor row),
       td_baseCurrency = tr_baseCurrency row\<rparr>) (tp_rows r)\<rparr>"

record AccountingLedgerRowDto =
  rd_entryId :: string
  rd_entryDate :: string
  rd_lineNo :: int
  rd_sourceType :: string
  rd_sourceId :: string
  rd_description :: "string option"
  rd_debitMinor :: string
  rd_creditMinor :: string
  rd_baseAmountMinor :: string
  rd_baseCurrency :: string
  rd_txnAmountMinor :: string
  rd_txnCurrency :: string
  rd_fxRate :: string
  rd_fxRateSource :: string
  rd_fxRateAt :: string
  rd_branchId :: "string option"
  rd_warehouseId :: "string option"
  rd_memo :: "string option"
  rd_runningMinor :: string

definition toLedgerRowDto :: "LedgerRow \<Rightarrow> AccountingLedgerRowDto result" where
  "toLedgerRowDto row = bindR (instantText (lg_fxRateAt row)) (\<lambda>rateAt.
     Inr \<lparr>rd_entryId = lg_entryId row, rd_entryDate = lg_entryDate row, rd_lineNo = lg_lineNo row, rd_sourceType = lg_sourceType row,
          rd_sourceId = lg_sourceId row, rd_description = lg_description row, rd_debitMinor = int_string (lg_debitMinor row),
          rd_creditMinor = int_string (lg_creditMinor row), rd_baseAmountMinor = int_string (lg_baseAmountMinor row),
          rd_baseCurrency = lg_baseCurrency row, rd_txnAmountMinor = int_string (lg_txnAmountMinor row),
          rd_txnCurrency = lg_txnCurrency row, rd_fxRate = lg_fxRate row, rd_fxRateSource = lg_fxRateSource row,
          rd_fxRateAt = rateAt, rd_branchId = lg_branchId row, rd_warehouseId = lg_warehouseId row, rd_memo = lg_memo row,
          rd_runningMinor = int_string (lg_runningMinor row)\<rparr>)"

record AccountingLedgerDto =
  gd_account :: AccountingAccountDto
  gd_from :: string
  gd_to :: string
  gd_baseCurrency :: string
  gd_openingMinor :: string
  gd_closingMinor :: string
  gd_nextCursor :: "string option"
  gd_items :: "AccountingLedgerRowDto list"

definition toLedgerDto :: "LedgerReport \<Rightarrow> AccountingLedgerDto result" where
  "toLedgerDto r = bindR (mapR toLedgerRowDto (lp_rows r)) (\<lambda>items.
     Inr \<lparr>gd_account = toAccountDto (lp_account r), gd_from = lp_from r, gd_to = lp_to r, gd_baseCurrency = lp_baseCurrency r,
          gd_openingMinor = int_string (lp_openingMinor r), gd_closingMinor = int_string (lp_closingMinor r),
          gd_nextCursor = lp_nextCursor r, gd_items = items\<rparr>)"

record AccountingAccountBalanceDto =
  xd_accountId :: string
  xd_code :: string
  xd_name :: string
  xd_type :: AccountType
  xd_isActive :: bool
  xd_balanceMinor :: string
  xd_currency :: string
  xd_asOf :: string

definition toBalanceDto :: "AccountBalanceRow \<Rightarrow> AccountingAccountBalanceDto" where
  "toBalanceDto b = \<lparr>xd_accountId = ab_accountId b, xd_code = ab_code b, xd_name = ab_name b, xd_type = ab_type b,
     xd_isActive = ab_isActive b, xd_balanceMinor = int_string (ab_balanceMinor b), xd_currency = ab_currency b, xd_asOf = ab_asOf b\<rparr>"

subsection \<open>The reads\<close>

record AccountsRequest =
  ar_type :: "AccountType option"
  ar_includeInactive :: "bool option"

record EntriesRequest =
  er_from :: "string option"
  er_to :: "string option"
  er_sourceType :: "string option"
  er_branchId :: "string option"
  er_limit :: "JsNumber option"
  er_cursor :: "string option"

record TrialBalanceRequest =
  br_asOf :: "string option"
  br_from :: "string option"
  br_to :: "string option"
  br_branchId :: "string option"
  br_includeZeroActivity :: "bool option"

record LedgerRequest =
  lr_accountId :: string
  lr_from :: string
  lr_to :: string
  lr_branchId :: "string option"
  lr_limit :: "JsNumber option"
  lr_cursor :: "string option"

record BalancesRequest =
  xr_asOf :: string
  xr_accountIds :: "string list option"
  xr_branchId :: "string option"
  xr_includeZeroActivity :: "bool option"

definition service_accounts :: "AccountingReportReader \<Rightarrow> MembershipContext \<Rightarrow> AccountsRequest \<Rightarrow> AccountingAccountDto list result" where
  "service_accounts reader m query = bindR (authorize m) (\<lambda>_.
     Inr (map toAccountDto (reports_accounts reader (service_scope m) \<lparr>aq_type = ar_type query,
       aq_includeInactive = Some (case ar_includeInactive query of None \<Rightarrow> True | Some b \<Rightarrow> b)\<rparr>)))"

text \<open>\<open>boundPage(query.limit ?? 0)\<close>, and \<open>present(query.cursor) ? decode(query.cursor) : null\<close>.\<close>

definition pageLimit :: "JsNumber option \<Rightarrow> JsNumber" where
  "pageLimit limit = Finite (of_int (boundPage (case limit of None \<Rightarrow> Finite 0 | Some n \<Rightarrow> n)))"

definition decodePresent :: "(string \<Rightarrow> 'c result) \<Rightarrow> string option \<Rightarrow> 'c option result" where
  "decodePresent decode cursor = (case cursor of None \<Rightarrow> Inr None | Some raw \<Rightarrow> bindR (decode raw) (\<lambda>c. Inr (Some c)))"

definition service_entries ::
  "AccountingReportReader \<Rightarrow> MembershipContext \<Rightarrow> EntriesRequest \<Rightarrow> (AccountingEntrySummaryDto list \<times> string option) result" where
  "service_entries reader m query =
     bindR (authorize m) (\<lambda>_.
     bindR (assertRange (er_from query) (er_to query)) (\<lambda>_.
     bindR (branchScope m (er_branchId query) False) (\<lambda>branch.
     bindR (decodePresent decodeEntryCursor (er_cursor query)) (\<lambda>cursor.
     let (items, nextCursor) = reports_entries reader (service_scope m) \<lparr>eq_from = er_from query, eq_to = er_to query,
           eq_sourceType = er_sourceType query, eq_branch = branch, eq_limit = pageLimit (er_limit query), eq_cursor = cursor\<rparr>
     in bindR (mapR toEntrySummaryDto items) (\<lambda>dtos. Inr (dtos, nextCursor))))))"

definition service_entry :: "AccountingReportReader \<Rightarrow> MembershipContext \<Rightarrow> string \<Rightarrow> AccountingEntryDetailDto result" where
  "service_entry reader m entryId =
     bindR (authorize m) (\<lambda>_.
     case reports_entry reader (service_scope m) entryId of
       None \<Rightarrow> refuse NotFoundException
     | Some detail \<Rightarrow>
         if mc_branchScopeMode m = Scope_assigned \<and>
            \<not> list_all (\<lambda>l. case el_branchId l of None \<Rightarrow> False | Some x \<Rightarrow> x \<in> set (mc_allowedBranchIds m)) (ed_lines detail)
         then refuse NotFoundException
         else toEntryDetailDto detail)"

definition service_trialBalance ::
  "AccountingReportReader \<Rightarrow> MembershipContext \<Rightarrow> TrialBalanceRequest \<Rightarrow> AccountingTrialBalanceDto result" where
  "service_trialBalance reader m query =
     bindR (authorize m) (\<lambda>_.
     bindR (resolveTrialBalanceRange (br_asOf query) (br_from query) (br_to query)) (\<lambda>range.
     bindR (branchScope m (br_branchId query) True) (\<lambda>branch.
     bindR (trialBalance reader (service_scope m)
              \<lparr>tq_range = range, tq_branch = branch, tq_includeZeroActivity = br_includeZeroActivity query\<rparr>) (\<lambda>report.
       Inr (toTrialBalanceDto report)))))"

definition service_ledger :: "AccountingReportReader \<Rightarrow> MembershipContext \<Rightarrow> LedgerRequest \<Rightarrow> AccountingLedgerDto result" where
  "service_ledger reader m query =
     bindR (authorize m) (\<lambda>_.
     bindR (assertRange (Some (lr_from query)) (Some (lr_to query))) (\<lambda>_.
     bindR (branchScope m (lr_branchId query) True) (\<lambda>branch.
     case bindR (decodePresent decodeLedgerCursor (lr_cursor query)) (\<lambda>cursor.
          bindR (ledger reader (service_scope m) \<lparr>lq_accountId = lr_accountId query, lq_from = lr_from query,
                   lq_to = lr_to query, lq_branch = branch, lq_limit = pageLimit (lr_limit query), lq_cursor = cursor\<rparr>) toLedgerDto) of
       Inl e \<Rightarrow> if e = AccountingError accounting_account_not_found then refuse NotFoundException else refuse e
     | Inr d \<Rightarrow> Inr d)))"

record AccountingBalanceListDto =
  zd_asOf :: string
  zd_baseCurrency :: string
  zd_items :: "AccountingAccountBalanceDto list"

definition service_balances ::
  "AccountingReportReader \<Rightarrow> MembershipContext \<Rightarrow> BalancesRequest \<Rightarrow> AccountingBalanceListDto result" where
  "service_balances reader m query =
     bindR (authorize m) (\<lambda>_.
     bindR (branchScope m (xr_branchId query) True) (\<lambda>branch.
     bindR (balances reader (service_scope m) \<lparr>bq_asOf = xr_asOf query, bq_accountIds = xr_accountIds query,
              bq_branch = branch, bq_includeZeroActivity = xr_includeZeroActivity query\<rparr>) (\<lambda>rows.
       Inr \<lparr>zd_asOf = xr_asOf query, zd_baseCurrency = (case rows of [] \<Rightarrow> [] | first # _ \<Rightarrow> ab_currency first),
            zd_items = map toBalanceDto rows\<rparr>)))"

subsection \<open>What an assigned member reaches\<close>

definition in_branches :: "string list \<Rightarrow> string option \<Rightarrow> bool" where
  "in_branches branches b \<longleftrightarrow> (\<exists>x \<in> set branches. b = Some x)"

lemma in_branches_case: "(case b of None \<Rightarrow> False | Some x \<Rightarrow> x \<in> set bs) \<longleftrightarrow> in_branches bs b"
  by (auto simp: in_branches_def split: option.splits)

lemma assigned_scope:
  assumes "mc_branchScopeMode m = Scope_assigned" "branchScope m requested whole = Inr br"
  shows "\<exists>bs. br = Mode_assigned bs \<and> set bs \<subseteq> set (mc_allowedBranchIds m) \<and> (whole \<longrightarrow> requested \<noteq> None)"
  using assms by (auto simp: branchScope_def split: option.splits if_splits)

lemma assigned_predicate: "branchPredicate (Mode_assigned bs) b \<longleftrightarrow> in_branches bs b"
  by (auto simp: in_branches_def split: option.splits)

lemma assigned_visible:
  "entryVisibilityPredicate b (Mode_assigned bs) e \<longleftrightarrow> (\<forall>l \<in> set (entryLines b e). in_branches bs (jl_branchId l))"
  by (auto simp: list_ex_iff in_branches_def split: option.splits)

lemma in_branches_mono: "set bs \<subseteq> set cs \<Longrightarrow> in_branches bs b \<Longrightarrow> in_branches cs b"
  by (auto simp: in_branches_def)

lemma listed_visible:
  "i \<in> set (reader_listEntries b s q) \<Longrightarrow> \<exists>e \<in> set (bk_entries b). je_businessId e = rs_businessId s \<and> je_id e = es_entryId i
     \<and> entryVisibilityPredicate b (eq_branch q) e"
  by (auto simp: reader_listEntries_def dest!: in_set_takeD)

lemma summary_id: "toEntrySummaryDto e = Inr d \<Longrightarrow> sd_entryId d = es_entryId e"
  by (auto simp: toEntrySummaryDto_def result_simps)

lemma page_items: "fst (reports_entries reader s q) = take (nat (boundPage (eq_limit q)))
    (rp_listEntries reader s (q\<lparr>eq_limit := Finite (of_int (boundPage (eq_limit q) + 1))\<rparr>))"
  by (simp add: reports_entries_def Let_def)

lemma entries_confined:
  assumes "mc_branchScopeMode m = Scope_assigned" "service_entries (databaseReader b) m q = Inr (items, nextCursor)" "i \<in> set items"
  shows "\<exists>e \<in> set (bk_entries b). je_businessId e = mc_businessId m \<and> je_id e = sd_entryId i
    \<and> (\<forall>l \<in> set (entryLines b e). in_branches (mc_allowedBranchIds m) (jl_branchId l))"
proof -
  obtain br query where r: "branchScope m (er_branchId q) False = Inr br" "eq_branch query = br"
    "mapR toEntrySummaryDto (fst (reports_entries (databaseReader b) (service_scope m) query)) = Inr items"
  proof -
    from assms(2) obtain br cursor where r: "branchScope m (er_branchId q) False = Inr br"
      "mapR toEntrySummaryDto (fst (reports_entries (databaseReader b) (service_scope m) \<lparr>eq_from = er_from q, eq_to = er_to q,
         eq_sourceType = er_sourceType q, eq_branch = br, eq_limit = pageLimit (er_limit q), eq_cursor = cursor\<rparr>)) = Inr items"
      unfolding service_entries_def bindR_eq_Inr Let_def split_beta by blast
    show thesis by (rule that [OF r(1) _ r(2)]) simp
  qed
  obtain x where x: "x \<in> set (fst (reports_entries (databaseReader b) (service_scope m) query))" "toEntrySummaryDto x = Inr i"
    using mapR_set [OF r(3) assms(3)] by blast
  from x(1) have "x \<in> set (reader_listEntries b (service_scope m) (query\<lparr>eq_limit := Finite (of_int (boundPage (eq_limit query) + 1))\<rparr>))"
    unfolding page_items by (auto simp: databaseReader_def dest: in_set_takeD)
  from listed_visible [OF this] obtain e where e: "e \<in> set (bk_entries b)" "je_businessId e = mc_businessId m" "je_id e = es_entryId x"
    "entryVisibilityPredicate b br e" by (auto simp: service_scope_def r(2))
  from assigned_scope [OF assms(1) r(1)] obtain bs where "br = Mode_assigned bs" "set bs \<subseteq> set (mc_allowedBranchIds m)" by blast
  with e(4) have "\<forall>l \<in> set (entryLines b e). in_branches (mc_allowedBranchIds m) (jl_branchId l)"
    by (simp only: assigned_visible) (blast intro: in_branches_mono)
  with e summary_id [OF x(2)] show ?thesis by auto
qed

lemma ledgerRows_branch: "ledgerRows t c rs = Inr (rows, d) \<Longrightarrow> map lg_branchId rows = map rw_branchId rs"
  by (induction rs arbitrary: c rows d) (auto simp: result_simps Let_def)

lemma ledger_branches:
  assumes "ledger reader s q = Inr report"
  shows "lg_branchId ` set (lp_rows report) \<subseteq> rw_branchId ` set (rp_ledgerPage reader s (q\<lparr>lq_limit := Finite (of_int (boundPage (lq_limit q) + 1))\<rparr>))"
proof -
  from assms obtain t c d where "ledgerRows t c (take (nat (boundPage (lq_limit q)))
      (rp_ledgerPage reader s (q\<lparr>lq_limit := Finite (of_int (boundPage (lq_limit q) + 1))\<rparr>))) = Inr (lp_rows report, d)"
    by (auto simp: ledger_def Let_def result_simps split: option.splits)
  from ledgerRows_branch [OF this] show ?thesis
    by (metis image_mono list.set_map set_take_subset)
qed

lemma page_branch:
  "r \<in> set (reader_ledgerPage b s q) \<Longrightarrow> branchPredicate (lq_branch q) (rw_branchId r)"
  by (auto simp: reader_ledgerPage_def toLedgerRow_def Let_def dest!: in_set_takeD)

lemma ledger_confined:
  assumes "mc_branchScopeMode m = Scope_assigned" "service_ledger (databaseReader b) m q = Inr d" "r \<in> set (gd_items d)"
  shows "in_branches (mc_allowedBranchIds m) (rd_branchId r)"
proof -
  obtain br query report where l: "branchScope m (lr_branchId q) True = Inr br" "lq_branch query = br"
    "ledger (databaseReader b) (service_scope m) query = Inr report" "toLedgerDto report = Inr d"
  proof -
    from assms(2) obtain br cursor report where r: "branchScope m (lr_branchId q) True = Inr br"
      "ledger (databaseReader b) (service_scope m) \<lparr>lq_accountId = lr_accountId q, lq_from = lr_from q, lq_to = lr_to q,
         lq_branch = br, lq_limit = pageLimit (lr_limit q), lq_cursor = cursor\<rparr> = Inr report" "toLedgerDto report = Inr d"
      unfolding service_ledger_def bindR_eq_Inr by (elim exE conjE) (auto simp: bindR_eq_Inr split: sum.split_asm if_split_asm)
    show thesis by (rule that [OF r(1) _ r(2,3)]) simp
  qed
  from l(4) have "mapR toLedgerRowDto (lp_rows report) = Inr (gd_items d)" by (auto simp: toLedgerDto_def result_simps)
  from mapR_set [OF this assms(3)] obtain row where row: "row \<in> set (lp_rows report)" "toLedgerRowDto row = Inr r" by blast
  then have "lg_branchId row \<in> lg_branchId ` set (lp_rows report)" by blast
  with ledger_branches [OF l(3)] obtain raw where raw: "lg_branchId row = rw_branchId raw"
    "raw \<in> set (reader_ledgerPage b (service_scope m) (query\<lparr>lq_limit := Finite (of_int (boundPage (lq_limit query) + 1))\<rparr>))"
    by (auto simp: databaseReader_def)
  from page_branch [OF raw(2)] have "branchPredicate br (lg_branchId row)" by (simp add: raw(1) l(2))
  moreover from assigned_scope [OF assms(1) l(1)] obtain bs where "br = Mode_assigned bs" "set bs \<subseteq> set (mc_allowedBranchIds m)" by blast
  ultimately have "in_branches (mc_allowedBranchIds m) (lg_branchId row)" by (simp only: assigned_predicate) (blast intro: in_branches_mono)
  moreover have "rd_branchId r = lg_branchId row" using row(2) by (auto simp: toLedgerRowDto_def result_simps)
  ultimately show ?thesis by simp
qed

lemma entry_confined:
  assumes "mc_branchScopeMode m = Scope_assigned" "service_entry reader m i = Inr d" "l \<in> set (dd_lines d)"
  shows "in_branches (mc_allowedBranchIds m) (ld_branchId l)"
proof -
  from assms(1,2) obtain detail where e: "list_all (\<lambda>l. in_branches (mc_allowedBranchIds m) (el_branchId l)) (ed_lines detail)"
    "toEntryDetailDto detail = Inr d"
    unfolding service_entry_def in_branches_case bindR_eq_Inr by (auto split: option.split_asm if_split_asm)
  from e(2) have "mapR toEntryLineDto (ed_lines detail) = Inr (dd_lines d)" by (auto simp: toEntryDetailDto_def result_simps)
  from mapR_set [OF this assms(3)] obtain x where "x \<in> set (ed_lines detail)" "toEntryLineDto x = Inr l" by blast
  with e(1) show ?thesis by (auto simp: toEntryLineDto_def result_simps list_all_iff)
qed

lemma whole_business_refused:
  assumes "mc_branchScopeMode m = Scope_assigned"
  shows "\<not> (\<exists>d. service_trialBalance reader m (q\<lparr>br_branchId := None\<rparr>) = Inr d)"
    "\<not> (\<exists>d. service_ledger reader m (g\<lparr>lr_branchId := None\<rparr>) = Inr d)"
    "\<not> (\<exists>d. service_balances reader m (x\<lparr>xr_branchId := None\<rparr>) = Inr d)"
  by (simp_all add: service_trialBalance_def service_ledger_def service_balances_def branchScope_def assms bindR_eq_Inr)

subsection \<open>One entry, whole or not at all\<close>

lemma find_entry:
  assumes "books_ok b" "e \<in> set (bk_entries b)"
  shows "find (\<lambda>x. je_businessId x = je_businessId e \<and> je_id x = je_id e) (bk_entries b) = Some e"
proof -
  have inj: "inj_on (\<lambda>e. (je_businessId e, je_id e)) (set (bk_entries b))"
    using assms(1) by (simp add: books_ok_def distinct_map)
  obtain x where x: "find (\<lambda>x. je_businessId x = je_businessId e \<and> je_id x = je_id e) (bk_entries b) = Some x"
    using assms(2) by (cases "find (\<lambda>x. je_businessId x = je_businessId e \<and> je_id x = je_id e) (bk_entries b)")
      (auto simp: find_None_iff)
  then have "x \<in> set (bk_entries b) \<and> je_businessId x = je_businessId e \<and> je_id x = je_id e" by (auto simp: find_Some_iff)
  then have "x = e" using inj assms(2) by (auto dest: inj_onD)
  with x show ?thesis by simp
qed

lemma detail_branches:
  assumes "books_ok b" "e \<in> set (bk_entries b)"
  shows "el_branchId ` set (detailLines b (je_businessId e) (je_id e)) = jl_branchId ` set (entryLines b e)"
    "el_fxRateAt ` set (detailLines b (je_businessId e) (je_id e)) = jl_fxRateAt ` set (entryLines b e)"
proof -
  have account: "\<exists>a \<in> set (bk_accounts b). at_businessId a = jl_businessId l \<and> at_id a = jl_accountId l" if "l \<in> set (bk_lines b)" for l
    using assms(1) that by (auto simp: books_ok_def list_all_iff list_ex_iff)
  have lines: "set (detailLines b (je_businessId e) (je_id e))
    = {toDetailLine (l, a) | l a. l \<in> set (entryLines b e) \<and> a \<in> set (bk_accounts b) \<and> at_businessId a = jl_businessId l \<and> at_id a = jl_accountId l}"
    by (auto simp: detailLines_def entryLines_def) metis
  have sel: "el_branchId (toDetailLine (l, a)) = jl_branchId l" "el_fxRateAt (toDetailLine (l, a)) = jl_fxRateAt l" for l a
    by (simp_all add: toDetailLine_def Let_def)
  have "l \<in> set (entryLines b e) \<Longrightarrow> l \<in> set (bk_lines b)" for l by (simp add: entryLines_def)
  note member = this
  have images: "f ` set (detailLines b (je_businessId e) (je_id e)) = g ` set (entryLines b e)"
    if f: "\<And>l a. f (toDetailLine (l, a)) = g l" for f :: "EntryDetailLine \<Rightarrow> 'x" and g
  proof (intro equalityI subsetI)
    fix y assume "y \<in> f ` set (detailLines b (je_businessId e) (je_id e))"
    then show "y \<in> g ` set (entryLines b e)" unfolding lines using f by blast
  next
    fix y assume "y \<in> g ` set (entryLines b e)"
    then obtain l where l: "l \<in> set (entryLines b e)" "y = g l" by blast
    from account [OF member [OF l(1)]] obtain a where
      "a \<in> set (bk_accounts b)" "at_businessId a = jl_businessId l" "at_id a = jl_accountId l" by blast
    with l(1) have "toDetailLine (l, a) \<in> set (detailLines b (je_businessId e) (je_id e))" unfolding lines by blast
    then show "y \<in> f ` set (detailLines b (je_businessId e) (je_id e))" using f [of l a] l(2) by (metis imageI)
  qed
  show "el_branchId ` set (detailLines b (je_businessId e) (je_id e)) = jl_branchId ` set (entryLines b e)"
    by (rule images) (rule sel(1))
  show "el_fxRateAt ` set (detailLines b (je_businessId e) (je_id e)) = jl_fxRateAt ` set (entryLines b e)"
    by (rule images) (rule sel(2))
qed

lemma service_entry_assigned:
  assumes "reports_entry reader (service_scope m) i = Some d" "hasPermission (mc_roles m) ''accounting.view''"
    "mc_branchScopeMode m = Scope_assigned"
  shows "service_entry reader m i = (if list_all (\<lambda>l. in_branches (mc_allowedBranchIds m) (el_branchId l)) (ed_lines d)
     then toEntryDetailDto d else refuse NotFoundException)"
  by (simp add: service_entry_def authorize_def assms in_branches_case)

lemma entry_decided:
  assumes "books_ok b" "e \<in> set (bk_entries b)" "je_businessId e = mc_businessId m" "hasPermission (mc_roles m) ''accounting.view''"
    "je_createdAt e \<noteq> None" "\<forall>l \<in> set (entryLines b e). jl_fxRateAt l \<noteq> None" "mc_branchScopeMode m = Scope_assigned"
  shows "if entryVisibilityPredicate b (Mode_assigned (mc_allowedBranchIds m)) e
    then \<exists>d. service_entry (databaseReader b) m (je_id e) = Inr d \<and> dd_entryId d = je_id e
    else service_entry (databaseReader b) m (je_id e) = Inl NotFoundException"
proof -
  let ?detail = "the (reader_readEntryDetail b (service_scope m) (je_id e))"
  have found: "reader_readEntryDetail b (service_scope m) (je_id e) = Some ?detail"
    "ed_lines ?detail = detailLines b (je_businessId e) (je_id e)" "ed_createdAt ?detail = je_createdAt e" "ed_entryId ?detail = je_id e"
    using find_entry [OF assms(1,2)] by (simp_all add: reader_readEntryDetail_def service_scope_def assms(3))
  have "list_all (\<lambda>l. in_branches (mc_allowedBranchIds m) (el_branchId l)) (ed_lines ?detail)
    \<longleftrightarrow> (\<forall>x \<in> el_branchId ` set (ed_lines ?detail). in_branches (mc_allowedBranchIds m) x)" by (simp add: list_all_iff)
  also have "\<dots> \<longleftrightarrow> (\<forall>x \<in> jl_branchId ` set (entryLines b e). in_branches (mc_allowedBranchIds m) x)"
    by (simp only: found(2) detail_branches(1) [OF assms(1,2)])
  also have "\<dots> \<longleftrightarrow> entryVisibilityPredicate b (Mode_assigned (mc_allowedBranchIds m)) e" by (simp only: assigned_visible) blast
  finally have visible: "list_all (\<lambda>l. in_branches (mc_allowedBranchIds m) (el_branchId l)) (ed_lines ?detail)
    \<longleftrightarrow> entryVisibilityPredicate b (Mode_assigned (mc_allowedBranchIds m)) e" .
  have "None \<notin> jl_fxRateAt ` set (entryLines b e)" using assms(6) by (force simp: image_iff)
  then have "None \<notin> el_fxRateAt ` set (ed_lines ?detail)" by (simp add: found(2) detail_branches(2) [OF assms(1,2)])
  then have times: "\<exists>y. toEntryLineDto l = Inr y" if "l \<in> set (ed_lines ?detail)" for l
    using that by (cases "el_fxRateAt l") (force simp: toEntryLineDto_def instantText_def)+
  then have "mapR toEntryLineDto (ed_lines ?detail) = Inr (map (\<lambda>l. projr (toEntryLineDto l)) (ed_lines ?detail))"
    by (intro mapR_total) (metis sum.sel(2))
  then have dto: "\<exists>d. toEntryDetailDto ?detail = Inr d \<and> dd_entryId d = je_id e"
    using assms(5) found(3,4) by (auto simp: toEntryDetailDto_def instantText_def)
  have "reports_entry (databaseReader b) (service_scope m) (je_id e) = Some ?detail"
    using found(1) by (simp only: reports_entry_def databaseReader_def AccountingReportReader.simps)
  from service_entry_assigned [OF this assms(4,7)] dto show ?thesis unfolding visible by presburger
qed

subsection \<open>Properties\<close>

text \<open>C27: A member assigned to branches never reaches outside them, whatever the books hold: every entry the list shows
  lies in the member's business and wholly inside the allowed branches, every ledger row and every line of an entry is
  of an allowed branch, and a trial balance, ledger or balance of the whole business is refused.\<close>

theorem assigned_member_confined:
  assumes "mc_branchScopeMode m = Scope_assigned"
  shows "(\<forall>q items nextCursor i. service_entries (databaseReader b) m q = Inr (items, nextCursor) \<and> i \<in> set items \<longrightarrow>
      (\<exists>e \<in> set (bk_entries b). je_businessId e = mc_businessId m \<and> je_id e = sd_entryId i
         \<and> (\<forall>l \<in> set (entryLines b e). in_branches (mc_allowedBranchIds m) (jl_branchId l))))
   \<and> (\<forall>q d r. service_ledger (databaseReader b) m q = Inr d \<and> r \<in> set (gd_items d) \<longrightarrow>
        in_branches (mc_allowedBranchIds m) (rd_branchId r))
   \<and> (\<forall>i d l. service_entry (databaseReader b) m i = Inr d \<and> l \<in> set (dd_lines d) \<longrightarrow>
        in_branches (mc_allowedBranchIds m) (ld_branchId l))
   \<and> (\<forall>q g x. \<not> (\<exists>d. service_trialBalance (databaseReader b) m (q\<lparr>br_branchId := None\<rparr>) = Inr d)
        \<and> \<not> (\<exists>d. service_ledger (databaseReader b) m (g\<lparr>lr_branchId := None\<rparr>) = Inr d)
        \<and> \<not> (\<exists>d. service_balances (databaseReader b) m (x\<lparr>xr_branchId := None\<rparr>) = Inr d))"
  by (intro conjI allI impI; (elim conjE)?)
     (rule entries_confined [OF assms] ledger_confined [OF assms] entry_confined [OF assms] whole_business_refused [OF assms]; assumption?)+

definition branch_books :: Books where
  "branch_books = sample_books\<lparr>bk_lines := map (\<lambda>l. l\<lparr>jl_branchId := Some (if jl_journalEntryId l = sample_id (CHR ''b'') \<and> jl_lineNo l = 2
     then ''south'' else ''north'')\<rparr>) (bk_lines sample_books)\<rparr>"

definition branch_member :: MembershipContext where
  "branch_member = \<lparr>mc_tenantId = ''t'', mc_businessId = ''b'', mc_userId = ''u'', mc_roles = [sample_role [''accounting.view'']],
     mc_roleKeys = [''till''], mc_branchScopeMode = Scope_assigned, mc_allowedBranchIds = [''north'']\<rparr>"

theorem assigned_member_confined_witness:
  "\<exists>e \<in> set (bk_entries branch_books). je_id e = sample_id (CHR ''c'')
     \<and> (\<forall>l \<in> set (entryLines branch_books e). in_branches [''north''] (jl_branchId l))"
proof -
  let ?q = "\<lparr>er_from = None, er_to = None, er_sourceType = None, er_branchId = None, er_limit = None, er_cursor = None\<rparr>"
  have m: "mc_branchScopeMode branch_member = Scope_assigned" "mc_allowedBranchIds branch_member = [''north'']"
    by (simp_all add: branch_member_def)
  have e: "map_sum id (\<lambda>p. map sd_entryId (fst p)) (service_entries (databaseReader branch_books) branch_member ?q)
     = Inr [sample_id (CHR ''a''), sample_id (CHR ''c'')]" by code_simp
  then obtain items nextCursor where r: "service_entries (databaseReader branch_books) branch_member ?q = Inr (items, nextCursor)"
    "map sd_entryId items = [sample_id (CHR ''a''), sample_id (CHR ''c'')]"
    by (cases "service_entries (databaseReader branch_books) branch_member ?q") auto
  then obtain i where "i \<in> set items" "sd_entryId i = sample_id (CHR ''c'')"
    by (metis imageE list.set_intros(1,2) list.set_map)
  with assigned_member_confined [OF m(1), of branch_books] r(1) show ?thesis unfolding m(2) by metis
qed

text \<open>The list and the single read open the same doors: over sound books with valid instants an assigned member who may
  read the books is served an entry exactly when the list's visibility predicate admits it, whole; otherwise the
  answer is the one an identifier that does not exist gets.\<close>

theorem entry_served_iff_listed:
  assumes "books_ok b" "e \<in> set (bk_entries b)" "je_businessId e = mc_businessId m" "hasPermission (mc_roles m) ''accounting.view''"
    "je_createdAt e \<noteq> None" "\<forall>l \<in> set (entryLines b e). jl_fxRateAt l \<noteq> None" "mc_branchScopeMode m = Scope_assigned"
  shows "if entryVisibilityPredicate b (Mode_assigned (mc_allowedBranchIds m)) e
    then \<exists>d. service_entry (databaseReader b) m (je_id e) = Inr d \<and> dd_entryId d = je_id e
    else service_entry (databaseReader b) m (je_id e) = Inl NotFoundException"
  using assms by (rule entry_decided)

theorem entry_served_iff_listed_witness:
  "(\<exists>d. service_entry (databaseReader branch_books) branch_member (sample_id (CHR ''a'')) = Inr d)
   \<and> service_entry (databaseReader branch_books) branch_member (sample_id (CHR ''b'')) = Inl NotFoundException"
proof -
  have ok: "books_ok branch_books" by code_simp
  let ?a = "sample_entry (CHR ''a'') ''2024-01-31''" and ?b = "sample_entry (CHR ''b'') ''2024-02-29''"
  have e: "?a \<in> set (bk_entries branch_books)" "?b \<in> set (bk_entries branch_books)" by (simp_all add: branch_books_def sample_books_def)
  have i: "je_businessId (sample_entry x d) = mc_businessId branch_member" "je_id (sample_entry x d) = sample_id x"
    "je_createdAt (sample_entry x d) \<noteq> None" for x d by (simp_all add: sample_entry_def branch_member_def)
  have p: "hasPermission (mc_roles branch_member) ''accounting.view''" "mc_branchScopeMode branch_member = Scope_assigned"
    by (simp_all add: branch_member_def sample_role_def)
  have t: "\<forall>l \<in> set (entryLines branch_books x). jl_fxRateAt l \<noteq> None" for x
    by (simp add: entryLines_def branch_books_def sample_books_def sample_line_def)
  have v: "entryVisibilityPredicate branch_books (Mode_assigned (mc_allowedBranchIds branch_member)) ?a"
    "\<not> entryVisibilityPredicate branch_books (Mode_assigned (mc_allowedBranchIds branch_member)) ?b" by code_simp+
  show ?thesis
    using entry_served_iff_listed [OF ok e(1) i(1) p(1) i(3) t p(2)] entry_served_iff_listed [OF ok e(2) i(1) p(1) i(3) t p(2)] v i(2)
    by auto
qed

text \<open>The service refuses uniformly: without the view permission every read is forbidden before anything is read, and
  the ledgers of two accounts the business does not have are refused alike, whatever those accounts are elsewhere.\<close>

theorem service_refuses_uniformly:
  "(\<not> hasPermission (mc_roles m) ''accounting.view'' \<longrightarrow>
      service_accounts reader m qa = Inl ForbiddenException \<and> service_entries reader m qe = Inl ForbiddenException
      \<and> service_entry reader m i = Inl ForbiddenException \<and> service_trialBalance reader m qt = Inl ForbiddenException
      \<and> service_ledger reader m ql = Inl ForbiddenException \<and> service_balances reader m qb = Inl ForbiddenException)
   \<and> (rp_findAccount reader (service_scope m) a = None \<and> rp_findAccount reader (service_scope m) a' = None \<longrightarrow>
      service_ledger reader m (ql\<lparr>lr_accountId := a\<rparr>) = service_ledger reader m (ql\<lparr>lr_accountId := a'\<rparr>))"
proof -
  have "ledger reader s (q\<lparr>lq_accountId := x\<rparr>) = (if lq_to q < lq_from q then refuse (AccountingError accounting_report_range_invalid)
      else bindR (requireBaseCurrency reader s) (\<lambda>_. refuse (AccountingError accounting_account_not_found)))"
    if "rp_findAccount reader s x = None" for s q x
    using that by (simp add: ledger_def)
  from this [of "service_scope m" _ "\<lparr>lq_accountId = x, lq_from = f, lq_to = t, lq_branch = br, lq_limit = n, lq_cursor = c\<rparr>" for x f t br n c]
  have missing: "ledger reader (service_scope m) \<lparr>lq_accountId = x, lq_from = f, lq_to = t, lq_branch = br, lq_limit = n, lq_cursor = c\<rparr>
      = (if t < f then refuse (AccountingError accounting_report_range_invalid)
         else bindR (requireBaseCurrency reader (service_scope m)) (\<lambda>_. refuse (AccountingError accounting_account_not_found)))"
    if "rp_findAccount reader (service_scope m) x = None" for x f t br n c
    using that by simp
  show ?thesis
  proof (intro conjI)
    show "\<not> hasPermission (mc_roles m) ''accounting.view'' \<longrightarrow>
      service_accounts reader m qa = Inl ForbiddenException \<and> service_entries reader m qe = Inl ForbiddenException
      \<and> service_entry reader m i = Inl ForbiddenException \<and> service_trialBalance reader m qt = Inl ForbiddenException
      \<and> service_ledger reader m ql = Inl ForbiddenException \<and> service_balances reader m qb = Inl ForbiddenException"
      by (simp add: service_accounts_def service_entries_def service_entry_def service_trialBalance_def service_ledger_def
          service_balances_def authorize_def)
    show "rp_findAccount reader (service_scope m) a = None \<and> rp_findAccount reader (service_scope m) a' = None \<longrightarrow>
      service_ledger reader m (ql\<lparr>lr_accountId := a\<rparr>) = service_ledger reader m (ql\<lparr>lr_accountId := a'\<rparr>)"
      by (cases "rp_findAccount reader (service_scope m) a = None \<and> rp_findAccount reader (service_scope m) a' = None")
         (auto simp: service_ledger_def missing)
  qed
qed

theorem service_refuses_uniformly_witness:
  "service_entry (databaseReader branch_books) (branch_member\<lparr>mc_roles := []\<rparr>) (sample_id (CHR ''a'')) = Inl ForbiddenException
   \<and> service_ledger (databaseReader branch_books) branch_member \<lparr>lr_accountId = ''x'', lr_from = [], lr_to = [],
       lr_branchId = Some ''north'', lr_limit = None, lr_cursor = None\<rparr>
     = service_ledger (databaseReader branch_books) branch_member \<lparr>lr_accountId = ''y'', lr_from = [], lr_to = [],
       lr_branchId = Some ''north'', lr_limit = None, lr_cursor = None\<rparr>"
proof -
  have none: "rp_findAccount (databaseReader branch_books) (service_scope branch_member) ''x'' = None"
    "rp_findAccount (databaseReader branch_books) (service_scope branch_member) ''y'' = None" by code_simp+
  let ?q = "\<lparr>lr_accountId = ''x'', lr_from = [], lr_to = [], lr_branchId = Some ''north'', lr_limit = None, lr_cursor = None\<rparr>"
  show ?thesis
    using service_refuses_uniformly [of branch_member "databaseReader branch_books" undefined undefined undefined undefined ?q undefined "''x''" "''y''"]
      service_refuses_uniformly [of "branch_member\<lparr>mc_roles := []\<rparr>" "databaseReader branch_books" undefined undefined "sample_id (CHR ''a'')"] none
    by simp
qed

end
