(* ===== verification/Reconciliation.thy ===== *)
theory Reconciliation
  imports Assertions
begin

text \<open>
  packages/accounting/src/reconciliation.ts and accounting-reconciliation.service.ts: the pass that
  compares the journal with the invariants and never corrects it. The reader is a port whose check
  answers with a finding or with one of the three ways to fail; the clock is its readings in the order
  of the calls, in milliseconds. The prose of a check (its invariant) and the notice on deferred
  domains are not modelled; a log line and a metric of the service are signals.

  The lemmas show that a pass answers for every check of every business, that a failing check never
  reads as a clean one, and that only a pass that reached every verdict counts as a success.
\<close>

subsection \<open>The checks\<close>

definition RECONCILIATION_CHECK_IDS :: "string list" where
  "RECONCILIATION_CHECK_IDS = [''R-ACC-01'', ''R-ACC-02'', ''R-ACC-03'', ''R-ACC-04'', ''R-ACC-05'', ''R-ACC-06'', ''R-ACC-07'',
       ''R-ACC-08'', ''R-ACC-09'']"

definition INVENTORY_RECONCILIATION_CHECK_IDS :: "string list" where
  "INVENTORY_RECONCILIATION_CHECK_IDS = [''R-INV-01'', ''R-INV-02'', ''R-INV-03'', ''R-INV-04'', ''R-INV-05'']"

definition ALL_RECONCILIATION_CHECK_IDS :: "string list" where
  "ALL_RECONCILIATION_CHECK_IDS = RECONCILIATION_CHECK_IDS @ INVENTORY_RECONCILIATION_CHECK_IDS"

record ReconciliationCheckDefinition =
  cd_id :: string
  cd_title :: string
  cd_requires :: "string list"
  cd_requiresColumns :: "string list"

definition RECONCILIATION_CHECKS :: "ReconciliationCheckDefinition list" where
  "RECONCILIATION_CHECKS = [
     \<lparr>cd_id = ''R-ACC-01'', cd_title = ''entry balance'',
       cd_requires = [''journal_entries'', ''journal_lines''],
       cd_requiresColumns = []\<rparr>,
     \<lparr>cd_id = ''R-ACC-02'', cd_title = ''global balance'',
       cd_requires = [''journal_lines''],
       cd_requiresColumns = []\<rparr>,
     \<lparr>cd_id = ''R-ACC-03'', cd_title = ''trial-balance identity'',
       cd_requires = [''journal_lines'', ''accounts''],
       cd_requiresColumns = []\<rparr>,
     \<lparr>cd_id = ''R-ACC-04'', cd_title = ''orphan integrity'',
       cd_requires = [''journal_entries'', ''journal_lines'', ''accounts''],
       cd_requiresColumns = []\<rparr>,
     \<lparr>cd_id = ''R-ACC-05'', cd_title = ''period integrity'',
       cd_requires = [''journal_entries'', ''accounting_periods''],
       cd_requiresColumns = []\<rparr>,
     \<lparr>cd_id = ''R-ACC-06'', cd_title = ''source registry'',
       cd_requires = [''journal_entries''],
       cd_requiresColumns = []\<rparr>,
     \<lparr>cd_id = ''R-ACC-07'', cd_title = ''FX snapshot completeness'',
       cd_requires = [''journal_lines'', ''businesses''],
       cd_requiresColumns = []\<rparr>,
     \<lparr>cd_id = ''R-ACC-08'', cd_title = ''journal/source binding'',
       cd_requires = [''journal_entries'', ''accounting_source_bindings''],
       cd_requiresColumns = []\<rparr>,
     \<lparr>cd_id = ''R-ACC-09'', cd_title = ''financial_started_at consistency'',
       cd_requires = [''journal_entries'', ''businesses''],
       cd_requiresColumns = []\<rparr>]"

definition INVENTORY_RECONCILIATION_CHECKS :: "ReconciliationCheckDefinition list" where
  "INVENTORY_RECONCILIATION_CHECKS = [
     \<lparr>cd_id = ''R-INV-01'', cd_title = ''inventory ledger equals the Inventory account'',
       cd_requires = [''stock_movements'', ''journal_lines'', ''accounts''],
       cd_requiresColumns = [''stock_movements.business_id'', ''stock_movements.value_delta_base_minor'',
       ''journal_lines.business_id'', ''journal_lines.account_id'', ''journal_lines.debit_minor'',
       ''journal_lines.credit_minor'', ''accounts.business_id'', ''accounts.id'', ''accounts.system_key'']\<rparr>,
     \<lparr>cd_id = ''R-INV-02'', cd_title = ''stock cache equals the stock ledger'',
       cd_requires = [''stock_movements'', ''stock_levels''],
       cd_requiresColumns = [''stock_movements.business_id'', ''stock_movements.warehouse_id'', ''stock_movements.variant_id'',
       ''stock_movements.stock_seq'', ''stock_movements.qty_delta'',
       ''stock_movements.value_delta_base_minor'', ''stock_levels.business_id'', ''stock_levels.warehouse_id'',
       ''stock_levels.variant_id'', ''stock_levels.on_hand'', ''stock_levels.valuation_base_minor'',
       ''stock_levels.last_stock_seq'']\<rparr>,
     \<lparr>cd_id = ''R-INV-03'', cd_title = ''empty stock carries no value'',
       cd_requires = [''stock_levels''],
       cd_requiresColumns = [''stock_levels.business_id'', ''stock_levels.variant_id'', ''stock_levels.on_hand'',
       ''stock_levels.valuation_base_minor'']\<rparr>,
     \<lparr>cd_id = ''R-INV-04'', cd_title = ''no second rounding on inventory'',
       cd_requires = [''journal_lines'', ''accounts''],
       cd_requiresColumns = [''journal_lines.business_id'', ''journal_lines.journal_entry_id'', ''journal_lines.account_id'',
       ''accounts.business_id'', ''accounts.id'', ''accounts.system_key'']\<rparr>,
     \<lparr>cd_id = ''R-INV-05'', cd_title = ''movement/source binding'',
       cd_requires = [''stock_movements'', ''stock_source_bindings''],
       cd_requiresColumns = [''stock_movements.business_id'', ''stock_movements.id'', ''stock_movements.source_type'',
       ''stock_movements.source_id'', ''stock_movements.source_line_id'', ''stock_movements.movement_kind'',
       ''stock_source_bindings.business_id'', ''stock_source_bindings.source_type'',
       ''stock_source_bindings.source_id'', ''stock_source_bindings.source_line_id'',
       ''stock_source_bindings.movement_kind'']\<rparr>]"

definition ALL_RECONCILIATION_CHECKS :: "ReconciliationCheckDefinition list" where
  "ALL_RECONCILIATION_CHECKS = RECONCILIATION_CHECKS @ INVENTORY_RECONCILIATION_CHECKS"

subsection \<open>Results\<close>

datatype ReconciliationStatus = St_ok | St_discrepancy | St_error | St_unavailable

definition NO_CORRECTION_NOTICE :: string where "NO_CORRECTION_NOTICE = ''NO AUTOMATIC CORRECTION PERFORMED''"
definition MAX_OFFENDING_IDS :: nat where "MAX_OFFENDING_IDS = 20"

record ReconciliationFinding =
  rf_offendingCount :: JsNumber
  rf_offendingIds :: "string list"

record ReconciliationTarget =
  rt_tenantId :: string
  rt_businessId :: string

text \<open>\<open>`accounting.reconciliation_unavailable:...`\<close>, the code of an \<open>AccountingError\<close>, or the code of any other failure.\<close>

datatype ReconciliationErrorCode =
    Code_unavailable string
  | Code_accounting accounting_code
  | Code_check_failed

record ReconciliationCheckResult =
  cr_businessId :: string
  cr_checkId :: string
  cr_status :: ReconciliationStatus
  cr_offendingCount :: JsNumber
  cr_offendingIds :: "string list"
  cr_durationMs :: int
  cr_startedAt :: string
  cr_completedAt :: string
  cr_errorCode :: "ReconciliationErrorCode option"
  cr_correction :: string

record ReconciliationRunResult =
  rr_startedAt :: string
  rr_completedAt :: string
  rr_durationMs :: int
  rr_businessCount :: nat
  rr_checkCount :: nat
  rr_discrepancyCount :: nat
  rr_errorCount :: nat
  rr_unavailableCount :: nat
  rr_enumerationReason :: "string option"
  rr_results :: "ReconciliationCheckResult list"
  rr_correction :: string

text \<open>\<open>enumeration\<close> is \<open>'complete'\<close> exactly when there is no reason.\<close>

definition enumeration_complete :: "ReconciliationRunResult \<Rightarrow> bool" where
  "enumeration_complete r \<longleftrightarrow> rr_enumerationReason r = None"

text \<open>The reader port: what \<open>targets()\<close> and \<open>check()\<close> return or throw.\<close>

datatype Enumeration = Targets "ReconciliationTarget list" | Enumeration_error string | Enumeration_failed refusal

datatype CheckOutcome =
    Found ReconciliationFinding
  | Unavailable "string list"
  | Threw_accounting accounting_code
  | Threw_other

record AccountingReconciliationReader =
  rp_targets :: Enumeration
  rp_check :: "ReconciliationTarget \<Rightarrow> string \<Rightarrow> CheckOutcome"

subsection \<open>The safe contract\<close>

definition ALLOWED_RESULT_KEYS :: "string list" where
  "ALLOWED_RESULT_KEYS = [''businessId'', ''checkId'', ''status'', ''offendingCount'', ''offendingIds'', ''durationMs'',
     ''startedAt'', ''completedAt'', ''errorCode'', ''correction'']"

definition negative :: "JsNumber \<Rightarrow> bool" where
  "negative n = (case n of Finite q \<Rightarrow> q < 0 | NonFinite \<Rightarrow> False)"

abbreviation unsafe_result :: "unit result" where
  "unsafe_result \<equiv> refuse (AccountingError accounting_payload_invalid)"

text \<open>\<open>keys\<close> is \<open>Object.keys(result)\<close>.\<close>

definition assertSafeCheckResult :: "string list \<Rightarrow> ReconciliationCheckResult \<Rightarrow> unit result" where
  "assertSafeCheckResult keys r =
     (if \<not> list_all (\<lambda>k. k \<in> set ALLOWED_RESULT_KEYS) keys then refuse (AccountingError accounting_payload_unknown_field)
      else if cr_correction r \<noteq> NO_CORRECTION_NOTICE then unsafe_result
      else if \<not> uuid_any_case (cr_businessId r) then unsafe_result
      else if \<not> isInteger (cr_offendingCount r) \<or> negative (cr_offendingCount r) then unsafe_result
      else if MAX_OFFENDING_IDS < length (cr_offendingIds r) then unsafe_result
      else if \<not> list_all uuid_any_case (cr_offendingIds r) then unsafe_result
      else if cr_status r = St_ok \<and> cr_offendingCount r \<noteq> Finite 0 then unsafe_result
      else if cr_status r = St_discrepancy \<and> cr_offendingCount r = Finite 0 then unsafe_result
      else if cr_status r = St_unavailable \<and> cr_errorCode r = None then unsafe_result
      else if cr_status r = St_unavailable \<and> cr_offendingCount r \<noteq> Finite 0 then unsafe_result
      else if cr_status r \<noteq> St_error \<and> cr_status r \<noteq> St_unavailable \<and> cr_errorCode r \<noteq> None then unsafe_result
      else Inr ())"

subsection \<open>The pass\<close>

text \<open>The four variables of the \<open>try\<close>: the verdict on what the reader answered.\<close>

definition positive :: "JsNumber \<Rightarrow> bool" where
  "positive n = (case n of Finite q \<Rightarrow> 0 < q | NonFinite \<Rightarrow> False)"

definition checkVerdict :: "CheckOutcome \<Rightarrow> ReconciliationStatus \<times> JsNumber \<times> string list \<times> ReconciliationErrorCode option" where
  "checkVerdict outcome = (case outcome of
       Found f \<Rightarrow> (if positive (rf_offendingCount f) then St_discrepancy else St_ok, rf_offendingCount f,
                    take MAX_OFFENDING_IDS (rf_offendingIds f), None)
     | Unavailable missing \<Rightarrow> (St_unavailable, Finite 0, [],
         Some (Code_unavailable (''accounting.reconciliation_unavailable:'' @ joinWith (CHR ''+'') missing)))
     | Threw_accounting code \<Rightarrow> (St_error, Finite 0, [], Some (Code_accounting code))
     | Threw_other \<Rightarrow> (St_error, Finite 0, [], Some Code_check_failed))"

definition resultKeys :: "ReconciliationErrorCode option \<Rightarrow> string list" where
  "resultKeys errorCode = [''businessId'', ''checkId'', ''status'', ''offendingCount'', ''offendingIds'', ''durationMs'',
     ''startedAt'', ''completedAt''] @ (if errorCode = None then [] else [''errorCode'']) @ [''correction'']"

definition checkResult ::
  "ReconciliationTarget \<Rightarrow> string \<Rightarrow> CheckOutcome \<Rightarrow> int \<Rightarrow> int \<Rightarrow> ReconciliationCheckResult" where
  "checkResult target checkId outcome startedAt completedAt =
     (case checkVerdict outcome of (status, offendingCount, offendingIds, errorCode) \<Rightarrow>
       \<lparr>cr_businessId = rt_businessId target, cr_checkId = checkId, cr_status = status, cr_offendingCount = offendingCount,
        cr_offendingIds = offendingIds, cr_durationMs = max 0 (completedAt - startedAt), cr_startedAt = toISOString startedAt,
        cr_completedAt = toISOString completedAt, cr_errorCode = errorCode, cr_correction = NO_CORRECTION_NOTICE\<rparr>)"

text \<open>The two nested loops: \<open>k\<close> counts the readings of the clock.\<close>

fun runChecks ::
  "AccountingReconciliationReader \<Rightarrow> (nat \<Rightarrow> int) \<Rightarrow> nat \<Rightarrow> (ReconciliationTarget \<times> string) list \<Rightarrow> ReconciliationCheckResult list result" where
  "runChecks reader clock k [] = Inr []"
| "runChecks reader clock k ((target, checkId) # rest) =
     (let r = checkResult target checkId (rp_check reader target checkId) (clock k) (clock (k + 1))
      in bindR (assertSafeCheckResult (resultKeys (cr_errorCode r)) r) (\<lambda>_.
         bindR (runChecks reader clock (k + 2) rest) (\<lambda>results. Inr (r # results))))"

definition runPairs :: "ReconciliationTarget list \<Rightarrow> string list \<Rightarrow> (ReconciliationTarget \<times> string) list" where
  "runPairs targets checkIds = [(t, c). t \<leftarrow> targets, c \<leftarrow> checkIds]"

definition countStatus :: "ReconciliationStatus \<Rightarrow> ReconciliationCheckResult list \<Rightarrow> nat" where
  "countStatus s rs = length (filter (\<lambda>r. cr_status r = s) rs)"

definition reconcile ::
  "AccountingReconciliationReader \<Rightarrow> (nat \<Rightarrow> int) \<Rightarrow> string list option \<Rightarrow> ReconciliationRunResult result" where
  "reconcile reader clock checks =
     (let checkIds = (case checks of None \<Rightarrow> RECONCILIATION_CHECK_IDS | Some ids \<Rightarrow> ids) in
      case rp_targets reader of
        Enumeration_failed e \<Rightarrow> refuse e
      | enumeration \<Rightarrow>
          let targets = (case enumeration of Targets ts \<Rightarrow> ts | _ \<Rightarrow> []);
              reason = (case enumeration of Enumeration_error missing \<Rightarrow> Some missing | _ \<Rightarrow> None)
          in bindR (runChecks reader clock 1 (runPairs targets checkIds)) (\<lambda>results.
             let runCompleted = clock (1 + 2 * length (runPairs targets checkIds)) in
             Inr \<lparr>rr_startedAt = toISOString (clock 0), rr_completedAt = toISOString runCompleted,
                  rr_durationMs = max 0 (runCompleted - clock 0), rr_businessCount = length targets,
                  rr_checkCount = length checkIds, rr_discrepancyCount = countStatus St_discrepancy results,
                  rr_errorCount = countStatus St_error results, rr_unavailableCount = countStatus St_unavailable results,
                  rr_enumerationReason = reason, rr_results = results, rr_correction = NO_CORRECTION_NOTICE\<rparr>))"

subsection \<open>The service\<close>

record ReconciliationServiceState =
  sv_lastSuccessfulRunAt :: "string option"
  sv_lastRunAt :: "string option"

datatype Signal =
    Run_started nat
  | Enumeration_unavailable "string option"
  | Discrepancy_found string string JsNumber "string list"
  | Check_unavailable string string "ReconciliationErrorCode option"
  | Check_failed string string "ReconciliationErrorCode option"
  | Run_outcome bool
  | Run_completed nat nat nat

definition checkSignals :: "ReconciliationCheckResult \<Rightarrow> Signal list" where
  "checkSignals r = (case cr_status r of
       St_discrepancy \<Rightarrow> [Discrepancy_found (cr_checkId r) (cr_businessId r) (cr_offendingCount r) (cr_offendingIds r)]
     | St_unavailable \<Rightarrow> [Check_unavailable (cr_checkId r) (cr_businessId r) (cr_errorCode r)]
     | St_error \<Rightarrow> [Check_failed (cr_checkId r) (cr_businessId r) (cr_errorCode r)]
     | St_ok \<Rightarrow> [])"

definition healthy :: "ReconciliationRunResult \<Rightarrow> bool" where
  "healthy r \<longleftrightarrow> enumeration_complete r \<and> rr_errorCount r = 0 \<and> rr_unavailableCount r = 0"

definition runOnce ::
  "AccountingReconciliationReader \<Rightarrow> (nat \<Rightarrow> int) \<Rightarrow> ReconciliationServiceState
     \<Rightarrow> (ReconciliationServiceState \<times> ReconciliationRunResult \<times> Signal list) result" where
  "runOnce reader clock s =
     bindR (reconcile reader clock (Some ALL_RECONCILIATION_CHECK_IDS)) (\<lambda>r.
       let s1 = s\<lparr>sv_lastRunAt := Some (rr_completedAt r)\<rparr>;
           s2 = (if healthy r then s1\<lparr>sv_lastSuccessfulRunAt := Some (rr_completedAt r)\<rparr> else s1)
       in Inr (s2, r, [Run_started (length ALL_RECONCILIATION_CHECK_IDS)]
            @ (if enumeration_complete r then [] else [Enumeration_unavailable (rr_enumerationReason r)])
            @ concat (map checkSignals (rr_results r))
            @ [Run_outcome (healthy r), Run_completed (rr_discrepancyCount r) (rr_errorCount r) (rr_unavailableCount r)]))"

subsection \<open>What a pass answers\<close>

definition verdictOf :: "ReconciliationCheckResult \<Rightarrow> ReconciliationStatus \<times> JsNumber \<times> string list \<times> ReconciliationErrorCode option" where
  "verdictOf r = (cr_status r, cr_offendingCount r, cr_offendingIds r, cr_errorCode r)"

definition answers :: "ReconciliationCheckResult \<Rightarrow> string \<times> string \<times> ReconciliationStatus \<times> JsNumber \<times> string list \<times> ReconciliationErrorCode option" where
  "answers r = (cr_businessId r, cr_checkId r, verdictOf r)"

definition expected ::
  "AccountingReconciliationReader \<Rightarrow> ReconciliationTarget \<times> string
     \<Rightarrow> string \<times> string \<times> ReconciliationStatus \<times> JsNumber \<times> string list \<times> ReconciliationErrorCode option" where
  "expected reader p = (rt_businessId (fst p), snd p, checkVerdict (rp_check reader (fst p) (snd p)))"

lemma checkResult_answers: "answers (checkResult t c (rp_check reader t c) x y) = expected reader (t, c)"
  by (cases "checkVerdict (rp_check reader t c)") (simp add: answers_def verdictOf_def expected_def checkResult_def)

definition safe_result :: "ReconciliationCheckResult \<Rightarrow> bool" where
  "safe_result r \<longleftrightarrow> uuid_any_case (cr_businessId r) \<and> isInteger (cr_offendingCount r) \<and> \<not> negative (cr_offendingCount r)
     \<and> length (cr_offendingIds r) \<le> MAX_OFFENDING_IDS \<and> list_all uuid_any_case (cr_offendingIds r)
     \<and> cr_correction r = NO_CORRECTION_NOTICE"

lemma assertSafe_safe: "assertSafeCheckResult keys r = Inr u \<Longrightarrow> safe_result r"
  by (simp add: assertSafeCheckResult_def result_simps safe_result_def)

lemma runChecks_answers:
  "runChecks reader clock k ps = Inr rs \<Longrightarrow> map answers rs = map (expected reader) ps \<and> list_all safe_result rs"
proof (induction reader clock k ps arbitrary: rs rule: runChecks.induct)
  case (2 reader clock k target checkId rest)
  then show ?case by (auto simp: Let_def bindR_eq_Inr checkResult_answers dest: assertSafe_safe)
qed simp

text \<open>What a reader may find: a whole number of objects, named by identifiers.\<close>

definition finding_ok :: "CheckOutcome \<Rightarrow> bool" where
  "finding_ok outcome = (case outcome of
       Found f \<Rightarrow> isInteger (rf_offendingCount f) \<and> \<not> negative (rf_offendingCount f) \<and> list_all uuid_any_case (rf_offendingIds f)
     | _ \<Rightarrow> True)"

lemma keys_allowed: "list_all (\<lambda>k. k \<in> set ALLOWED_RESULT_KEYS) (resultKeys code)"
  by (cases code) (simp_all add: resultKeys_def ALLOWED_RESULT_KEYS_def)

lemma checkResult_safe:
  assumes "uuid_any_case (rt_businessId t)" "finding_ok outcome"
  shows "\<exists>u. assertSafeCheckResult (resultKeys (cr_errorCode (checkResult t c outcome x y))) (checkResult t c outcome x y) = Inr u"
proof (cases outcome)
  case (Found f)
  have "list_all uuid_any_case (take MAX_OFFENDING_IDS (rf_offendingIds f))"
    using assms(2) by (auto simp: Found finding_ok_def list_all_iff dest: in_set_takeD)
  with assms show ?thesis unfolding Found
    by (cases "rf_offendingCount f")
      (auto simp: assertSafeCheckResult_def keys_allowed checkResult_def checkVerdict_def finding_ok_def positive_def negative_def isInteger_def)
next
  case (Unavailable missing)
  show ?thesis unfolding Unavailable
    using assms(1) by (auto simp: assertSafeCheckResult_def keys_allowed checkResult_def checkVerdict_def isInteger_def negative_def)
next
  case (Threw_accounting e)
  show ?thesis unfolding Threw_accounting
    using assms(1) by (auto simp: assertSafeCheckResult_def keys_allowed checkResult_def checkVerdict_def isInteger_def negative_def)
next
  case Threw_other
  show ?thesis unfolding Threw_other
    using assms(1) by (auto simp: assertSafeCheckResult_def keys_allowed checkResult_def checkVerdict_def isInteger_def negative_def)
qed

lemma runChecks_total:
  "list_all (\<lambda>(t, c). uuid_any_case (rt_businessId t) \<and> finding_ok (rp_check reader t c)) ps \<Longrightarrow> \<exists>rs. runChecks reader clock k ps = Inr rs"
proof (induction ps arbitrary: k)
  case (Cons p ps)
  obtain t c where p: "p = (t, c)" by force
  with Cons.prems have ok: "uuid_any_case (rt_businessId t)" "finding_ok (rp_check reader t c)" by simp_all
  from checkResult_safe [OF ok, of c "clock k" "clock (k + 1)"] obtain u where
    u: "assertSafeCheckResult (resultKeys (cr_errorCode (checkResult t c (rp_check reader t c) (clock k) (clock (k + 1)))))
      (checkResult t c (rp_check reader t c) (clock k) (clock (k + 1))) = Inr u" by blast
  from Cons obtain rs where "runChecks reader clock (k + 2) ps = Inr rs" by fastforce
  with u p show ?case by (simp add: Let_def del: One_nat_def add_2_eq_Suc')
qed simp

lemma reconcile_eq_Inr:
  "reconcile reader clock (Some ids) = Inr r \<Longrightarrow> \<exists>ts. (rp_targets reader = Targets ts \<and> enumeration_complete r
       \<or> (\<exists>missing. rp_targets reader = Enumeration_error missing) \<and> ts = [] \<and> \<not> enumeration_complete r)
     \<and> runChecks reader clock 1 (runPairs ts ids) = Inr (rr_results r) \<and> rr_businessCount r = length ts \<and> rr_checkCount r = length ids
     \<and> rr_discrepancyCount r = countStatus St_discrepancy (rr_results r) \<and> rr_errorCount r = countStatus St_error (rr_results r)
     \<and> rr_unavailableCount r = countStatus St_unavailable (rr_results r)"
  by (cases "rp_targets reader") (auto simp: reconcile_def Let_def bindR_eq_Inr enumeration_complete_def)

lemma count_all:
  "countStatus St_ok rs + countStatus St_discrepancy rs + countStatus St_error rs + countStatus St_unavailable rs = length rs"
proof (induction rs)
  case (Cons r rs)
  then show ?case by (cases "cr_status r") (simp_all add: countStatus_def)
qed (simp add: countStatus_def)

lemma runPairs_length: "length (runPairs ts ids) = length ts * length ids"
  by (induction ts) (simp_all add: runPairs_def)

lemma runPairs_set: "set (runPairs ts ids) = set ts \<times> set ids"
  by (auto simp: runPairs_def)

lemma counted_none: "countStatus s rs = 0 \<longleftrightarrow> (\<forall>r \<in> set rs. cr_status r \<noteq> s)"
  by (auto simp: countStatus_def filter_empty_conv)

lemma verdict_found: "fst (checkVerdict outcome) \<noteq> St_error \<and> fst (checkVerdict outcome) \<noteq> St_unavailable \<longleftrightarrow> (\<exists>f. outcome = Found f)"
  by (cases outcome) (simp_all add: checkVerdict_def)

lemma healthy_iff:
  assumes "reconcile reader clock (Some ids) = Inr r"
  shows "healthy r \<longleftrightarrow> (\<exists>ts. rp_targets reader = Targets ts \<and> (\<forall>t \<in> set ts. \<forall>c \<in> set ids. \<exists>f. rp_check reader t c = Found f))"
proof -
  from reconcile_eq_Inr [OF assms] obtain ts where ts: "rp_targets reader = Targets ts \<and> enumeration_complete r
       \<or> (\<exists>missing. rp_targets reader = Enumeration_error missing) \<and> ts = [] \<and> \<not> enumeration_complete r"
    "runChecks reader clock 1 (runPairs ts ids) = Inr (rr_results r)" "rr_errorCount r = countStatus St_error (rr_results r)"
    "rr_unavailableCount r = countStatus St_unavailable (rr_results r)" by blast
  have "map answers (rr_results r) = map (expected reader) (runPairs ts ids)" using runChecks_answers [OF ts(2)] by blast
  then have "map (\<lambda>a. fst (snd (snd a))) (map answers (rr_results r)) = map (\<lambda>a. fst (snd (snd a))) (map (expected reader) (runPairs ts ids))"
    by (rule arg_cong)
  then have "map cr_status (rr_results r) = map (\<lambda>p. fst (checkVerdict (rp_check reader (fst p) (snd p)))) (runPairs ts ids)"
    by (simp add: o_def answers_def verdictOf_def expected_def)
  then have "cr_status ` set (rr_results r) = (\<lambda>p. fst (checkVerdict (rp_check reader (fst p) (snd p)))) ` set (runPairs ts ids)"
    by (metis list.set_map)
  then have "(\<forall>x \<in> set (rr_results r). cr_status x \<noteq> St_error \<and> cr_status x \<noteq> St_unavailable)
     \<longleftrightarrow> (\<forall>p \<in> set (runPairs ts ids). \<exists>f. rp_check reader (fst p) (snd p) = Found f)"
    unfolding verdict_found [symmetric] by (metis (mono_tags, lifting) image_iff)
  then show ?thesis using ts(1)
    by (auto simp: healthy_def ts(3,4) counted_none runPairs_set)
qed

subsection \<open>Properties\<close>

text \<open>C28: A pass answers for everything it was asked: over a reader that finds whole numbers of identified objects it never
  fails, and its results are, business by business and check by check in order, the verdict on what the reader
  answered for that pair alone; a check that throws costs its own verdict and no other. The four counts add up to
  the number of pairs.\<close>

theorem reconcile_answers_all:
  assumes "rp_targets reader = Targets ts"
    "list_all (\<lambda>(t, c). uuid_any_case (rt_businessId t) \<and> finding_ok (rp_check reader t c)) (runPairs ts ids)"
  shows "\<exists>r. reconcile reader clock (Some ids) = Inr r \<and> enumeration_complete r
    \<and> map answers (rr_results r) = map (\<lambda>(t, c). (rt_businessId t, c, checkVerdict (rp_check reader t c))) (runPairs ts ids)
    \<and> countStatus St_ok (rr_results r) + rr_discrepancyCount r + rr_errorCount r + rr_unavailableCount r = length ts * length ids"
proof -
  from runChecks_total [OF assms(2)] obtain rs where rs: "runChecks reader clock 1 (runPairs ts ids) = Inr rs" by blast
  have e: "expected reader = (\<lambda>(t, c). (rt_businessId t, c, checkVerdict (rp_check reader t c)))" by (auto simp: expected_def)
  have a: "map answers rs = map (expected reader) (runPairs ts ids)" using runChecks_answers [OF rs] by blast
  then have "length rs = length ts * length ids" by (metis length_map runPairs_length)
  with rs assms(1) a count_all [of rs] show ?thesis
    by (auto simp: reconcile_def Let_def enumeration_complete_def e)
qed

definition sample_target :: ReconciliationTarget where
  "sample_target = \<lparr>rt_tenantId = ''t'', rt_businessId = ''0b000000-0000-4000-8000-000000000001''\<rparr>"

definition sample_reconciler :: AccountingReconciliationReader where
  "sample_reconciler = \<lparr>rp_targets = Targets [sample_target], rp_check = (\<lambda>t c. if c = ''R-ACC-01''
     then Found \<lparr>rf_offendingCount = Finite 0, rf_offendingIds = []\<rparr> else if c = ''R-ACC-02'' then Threw_other else Unavailable [c])\<rparr>"

theorem reconcile_answers_all_witness:
  "\<exists>r. reconcile sample_reconciler int (Some [''R-ACC-02'', ''R-ACC-01'']) = Inr r \<and> map cr_status (rr_results r) = [St_error, St_ok]"
proof -
  let ?ids = "[''R-ACC-02'', ''R-ACC-01'']"
  have u: "uuid_any_case (rt_businessId sample_target)" by code_simp
  have "list_all (\<lambda>(t, c). uuid_any_case (rt_businessId t) \<and> finding_ok (rp_check sample_reconciler t c)) (runPairs [sample_target] ?ids)"
    by (simp add: runPairs_def u sample_reconciler_def finding_ok_def isInteger_def negative_def)
  from reconcile_answers_all [OF _ this] obtain r where r: "reconcile sample_reconciler int (Some ?ids) = Inr r"
    "map answers (rr_results r) = map (\<lambda>(t, c). (rt_businessId t, c, checkVerdict (rp_check sample_reconciler t c))) (runPairs [sample_target] ?ids)"
    by (auto simp: sample_reconciler_def)
  have c: "rp_check sample_reconciler t ''R-ACC-02'' = Threw_other"
    "rp_check sample_reconciler t ''R-ACC-01'' = Found \<lparr>rf_offendingCount = Finite 0, rf_offendingIds = []\<rparr>" for t
    by (simp_all add: sample_reconciler_def)
  have v: "fst (checkVerdict Threw_other) = St_error"
    "fst (checkVerdict (Found \<lparr>rf_offendingCount = Finite 0, rf_offendingIds = []\<rparr>)) = St_ok"
    by (simp_all add: checkVerdict_def positive_def)
  have e: "map (\<lambda>a. fst (snd (snd a))) (map (\<lambda>(t, c). (rt_businessId t, c, checkVerdict (rp_check sample_reconciler t c)))
      (runPairs [sample_target] ?ids)) = [St_error, St_ok]"
    unfolding runPairs_def by (simp add: c v)
  have "map cr_status (rr_results r) = map (\<lambda>a. fst (snd (snd a))) (map answers (rr_results r))"
    by (simp add: answers_def verdictOf_def)
  also have "\<dots> = [St_error, St_ok]" by (rule trans [OF arg_cong [OF r(2), of "map (\<lambda>a. fst (snd (snd a)))"] e])
  finally have "map cr_status (rr_results r) = [St_error, St_ok]" .
  with r(1) show ?thesis by (intro exI [of _ r] conjI)
qed

text \<open>C29: Nothing but a finding reads as clean: whatever the reader and the clock do, a run of the service advances its
  last success exactly when the businesses could be listed and every check of every one of them returned a finding;
  and every result of the run is safe, carries the notice, and is \<open>ok\<close> only for a check that returned and counted zero.\<close>

theorem success_means_every_verdict:
  assumes "runOnce reader clock s = Inr (s', r, signals)"
  shows "sv_lastSuccessfulRunAt s' =
      (if \<exists>ts. rp_targets reader = Targets ts \<and> (\<forall>t \<in> set ts. \<forall>c \<in> set ALL_RECONCILIATION_CHECK_IDS. \<exists>f. rp_check reader t c = Found f)
       then Some (rr_completedAt r) else sv_lastSuccessfulRunAt s)
    \<and> list_all safe_result (rr_results r)
    \<and> (\<forall>x \<in> set (rr_results r). cr_status x = St_ok \<longrightarrow> (\<exists>t f. rt_businessId t = cr_businessId x
         \<and> rp_check reader t (cr_checkId x) = Found f \<and> rf_offendingCount f = Finite 0))"
proof -
  from assms have r: "reconcile reader clock (Some ALL_RECONCILIATION_CHECK_IDS) = Inr r"
    "sv_lastSuccessfulRunAt s' = (if healthy r then Some (rr_completedAt r) else sv_lastSuccessfulRunAt s)"
    by (auto simp: runOnce_def bindR_eq_Inr Let_def)
  from reconcile_eq_Inr [OF r(1)] obtain ts where
    ts: "runChecks reader clock 1 (runPairs ts ALL_RECONCILIATION_CHECK_IDS) = Inr (rr_results r)" by blast
  note a = runChecks_answers [OF ts]
  have "\<exists>t f. rt_businessId t = cr_businessId x \<and> rp_check reader t (cr_checkId x) = Found f \<and> rf_offendingCount f = Finite 0"
    if x: "x \<in> set (rr_results r)" "cr_status x = St_ok" for x
  proof -
    from x(1) have "answers x \<in> set (map answers (rr_results r))" by simp
    then have "answers x \<in> set (map (expected reader) (runPairs ts ALL_RECONCILIATION_CHECK_IDS))"
      unfolding a [THEN conjunct1] .
    then obtain p where p: "answers x = expected reader p" unfolding list.set_map by blast
    from x(1) a have "safe_result x" by (auto simp: list_all_iff)
    with p x(2) show ?thesis
      by (intro exI [of _ "fst p"], cases "rp_check reader (fst p) (snd p)")
        (auto simp: answers_def verdictOf_def expected_def checkVerdict_def safe_result_def isInteger_def negative_def positive_def
           split: if_splits JsNumber.splits)
  qed
  with a r(2) healthy_iff [OF r(1)] show ?thesis by simp
qed

theorem success_means_every_verdict_witness:
  "\<exists>s r signals. runOnce (sample_reconciler\<lparr>rp_targets := Enumeration_error ''role''\<rparr>) int
      \<lparr>sv_lastSuccessfulRunAt = Some ''2024'', sv_lastRunAt = None\<rparr> = Inr (s, r, signals) \<and> sv_lastSuccessfulRunAt s = Some ''2024''"
proof -
  let ?reader = "sample_reconciler\<lparr>rp_targets := Enumeration_error ''role''\<rparr>" and ?s = "\<lparr>sv_lastSuccessfulRunAt = Some ''2024'', sv_lastRunAt = None\<rparr>"
  obtain s r signals where "runOnce ?reader int ?s = Inr (s, r, signals)"
    by (auto simp: runOnce_def reconcile_def Let_def runPairs_def)
  with success_means_every_verdict [OF this] show ?thesis by auto
qed

end
