(* ===== verification/Reconciliation_Checks.thy ===== *)
theory Reconciliation_Checks
  imports Reconciliation Report_Agreement Valuation
begin

text \<open>
  apps/api/src/modules/accounting/accounting-reconciliation.reader.ts: the fourteen statements of the
  pass over the rows of one snapshot, the enumeration of the businesses and the probe of the
  credential. A statement is the list of identifiers it selects; the privileges of the credential
  are parameters. A statement that times out, and a driver error, are \<open>Threw_other\<close> of the pass and
  not modelled here.

  The lemmas show what a clean answer buys: balanced entries make the trial balance of the reports
  hold, a clean stock check is agreement with the rebuild from the ledger, and the identity over the
  account types is the global balance again.
\<close>

subsection \<open>Tables\<close>

record AccountRow = AccountTableRow +
  at_tenantId :: string

record EntryRow = JournalEntryTableRow +
  je_tenantId :: string

text \<open>\<open>fx_rate\<close> is \<open>NUMERIC(20, 10)\<close>: the number of units of the tenth decimal.\<close>

record LineRow = JournalLineTableRow +
  jl_id :: string
  jl_tenantId :: string
  jl_rateR10 :: int

record BusinessRow =
  bz_tenantId :: string
  bz_id :: string
  bz_baseCurrency :: string
  bz_financialStartedAt :: instant

record PeriodRow =
  pd_businessId :: string
  pd_startDate :: string
  pd_endDate :: string
  pd_status :: string
  pd_closedAt :: instant

record SourceBindingRow =
  sb_businessId :: string
  sb_sourceType :: string
  sb_sourceId :: string
  sb_journalEntryId :: string

record StockMovementRow =
  mv_businessId :: string
  mv_id :: string
  mv_warehouseId :: string
  mv_variantId :: string
  mv_stockSeq :: int
  mv_qtyDelta :: int
  mv_valueDelta :: int
  mv_source :: "string \<times> string \<times> string \<times> string"

record StockLevelRow =
  lv_businessId :: string
  lv_warehouseId :: string
  lv_variantId :: string
  lv_onHand :: int
  lv_valuation :: int
  lv_lastStockSeq :: int

text \<open>The four-part source of a movement is \<open>(source_type, source_id, source_line_id, movement_kind)\<close>.\<close>

record StockBindingRow =
  kb_businessId :: string
  kb_source :: "string \<times> string \<times> string \<times> string"

record LedgerTables =
  lt_businesses :: "BusinessRow list"
  lt_accounts :: "AccountRow list"
  lt_entries :: "EntryRow list"
  lt_lines :: "LineRow list"
  lt_periods :: "PeriodRow list"
  lt_bindings :: "SourceBindingRow list"
  lt_movements :: "StockMovementRow list"
  lt_levels :: "StockLevelRow list"
  lt_stockBindings :: "StockBindingRow list"

subsection \<open>The statements\<close>

text \<open>\<open>LEFT JOIN\<close>: the matches of a row, or one row of NULLs.\<close>

definition leftMatches :: "('a \<Rightarrow> bool) \<Rightarrow> 'a list \<Rightarrow> 'a option list" where
  "leftMatches p rows = (case filter p rows of [] \<Rightarrow> [None] | ms \<Rightarrow> map Some ms)"

definition debitBase :: "LineRow \<Rightarrow> int" where
  "debitBase l = (if 0 < jl_debitMinor l then jl_baseAmountMinor l else 0)"

definition creditBase :: "LineRow \<Rightarrow> int" where
  "creditBase l = (if 0 < jl_creditMinor l then jl_baseAmountMinor l else 0)"

definition linesOf :: "LedgerTables \<Rightarrow> string \<Rightarrow> LineRow list" where
  "linesOf t b = filter (\<lambda>l. jl_businessId l = b) (lt_lines t)"

definition entriesOf :: "LedgerTables \<Rightarrow> string \<Rightarrow> EntryRow list" where
  "entriesOf t b = filter (\<lambda>e. je_businessId e = b) (lt_entries t)"

definition accountMatches :: "LineRow \<Rightarrow> AccountRow \<Rightarrow> bool" where
  "accountMatches l a \<longleftrightarrow> at_businessId a = jl_businessId l \<and> at_id a = jl_accountId l"

text \<open>\<open>journal_lines l JOIN accounts a ON a.business_id = l.business_id AND a.id = l.account_id\<close>\<close>

definition withAccounts :: "LedgerTables \<Rightarrow> string \<Rightarrow> (LineRow \<times> AccountRow) list" where
  "withAccounts t b = [(l, a). l \<leftarrow> linesOf t b, a \<leftarrow> filter (accountMatches l) (lt_accounts t)]"

text \<open>(business_id, id) is the primary key of the entries, so a group by id is one entry.\<close>

definition R_ACC_01 :: "LedgerTables \<Rightarrow> string \<Rightarrow> string list" where
  "R_ACC_01 t b = map je_id (filter (\<lambda>e. let ls = filter (\<lambda>l. jl_businessId l = je_businessId e \<and> jl_journalEntryId l = je_id e) (lt_lines t)
     in length ls < 2 \<or> sum_list (map debitBase ls) \<noteq> sum_list (map creditBase ls)) (entriesOf t b))"

text \<open>A group by business of the lines of one business: no row when there is no line.\<close>

definition R_ACC_02 :: "LedgerTables \<Rightarrow> string \<Rightarrow> string list" where
  "R_ACC_02 t b = (let ls = linesOf t b
     in if ls \<noteq> [] \<and> sum_list (map debitBase ls) \<noteq> sum_list (map creditBase ls) then [b] else [])"

definition identityDebit :: "LineRow \<times> AccountRow \<Rightarrow> int" where
  "identityDebit p = (if at_type (snd p) \<in> {Type_asset, Type_expense}
     then if 0 < jl_debitMinor (fst p) then jl_baseAmountMinor (fst p) else - jl_baseAmountMinor (fst p) else 0)"

definition identityCredit :: "LineRow \<times> AccountRow \<Rightarrow> int" where
  "identityCredit p = (if at_type (snd p) \<in> {Type_liability, Type_equity, Type_revenue}
     then if 0 < jl_creditMinor (fst p) then jl_baseAmountMinor (fst p) else - jl_baseAmountMinor (fst p) else 0)"

definition R_ACC_03 :: "LedgerTables \<Rightarrow> string \<Rightarrow> string list" where
  "R_ACC_03 t b = (let ps = withAccounts t b
     in if ps \<noteq> [] \<and> sum_list (map identityDebit ps) \<noteq> sum_list (map identityCredit ps) then [b] else [])"

definition R_ACC_04 :: "LedgerTables \<Rightarrow> string \<Rightarrow> string list" where
  "R_ACC_04 t b = [jl_id l. l \<leftarrow> linesOf t b,
      e \<leftarrow> leftMatches (\<lambda>e. je_businessId e = jl_businessId l \<and> je_id e = jl_journalEntryId l) (lt_entries t),
      a \<leftarrow> leftMatches (accountMatches l) (lt_accounts t),
      (case e of None \<Rightarrow> True | Some e \<Rightarrow> je_tenantId e \<noteq> jl_tenantId l) \<or> (case a of None \<Rightarrow> True | Some a \<Rightarrow> at_tenantId a \<noteq> jl_tenantId l)]"

definition after :: "instant \<Rightarrow> instant \<Rightarrow> bool" where
  "after x y = (case (x, y) of (Some m, Some n) \<Rightarrow> n < m | _ \<Rightarrow> False)"

definition R_ACC_05 :: "LedgerTables \<Rightarrow> string \<Rightarrow> string list" where
  "R_ACC_05 t b = [je_id e. e \<leftarrow> entriesOf t b, p \<leftarrow> lt_periods t,
      pd_businessId p = je_businessId e \<and> pd_startDate p \<le> je_entryDate e \<and> je_entryDate e \<le> pd_endDate p
        \<and> pd_status p = ''closed'' \<and> after (je_createdAt e) (pd_closedAt p)]"

definition R_ACC_06 :: "LedgerTables \<Rightarrow> string \<Rightarrow> string list" where
  "R_ACC_06 t b = map je_id (filter (\<lambda>e. je_sourceType e \<notin> set (NATIVE_SOURCE_TYPES @ DOMAIN_SOURCE_TYPES)) (entriesOf t b))"

definition R_ACC_07 :: "LedgerTables \<Rightarrow> string \<Rightarrow> string list" where
  "R_ACC_07 t b = [jl_id l. l \<leftarrow> linesOf t b, z \<leftarrow> lt_businesses t, bz_id z = jl_businessId l \<and>
      (jl_baseCurrency l \<noteq> bz_baseCurrency z
       \<or> jl_txnCurrency l = jl_baseCurrency l
           \<and> (jl_rateR10 l \<noteq> 10 ^ 10 \<or> jl_fxRateSource l \<noteq> ''base'' \<or> jl_txnAmountMinor l \<noteq> jl_baseAmountMinor l)
       \<or> jl_txnCurrency l \<noteq> jl_baseCurrency l \<and> (jl_fxRateSource l \<notin> {''manual'', ''provider''} \<or> jl_rateR10 l \<le> 0))]"

text \<open>\<open>UNION\<close> keeps one of equal rows.\<close>

definition union_rows :: "string list \<Rightarrow> string list \<Rightarrow> string list" where
  "union_rows xs ys = remdups (xs @ ys)"

definition R_ACC_08 :: "LedgerTables \<Rightarrow> string \<Rightarrow> string list" where
  "R_ACC_08 t b = union_rows
     [je_id e. e \<leftarrow> entriesOf t b,
        s \<leftarrow> leftMatches (\<lambda>s. sb_businessId s = je_businessId e \<and> sb_sourceType s = je_sourceType e \<and> sb_sourceId s = je_sourceId e) (lt_bindings t),
        (case s of None \<Rightarrow> True | Some s \<Rightarrow> sb_journalEntryId s \<noteq> je_id e)]
     [sb_journalEntryId s. s \<leftarrow> lt_bindings t, sb_businessId s = b
        \<and> \<not> list_ex (\<lambda>e. je_businessId e = sb_businessId s \<and> je_id e = sb_journalEntryId s) (lt_entries t)]"

definition R_ACC_09 :: "LedgerTables \<Rightarrow> string \<Rightarrow> string list" where
  "R_ACC_09 t b = map bz_id (filter (\<lambda>z. bz_id z = b \<and> (entriesOf t (bz_id z) \<noteq> []) \<noteq> (bz_financialStartedAt z \<noteq> None)) (lt_businesses t))"

definition movementsOf :: "LedgerTables \<Rightarrow> string \<Rightarrow> StockMovementRow list" where
  "movementsOf t b = filter (\<lambda>m. mv_businessId m = b) (lt_movements t)"

definition levelsOf :: "LedgerTables \<Rightarrow> string \<Rightarrow> StockLevelRow list" where
  "levelsOf t b = filter (\<lambda>s. lv_businessId s = b) (lt_levels t)"

definition R_INV_01 :: "LedgerTables \<Rightarrow> string \<Rightarrow> string list" where
  "R_INV_01 t b = (if sum_list (map mv_valueDelta (movementsOf t b))
       \<noteq> sum_list (map (\<lambda>(l, a). jl_debitMinor l - jl_creditMinor l) (filter (\<lambda>(l, a). at_systemKey a = Some ''inventory'') (withAccounts t b)))
     then [b] else [])"

definition levelKey :: "StockLevelRow \<Rightarrow> string \<times> string" where "levelKey s = (lv_warehouseId s, lv_variantId s)"
definition movementKey :: "StockMovementRow \<Rightarrow> string \<times> string" where "movementKey m = (mv_warehouseId m, mv_variantId m)"

definition keyRows :: "LedgerTables \<Rightarrow> string \<Rightarrow> string \<times> string \<Rightarrow> StockMovementRow list" where
  "keyRows t b k = filter (\<lambda>m. movementKey m = k) (movementsOf t b)"

text \<open>A level row against the group of its movements; the group is NULL when there is none.\<close>

definition levelOffends :: "StockLevelRow \<Rightarrow> StockMovementRow list \<Rightarrow> bool" where
  "levelOffends s g \<longleftrightarrow>
     (if g = [] then lv_onHand s \<noteq> 0 \<or> lv_valuation s \<noteq> 0 \<or> lv_lastStockSeq s \<noteq> 0
      else lv_onHand s \<noteq> sum_list (map mv_qtyDelta g) \<or> lv_valuation s \<noteq> sum_list (map mv_valueDelta g)
         \<or> lv_lastStockSeq s \<noteq> Max (set (map mv_stockSeq g)) \<or> Max (set (map mv_stockSeq g)) \<noteq> int (length g)
         \<or> Min (set (map mv_stockSeq g)) \<noteq> 1 \<or> card (set (map mv_stockSeq g)) \<noteq> length g)"

definition R_INV_02 :: "LedgerTables \<Rightarrow> string \<Rightarrow> string list" where
  "R_INV_02 t b = union_rows
     (map lv_variantId (filter (\<lambda>s. levelOffends s (keyRows t b (levelKey s))) (levelsOf t b))
      @ map snd (filter (\<lambda>k. k \<notin> levelKey ` set (levelsOf t b)) (remdups (map movementKey (movementsOf t b)))))
     (if sum_list (map lv_valuation (levelsOf t b)) \<noteq> sum_list (map mv_valueDelta (movementsOf t b)) then [b] else [])"

definition R_INV_03 :: "LedgerTables \<Rightarrow> string \<Rightarrow> string list" where
  "R_INV_03 t b = remdups (map lv_variantId (filter (\<lambda>s. lv_onHand s = 0 \<and> lv_valuation s \<noteq> 0) (levelsOf t b)))"

definition R_INV_04 :: "LedgerTables \<Rightarrow> string \<Rightarrow> string list" where
  "R_INV_04 t b = filter (\<lambda>e. let as = [a. (l, a) \<leftarrow> withAccounts t b, jl_journalEntryId l = e]
       in list_ex (\<lambda>a. at_systemKey a = Some ''inventory'') as \<and> list_ex (\<lambda>a. at_systemKey a = Some ''rounding'') as)
     (remdups (map (\<lambda>p. jl_journalEntryId (fst p)) (withAccounts t b)))"

definition R_INV_05 :: "LedgerTables \<Rightarrow> string \<Rightarrow> string list" where
  "R_INV_05 t b = union_rows
     (map mv_id (filter (\<lambda>m. \<not> list_ex (\<lambda>k. kb_businessId k = mv_businessId m \<and> kb_source k = mv_source m) (lt_stockBindings t)) (movementsOf t b)))
     (map (\<lambda>k. fst (snd (snd (kb_source k)))) (filter (\<lambda>k. kb_businessId k = b
        \<and> \<not> list_ex (\<lambda>m. mv_businessId m = kb_businessId k \<and> mv_source m = kb_source k) (lt_movements t)) (lt_stockBindings t)))"

text \<open>\<open>countAndSample\<close>: the true total and the first twenty identifiers.\<close>

definition countAndSample :: "string list \<Rightarrow> ReconciliationFinding" where
  "countAndSample offending = \<lparr>rf_offendingCount = Finite (of_nat (length offending)), rf_offendingIds = take 20 (sort offending)\<rparr>"

definition statements :: "(string \<times> (LedgerTables \<Rightarrow> string \<Rightarrow> string list)) list" where
  "statements = [(''R-ACC-01'', R_ACC_01), (''R-ACC-02'', R_ACC_02), (''R-ACC-03'', R_ACC_03), (''R-ACC-04'', R_ACC_04),
     (''R-ACC-05'', R_ACC_05), (''R-ACC-06'', R_ACC_06), (''R-ACC-07'', R_ACC_07), (''R-ACC-08'', R_ACC_08), (''R-ACC-09'', R_ACC_09),
     (''R-INV-01'', R_INV_01), (''R-INV-02'', R_INV_02), (''R-INV-03'', R_INV_03), (''R-INV-04'', R_INV_04), (''R-INV-05'', R_INV_05)]"

definition runReconciliationCheck :: "LedgerTables \<Rightarrow> string \<Rightarrow> string \<Rightarrow> ReconciliationFinding option" where
  "runReconciliationCheck t businessId checkId =
     map_option (\<lambda>statement. countAndSample (statement t businessId)) (map_of statements checkId)"

subsection \<open>The credential\<close>

text \<open>\<open>stock_movements.qty_delta\<close> is the column of the table before the dot.\<close>

definition tableOf :: "string \<Rightarrow> string" where
  "tableOf qualified = takeWhile (\<lambda>c. c \<noteq> CHR ''.'') qualified"

record Privileges =
  pv_tables :: "string list"
  pv_columns :: "string list"
  pv_enumerator :: bool

definition readableTables :: "Privileges \<Rightarrow> string list" where
  "readableTables p =
     (let tables = filter (\<lambda>n. n \<in> set (pv_tables p)) (remdups (concat (map cd_requires ALL_RECONCILIATION_CHECKS)));
          columns = filter (\<lambda>q. tableOf q \<in> set tables) (remdups (concat (map cd_requiresColumns ALL_RECONCILIATION_CHECKS)))
      in tables @ filter (\<lambda>q. q \<in> set (pv_columns p)) columns)"

definition missingAuthority :: "Privileges \<Rightarrow> ReconciliationCheckDefinition \<Rightarrow> string list" where
  "missingAuthority p d =
     (let readable = set (readableTables p)
      in filter (\<lambda>n. n \<notin> readable) (cd_requires d) @ filter (\<lambda>q. tableOf q \<in> readable \<and> q \<notin> readable) (cd_requiresColumns d))"

definition reader_check :: "LedgerTables \<Rightarrow> Privileges \<Rightarrow> ReconciliationTarget \<Rightarrow> string \<Rightarrow> CheckOutcome" where
  "reader_check t p target checkId =
     (case find (\<lambda>d. cd_id d = checkId) ALL_RECONCILIATION_CHECKS of
        None \<Rightarrow> Threw_other
      | Some definition \<Rightarrow>
          let missing = missingAuthority p definition
          in if missing \<noteq> [] then Unavailable missing
             else case runReconciliationCheck t (rt_businessId target) checkId of
                    None \<Rightarrow> Threw_other
                  | Some f \<Rightarrow> Found f)"

subsection \<open>The businesses\<close>

definition ENUMERATION_PAGE_SIZE :: nat where "ENUMERATION_PAGE_SIZE = 200"
definition MAX_ENUMERATION_PAGES :: nat where "MAX_ENUMERATION_PAGES = 10000"

text \<open>The SQL routine \<open>accounting_reconcile_businesses\<close>: the next pairs after the last one seen, in order.\<close>

definition enumerator :: "LedgerTables \<Rightarrow> (string \<times> string) option \<Rightarrow> nat \<Rightarrow> (string \<times> string) list" where
  "enumerator t last_seen limit =
     take (min (max limit 1) 1000) (filter (\<lambda>k. case last_seen of None \<Rightarrow> True | Some s \<Rightarrow> s < k)
       (sort (map (\<lambda>z. (bz_tenantId z, bz_id z)) (lt_businesses t))))"

text \<open>The loop of \<open>targets()\<close>: \<open>pages\<close> is the number of pages it may still ask for; \<open>None\<close> is the refusal after them.\<close>

fun enumerate_pages :: "LedgerTables \<Rightarrow> nat \<Rightarrow> (string \<times> string) option \<Rightarrow> (string \<times> string) list option" where
  "enumerate_pages t 0 last_seen = None"
| "enumerate_pages t (Suc pages) last_seen =
     (let rows = enumerator t last_seen ENUMERATION_PAGE_SIZE
      in if length rows < ENUMERATION_PAGE_SIZE then Some rows
         else if rows = [] then Some rows
         else map_option (\<lambda>rest. rows @ rest) (enumerate_pages t pages (Some (last rows))))"

definition reader_targets :: "LedgerTables \<Rightarrow> Privileges \<Rightarrow> Enumeration" where
  "reader_targets t p =
     (if \<not> pv_enumerator p then Enumeration_error ''execute''
      else case enumerate_pages t MAX_ENUMERATION_PAGES None of
        None \<Rightarrow> Enumeration_error ''pages''
      | Some ks \<Rightarrow> Targets (map (\<lambda>k. \<lparr>rt_tenantId = fst k, rt_businessId = snd k\<rparr>) ks))"

definition reconciliationReader :: "LedgerTables \<Rightarrow> Privileges \<Rightarrow> AccountingReconciliationReader" where
  "reconciliationReader t p = \<lparr>rp_targets = reader_targets t p, rp_check = reader_check t p\<rparr>"

subsection \<open>The identity over the types\<close>

text \<open>What the keys and the checks of the tables keep: unique accounts, entries and line numbers, lines that carry their
  base amount on exactly one side. \<open>keyed\<close> adds the foreign keys: every line names an account and an entry.\<close>

definition line_shape :: "LineRow \<Rightarrow> bool" where
  "line_shape l \<longleftrightarrow> 0 \<le> jl_debitMinor l \<and> 0 \<le> jl_creditMinor l \<and> (0 < jl_debitMinor l) \<noteq> (0 < jl_creditMinor l)
     \<and> jl_baseAmountMinor l = max (jl_debitMinor l) (jl_creditMinor l)"

definition row_constraints :: "LedgerTables \<Rightarrow> bool" where
  "row_constraints t \<longleftrightarrow> distinct (map (\<lambda>a. (at_businessId a, at_id a)) (lt_accounts t))
     \<and> distinct (map (\<lambda>e. (je_businessId e, je_id e)) (lt_entries t))
     \<and> distinct (map (\<lambda>l. (jl_businessId l, jl_journalEntryId l, jl_lineNo l)) (lt_lines t))
     \<and> list_all (\<lambda>e. CIVIL_DATE (je_entryDate e) \<and> is_uuid (je_id e)) (lt_entries t)
     \<and> list_all (\<lambda>l. line_shape l \<and> 1 \<le> jl_lineNo l \<and> jl_lineNo l < 10 ^ 9) (lt_lines t)"

definition keyed :: "LedgerTables \<Rightarrow> bool" where
  "keyed t \<longleftrightarrow> row_constraints t
     \<and> list_all (\<lambda>l. list_ex (accountMatches l) (lt_accounts t)
          \<and> list_ex (\<lambda>e. je_businessId e = jl_businessId l \<and> je_id e = jl_journalEntryId l) (lt_entries t)) (lt_lines t)"

lemma unique_filter:
  assumes "distinct (map f xs)" "x \<in> set xs" "\<And>y. y \<in> set xs \<Longrightarrow> P y \<longleftrightarrow> f y = f x"
  shows "filter P xs = [x]"
  using assms
proof (induction xs)
  case (Cons y xs)
  show ?case
  proof (cases "x = y")
    case True
    have "filter P xs = []" using Cons.prems True by (auto simp: filter_empty_conv image_iff)
    with Cons.prems True show ?thesis by simp
  next
    case False
    with Cons.prems have "x \<in> set xs" "f y \<noteq> f x" by (auto simp: image_iff)
    with Cons show ?thesis by simp
  qed
qed simp

text \<open>The lines of a business that name an account of its chart, and the others.\<close>

definition named :: "LedgerTables \<Rightarrow> LineRow \<Rightarrow> bool" where
  "named t l \<longleftrightarrow> list_ex (accountMatches l) (lt_accounts t)"

definition orphans :: "LedgerTables \<Rightarrow> string \<Rightarrow> LineRow list" where
  "orphans t b = filter (\<lambda>l. \<not> named t l) (linesOf t b)"

definition imbalance :: "LineRow list \<Rightarrow> int" where
  "imbalance ls = sum_list (map debitBase ls) - sum_list (map creditBase ls)"

lemma imbalance_split: "imbalance ls = imbalance (filter p ls) + imbalance (filter (\<lambda>l. \<not> p l) ls)"
  by (induction ls) (auto simp: imbalance_def)

lemma withAccounts_lines:
  assumes "distinct (map (\<lambda>a. (at_businessId a, at_id a)) (lt_accounts t))"
  shows "map fst (withAccounts t b) = filter (named t) (linesOf t b)"
proof -
  have u: "length (filter (accountMatches l) (lt_accounts t)) = (if named t l then 1 else 0)" for l
  proof (cases "named t l")
    case True
    then obtain a where "a \<in> set (lt_accounts t)" "accountMatches l a" by (auto simp: named_def list_ex_iff)
    then have "filter (accountMatches l) (lt_accounts t) = [a]"
      using assms by (intro unique_filter [where f = "\<lambda>a. (at_businessId a, at_id a)"]) (auto simp: accountMatches_def)
    with True show ?thesis by simp
  qed (auto simp: named_def list_ex_iff filter_empty_conv)
  have "map fst (concat (map (\<lambda>l. map (Pair l) (filter (accountMatches l) (lt_accounts t))) ls)) = filter (named t) ls" for ls
  proof (induction ls)
    case (Cons l ls)
    have "map (\<lambda>a. l) (filter (accountMatches l) (lt_accounts t)) = (if named t l then [l] else [])"
      using u [of l] by (cases "filter (accountMatches l) (lt_accounts t)") (auto split: if_splits)
    with Cons show ?case by (simp add: o_def)
  qed simp
  then show ?thesis by (simp add: withAccounts_def)
qed

lemma identity_difference:
  assumes "list_all (\<lambda>p. (0 < jl_debitMinor (fst p)) \<noteq> (0 < jl_creditMinor (fst p))) ps"
  shows "sum_list (map identityDebit ps) - sum_list (map identityCredit ps) = imbalance (map fst ps)"
  using assms
proof (induction ps)
  case (Cons p ps)
  have "identityDebit p - identityCredit p = debitBase (fst p) - creditBase (fst p)"
    using Cons.prems by (cases "at_type (snd p)") (auto simp: identityDebit_def identityCredit_def debitBase_def creditBase_def)
  with Cons show ?case by (simp add: imbalance_def)
qed (simp add: imbalance_def)

lemma R_ACC_02_imbalance: "R_ACC_02 t b = (if imbalance (linesOf t b) \<noteq> 0 then [b] else [])"
  by (auto simp: R_ACC_02_def Let_def imbalance_def)

lemma R_ACC_03_imbalance:
  assumes "distinct (map (\<lambda>a. (at_businessId a, at_id a)) (lt_accounts t))"
    "\<forall>l \<in> set (linesOf t b). (0 < jl_debitMinor l) \<noteq> (0 < jl_creditMinor l)"
  shows "R_ACC_03 t b = (if imbalance (linesOf t b) \<noteq> imbalance (orphans t b) then [b] else [])"
proof -
  note m = withAccounts_lines [OF assms(1), of b]
  have "fst p \<in> set (linesOf t b)" if "p \<in> set (withAccounts t b)" for p
    using that arg_cong [OF m, of set] by auto
  then have "list_all (\<lambda>p. (0 < jl_debitMinor (fst p)) \<noteq> (0 < jl_creditMinor (fst p))) (withAccounts t b)"
    using assms(2) by (simp add: list_all_iff)
  from identity_difference [OF this] have d: "sum_list (map identityDebit (withAccounts t b)) - sum_list (map identityCredit (withAccounts t b))
      = imbalance (linesOf t b) - imbalance (orphans t b)"
    using imbalance_split [of "linesOf t b" "named t"] by (simp add: m orphans_def)
  then have e: "withAccounts t b = [] \<Longrightarrow> imbalance (linesOf t b) = imbalance (orphans t b)" by simp
  show ?thesis using d e by (auto simp: R_ACC_03_def Let_def)
qed

subsection \<open>Balanced entries and the reports\<close>

text \<open>The snapshot the reports read from the same tables.\<close>

definition booksOf :: "(string \<Rightarrow> int) \<Rightarrow> LedgerTables \<Rightarrow> Books" where
  "booksOf collation t = \<lparr>bk_baseCurrency = (\<lambda>i. map_option bz_baseCurrency (find (\<lambda>z. bz_id z = i) (lt_businesses t))),
     bk_collation = collation, bk_accounts = map AccountTableRow.truncate (lt_accounts t),
     bk_entries = map JournalEntryTableRow.truncate (lt_entries t), bk_lines = map JournalLineTableRow.truncate (lt_lines t)\<rparr>"

lemma truncate_sel [simp]:
  "at_businessId (AccountTableRow.truncate a) = at_businessId a" "at_id (AccountTableRow.truncate a) = at_id a"
  "je_businessId (JournalEntryTableRow.truncate e) = je_businessId e" "je_id (JournalEntryTableRow.truncate e) = je_id e"
  "je_entryDate (JournalEntryTableRow.truncate e) = je_entryDate e"
  "jl_businessId (JournalLineTableRow.truncate l) = jl_businessId l" "jl_journalEntryId (JournalLineTableRow.truncate l) = jl_journalEntryId l"
  "jl_lineNo (JournalLineTableRow.truncate l) = jl_lineNo l" "jl_accountId (JournalLineTableRow.truncate l) = jl_accountId l"
  "jl_debitMinor (JournalLineTableRow.truncate l) = jl_debitMinor l" "jl_creditMinor (JournalLineTableRow.truncate l) = jl_creditMinor l"
  by (simp_all add: AccountTableRow.truncate_def JournalEntryTableRow.truncate_def JournalLineTableRow.truncate_def)

definition linesIn :: "LedgerTables \<Rightarrow> EntryRow \<Rightarrow> LineRow list" where
  "linesIn t e = filter (\<lambda>l. jl_businessId l = je_businessId e \<and> jl_journalEntryId l = je_id e) (lt_lines t)"

lemma entryLines_booksOf:
  "entryLines (booksOf c t) (JournalEntryTableRow.truncate e) = map JournalLineTableRow.truncate (linesIn t e)"
  by (simp add: entryLines_def booksOf_def linesIn_def filter_map o_def)

lemma shape_base: "line_shape l \<Longrightarrow> debitBase l = jl_debitMinor l \<and> creditBase l = jl_creditMinor l"
  by (auto simp: line_shape_def debitBase_def creditBase_def)

lemma clean_entry_balances:
  assumes "keyed t" "R_ACC_01 t (je_businessId e) = []" "e \<in> set (lt_entries t)"
  shows "sum_list (map debitBase (linesIn t e)) = sum_list (map creditBase (linesIn t e))"
    "sum_list (map jl_debitMinor (linesIn t e)) = sum_list (map jl_creditMinor (linesIn t e))"
proof -
  show b: "sum_list (map debitBase (linesIn t e)) = sum_list (map creditBase (linesIn t e))"
    using assms(2,3) by (auto simp: R_ACC_01_def entriesOf_def filter_empty_conv Let_def linesIn_def)
  have "\<forall>l \<in> set (linesIn t e). line_shape l" using assms(1) by (auto simp: keyed_def row_constraints_def linesIn_def list_all_iff)
  then have "map debitBase (linesIn t e) = map jl_debitMinor (linesIn t e)" "map creditBase (linesIn t e) = map jl_creditMinor (linesIn t e)"
    by (simp_all add: shape_base)
  with b show "sum_list (map jl_debitMinor (linesIn t e)) = sum_list (map jl_creditMinor (linesIn t e))" by simp
qed

lemma clean_books_ok:
  assumes "keyed t" "\<forall>b. R_ACC_01 t b = []" shows "books_ok (booksOf c t)"
proof -
  have "sum_list (map jl_debitMinor (entryLines (booksOf c t) (JournalEntryTableRow.truncate e)))
      = sum_list (map jl_creditMinor (entryLines (booksOf c t) (JournalEntryTableRow.truncate e)))" if "e \<in> set (lt_entries t)" for e
    using clean_entry_balances(2) [OF assms(1) _ that] assms(2) by (simp add: entryLines_booksOf o_def)
  then show ?thesis
    using assms(1)
    by (auto simp: books_ok_def booksOf_def keyed_def row_constraints_def lineKey_def o_def list_all_iff list_ex_iff accountMatches_def)
qed

text \<open>The lines of a business, entry by entry.\<close>

lemma business_by_entry:
  fixes f :: "LineRow \<Rightarrow> int"
  assumes "keyed t"
  shows "sum_list (map f (linesOf t b)) = sum_list (map (\<lambda>e. sum_list (map f (linesIn t e))) (entriesOf t b))"
proof -
  let ?match = "\<lambda>e l. jl_businessId l = je_businessId e \<and> jl_journalEntryId l = je_id e"
  have one: "sum_list (map (\<lambda>e. if ?match e l then f l else 0) (entriesOf t b)) = f l"
    if l: "l \<in> set (lt_lines t)" "jl_businessId l = b" for l
  proof -
    from assms l(1) obtain e where e: "e \<in> set (lt_entries t)" "?match e l" by (auto simp: keyed_def list_all_iff list_ex_iff)
    then have u: "filter (\<lambda>e. ?match e l) (entriesOf t b) = [e]"
      using assms l(2) by (intro unique_filter [where f = "\<lambda>e. (je_businessId e, je_id e)"])
        (auto simp: keyed_def row_constraints_def entriesOf_def distinct_map_filter)
    have "sum_list (map (\<lambda>e. if P e then f l else 0) es) = f l * int (length (filter P es))" for P and es :: "EntryRow list"
      by (induction es) (simp_all add: algebra_simps)
    then show ?thesis by (simp add: u)
  qed
  have "sum_list (map f ls) = sum_list (map (\<lambda>e. sum_list (map f (filter (?match e) ls))) (entriesOf t b))"
    if "set ls \<subseteq> set (linesOf t b)" for ls
    using that
  proof (induction ls)
    case (Cons l ls)
    have "sum_list (map (\<lambda>e. sum_list (map f (filter (?match e) (l # ls)))) (entriesOf t b))
        = sum_list (map (\<lambda>e. (if ?match e l then f l else 0) + sum_list (map f (filter (?match e) ls))) (entriesOf t b))"
      by (intro arg_cong [where f = sum_list] map_cong) auto
    also have "\<dots> = f l + sum_list (map f ls)"
      using Cons one [of l] by (simp add: sum_list_addf linesOf_def)
    finally show ?case by simp
  qed simp
  from this [of "linesOf t b"] have "sum_list (map f (linesOf t b))
     = sum_list (map (\<lambda>e. sum_list (map f (filter (?match e) (linesOf t b)))) (entriesOf t b))" by simp
  moreover have "filter (?match e) (linesOf t b) = linesIn t e" if "e \<in> set (entriesOf t b)" for e
    using that by (auto simp: linesOf_def linesIn_def entriesOf_def intro: filter_cong)
  ultimately show ?thesis by (simp cong: map_cong)
qed

lemma clean_business_balances:
  assumes "keyed t" "R_ACC_01 t b = []" shows "R_ACC_02 t b = []"
proof -
  have "sum_list (map debitBase (linesIn t e)) = sum_list (map creditBase (linesIn t e))" if "e \<in> set (entriesOf t b)" for e
    using clean_entry_balances(1) [OF assms(1), of e] assms(2) that by (simp add: entriesOf_def)
  then have "sum_list (map debitBase (linesOf t b)) = sum_list (map creditBase (linesOf t b))"
    unfolding business_by_entry [OF assms(1)] by (rule arg_cong [where f = sum_list, OF map_cong [OF refl]])
  then show ?thesis by (simp add: R_ACC_02_def Let_def)
qed

text \<open>The rows of one business. Its checks and its reports read no other.\<close>

definition own :: "LedgerTables \<Rightarrow> string \<Rightarrow> LedgerTables" where
  "own t b = t\<lparr>lt_accounts := filter (\<lambda>a. at_businessId a = b) (lt_accounts t), lt_entries := entriesOf t b, lt_lines := linesOf t b\<rparr>"

lemma own_rows [simp]:
  "entriesOf (own t b) b = entriesOf t b" "linesOf (own t b) b = linesOf t b"
  by (simp_all add: own_def entriesOf_def linesOf_def)

lemma own_clean:
  assumes "R_ACC_01 t b = []" shows "R_ACC_01 (own t b) c = []"
proof (cases "c = b")
  case True
  have "filter (\<lambda>l. jl_businessId l = je_businessId e \<and> jl_journalEntryId l = je_id e) (linesOf t b)
      = filter (\<lambda>l. jl_businessId l = je_businessId e \<and> jl_journalEntryId l = je_id e) (lt_lines t)" if "e \<in> set (entriesOf t b)" for e
    using that by (auto simp: linesOf_def entriesOf_def intro: filter_cong)
  then have "lt_lines (own t b) = linesOf t b" "R_ACC_01 (own t b) b = R_ACC_01 t b"
    unfolding R_ACC_01_def own_rows by (simp_all add: own_def Let_def cong: filter_cong)
  with True assms show ?thesis by simp
qed (auto simp: R_ACC_01_def own_def entriesOf_def filter_empty_conv)

lemma leftMatches_nonempty: "leftMatches p xs \<noteq> []"
  by (simp add: leftMatches_def split: list.splits)

lemma leftMatches_none: "Some y \<in> set (leftMatches p xs) \<Longrightarrow> list_ex p xs"
  by (rule ccontr) (simp add: leftMatches_def list_ex_iff filter_False)

lemma in_concat_map: "x \<in> set xs \<Longrightarrow> y \<in> set (f x) \<Longrightarrow> y \<in> set (concat (map f xs))"
  by auto

lemma clean_references:
  assumes "R_ACC_04 t b = []" "l \<in> set (linesOf t b)"
  shows "list_ex (\<lambda>e. je_businessId e = jl_businessId l \<and> je_id e = jl_journalEntryId l) (lt_entries t)"
    "list_ex (accountMatches l) (lt_accounts t)"
proof -
  let ?e = "\<lambda>e. je_businessId e = jl_businessId l \<and> je_id e = jl_journalEntryId l"
  have c: "e \<noteq> None \<and> a \<noteq> None"
    if "e \<in> set (leftMatches ?e (lt_entries t))" "a \<in> set (leftMatches (accountMatches l) (lt_accounts t))" for e a
  proof (rule ccontr)
    assume "\<not> (e \<noteq> None \<and> a \<noteq> None)"
    then have "(case e of None \<Rightarrow> True | Some e \<Rightarrow> je_tenantId e \<noteq> jl_tenantId l) \<or> (case a of None \<Rightarrow> True | Some a \<Rightarrow> at_tenantId a \<noteq> jl_tenantId l)"
      by auto
    then have "jl_id l \<in> set (R_ACC_04 t b)"
      unfolding R_ACC_04_def
      by (intro in_concat_map [OF assms(2)] in_concat_map [OF that(1)] in_concat_map [OF that(2)]) simp
    with assms(1) show False by simp
  qed
  obtain e a where "e \<in> set (leftMatches ?e (lt_entries t))" "a \<in> set (leftMatches (accountMatches l) (lt_accounts t))"
    by (rule that [OF hd_in_set [OF leftMatches_nonempty] hd_in_set [OF leftMatches_nonempty]])
  moreover from c [OF this] obtain e' a' where "e = Some e'" "a = Some a'" by auto
  ultimately show "list_ex ?e (lt_entries t)" "list_ex (accountMatches l) (lt_accounts t)"
    by (auto intro: leftMatches_none)
qed

lemma own_keyed:
  assumes "row_constraints t" "R_ACC_04 t b = []" shows "keyed (own t b)"
proof -
  have "row_constraints (own t b)"
    using assms(1) by (auto simp: row_constraints_def own_def list_all_iff linesOf_def entriesOf_def intro!: distinct_map_filter)
  moreover have "list_ex (accountMatches l) (lt_accounts (own t b))
      \<and> list_ex (\<lambda>e. je_businessId e = jl_businessId l \<and> je_id e = jl_journalEntryId l) (lt_entries (own t b))" if "l \<in> set (linesOf t b)" for l
  proof -
    have "jl_businessId l = b" using that by (simp add: linesOf_def)
    with clean_references [OF assms(2) that] show ?thesis
      by (auto simp: list_ex_iff own_def entriesOf_def accountMatches_def)
  qed
  ultimately show ?thesis by (simp add: keyed_def list_all_iff own_def)
qed

lemma own_joined:
  "filter (\<lambda>(l, e). jl_businessId l = b \<and> P l e) (joined (booksOf c (own t b))) = filter (\<lambda>(l, e). jl_businessId l = b \<and> P l e) (joined (booksOf c t))"
proof -
  let ?es = "\<lambda>es l. map (Pair l) (filter (\<lambda>e. je_businessId e = jl_businessId l \<and> je_id e = jl_journalEntryId l) es)"
  let ?f = "filter (\<lambda>(l, e). jl_businessId l = b \<and> P l e)"
  let ?E = "map JournalEntryTableRow.truncate (lt_entries t)" and ?F = "map JournalEntryTableRow.truncate (entriesOf t b)"
  have one: "?f (?es ?F l) = ?f (?es ?E l)" for l
  proof (cases "jl_businessId l = b")
    case True
    have "filter (\<lambda>e. je_businessId e = jl_businessId l \<and> je_id e = jl_journalEntryId l) ?F
        = filter (\<lambda>e. je_businessId e = jl_businessId l \<and> je_id e = jl_journalEntryId l) ?E"
      by (auto simp: entriesOf_def filter_map o_def True intro!: arg_cong [where f = "map _"] filter_cong)
    then show ?thesis by simp
  next
    case False
    then have "?f (map (Pair l) es) = []" for es by (simp add: filter_empty_conv)
    then show ?thesis by simp
  qed
  have "?f (concat (map (?es ?F) (map JournalLineTableRow.truncate (filter (\<lambda>l. jl_businessId l = b) ls))))
      = ?f (concat (map (?es ?E) (map JournalLineTableRow.truncate ls)))" for ls
  proof (induction ls)
    case (Cons l ls)
    have "?f (?es ?E (JournalLineTableRow.truncate l)) = []" if "jl_businessId l \<noteq> b"
      using that by (simp add: filter_empty_conv)
    with Cons one [of "JournalLineTableRow.truncate l"] show ?case by (cases "jl_businessId l = b") simp_all
  qed simp
  then show ?thesis by (simp add: joined_concat booksOf_def own_def linesOf_def)
qed

lemma own_trialBalance:
  "trialBalance (databaseReader (booksOf c (own t (rs_businessId s)))) s q = trialBalance (databaseReader (booksOf c t)) s q"
proof -
  let ?b = "rs_businessId s"
  have a: "filter (\<lambda>a. at_businessId a = ?b) (bk_accounts (booksOf c (own t ?b))) = filter (\<lambda>a. at_businessId a = ?b) (bk_accounts (booksOf c t))"
    by (simp add: booksOf_def own_def filter_map o_def)
  have k: "bk_collation (booksOf c (own t ?b)) = bk_collation (booksOf c t)" "bk_baseCurrency (booksOf c (own t ?b)) = bk_baseCurrency (booksOf c t)"
    by (simp_all add: booksOf_def own_def)
  have "reader_trialBalanceTotals (booksOf c (own t ?b)) s q = reader_trialBalanceTotals (booksOf c t) s q"
    using own_joined [of ?b "\<lambda>l e. rangeCondition (tq_range q) (je_entryDate e) \<and> branchPredicate (tq_branch q) (jl_branchId l)" c t]
    by (simp add: reader_trialBalanceTotals_def accountTotalsSql_def a k)
  then show ?thesis by (simp add: trialBalance_def databaseReader_def k requireBaseCurrency_def)
qed

text \<open>Clean entries and clean references make the whole business and its reports balance.\<close>

lemma clean_business:
  assumes "row_constraints t" "R_ACC_01 t b = []" "R_ACC_04 t b = []"
  shows "R_ACC_02 t b = []" "R_ACC_03 t b = []" "books_ok (booksOf c (own t b))"
proof -
  note k = own_keyed [OF assms(1,3)]
  have "R_ACC_02 (own t b) b = []" by (rule clean_business_balances [OF k own_clean [OF assms(2)]])
  then show r: "R_ACC_02 t b = []" by (simp add: R_ACC_02_def)
  have "list_ex (accountMatches l) (lt_accounts t)" if "l \<in> set (linesOf t b)" for l
    using k that by (auto simp: keyed_def own_def list_all_iff list_ex_iff)
  then have "orphans t b = []" by (simp add: orphans_def named_def filter_empty_conv)
  then show "R_ACC_03 t b = []"
    using R_ACC_03_imbalance [of t b] r assms(1)
    by (auto simp: R_ACC_02_imbalance row_constraints_def list_all_iff linesOf_def line_shape_def imbalance_def split: if_splits)
  show "books_ok (booksOf c (own t b))" using clean_books_ok [OF k] own_clean [OF assms(2)] by blast
qed

subsection \<open>The stock check and the rebuild\<close>

definition storedRows :: "StockMovementRow list \<Rightarrow> StoredMovement list" where
  "storedRows g = map (\<lambda>m. \<lparr>st_stockSeq = mv_stockSeq m, st_qtyQ4 = mv_qtyDelta m, st_value = mv_valueDelta m\<rparr>) (sort_key mv_stockSeq g)"

lemma storedRows_sums:
  "sum_list (map st_qtyQ4 (storedRows g)) = sum_list (map mv_qtyDelta g)" "sum_list (map st_value (storedRows g)) = sum_list (map mv_valueDelta g)"
  "length (storedRows g) = length g" "set (map st_stockSeq (storedRows g)) = set (map mv_stockSeq g)"
  by (simp_all add: storedRows_def o_def sum_list_sort_key)

text \<open>
  The rebuild without the range limits: quantity, value and last sequence number of the rows of one key in their order,
  or nothing when a number is missing, repeated or out of place.
\<close>

fun rebuildFrom :: "int \<times> int \<times> int \<Rightarrow> StoredMovement list \<Rightarrow> (int \<times> int \<times> int) option" where
  "rebuildFrom a [] = Some a"
| "rebuildFrom (q, v, n) (m # ms) =
     (if st_stockSeq m \<noteq> n + 1 then None else rebuildFrom (q + st_qtyQ4 m, v + st_value m, n + 1) ms)"

definition rebuild :: "StoredMovement list \<Rightarrow> (int \<times> int \<times> int) option" where
  "rebuild = rebuildFrom (0, 0, 0)"

lemma rebuildFrom_eq_Some:
  "rebuildFrom (q, v, n) ms = Some (q', v', n') \<longleftrightarrow> map st_stockSeq ms = map (\<lambda>k. n + 1 + int k) [0..<length ms]
     \<and> q' = q + sum_list (map st_qtyQ4 ms) \<and> v' = v + sum_list (map st_value ms) \<and> n' = n + int (length ms)"
proof (induction ms arbitrary: q v n)
  case (Cons m ms)
  have s: "map (\<lambda>k. n + 1 + int k) [0..<length (m # ms)] = (n + 1) # map (\<lambda>k. n + 2 + int k) [0..<length ms]"
    by (simp add: upt_conv_Cons map_Suc_upt [symmetric] o_def del: upt_Suc)
  show ?case unfolding s using Cons [of "q + st_qtyQ4 m" "v + st_value m" "n + 1"] by (auto simp: add.assoc)
qed auto

text \<open>What the package's rebuild accepts is what this one computes; it refuses otherwise only for the ranges.\<close>

lemma foldMovementsFrom_rebuild:
  "foldMovementsFrom s ms = Inr st \<Longrightarrow> rebuildFrom (onHand s, valuation s, lastStockSeq s) ms = Some (onHand st, valuation st, lastStockSeq st)"
proof (induction ms arbitrary: s)
  case (Cons m ms)
  then obtain t where t: "st_stockSeq m = lastStockSeq s + 1" "applyMovement s (st_qtyQ4 m) (st_value m) = Inr t"
    "foldMovementsFrom t ms = Inr st" by (auto simp: bindR_eq_Inr if_refuse_eq_Inr)
  from Cons.IH [OF t(3)] applyMovement_fields(1-3) [OF t(2)] t(1) show ?case by simp
qed simp

lemma foldMovements_rebuild: "foldMovements ms = Inr st \<Longrightarrow> rebuild ms = Some (onHand st, valuation st, lastStockSeq st)"
  using foldMovementsFrom_rebuild [of EMPTY_STOCK_STATE ms st] by (simp add: foldMovements_def rebuild_def EMPTY_STOCK_STATE_def)

text \<open>The sequence tests of the statement say that the sorted numbers count from one.\<close>

lemma counted_from_one:
  fixes ns :: "int list"
  assumes "ns \<noteq> []"
  shows "Max (set ns) = int (length ns) \<and> Min (set ns) = 1 \<and> card (set ns) = length ns
    \<longleftrightarrow> sort ns = map (\<lambda>k. 1 + int k) [0..<length ns]" (is "?tests \<longleftrightarrow> _ = ?count")
proof
  have count: "sorted ?count" "distinct ?count" "set ?count = {1..int (length ns)}"
  proof -
    show "sorted ?count" by (simp add: sorted_iff_nth_mono)
    show "distinct ?count" by (simp add: distinct_map inj_on_def)
    show "set ?count = {1..int (length ns)}"
    proof
      show "{1..int (length ns)} \<subseteq> set ?count"
      proof
        fix x assume "x \<in> {1..int (length ns)}"
        then have "x = 1 + int (nat (x - 1))" "nat (x - 1) < length ns" by auto
        then show "x \<in> set ?count" by (metis (no_types, lifting) atLeastLessThan_iff image_eqI le0 set_map set_upt)
      qed
    qed auto
  qed
  {
    assume t: ?tests
    then have "set ns \<subseteq> {1..int (length ns)}" by (metis List.finite_set Max_ge Min_le atLeastAtMost_iff subsetI)
    then have "set ns = {1..int (length ns)}" using t by (intro card_subset_eq) simp_all
    moreover have "distinct ns" using t by (simp add: card_distinct)
    ultimately show "sort ns = ?count"
      using count by (intro sorted_distinct_set_unique) simp_all
  }
  assume s: "sort ns = ?count"
  have n: "1 \<le> int (length ns)" using assms by (cases ns) simp_all
  have e: "set ns = {1..int (length ns)}" using arg_cong [OF s, of set] count(3) by simp
  have "Max {1..int (length ns)} = int (length ns)" "Min {1..int (length ns)} = 1" using n by (auto intro: Max_eqI Min_eqI)
  then show ?tests unfolding e using n by simp
qed

lemma level_rebuilt:
  "\<not> levelOffends s g \<longleftrightarrow> rebuild (storedRows g) = Some (lv_onHand s, lv_valuation s, lv_lastStockSeq s)"
proof (cases "g = []")
  case True
  then show ?thesis by (auto simp: levelOffends_def rebuild_def storedRows_def)
next
  case False
  have m: "map st_stockSeq (storedRows g) = sort (map mv_stockSeq g)"
    by (simp add: storedRows_def o_def) (rule sym, rule properties_for_sort, simp_all)
  have l: "length (map mv_stockSeq g) = length g" by simp
  have "map mv_stockSeq g \<noteq> []" using False by simp
  from counted_from_one [OF this] False show ?thesis
    unfolding rebuild_def rebuildFrom_eq_Some m storedRows_sums l levelOffends_def
    by auto
qed

lemma sum_by_key:
  fixes f :: "StockMovementRow \<Rightarrow> int"
  assumes "distinct ks" "\<forall>m \<in> set ms. movementKey m \<in> set ks"
  shows "sum_list (map (\<lambda>k. sum_list (map f (filter (\<lambda>m. movementKey m = k) ms))) ks) = sum_list (map f ms)"
  using assms(2)
proof (induction ms)
  case (Cons m ms)
  have one: "sum_list (map (\<lambda>k. if movementKey m = k then v else 0) ks) = v" if "movementKey m \<in> set ks" for v :: int
    using assms(1) that
  proof (induction ks)
    case (Cons k ks)
    have "sum_list (map (\<lambda>k. if movementKey m = k then v else 0) ks) = 0" if "movementKey m = k"
    proof -
      have "map (\<lambda>k. if movementKey m = k then v else 0) ks = map (\<lambda>k. 0) ks"
        using that Cons.prems(1) by (intro map_cong) auto
      then show ?thesis by (simp only: sum_list_map_const_0)
    qed
    with Cons show ?case by auto
  qed simp
  have "sum_list (map (\<lambda>k. sum_list (map f (filter (\<lambda>m. movementKey m = k) (m # ms)))) ks)
      = sum_list (map (\<lambda>k. (if movementKey m = k then f m else 0) + sum_list (map f (filter (\<lambda>m. movementKey m = k) ms))) ks)"
    by (intro arg_cong [where f = sum_list] map_cong) auto
  with Cons one [of "f m"] show ?case by (simp add: sum_list_addf)
qed simp

lemma level_value: "\<not> levelOffends s g \<Longrightarrow> lv_valuation s = sum_list (map mv_valueDelta g)"
  by (cases "g = []") (simp_all add: levelOffends_def)

lemma stock_check_rebuild:
  assumes "distinct (map levelKey (levelsOf t b))"
  shows "R_INV_02 t b = [] \<longleftrightarrow> (\<forall>m \<in> set (movementsOf t b). movementKey m \<in> levelKey ` set (levelsOf t b))
    \<and> (\<forall>s \<in> set (levelsOf t b). rebuild (storedRows (keyRows t b (levelKey s))) = Some (lv_onHand s, lv_valuation s, lv_lastStockSeq s))"
proof -
  let ?clean = "\<forall>s \<in> set (levelsOf t b). \<not> levelOffends s (keyRows t b (levelKey s))"
  let ?known = "\<forall>m \<in> set (movementsOf t b). movementKey m \<in> levelKey ` set (levelsOf t b)"
  have known: "filter (\<lambda>k. k \<notin> levelKey ` set (levelsOf t b)) (remdups (map movementKey (movementsOf t b))) = [] \<longleftrightarrow> ?known"
    by (auto simp: filter_empty_conv)
  have totals: "sum_list (map lv_valuation (levelsOf t b)) = sum_list (map mv_valueDelta (movementsOf t b))" if ?clean ?known
  proof -
    have "lv_valuation s = sum_list (map mv_valueDelta (keyRows t b (levelKey s)))" if "s \<in> set (levelsOf t b)" for s
      using that \<open>?clean\<close> level_value by blast
    then have "map lv_valuation (levelsOf t b) = map (\<lambda>s. sum_list (map mv_valueDelta (keyRows t b (levelKey s)))) (levelsOf t b)"
      by (intro map_cong) simp_all
    then have "sum_list (map lv_valuation (levelsOf t b)) = sum_list (map (\<lambda>k. sum_list (map mv_valueDelta (keyRows t b k))) (map levelKey (levelsOf t b)))"
      by (simp only: map_map o_def)
    also have "\<dots> = sum_list (map mv_valueDelta (movementsOf t b))"
      unfolding keyRows_def using assms \<open>?known\<close> by (intro sum_by_key) auto
    finally show ?thesis .
  qed
  have "R_INV_02 t b = [] \<longleftrightarrow> ?clean \<and> ?known \<and> sum_list (map lv_valuation (levelsOf t b)) = sum_list (map mv_valueDelta (movementsOf t b))"
    unfolding known [symmetric] by (auto simp: R_INV_02_def union_rows_def filter_empty_conv)
  with totals show ?thesis unfolding level_rebuilt by blast
qed

subsection \<open>The walk over the businesses\<close>

definition businessKeys :: "LedgerTables \<Rightarrow> (string \<times> string) list" where
  "businessKeys t = sort (map (\<lambda>z. (bz_tenantId z, bz_id z)) (lt_businesses t))"

lemma enumerator_from:
  assumes "distinct (businessKeys t)" "i \<le> length (businessKeys t)"
  shows "enumerator t (if i = 0 then None else Some (businessKeys t ! (i - 1))) 200 = take 200 (drop i (businessKeys t))"
proof (cases i)
  case (Suc j)
  have "sorted_wrt (<) (map (\<lambda>k. k) (businessKeys t))"
    using assms(1) by (simp add: businessKeys_def strict_sorted_iff)
  from keyset_split(1) [OF this, of j] Suc assms(2)
  have "filter (\<lambda>k. businessKeys t ! j < k) (businessKeys t) = drop (Suc j) (businessKeys t)" by simp
  with Suc show ?thesis by (simp add: enumerator_def businessKeys_def)
qed (simp add: enumerator_def businessKeys_def)

lemma enumerate_from:
  assumes "distinct (businessKeys t)" "i \<le> length (businessKeys t)"
  shows "enumerate_pages t pages (if i = 0 then None else Some (businessKeys t ! (i - 1)))
    = (if length (businessKeys t) - i < 200 * pages then Some (drop i (businessKeys t)) else None)"
  using assms(2)
proof (induction pages arbitrary: i)
  case (Suc pages)
  let ?xs = "businessKeys t"
  let ?rows = "take 200 (drop i ?xs)"
  note rows = enumerator_from [OF assms(1) Suc.prems]
  show ?case
  proof (cases "length ?xs - i < 200")
    case True
    then show ?thesis by (simp add: Let_def rows ENUMERATION_PAGE_SIZE_def)
  next
    case False
    then have i: "i + 200 \<le> length ?xs" by simp
    then have l: "length ?rows = 200" by simp
    then have "?rows \<noteq> []" by (metis list.size(3) zero_neq_numeral)
    then have "last ?rows = ?xs ! (i + 200 - 1)" using l i by (simp add: last_conv_nth add.commute)
    with Suc.IH [OF i] have "enumerate_pages t pages (Some (last ?rows))
      = (if length ?xs - (i + 200) < 200 * pages then Some (drop (i + 200) ?xs) else None)" by simp
    moreover have "?rows @ drop (i + 200) ?xs = drop i ?xs" by (metis add.commute append_take_drop_id drop_drop)
    moreover have "length ?xs - (i + 200) < 200 * pages \<longleftrightarrow> length ?xs - i < 200 * Suc pages" using i by auto
    ultimately show ?thesis using l \<open>?rows \<noteq> []\<close> by (simp add: Let_def rows ENUMERATION_PAGE_SIZE_def)
  qed
qed simp

subsection \<open>Properties\<close>

text \<open>C30: The enumeration ends and misses no business: over businesses with distinct keys, fewer than two million, the walk
  returns every one of them once, in key order; from two million on it refuses by name instead of returning a part.\<close>

theorem enumeration_visits_all:
  assumes "distinct (map (\<lambda>z. (bz_tenantId z, bz_id z)) (lt_businesses t))" "pv_enumerator p"
  shows "reader_targets t p = (if length (lt_businesses t) < 2000000
    then Targets (map (\<lambda>k. \<lparr>rt_tenantId = fst k, rt_businessId = snd k\<rparr>) (businessKeys t)) else Enumeration_error ''pages'')
    \<and> distinct (businessKeys t) \<and> set (businessKeys t) = (\<lambda>z. (bz_tenantId z, bz_id z)) ` set (lt_businesses t)"
proof -
  have d: "distinct (businessKeys t)" "length (businessKeys t) = length (lt_businesses t)" using assms(1) by (simp_all add: businessKeys_def)
  from enumerate_from [OF d(1), of 0 MAX_ENUMERATION_PAGES] d(2)
  have "enumerate_pages t MAX_ENUMERATION_PAGES None = (if length (lt_businesses t) < 2000000 then Some (businessKeys t) else None)"
    by (simp add: MAX_ENUMERATION_PAGES_def)
  with assms(2) d(1) show ?thesis by (simp add: reader_targets_def businessKeys_def)
qed

definition no_tables :: LedgerTables where
  "no_tables = \<lparr>lt_businesses = [], lt_accounts = [], lt_entries = [], lt_lines = [], lt_periods = [], lt_bindings = [],
     lt_movements = [], lt_levels = [], lt_stockBindings = []\<rparr>"

theorem enumeration_visits_all_witness:
  "reader_targets (no_tables\<lparr>lt_businesses := [\<lparr>bz_tenantId = ''u'', bz_id = ''b'', bz_baseCurrency = ''EUR'', bz_financialStartedAt = None\<rparr>,
      \<lparr>bz_tenantId = ''t'', bz_id = ''c'', bz_baseCurrency = ''EUR'', bz_financialStartedAt = None\<rparr>]\<rparr>)
     \<lparr>pv_tables = [], pv_columns = [], pv_enumerator = True\<rparr>
   = Targets [\<lparr>rt_tenantId = ''t'', rt_businessId = ''c''\<rparr>, \<lparr>rt_tenantId = ''u'', rt_businessId = ''b''\<rparr>]" (is "reader_targets ?t ?p = _")
proof -
  have "distinct (map (\<lambda>z. (bz_tenantId z, bz_id z)) (lt_businesses ?t))" "pv_enumerator ?p" by simp_all
  from enumeration_visits_all [OF this] have "reader_targets ?t ?p = Targets (map (\<lambda>k. \<lparr>rt_tenantId = fst k, rt_businessId = snd k\<rparr>) (businessKeys ?t))"
    by simp
  also have "businessKeys ?t = [(''t'', ''c''), (''u'', ''b'')]" by code_simp
  finally show ?thesis by simp
qed

text \<open>The identity over the account types does not look at the types: with the keys of the accounts and one side per
  line, the third check names a business exactly when its lines that name an account do not balance, so it differs from the
  global balance by the orphaned lines alone, agrees with it when there are none, and answers the same whatever the types of
  the accounts; a posting to an account of the wrong type is not what it finds.\<close>

theorem identity_is_global_balance:
  assumes "distinct (map (\<lambda>a. (at_businessId a, at_id a)) (lt_accounts t))"
    "\<forall>l \<in> set (linesOf t b). (0 < jl_debitMinor l) \<noteq> (0 < jl_creditMinor l)"
  shows "(R_ACC_02 t b = [] \<longleftrightarrow> imbalance (linesOf t b) = 0)
    \<and> (R_ACC_03 t b = [] \<longleftrightarrow> imbalance (linesOf t b) = imbalance (orphans t b))
    \<and> (orphans t b = [] \<longrightarrow> R_ACC_03 t b = R_ACC_02 t b)
    \<and> R_ACC_03 (t\<lparr>lt_accounts := map (\<lambda>a. a\<lparr>at_type := retype a\<rparr>) (lt_accounts t)\<rparr>) b = R_ACC_03 t b"
proof -
  let ?t = "t\<lparr>lt_accounts := map (\<lambda>a. a\<lparr>at_type := retype a\<rparr>) (lt_accounts t)\<rparr>"
  have l: "linesOf ?t b = linesOf t b" by (simp add: linesOf_def)
  have o: "orphans ?t b = orphans t b" by (simp add: orphans_def named_def l list_ex_iff accountMatches_def)
  have "distinct (map (\<lambda>a. (at_businessId a, at_id a)) (lt_accounts ?t))" using assms(1) by (simp add: o_def)
  from R_ACC_03_imbalance [OF this, of b] R_ACC_03_imbalance [OF assms] assms(2)
  show ?thesis by (simp add: l o R_ACC_02_imbalance imbalance_def [of "[]"])
qed

definition sample_tables :: LedgerTables where
  "sample_tables = no_tables\<lparr>
     lt_businesses := [\<lparr>bz_tenantId = ''t'', bz_id = ''b'', bz_baseCurrency = ''EUR'', bz_financialStartedAt = Some 0\<rparr>],
     lt_accounts := map (\<lambda>a. AccountTableRow.extend a \<lparr>at_tenantId = ''t''\<rparr>) (bk_accounts sample_books),
     lt_entries := map (\<lambda>e. JournalEntryTableRow.extend e \<lparr>je_tenantId = ''t''\<rparr>) (bk_entries sample_books),
     lt_lines := map (\<lambda>l. JournalLineTableRow.extend l \<lparr>jl_id = jl_journalEntryId l, jl_tenantId = ''t'', jl_rateR10 = 10 ^ 10\<rparr>)
       (bk_lines sample_books)\<rparr>"

lemma sample_tables_keyed: "keyed sample_tables" by code_simp

text \<open>An account deleted under its postings: the lines balance, the named ones do not.\<close>

theorem identity_is_global_balance_witness:
  "R_ACC_02 (sample_tables\<lparr>lt_accounts := tl (lt_accounts sample_tables)\<rparr>) ''b'' = []
   \<and> R_ACC_03 (sample_tables\<lparr>lt_accounts := tl (lt_accounts sample_tables)\<rparr>) ''b'' \<noteq> []"
proof -
  let ?t = "sample_tables\<lparr>lt_accounts := tl (lt_accounts sample_tables)\<rparr>"
  have k: "distinct (map (\<lambda>a. (at_businessId a, at_id a)) (lt_accounts ?t))"
    "\<forall>l \<in> set (linesOf ?t ''b''). (0 < jl_debitMinor l) \<noteq> (0 < jl_creditMinor l)" by code_simp+
  have "imbalance (linesOf ?t ''b'') = 0" "imbalance (orphans ?t ''b'') \<noteq> 0" by code_simp+
  with identity_is_global_balance [OF k] show ?thesis by simp
qed

text \<open>C31: A clean pass is a promise about the reports: on tables with their primary keys and line checks, but no foreign key
  assumed, when the entry check and the check of the references find nothing in a business, the global balance and
  the identity find nothing in it either, and the trial balance the reports compute for that whole business, over any date or
  range, is balanced and not refused.\<close>

theorem clean_checks_balance_reports:
  assumes "row_constraints t" "R_ACC_01 t (rs_businessId s) = []" "R_ACC_04 t (rs_businessId s) = []"
    "bk_baseCurrency (booksOf c t) (rs_businessId s) = Some cur" "tq_branch q = Mode_all None"
  shows "R_ACC_02 t (rs_businessId s) = [] \<and> R_ACC_03 t (rs_businessId s) = []
    \<and> (\<exists>r. trialBalance (databaseReader (booksOf c t)) s q = Inr r \<and> tp_isBalanced r \<and> tp_totalDebitMinor r = tp_totalCreditMinor r)"
proof -
  note b = clean_business [OF assms(1-3)]
  have "bk_baseCurrency (booksOf c (own t (rs_businessId s))) (rs_businessId s) = Some cur"
    using assms(4) by (simp add: booksOf_def own_def)
  from trialBalance_whole [OF b(3) this assms(5)] b(1,2) show ?thesis by (auto simp: own_trialBalance)
qed

theorem clean_checks_balance_reports_witness:
  "\<exists>r. trialBalance (databaseReader (booksOf (\<lambda>c. 0) sample_tables)) sample_scope
     \<lparr>tq_range = As_of ''2024-02-15'', tq_branch = Mode_all None, tq_includeZeroActivity = None\<rparr> = Inr r \<and> tp_isBalanced r"
proof -
  have k: "row_constraints sample_tables" using sample_tables_keyed by (simp add: keyed_def)
  have c: "R_ACC_01 sample_tables (rs_businessId sample_scope) = []" "R_ACC_04 sample_tables (rs_businessId sample_scope) = []" by code_simp+
  have b: "bk_baseCurrency (booksOf (\<lambda>c. 0) sample_tables) (rs_businessId sample_scope) = Some ''EUR''"
    by (simp add: booksOf_def sample_tables_def no_tables_def sample_scope_def)
  have q: "tq_branch \<lparr>tq_range = As_of ''2024-02-15'', tq_branch = Mode_all None, tq_includeZeroActivity = None\<rparr> = Mode_all None" by simp
  note clean_checks_balance_reports [OF k c b q, THEN conjunct2, THEN conjunct2]
  then obtain r where r: "trialBalance (databaseReader (booksOf (\<lambda>c. 0) sample_tables)) sample_scope
     \<lparr>tq_range = As_of ''2024-02-15'', tq_branch = Mode_all None, tq_includeZeroActivity = None\<rparr> = Inr r" "tp_isBalanced r"
    by (elim conjE exE)
  show ?thesis by (rule exI [of _ r], rule conjI [OF r])
qed

text \<open>C32: The stock check is the rebuild: over one level row per key, the cache check finds nothing exactly when every movement
  has a level row and the rows of every level, in the order of their numbers, count from one without gap or repetition and
  add up to the quantity, the value and the number of the last row it caches; and wherever the package's own rebuild accepts
  the rows of a key, its result is that sum.\<close>

theorem stock_check_is_rebuild:
  assumes "distinct (map levelKey (levelsOf t b))"
  shows "(R_INV_02 t b = [] \<longleftrightarrow> (\<forall>m \<in> set (movementsOf t b). movementKey m \<in> levelKey ` set (levelsOf t b))
      \<and> (\<forall>s \<in> set (levelsOf t b). rebuild (storedRows (keyRows t b (levelKey s))) = Some (lv_onHand s, lv_valuation s, lv_lastStockSeq s)))
    \<and> (\<forall>ms st. foldMovements ms = Inr st \<longrightarrow> rebuild ms = Some (onHand st, valuation st, lastStockSeq st))"
  using stock_check_rebuild [OF assms] foldMovements_rebuild by blast

definition sample_stock :: "int \<Rightarrow> int \<Rightarrow> LedgerTables" where
  "sample_stock v n = no_tables\<lparr>lt_movements := [\<lparr>mv_businessId = ''b'', mv_id = ''m'', mv_warehouseId = ''w'', mv_variantId = ''v'',
       mv_stockSeq = n, mv_qtyDelta = 30000, mv_valueDelta = 10, mv_source = ([], [], [], [])\<rparr>],
     lt_levels := [\<lparr>lv_businessId = ''b'', lv_warehouseId = ''w'', lv_variantId = ''v'', lv_onHand = 30000, lv_valuation = v, lv_lastStockSeq = n\<rparr>]\<rparr>"

theorem stock_check_is_rebuild_witness:
  "R_INV_02 (sample_stock 10 1) ''b'' = [] \<and> R_INV_02 (sample_stock 11 1) ''b'' \<noteq> [] \<and> R_INV_02 (sample_stock 10 2) ''b'' \<noteq> []"
proof -
  have d: "distinct (map levelKey (levelsOf (sample_stock v n) ''b''))" for v n
    by (simp add: levelsOf_def sample_stock_def no_tables_def)
  have "R_INV_02 (sample_stock v n) ''b'' = [] \<longleftrightarrow> v = 10 \<and> n = 1" for v n
    unfolding stock_check_is_rebuild [OF d, THEN conjunct1]
    by (auto simp: levelsOf_def movementsOf_def keyRows_def storedRows_def rebuild_def sample_stock_def no_tables_def movementKey_def levelKey_def)
  then show ?thesis by simp
qed

end
