(* ===== verification/Ledger_Postings.thy ===== *)
theory Ledger_Postings
  imports Sale_Posting Supplier_Return Purchase_Residue Customer_Settlement
begin

text \<open>
  The journal side of the documents of apps/api: inventory/inventory-posting.ts,
  purchasing/purchase-posting.ts, purchasing/purchase-return-posting.ts,
  purchasing/supplier-settlement-posting.ts and receivables/receivables-settlement-posting.ts.
  Each turns amounts a plan has derived into one posting command. The seam that runs a movement
  and its posting in one database transaction (\<open>executeMovement\<close>) is not modelled.

  The locale \<open>ledger_lines\<close> states what the builders share: a line keeps its side and amounts and
  carries either a snapshot or the base rate. Its lemma is that the posting engine accepts the entry
  exactly when no base amount exceeds the money cap.
\<close>

definition BASE_RATE :: string where "BASE_RATE = ''1.0000000000''"

subsection \<open>Inventory documents\<close>

definition INVENTORY_ADJUSTMENT_SOURCE :: string where "INVENTORY_ADJUSTMENT_SOURCE = ''inventory_adjustment''"
definition INVENTORY_OPENING_SOURCE :: string where "INVENTORY_OPENING_SOURCE = ''inventory_opening''"
definition DOMESTIC_RATE :: string where "DOMESTIC_RATE = ''1.0000000000''"

record PostingBase =
  pb_tenantId :: string
  pb_businessId :: string
  pb_sourceId :: string
  pb_occurredOn :: string
  pb_baseCurrency :: string
  pb_businessTransactionId :: string

text \<open>The dimensions are a warehouse and its branch, or neither.\<close>

definition domesticLine :: "PostingBase \<Rightarrow> string \<Rightarrow> Side \<Rightarrow> int \<Rightarrow> (string \<times> string) option \<Rightarrow> PostingLineCommand" where
  "domesticLine b systemKey side amount dims =
     (let currency = toUpperCase (pb_baseCurrency b) in
      \<lparr>pl_account = System_account systemKey, pl_side = side, pl_baseAmountMinor = amount, pl_baseCurrency = currency,
       pl_txnAmountMinor = amount, pl_txnCurrency = currency, pl_fxRate = DOMESTIC_RATE, pl_fxRateSource = ''base'',
       pl_fxRateAt = midnight (pb_occurredOn b), pl_branchId = map_option snd dims, pl_warehouseId = map_option fst dims,
       pl_memo = None\<rparr>)"

definition documentCommand :: "PostingBase \<Rightarrow> string \<Rightarrow> PostingLineCommand list \<Rightarrow> PostingCommand" where
  "documentCommand b sourceType ls =
     \<lparr>pc_tenantId = pb_tenantId b, pc_businessId = pb_businessId b, pc_sourceType = sourceType, pc_sourceId = pb_sourceId b,
      pc_entryDate = pb_occurredOn b, pc_lines = ls, pc_description = None, pc_requestId = Some (pb_businessTransactionId b)\<rparr>"

definition adjustmentPostingCommand :: "PostingBase \<Rightarrow> string \<Rightarrow> string \<Rightarrow> int \<Rightarrow> PostingCommand option" where
  "adjustmentPostingCommand b warehouseId branchId netValueMinor =
     (let v = netValueMinor in
      if v = 0 then None
      else let dims = Some (warehouseId, branchId);
               amount = (if 0 < v then v else - v);
               ls = (if 0 < v then [domesticLine b ''inventory'' Side_D amount dims, domesticLine b ''cogs'' Side_C amount dims]
                     else [domesticLine b ''cogs'' Side_D amount dims, domesticLine b ''inventory'' Side_C amount dims])
           in Some (documentCommand b INVENTORY_ADJUSTMENT_SOURCE ls))"

record WarehouseShare =
  ws_warehouseId :: string
  ws_branchId :: string
  ws_valueMinor :: int

definition openingPostingCommand :: "PostingBase \<Rightarrow> WarehouseShare list \<Rightarrow> PostingCommand option" where
  "openingPostingCommand b perWarehouse =
     (let shares = filter (\<lambda>w. 0 < ws_valueMinor w) perWarehouse;
          totalMinor = foldl (\<lambda>a w. a + ws_valueMinor w) 0 shares
      in if totalMinor = 0 then None
         else Some (documentCommand b INVENTORY_OPENING_SOURCE
           (map (\<lambda>w. domesticLine b ''inventory'' Side_D (ws_valueMinor w) (Some (ws_warehouseId w, ws_branchId w))) shares
            @ [domesticLine b ''opening_equity'' Side_C totalMinor None])))"

record PostingPlan =
  pn_command :: PostingCommand
  pn_assertion :: string

definition planPosting ::
  "(string \<Rightarrow> string) \<Rightarrow> (AccountingAssertionClaims \<Rightarrow> string result) \<Rightarrow> PostingCommand option \<Rightarrow> string \<Rightarrow> PostingPlan option result" where
  "planPosting sha256 mint command actorUserId =
     (case command of None \<Rightarrow> Inr None
      | Some c \<Rightarrow> bindR (mintDomainPostingAssertion sha256 mint c actorUserId) (\<lambda>assertion.
          Inr (Some \<lparr>pn_command = c, pn_assertion = assertion\<rparr>)))"

text \<open>A stored value is the decimal text the driver returns.\<close>

definition assertStoredValues :: "int list \<Rightarrow> string list \<Rightarrow> unit result" where
  "assertStoredValues expected stored =
     (if length expected \<noteq> length stored \<or> list_ex (\<lambda>(v, s). s \<noteq> int_string v) (zip expected stored)
      then refuse Thrown_Error else Inr ())"

subsection \<open>Purchase receipts\<close>

definition PURCHASE_SOURCE :: string where "PURCHASE_SOURCE = ''purchase''"
definition CATCH_UP_SOURCE :: string where "CATCH_UP_SOURCE = ''negative_inventory_cost_adjustment''"

record ReceiptFx =
  xf_rate :: string
  xf_source :: string
  xf_at :: instant

record PurchasePostingInput =
  po_tenantId :: string
  po_businessId :: string
  po_purchaseId :: string
  po_documentDate :: string
  po_currency :: string
  po_baseCurrency :: string
  po_totalTxnMinor :: int
  po_totalBaseMinor :: int
  po_fx :: ReceiptFx
  po_warehouseId :: string
  po_branchId :: string
  po_businessTransactionId :: string

definition purchaseLine :: "PurchasePostingInput \<Rightarrow> string \<Rightarrow> Side \<Rightarrow> string option \<Rightarrow> PostingLineCommand" where
  "purchaseLine i systemKey side warehouseId =
     \<lparr>pl_account = System_account systemKey, pl_side = side, pl_baseAmountMinor = po_totalBaseMinor i,
      pl_baseCurrency = toUpperCase (po_baseCurrency i), pl_txnAmountMinor = po_totalTxnMinor i,
      pl_txnCurrency = toUpperCase (po_currency i), pl_fxRate = xf_rate (po_fx i), pl_fxRateSource = xf_source (po_fx i),
      pl_fxRateAt = xf_at (po_fx i), pl_branchId = Some (po_branchId i), pl_warehouseId = warehouseId, pl_memo = None\<rparr>"

definition purchasePostingCommand :: "PurchasePostingInput \<Rightarrow> PostingCommand" where
  "purchasePostingCommand i =
     \<lparr>pc_tenantId = po_tenantId i, pc_businessId = po_businessId i, pc_sourceType = PURCHASE_SOURCE, pc_sourceId = po_purchaseId i,
      pc_entryDate = po_documentDate i,
      pc_lines = [purchaseLine i ''inventory'' Side_D (Some (po_warehouseId i)), purchaseLine i ''accounts_payable'' Side_C None],
      pc_description = None, pc_requestId = Some (po_businessTransactionId i)\<rparr>"

record CatchUpPostingInput =
  cu_tenantId :: string
  cu_businessId :: string
  cu_adjustmentId :: string
  cu_documentDate :: string
  cu_baseCurrency :: string
  cu_warehouseId :: string
  cu_branchId :: string
  cu_netValueMinor :: int
  cu_businessTransactionId :: string

definition catchUpPostingCommand :: "CatchUpPostingInput \<Rightarrow> PostingCommand option" where
  "catchUpPostingCommand i =
     map_option (\<lambda>command. command\<lparr>pc_sourceType := CATCH_UP_SOURCE\<rparr>)
       (adjustmentPostingCommand
          \<lparr>pb_tenantId = cu_tenantId i, pb_businessId = cu_businessId i, pb_sourceId = cu_adjustmentId i,
           pb_occurredOn = cu_documentDate i, pb_baseCurrency = cu_baseCurrency i,
           pb_businessTransactionId = cu_businessTransactionId i\<rparr>
          (cu_warehouseId i) (cu_branchId i) (cu_netValueMinor i))"

subsection \<open>Supplier returns\<close>

definition SUPPLIER_RETURN_SOURCE :: string where "SUPPLIER_RETURN_SOURCE = ''supplier_return''"

record SupplierReturnPostingInput =
  ru_tenantId :: string
  ru_businessId :: string
  ru_returnId :: string
  ru_documentDate :: string
  ru_currency :: string
  ru_baseCurrency :: string
  ru_fx :: ReceiptFx
  ru_purchaseBranchId :: string
  ru_returnWarehouseId :: string
  ru_returnBranchId :: string
  ru_lines :: "SupplierReturnEntryLine list"
  ru_businessTransactionId :: string

fun returnSystemKey :: "SupplierReturnAccount \<Rightarrow> string" where
  "returnSystemKey Ret_accounts_payable = ''accounts_payable''"
| "returnSystemKey Ret_supplier_receivable = ''supplier_receivable''"
| "returnSystemKey Ret_inventory = ''inventory''"
| "returnSystemKey Ret_purchase_price_variance = ''purchase_price_variance''"

definition returnPostingLine :: "SupplierReturnPostingInput \<Rightarrow> SupplierReturnEntryLine \<Rightarrow> PostingLineCommand" where
  "returnPostingLine i l =
     (let baseCurrency = toUpperCase (ru_baseCurrency i);
          purchaseCurrency = (re_currency l = RCur_purchase);
          onPurchase = (re_dimension l = RDim_purchase)
      in \<lparr>pl_account = System_account (returnSystemKey (re_systemKey l)), pl_side = re_side l,
          pl_baseAmountMinor = re_baseAmountMinor l, pl_baseCurrency = baseCurrency, pl_txnAmountMinor = re_txnAmountMinor l,
          pl_txnCurrency = (if purchaseCurrency then toUpperCase (ru_currency i) else baseCurrency),
          pl_fxRate = (if purchaseCurrency then xf_rate (ru_fx i) else BASE_RATE),
          pl_fxRateSource = (if purchaseCurrency then xf_source (ru_fx i) else ''base''),
          pl_fxRateAt = (if purchaseCurrency then xf_at (ru_fx i) else midnight (ru_documentDate i)),
          pl_branchId = Some (if onPurchase then ru_purchaseBranchId i else ru_returnBranchId i),
          pl_warehouseId = (if onPurchase then None else Some (ru_returnWarehouseId i)), pl_memo = None\<rparr>)"

definition supplierReturnPostingCommand :: "SupplierReturnPostingInput \<Rightarrow> PostingCommand" where
  "supplierReturnPostingCommand i =
     \<lparr>pc_tenantId = ru_tenantId i, pc_businessId = ru_businessId i, pc_sourceType = SUPPLIER_RETURN_SOURCE, pc_sourceId = ru_returnId i,
      pc_entryDate = ru_documentDate i, pc_lines = map (returnPostingLine i) (ru_lines i), pc_description = None,
      pc_requestId = Some (ru_businessTransactionId i)\<rparr>"

subsection \<open>Supplier settlements\<close>

datatype SettlementSourceType = SUPPLIER_PAYMENT_SOURCE | SUPPLIER_CREDIT_ALLOCATION_SOURCE | SUPPLIER_REFUND_SOURCE
  | PURCHASE_RESIDUE_WRITE_OFF_SOURCE

fun settlementSourceText :: "SettlementSourceType \<Rightarrow> string" where
  "settlementSourceText SUPPLIER_PAYMENT_SOURCE = ''supplier_payment''"
| "settlementSourceText SUPPLIER_CREDIT_ALLOCATION_SOURCE = ''supplier_credit_allocation''"
| "settlementSourceText SUPPLIER_REFUND_SOURCE = ''supplier_refund''"
| "settlementSourceText PURCHASE_RESIDUE_WRITE_OFF_SOURCE = ''purchase_residue_write_off''"

record SettlementSnapshot =
  sn_currency :: string
  sn_rate :: string
  sn_source :: string
  sn_at :: instant

text \<open>\<open>snapshots\<close> is partial; \<open>branches\<close> is the pair \<open>purchase\<close>, \<open>origin\<close>.\<close>

record SettlementPostingInput =
  sg_tenantId :: string
  sg_businessId :: string
  sg_sourceType :: SettlementSourceType
  sg_sourceId :: string
  sg_entryDate :: string
  sg_baseCurrency :: string
  sg_snapshots :: "LineCurrency \<Rightarrow> SettlementSnapshot option"
  sg_postingAccountCode :: "string option"
  sg_branchPurchase :: "string option"
  sg_branchOrigin :: "string option"
  sg_lines :: "SettlementEntryLine list"
  sg_businessTransactionId :: string

text \<open>\<open>posting_account\<close> is named by its chart code, every other account by its key.\<close>

definition settlementAccount :: "SettlementPostingInput \<Rightarrow> SettlementAccount \<Rightarrow> AccountRef result" where
  "settlementAccount i a = (case a of
       Acc_posting_account \<Rightarrow> (case sg_postingAccountCode i of None \<Rightarrow> refuse Thrown_Error | Some code \<Rightarrow> Inr (Code_account code))
     | Acc_accounts_payable \<Rightarrow> Inr (System_account ''accounts_payable'')
     | Acc_supplier_receivable \<Rightarrow> Inr (System_account ''supplier_receivable'')
     | Acc_fx_gain \<Rightarrow> Inr (System_account ''fx_gain'')
     | Acc_fx_loss \<Rightarrow> Inr (System_account ''fx_loss''))"

text \<open>The snapshot of a line: none for a base line, a refusal when it is absent.\<close>

definition lineSnapshot :: "('c \<Rightarrow> SettlementSnapshot option) \<Rightarrow> 'c \<Rightarrow> 'c \<Rightarrow> SettlementSnapshot option result" where
  "lineSnapshot snapshots baseKey currency =
     (if currency = baseKey then Inr None
      else case snapshots currency of None \<Rightarrow> refuse Thrown_Error | Some s \<Rightarrow> Inr (Some s))"

definition snapshotLine ::
  "string \<Rightarrow> instant \<Rightarrow> SettlementSnapshot option \<Rightarrow> AccountRef \<Rightarrow> Side \<Rightarrow> int \<Rightarrow> int \<Rightarrow> string option \<Rightarrow> PostingLineCommand" where
  "snapshotLine baseCurrency baseAt snapshot account side baseAmountMinor txnAmountMinor branchId =
     \<lparr>pl_account = account, pl_side = side, pl_baseAmountMinor = baseAmountMinor, pl_baseCurrency = baseCurrency,
      pl_txnAmountMinor = txnAmountMinor,
      pl_txnCurrency = (case snapshot of None \<Rightarrow> baseCurrency | Some s \<Rightarrow> toUpperCase (sn_currency s)),
      pl_fxRate = (case snapshot of None \<Rightarrow> BASE_RATE | Some s \<Rightarrow> sn_rate s),
      pl_fxRateSource = (case snapshot of None \<Rightarrow> ''base'' | Some s \<Rightarrow> sn_source s),
      pl_fxRateAt = (case snapshot of None \<Rightarrow> baseAt | Some s \<Rightarrow> sn_at s),
      pl_branchId = branchId, pl_warehouseId = None, pl_memo = None\<rparr>"

definition settlementLine :: "SettlementPostingInput \<Rightarrow> SettlementEntryLine \<Rightarrow> PostingLineCommand result" where
  "settlementLine i l =
     bindR (lineSnapshot (sg_snapshots i) Cur_base (se_currency l)) (\<lambda>snapshot.
     bindR (settlementAccount i (se_account l)) (\<lambda>account.
       Inr (snapshotLine (toUpperCase (sg_baseCurrency i)) (midnight (sg_entryDate i)) snapshot account (se_side l)
         (se_baseAmountMinor l) (se_txnAmountMinor l)
         (if se_dimension l = Dim_purchase then sg_branchPurchase i else sg_branchOrigin i))))"

definition settlementPostingCommand :: "SettlementPostingInput \<Rightarrow> PostingCommand result" where
  "settlementPostingCommand i = bindR (mapR (settlementLine i) (sg_lines i)) (\<lambda>ls.
     Inr \<lparr>pc_tenantId = sg_tenantId i, pc_businessId = sg_businessId i, pc_sourceType = settlementSourceText (sg_sourceType i),
          pc_sourceId = sg_sourceId i, pc_entryDate = sg_entryDate i, pc_lines = ls, pc_description = None,
          pc_requestId = Some (sg_businessTransactionId i)\<rparr>)"

subsection \<open>Receivables settlements\<close>

datatype ReceivablesSourceType = CUSTOMER_PAYMENT_ALLOCATION_SOURCE | CUSTOMER_CREDIT_APPLICATION_SOURCE | CUSTOMER_CREDIT_SOURCE

fun receivablesSourceText :: "ReceivablesSourceType \<Rightarrow> string" where
  "receivablesSourceText CUSTOMER_PAYMENT_ALLOCATION_SOURCE = ''customer_payment_allocation''"
| "receivablesSourceText CUSTOMER_CREDIT_APPLICATION_SOURCE = ''customer_credit_application''"
| "receivablesSourceText CUSTOMER_CREDIT_SOURCE = ''customer_credit''"

type_synonym ReceivableSnapshot = SettlementSnapshot

record ReceivablePostingInput =
  rg_tenantId :: string
  rg_businessId :: string
  rg_sourceType :: ReceivablesSourceType
  rg_sourceId :: string
  rg_entryDate :: string
  rg_baseCurrency :: string
  rg_snapshots :: "ReceivableCurrency \<Rightarrow> ReceivableSnapshot option"
  rg_postingAccountCode :: "string option"
  rg_branchId :: "string option"
  rg_lines :: "ReceivableEntryLine list"
  rg_businessTransactionId :: string

definition receivableAccount :: "ReceivablePostingInput \<Rightarrow> ReceivableAccount \<Rightarrow> AccountRef result" where
  "receivableAccount i a = (case a of
       Rcv_posting_account \<Rightarrow> (case rg_postingAccountCode i of None \<Rightarrow> refuse Thrown_Error | Some code \<Rightarrow> Inr (Code_account code))
     | Rcv_accounts_receivable \<Rightarrow> Inr (System_account ''accounts_receivable'')
     | Rcv_customer_credit_liability \<Rightarrow> Inr (System_account ''customer_credit_liability'')
     | Rcv_fx_gain \<Rightarrow> Inr (System_account ''fx_gain'')
     | Rcv_fx_loss \<Rightarrow> Inr (System_account ''fx_loss''))"

definition receivableLine :: "ReceivablePostingInput \<Rightarrow> ReceivableEntryLine \<Rightarrow> PostingLineCommand result" where
  "receivableLine i l =
     bindR (lineSnapshot (rg_snapshots i) ACur_base (ve_currency l)) (\<lambda>snapshot.
     bindR (receivableAccount i (ve_account l)) (\<lambda>account.
       Inr (snapshotLine (toUpperCase (rg_baseCurrency i)) (midnight (rg_entryDate i)) snapshot account (ve_side l)
         (ve_baseAmountMinor l) (ve_txnAmountMinor l) (rg_branchId i))))"

definition receivablePostingCommand :: "ReceivablePostingInput \<Rightarrow> PostingCommand result" where
  "receivablePostingCommand i = bindR (mapR (receivableLine i) (rg_lines i)) (\<lambda>ls.
     Inr \<lparr>pc_tenantId = rg_tenantId i, pc_businessId = rg_businessId i, pc_sourceType = receivablesSourceText (rg_sourceType i),
          pc_sourceId = rg_sourceId i, pc_entryDate = rg_entryDate i, pc_lines = ls, pc_description = None,
          pc_requestId = Some (rg_businessTransactionId i)\<rparr>)"

subsection \<open>What the posting engine makes of a line\<close>

text \<open>A snapshot states a conversion: its rate and the exponents of the two currencies.\<close>

definition states_rate :: "string \<Rightarrow> SettlementSnapshot \<Rightarrow> SettlementConversion \<Rightarrow> bool" where
  "states_rate baseCurrency s c \<longleftrightarrow> rateScaled (sn_rate s) = Inr (rateR10 c) \<and> minorUnitsOf (sn_currency s) = Inr (nat (txnExponent c))
     \<and> minorUnitsOf baseCurrency = Inr (nat (baseExponent c))"

text \<open>The engine's own rule on the source of a rate: \<open>base\<close>, with equal amounts, in the base currency; a registered source in any other.\<close>

definition source_admitted :: "string \<Rightarrow> SettlementSnapshot option \<Rightarrow> int \<Rightarrow> int \<Rightarrow> bool" where
  "source_admitted baseCurrency snapshot t b \<longleftrightarrow> (case snapshot of None \<Rightarrow> True
     | Some s \<Rightarrow> if toUpperCase (sn_currency s) = toUpperCase baseCurrency then sn_source s = ''base'' \<and> t = b
         else sn_source s = ''manual'' \<or> sn_source s = ''provider'')"

lemma minorUnitsOf_upper [simp]: "minorUnitsOf (toUpperCase c) = minorUnitsOf c"
  by (simp add: minorUnitsOf_def)

text \<open>The conversion of the inventory package and that of the posting engine are the same function.\<close>

lemma conversions_agree:
  assumes "states_rate b s c" "conversion_ok c" "0 < t"
  shows "convertToBaseMinor \<lparr>fc_txnAmountMinor = t, fc_txnCurrency = toUpperCase (sn_currency s),
     fc_baseCurrency = toUpperCase b, fc_fxRate = sn_rate s\<rparr> = Inr (converted t c)"
  using assms
  by (auto simp: convertToBaseMinor_eq_Inr states_rate_def rateScaled_eq_Inr conversion_ok_def converted_def fx_pow10_def R10_def
      max.commute)

definition carries :: "string \<Rightarrow> SettlementSnapshot option \<Rightarrow> SettlementConversion option \<Rightarrow> int \<Rightarrow> int \<Rightarrow> bool" where
  "carries baseCurrency snapshot conv t b \<longleftrightarrow> 0 < t \<and> 0 < b
     \<and> (case snapshot of
          None \<Rightarrow> conv = None \<and> t = b \<and> isSupportedCurrency baseCurrency
        | Some s \<Rightarrow> (\<exists>c. conv = Some c \<and> states_rate baseCurrency s c \<and> convert t c = Inr b))"

lemma snapshot_line_sound:
  assumes "carries bc snap conv t b" "pl_baseAmountMinor p = b" "pl_txnAmountMinor p = t" "pl_baseCurrency p = toUpperCase bc"
    "pl_txnCurrency p = (case snap of None \<Rightarrow> toUpperCase bc | Some s \<Rightarrow> toUpperCase (sn_currency s))"
    "pl_fxRate p = (case snap of None \<Rightarrow> BASE_RATE | Some s \<Rightarrow> sn_rate s)"
    "pl_fxRateSource p = (case snap of None \<Rightarrow> ''base'' | Some s \<Rightarrow> sn_source s)"
  shows "Posting.line_sound p \<longleftrightarrow> b \<le> MAX_MONEY_MINOR \<and> source_admitted bc snap t b"
proof (cases snap)
  case None
  then show ?thesis using assms unit_conversion [of bc b]
    by (auto simp: carries_def Posting.line_sound_def lineConversion_def BASE_RATE_def source_admitted_def)
next
  case (Some s)
  then obtain c where c: "states_rate bc s c" "0 < t" "0 < b" "t \<le> VALUE_LIMIT_MINOR" "conversion_ok c" "b = converted t c"
    using assms(1) by (auto simp: carries_def convert_eq_Inr)
  have m: "t \<le> MAX_MONEY_MINOR" using c(4) by (simp add: VALUE_LIMIT_MINOR_def MAX_MONEY_MINOR_def)
  show ?thesis
    using Some assms(2-7) c(2,3) m conversions_agree [OF c(1,5,2)] c(6)
    by (auto simp: Posting.line_sound_def lineConversion_def source_admitted_def)
qed

locale ledger_lines =
  fixes side :: "'l \<Rightarrow> Side" and base :: "'l \<Rightarrow> int" and txn :: "'l \<Rightarrow> int"
    and snapshot :: "'i \<Rightarrow> 'l \<Rightarrow> SettlementSnapshot option" and baseCurrency :: "'i \<Rightarrow> string"
    and line :: "'i \<Rightarrow> 'l \<Rightarrow> PostingLineCommand result"
  assumes line_keeps: "line i l = Inr p \<Longrightarrow> pl_side p = side l \<and> pl_baseAmountMinor p = base l \<and> pl_txnAmountMinor p = txn l
     \<and> pl_baseCurrency p = toUpperCase (baseCurrency i)
     \<and> pl_txnCurrency p = (case snapshot i l of None \<Rightarrow> toUpperCase (baseCurrency i) | Some s \<Rightarrow> toUpperCase (sn_currency s))
     \<and> pl_fxRate p = (case snapshot i l of None \<Rightarrow> BASE_RATE | Some s \<Rightarrow> sn_rate s)
     \<and> pl_fxRateSource p = (case snapshot i l of None \<Rightarrow> ''base'' | Some s \<Rightarrow> sn_source s)"
begin

text \<open>What the engine asks of a line whose amounts are exact.\<close>

definition line_taken :: "'i \<Rightarrow> 'l \<Rightarrow> bool" where
  "line_taken i l \<longleftrightarrow> base l \<le> MAX_MONEY_MINOR \<and> source_admitted (baseCurrency i) (snapshot i l) (txn l) (base l)"

lemma line_accepted:
  assumes "line i l = Inr p" "carries (baseCurrency i) (snapshot i l) conv (txn l) (base l)"
  shows "Posting.line_sound p \<longleftrightarrow> base l \<le> MAX_MONEY_MINOR \<and> source_admitted (baseCurrency i) (snapshot i l) (txn l) (base l)"
  by (rule snapshot_line_sound [OF assms(2)]) (use line_keeps [OF assms(1)] in blast)+

lemma lines_kept:
  assumes "mapR (line i) ls = Inr ps"
  shows "length ps = length ls" "entryBalance pl_side pl_baseAmountMinor ps = entryBalance side base ls"
    "list_all (\<lambda>l. carries (baseCurrency i) (snapshot i l) (conv l) (txn l) (base l)) ls \<Longrightarrow>
       list_all Posting.line_sound ps \<longleftrightarrow> list_all (line_taken i) ls"
  using assms
proof (induction ls arbitrary: ps)
  case (Cons l ls)
  {
    case 1
    then show ?case using Cons.IH(1) by (auto simp: bindR_eq_Inr)
  next
    case 2
    then show ?case using Cons.IH(2) line_keeps by (fastforce simp: bindR_eq_Inr)
  next
    case 3
    then obtain q qs where q: "line i l = Inr q" "mapR (line i) ls = Inr qs" "ps = q # qs" by (auto simp: bindR_eq_Inr)
    from 3(1) have c: "carries (baseCurrency i) (snapshot i l) (conv l) (txn l) (base l)"
      "list_all (\<lambda>l. carries (baseCurrency i) (snapshot i l) (conv l) (txn l) (base l)) ls" by simp_all
    show ?case unfolding q(3) using line_accepted [OF q(1) c(1)] Cons.IH(3) [OF c(2) q(2)] by (simp add: line_taken_def)
  }
qed simp_all

lemma entry_accepted:
  assumes "mapR (line i) ls = Inr ps" "list_all (\<lambda>l. carries (baseCurrency i) (snapshot i l) (conv l) (txn l) (base l)) ls"
    "entryBalance side base ls = 0" "2 \<le> length ls"
  shows "entry_sound ps \<longleftrightarrow> list_all (line_taken i) ls"
proof -
  have "debits pl_side pl_baseAmountMinor ps = credits pl_side pl_baseAmountMinor ps"
    using lines_kept(2) [OF assms(1)] assms(3) by (simp add: entryBalance_debits_credits)
  with lines_kept(1) [OF assms(1)] lines_kept(3) [OF assms(1,2)] assms(4) show ?thesis by (simp add: entry_sound_def)
qed

end

definition snapshotOf :: "('c \<Rightarrow> SettlementSnapshot option) \<Rightarrow> 'c \<Rightarrow> 'c \<Rightarrow> SettlementSnapshot option" where
  "snapshotOf snapshots baseKey currency = (if currency = baseKey then None else snapshots currency)"

lemma lineSnapshot_eq_Inr: "lineSnapshot f k c = Inr s \<longleftrightarrow> s = snapshotOf f k c \<and> (c = k \<or> f c \<noteq> None)"
  by (cases "f c") (auto simp: lineSnapshot_def snapshotOf_def)

lemma carries_currency:
  assumes "0 < t" "0 < b" "isSupportedCurrency bc" "if cur = k then t = b else convert t (conv cur) = Inr b"
    "cur = k \<or> (\<exists>s. snaps cur = Some s \<and> states_rate bc s (conv cur))"
  shows "carries bc (snapshotOf snaps k cur) (if cur = k then None else Some (conv cur)) t b"
  using assms by (auto simp: carries_def snapshotOf_def)

interpretation settlement_lines: ledger_lines se_side se_baseAmountMinor se_txnAmountMinor
    "\<lambda>i l. snapshotOf (sg_snapshots i) Cur_base (se_currency l)" sg_baseCurrency settlementLine
  by unfold_locales (auto simp: settlementLine_def bindR_eq_Inr lineSnapshot_eq_Inr snapshotLine_def)

interpretation receivable_lines: ledger_lines ve_side ve_baseAmountMinor ve_txnAmountMinor
    "\<lambda>i l. snapshotOf (rg_snapshots i) ACur_base (ve_currency l)" rg_baseCurrency receivableLine
  by unfold_locales (auto simp: receivableLine_def bindR_eq_Inr lineSnapshot_eq_Inr snapshotLine_def)

text \<open>The snapshot of a return is the purchase's, under the purchase's currency.\<close>

definition purchaseSnapshot :: "SupplierReturnPostingInput \<Rightarrow> SettlementSnapshot" where
  "purchaseSnapshot i = \<lparr>sn_currency = ru_currency i, sn_rate = xf_rate (ru_fx i), sn_source = xf_source (ru_fx i), sn_at = xf_at (ru_fx i)\<rparr>"

interpretation return_lines: ledger_lines re_side re_baseAmountMinor re_txnAmountMinor
    "\<lambda>i l. if re_currency l = RCur_purchase then Some (purchaseSnapshot i) else None" ru_baseCurrency "\<lambda>i l. Inr (returnPostingLine i l)"
  by unfold_locales (auto simp: returnPostingLine_def purchaseSnapshot_def Let_def)

subsection \<open>The lines of a settlement\<close>

text \<open>A line of a plan: both amounts positive, a base line at par, any other line at the conversion of its currency.\<close>

definition line_converts :: "(LineCurrency \<Rightarrow> SettlementConversion) \<Rightarrow> SettlementEntryLine \<Rightarrow> bool" where
  "line_converts conv l \<longleftrightarrow> Supplier_Settlement.line_sound l
     \<and> (if se_currency l = Cur_base then se_txnAmountMinor l = se_baseAmountMinor l
        else convert (se_txnAmountMinor l) (conv (se_currency l)) = Inr (se_baseAmountMinor l))"

lemma baseLine_converts [simp]: "line_converts conv (baseLine a s v d) \<longleftrightarrow> 0 < v"
  by (auto simp: line_converts_def Supplier_Settlement.line_sound_def)

lemma fxLine_converts: "list_all (line_converts conv) (fxLine x y v d)"
  by (auto simp: fxLine_def)

lemma sides_nonempty [simp]: "apLines ap \<noteq> []" "creditLines cr \<noteq> []"
  by (simp_all add: apLines_def creditLines_def)

lemma apLines_convert:
  assumes "apSide_ok p a ap" "conv Cur_purchase = pa_conversion p"
  shows "list_all (line_converts conv) (apLines ap)"
  using assms apLines_sound(1) [OF assms(1)]
  by (auto simp: apLines_def apSide_ok_def line_converts_def Supplier_Settlement.line_sound_def convert_eq_Inr)

lemma creditLines_convert:
  assumes "creditSide_ok n c cr" "conv Cur_note = cn_conversion n"
  shows "list_all (line_converts conv) (creditLines cr)"
  using assms creditLines_sound(1) [OF assms(1)]
  by (auto simp: creditLines_def creditSide_ok_def line_converts_def Supplier_Settlement.line_sound_def convert_eq_Inr)

text \<open>What a settlement may post: the entry of one of the three plans, or of a residue write-off.\<close>

inductive settles :: "(LineCurrency \<Rightarrow> SettlementConversion) \<Rightarrow> SettlementEntryLine list \<Rightarrow> bool" for conv where
  payment: "planPaymentAllocation x = Inr p \<Longrightarrow> conv Cur_purchase = pa_conversion (pi_purchase x) \<Longrightarrow> conv Cur_payment = pi_payment x
    \<Longrightarrow> settles conv (pp_entryLines p)"
| credit: "planCreditAllocation y = Inr q \<Longrightarrow> conv Cur_purchase = pa_conversion (ci_purchase y) \<Longrightarrow> conv Cur_note = cn_conversion (ci_note y)
    \<Longrightarrow> settles conv (ca_entryLines q)"
| refund: "planRefund z = Inr r \<Longrightarrow> conv Cur_note = cn_conversion (ri_note z) \<Longrightarrow> conv Cur_receipt = ri_receipt z
    \<Longrightarrow> settles conv (rp_entryLines r)"
| residue: "planResidueWriteOff s = Inr (Write_off w) \<Longrightarrow> rb_entryLines w \<noteq> [] \<Longrightarrow> settles conv (rb_entryLines w)"

definition converted_entry :: "(LineCurrency \<Rightarrow> SettlementConversion) \<Rightarrow> SettlementEntryLine list \<Rightarrow> bool" where
  "converted_entry conv ls \<longleftrightarrow> list_all (line_converts conv) ls \<and> settlementBalance ls = 0 \<and> 2 \<le> length ls"

lemma length_2: "xs \<noteq> [] \<Longrightarrow> ys \<noteq> [] \<Longrightarrow> 2 \<le> length (xs @ ys)"
  by (cases xs; cases ys) auto

lemma settles_converted: "settles conv ls \<Longrightarrow> converted_entry conv ls"
proof (induction rule: settles.induct)
  case (payment x p)
  note o = payment(1) [unfolded planPaymentAllocation_eq_Inr]
  then have a: "apSide_ok (pi_purchase x) (pi_appliedMinor x) (pp_ap p)" and e: "pp_entryLines p = paymentEntry (pi_paymentAmountMinor x) (pp_paymentBaseMinor p) (pp_ap p)"
    and pb: "0 < pi_paymentAmountMinor x" "0 < pp_paymentBaseMinor p" "convert (pi_paymentAmountMinor x) (pi_payment x) = Inr (pp_paymentBaseMinor p)"
    by (auto simp: convert_eq_Inr)
  have "settlementBalance (pp_entryLines p) = 0" using paymentEntry_passes [OF a pb(1,2)] e by (simp add: balanced_eq_Inr)
  moreover have "2 \<le> length (pp_entryLines p)"
    unfolding e paymentEntry_def by (rule length_2) simp_all
  ultimately show ?case
    using apLines_convert [where conv = conv, OF a payment(2)] pb payment(3)
    by (simp add: converted_entry_def e paymentEntry_def fxLine_converts line_converts_def [of _ "\<lparr>se_account = _, se_side = _, se_currency = _, se_txnAmountMinor = _, se_baseAmountMinor = _, se_dimension = _\<rparr>"]
        Supplier_Settlement.line_sound_def)
next
  case (credit y q)
  note o = credit(1) [unfolded planCreditAllocation_eq_Inr]
  then have a: "apSide_ok (ci_purchase y) (ci_appliedMinor y) (ca_ap q)" "creditSide_ok (ci_note y) (ci_consumedMinor y) (ca_cr q)"
    and e: "ca_entryLines q = creditAllocationEntry (ca_ap q) (ca_cr q)" by auto
  have "settlementBalance (ca_entryLines q) = 0" using creditAllocationEntry_passes [OF a] e by (simp add: balanced_eq_Inr)
  moreover have "2 \<le> length (ca_entryLines q)"
    unfolding e creditAllocationEntry_def
    by (rule length_2) simp_all
  ultimately show ?case
    using apLines_convert [where conv = conv, OF a(1) credit(2)] creditLines_convert [where conv = conv, OF a(2) credit(3)]
    by (simp add: converted_entry_def e creditAllocationEntry_def fxLine_converts)
next
  case (refund z r)
  note o = refund(1) [unfolded planRefund_eq_Inr]
  then have a: "creditSide_ok (ri_note z) (ri_consumedMinor z) (rp_cr r)" and e: "rp_entryLines r = refundEntry (ri_receiptAmountMinor z) (rp_receiptBaseMinor r) (rp_cr r)"
    and pb: "0 < ri_receiptAmountMinor z" "0 < rp_receiptBaseMinor r" "convert (ri_receiptAmountMinor z) (ri_receipt z) = Inr (rp_receiptBaseMinor r)"
    by (auto simp: convert_eq_Inr)
  have "settlementBalance (rp_entryLines r) = 0" using refundEntry_passes [OF a pb(1,2)] e by (simp add: balanced_eq_Inr)
  moreover have "2 \<le> length (rp_entryLines r)"
    unfolding e refundEntry_def using sides_nonempty(2) [of "rp_cr r"] by (cases "creditLines (rp_cr r)") auto
  ultimately show ?case
    using creditLines_convert [where conv = conv, OF a refund(2)] pb refund(3)
    by (simp add: converted_entry_def e refundEntry_def fxLine_converts line_converts_def [of _ "\<lparr>se_account = _, se_side = _, se_currency = _, se_txnAmountMinor = _, se_baseAmountMinor = _, se_dimension = _\<rparr>"]
        Supplier_Settlement.line_sound_def)
next
  case (residue s w)
  note b = planResidueWriteOff_bound [OF residue(1)]
  have "0 \<le> rb_residueBaseMinor w"
    unfolding b(8) using b(1-3) by (intro ap.level_bounds(1)) simp_all
  moreover have "rb_entryLines w = [baseLine Acc_accounts_payable Side_D (rb_residueBaseMinor w) Dim_purchase,
      baseLine Acc_fx_gain Side_C (rb_residueBaseMinor w) Dim_purchase]" "rb_residueBaseMinor w \<noteq> 0"
    using residue by (auto simp: planResidueWriteOff_def Let_def bindR_eq_Inr baseLine_def split: if_splits)
  ultimately show ?case by (simp add: converted_entry_def)
qed

subsection \<open>The lines of a receivables settlement\<close>

definition ar_line_converts :: "(ReceivableCurrency \<Rightarrow> SettlementConversion) \<Rightarrow> ReceivableEntryLine \<Rightarrow> bool" where
  "ar_line_converts conv l \<longleftrightarrow> ar_line_sound l
     \<and> (if ve_currency l = ACur_base then ve_txnAmountMinor l = ve_baseAmountMinor l
        else convert (ve_txnAmountMinor l) (conv (ve_currency l)) = Inr (ve_baseAmountMinor l))"

inductive receives :: "(ReceivableCurrency \<Rightarrow> SettlementConversion) \<Rightarrow> ReceivableEntryLine list \<Rightarrow> bool" for conv where
  allocation: "planCustomerPaymentAllocation x = Inr p \<Longrightarrow> conv ACur_invoice = ia_conversion (qi_invoice x) \<Longrightarrow> conv ACur_payment = qi_payment x
    \<Longrightarrow> receives conv (qp_entryLines p)"
| surplus: "planCustomerCreditCreation s c = Inr k \<Longrightarrow> conv ACur_payment = c \<Longrightarrow> receives conv (kp_entryLines k)"
| application: "planCustomerCreditApplication y = Inr q \<Longrightarrow> conv ACur_invoice = ia_conversion (xi_invoice y)
    \<Longrightarrow> conv ACur_credit = cc_conversion (xi_credit y) \<Longrightarrow> receives conv (xp_entryLines q)"

definition ar_converted_entry :: "(ReceivableCurrency \<Rightarrow> SettlementConversion) \<Rightarrow> ReceivableEntryLine list \<Rightarrow> bool" where
  "ar_converted_entry conv ls \<longleftrightarrow> list_all (ar_line_converts conv) ls \<and> receivableBalance ls = 0 \<and> 2 \<le> length ls"

lemma mirror_converts: "ar_line_converts conv (mirror_line l) \<longleftrightarrow> line_converts (\<lambda>c. conv (mirror_currency c)) l"
  by (cases "se_currency l") (auto simp: ar_line_converts_def line_converts_def mirror_line_def ar_line_sound_def Supplier_Settlement.line_sound_def)

lemma mirror_converts_all: "list_all (ar_line_converts conv) (map mirror_line ls) \<longleftrightarrow> list_all (line_converts (\<lambda>c. conv (mirror_currency c))) ls"
  by (simp add: list_all_iff mirror_converts)

lemma receives_converted: "receives conv ls \<Longrightarrow> ar_converted_entry conv ls"
proof (induction rule: receives.induct)
  case (allocation x p)
  then obtain r where r: "planPaymentAllocation (mirror_payment_input x) = Inr r" "p = mirror_payment_plan r"
    by (auto simp: planCustomerPaymentAllocation_mirror)
  have "settles (\<lambda>c. conv (mirror_currency c)) (pp_entryLines r)"
    by (rule settles.payment [OF r(1)]) (simp_all add: mirror_payment_input_def allocation)
  from settles_converted [OF this] show ?case
    by (simp add: ar_converted_entry_def converted_entry_def r(2) mirror_payment_plan_def mirror_converts_all mirror_balance)
next
  case (surplus s c k)
  then show ?case
    by (auto simp: planCustomerCreditCreation_eq_Inr ar_converted_entry_def ar_line_converts_def ar_line_sound_def convert_eq_Inr)
next
  case (application y q)
  obtain p where p: "planCreditAllocation (mirror_credit_input y) = Inr p" "mset (xp_entryLines q) = mset (map mirror_line (ca_entryLines p))"
    "receivableBalance (xp_entryLines q) = 0"
    by (rule planCustomerCreditApplication_mirror [OF application(1)])
  have "settles (\<lambda>c. conv (mirror_currency c)) (ca_entryLines p)"
    by (rule settles.credit [OF p(1)]) (simp_all add: mirror_credit_input_def application)
  then have "converted_entry (\<lambda>c. conv (mirror_currency c)) (ca_entryLines p)" by (rule settles_converted)
  moreover have "set (xp_entryLines q) = set (map mirror_line (ca_entryLines p))" "length (xp_entryLines q) = length (ca_entryLines p)"
    using p(2) mset_eq_setD mset_eq_length by fastforce+
  ultimately show ?case
    using p(3) by (auto simp: ar_converted_entry_def converted_entry_def list_all_iff mirror_converts)
qed

subsection \<open>The commands\<close>

text \<open>
  Every snapshot the lines name is there and states the conversion the plan used, the base currency is registered, and there
  is a posting account if a line posts to it. A residue write-off and an application of a credit have none.
\<close>

definition settlement_bound :: "SettlementPostingInput \<Rightarrow> (LineCurrency \<Rightarrow> SettlementConversion) \<Rightarrow> bool" where
  "settlement_bound i conv \<longleftrightarrow> isSupportedCurrency (sg_baseCurrency i)
     \<and> (\<forall>l \<in> set (sg_lines i). (se_account l = Acc_posting_account \<longrightarrow> sg_postingAccountCode i \<noteq> None)
          \<and> (se_currency l = Cur_base
              \<or> (\<exists>s. sg_snapshots i (se_currency l) = Some s \<and> states_rate (sg_baseCurrency i) s (conv (se_currency l)))))"

definition receivable_bound :: "ReceivablePostingInput \<Rightarrow> (ReceivableCurrency \<Rightarrow> SettlementConversion) \<Rightarrow> bool" where
  "receivable_bound i conv \<longleftrightarrow> isSupportedCurrency (rg_baseCurrency i)
     \<and> (\<forall>l \<in> set (rg_lines i). (ve_account l = Rcv_posting_account \<longrightarrow> rg_postingAccountCode i \<noteq> None)
          \<and> (ve_currency l = ACur_base
              \<or> (\<exists>s. rg_snapshots i (ve_currency l) = Some s \<and> states_rate (rg_baseCurrency i) s (conv (ve_currency l)))))"

text \<open>What the engine asks of a planned line: the money cap, and a lawful source of its rate.\<close>

definition settlement_taken :: "SettlementPostingInput \<Rightarrow> SettlementEntryLine \<Rightarrow> bool" where
  "settlement_taken i l \<longleftrightarrow> se_baseAmountMinor l \<le> MAX_MONEY_MINOR
     \<and> source_admitted (sg_baseCurrency i) (snapshotOf (sg_snapshots i) Cur_base (se_currency l)) (se_txnAmountMinor l) (se_baseAmountMinor l)"

definition receivable_taken :: "ReceivablePostingInput \<Rightarrow> ReceivableEntryLine \<Rightarrow> bool" where
  "receivable_taken i l \<longleftrightarrow> ve_baseAmountMinor l \<le> MAX_MONEY_MINOR
     \<and> source_admitted (rg_baseCurrency i) (snapshotOf (rg_snapshots i) ACur_base (ve_currency l)) (ve_txnAmountMinor l) (ve_baseAmountMinor l)"

lemma mapR_defined: "(\<And>x. x \<in> set xs \<Longrightarrow> \<exists>y. f x = Inr y) \<Longrightarrow> \<exists>ys. mapR f xs = Inr ys"
proof (induction xs)
  case (Cons x xs)
  then show ?case by (metis bindR_simps(2) list.set_intros mapR.simps(2))
qed simp

lemma settlement_posting:
  assumes "converted_entry conv (sg_lines i)" "settlement_bound i conv"
  shows "\<exists>c. settlementPostingCommand i = Inr c
    \<and> (validatePostingCommand c = Inr () \<longleftrightarrow> list_all (settlement_taken i) (sg_lines i))"
proof -
  have "\<exists>q. settlementLine i l = Inr q" if "l \<in> set (sg_lines i)" for l
    using assms(2) that
    by (cases "se_account l") (fastforce simp: settlementLine_def settlement_bound_def lineSnapshot_def settlementAccount_def)+
  then obtain ps where ps: "mapR (settlementLine i) (sg_lines i) = Inr ps" using mapR_defined by meson
  have "carries (sg_baseCurrency i) (snapshotOf (sg_snapshots i) Cur_base (se_currency l))
      (if se_currency l = Cur_base then None else Some (conv (se_currency l))) (se_txnAmountMinor l) (se_baseAmountMinor l)"
    if "l \<in> set (sg_lines i)" for l
    using assms that
    by (intro carries_currency [where conv = conv]) (simp_all add: settlement_bound_def converted_entry_def list_all_iff line_converts_def
        Supplier_Settlement.line_sound_def)
  then have "entry_sound ps \<longleftrightarrow> list_all (settlement_taken i) (sg_lines i)"
    using assms(1) settlement_lines.entry_accepted [OF ps, where conv = "\<lambda>l. if se_currency l = Cur_base then None else Some (conv (se_currency l))"]
    by (auto simp: converted_entry_def list_all_iff settlement_lines.line_taken_def settlement_taken_def)
  with ps show ?thesis by (simp add: settlementPostingCommand_def validatePostingCommand_eq_Inr)
qed

lemma receivable_posting:
  assumes "ar_converted_entry conv (rg_lines i)" "receivable_bound i conv"
  shows "\<exists>c. receivablePostingCommand i = Inr c
    \<and> (validatePostingCommand c = Inr () \<longleftrightarrow> list_all (receivable_taken i) (rg_lines i))"
proof -
  have "\<exists>q. receivableLine i l = Inr q" if "l \<in> set (rg_lines i)" for l
    using assms(2) that
    by (cases "ve_account l") (fastforce simp: receivableLine_def receivable_bound_def lineSnapshot_def receivableAccount_def)+
  then obtain ps where ps: "mapR (receivableLine i) (rg_lines i) = Inr ps" using mapR_defined by meson
  have "carries (rg_baseCurrency i) (snapshotOf (rg_snapshots i) ACur_base (ve_currency l))
      (if ve_currency l = ACur_base then None else Some (conv (ve_currency l))) (ve_txnAmountMinor l) (ve_baseAmountMinor l)"
    if "l \<in> set (rg_lines i)" for l
    using assms that
    by (intro carries_currency [where conv = conv]) (simp_all add: receivable_bound_def ar_converted_entry_def list_all_iff ar_line_converts_def
        ar_line_sound_def)
  then have "entry_sound ps \<longleftrightarrow> list_all (receivable_taken i) (rg_lines i)"
    using assms(1) receivable_lines.entry_accepted [OF ps, where conv = "\<lambda>l. if ve_currency l = ACur_base then None else Some (conv (ve_currency l))"]
    by (auto simp: ar_converted_entry_def list_all_iff receivable_lines.line_taken_def receivable_taken_def)
  with ps show ?thesis by (simp add: receivablePostingCommand_def validatePostingCommand_eq_Inr)
qed

text \<open>The conversion the return service passes to the plan is the posting engine's own, at the snapshot of the purchase.\<close>

definition purchaseConversion :: "SupplierReturnPostingInput \<Rightarrow> int \<Rightarrow> int result" where
  "purchaseConversion i t = convertToBaseMinor \<lparr>fc_txnAmountMinor = t, fc_txnCurrency = ru_currency i,
     fc_baseCurrency = ru_baseCurrency i, fc_fxRate = xf_rate (ru_fx i)\<rparr>"

lemma purchaseConversion_converted:
  assumes "states_rate (ru_baseCurrency i) (purchaseSnapshot i) c" "conversion_ok c" "0 < t" "t \<le> VALUE_LIMIT_MINOR"
  shows "purchaseConversion i t = convert t c"
proof -
  have "purchaseConversion i t = Inr (converted t c)"
    using conversions_agree [OF assms(1-3)]
    by (simp add: purchaseConversion_def purchaseSnapshot_def convertToBaseMinor_eq_Inr)
  moreover have "convert t c = Inr (converted t c)" using assms by (simp add: convert_eq_Inr)
  ultimately show ?thesis by simp
qed

lemma balanced_length:
  assumes "entryBalance side base ls = 0" "list_all (\<lambda>l. 0 < base l) ls" "ls \<noteq> []"
  shows "2 \<le> length ls"
proof (rule ccontr)
  assume "\<not> 2 \<le> length ls"
  with assms(3) obtain l where "ls = [l]" by (cases ls; cases "tl ls") auto
  with assms(1,2) show False by (cases "side l") auto
qed

lemma return_lines_convert:
  assumes "amounts_ok a" "ra_apTxnMinor a \<noteq> 0 \<longrightarrow> convert (ra_apTxnMinor a) c = Inr (ra_apConvertedMinor a)"
    "ra_creditTxnMinor a \<noteq> 0 \<longrightarrow> convert (ra_creditTxnMinor a) c = Inr (ra_creditBaseMinor a)"
    "isSupportedCurrency (ru_baseCurrency i)" "states_rate (ru_baseCurrency i) (purchaseSnapshot i) c"
  shows "list_all (\<lambda>l. carries (ru_baseCurrency i) (if re_currency l = RCur_purchase then Some (purchaseSnapshot i) else None)
    (if re_currency l = RCur_purchase then Some c else None) (re_txnAmountMinor l) (re_baseAmountMinor l)) (returnLines a)"
proof -
  have "ra_apTxnMinor a \<noteq> 0 \<longrightarrow> 0 < ra_apTxnMinor a \<and> 0 < ra_apConvertedMinor a"
    "ra_creditTxnMinor a \<noteq> 0 \<longrightarrow> 0 < ra_creditTxnMinor a \<and> 0 < ra_creditBaseMinor a"
    "ra_inventoryValueMinor a \<noteq> 0 \<longrightarrow> 0 < ra_inventoryValueMinor a"
    using assms(1) by (simp_all add: amounts_ok_def)
  with assms(2-5) show ?thesis by (simp add: returnLines_def if_singleton carries_def del: if_split)
qed

text \<open>The plan bounds every amount but the price variance.\<close>

lemma return_amounts_bounded:
  assumes "planSupplierReturn conv x = Inr p"
  shows "0 \<le> ra_apTxnMinor (srp_amounts p)" "ra_apTxnMinor (srp_amounts p) \<le> VALUE_LIMIT_MINOR"
    "0 \<le> ra_creditTxnMinor (srp_amounts p)" "ra_creditTxnMinor (srp_amounts p) \<le> VALUE_LIMIT_MINOR"
    "ra_apTxnMinor (srp_amounts p) \<noteq> 0 \<longrightarrow> conv (ra_apTxnMinor (srp_amounts p)) = Inr (ra_apConvertedMinor (srp_amounts p))"
    "ra_creditTxnMinor (srp_amounts p) \<noteq> 0 \<longrightarrow> conv (ra_creditTxnMinor (srp_amounts p)) = Inr (ra_creditBaseMinor (srp_amounts p))"
    "ra_apConvertedMinor (srp_amounts p) \<le> VALUE_LIMIT_MINOR" "\<bar>ra_apDustBaseMinor (srp_amounts p)\<bar> \<le> VALUE_LIMIT_MINOR"
    "ra_creditBaseMinor (srp_amounts p) \<le> VALUE_LIMIT_MINOR" "ra_inventoryValueMinor (srp_amounts p) \<le> VALUE_LIMIT_MINOR"
proof -
  from assms obtain C apTxn apBase apc crTxn cb iv v e where
    C: "0 \<le> C" "C \<le> VALUE_LIMIT_MINOR" and sp: "apSplit C (sr_outstandingTxnMinor x) = Inr (apTxn, crTxn)"
    and ab: "apBaseRelease (sr_totalBaseMinor x) (sr_totalTxnMinor x) (sr_outstandingTxnMinor x) apTxn = Inr apBase"
    and apc: "convertPositive conv apTxn = Inr apc" and cb: "convertPositive conv crTxn = Inr cb"
    and pv: "ppv apBase cb iv = Inr v"
    and p: "srp_amounts p = \<lparr>ra_apTxnMinor = apTxn, ra_apConvertedMinor = apc, ra_apDustBaseMinor = apBase - apc, ra_creditTxnMinor = crTxn,
         ra_creditBaseMinor = cb, ra_inventoryValueMinor = iv, ra_ppvMinor = v\<rparr>"
    by (auto simp: planSupplierReturn_def bindR_eq_Inr if_refuse_eq_Inr Let_def assertMinor_eq_Inr)
  have b: "0 \<le> apTxn" "apTxn \<le> C" "crTxn = C - apTxn" using sp ab by (auto simp: apSplit_eq_Inr apBaseRelease_eq_Inr)
  have "0 \<le> apc" "apc \<le> VALUE_LIMIT_MINOR" "0 \<le> apBase" "apBase \<le> VALUE_LIMIT_MINOR" "0 \<le> cb" "cb \<le> VALUE_LIMIT_MINOR" "iv \<le> VALUE_LIMIT_MINOR"
    using apc pv by (auto simp: convertPositive_eq_Inr ppv_eq_Inr VALUE_LIMIT_MINOR_def split: if_splits)
  then show "0 \<le> ra_apTxnMinor (srp_amounts p)" "ra_apTxnMinor (srp_amounts p) \<le> VALUE_LIMIT_MINOR"
    "0 \<le> ra_creditTxnMinor (srp_amounts p)" "ra_creditTxnMinor (srp_amounts p) \<le> VALUE_LIMIT_MINOR"
    "ra_apTxnMinor (srp_amounts p) \<noteq> 0 \<longrightarrow> conv (ra_apTxnMinor (srp_amounts p)) = Inr (ra_apConvertedMinor (srp_amounts p))"
    "ra_creditTxnMinor (srp_amounts p) \<noteq> 0 \<longrightarrow> conv (ra_creditTxnMinor (srp_amounts p)) = Inr (ra_creditBaseMinor (srp_amounts p))"
    "ra_apConvertedMinor (srp_amounts p) \<le> VALUE_LIMIT_MINOR" "\<bar>ra_apDustBaseMinor (srp_amounts p)\<bar> \<le> VALUE_LIMIT_MINOR"
    "ra_creditBaseMinor (srp_amounts p) \<le> VALUE_LIMIT_MINOR" "ra_inventoryValueMinor (srp_amounts p) \<le> VALUE_LIMIT_MINOR"
    using C b apc cb by (auto simp: p convertPositive_eq_Inr split: if_splits)
qed

definition return_source_admitted :: "SupplierReturnPostingInput \<Rightarrow> SupplierReturnEntryLine \<Rightarrow> bool" where
  "return_source_admitted i l \<longleftrightarrow> source_admitted (ru_baseCurrency i) (if re_currency l = RCur_purchase then Some (purchaseSnapshot i) else None)
     (re_txnAmountMinor l) (re_baseAmountMinor l)"

lemma return_posting:
  assumes "planSupplierReturn (purchaseConversion i) x = Inr p" "ru_lines i = srp_entryLines p"
    "isSupportedCurrency (ru_baseCurrency i)" "states_rate (ru_baseCurrency i) (purchaseSnapshot i) c" "conversion_ok c"
  shows "validatePostingCommand (supplierReturnPostingCommand i) = Inr () \<longleftrightarrow> \<bar>ra_ppvMinor (srp_amounts p)\<bar> \<le> MAX_MONEY_MINOR
    \<and> list_all (return_source_admitted i) (ru_lines i)"
proof -
  let ?a = "srp_amounts p"
  from planSupplierReturn_ok [OF assms(1)] have ok: "amounts_ok ?a" and ls: "ru_lines i = returnLines ?a"
    using assms(2) by (simp_all add: return_ok_def Let_def)
  note m = return_amounts_bounded [OF assms(1)]
  have cv: "ra_apTxnMinor ?a \<noteq> 0 \<longrightarrow> convert (ra_apTxnMinor ?a) c = Inr (ra_apConvertedMinor ?a)"
    "ra_creditTxnMinor ?a \<noteq> 0 \<longrightarrow> convert (ra_creditTxnMinor ?a) c = Inr (ra_creditBaseMinor ?a)"
    using m(1-6) purchaseConversion_converted [OF assms(4,5)] by (metis order_le_neq_trans)+
  have e: "returnEntryBalance (returnLines ?a) = 0" "list_all (\<lambda>l. 0 < re_baseAmountMinor l) (returnLines ?a)" "returnLines ?a \<noteq> []"
    using returnLines_balance [OF ok] returnLines_positive [OF ok] returnLines_debit [OF ok] by auto
  have mp: "mapR (\<lambda>l. Inr (returnPostingLine i l)) ls = Inr (map (returnPostingLine i) ls)" for ls
    by (rule mapR_total) simp
  have "entry_sound (map (returnPostingLine i) (ru_lines i)) \<longleftrightarrow> list_all (return_lines.line_taken i) (ru_lines i)"
    unfolding ls
    by (rule return_lines.entry_accepted [OF mp return_lines_convert [OF ok cv assms(3,4)] e(1) balanced_length [OF e]])
  also have "\<dots> \<longleftrightarrow> list_all (\<lambda>l. re_baseAmountMinor l \<le> MAX_MONEY_MINOR) (ru_lines i) \<and> list_all (return_source_admitted i) (ru_lines i)"
    by (auto simp: list_all_iff return_lines.line_taken_def return_source_admitted_def)
  also have "list_all (\<lambda>l. re_baseAmountMinor l \<le> MAX_MONEY_MINOR) (ru_lines i) \<longleftrightarrow> \<bar>ra_ppvMinor ?a\<bar> \<le> MAX_MONEY_MINOR"
    using m unfolding ls
    by (auto simp: returnLines_def if_singleton MAX_MONEY_MINOR_def VALUE_LIMIT_MINOR_def simp del: if_split)
  finally show ?thesis by (simp add: validatePostingCommand_eq_Inr supplierReturnPostingCommand_def)
qed

subsection \<open>The documents\<close>

lemma domesticLine_fields [simp]:
  "pl_side (domesticLine b k s v d) = s" "pl_baseAmountMinor (domesticLine b k s v d) = v" "pl_account (domesticLine b k s v d) = System_account k"
  by (simp_all add: domesticLine_def Let_def)

lemma domesticLine_sound:
  assumes "isSupportedCurrency (pb_baseCurrency b)"
  shows "Posting.line_sound (domesticLine b k s v d) \<longleftrightarrow> 0 < v \<and> v \<le> MAX_MONEY_MINOR"
  using unit_conversion [OF assms, of v]
  by (auto simp: domesticLine_def Let_def Posting.line_sound_def lineConversion_def DOMESTIC_RATE_def)

definition inventoryMovement :: "PostingCommand \<Rightarrow> int" where
  "inventoryMovement c = accountMovement (System_account ''inventory'') pl_baseAmountMinor (pc_lines c)"

lemma adjustment_posting:
  assumes "isSupportedCurrency (pb_baseCurrency b)" "adjustmentPostingCommand b w r v = Some c"
  shows "inventoryMovement c = v" "validatePostingCommand c = Inr () \<longleftrightarrow> \<bar>v\<bar> \<le> MAX_MONEY_MINOR" "pc_sourceType c = INVENTORY_ADJUSTMENT_SOURCE"
  using assms
  by (auto simp: adjustmentPostingCommand_def Let_def documentCommand_def validatePostingCommand_eq_Inr entry_sound_def
      domesticLine_sound debits_def credits_def inventoryMovement_def accountMovement_def split: if_splits)

lemma catchUp_posting:
  assumes "isSupportedCurrency (cu_baseCurrency i)" "catchUpPostingCommand i = Some c"
  shows "inventoryMovement c = cu_netValueMinor i" "validatePostingCommand c = Inr () \<longleftrightarrow> \<bar>cu_netValueMinor i\<bar> \<le> MAX_MONEY_MINOR"
    "pc_sourceType c = CATCH_UP_SOURCE"
proof -
  obtain z b where z: "adjustmentPostingCommand b (cu_warehouseId i) (cu_branchId i) (cu_netValueMinor i) = Some z"
    "pb_baseCurrency b = cu_baseCurrency i" "c = z\<lparr>pc_sourceType := CATCH_UP_SOURCE\<rparr>"
    using assms(2) by (auto simp: catchUpPostingCommand_def)
  have "isSupportedCurrency (pb_baseCurrency b)" using assms(1) z(2) by simp
  from adjustment_posting [OF this z(1)]
  show "inventoryMovement c = cu_netValueMinor i" "validatePostingCommand c = Inr () \<longleftrightarrow> \<bar>cu_netValueMinor i\<bar> \<le> MAX_MONEY_MINOR"
    "pc_sourceType c = CATCH_UP_SOURCE"
    by (simp_all add: z(3) inventoryMovement_def validatePostingCommand_eq_Inr)
qed

lemma sum_list_upper: "list_all (\<lambda>v. (0 :: int) < v) vs \<Longrightarrow> v \<in> set vs \<Longrightarrow> v \<le> sum_list vs"
proof (induction vs)
  case (Cons x xs)
  moreover have "0 \<le> sum_list xs" using Cons.prems(1) by (intro sum_list_nonneg_int) (auto simp: list_all_iff)
  ultimately show ?case by auto
qed simp

definition openingValue :: "WarehouseShare list \<Rightarrow> int" where
  "openingValue ws = sum_list (map ws_valueMinor (filter (\<lambda>w. 0 < ws_valueMinor w) ws))"

lemma opening_debits:
  "entryBalance pl_side pl_baseAmountMinor (map (\<lambda>w. domesticLine b ''inventory'' Side_D (ws_valueMinor w) (f w)) ws) = sum_list (map ws_valueMinor ws)"
  "debits pl_side pl_baseAmountMinor (map (\<lambda>w. domesticLine b ''inventory'' Side_D (ws_valueMinor w) (f w)) ws) = sum_list (map ws_valueMinor ws)"
  "credits pl_side pl_baseAmountMinor (map (\<lambda>w. domesticLine b ''inventory'' Side_D (ws_valueMinor w) (f w)) ws) = 0"
  by (induction ws) (simp_all add: debits_def credits_def)

lemma opening_posting:
  assumes "isSupportedCurrency (pb_baseCurrency b)" "openingPostingCommand b ws = Some c"
  shows "inventoryMovement c = openingValue ws" "validatePostingCommand c = Inr () \<longleftrightarrow> openingValue ws \<le> MAX_MONEY_MINOR"
    "pc_sourceType c = INVENTORY_OPENING_SOURCE"
proof -
  define vs where "vs = filter (\<lambda>w. 0 < ws_valueMinor w) ws"
  let ?lines = "map (\<lambda>w. domesticLine b ''inventory'' Side_D (ws_valueMinor w) (Some (ws_warehouseId w, ws_branchId w))) vs"
  have V: "openingValue ws = sum_list (map ws_valueMinor vs)" by (simp add: openingValue_def vs_def)
  have c: "c = documentCommand b INVENTORY_OPENING_SOURCE (?lines @ [domesticLine b ''opening_equity'' Side_C (openingValue ws) None])"
    "openingValue ws \<noteq> 0"
    using assms(2) by (auto simp: openingPostingCommand_def Let_def foldl_plus_map V vs_def split: if_splits)
  then have ne: "vs \<noteq> []" by (auto simp: V)
  have pos: "list_all (\<lambda>v. 0 < v) (map ws_valueMinor vs)" by (auto simp: vs_def list_all_iff)
  then have up: "ws_valueMinor w \<le> openingValue ws" "0 < ws_valueMinor w" if "w \<in> set vs" for w
    using that sum_list_upper [OF pos, of "ws_valueMinor w"] by (auto simp: V list_all_iff)
  obtain w where "w \<in> set vs" using ne by (cases vs) auto
  with up [OF this] have "0 < openingValue ws" by linarith
  then have "list_all Posting.line_sound (pc_lines c) \<longleftrightarrow> openingValue ws \<le> MAX_MONEY_MINOR"
    using up assms(1) by (auto simp: c(1) documentCommand_def list_all_iff domesticLine_sound intro: order_trans)
  moreover have "debits pl_side pl_baseAmountMinor (pc_lines c) = credits pl_side pl_baseAmountMinor (pc_lines c)" "2 \<le> length (pc_lines c)"
    using ne opening_debits(2,3) [of b _ vs] by (auto simp: c(1) documentCommand_def debits_def credits_def V Suc_le_eq)
  ultimately show "validatePostingCommand c = Inr () \<longleftrightarrow> openingValue ws \<le> MAX_MONEY_MINOR"
    by (simp add: validatePostingCommand_eq_Inr entry_sound_def)
  show "inventoryMovement c = openingValue ws" "pc_sourceType c = INVENTORY_OPENING_SOURCE"
    by (simp_all add: c(1) documentCommand_def inventoryMovement_def accountMovement_def opening_debits V)
qed

subsection \<open>Properties\<close>

text \<open>C35: What a supplier settlement plans, the posting engine takes: when the base currency is registered, every snapshot
  the lines name is present and states the rate and the exponents the plan used, and there is a posting account if a line
  posts to one, the command of every accepted payment, credit allocation, refund or residue write-off is built, is of a source
  type its domain owns, and passes the engine's validation exactly when no base amount exceeds the money cap and the
  source of each named rate is one the engine admits for its currency. So every line the inventory package derived is
  the exact conversion by the accounting package's own arithmetic.\<close>

theorem settlement_postings_accepted:
  assumes "settles conv (sg_lines i)" "settlement_bound i conv"
  shows "\<exists>c. settlementPostingCommand i = Inr c \<and> isDomainSourceType (pc_sourceType c)
    \<and> (validatePostingCommand c = Inr () \<longleftrightarrow> list_all (settlement_taken i) (sg_lines i))"
proof -
  obtain c where c: "settlementPostingCommand i = Inr c"
    "validatePostingCommand c = Inr () \<longleftrightarrow> list_all (settlement_taken i) (sg_lines i)"
    using settlement_posting [OF settles_converted [OF assms(1)] assms(2)] by blast
  have "pc_sourceType c = settlementSourceText (sg_sourceType i)" using c(1) by (auto simp: settlementPostingCommand_def bindR_eq_Inr)
  then have "isDomainSourceType (pc_sourceType c)" by (cases "sg_sourceType i") (simp_all add: isDomainSourceType_def DOMAIN_SOURCE_TYPES_def)
  with c show ?thesis by blast
qed

definition sample_snapshot :: SettlementSnapshot where
  "sample_snapshot = \<lparr>sn_currency = ''USD'', sn_rate = ''3.5000000000'', sn_source = ''manual'', sn_at = Some 0\<rparr>"

definition sample_settlement :: "SettlementEntryLine list \<Rightarrow> SettlementPostingInput" where
  "sample_settlement ls = \<lparr>sg_tenantId = ''t'', sg_businessId = ''b'', sg_sourceType = SUPPLIER_PAYMENT_SOURCE, sg_sourceId = ''p'',
     sg_entryDate = ''2026-01-31'', sg_baseCurrency = ''ILS'', sg_snapshots = (\<lambda>_. Some sample_snapshot),
     sg_postingAccountCode = Some ''1010'', sg_branchPurchase = None, sg_branchOrigin = None, sg_lines = ls,
     sg_businessTransactionId = ''x''\<rparr>"

definition sample_payment_plan :: PaymentAllocationPlan where
  "sample_payment_plan = \<lparr>pp_ap = \<lparr>ap_appliedMinor = 400, ap_releasedBeforeMinor = 0, ap_carryingReleasedMinor = 1400,
     ap_apConvertedMinor = 1400, ap_apDustBaseMinor = 0\<rparr>, pp_paymentAmountMinor = 400, pp_paymentBaseMinor = 1400, pp_realizedMinor = 0,
     pp_entryLines = [\<lparr>se_account = Acc_accounts_payable, se_side = Side_D, se_currency = Cur_purchase, se_txnAmountMinor = 400,
        se_baseAmountMinor = 1400, se_dimension = Dim_purchase\<rparr>,
       \<lparr>se_account = Acc_posting_account, se_side = Side_C, se_currency = Cur_payment, se_txnAmountMinor = 400,
        se_baseAmountMinor = 1400, se_dimension = Dim_purchase\<rparr>]\<rparr>"

lemma sample_fits: "states_rate ''ILS'' sample_snapshot lira"
proof -
  have "rateScaled ''3.5000000000'' = Inr 35000000000" "minorUnitsOf ''USD'' = Inr 2" "minorUnitsOf ''ILS'' = Inr 2"
    "toUpperCase ''USD'' = ''USD''" "toUpperCase ''ILS'' = ''ILS''" by code_simp+
  then show ?thesis by (simp add: states_rate_def sample_snapshot_def lira_def)
qed

theorem settlement_postings_accepted_witness:
  "\<exists>c. settlementPostingCommand (sample_settlement (pp_entryLines sample_payment_plan)) = Inr c \<and> validatePostingCommand c = Inr ()"
proof -
  have "planPaymentAllocation sample_payment = Inr sample_payment_plan" by code_simp
  then have s: "settles (\<lambda>_. lira) (pp_entryLines sample_payment_plan)"
    by (rule settles.payment) (simp_all add: sample_payment_def)
  have "isSupportedCurrency ''ILS''" by code_simp
  then have b: "settlement_bound (sample_settlement (pp_entryLines sample_payment_plan)) (\<lambda>_. lira)"
    using sample_fits by (simp add: settlement_bound_def sample_settlement_def)
  have "sg_lines (sample_settlement (pp_entryLines sample_payment_plan)) = pp_entryLines sample_payment_plan"
    by (simp add: sample_settlement_def)
  moreover have "list_all (settlement_taken (sample_settlement (pp_entryLines sample_payment_plan))) (pp_entryLines sample_payment_plan)" by code_simp
  ultimately show ?thesis using settlement_postings_accepted [OF _ b] s by auto
qed

text \<open>C36: The same for the receivables, under the same conditions: the command of every accepted allocation of a collected
  payment, of the credit its surplus becomes and of every application of a credit, which has no posting account, is built, is of
  a domain source type, and is accepted exactly when no base amount exceeds the cap and the source of each named rate
  is one the engine admits for its currency.\<close>

theorem receivable_postings_accepted:
  assumes "receives conv (rg_lines i)" "receivable_bound i conv"
  shows "\<exists>c. receivablePostingCommand i = Inr c \<and> isDomainSourceType (pc_sourceType c)
    \<and> (validatePostingCommand c = Inr () \<longleftrightarrow> list_all (receivable_taken i) (rg_lines i))"
proof -
  obtain c where c: "receivablePostingCommand i = Inr c"
    "validatePostingCommand c = Inr () \<longleftrightarrow> list_all (receivable_taken i) (rg_lines i)"
    using receivable_posting [OF receives_converted [OF assms(1)] assms(2)] by blast
  have "pc_sourceType c = receivablesSourceText (rg_sourceType i)" using c(1) by (auto simp: receivablePostingCommand_def bindR_eq_Inr)
  then have "isDomainSourceType (pc_sourceType c)" by (cases "rg_sourceType i") (simp_all add: isDomainSourceType_def DOMAIN_SOURCE_TYPES_def)
  with c show ?thesis by blast
qed

definition sample_surplus :: CustomerCreditCreationPlan where
  "sample_surplus = \<lparr>kp_originalAmountMinor = 400, kp_originalCarryingBaseMinor = 1400, kp_entryLines =
     [\<lparr>ve_account = Rcv_posting_account, ve_side = Side_D, ve_currency = ACur_payment, ve_txnAmountMinor = 400, ve_baseAmountMinor = 1400\<rparr>,
      \<lparr>ve_account = Rcv_customer_credit_liability, ve_side = Side_C, ve_currency = ACur_payment, ve_txnAmountMinor = 400, ve_baseAmountMinor = 1400\<rparr>]\<rparr>"

definition sample_receivable :: ReceivablePostingInput where
  "sample_receivable = \<lparr>rg_tenantId = ''t'', rg_businessId = ''b'', rg_sourceType = CUSTOMER_CREDIT_SOURCE, rg_sourceId = ''c'',
     rg_entryDate = ''2026-01-31'', rg_baseCurrency = ''ILS'', rg_snapshots = (\<lambda>_. Some sample_snapshot),
     rg_postingAccountCode = Some ''1010'', rg_branchId = None, rg_lines = kp_entryLines sample_surplus, rg_businessTransactionId = ''x''\<rparr>"

theorem receivable_postings_accepted_witness:
  "\<exists>c. receivablePostingCommand sample_receivable = Inr c \<and> validatePostingCommand c = Inr ()"
proof -
  have "planCustomerCreditCreation 400 lira = Inr sample_surplus" by code_simp
  then have s: "receives (\<lambda>_. lira) (rg_lines sample_receivable)"
    by (simp add: sample_receivable_def receives.surplus)
  have "isSupportedCurrency ''ILS''" by code_simp
  then have b: "receivable_bound sample_receivable (\<lambda>_. lira)"
    using sample_fits by (simp add: receivable_bound_def sample_receivable_def)
  have "list_all (receivable_taken sample_receivable) (rg_lines sample_receivable)" by code_simp
  with receivable_postings_accepted [OF s b] show ?thesis by blast
qed

text \<open>C37: A supplier return reaches the ledger whole or not at all: when the base currency is registered and the snapshot,
  the purchase's own, states a rate and the exponents of the two currencies, the command of an accepted return is of its
  domain's source type and passes the engine's validation exactly when its price variance is within the money cap, the one
  amount the plan does not bound, and the source of the purchase's rate is one the engine admits for its lines.\<close>

theorem return_posting_accepted:
  assumes "planSupplierReturn (purchaseConversion i) x = Inr p" "ru_lines i = srp_entryLines p"
    "isSupportedCurrency (ru_baseCurrency i)" "states_rate (ru_baseCurrency i) (purchaseSnapshot i) c" "conversion_ok c"
  shows "isDomainSourceType (pc_sourceType (supplierReturnPostingCommand i))
    \<and> (validatePostingCommand (supplierReturnPostingCommand i) = Inr () \<longleftrightarrow> \<bar>ra_ppvMinor (srp_amounts p)\<bar> \<le> MAX_MONEY_MINOR
          \<and> list_all (return_source_admitted i) (ru_lines i))"
  using return_posting [OF assms] by (simp add: supplierReturnPostingCommand_def isDomainSourceType_def DOMAIN_SOURCE_TYPES_def SUPPLIER_RETURN_SOURCE_def)

definition sample_return_posting :: SupplierReturnPostingInput where
  "sample_return_posting = \<lparr>ru_tenantId = ''t'', ru_businessId = ''b'', ru_returnId = ''r'', ru_documentDate = ''2026-01-31'',
     ru_currency = ''USD'', ru_baseCurrency = ''ILS'', ru_fx = \<lparr>xf_rate = ''3.5000000000'', xf_source = ''manual'', xf_at = Some 0\<rparr>,
     ru_purchaseBranchId = ''a'', ru_returnWarehouseId = ''w'', ru_returnBranchId = ''a'', ru_lines = srp_entryLines sample_return_plan,
     ru_businessTransactionId = ''x''\<rparr>"

theorem return_posting_accepted_witness:
  "validatePostingCommand (supplierReturnPostingCommand sample_return_posting) = Inr ()"
proof -
  have p: "planSupplierReturn (purchaseConversion sample_return_posting) sample_return = Inr sample_return_plan" by code_simp
  have f: "states_rate (ru_baseCurrency sample_return_posting) (purchaseSnapshot sample_return_posting) lira"
    using sample_fits by (simp add: sample_return_posting_def purchaseSnapshot_def sample_snapshot_def)
  have o: "isSupportedCurrency (ru_baseCurrency sample_return_posting)" "conversion_ok lira"
    "\<bar>ra_ppvMinor (srp_amounts sample_return_plan)\<bar> \<le> MAX_MONEY_MINOR"
    "list_all (return_source_admitted sample_return_posting) (ru_lines sample_return_posting)" by code_simp+
  have "ru_lines sample_return_posting = srp_entryLines sample_return_plan" by (simp add: sample_return_posting_def)
  from return_posting_accepted [OF p this o(1) f o(2)] o(3,4) show ?thesis by blast
qed

text \<open>A stock document posts the value it moved and nothing else: an adjustment or a catch-up posts exactly when its
  net value is not zero, an opening exactly when some share is positive, and the entry moves the inventory account by
  that value and is accepted by the engine exactly when the value is within the money cap.\<close>

theorem stock_postings_move_value:
  assumes "isSupportedCurrency (pb_baseCurrency b)" "isSupportedCurrency (cu_baseCurrency i)"
  shows "(case adjustmentPostingCommand b w r v of None \<Rightarrow> v = 0
       | Some c \<Rightarrow> v \<noteq> 0 \<and> inventoryMovement c = v \<and> (validatePostingCommand c = Inr () \<longleftrightarrow> \<bar>v\<bar> \<le> MAX_MONEY_MINOR))
    \<and> (case catchUpPostingCommand i of None \<Rightarrow> cu_netValueMinor i = 0
       | Some c \<Rightarrow> inventoryMovement c = cu_netValueMinor i \<and> pc_sourceType c = CATCH_UP_SOURCE
           \<and> (validatePostingCommand c = Inr () \<longleftrightarrow> \<bar>cu_netValueMinor i\<bar> \<le> MAX_MONEY_MINOR))
    \<and> (case openingPostingCommand b ws of None \<Rightarrow> openingValue ws = 0
       | Some c \<Rightarrow> inventoryMovement c = openingValue ws \<and> (validatePostingCommand c = Inr () \<longleftrightarrow> openingValue ws \<le> MAX_MONEY_MINOR))"
proof (intro conjI)
  have n: "adjustmentPostingCommand b w r v = None \<longleftrightarrow> v = 0" for b w r v
    by (simp add: adjustmentPostingCommand_def Let_def)
  show "case adjustmentPostingCommand b w r v of None \<Rightarrow> v = 0
       | Some c \<Rightarrow> v \<noteq> 0 \<and> inventoryMovement c = v \<and> (validatePostingCommand c = Inr () \<longleftrightarrow> \<bar>v\<bar> \<le> MAX_MONEY_MINOR)"
    using n [of b w r v] adjustment_posting [OF assms(1)] by (auto split: option.splits)
  show "case catchUpPostingCommand i of None \<Rightarrow> cu_netValueMinor i = 0
       | Some c \<Rightarrow> inventoryMovement c = cu_netValueMinor i \<and> pc_sourceType c = CATCH_UP_SOURCE
           \<and> (validatePostingCommand c = Inr () \<longleftrightarrow> \<bar>cu_netValueMinor i\<bar> \<le> MAX_MONEY_MINOR)"
    using n catchUp_posting [OF assms(2)] by (auto simp: catchUpPostingCommand_def split: option.splits)
  show "case openingPostingCommand b ws of None \<Rightarrow> openingValue ws = 0
       | Some c \<Rightarrow> inventoryMovement c = openingValue ws \<and> (validatePostingCommand c = Inr () \<longleftrightarrow> openingValue ws \<le> MAX_MONEY_MINOR)"
  proof (cases "openingPostingCommand b ws")
    case None
    then show ?thesis by (simp add: openingPostingCommand_def Let_def foldl_plus_map openingValue_def split: if_splits)
  next
    case (Some c)
    then show ?thesis using opening_posting [OF assms(1) Some] by simp
  qed
qed

definition sample_base :: PostingBase where
  "sample_base = \<lparr>pb_tenantId = ''t'', pb_businessId = ''b'', pb_sourceId = ''d'', pb_occurredOn = ''2026-01-31'', pb_baseCurrency = ''ILS'',
     pb_businessTransactionId = ''x''\<rparr>"

definition sample_catch_up :: CatchUpPostingInput where
  "sample_catch_up = \<lparr>cu_tenantId = ''t'', cu_businessId = ''b'', cu_adjustmentId = ''d'', cu_documentDate = ''2026-01-31'',
     cu_baseCurrency = ''ILS'', cu_warehouseId = ''w'', cu_branchId = ''a'', cu_netValueMinor = 0, cu_businessTransactionId = ''x''\<rparr>"

theorem stock_postings_move_value_witness:
  "inventoryMovement (the (adjustmentPostingCommand sample_base ''w'' ''a'' (- 250))) = - 250"
proof -
  have s: "isSupportedCurrency (pb_baseCurrency sample_base)" "isSupportedCurrency (cu_baseCurrency sample_catch_up)" by code_simp+
  have "adjustmentPostingCommand sample_base ''w'' ''a'' (- 250) \<noteq> None" by (simp add: adjustmentPostingCommand_def Let_def)
  then obtain c where "adjustmentPostingCommand sample_base ''w'' ''a'' (- 250) = Some c" by blast
  with stock_postings_move_value [OF s, where w = "''w''" and r = "''a''" and v = "- 250" and ws = "[]"] show ?thesis by simp
qed

end
