(* ===== verification/Receivables_Payloads.thy ===== *)
theory Receivables_Payloads
  imports Payload_Builders Customer_Settlement
begin

text \<open>
  apps/api/src/modules/receivables/receivables-payload.ts: the payloads and the request-only intents of a
  collected customer payment and of the application of a customer credit. The builders stand outside the
  inventory package, with an intent field list of their own beside the registry's; the lemmas show that the
  two agree, and what the checks before the signature accept.
\<close>

subsection \<open>The code\<close>

definition CUSTOMER_COLLECT_PAYMENT_OP :: string where "CUSTOMER_COLLECT_PAYMENT_OP = ''customer.collect_payment''"
definition CUSTOMER_APPLY_CREDIT_OP :: string where "CUSTOMER_APPLY_CREDIT_OP = ''customer.apply_credit''"

definition PAYMENT_MAX_ALLOCATIONS :: nat where "PAYMENT_MAX_ALLOCATIONS = 50"
definition RECEIVABLES_REFERENCE_MAX :: nat where "RECEIVABLES_REFERENCE_MAX = 100"

definition receivablesOperationCode :: "string \<Rightarrow> string result" where
  "receivablesOperationCode code = (case find (\<lambda>c. c = code) INVENTORY_OPERATION_CODES of
       None \<Rightarrow> refuse (AppError ''customer_payment.registry_incomplete'')
     | Some registered \<Rightarrow> Inr registered)"

abbreviation receivables_invalid :: "'a result" where
  "receivables_invalid \<equiv> refuse (AppError ''customer_payment.allocations_invalid'')"

definition rcv_uuid :: "string \<Rightarrow> InventoryPayloadField result" where
  "rcv_uuid value = (if \<not> is_uuid value then receivables_invalid else Inr (F_uuid value))"

definition rcv_code :: "string \<Rightarrow> InventoryPayloadField" where
  "rcv_code currency = F_code (toLowerCase currency)"

definition rcv_nullable :: "string option \<Rightarrow> InventoryPayloadField result" where
  "rcv_nullable value = (case value of None \<Rightarrow> Inr F_null | Some v \<Rightarrow> rcv_uuid v)"

definition rcv_referenceWords :: "(octets \<Rightarrow> octets) \<Rightarrow> utf16 option \<Rightarrow> InventoryPayloadField list result" where
  "rcv_referenceWords digest reference = wordFields digest reference 1 RECEIVABLES_REFERENCE_MAX"

datatype ReceivableRateSource = Source_base | Source_manual | Source_provider

fun receivableSourceText :: "ReceivableRateSource \<Rightarrow> string" where
  "receivableSourceText Source_base = ''base''"
| "receivableSourceText Source_manual = ''manual''"
| "receivableSourceText Source_provider = ''provider''"

record ReceivableRateFields =
  rv_rateId :: "string option"
  rv_rateR10 :: int
  rv_source :: ReceivableRateSource
  rv_rateAtEpochSeconds :: int

definition rcv_rateFields :: "ReceivableRateFields \<Rightarrow> InventoryPayloadField list result" where
  "rcv_rateFields rate =
     (if (if rv_source rate = Source_base then rv_rateR10 rate \<noteq> 10000000000 \<or> rv_rateId rate \<noteq> None
          else rv_rateR10 rate \<le> 0 \<or> rv_rateId rate = None) then receivables_invalid
      else fieldList [one (rcv_nullable (rv_rateId rate)), ints [rv_rateR10 rate],
             Inr [F_code (receivableSourceText (rv_source rate))], ints [rv_rateAtEpochSeconds rate]])"

subsection \<open>Collected payments\<close>

record CollectPaymentIntentAllocation =
  cl_allocationId :: string
  cl_invoiceId :: string
  cl_paymentAmountMinor :: int
  cl_appliedMinor :: int

record 'l CollectPaymentIntentInput =
  cp_tenantId :: string
  cp_businessId :: string
  cp_paymentId :: string
  cp_customerId :: string
  cp_paymentMethodId :: string
  cp_paymentDate :: string
  cp_currency :: string
  cp_amountMinor :: int
  cp_reference :: "utf16 option"
  cp_creditId :: "string option"
  cp_allocations :: "'l list"

fun collectTotal :: "int \<Rightarrow> 'a CollectPaymentIntentAllocation_scheme list \<Rightarrow> int result" where
  "collectTotal tot [] = Inr tot"
| "collectTotal tot (x # xs) =
     (if cl_paymentAmountMinor x \<le> 0 then receivables_invalid
      else if cl_appliedMinor x \<le> 0 then receivables_invalid
      else collectTotal (tot + cl_paymentAmountMinor x) xs)"

definition rcv_assertAllocations :: "('l CollectPaymentIntentAllocation_scheme, 'a) CollectPaymentIntentInput_scheme \<Rightarrow> unit result" where
  "rcv_assertAllocations i =
     (let a = cp_allocations i in
      if PAYMENT_MAX_ALLOCATIONS < length a then receivables_invalid
      else if \<not> distinct (map cl_allocationId a) \<or> \<not> distinct (map cl_invoiceId a) then receivables_invalid
      else if cp_amountMinor i \<le> 0 then receivables_invalid
      else bindR (collectTotal 0 a) (\<lambda>tot.
        if cp_amountMinor i < tot then receivables_invalid
        else if (tot < cp_amountMinor i) \<noteq> (cp_creditId i \<noteq> None) then receivables_invalid
        else Inr ()))"

definition surplusMinor :: "('l CollectPaymentIntentAllocation_scheme, 'a) CollectPaymentIntentInput_scheme \<Rightarrow> int option" where
  "surplusMinor i = (case cp_creditId i of None \<Rightarrow> None
     | Some c \<Rightarrow> Some (cp_amountMinor i - foldl (\<lambda>allocated a. allocated + cl_paymentAmountMinor a) 0 (cp_allocations i)))"

definition collectIntentAllocation :: "'l CollectPaymentIntentAllocation_scheme \<Rightarrow> InventoryPayloadField list result" where
  "collectIntentAllocation a = fieldList [one (rcv_uuid (cl_allocationId a)), one (rcv_uuid (cl_invoiceId a)),
     ints [cl_paymentAmountMinor a, cl_appliedMinor a]]"

definition collectIntentFields ::
  "(octets \<Rightarrow> octets) \<Rightarrow> ('l CollectPaymentIntentAllocation_scheme, 'a) CollectPaymentIntentInput_scheme \<Rightarrow> InventoryPayloadField list result" where
  "collectIntentFields digest i = bindR (rcv_assertAllocations i) (\<lambda>_. fieldList (
     [one (rcv_uuid (cp_paymentId i)), one (rcv_uuid (cp_customerId i)), one (rcv_uuid (cp_paymentMethodId i)),
      one (dateField (cp_paymentDate i)), Inr [rcv_code (cp_currency i)], ints [cp_amountMinor i],
      rcv_referenceWords digest (cp_reference i), one (rcv_nullable (cp_creditId i)), Inr [intOrNull (surplusMinor i)],
      ints [int (length (cp_allocations i))]]
     @ map collectIntentAllocation (cp_allocations i)))"

definition customerCollectPaymentIntentSha256 ::
  "(string \<Rightarrow> string) \<Rightarrow> (octets \<Rightarrow> octets) \<Rightarrow> ('l CollectPaymentIntentAllocation_scheme, 'a) CollectPaymentIntentInput_scheme \<Rightarrow> string result" where
  "customerCollectPaymentIntentSha256 sha digest i =
     bindR (receivablesOperationCode CUSTOMER_COLLECT_PAYMENT_OP) (\<lambda>op.
     bindR (collectIntentFields digest i) (inventoryIntentSha256 sha op (cp_tenantId i) (cp_businessId i)))"

record CollectPaymentPayloadAllocation = CollectPaymentIntentAllocation +
  cl_invoiceCurrency :: string
  cl_paymentBaseMinor :: int
  cl_arReleasedBeforeMinor :: int
  cl_carryingReleasedMinor :: int
  cl_arDustBaseMinor :: int
  cl_realizedFxMinor :: int

text \<open>The credit is \<open>(originalAmountMinor, originalCarryingBaseMinor)\<close>.\<close>

record CollectPaymentPayloadInput = "CollectPaymentPayloadAllocation CollectPaymentIntentInput" +
  cp_postingAccountId :: string
  cp_rate :: ReceivableRateFields
  cp_baseAmountMinor :: int
  cp_credit :: "(int \<times> int) option"

fun collectBaseTotal :: "string \<Rightarrow> int \<Rightarrow> CollectPaymentPayloadAllocation list \<Rightarrow> int result" where
  "collectBaseTotal currency tot [] = Inr tot"
| "collectBaseTotal currency tot (a # as) =
     (if cl_realizedFxMinor a \<noteq> cl_paymentBaseMinor a - cl_carryingReleasedMinor a then receivables_invalid
      else if toUpperCase (cl_invoiceCurrency a) = toUpperCase currency \<and> cl_paymentAmountMinor a \<noteq> cl_appliedMinor a then receivables_invalid
      else collectBaseTotal currency (tot + cl_paymentBaseMinor a) as)"

definition checkCollect :: "CollectPaymentPayloadInput \<Rightarrow> unit result" where
  "checkCollect i =
     bindR (collectBaseTotal (cp_currency i) 0 (cp_allocations i)) (\<lambda>tot.
       let baseTotal = (case cp_credit i of None \<Rightarrow> tot | Some c \<Rightarrow> tot + snd c) in
       if cp_baseAmountMinor i \<noteq> baseTotal then receivables_invalid
       else if (cp_credit i = None) \<noteq> (cp_creditId i = None) then receivables_invalid
       else if (case cp_credit i of None \<Rightarrow> False | Some c \<Rightarrow> surplusMinor i \<noteq> Some (fst c)) then receivables_invalid
       else Inr ())"

definition collectAllocationFields :: "CollectPaymentPayloadAllocation \<Rightarrow> InventoryPayloadField list result" where
  "collectAllocationFields a = fieldList [one (rcv_uuid (cl_allocationId a)), one (rcv_uuid (cl_invoiceId a)),
     Inr [rcv_code (cl_invoiceCurrency a)],
     ints [cl_paymentAmountMinor a, cl_paymentBaseMinor a, cl_appliedMinor a, cl_arReleasedBeforeMinor a, cl_carryingReleasedMinor a,
           cl_arDustBaseMinor a, cl_realizedFxMinor a]]"

definition collectFields :: "(octets \<Rightarrow> octets) \<Rightarrow> CollectPaymentPayloadInput \<Rightarrow> InventoryPayloadField list result" where
  "collectFields digest i = fieldList (
     [one (rcv_uuid (cp_paymentId i)), one (rcv_uuid (cp_customerId i)), one (rcv_uuid (cp_paymentMethodId i)),
      one (rcv_uuid (cp_postingAccountId i)), one (dateField (cp_paymentDate i)), Inr [rcv_code (cp_currency i)],
      ints [cp_amountMinor i], rcv_rateFields (cp_rate i), ints [cp_baseAmountMinor i], rcv_referenceWords digest (cp_reference i),
      one (rcv_nullable (cp_creditId i)), Inr [intOrNull (map_option fst (cp_credit i)), intOrNull (map_option snd (cp_credit i))],
      ints [int (length (cp_allocations i))]]
     @ map collectAllocationFields (cp_allocations i))"

definition customerCollectPaymentPayload ::
  "(string \<Rightarrow> string) \<Rightarrow> (octets \<Rightarrow> octets) \<Rightarrow> CollectPaymentPayloadInput \<Rightarrow> MovementPayload result" where
  "customerCollectPaymentPayload sha digest i =
     bindR (customerCollectPaymentIntentSha256 sha digest i) (\<lambda>intent.
     bindR (checkCollect i) (\<lambda>_.
     bindR (collectFields digest i) (\<lambda>fs.
     bindR (receivablesOperationCode CUSTOMER_COLLECT_PAYMENT_OP) (\<lambda>op.
     bindR (buildInventoryPayload sha op (cp_tenantId i) (cp_businessId i) fs) (\<lambda>payload.
       Inr \<lparr>mp_payload = payload, mp_intentSha256 = intent\<rparr>)))))"

subsection \<open>Applied credits\<close>

record ApplyCreditIntentInput =
  ay_tenantId :: string
  ay_businessId :: string
  ay_applicationId :: string
  ay_creditId :: string
  ay_invoiceId :: string
  ay_applicationDate :: string
  ay_consumedMinor :: int
  ay_appliedMinor :: int

definition applyIntentFields :: "'a ApplyCreditIntentInput_scheme \<Rightarrow> InventoryPayloadField list result" where
  "applyIntentFields i =
     (if ay_consumedMinor i \<le> 0 then receivables_invalid
      else if ay_appliedMinor i \<le> 0 then receivables_invalid
      else fieldList [one (rcv_uuid (ay_applicationId i)), one (rcv_uuid (ay_creditId i)), one (rcv_uuid (ay_invoiceId i)),
             one (dateField (ay_applicationDate i)), ints [ay_consumedMinor i, ay_appliedMinor i]])"

definition customerApplyCreditIntentSha256 :: "(string \<Rightarrow> string) \<Rightarrow> 'a ApplyCreditIntentInput_scheme \<Rightarrow> string result" where
  "customerApplyCreditIntentSha256 sha i =
     bindR (receivablesOperationCode CUSTOMER_APPLY_CREDIT_OP) (\<lambda>op.
     bindR (applyIntentFields i) (inventoryIntentSha256 sha op (ay_tenantId i) (ay_businessId i)))"

record ApplyCreditPayloadInput = ApplyCreditIntentInput +
  ay_creditCurrency :: string
  ay_creditRemainingBeforeMinor :: int
  ay_creditCarryingReleasedMinor :: int
  ay_creditDustBaseMinor :: int
  ay_invoiceCurrency :: string
  ay_arReleasedBeforeMinor :: int
  ay_carryingReleasedMinor :: int
  ay_arDustBaseMinor :: int
  ay_realizedFxMinor :: int

definition checkApply :: "ApplyCreditPayloadInput \<Rightarrow> unit result" where
  "checkApply i =
     (if ay_realizedFxMinor i \<noteq> ay_creditCarryingReleasedMinor i - ay_carryingReleasedMinor i then receivables_invalid
      else if toUpperCase (ay_creditCurrency i) = toUpperCase (ay_invoiceCurrency i) \<and> ay_consumedMinor i \<noteq> ay_appliedMinor i
        then receivables_invalid
      else if ay_creditRemainingBeforeMinor i < ay_consumedMinor i then receivables_invalid
      else Inr ())"

definition applyFields :: "ApplyCreditPayloadInput \<Rightarrow> InventoryPayloadField list result" where
  "applyFields i = fieldList [one (rcv_uuid (ay_applicationId i)), one (rcv_uuid (ay_creditId i)), one (rcv_uuid (ay_invoiceId i)),
     one (dateField (ay_applicationDate i)), Inr [rcv_code (ay_creditCurrency i)],
     ints [ay_consumedMinor i, ay_creditRemainingBeforeMinor i, ay_creditCarryingReleasedMinor i, ay_creditDustBaseMinor i],
     Inr [rcv_code (ay_invoiceCurrency i)],
     ints [ay_appliedMinor i, ay_arReleasedBeforeMinor i, ay_carryingReleasedMinor i, ay_arDustBaseMinor i, ay_realizedFxMinor i]]"

definition customerApplyCreditPayload :: "(string \<Rightarrow> string) \<Rightarrow> ApplyCreditPayloadInput \<Rightarrow> MovementPayload result" where
  "customerApplyCreditPayload sha i =
     bindR (customerApplyCreditIntentSha256 sha i) (\<lambda>intent.
     bindR (checkApply i) (\<lambda>_.
     bindR (applyFields i) (\<lambda>fs.
     bindR (receivablesOperationCode CUSTOMER_APPLY_CREDIT_OP) (\<lambda>op.
     bindR (buildInventoryPayload sha op (ay_tenantId i) (ay_businessId i) fs) (\<lambda>payload.
       Inr \<lparr>mp_payload = payload, mp_intentSha256 = intent\<rparr>)))))"

subsection \<open>The intents against the registry\<close>

lemma operation_codes [simp]:
  "receivablesOperationCode CUSTOMER_COLLECT_PAYMENT_OP = Inr ''customer.collect_payment''"
  "receivablesOperationCode CUSTOMER_APPLY_CREDIT_OP = Inr ''customer.apply_credit''"
  by code_simp+

lemma receivables_flags:
  "kind_flags ''customer.collect_payment'' = Some ([True, True, True, False, True, True, True, False, False, False, False, False]
     @ replicate 8 True @ [True, True, False, True], Some (23, [True, True, False, True, False, True, False, False, False, False]))"
  "kind_flags ''customer.apply_credit'' = Some ([True, True, True, True, False, True, False, False, False, False, True,
     False, False, False, False], None)"
  by code_simp+


lemma collectTotal_eq_Inr: "collectTotal t as = Inr s \<longleftrightarrow>
    list_all (\<lambda>a. 0 < cl_paymentAmountMinor a \<and> 0 < cl_appliedMinor a) as \<and> s = t + sum_list (map cl_paymentAmountMinor as)"
proof (induction as arbitrary: t)
  case (Cons a as)
  show ?case using Cons [of "t + cl_paymentAmountMinor a"] by (simp add: not_le add.assoc)
qed (simp add: eq_commute)

lemma foldl_payments: "foldl (\<lambda>t a. t + cl_paymentAmountMinor a) s as = s + sum_list (map cl_paymentAmountMinor as)"
  by (induction as arbitrary: s) simp_all

text \<open>The checks of the client's figures.\<close>

lemma rcv_assertAllocations_eq_Inr:
  "rcv_assertAllocations i = Inr u \<longleftrightarrow> length (cp_allocations i) \<le> PAYMENT_MAX_ALLOCATIONS
     \<and> distinct (map cl_allocationId (cp_allocations i)) \<and> distinct (map cl_invoiceId (cp_allocations i)) \<and> 0 < cp_amountMinor i
     \<and> list_all (\<lambda>a. 0 < cl_paymentAmountMinor a \<and> 0 < cl_appliedMinor a) (cp_allocations i)
     \<and> sum_list (map cl_paymentAmountMinor (cp_allocations i)) \<le> cp_amountMinor i
     \<and> (sum_list (map cl_paymentAmountMinor (cp_allocations i)) < cp_amountMinor i \<longleftrightarrow> cp_creditId i \<noteq> None)"
  by (auto simp: rcv_assertAllocations_def Let_def bindR_eq_Inr if_refuse_eq_Inr collectTotal_eq_Inr not_le not_less)

lemma surplusMinor_eq:
  "surplusMinor i = (if cp_creditId i = None then None
     else Some (cp_amountMinor i - sum_list (map cl_paymentAmountMinor (cp_allocations i))))"
  by (simp add: surplusMinor_def foldl_payments split: option.split)

lemma collectBaseTotal_eq_Inr: "collectBaseTotal c t as = Inr s \<longleftrightarrow>
    list_all (\<lambda>a. cl_realizedFxMinor a = cl_paymentBaseMinor a - cl_carryingReleasedMinor a
      \<and> (toUpperCase (cl_invoiceCurrency a) = toUpperCase c \<longrightarrow> cl_paymentAmountMinor a = cl_appliedMinor a)) as
    \<and> s = t + sum_list (map cl_paymentBaseMinor as)"
proof (induction as arbitrary: t)
  case (Cons a as)
  show ?case using Cons [of "t + cl_paymentBaseMinor a"] by (simp add: add.assoc)
qed (simp add: eq_commute)

lemma checkCollect_eq_Inr:
  "checkCollect i = Inr u \<longleftrightarrow>
     list_all (\<lambda>a. cl_realizedFxMinor a = cl_paymentBaseMinor a - cl_carryingReleasedMinor a
       \<and> (toUpperCase (cl_invoiceCurrency a) = toUpperCase (cp_currency i) \<longrightarrow> cl_paymentAmountMinor a = cl_appliedMinor a)) (cp_allocations i)
     \<and> cp_baseAmountMinor i = sum_list (map cl_paymentBaseMinor (cp_allocations i)) + (case cp_credit i of None \<Rightarrow> 0 | Some c \<Rightarrow> snd c)
     \<and> (cp_credit i = None \<longleftrightarrow> cp_creditId i = None)
     \<and> (\<forall>c. cp_credit i = Some c \<longrightarrow> fst c = cp_amountMinor i - sum_list (map cl_paymentAmountMinor (cp_allocations i)))"
  by (cases "cp_credit i")
    (auto simp: checkCollect_def Let_def bindR_eq_Inr if_refuse_eq_Inr collectBaseTotal_eq_Inr surplusMinor_eq)

text \<open>The signed surplus is the surplus of the intent.\<close>

lemma surplus_signed: "checkCollect i = Inr u \<Longrightarrow> surplusMinor i = map_option fst (cp_credit i)"
  by (cases "cp_credit i") (auto simp: checkCollect_eq_Inr surplusMinor_eq)

lemma collect_coherent:
  assumes "customerCollectPaymentPayload sha digest i = Inr m"
  shows "coherent sha ''customer.collect_payment'' (cp_tenantId i) (cp_businessId i) m"
proof -
  let ?build = "buildInventoryPayload sha ''customer.collect_payment'' (cp_tenantId i) (cp_businessId i)"
  let ?lf = "[True, True, False, True, False, True, False, False, False, False]"
  from assms obtain fs gs where f: "collectFields digest i = Inr fs" and g: "collectIntentFields digest i = Inr gs"
    and b: "?build fs = Inr (mp_payload m)" and c: "checkCollect i = Inr ()"
    and h: "inventoryIntentSha256 sha ''customer.collect_payment'' (cp_tenantId i) (cp_businessId i) gs = Inr (mp_intentSha256 m)"
    by (auto simp: customerCollectPaymentPayload_def customerCollectPaymentIntentSha256_def result_simps)
  from f obtain ws ls where w: "wordFields digest (cp_reference i) 1 RECEIVABLES_REFERENCE_MAX = Inr ws"
    and l: "mapR collectAllocationFields (cp_allocations i) = Inr ls"
    by (auto simp: collectFields_def rcv_referenceWords_def fieldList_append fieldList_map field_simps)
  from wordFields_8 [OF w] obtain w1 w2 w3 w4 w5 w6 w7 w8 where ws: "ws = [w1, w2, w3, w4, w5, w6, w7, w8]" by blast
  have ls: "mapR collectIntentAllocation (cp_allocations i) = Inr (map (pick ?lf) ls)
      \<and> (\<forall>l \<in> set ls. length l = 10) \<and> length ls = length (cp_allocations i)"
    by (rule mapR_lines [OF l]) (auto simp: collectAllocationFields_def collectIntentAllocation_def field_simps)
  from f obtain hs where fs: "fs = hs @ concat ls" "length hs = 24" "hs ! 23 = int_field (int (length (cp_allocations i)))"
    and gs: "gs = pick ([True, True, True, False, True, True, True, False, False, False, False, False] @ replicate 8 True
        @ [True, True, False, True]) hs @ concat (map (pick ?lf) ls)"
    using g ls surplus_signed [OF c]
    by (auto simp: collectFields_def collectIntentFields_def rcv_rateFields_def rcv_referenceWords_def fieldList_append fieldList_map l
        w [unfolded One_nat_def] w ws numeral_eq_Suc result_simps field_simps)
  have "intentFields ''customer.collect_payment'' fs = gs"
    using kind_group [OF receivables_flags(1) b [unfolded fs(1)]] fs ls by (simp add: gs)
  from coherentI [OF b this h] show ?thesis .
qed

lemma apply_coherent:
  assumes "customerApplyCreditPayload sha i = Inr m"
  shows "coherent sha ''customer.apply_credit'' (ay_tenantId i) (ay_businessId i) m"
proof -
  let ?build = "buildInventoryPayload sha ''customer.apply_credit'' (ay_tenantId i) (ay_businessId i)"
  from assms obtain fs gs where f: "applyFields i = Inr fs" and g: "applyIntentFields i = Inr gs" and b: "?build fs = Inr (mp_payload m)"
    and h: "inventoryIntentSha256 sha ''customer.apply_credit'' (ay_tenantId i) (ay_businessId i) gs = Inr (mp_intentSha256 m)"
    by (auto simp: customerApplyCreditPayload_def customerApplyCreditIntentSha256_def result_simps)
  have "intentFields ''customer.apply_credit'' fs = gs"
    unfolding kind_header [OF receivables_flags(2) b] using f g
    by (auto simp: applyFields_def applyIntentFields_def result_simps field_simps)
  from coherentI [OF b this h] show ?thesis .
qed

subsection \<open>Properties\<close>

text \<open>C38: The two receivables builders, which stand outside the package with an intent list of their own, agree with the
  registry: an accepted collected payment or applied credit is a registered stream, and its intent digest is the digest of
  that stream with the derived lines struck out; the surplus the intent derives is the credit amount the payload signs.\<close>

theorem receivable_intents_registered:
  "(customerCollectPaymentPayload sha digest i = Inr m
      \<longrightarrow> coherent sha ''customer.collect_payment'' (cp_tenantId i) (cp_businessId i) m \<and> surplusMinor i = map_option fst (cp_credit i))
    \<and> (customerApplyCreditPayload sha j = Inr m \<longrightarrow> coherent sha ''customer.apply_credit'' (ay_tenantId j) (ay_businessId j) m)"
proof (intro conjI impI)
  assume c: "customerCollectPaymentPayload sha digest i = Inr m"
  show "coherent sha ''customer.collect_payment'' (cp_tenantId i) (cp_businessId i) m" by (rule collect_coherent [OF c])
  from c have "checkCollect i = Inr ()" by (auto simp: customerCollectPaymentPayload_def bindR_eq_Inr)
  then show "surplusMinor i = map_option fst (cp_credit i)" by (rule surplus_signed)
next
  assume "customerApplyCreditPayload sha j = Inr m"
  then show "coherent sha ''customer.apply_credit'' (ay_tenantId j) (ay_businessId j) m" by (rule apply_coherent)
qed

definition sample_collect :: CollectPaymentPayloadInput where
  "sample_collect = \<lparr>cp_tenantId = sample_uuid, cp_businessId = sample_uuid, cp_paymentId = sample_uuid, cp_customerId = sample_uuid,
     cp_paymentMethodId = sample_uuid, cp_paymentDate = ''2026-01-31'', cp_currency = ''ILS'', cp_amountMinor = 4000, cp_reference = None,
     cp_creditId = Some sample_uuid,
     cp_allocations = [\<lparr>cl_allocationId = sample_uuid, cl_invoiceId = sample_uuid, cl_paymentAmountMinor = 3600, cl_appliedMinor = 1000,
       cl_invoiceCurrency = ''USD'', cl_paymentBaseMinor = 3600, cl_arReleasedBeforeMinor = 0, cl_carryingReleasedMinor = 3500,
       cl_arDustBaseMinor = 0, cl_realizedFxMinor = 100\<rparr>],
     cp_postingAccountId = sample_uuid,
     cp_rate = \<lparr>rv_rateId = None, rv_rateR10 = 10000000000, rv_source = Source_base, rv_rateAtEpochSeconds = 0\<rparr>,
     cp_baseAmountMinor = 4000, cp_credit = Some (400, 400)\<rparr>"

theorem receivable_intents_registered_witness:
  "\<exists>m. customerCollectPaymentPayload (\<lambda>s. s) (\<lambda>b. b) sample_collect = Inr m
    \<and> coherent (\<lambda>s. s) ''customer.collect_payment'' sample_uuid sample_uuid m \<and> surplusMinor sample_collect = Some 400"
proof -
  have "\<not> isl (customerCollectPaymentPayload (\<lambda>s. s) (\<lambda>b. b) sample_collect)" by code_simp
  then obtain m where m: "customerCollectPaymentPayload (\<lambda>s. s) (\<lambda>b. b) sample_collect = Inr m"
    by (cases "customerCollectPaymentPayload (\<lambda>s. s) (\<lambda>b. b) sample_collect") auto
  with receivable_intents_registered [where sha = "\<lambda>s. s" and digest = "\<lambda>b. b" and i = sample_collect and m = m] show ?thesis by (auto simp: sample_collect_def)
qed

end
