(* ===== verification/Command_Authority.thy ===== *)
theory Command_Authority
  imports Reports_Service Assertions
begin

text \<open>
  apps/api/src/modules/inventory: inventory-authorization.ts (who may give which command: the permission
  of its kind, the scope over every affected warehouse, and only then a signature over the exact payload),
  inventory-assertion.minter.ts (the configured key) and read-scope.ts (the same scope for reads). The
  warehouse query runs over the tables \<open>branches\<close> and \<open>branch_warehouses\<close>, given as their rows.
\<close>

subsection \<open>The registry of authorities\<close>

datatype AuthorityScope = Over_warehouses | Business_wide

definition OPERATION_AUTHORITY :: "(string \<times> (string \<times> AuthorityScope)) list" where
  "OPERATION_AUTHORITY = [
    (''inventory.configure_product'', ''inventory.adjust'', Over_warehouses),
    (''structure.associate_warehouse_branch'', ''warehouse.manage'', Business_wide),
    (''structure.dissociate_warehouse_branch'', ''warehouse.manage'', Business_wide),
    (''inventory.transfer'', ''inventory.transfer'', Over_warehouses),
    (''inventory.adjust'', ''inventory.adjust'', Over_warehouses),
    (''inventory.damage'', ''inventory.adjust'', Over_warehouses),
    (''inventory.stocktake_open'', ''inventory.stocktake'', Over_warehouses),
    (''inventory.stocktake_count'', ''inventory.stocktake'', Over_warehouses),
    (''inventory.stocktake_finalize'', ''inventory.stocktake'', Over_warehouses),
    (''inventory.opening'', ''inventory.adjust'', Business_wide),
    (''supplier.create'', ''suppliers.manage'', Over_warehouses),
    (''supplier.update'', ''suppliers.manage'', Over_warehouses),
    (''supplier.archive'', ''suppliers.manage'', Over_warehouses),
    (''supplier.reactivate'', ''suppliers.manage'', Over_warehouses),
    (''purchase.draft'', ''purchases.manage'', Over_warehouses),
    (''purchase.cancel'', ''purchases.manage'', Over_warehouses),
    (''purchase.receive'', ''purchases.receive'', Over_warehouses),
    (''purchase.return'', ''purchases.return'', Over_warehouses),
    (''purchase.reverse'', ''purchases.receive'', Over_warehouses),
    (''payment.create_method'', ''accounting.chart.manage'', Over_warehouses),
    (''payment.update_method'', ''accounting.chart.manage'', Over_warehouses),
    (''payment.deactivate_method'', ''accounting.chart.manage'', Over_warehouses),
    (''payment.activate_method'', ''accounting.chart.manage'', Over_warehouses),
    (''supplier.pay'', ''suppliers.pay'', Over_warehouses),
    (''supplier.allocate_credit'', ''suppliers.pay'', Business_wide),
    (''supplier.receive_refund'', ''suppliers.pay'', Business_wide),
    (''purchase.write_off_residue'', ''suppliers.pay'', Business_wide),
    (''customer.create'', ''customers.manage'', Over_warehouses),
    (''customer.update'', ''customers.manage'', Over_warehouses),
    (''customer.archive'', ''customers.manage'', Over_warehouses),
    (''customer.reactivate'', ''customers.manage'', Over_warehouses),
    (''sale.commit'', ''sales.create'', Over_warehouses),
    (''pos.session_open'', ''sales.create'', Over_warehouses),
    (''pos.session_close'', ''sales.create'', Over_warehouses),
    (''pos.cart_set_line'', ''sales.create'', Over_warehouses),
    (''pos.cart_remove_line'', ''sales.create'', Over_warehouses),
    (''customer.collect_payment'', ''payments.collect'', Over_warehouses),
    (''customer.apply_credit'', ''payments.collect'', Over_warehouses)]"

subsection \<open>The scope of a member\<close>

record BranchRow =
  br_businessId :: string
  br_id :: string
  br_status :: string

record BranchWarehouseRow =
  bw_businessId :: string
  bw_branchId :: string
  bw_warehouseId :: string

record StructureTables =
  st_branches :: "BranchRow list"
  st_branchWarehouses :: "BranchWarehouseRow list"

text \<open>The join with the active branches of the business.\<close>

definition activeAssociations :: "StructureTables \<Rightarrow> string \<Rightarrow> string list \<Rightarrow> BranchWarehouseRow list" where
  "activeAssociations t business branches =
     filter (\<lambda>bw. bw_businessId bw = business \<and> bw_branchId bw \<in> set branches
       \<and> list_ex (\<lambda>b. br_businessId b = bw_businessId bw \<and> br_id b = bw_branchId bw \<and> br_status b = ''active'') (st_branches t))
       (st_branchWarehouses t)"

definition assertWarehousesInScope :: "StructureTables \<Rightarrow> MembershipContext \<Rightarrow> string list \<Rightarrow> unit result" where
  "assertWarehousesInScope t m warehouseIds =
     (let reachable = (if mc_allowedBranchIds m = [] then {}
            else set (map bw_warehouseId (filter (\<lambda>bw. bw_warehouseId bw \<in> set warehouseIds)
                   (activeAssociations t (mc_businessId m) (mc_allowedBranchIds m)))))
      in if list_ex (\<lambda>i. i \<notin> reachable) warehouseIds then refuse (AppError ''FORBIDDEN'') else Inr ())"

record BusinessScope =
  bs_tenantId :: string
  bs_businessId :: string
  bs_actorUserId :: string
  bs_businessTransactionId :: string

record InventoryCommandAuthority =
  au_scope :: BusinessScope
  au_opCode :: string
  au_warehouseIds :: "string list"

text \<open>\<open>[...new Set(xs)]\<close>: every element once, where it came first.\<close>

definition distinctValues :: "'a list \<Rightarrow> 'a list" where
  "distinctValues xs = rev (remdups (rev xs))"

text \<open>The table has a row for every operation code, so the look-up of the source cannot fail.\<close>

definition commandAuthority ::
  "StructureTables \<Rightarrow> MembershipContext \<Rightarrow> string \<Rightarrow> string \<Rightarrow> string list \<Rightarrow> InventoryCommandAuthority result" where
  "commandAuthority t m opCode businessTransactionId warehouseIds = (case map_of OPERATION_AUTHORITY opCode of
       None \<Rightarrow> refuse Thrown_Error
     | Some (permission, scope) \<Rightarrow>
         if \<not> hasPermission (mc_roles m) permission then refuse (AppError ''FORBIDDEN'')
         else let affected = distinctValues warehouseIds
              in bindR (if scope = Business_wide
                          then (if mc_branchScopeMode m \<noteq> Scope_all then refuse (AppError ''FORBIDDEN'') else Inr ())
                        else if mc_branchScopeMode m = Scope_assigned \<and> 0 < length affected
                          then assertWarehousesInScope t m affected
                        else Inr ()) (\<lambda>_.
                 Inr \<lparr>au_scope = \<lparr>bs_tenantId = mc_tenantId m, bs_businessId = mc_businessId m, bs_actorUserId = mc_userId m,
                        bs_businessTransactionId = businessTransactionId\<rparr>,
                      au_opCode = opCode, au_warehouseIds = affected\<rparr>))"

text \<open>\<open>issued\<close> is the set of proofs the module returned; the source tells them apart by identity, here they are values.\<close>

type_synonym Issued = "InventoryCommandAuthority set"

definition authorizeCommand ::
  "Issued \<Rightarrow> StructureTables \<Rightarrow> MembershipContext \<Rightarrow> string \<Rightarrow> string \<Rightarrow> string list \<Rightarrow> (InventoryCommandAuthority \<times> Issued) result" where
  "authorizeCommand issued t m opCode businessTransactionId warehouseIds =
     bindR (commandAuthority t m opCode businessTransactionId warehouseIds) (\<lambda>authority. Inr (authority, insert authority issued))"

subsection \<open>Signing\<close>

text \<open>\<open>config\<close> states an inventory key and, when the process has them, the secrets of the two other domains.\<close>

record AppConfig =
  cf_INVENTORY_ASSERTION_KEY :: "string option"
  cf_INVENTORY_ASSERTION_KID :: "string option"
  cf_PROVISIONING_ASSERTION_KEY :: "string option"
  cf_ACCOUNTING_ASSERTION_KEY :: "string option"

text \<open>An absent text and the empty text are both false.\<close>

definition present :: "string option \<Rightarrow> string option" where
  "present v = (case v of None \<Rightarrow> None | Some t \<Rightarrow> if t = [] then None else Some t)"

definition sameSecret :: "(buffer \<Rightarrow> buffer) \<Rightarrow> (string \<Rightarrow> buffer) \<Rightarrow> buffer \<Rightarrow> string option \<Rightarrow> bool" where
  "sameSecret sha256 decode64 secret other = (case present other of None \<Rightarrow> False
     | Some k \<Rightarrow> hmacKeysEquivalent sha256 secret (decode64 k))"

definition configuredKey :: "(buffer \<Rightarrow> buffer) \<Rightarrow> (string \<Rightarrow> buffer) \<Rightarrow> AppConfig \<Rightarrow> InventoryAssertionKey option result" where
  "configuredKey sha256 decode64 config = (case present (cf_INVENTORY_ASSERTION_KEY config) of
       None \<Rightarrow> Inr None
     | Some k \<Rightarrow>
         bindR (parseInventoryAssertionKey decode64
                 (case cf_INVENTORY_ASSERTION_KID config of None \<Rightarrow> ''v1'' | Some kid \<Rightarrow> kid) k) (\<lambda>key.
         if sameSecret sha256 decode64 (ik_secret key) (cf_PROVISIONING_ASSERTION_KEY config) then refuse Thrown_Error
         else if sameSecret sha256 decode64 (ik_secret key) (cf_ACCOUNTING_ASSERTION_KEY config) then refuse Thrown_Error
         else Inr (Some key)))"

definition minterMint ::
  "(buffer \<Rightarrow> string \<Rightarrow> string) \<Rightarrow> string \<Rightarrow> instant \<Rightarrow> InventoryAssertionKey option \<Rightarrow> InventoryAssertionClaims \<Rightarrow> string result" where
  "minterMint hmac uuid now key claims = (case key of
       None \<Rightarrow> refuse Thrown_Error
     | Some k \<Rightarrow> mintInventoryAssertion hmac uuid (claims\<lparr>ia_jti := None\<rparr>) k now (Finite (of_int INVENTORY_ASSERTION_TTL_SECONDS)))"

definition mintCommand ::
  "(InventoryAssertionClaims \<Rightarrow> string result) \<Rightarrow> Issued \<Rightarrow> InventoryCommandAuthority \<Rightarrow> InventoryPayload \<Rightarrow> string result" where
  "mintCommand mint issued authority payload =
     (if authority \<notin> issued then refuse Thrown_Error
      else if ip_opCode payload \<noteq> au_opCode authority then refuse Thrown_Error
      else mint \<lparr>ia_actorUserId = bs_actorUserId (au_scope authority), ia_tenantId = bs_tenantId (au_scope authority),
             ia_businessId = bs_businessId (au_scope authority), ia_opCode = ip_opCode payload, ia_payloadSha256 = ip_sha256 payload,
             ia_jti = None\<rparr>)"

subsection \<open>Reads\<close>

definition reachableWarehouses :: "StructureTables \<Rightarrow> MembershipContext \<Rightarrow> string set option" where
  "reachableWarehouses t m =
     (if mc_branchScopeMode m = Scope_all then None
      else if mc_allowedBranchIds m = [] then Some {}
      else Some (set (map bw_warehouseId (activeAssociations t (mc_businessId m) (mc_allowedBranchIds m)))))"

definition assertBusinessWide :: "MembershipContext \<Rightarrow> unit result" where
  "assertBusinessWide m = (if mc_branchScopeMode m \<noteq> Scope_all then refuse (AppError ''FORBIDDEN'') else Inr ())"

definition requireAnyPermission :: "MembershipContext \<Rightarrow> string list \<Rightarrow> unit result" where
  "requireAnyPermission m permissions =
     (if \<not> list_ex (\<lambda>p. hasPermission (mc_roles m) p) permissions then refuse (AppError ''FORBIDDEN'') else Inr ())"

definition assertWarehouseReachable :: "string set option \<Rightarrow> string \<Rightarrow> unit result" where
  "assertWarehouseReachable reachable warehouseId = (case reachable of
       None \<Rightarrow> Inr ()
     | Some s \<Rightarrow> if warehouseId \<notin> s then refuse (AppError ''inventory.warehouse_out_of_scope'') else Inr ())"

subsection \<open>What an authority says\<close>

lemma authority_rows:
  "distinct (map fst OPERATION_AUTHORITY)" "set (map fst OPERATION_AUTHORITY) = set INVENTORY_OPERATION_CODES"
  "list_all (\<lambda>r. isPermission (fst (snd r)) \<and> drop (length (fst (snd r)) - 5) (fst (snd r)) \<noteq> ''.view'') OPERATION_AUTHORITY"
  by code_simp+

lemma authority_total: "(\<exists>r. map_of OPERATION_AUTHORITY op = Some r) \<longleftrightarrow> isInventoryOperationCode op"
  using authority_rows(2) map_of_eq_None_iff [of OPERATION_AUTHORITY op] by (auto simp: isInventoryOperationCode_def)

lemma set_distinctValues [simp]: "set (distinctValues xs) = set xs"
  by (simp add: distinctValues_def)

lemma distinctValues_empty [simp]: "distinctValues xs = [] \<longleftrightarrow> xs = []"
  by (simp add: distinctValues_def)

text \<open>A warehouse a member of assigned scope reaches: through an active branch of the set, in the member's business.\<close>

definition within_reach :: "StructureTables \<Rightarrow> MembershipContext \<Rightarrow> string \<Rightarrow> bool" where
  "within_reach t m w \<longleftrightarrow> (\<exists>bw \<in> set (st_branchWarehouses t). \<exists>b \<in> set (st_branches t). bw_warehouseId bw = w
     \<and> bw_businessId bw = mc_businessId m \<and> bw_branchId bw \<in> set (mc_allowedBranchIds m)
     \<and> br_businessId b = mc_businessId m \<and> br_id b = bw_branchId bw \<and> br_status b = ''active'')"

lemma active_reach: "(\<exists>bw \<in> set (activeAssociations t (mc_businessId m) (mc_allowedBranchIds m)). bw_warehouseId bw = w) \<longleftrightarrow> within_reach t m w"
  unfolding activeAssociations_def within_reach_def list_ex_iff Bex_def set_filter mem_Collect_eq
  by (intro arg_cong [where f = Ex] ext) auto

lemma assertWarehousesInScope_eq_Inr: "assertWarehousesInScope t m ws = Inr u \<longleftrightarrow> (\<forall>w \<in> set ws. within_reach t m w)"
proof -
  have "assertWarehousesInScope t m ws = Inr u \<longleftrightarrow> (\<forall>w \<in> set ws. w \<in> (if mc_allowedBranchIds m = [] then {}
      else set (map bw_warehouseId (filter (\<lambda>bw. bw_warehouseId bw \<in> set ws)
        (activeAssociations t (mc_businessId m) (mc_allowedBranchIds m))))))"
    unfolding assertWarehousesInScope_def Let_def list_ex_iff if_refuse_eq_Inr sum.inject by (cases u) blast
  also have "\<dots> \<longleftrightarrow> (\<forall>w \<in> set ws. within_reach t m w)"
    unfolding active_reach [symmetric] by (auto simp: activeAssociations_def)
  finally show ?thesis .
qed

lemma reachable_iff: "reachableWarehouses t m = Some s \<longleftrightarrow> mc_branchScopeMode m \<noteq> Scope_all \<and> s = {w. within_reach t m w}"
  unfolding reachableWarehouses_def active_reach [symmetric] by (auto simp: activeAssociations_def)

definition covers :: "StructureTables \<Rightarrow> MembershipContext \<Rightarrow> AuthorityScope \<Rightarrow> string list \<Rightarrow> bool" where
  "covers t m scope ws \<longleftrightarrow> (mc_branchScopeMode m = Scope_all
     \<or> mc_branchScopeMode m = Scope_assigned \<and> scope = Over_warehouses \<and> (\<forall>w \<in> set ws. within_reach t m w))"

lemma commandAuthority_eq_Inr:
  "commandAuthority t m op x ws = Inr a \<longleftrightarrow> (\<exists>p s. map_of OPERATION_AUTHORITY op = Some (p, s) \<and> hasPermission (mc_roles m) p
     \<and> covers t m s ws \<and> a = \<lparr>au_scope = \<lparr>bs_tenantId = mc_tenantId m, bs_businessId = mc_businessId m, bs_actorUserId = mc_userId m,
          bs_businessTransactionId = x\<rparr>, au_opCode = op, au_warehouseIds = distinctValues ws\<rparr>)"
  by (cases "mc_branchScopeMode m"; cases "map_of OPERATION_AUTHORITY op")
    (auto simp: commandAuthority_def Let_def bindR_eq_Inr if_refuse_eq_Inr covers_def assertWarehousesInScope_eq_Inr
      split: if_splits intro: AuthorityScope.exhaust)

lemma mintCommand_eq_Inr:
  "mintCommand (minterMint hmac uuid now key) issued a p = Inr s \<longleftrightarrow> a \<in> issued \<and> ip_opCode p = au_opCode a
     \<and> (\<exists>k. key = Some k \<and> mintInventoryAssertion hmac uuid \<lparr>ia_actorUserId = bs_actorUserId (au_scope a), ia_tenantId = bs_tenantId (au_scope a),
          ia_businessId = bs_businessId (au_scope a), ia_opCode = ip_opCode p, ia_payloadSha256 = ip_sha256 p, ia_jti = None\<rparr> k now
          (Finite (of_int INVENTORY_ASSERTION_TTL_SECONDS)) = Inr s)"
  by (cases key) (auto simp: mintCommand_def minterMint_def if_refuse_eq_Inr)

lemma configuredKey_eq_Inr:
  "configuredKey sha256 decode64 cf = Inr (Some k) \<longleftrightarrow>
     (\<exists>t. present (cf_INVENTORY_ASSERTION_KEY cf) = Some t
        \<and> parseInventoryAssertionKey decode64 (case cf_INVENTORY_ASSERTION_KID cf of None \<Rightarrow> ''v1'' | Some kid \<Rightarrow> kid) t = Inr k)
     \<and> \<not> sameSecret sha256 decode64 (ik_secret k) (cf_PROVISIONING_ASSERTION_KEY cf)
     \<and> \<not> sameSecret sha256 decode64 (ik_secret k) (cf_ACCOUNTING_ASSERTION_KEY cf)"
  by (cases "present (cf_INVENTORY_ASSERTION_KEY cf)") (auto simp: configuredKey_def bindR_eq_Inr if_refuse_eq_Inr)

subsection \<open>Properties\<close>

text \<open>The requests a process has served, in order, and the proofs it has issued to them.\<close>

type_synonym AuthorityRequest = "StructureTables \<times> MembershipContext \<times> string \<times> string \<times> string list"

fun serve :: "Issued \<Rightarrow> AuthorityRequest list \<Rightarrow> Issued" where
  "serve issued [] = issued"
| "serve issued ((t, m, op, x, ws) # rs) =
     serve (case authorizeCommand issued t m op x ws of Inl e \<Rightarrow> issued | Inr (a, issued') \<Rightarrow> issued') rs"

lemma serve_issues:
  "a \<in> serve issued rs \<Longrightarrow> a \<in> issued \<or> (\<exists>t m op x ws. (t, m, op, x, ws) \<in> set rs \<and> commandAuthority t m op x ws = Inr a)"
proof (induction issued rs rule: serve.induct)
  case (2 issued t m op x ws rs)
  show ?case
  proof (cases "commandAuthority t m op x ws")
    case (Inl e)
    then have "a \<in> serve issued rs" "(case authorizeCommand issued t m op x ws of Inl e \<Rightarrow> issued | Inr (a, i) \<Rightarrow> i) = issued"
      using 2(2) by (simp_all add: authorizeCommand_def)
    with 2(1) show ?thesis by (simp only:) (meson list.set_intros(2))
  next
    case (Inr b)
    then have "a \<in> serve (insert b issued) rs" "(case authorizeCommand issued t m op x ws of Inl e \<Rightarrow> issued | Inr (a, i) \<Rightarrow> i) = insert b issued"
      using 2(2) by (simp_all add: authorizeCommand_def)
    with 2(1) have "a = b \<or> a \<in> issued
      \<or> (\<exists>t m op x ws. (t, m, op, x, ws) \<in> set rs \<and> commandAuthority t m op x ws = Inr a)"
      by (simp only:) blast
    with Inr show ?thesis by (meson list.set_intros)
  qed
qed simp

text \<open>C39: A signature leaves the process only for a request of a member who may give the command: it names the member's own
  user, tenant and business, the operation that was authorized and the digest of the payload; the member holds the permission
  of that kind; and a member of assigned scope gets it only for a kind that is not business-wide, with every affected warehouse
  reached through an active branch of theirs.\<close>

theorem signature_needs_authority:
  assumes "mintCommand (minterMint hmac uuid now key) (serve {} requests) a p = Inr s" "\<And>k q. list_all is_hex (hmac k q)"
  shows "\<exists>t m op x ws parts perm scope. (t, m, op, x, ws) \<in> set requests \<and> splitInventoryAssertion s = Inr parts
    \<and> ap_actorUserId parts = mc_userId m \<and> ap_tenantId parts = mc_tenantId m \<and> ap_businessId parts = mc_businessId m
    \<and> operationCodeFromWire (ap_wireOperation parts) = Inr op \<and> ip_opCode p = op \<and> ap_payloadSha256 parts = ip_sha256 p
    \<and> map_of OPERATION_AUTHORITY op = Some (perm, scope) \<and> hasPermission (mc_roles m) perm \<and> covers t m scope ws
    \<and> (mc_branchScopeMode m = Scope_assigned \<and> mc_allowedBranchIds m = [] \<longrightarrow> ws = [])"
proof -
  from assms(1) have "a \<in> serve {} requests" by (auto simp: mintCommand_eq_Inr)
  from serve_issues [OF this] obtain t m op x ws where r: "(t, m, op, x, ws) \<in> set requests" "commandAuthority t m op x ws = Inr a" by auto
  obtain perm scope where a: "map_of OPERATION_AUTHORITY op = Some (perm, scope)" "hasPermission (mc_roles m) perm" "covers t m scope ws"
    and e: "a = \<lparr>au_scope = \<lparr>bs_tenantId = mc_tenantId m, bs_businessId = mc_businessId m, bs_actorUserId = mc_userId m,
          bs_businessTransactionId = x\<rparr>, au_opCode = op, au_warehouseIds = distinctValues ws\<rparr>"
    using r(2) commandAuthority_eq_Inr by blast
  from assms(1) obtain k where o: "ip_opCode p = op" and k: "mintInventoryAssertion hmac uuid \<lparr>ia_actorUserId = mc_userId m, ia_tenantId = mc_tenantId m,
      ia_businessId = mc_businessId m, ia_opCode = op, ia_payloadSha256 = ip_sha256 p, ia_jti = None\<rparr> k now
      (Finite (of_int INVENTORY_ASSERTION_TTL_SECONDS)) = Inr s"
    by (auto simp: mintCommand_eq_Inr e)
  have "mc_branchScopeMode m = Scope_assigned \<and> mc_allowedBranchIds m = [] \<longrightarrow> ws = []"
    using a(3) by (cases ws) (auto simp: covers_def within_reach_def)
  moreover obtain parts where "splitInventoryAssertion s = Inr parts" "ap_actorUserId parts = mc_userId m" "ap_tenantId parts = mc_tenantId m"
    "ap_businessId parts = mc_businessId m" "operationCodeFromWire (ap_wireOperation parts) = Inr op" "ap_payloadSha256 parts = ip_sha256 p"
    using minted_parts [OF k assms(2)] by auto
  ultimately show ?thesis using r(1) o a by blast
qed

definition sample_tables :: StructureTables where
  "sample_tables = \<lparr>st_branches = [\<lparr>br_businessId = sample_uuid, br_id = ''b1'', br_status = ''active''\<rparr>,
       \<lparr>br_businessId = sample_uuid, br_id = ''b2'', br_status = ''archived''\<rparr>],
     st_branchWarehouses = [\<lparr>bw_businessId = sample_uuid, bw_branchId = ''b1'', bw_warehouseId = ''w1''\<rparr>,
       \<lparr>bw_businessId = sample_uuid, bw_branchId = ''b2'', bw_warehouseId = ''w2''\<rparr>]\<rparr>"

definition sample_member :: "string list \<Rightarrow> MembershipContext" where
  "sample_member permissions = \<lparr>mc_tenantId = sample_uuid, mc_businessId = sample_uuid, mc_userId = sample_uuid,
     mc_roles = [\<lparr>rr_key = ''cashier'', rr_isSystem = True, rr_permissions = set permissions\<rparr>],
     mc_roleKeys = [''cashier''], mc_branchScopeMode = Scope_assigned, mc_allowedBranchIds = [''b1'', ''b2'']\<rparr>"

definition sample_authority :: InventoryCommandAuthority where
  "sample_authority = \<lparr>au_scope = \<lparr>bs_tenantId = sample_uuid, bs_businessId = sample_uuid, bs_actorUserId = sample_uuid,
     bs_businessTransactionId = ''x''\<rparr>, au_opCode = ''sale.commit'', au_warehouseIds = [''w1'']\<rparr>"

definition sample_requests :: "AuthorityRequest list" where
  "sample_requests = [(sample_tables, sample_member [''sales.create''], ''sale.commit'', ''x'', [''w2'']),
     (sample_tables, sample_member [''sales.create''], ''sale.commit'', ''x'', [''w1''])]"

theorem signature_needs_authority_witness:
  "serve {} sample_requests = {sample_authority}
   \<and> (\<exists>s parts. mintCommand (minterMint (\<lambda>k q. ''beef'') sample_uuid (Some 1709164800000) (Some sample_key)) (serve {} sample_requests)
        sample_authority \<lparr>ip_opCode = ''sale.commit'', ip_bytes = [], ip_sha256 = replicate 64 (CHR ''a'')\<rparr> = Inr s
      \<and> splitInventoryAssertion s = Inr parts \<and> ap_actorUserId parts = sample_uuid)"
proof -
  let ?p = "\<lparr>ip_opCode = ''sale.commit'', ip_bytes = [], ip_sha256 = replicate 64 (CHR ''a'')\<rparr>"
  let ?mint = "minterMint (\<lambda>k q. ''beef'') sample_uuid (Some 1709164800000) (Some sample_key)"
  have a: "commandAuthority sample_tables (sample_member [''sales.create'']) ''sale.commit'' ''x'' [''w1''] = Inr sample_authority"
    "commandAuthority sample_tables (sample_member [''sales.create'']) ''sale.commit'' ''x'' [''w2''] = Inl (AppError ''FORBIDDEN'')"
    by code_simp+
  then have i: "serve {} sample_requests = {sample_authority}" by (simp add: sample_requests_def authorizeCommand_def)
  let ?c = "\<lparr>ia_actorUserId = sample_uuid, ia_tenantId = sample_uuid, ia_businessId = sample_uuid, ia_opCode = ''sale.commit'',
      ia_payloadSha256 = replicate 64 (CHR ''a''), ia_jti = None\<rparr>"
  have "\<not> isl (?mint ?c)" and h: "list_all is_hex ''beef''" by code_simp+
  then obtain s where "?mint ?c = Inr s" by (cases "?mint ?c") (simp_all only: sum.disc simp_thms)
  then have s: "mintCommand ?mint (serve {} sample_requests) sample_authority ?p = Inr s"
    by (simp add: mintCommand_def i sample_authority_def)
  from signature_needs_authority [OF s h] s i show ?thesis by (auto simp: sample_requests_def sample_member_def)
qed

text \<open>C40: A command and a read see the same warehouses: a member of assigned scope may be authorized over a list of
  warehouses exactly when every one of them may be read, an unassigned one gets all, and a business-wide command is for
  the member who may read business-wide.\<close>

theorem scopes_agree:
  assumes "map_of OPERATION_AUTHORITY op = Some (permission, scope)" "hasPermission (mc_roles m) permission"
  shows "(\<exists>a. authorizeCommand issued t m op x ws = Inr a) \<longleftrightarrow>
    (case scope of Over_warehouses \<Rightarrow> (\<forall>w \<in> set ws. assertWarehouseReachable (reachableWarehouses t m) w = Inr ())
     | Business_wide \<Rightarrow> assertBusinessWide m = Inr ())"
proof (cases "mc_branchScopeMode m")
  have i: "(\<exists>a. authorizeCommand issued t m op x ws = Inr a) \<longleftrightarrow> (\<exists>a. commandAuthority t m op x ws = Inr a)"
    by (auto simp: authorizeCommand_def bindR_eq_Inr)
  case Scope_all
  then show ?thesis unfolding i using assms
    by (auto simp: commandAuthority_eq_Inr covers_def reachableWarehouses_def assertWarehouseReachable_def assertBusinessWide_def
        split: AuthorityScope.split)
next
  have i: "(\<exists>a. authorizeCommand issued t m op x ws = Inr a) \<longleftrightarrow> (\<exists>a. commandAuthority t m op x ws = Inr a)"
    by (auto simp: authorizeCommand_def bindR_eq_Inr)
  case Scope_assigned
  then have "reachableWarehouses t m = Some {w. within_reach t m w}" by (simp add: reachable_iff)
  then show ?thesis unfolding i using assms Scope_assigned
    by (auto simp: commandAuthority_eq_Inr covers_def assertWarehouseReachable_def assertBusinessWide_def split: AuthorityScope.split if_splits)
qed

theorem scopes_agree_witness:
  "(\<exists>a. authorizeCommand {} sample_tables (sample_member [''sales.create'']) ''sale.commit'' ''x'' [''w1''] = Inr a)
   \<and> assertWarehouseReachable (reachableWarehouses sample_tables (sample_member [''sales.create''])) ''w1'' = Inr ()"
proof -
  have "map_of OPERATION_AUTHORITY ''sale.commit'' = Some (''sales.create'', Over_warehouses)"
    "hasPermission (mc_roles (sample_member [''sales.create''])) ''sales.create''"
    "assertWarehouseReachable (reachableWarehouses sample_tables (sample_member [''sales.create''])) ''w1'' = Inr ()" by code_simp+
  with scopes_agree [OF this(1,2), where issued = "{}" and t = sample_tables and x = "''x''" and ws = "[''w1'']"] show ?thesis by simp
qed

end
