(* ===== verification/Member_Roles.thy ===== *)
theory Member_Roles
  imports Reports_Service
begin

text \<open>
  apps/api/src/modules/tenancy: structure.service.ts (the members and roles of a business: every command
  that gives, changes or takes authority), the role resolution of tenancy.service.ts and the user quota of
  entitlements.service.ts. The state is the rows of one business; a query \<open>WHERE business_id = $1\<close>
  reads all of them. A transaction that throws leaves the rows as they were. The constraints modelled are the
  primary keys, the unique role key and the foreign keys to roles; the other checks and triggers of the
  database, the audit rows, the columns of dates and of who assigned a role, and the answers read back for the
  client are not, and the permission a route asks for is not either: all of these only refuse more.
\<close>

subsection \<open>The rows of a business\<close>

record BusinessRoleRow =
  ro_id :: string
  ro_key :: string
  ro_name :: string
  ro_isSystem :: bool

record MemberRow =
  mb_userId :: string
  mb_status :: string
  mb_branchScopeMode :: string

record InvitationRow =
  iv_id :: string
  iv_email :: string
  iv_roleId :: string
  iv_tokenHash :: string
  iv_status :: string
  iv_expiresAt :: int

text \<open>\<open>mt_permissions\<close> pairs a role id with a permission, \<open>mt_assigned\<close> a user with a role id,
  \<open>mt_scopes\<close> a user with a branch, \<open>mt_branches\<close> a branch with its status.\<close>

record MemberTables =
  mt_tenantId :: string
  mt_businessId :: string
  mt_businessStatus :: string
  mt_roles :: "BusinessRoleRow list"
  mt_permissions :: "(string \<times> string) list"
  mt_members :: "MemberRow list"
  mt_assigned :: "(string \<times> string) list"
  mt_scopes :: "(string \<times> string) list"
  mt_branches :: "(string \<times> string) list"
  mt_invitations :: "InvitationRow list"
  mt_tenantMembers :: "string list"

text \<open>What a command reads outside these rows: the clock, a fresh id, whether the plan has \<open>CUSTOM_ROLES\<close>,
  its limit of users (\<open>getLimit\<close>, -1 for none), and the users table of the identity boundary.\<close>

record Surroundings =
  su_now :: int
  su_newId :: string
  su_customRoles :: bool
  su_usersLimit :: int
  su_userByEmail :: "string \<Rightarrow> string option"
  su_activeUserByEmail :: "string \<Rightarrow> string option"
  su_activeEmailOf :: "string \<Rightarrow> string option"

subsection \<open>Resolving a membership\<close>

text \<open>The role rows a user is joined with, through the assignments.\<close>

definition assignedRoles :: "MemberTables \<Rightarrow> string \<Rightarrow> BusinessRoleRow list" where
  "assignedRoles t userId =
     concat (map (\<lambda>a. filter (\<lambda>r. ro_id r = snd a) (mt_roles t)) (filter (\<lambda>a. fst a = userId) (mt_assigned t)))"

text \<open>The condition \<open>r.is_system AND r.key = 'owner'\<close> of the statements.\<close>

definition isOwnerRow :: "BusinessRoleRow \<Rightarrow> bool" where
  "isOwnerRow r \<longleftrightarrow> ro_isSystem r \<and> ro_key r = ''owner''"

text \<open>The rows of the join: a role, and one of its permissions or, where it has none, null. \<open>P\<close> is the condition on the member.\<close>

definition leftPermissions :: "MemberTables \<Rightarrow> string \<Rightarrow> string option list" where
  "leftPermissions t roleId = (let ps = filter (\<lambda>x. fst x = roleId) (mt_permissions t) in if ps = [] then [None] else map (Some \<circ> snd) ps)"

definition roleRows :: "(MemberRow \<Rightarrow> bool) \<Rightarrow> MemberTables \<Rightarrow> string \<Rightarrow> (string \<times> bool \<times> string option) list" where
  "roleRows P t u = [(ro_key r, ro_isSystem r, p).
     m \<leftarrow> mt_members t, mb_userId m = u \<and> P m,
     r \<leftarrow> assignedRoles t (mb_userId m),
     p \<leftarrow> leftPermissions t (ro_id r)]"

text \<open>\<open>if (r.permission) e.permissions.add(...)\<close>: neither null nor the empty text.\<close>

definition addPermission :: "string option \<Rightarrow> string set \<Rightarrow> string set" where
  "addPermission p S = (case p of None \<Rightarrow> S | Some q \<Rightarrow> if q = '''' then S else insert q S)"

text \<open>The rows grouped in a \<open>Map\<close> by role key; the first row of a key says whether the role is a system role.\<close>

fun upsertRole :: "TrustedRoleSet \<Rightarrow> string \<times> bool \<times> string option \<Rightarrow> TrustedRoleSet" where
  "upsertRole [] (key, isSystem, p) = [\<lparr>rr_key = key, rr_isSystem = isSystem, rr_permissions = addPermission p {}\<rparr>]"
| "upsertRole (e # es) (key, isSystem, p) =
     (if rr_key e = key then e\<lparr>rr_permissions := addPermission p (rr_permissions e)\<rparr> # es
      else e # upsertRole es (key, isSystem, p))"

definition groupRoles :: "(string \<times> bool \<times> string option) list \<Rightarrow> TrustedRoleSet" where
  "groupRoles rows = foldl upsertRole [] rows"

definition resolveMembership :: "MemberTables \<Rightarrow> string \<Rightarrow> MembershipContext result" where
  "resolveMembership t userId =
     (case find (\<lambda>m. mb_userId m = userId \<and> mb_status m = ''active'' \<and> mt_businessStatus t = ''active'') (mt_members t) of
        None \<Rightarrow> refuse (AppError ''FORBIDDEN'')
      | Some m \<Rightarrow>
          let roles = groupRoles (roleRows (\<lambda>m. mb_status m = ''active'') t userId);
              mode = (if mb_branchScopeMode m = ''assigned'' then Scope_assigned else Scope_all)
          in Inr \<lparr>mc_tenantId = mt_tenantId t, mc_businessId = mt_businessId t, mc_userId = userId, mc_roles = roles,
                  mc_roleKeys = map rr_key roles, mc_branchScopeMode = mode,
                  mc_allowedBranchIds = (if mode = Scope_assigned then map snd (filter (\<lambda>s. fst s = userId) (mt_scopes t)) else [])\<rparr>)"

subsection \<open>Statements and checks the commands share\<close>

text \<open>An \<open>INSERT\<close> of a whole primary key: a duplicate is an error of the database.\<close>

definition insertKey :: "'a \<Rightarrow> 'a list \<Rightarrow> 'a list result" where
  "insertKey x rows = (if x \<in> set rows then refuse Thrown_Error else Inr (rows @ [x]))"

fun insertKeys :: "'a list \<Rightarrow> 'a list \<Rightarrow> 'a list result" where
  "insertKeys [] rows = Inr rows"
| "insertKeys (x # xs) rows = bindR (insertKey x rows) (insertKeys xs)"

definition assertDelegationCeiling :: "MembershipContext \<Rightarrow> string list \<Rightarrow> unit result" where
  "assertDelegationCeiling m permissions =
     (if 0 < length (beyondGrantAuthority (mc_roles m) permissions) then refuse (AppError ''FORBIDDEN'') else Inr ())"

definition assertRoleWithinCeiling :: "MemberTables \<Rightarrow> MembershipContext \<Rightarrow> string \<Rightarrow> unit result" where
  "assertRoleWithinCeiling t m roleId = assertDelegationCeiling m (map snd (filter (\<lambda>x. fst x = roleId) (mt_permissions t)))"

definition lockMembership :: "MemberTables \<Rightarrow> string \<Rightarrow> MemberRow option" where
  "lockMembership t userId = find (\<lambda>m. mb_userId m = userId) (mt_members t)"

definition isOwnerMember :: "MemberTables \<Rightarrow> string \<Rightarrow> bool" where
  "isOwnerMember t userId \<longleftrightarrow> list_ex isOwnerRow (assignedRoles t userId)"

definition roleByKey :: "MemberTables \<Rightarrow> string \<Rightarrow> BusinessRoleRow result" where
  "roleByKey t key = (case find (\<lambda>r. ro_key r = key) (mt_roles t) of
     None \<Rightarrow> refuse (AppError ''VALIDATION_FAILED'') | Some role \<Rightarrow> Inr role)"

definition lockOwnerCount :: "MemberTables \<Rightarrow> nat" where
  "lockOwnerCount t = length (concat (map (\<lambda>m. map (\<lambda>r. mb_userId m) (filter isOwnerRow (assignedRoles t (mb_userId m))))
     (filter (\<lambda>m. mb_status m = ''active'') (mt_members t))))"

text \<open>\<open>CITEXT\<close> columns compare without regard to case.\<close>

definition sameEmail :: "string \<Rightarrow> string \<Rightarrow> bool" where
  "sameEmail a b \<longleftrightarrow> toLowerCase a = toLowerCase b"

definition pendingAt :: "int \<Rightarrow> InvitationRow \<Rightarrow> bool" where
  "pendingAt now i \<longleftrightarrow> iv_status i = ''pending'' \<and> now < iv_expiresAt i"

text \<open>\<open>getUsage\<close> and \<open>assertCanConsume\<close> for \<open>MAX_USERS\<close>, with the limit the plan states.\<close>

definition usersInUse :: "MemberTables \<Rightarrow> int \<Rightarrow> int" where
  "usersInUse t now = int (length (filter (\<lambda>m. mb_status m = ''active'') (mt_members t)))
     + int (length (filter (pendingAt now) (mt_invitations t)))"

definition assertCanConsumeUser :: "MemberTables \<Rightarrow> Surroundings \<Rightarrow> unit result" where
  "assertCanConsumeUser t env =
     (if su_usersLimit env = -1 then Inr ()
      else if su_usersLimit env < usersInUse t (su_now env) + 1 then refuse (AppError ''PLAN_LIMIT_EXCEEDED'') else Inr ())"

text \<open>The two \<open>DELETE\<close> statements that end the authority of a member.\<close>

definition purgeAuthority :: "string \<Rightarrow> MemberTables \<Rightarrow> MemberTables" where
  "purgeAuthority userId t = t\<lparr>mt_assigned := filter (\<lambda>a. fst a \<noteq> userId) (mt_assigned t),
     mt_scopes := filter (\<lambda>s. fst s \<noteq> userId) (mt_scopes t)\<rparr>"

definition setStatus :: "string \<Rightarrow> string \<Rightarrow> MemberTables \<Rightarrow> MemberTables" where
  "setStatus userId status t =
     t\<lparr>mt_members := map (\<lambda>x. if mb_userId x = userId then x\<lparr>mb_status := status\<rparr> else x) (mt_members t)\<rparr>"

definition setMode :: "string \<Rightarrow> string \<Rightarrow> MemberTables \<Rightarrow> MemberTables" where
  "setMode userId mode t =
     t\<lparr>mt_members := map (\<lambda>x. if mb_userId x = userId then x\<lparr>mb_branchScopeMode := mode\<rparr> else x) (mt_members t)\<rparr>"

text \<open>\<open>INSERT ... ON CONFLICT\<close>: the member active over the whole business, as a new row or in place of the old one.\<close>

definition upsertMember :: "string \<Rightarrow> MemberTables \<Rightarrow> MemberTables" where
  "upsertMember userId t =
     (if list_ex (\<lambda>x. mb_userId x = userId) (mt_members t) then setMode userId ''all'' (setStatus userId ''active'' t)
      else t\<lparr>mt_members := mt_members t @ [\<lparr>mb_userId = userId, mb_status = ''active'', mb_branchScopeMode = ''all''\<rparr>]\<rparr>)"

definition joinTenant :: "string \<Rightarrow> MemberTables \<Rightarrow> MemberTables" where
  "joinTenant userId t =
     (if userId \<in> set (mt_tenantMembers t) then t else t\<lparr>mt_tenantMembers := mt_tenantMembers t @ [userId]\<rparr>)"

subsection \<open>The commands\<close>

text \<open>The states a membership may be in when the user joins: only a removed one is opened again, with no role of before.\<close>

definition formerMember :: "string \<Rightarrow> MemberTables \<Rightarrow> MemberTables result" where
  "formerMember userId t = (case lockMembership t userId of None \<Rightarrow> Inr t | Some existing \<Rightarrow>
     if mb_status existing = ''active'' \<or> mb_status existing = ''invited'' then refuse (AppError ''ALREADY_MEMBER'')
     else if mb_status existing = ''suspended'' then refuse (AppError ''MEMBER_SUSPENDED'')
     else Inr (purgeAuthority userId t))"

definition addMember :: "Surroundings \<Rightarrow> MembershipContext \<Rightarrow> string \<Rightarrow> string \<Rightarrow> MemberTables \<Rightarrow> MemberTables result" where
  "addMember env m email roleKey t =
     (if roleKey = ''owner'' then refuse (AppError ''FORBIDDEN'')
      else case su_activeUserByEmail env email of None \<Rightarrow> refuse (AppError ''NOT_FOUND'') | Some userId \<Rightarrow>
        bindR (roleByKey t roleKey) (\<lambda>role.
        bindR (assertRoleWithinCeiling t m (ro_id role)) (\<lambda>_.
        bindR (formerMember userId t) (\<lambda>t1.
        let t2 = t1\<lparr>mt_invitations := map (\<lambda>i. if sameEmail (iv_email i) email \<and> pendingAt (su_now env) i
                      then i\<lparr>iv_status := ''cancelled''\<rparr> else i) (mt_invitations t1)\<rparr>
        in bindR (assertCanConsumeUser t2 env) (\<lambda>_.
        let t3 = upsertMember userId (joinTenant userId t2)
        in bindR (insertKey (userId, ro_id role) (mt_assigned t3)) (\<lambda>assigned.
        Inr (t3\<lparr>mt_assigned := assigned\<rparr>)))))))"

definition createRole :: "Surroundings \<Rightarrow> MembershipContext \<Rightarrow> string \<Rightarrow> string \<Rightarrow> string list \<Rightarrow> MemberTables \<Rightarrow> MemberTables result" where
  "createRole env m key name permissions t =
     (if key = ''owner'' then refuse (AppError ''FORBIDDEN'')
      else if list_ex (\<lambda>p. \<not> isPermission p) permissions then refuse (AppError ''VALIDATION_FAILED'')
      else bindR (assertDelegationCeiling m permissions) (\<lambda>_.
        let id = su_newId env
        in if \<not> su_customRoles env then refuse (AppError ''FEATURE_NOT_ENTITLED'')
        else if list_ex (\<lambda>r. ro_id r = id \<or> ro_key r = key) (mt_roles t) then refuse Thrown_Error
        else bindR (insertKeys (map (Pair id) permissions) (mt_permissions t)) (\<lambda>rows.
          Inr (t\<lparr>mt_roles := mt_roles t @ [\<lparr>ro_id = id, ro_key = key, ro_name = name, ro_isSystem = False\<rparr>],
                 mt_permissions := rows\<rparr>))))"

definition updateRole :: "MembershipContext \<Rightarrow> string \<Rightarrow> string option \<Rightarrow> string list option \<Rightarrow> MemberTables \<Rightarrow> MemberTables result" where
  "updateRole m roleId name permissions t =
     bindR (case permissions of None \<Rightarrow> Inr () | Some ps \<Rightarrow>
              if list_ex (\<lambda>p. \<not> isPermission p) ps then refuse (AppError ''VALIDATION_FAILED'')
              else assertDelegationCeiling m ps) (\<lambda>_.
     case find (\<lambda>r. ro_id r = roleId) (mt_roles t) of None \<Rightarrow> refuse (AppError ''NOT_FOUND'') | Some role \<Rightarrow>
       if ro_isSystem role then refuse (AppError ''FORBIDDEN'')
       else let name' = (case name of None \<Rightarrow> ro_name role | Some n \<Rightarrow> n);
                t1 = t\<lparr>mt_roles := map (\<lambda>r. if ro_id r = roleId then r\<lparr>ro_name := name'\<rparr> else r) (mt_roles t)\<rparr>
            in case permissions of None \<Rightarrow> Inr t1 | Some ps \<Rightarrow>
                 bindR (insertKeys (map (Pair roleId) ps) (filter (\<lambda>x. fst x \<noteq> roleId) (mt_permissions t1))) (\<lambda>rows.
                   Inr (t1\<lparr>mt_permissions := rows\<rparr>)))"

text \<open>The assignments of a role moved to its replacement; a member who already holds the replacement keeps it.\<close>

definition moveAssignees :: "string \<Rightarrow> string \<Rightarrow> (string \<times> string) list \<Rightarrow> (string \<times> string) list" where
  "moveAssignees roleId replacementId rows =
     map (\<lambda>a. if snd a = roleId then (fst a, replacementId) else a)
       (filter (\<lambda>a. \<not> (snd a = roleId \<and> (fst a, replacementId) \<in> set rows)) rows)"

text \<open>The last \<open>DELETE\<close> is refused by the foreign key of an invitation, of any status, that names the role.\<close>

definition deleteRole :: "MembershipContext \<Rightarrow> string \<Rightarrow> string option \<Rightarrow> MemberTables \<Rightarrow> MemberTables result" where
  "deleteRole m roleId replacementRoleKey t =
     (case find (\<lambda>r. ro_id r = roleId) (mt_roles t) of None \<Rightarrow> refuse (AppError ''NOT_FOUND'') | Some role \<Rightarrow>
       if ro_isSystem role then refuse (AppError ''FORBIDDEN'')
       else bindR
         (if 0 < length (filter (\<lambda>a. snd a = roleId) (mt_assigned t))
          then (case replacementRoleKey of None \<Rightarrow> refuse (AppError ''ROLE_IN_USE'') | Some key \<Rightarrow>
            if key = '''' then refuse (AppError ''ROLE_IN_USE'')
            else bindR (roleByKey t key) (\<lambda>replacement.
              if ro_id replacement = roleId then refuse (AppError ''VALIDATION_FAILED'')
              else if isOwnerRow replacement then refuse (AppError ''FORBIDDEN'')
              else bindR (assertRoleWithinCeiling t m (ro_id replacement)) (\<lambda>_.
                Inr (t\<lparr>mt_assigned := moveAssignees roleId (ro_id replacement) (mt_assigned t)\<rparr>))))
          else Inr t) (\<lambda>t1.
       let t2 = t1\<lparr>mt_permissions := filter (\<lambda>x. fst x \<noteq> roleId) (mt_permissions t1)\<rparr>
       in if list_ex (\<lambda>i. iv_roleId i = roleId) (mt_invitations t2) then refuse Thrown_Error
          else Inr (t2\<lparr>mt_roles := filter (\<lambda>r. ro_id r \<noteq> roleId) (mt_roles t2)\<rparr>)))"

definition removeMember :: "string \<Rightarrow> MemberTables \<Rightarrow> MemberTables result" where
  "removeMember userId t =
     (case lockMembership t userId of None \<Rightarrow> refuse (AppError ''NOT_FOUND'') | Some target \<Rightarrow>
       if mb_status target \<noteq> ''active'' then refuse (AppError ''NOT_FOUND'')
       else if isOwnerMember t userId \<and> lockOwnerCount t \<le> 1 then refuse (AppError ''LAST_OWNER_REMOVAL'')
       else Inr (setMode userId ''all'' (setStatus userId ''removed'' (purgeAuthority userId t))))"

definition setMemberSuspended :: "Surroundings \<Rightarrow> string \<Rightarrow> bool \<Rightarrow> MemberTables \<Rightarrow> MemberTables result" where
  "setMemberSuspended env userId suspended t =
     (case lockMembership t userId of None \<Rightarrow> refuse (AppError ''NOT_FOUND'') | Some target \<Rightarrow>
       if suspended then
         (if mb_status target \<noteq> ''active'' then refuse (AppError ''VALIDATION_FAILED'')
          else if isOwnerMember t userId \<and> lockOwnerCount t \<le> 1 then refuse (AppError ''LAST_OWNER_REMOVAL'')
          else Inr (setStatus userId ''suspended'' t))
       else if mb_status target \<noteq> ''suspended'' then refuse (AppError ''VALIDATION_FAILED'')
       else bindR (assertCanConsumeUser t env) (\<lambda>_. Inr (setStatus userId ''active'' t)))"

definition setMemberRoles :: "MembershipContext \<Rightarrow> string \<Rightarrow> string list \<Rightarrow> MemberTables \<Rightarrow> MemberTables result" where
  "setMemberRoles m userId roleKeys t =
     (if length roleKeys = 0 then refuse (AppError ''VALIDATION_FAILED'')
      else case lockMembership t userId of None \<Rightarrow> refuse (AppError ''NOT_FOUND'') | Some target \<Rightarrow>
        if mb_status target \<noteq> ''active'' then refuse (AppError ''NOT_FOUND'')
        else bindR (mapR (roleByKey t) roleKeys) (\<lambda>roles.
          let hadOwner = isOwnerMember t userId;
              keepsOwner = list_ex isOwnerRow roles
          in if hadOwner \<and> \<not> keepsOwner \<and> lockOwnerCount t \<le> 1 then refuse (AppError ''LAST_OWNER_REMOVAL'')
          else if \<not> hadOwner \<and> keepsOwner then refuse (AppError ''FORBIDDEN'')
          else bindR (assertDelegationCeiling m
                 (remdups (map snd (filter (\<lambda>x. fst x \<in> set (map ro_id roles)) (mt_permissions t))))) (\<lambda>_.
          bindR (insertKeys (map (\<lambda>r. (userId, ro_id r)) roles) (filter (\<lambda>a. fst a \<noteq> userId) (mt_assigned t))) (\<lambda>rows.
            Inr (t\<lparr>mt_assigned := rows\<rparr>)))))"

text \<open>\<open>new Set(branchIds)\<close> keeps each id once; the query answers the active branches among them.\<close>

definition setBranchScope :: "string \<Rightarrow> BranchScopeMode \<Rightarrow> string list \<Rightarrow> MemberTables \<Rightarrow> MemberTables result" where
  "setBranchScope userId mode branchIds t =
     (case lockMembership t userId of None \<Rightarrow> refuse (AppError ''NOT_FOUND'') | Some target \<Rightarrow>
       if mb_status target = ''removed'' then refuse (AppError ''NOT_FOUND'')
       else if mode = Scope_assigned \<and> 0 < length branchIds
         \<and> length (filter (\<lambda>b. fst b \<in> set branchIds \<and> snd b = ''active'') (mt_branches t)) \<noteq> card (set branchIds)
         then refuse (AppError ''VALIDATION_FAILED'')
       else let t1 = setMode userId (if mode = Scope_assigned then ''assigned'' else ''all'') t;
                kept = filter (\<lambda>s. fst s \<noteq> userId) (mt_scopes t1)
            in if mode = Scope_assigned
               then bindR (insertKeys (map (Pair userId) (rev (remdups (rev branchIds)))) kept) (\<lambda>rows. Inr (t1\<lparr>mt_scopes := rows\<rparr>))
               else Inr (t1\<lparr>mt_scopes := kept\<rparr>))"

subsection \<open>What the rows say\<close>

text \<open>The keys of the tables and the foreign keys to the roles and the members.\<close>

definition tables_ok :: "MemberTables \<Rightarrow> bool" where
  "tables_ok t \<longleftrightarrow> distinct (map ro_id (mt_roles t)) \<and> distinct (map ro_key (mt_roles t)) \<and> distinct (map mb_userId (mt_members t))
     \<and> distinct (mt_assigned t)
     \<and> list_all (\<lambda>a. fst a \<in> mb_userId ` set (mt_members t) \<and> snd a \<in> ro_id ` set (mt_roles t)) (mt_assigned t)
     \<and> list_all (\<lambda>x. fst x \<in> ro_id ` set (mt_roles t)) (mt_permissions t)
     \<and> list_all (\<lambda>i. iv_roleId i \<in> ro_id ` set (mt_roles t)) (mt_invitations t)"

definition ownerRole :: "MemberTables \<Rightarrow> string \<Rightarrow> bool" where
  "ownerRole t roleId \<longleftrightarrow> (\<exists>r \<in> set (mt_roles t). ro_id r = roleId \<and> isOwnerRow r)"

text \<open>What a role gives, who is assigned one that gives it, and whether an open invitation offers one.\<close>

definition gives :: "MemberTables \<Rightarrow> string \<Rightarrow> string \<Rightarrow> bool" where
  "gives t roleId p \<longleftrightarrow> ownerRole t roleId \<or> p \<noteq> '''' \<and> (roleId, p) \<in> set (mt_permissions t)"

definition holds :: "MemberTables \<Rightarrow> string \<Rightarrow> string \<Rightarrow> bool" where
  "holds t u p \<longleftrightarrow> (\<exists>r. (u, r) \<in> set (mt_assigned t) \<and> gives t r p)"

definition offers :: "MemberTables \<Rightarrow> string \<Rightarrow> bool" where
  "offers t p \<longleftrightarrow> (\<exists>i \<in> set (mt_invitations t). iv_status i = ''pending'' \<and> gives t (iv_roleId i) p)"

definition owns :: "MemberTables \<Rightarrow> string \<Rightarrow> bool" where
  "owns t u \<longleftrightarrow> (\<exists>r. (u, r) \<in> set (mt_assigned t) \<and> ownerRole t r)"

definition activeMember :: "MemberTables \<Rightarrow> string \<Rightarrow> bool" where
  "activeMember t u \<longleftrightarrow> list_ex (\<lambda>m. mb_userId m = u \<and> mb_status m = ''active'') (mt_members t)"

text \<open>The roles a member has, whatever the state of the membership: what resolving would answer once it is active.\<close>

definition standing :: "MemberTables \<Rightarrow> string \<Rightarrow> TrustedRoleSet" where
  "standing t u = groupRoles (roleRows (\<lambda>m. True) t u)"

lemma find_in: "find P xs = Some x \<Longrightarrow> x \<in> set xs \<and> P x"
  by (auto simp: find_Some_iff)

lemma upsertRole_permissions:
  "(\<exists>r \<in> set (upsertRole es (k, s, q)). p \<in> rr_permissions r) \<longleftrightarrow> (\<exists>r \<in> set es. p \<in> rr_permissions r) \<or> p \<noteq> '''' \<and> q = Some p"
  by (induction es) (auto simp: addPermission_def split: option.splits if_splits)

lemma upsertRole_keys: "rr_key ` set (upsertRole es (k, s, q)) = insert k (rr_key ` set es)"
  by (induction es) auto

lemma upsertRole_system:
  "\<forall>r \<in> set es. rr_isSystem r = c (rr_key r) \<Longrightarrow> \<forall>r \<in> set (upsertRole es (k, c k, q)). rr_isSystem r = c (rr_key r)"
  by (induction es) auto

lemma grouped_permissions:
  "(\<exists>r \<in> set (foldl upsertRole es rows). p \<in> rr_permissions r)
    \<longleftrightarrow> (\<exists>r \<in> set es. p \<in> rr_permissions r) \<or> p \<noteq> '''' \<and> (\<exists>k s. (k, s, Some p) \<in> set rows)"
proof (induction rows arbitrary: es)
  case (Cons row rows)
  then show ?case by (cases row) (auto simp: upsertRole_permissions)
qed simp

lemma grouped_system:
  assumes "\<forall>r \<in> set es. rr_isSystem r = c (rr_key r)" "\<forall>(k, s, q) \<in> set rows. s = c k"
  shows "(\<forall>r \<in> set (foldl upsertRole es rows). rr_isSystem r = c (rr_key r))
    \<and> rr_key ` set (foldl upsertRole es rows) = rr_key ` set es \<union> fst ` set rows"
  using assms
proof (induction rows arbitrary: es)
  case (Cons row rows)
  then show ?case using upsertRole_system [of es c "fst row" "snd (snd row)"] upsertRole_keys [of es]
    by (cases row) auto
qed simp

text \<open>Grouped rows grant what the rows name, when the rows of a key agree on whether it is a system role.\<close>

lemma grouped_hasPermission:
  assumes "\<forall>(k, s, q) \<in> set rows. s = c k"
  shows "hasPermission (groupRoles rows) p
    \<longleftrightarrow> (\<exists>q. (''owner'', True, q) \<in> set rows) \<or> p \<noteq> '''' \<and> (\<exists>k s. (k, s, Some p) \<in> set rows)"
proof -
  note g = grouped_system [of "[]" c rows, simplified, OF assms]
  have "isSystemOwner (groupRoles rows) \<longleftrightarrow> (\<exists>q. (''owner'', True, q) \<in> set rows)"
  proof
    assume "isSystemOwner (groupRoles rows)"
    then obtain r where "r \<in> set (groupRoles rows)" "rr_isSystem r" "rr_key r = ''owner''"
      by (auto simp: isSystemOwner_def list_ex_iff isSystemOwnerRole_def)
    with g have "c ''owner''" by (auto simp: groupRoles_def)
    have "rr_key r \<in> rr_key ` set (groupRoles rows)" using \<open>r \<in> set (groupRoles rows)\<close> by (rule imageI)
    with g \<open>rr_key r = ''owner''\<close> have "''owner'' \<in> fst ` set rows" by (simp add: groupRoles_def)
    then obtain s q where "(''owner'', s, q) \<in> set rows" by auto
    moreover from bspec [OF assms this] \<open>c ''owner''\<close> have "s" by simp
    ultimately show "\<exists>q. (''owner'', True, q) \<in> set rows" by auto
  next
    assume "\<exists>q. (''owner'', True, q) \<in> set rows"
    then obtain q where q: "(''owner'', True, q) \<in> set rows" by blast
    then have "''owner'' \<in> fst ` set rows" by (rule image_eqI [rotated]) simp
    with g have "''owner'' \<in> rr_key ` set (groupRoles rows)" by (simp add: groupRoles_def)
    then obtain r where "r \<in> set (groupRoles rows)" "rr_key r = ''owner''" by (metis imageE)
    moreover have "c ''owner''" using q assms by auto
    ultimately show "isSystemOwner (groupRoles rows)"
      using g by (auto simp: isSystemOwner_def list_ex_iff isSystemOwnerRole_def groupRoles_def)
  qed
  then show ?thesis using grouped_permissions [of "[]" rows p] by (simp add: hasPermission_iff groupRoles_def)
qed

lemma assignedRoles_in: "r \<in> set (assignedRoles t u) \<longleftrightarrow> r \<in> set (mt_roles t) \<and> (u, ro_id r) \<in> set (mt_assigned t)"
  by (force simp: assignedRoles_def)

lemma leftPermissions_in:
  "q \<in> set (leftPermissions t r)
    \<longleftrightarrow> (case q of None \<Rightarrow> \<forall>p. (r, p) \<notin> set (mt_permissions t) | Some p \<Rightarrow> (r, p) \<in> set (mt_permissions t))"
  by (cases q) (force simp: leftPermissions_def Let_def filter_empty_conv)+

lemma roleRows_in:
  "(k, s, q) \<in> set (roleRows P t u) \<longleftrightarrow> (\<exists>m \<in> set (mt_members t). mb_userId m = u \<and> P m)
    \<and> (\<exists>r \<in> set (mt_roles t). (u, ro_id r) \<in> set (mt_assigned t) \<and> k = ro_key r \<and> s = ro_isSystem r
        \<and> (case q of None \<Rightarrow> \<forall>p. (ro_id r, p) \<notin> set (mt_permissions t) | Some p \<Rightarrow> (ro_id r, p) \<in> set (mt_permissions t)))"
  unfolding leftPermissions_in [symmetric] by (auto simp: roleRows_def assignedRoles_in)

lemma ownerRoleI: "r \<in> set (mt_roles t) \<Longrightarrow> isOwnerRow r \<Longrightarrow> ownerRole t (ro_id r)"
  by (auto simp: ownerRole_def)

lemma unique_role:
  assumes "tables_ok t" "r \<in> set (mt_roles t)" "r' \<in> set (mt_roles t)" "ro_id r = ro_id r' \<or> ro_key r = ro_key r'"
  shows "r = r'"
  using assms by (auto simp: tables_ok_def distinct_map dest: inj_onD)

lemma ownerRole_iff: "tables_ok t \<Longrightarrow> r \<in> set (mt_roles t) \<Longrightarrow> ownerRole t (ro_id r) \<longleftrightarrow> isOwnerRow r"
  unfolding ownerRole_def using unique_role by metis

lemma unique_member:
  "tables_ok t \<Longrightarrow> m \<in> set (mt_members t) \<Longrightarrow> m' \<in> set (mt_members t) \<Longrightarrow> mb_userId m = mb_userId m' \<Longrightarrow> m = m'"
  by (auto simp: tables_ok_def distinct_map dest: inj_onD)

lemma assigned_rows:
  assumes "tables_ok t" "(u, rid) \<in> set (mt_assigned t)"
  shows "\<exists>r \<in> set (mt_roles t). ro_id r = rid" "\<exists>m \<in> set (mt_members t). mb_userId m = u"
  using assms by (fastforce simp: tables_ok_def list_all_iff)+

lemma activeMember_iff: "tables_ok t \<Longrightarrow> m \<in> set (mt_members t) \<Longrightarrow> activeMember t (mb_userId m) \<longleftrightarrow> mb_status m = ''active''"
  unfolding activeMember_def list_ex_iff using unique_member by metis

text \<open>Resolving answers the standing of the member, and the standing grants what the assigned roles give.\<close>

lemma standing_iff:
  assumes "tables_ok t" shows "hasPermission (standing t u) p \<longleftrightarrow> holds t u p"
proof -
  let ?rows = "roleRows (\<lambda>m. True) t u" and ?c = "\<lambda>k. \<exists>r \<in> set (mt_roles t). ro_key r = k \<and> ro_isSystem r"
  have "\<forall>(k, s, q) \<in> set ?rows. s = ?c k" using unique_role [OF assms] by (fastforce simp: roleRows_in)
  from grouped_hasPermission [OF this]
  have g: "hasPermission (standing t u) p
      \<longleftrightarrow> (\<exists>q. (''owner'', True, q) \<in> set ?rows) \<or> p \<noteq> '''' \<and> (\<exists>k s. (k, s, Some p) \<in> set ?rows)" by (simp add: standing_def)
  have rows: "(ro_key r, ro_isSystem r, q) \<in> set ?rows"
    if "r \<in> set (mt_roles t)" "(u, ro_id r) \<in> set (mt_assigned t)" "q \<in> set (leftPermissions t (ro_id r))" for r q
    using that assigned_rows(2) [OF assms that(2)] unfolding roleRows_in leftPermissions_in [symmetric] by blast
  show ?thesis unfolding g
  proof
    assume "(\<exists>q. (''owner'', True, q) \<in> set ?rows) \<or> p \<noteq> '''' \<and> (\<exists>k s. (k, s, Some p) \<in> set ?rows)"
    then obtain r where "r \<in> set (mt_roles t)" "(u, ro_id r) \<in> set (mt_assigned t)"
      and "isOwnerRow r \<or> p \<noteq> '''' \<and> (ro_id r, p) \<in> set (mt_permissions t)"
      unfolding roleRows_in isOwnerRow_def by (force split: option.splits)
    then show "holds t u p" using ownerRoleI by (auto simp: holds_def gives_def)
  next
    assume "holds t u p"
    then obtain rid where rid: "(u, rid) \<in> set (mt_assigned t)" "gives t rid p" by (auto simp: holds_def)
    then obtain r where r: "r \<in> set (mt_roles t)" "ro_id r = rid" using assigned_rows(1) [OF assms] by blast
    have "\<exists>q. q \<in> set (leftPermissions t rid)" by (auto simp: leftPermissions_in split: option.splits)
    then obtain q where q: "q \<in> set (leftPermissions t rid)" by blast
    have "ownerRole t rid \<longleftrightarrow> isOwnerRow r" using ownerRole_iff [OF assms r(1)] r(2) by simp
    with rid(2) consider "isOwnerRow r" | "p \<noteq> ''''" "Some p \<in> set (leftPermissions t rid)"
      by (auto simp: gives_def leftPermissions_in)
    then show "(\<exists>q. (''owner'', True, q) \<in> set ?rows) \<or> p \<noteq> '''' \<and> (\<exists>k s. (k, s, Some p) \<in> set ?rows)"
    proof cases
      case 1
      with rows [OF r(1), of q] rid(1) q r(2) show ?thesis by (auto simp: isOwnerRow_def)
    next
      case 2
      with rows [OF r(1), of "Some p"] rid(1) r(2) show ?thesis by auto
    qed
  qed
qed

lemma roleRows_active:
  assumes "tables_ok t" "m \<in> set (mt_members t)" "mb_userId m = u" "P m"
  shows "roleRows P t u = roleRows (\<lambda>m. True) t u"
proof -
  have "mb_userId x = u \<and> P x \<longleftrightarrow> mb_userId x = u \<and> True" if "x \<in> set (mt_members t)" for x
    using unique_member [OF assms(1,2) that] assms(3,4) by metis
  then have "(if mb_userId x = u \<and> P x then ys else []) = (if mb_userId x = u \<and> True then ys else [])" if "x \<in> set (mt_members t)" for x ys
    using that by presburger
  then show ?thesis unfolding roleRows_def by (intro arg_cong [where f = concat] map_cong [OF refl])
qed

lemma resolve_standing:
  assumes "tables_ok t" "resolveMembership t u = Inr m"
  shows "mc_roles m = standing t u" "mc_userId m = u" "activeMember t u"
proof -
  obtain r where "r \<in> set (mt_members t)" "mb_userId r = u" "mb_status r = ''active''"
    and "mc_roles m = groupRoles (roleRows (\<lambda>m. mb_status m = ''active'') t u)" "mc_userId m = u"
    using assms(2) by (auto simp: resolveMembership_def Let_def dest: find_in split: option.splits)
  then show "mc_roles m = standing t u" "mc_userId m = u" "activeMember t u"
    using roleRows_active [OF assms(1), of r u "\<lambda>m. mb_status m = ''active''"] by (auto simp: standing_def activeMember_def list_ex_iff)
qed

subsection \<open>Owners\<close>

lemma owns_iff: "isOwnerMember t u \<longleftrightarrow> owns t u"
  by (force simp: isOwnerMember_def owns_def list_ex_iff assignedRoles_in ownerRole_def)

lemma owns_holds: "owns t u \<Longrightarrow> holds t u p"
  by (auto simp: owns_def holds_def gives_def)

lemma distinct_concat_map:
  "distinct xs \<Longrightarrow> \<forall>x \<in> set xs. distinct (f x) \<Longrightarrow> \<forall>x \<in> set xs. \<forall>y \<in> set xs. x \<noteq> y \<longrightarrow> set (f x) \<inter> set (f y) = {}
    \<Longrightarrow> distinct (concat (map f xs))"
proof (induction xs)
  case (Cons x xs)
  then have "set (f x) \<inter> set (f y) = {}" if "y \<in> set xs" for y using that by auto
  with Cons show ?case by auto
qed simp

lemma all_same: "distinct xs \<Longrightarrow> \<forall>x \<in> set xs. \<forall>y \<in> set xs. x = y \<Longrightarrow> length xs \<le> 1"
  by (simp add: card_le_Suc0_iff_eq flip: distinct_card)

lemma length_concat_ones:
  "(\<And>x. x \<in> set xs \<Longrightarrow> length (f x) \<le> 1) \<Longrightarrow> length (concat (map f xs)) \<le> length (filter (\<lambda>x. f x \<noteq> []) xs)"
proof (induction xs)
  case (Cons x xs)
  from Cons.prems [of x] have "length (f x) \<le> (if f x \<noteq> [] then 1 else 0)" by auto
  with Cons show ?case by (auto simp: le_Suc_eq)
qed simp

lemma one_owner_role:
  assumes "tables_ok t" shows "length (filter isOwnerRow (assignedRoles t u)) \<le> 1"
proof (rule all_same)
  have "distinct (assignedRoles t u)" unfolding assignedRoles_def
    using assms by (intro distinct_concat_map) (auto simp: tables_ok_def distinct_map)
  then show "distinct (filter isOwnerRow (assignedRoles t u))" by simp
  show "\<forall>x \<in> set (filter isOwnerRow (assignedRoles t u)). \<forall>y \<in> set (filter isOwnerRow (assignedRoles t u)). x = y"
    using unique_role [OF assms] by (simp add: assignedRoles_in isOwnerRow_def)
qed

text \<open>When the count is above one, there is an active owner beside any given user.\<close>

lemma another_owner:
  assumes "tables_ok t" "\<not> lockOwnerCount t \<le> 1" shows "\<exists>v. v \<noteq> u \<and> activeMember t v \<and> owns t v"
proof (rule ccontr)
  assume n: "\<not> ?thesis"
  let ?own = "\<lambda>m. map (\<lambda>r. mb_userId m) (filter isOwnerRow (assignedRoles t (mb_userId m)))"
    and ?ms = "filter (\<lambda>m. mb_status m = ''active'') (mt_members t)"
  have u: "mb_userId m = u" if "m \<in> set ?ms" "?own m \<noteq> []" for m
    using that n by (auto simp: activeMember_def owns_iff [symmetric] isOwnerMember_def list_ex_iff filter_empty_conv)
  have "lockOwnerCount t \<le> length (filter (\<lambda>m. ?own m \<noteq> []) ?ms)"
    unfolding lockOwnerCount_def using one_owner_role [OF assms(1)] by (intro length_concat_ones) simp
  also have "\<dots> \<le> 1"
  proof (rule all_same)
    show "distinct (filter (\<lambda>m. ?own m \<noteq> []) ?ms)" using assms(1) by (simp add: tables_ok_def distinct_map)
    have "x = y" if "x \<in> set (filter (\<lambda>m. ?own m \<noteq> []) ?ms)" "y \<in> set (filter (\<lambda>m. ?own m \<noteq> []) ?ms)" for x y
      using that u [of x] u [of y] unique_member [OF assms(1), of x y] by simp
    then show "\<forall>x \<in> set (filter (\<lambda>m. ?own m \<noteq> []) ?ms). \<forall>y \<in> set (filter (\<lambda>m. ?own m \<noteq> []) ?ms). x = y" by blast
  qed
  finally show False using assms(2) by simp
qed

subsection \<open>What a command keeps\<close>

definition hasOwner :: "MemberTables \<Rightarrow> bool" where
  "hasOwner t \<longleftrightarrow> (\<exists>u. activeMember t u \<and> owns t u)"

definition offersOwner :: "MemberTables \<Rightarrow> bool" where
  "offersOwner t \<longleftrightarrow> (\<exists>i \<in> set (mt_invitations t). iv_status i = ''pending'' \<and> ownerRole t (iv_roleId i))"

text \<open>The contract of every command a member gives: the rows stay sound; a permission the member lacks is neither gained
  by anyone nor newly offered; nobody becomes an owner or is offered to; and an active owner remains.\<close>

definition keeps :: "MembershipContext \<Rightarrow> MemberTables \<Rightarrow> MemberTables \<Rightarrow> bool" where
  "keeps m t t' \<longleftrightarrow> tables_ok t'
     \<and> (\<forall>p. \<not> hasPermission (mc_roles m) p \<longrightarrow> (\<forall>u. holds t' u p \<longrightarrow> holds t u p) \<and> (offers t' p \<longrightarrow> offers t p))
     \<and> (\<forall>u. owns t' u \<longrightarrow> owns t u) \<and> (offersOwner t' \<longrightarrow> offersOwner t) \<and> (hasOwner t \<longrightarrow> hasOwner t')"

text \<open>A role within the authority of the member: not the owner's, and every permission of it held.\<close>

definition inAuthority :: "MembershipContext \<Rightarrow> MemberTables \<Rightarrow> string \<Rightarrow> bool" where
  "inAuthority m t r \<longleftrightarrow> r \<in> ro_id ` set (mt_roles t) \<and> \<not> ownerRole t r
     \<and> (\<forall>p. p \<noteq> '''' \<and> (r, p) \<in> set (mt_permissions t) \<longrightarrow> hasPermission (mc_roles m) p)"

lemma inAuthority_gives: "inAuthority m t r \<Longrightarrow> gives t r p \<Longrightarrow> hasPermission (mc_roles m) p"
  by (auto simp: inAuthority_def gives_def)

lemma ownerRole_cong: "mt_roles t' = mt_roles t \<Longrightarrow> ownerRole t' = ownerRole t"
  by (simp add: ownerRole_def fun_eq_iff)

lemma gives_cong: "mt_roles t' = mt_roles t \<Longrightarrow> mt_permissions t' = mt_permissions t \<Longrightarrow> gives t' = gives t"
  by (simp add: gives_def ownerRole_def fun_eq_iff)

text \<open>A command that leaves the roles alone keeps the contract when what it newly assigns or offers is within authority.\<close>

lemma keepsI:
  assumes t: "tables_ok t" and r: "mt_roles t' = mt_roles t" "mt_permissions t' = mt_permissions t"
    and m: "distinct (map mb_userId (mt_members t'))" "mb_userId ` set (mt_members t) \<subseteq> mb_userId ` set (mt_members t')"
    and a: "distinct (mt_assigned t')"
      "\<And>u r. (u, r) \<in> set (mt_assigned t') \<Longrightarrow> (u, r) \<notin> set (mt_assigned t) \<Longrightarrow> u \<in> mb_userId ` set (mt_members t') \<and> inAuthority m t r"
    and i: "\<And>i. i \<in> set (mt_invitations t') \<Longrightarrow> inAuthority m t (iv_roleId i)
      \<or> (\<exists>j \<in> set (mt_invitations t). iv_roleId i = iv_roleId j \<and> (iv_status i = ''pending'' \<longrightarrow> iv_status j = ''pending''))"
    and o: "hasOwner t \<Longrightarrow> hasOwner t'"
  shows "keeps m t t'"
proof -
  note cong = ownerRole_cong [OF r(1)] gives_cong [OF r]
  have "u \<in> mb_userId ` set (mt_members t') \<and> r \<in> ro_id ` set (mt_roles t')" if "(u, r) \<in> set (mt_assigned t')" for u r
  proof (cases "(u, r) \<in> set (mt_assigned t)")
    case True
    with t m(2) r(1) show ?thesis by (fastforce simp: tables_ok_def list_all_iff)
  next
    case False
    from a(2) [OF that False] r show ?thesis by (simp add: inAuthority_def)
  qed
  moreover have "iv_roleId i \<in> ro_id ` set (mt_roles t')" if "i \<in> set (mt_invitations t')" for i
    using assms(8) [OF that] t r by (auto simp: tables_ok_def list_all_iff inAuthority_def)
  ultimately have "tables_ok t'" using t r m(1) a(1) by (auto simp: tables_ok_def list_all_iff)
  moreover have "holds t u p" if "\<not> hasPermission (mc_roles m) p" "holds t' u p" for u p
  proof -
    obtain r where "(u, r) \<in> set (mt_assigned t')" "gives t r p" using \<open>holds t' u p\<close> by (auto simp: holds_def cong)
    with a(2) [of u r] inAuthority_gives [of m t r p] that(1) show ?thesis by (auto simp: holds_def)
  qed
  moreover have "owns t u" if "owns t' u" for u
  proof -
    from that obtain r where "(u, r) \<in> set (mt_assigned t')" "ownerRole t r" by (auto simp: owns_def cong)
    with a(2) [of u r] show ?thesis by (auto simp: owns_def inAuthority_def)
  qed
  moreover have "offers t p" if "\<not> hasPermission (mc_roles m) p" "offers t' p" for p
  proof -
    from that(2) obtain i where i: "i \<in> set (mt_invitations t')" "iv_status i = ''pending''" "gives t (iv_roleId i) p"
      by (auto simp: offers_def cong)
    with assms(8) [OF i(1)] inAuthority_gives [of m t "iv_roleId i" p] that(1) show ?thesis by (auto simp: offers_def)
  qed
  moreover have "offersOwner t" if "offersOwner t'"
  proof -
    from that obtain i where i: "i \<in> set (mt_invitations t')" "iv_status i = ''pending''" "ownerRole t (iv_roleId i)"
      by (auto simp: offersOwner_def cong)
    with assms(8) [OF i(1)] show ?thesis by (auto simp: offersOwner_def inAuthority_def)
  qed
  ultimately show ?thesis using o by (auto simp: keeps_def)
qed

subsection \<open>The statements on members\<close>

lemma find_member: "find (\<lambda>m. mb_userId m = u) ms = Some m \<Longrightarrow> m \<in> set ms \<and> mb_userId m = u"
  by (auto simp: find_Some_iff)

lemma setStatus_fields [simp]:
  "mt_roles (setStatus u s t) = mt_roles t" "mt_permissions (setStatus u s t) = mt_permissions t" "mt_assigned (setStatus u s t) = mt_assigned t"
  "mt_invitations (setStatus u s t) = mt_invitations t" "map mb_userId (mt_members (setStatus u s t)) = map mb_userId (mt_members t)"
  by (simp_all add: setStatus_def)

lemma setMode_fields [simp]:
  "mt_roles (setMode u s t) = mt_roles t" "mt_permissions (setMode u s t) = mt_permissions t" "mt_assigned (setMode u s t) = mt_assigned t"
  "mt_invitations (setMode u s t) = mt_invitations t" "map mb_userId (mt_members (setMode u s t)) = map mb_userId (mt_members t)"
  by (simp_all add: setMode_def)

lemma purgeAuthority_fields [simp]:
  "mt_roles (purgeAuthority u t) = mt_roles t" "mt_permissions (purgeAuthority u t) = mt_permissions t"
  "mt_assigned (purgeAuthority u t) = filter (\<lambda>a. fst a \<noteq> u) (mt_assigned t)"
  "mt_invitations (purgeAuthority u t) = mt_invitations t" "mt_members (purgeAuthority u t) = mt_members t"
  by (simp_all add: purgeAuthority_def)

lemma upsertMember_fields [simp]:
  "mt_roles (upsertMember u t) = mt_roles t" "mt_permissions (upsertMember u t) = mt_permissions t" "mt_assigned (upsertMember u t) = mt_assigned t"
  "mt_invitations (upsertMember u t) = mt_invitations t"
  by (simp_all add: upsertMember_def)

lemma joinTenant_fields [simp]:
  "mt_roles (joinTenant u t) = mt_roles t" "mt_permissions (joinTenant u t) = mt_permissions t" "mt_assigned (joinTenant u t) = mt_assigned t"
  "mt_invitations (joinTenant u t) = mt_invitations t" "mt_members (joinTenant u t) = mt_members t"
  by (simp_all add: joinTenant_def)

lemma upsertMember_ids:
  "map mb_userId (mt_members (upsertMember u t))
    = (if u \<in> mb_userId ` set (mt_members t) then map mb_userId (mt_members t) else map mb_userId (mt_members t) @ [u])"
  by (auto simp: upsertMember_def list_ex_iff)

lemma list_ex_map: "list_ex P (map f xs) \<longleftrightarrow> list_ex (\<lambda>x. P (f x)) xs"
  by (induction xs) simp_all

lemma activeMember_setStatus: "v \<noteq> u \<Longrightarrow> activeMember (setStatus u s t) v \<longleftrightarrow> activeMember t v"
  by (auto simp: activeMember_def setStatus_def list_ex_map intro!: list_ex_cong)

lemma activeMember_setMode [simp]: "activeMember (setMode u s t) v \<longleftrightarrow> activeMember t v"
  by (simp add: activeMember_def setMode_def list_ex_map if_distrib [of mb_userId] if_distrib [of mb_status] cong: if_cong)

lemma activeMember_members: "mt_members t' = mt_members t \<Longrightarrow> activeMember t' = activeMember t"
  by (simp add: activeMember_def fun_eq_iff)

lemma activeMember_upsert: "activeMember t v \<Longrightarrow> v \<noteq> u \<Longrightarrow> activeMember (upsertMember u t) v"
  by (auto simp: upsertMember_def activeMember_setStatus activeMember_def [of "t\<lparr>mt_members := x\<rparr>" for x]) (auto simp: activeMember_def)

lemma insertKey_eq_Inr [result_simps]: "insertKey x xs = Inr ys \<longleftrightarrow> x \<notin> set xs \<and> ys = xs @ [x]"
  by (auto simp: insertKey_def result_simps)

lemma insertKeys_eq_Inr [result_simps]:
  "insertKeys xs rows = Inr ys \<longleftrightarrow> distinct xs \<and> set xs \<inter> set rows = {} \<and> ys = rows @ xs"
  by (induction xs arbitrary: rows) (auto simp: result_simps)

lemma ceiling_eq_Inr [result_simps]:
  "assertDelegationCeiling m ps = Inr x \<longleftrightarrow> (\<forall>p \<in> set ps. hasPermission (mc_roles m) p)"
  by (auto simp: assertDelegationCeiling_def result_simps beyond_empty_iff list_all_iff)

lemma roleCeiling_eq_Inr [result_simps]:
  "assertRoleWithinCeiling t m r = Inr x \<longleftrightarrow> (\<forall>p. (r, p) \<in> set (mt_permissions t) \<longrightarrow> hasPermission (mc_roles m) p)"
  by (force simp: assertRoleWithinCeiling_def result_simps)

lemma roleByKey_Inr: "roleByKey t key = Inr role \<Longrightarrow> role \<in> set (mt_roles t) \<and> ro_key role = key"
  by (auto simp: roleByKey_def dest: find_in split: option.splits)

lemma owns_cong: "mt_roles t' = mt_roles t \<Longrightarrow> (u, r) \<in> set (mt_assigned t') \<Longrightarrow> ownerRole t r \<Longrightarrow> owns t' u"
  using ownerRole_cong [of t' t] by (auto simp: owns_def)

lemma hasOwnerI: "activeMember t u \<Longrightarrow> owns t u \<Longrightarrow> hasOwner t"
  by (auto simp: hasOwner_def)

subsection \<open>Every command keeps the contract\<close>

text \<open>A user who is not active joins with one role within authority, whatever rows of theirs were purged before.\<close>

lemma join_keeps:
  assumes t: "tables_ok t" and n: "\<not> activeMember t u" and r: "inAuthority m t r"
    and s: "mt_roles s = mt_roles t" "mt_permissions s = mt_permissions t" "mt_members s = mt_members t"
      "distinct (mt_assigned s)" "set (mt_assigned s) \<subseteq> set (mt_assigned t)" "\<forall>a \<in> set (mt_assigned t). fst a \<noteq> u \<longrightarrow> a \<in> set (mt_assigned s)"
    and i: "\<And>i. i \<in> set (mt_invitations s)
      \<Longrightarrow> \<exists>j \<in> set (mt_invitations t). iv_roleId i = iv_roleId j \<and> (iv_status i = ''pending'' \<longrightarrow> iv_status j = ''pending'')"
    and g: "(u, r) \<notin> set (mt_assigned s)"
  shows "keeps m t ((upsertMember u (joinTenant u s))\<lparr>mt_assigned := mt_assigned s @ [(u, r)]\<rparr>)"
proof (rule keepsI [OF t])
  let ?t = "(upsertMember u (joinTenant u s))\<lparr>mt_assigned := mt_assigned s @ [(u, r)]\<rparr>"
  show "hasOwner ?t" if "hasOwner t"
  proof -
    from that obtain v a where v: "activeMember t v" "(v, a) \<in> set (mt_assigned t)" "ownerRole t a" by (auto simp: hasOwner_def owns_def)
    have "v \<noteq> u" using v(1) n by auto
    moreover have "activeMember (joinTenant u s) v"
      using v(1) activeMember_members [of "joinTenant u s" t] s(3) by simp
    ultimately have "activeMember (upsertMember u (joinTenant u s)) v" by (intro activeMember_upsert)
    then have "activeMember ?t v" using activeMember_members [of ?t "upsertMember u (joinTenant u s)"] by simp
    moreover have "(v, a) \<in> set (mt_assigned ?t)" using v(2) s(6) \<open>v \<noteq> u\<close> by auto
    then have "owns ?t v" using v(3) s(1) by (intro owns_cong [of _ t v a]) simp_all
    ultimately show ?thesis by (rule hasOwnerI)
  qed
qed (use assms in \<open>auto simp: upsertMember_ids tables_ok_def simp flip: set_map\<close>)

lemma formerMember_Inr:
  assumes "tables_ok t" "formerMember u t = Inr s"
  shows "\<not> activeMember t u" "s = t \<or> s = purgeAuthority u t"
proof -
  have "\<not> activeMember t u" if "lockMembership t u = None"
    using that by (auto simp: lockMembership_def activeMember_def list_ex_iff find_None_iff)
  moreover have "\<not> activeMember t u" if "lockMembership t u = Some e" "mb_status e \<noteq> ''active''" for e
    using that activeMember_iff [OF assms(1), of e] by (auto simp: lockMembership_def dest!: find_member)
  ultimately show "\<not> activeMember t u" "s = t \<or> s = purgeAuthority u t"
    using assms(2) by (auto simp: formerMember_def result_simps split: option.splits)
qed

lemma addMember_keeps:
  assumes t: "tables_ok t" and run: "addMember env m email key t = Inr t'" shows "keeps m t t'"
proof -
  let ?c = "\<lambda>s. s\<lparr>mt_invitations := map (\<lambda>i. if sameEmail (iv_email i) email \<and> pendingAt (su_now env) i
                      then i\<lparr>iv_status := ''cancelled''\<rparr> else i) (mt_invitations s)\<rparr>"
  from run obtain u role s where key: "key \<noteq> ''owner''" "roleByKey t key = Inr role" and s: "formerMember u t = Inr s"
    and c: "\<forall>p. (ro_id role, p) \<in> set (mt_permissions t) \<longrightarrow> hasPermission (mc_roles m) p"
    and g: "(u, ro_id role) \<notin> set (mt_assigned (?c s))"
    and t': "t' = (upsertMember u (joinTenant u (?c s)))\<lparr>mt_assigned := mt_assigned (?c s) @ [(u, ro_id role)]\<rparr>"
    by (auto simp: addMember_def result_simps Let_def split: option.splits)
  have r: "inAuthority m t (ro_id role)"
    using roleByKey_Inr [OF key(2)] key(1) c ownerRole_iff [OF t] by (auto simp: inAuthority_def isOwnerRow_def)
  show ?thesis unfolding t'
    using formerMember_Inr(2) [OF t s] t by (intro join_keeps [OF t formerMember_Inr(1) [OF t s] r _ _ _ _ _ _ _ g])
      (auto simp: tables_ok_def)
qed

lemma lockMembership_Some:
  assumes "tables_ok t" "lockMembership t u = Some e"
  shows "u \<in> mb_userId ` set (mt_members t)" "activeMember t u \<longleftrightarrow> mb_status e = ''active''"
  using assms find_member [of u "mt_members t" e] activeMember_iff [OF assms(1), of e] by (auto simp: lockMembership_def)

text \<open>Whoever loses the owner's role or the membership, another active owner is left where the count was checked.\<close>

lemma left_owner:
  assumes t: "tables_ok t" and h: "hasOwner t" and c: "owns t u \<Longrightarrow> \<not> lockOwnerCount t \<le> 1"
  shows "\<exists>v. v \<noteq> u \<and> activeMember t v \<and> owns t v"
  using another_owner [OF t, of u] h c unfolding hasOwner_def by metis

lemma kept_owner:
  assumes "v \<noteq> u" "activeMember t v" "owns t v" "mt_roles t' = mt_roles t" "\<And>w. w \<noteq> u \<Longrightarrow> activeMember t' w \<longleftrightarrow> activeMember t w"
    and "\<And>a. a \<in> set (mt_assigned t) \<Longrightarrow> fst a \<noteq> u \<Longrightarrow> a \<in> set (mt_assigned t')"
  shows "hasOwner t'"
proof -
  obtain r where "(v, r) \<in> set (mt_assigned t)" "ownerRole t r" using assms(3) by (auto simp: owns_def)
  with assms(1) assms(6) [of "(v, r)"] have "owns t' v" by (intro owns_cong [OF assms(4)]) auto
  with assms(1,2,5) show ?thesis by (auto intro: hasOwnerI)
qed

lemma removeMember_keeps:
  assumes t: "tables_ok t" and run: "removeMember u t = Inr t'" shows "keeps m t t'"
proof -
  from run have t': "t' = setMode u ''all'' (setStatus u ''removed'' (purgeAuthority u t))" and c: "owns t u \<Longrightarrow> \<not> lockOwnerCount t \<le> 1"
    by (auto simp: removeMember_def result_simps owns_iff split: option.splits)
  have active: "activeMember t' w \<longleftrightarrow> activeMember t w" if "w \<noteq> u" for w
    using that activeMember_members [of "purgeAuthority u t" t] by (simp add: t' activeMember_setStatus)
  show ?thesis
  proof (rule keepsI [OF t])
    show "hasOwner t'" if "hasOwner t"
    proof -
      from left_owner [OF t that c] obtain v where "v \<noteq> u" "activeMember t v" "owns t v" by blast
      then show ?thesis by (rule kept_owner) (use active in \<open>auto simp: t'\<close>)
    qed
  qed (use t in \<open>auto simp: t' tables_ok_def simp flip: set_map\<close>)
qed

lemma setMemberSuspended_keeps:
  assumes t: "tables_ok t" and run: "setMemberSuspended env u b t = Inr t'" shows "keeps m t t'"
proof -
  from run obtain e s where e: "lockMembership t u = Some e" and t': "t' = setStatus u s t"
    and c: "s \<noteq> ''active'' \<Longrightarrow> owns t u \<Longrightarrow> \<not> lockOwnerCount t \<le> 1"
    and k: "s = ''active'' \<Longrightarrow> mb_status e \<noteq> ''active''"
    by (auto simp: setMemberSuspended_def result_simps owns_iff split: option.splits if_splits)
  have active: "activeMember t' w \<longleftrightarrow> activeMember t w" if "w \<noteq> u" for w using that by (simp add: t' activeMember_setStatus)
  show ?thesis
  proof (rule keepsI [OF t])
    show "hasOwner t'" if h: "hasOwner t"
    proof -
      have "\<exists>v. v \<noteq> u \<and> activeMember t v \<and> owns t v"
      proof (cases "s = ''active''")
        case True
        then show ?thesis using h k lockMembership_Some(2) [OF t e] by (auto simp: hasOwner_def)
      qed (rule left_owner [OF t h c])
      then obtain v where "v \<noteq> u" "activeMember t v" "owns t v" by blast
      then show ?thesis by (rule kept_owner) (use active in \<open>auto simp: t'\<close>)
    qed
  qed (use t in \<open>auto simp: t' tables_ok_def simp flip: set_map\<close>)
qed

lemma setBranchScope_keeps:
  assumes t: "tables_ok t" and run: "setBranchScope u mode bs t = Inr t'" shows "keeps m t t'"
proof -
  from run obtain s rows where t': "t' = (setMode u s t)\<lparr>mt_scopes := rows\<rparr>"
    by (auto simp: setBranchScope_def result_simps Let_def split: option.splits if_splits)
  have "activeMember t' = activeMember t" using activeMember_members [of t' "setMode u s t"] by (simp add: t' fun_eq_iff)
  moreover have "owns t' = owns t" by (simp add: t' owns_def ownerRole_def fun_eq_iff)
  ultimately have "hasOwner t \<Longrightarrow> hasOwner t'" by (simp add: hasOwner_def)
  then show ?thesis by (intro keepsI [OF t]) (use t in \<open>auto simp: t' tables_ok_def simp flip: set_map\<close>)
qed

lemma roleByKey_all:
  assumes "mapR (roleByKey t) keys = Inr roles" shows "set roles \<subseteq> set (mt_roles t)"
  using mapR_set [OF assms] roleByKey_Inr by blast

lemma setMemberRoles_keeps:
  assumes t: "tables_ok t" and run: "setMemberRoles m u keys t = Inr t'" shows "keeps m t t'"
proof -
  from run obtain e roles where e: "lockMembership t u = Some e" "mb_status e = ''active''" and roles: "mapR (roleByKey t) keys = Inr roles"
    and o: "owns t u \<Longrightarrow> \<not> list_ex isOwnerRow roles \<Longrightarrow> \<not> lockOwnerCount t \<le> 1" "list_ex isOwnerRow roles \<Longrightarrow> owns t u"
    and c: "\<forall>r p. (r, p) \<in> set (mt_permissions t) \<and> r \<in> ro_id ` set roles \<longrightarrow> hasPermission (mc_roles m) p"
    and d: "distinct (map (\<lambda>r. (u, ro_id r)) roles)"
    and t': "t' = t\<lparr>mt_assigned := filter (\<lambda>a. fst a \<noteq> u) (mt_assigned t) @ map (\<lambda>r. (u, ro_id r)) roles\<rparr>"
    unfolding setMemberRoles_def owns_iff Let_def
    by (auto simp only: result_simps split: option.splits) (auto simp: atomize_imp)
  note r = roleByKey_all [OF roles]
  have own: "(u, ro_id x) \<in> set (mt_assigned t)" if "x \<in> set roles" "isOwnerRow x" for x
  proof -
    from that have "list_ex isOwnerRow roles" by (auto simp: list_ex_iff)
    then obtain y where "(u, y) \<in> set (mt_assigned t)" "ownerRole t y" using o(2) by (auto simp: owns_def)
    then obtain z where "z \<in> set (mt_roles t)" "(u, ro_id z) \<in> set (mt_assigned t)" "isOwnerRow z" by (auto simp: ownerRole_def)
    with that r unique_role [OF t, of x z] show ?thesis by (auto simp: isOwnerRow_def)
  qed
  have active: "activeMember t' = activeMember t" by (rule activeMember_members) (simp add: t')
  show ?thesis
  proof (rule keepsI [OF t])
    show "hasOwner t'" if h: "hasOwner t"
    proof (cases "list_ex isOwnerRow roles")
      case True
      then obtain x where "x \<in> set roles" "isOwnerRow x" by (auto simp: list_ex_iff)
      then have "owns t' u" using r by (intro owns_cong [of t' t u "ro_id x"] ownerRoleI) (auto simp: t')
      moreover have "activeMember t' u" using lockMembership_Some(2) [OF t e(1)] e(2) active by simp
      ultimately show ?thesis by (auto intro: hasOwnerI)
    next
      case False
      then obtain v where "v \<noteq> u" "activeMember t v" "owns t v" using left_owner [OF t h] o(1) by blast
      then show ?thesis by (rule kept_owner) (use active in \<open>auto simp: t'\<close>)
    qed
    show "v \<in> mb_userId ` set (mt_members t') \<and> inAuthority m t y" if "(v, y) \<in> set (mt_assigned t')" "(v, y) \<notin> set (mt_assigned t)" for v y
    proof -
      from that obtain x where x: "v = u" "y = ro_id x" "x \<in> set roles" by (auto simp: t')
      with own that(2) r have "\<not> ownerRole t y" using ownerRole_iff [OF t, of x] by auto
      moreover have "hasPermission (mc_roles m) p" if "(y, p) \<in> set (mt_permissions t)" for p
        using that x c by blast
      ultimately show ?thesis using x r lockMembership_Some(1) [OF t e(1)] by (auto simp: inAuthority_def t')
    qed
    show "distinct (mt_assigned t')" using t d by (auto simp: t' tables_ok_def)
  qed (use t in \<open>auto simp: t' tables_ok_def\<close>)
qed

text \<open>A command that changes the roles keeps the contract when no role newly gives what the member lacks.\<close>

lemma keepsR:
  assumes t: "tables_ok t" "tables_ok t'" and i: "mt_invitations t' = mt_invitations t" and m: "mt_members t' = mt_members t"
    and g: "\<And>r p. r \<in> ro_id ` set (mt_roles t) \<Longrightarrow> \<not> hasPermission (mc_roles m) p \<Longrightarrow> gives t' r p \<Longrightarrow> gives t r p"
    and o: "\<And>r. r \<in> ro_id ` set (mt_roles t) \<Longrightarrow> ownerRole t' r \<longleftrightarrow> ownerRole t r"
    and a: "\<And>u r. (u, r) \<in> set (mt_assigned t') \<Longrightarrow> (u, r) \<notin> set (mt_assigned t) \<Longrightarrow> inAuthority m t r"
      "\<And>u r. (u, r) \<in> set (mt_assigned t) \<Longrightarrow> ownerRole t r \<Longrightarrow> (u, r) \<in> set (mt_assigned t')"
  shows "keeps m t t'"
proof -
  have ids: "r \<in> ro_id ` set (mt_roles t)" if "(u, r) \<in> set (mt_assigned t')" for u r
    using that a(1) [OF that] assigned_rows(1) [OF t(1), of u r] by (auto simp: inAuthority_def)
  have inv: "iv_roleId j \<in> ro_id ` set (mt_roles t)" if "j \<in> set (mt_invitations t)" for j
    using that t(1) by (auto simp: tables_ok_def list_all_iff)
  have "holds t u p" if n: "\<not> hasPermission (mc_roles m) p" and h: "holds t' u p" for u p
  proof -
    from h obtain r where r: "(u, r) \<in> set (mt_assigned t')" "gives t' r p" by (auto simp: holds_def)
    from g [OF ids [OF r(1)] n r(2)] a(1) [OF r(1)] inAuthority_gives [of m t r p] n show ?thesis by (auto simp: holds_def)
  qed
  moreover have "owns t u" if h: "owns t' u" for u
  proof -
    from h obtain r where r: "(u, r) \<in> set (mt_assigned t')" "ownerRole t r" using o ids by (auto simp: owns_def)
    with a(1) [OF r(1)] show ?thesis by (auto simp: owns_def inAuthority_def)
  qed
  moreover have "hasOwner t'" if h: "hasOwner t"
  proof -
    from h obtain u r where r: "activeMember t u" "(u, r) \<in> set (mt_assigned t)" "ownerRole t r" by (auto simp: hasOwner_def owns_def)
    with a(2) [OF r(2,3)] o [OF ids] have "owns t' u" by (auto simp: owns_def)
    with r(1) activeMember_members [OF m] show ?thesis by (auto intro: hasOwnerI)
  qed
  moreover have "offers t p" if "\<not> hasPermission (mc_roles m) p" "offers t' p" for p
    using that g inv unfolding offers_def i by blast
  moreover have "offersOwner t" if "offersOwner t'" using that o inv unfolding offersOwner_def i by blast
  ultimately show ?thesis using t(2) by (auto simp: keeps_def)
qed

lemma createRole_keeps:
  assumes t: "tables_ok t" and run: "createRole env m key name ps t = Inr t'" shows "keeps m t t'"
proof -
  let ?r = "\<lparr>ro_id = su_newId env, ro_key = key, ro_name = name, ro_isSystem = False\<rparr>"
  from run have n: "su_newId env \<notin> ro_id ` set (mt_roles t)" "key \<notin> ro_key ` set (mt_roles t)"
    and t': "t' = t\<lparr>mt_roles := mt_roles t @ [?r], mt_permissions := mt_permissions t @ map (Pair (su_newId env)) ps\<rparr>"
    by (auto simp: createRole_def result_simps Let_def list_ex_iff)
  show ?thesis
  proof (rule keepsR [OF t])
    show "tables_ok t'" using t n by (auto simp: t' tables_ok_def list_all_iff)
    show o: "ownerRole t' r \<longleftrightarrow> ownerRole t r" for r by (auto simp: t' ownerRole_def isOwnerRow_def)
    show "gives t r p" if "r \<in> ro_id ` set (mt_roles t)" "gives t' r p" for r p
    proof -
      have "r \<noteq> su_newId env" using that(1) n(1) by metis
      with that(2) show ?thesis by (auto simp: gives_def o) (auto simp: t')
    qed
  qed (use assigned_rows(1) [OF t] in \<open>auto simp: t'\<close>)
qed

lemma updateRole_keeps:
  assumes t: "tables_ok t" and run: "updateRole m rid name ps t = Inr t'" shows "keeps m t t'"
proof -
  from run have role: "rid \<in> ro_id ` set (mt_roles t)"
    by (auto simp: updateRole_def result_simps split: option.splits dest!: find_in)
  from run have "\<exists>n. mt_roles t' = map (\<lambda>r. if ro_id r = rid then r\<lparr>ro_name := n\<rparr> else r) (mt_roles t)"
    by (auto simp: updateRole_def result_simps Let_def split: option.splits)
  then obtain n where roles: "mt_roles t' = map (\<lambda>r. if ro_id r = rid then r\<lparr>ro_name := n\<rparr> else r) (mt_roles t)" by blast
  from run have same: "mt_assigned t' = mt_assigned t" "mt_members t' = mt_members t" "mt_invitations t' = mt_invitations t"
    and rows: "\<And>x. x \<in> set (mt_permissions t') \<Longrightarrow> x \<in> set (mt_permissions t) \<or> (fst x = rid \<and> hasPermission (mc_roles m) (snd x))"
    by (auto simp: updateRole_def result_simps Let_def split: option.splits dest!: find_in)
  have f: "map ro_id (mt_roles t') = map ro_id (mt_roles t)" "map ro_key (mt_roles t') = map ro_key (mt_roles t)" by (auto simp: roles)
  have o: "ownerRole t' r \<longleftrightarrow> ownerRole t r" for r
    unfolding ownerRole_def list_ex_iff [symmetric] roles by (auto simp: list_ex_map isOwnerRow_def intro!: list_ex_cong)
  show ?thesis
  proof (rule keepsR [OF t])
    have "ro_id ` set (mt_roles t') = ro_id ` set (mt_roles t)" using f(1) by (metis set_map)
    then show "tables_ok t'" using t role rows f same by (fastforce simp: tables_ok_def list_all_iff)
    show "gives t r p" if "\<not> hasPermission (mc_roles m) p" "gives t' r p" for r p
      using that rows [of "(r, p)"] by (auto simp: gives_def o)
  qed (use o same in auto)
qed

lemma moveAssignees_in:
  "a \<in> set (moveAssignees r s rows) \<Longrightarrow> (a \<in> set rows \<and> snd a \<noteq> r) \<or> (snd a = s \<and> (fst a, r) \<in> set rows)"
  by (auto simp: moveAssignees_def split: if_splits)

lemma distinct_moveAssignees: "distinct rows \<Longrightarrow> r \<noteq> s \<Longrightarrow> distinct (moveAssignees r s rows)"
  unfolding moveAssignees_def by (auto simp: distinct_map inj_on_def split: if_splits)

lemma deleteRole_keeps:
  assumes t: "tables_ok t" and run: "deleteRole m rid key t = Inr t'" shows "keeps m t t'"
proof -
  from run have role: "\<not> ownerRole t rid"
    using ownerRole_iff [OF t] by (auto simp: deleteRole_def result_simps isOwnerRow_def split: option.splits dest!: find_in)
  from run have i: "\<And>i. i \<in> set (mt_invitations t) \<Longrightarrow> iv_roleId i \<noteq> rid"
    and t': "mt_roles t' = filter (\<lambda>r. ro_id r \<noteq> rid) (mt_roles t)" "mt_permissions t' = filter (\<lambda>x. fst x \<noteq> rid) (mt_permissions t)"
      "mt_members t' = mt_members t" "mt_invitations t' = mt_invitations t"
    by (auto simp: deleteRole_def result_simps Let_def list_ex_iff split: option.splits if_splits)
  from run consider "mt_assigned t' = mt_assigned t" "\<forall>a \<in> set (mt_assigned t). snd a \<noteq> rid"
    | s where "s \<in> set (mt_roles t)" "ro_id s \<noteq> rid" "inAuthority m t (ro_id s)" "mt_assigned t' = moveAssignees rid (ro_id s) (mt_assigned t)"
    using ownerRole_iff [OF t]
    by (auto simp: deleteRole_def result_simps Let_def filter_empty_conv inAuthority_def split: option.splits if_splits dest!: roleByKey_Inr)
  then have d: "distinct (mt_assigned t')"
    and a: "\<And>u r. (u, r) \<in> set (mt_assigned t') \<Longrightarrow> r \<noteq> rid \<and> ((u, r) \<in> set (mt_assigned t) \<or> inAuthority m t r \<and> (u, rid) \<in> set (mt_assigned t))"
    and b: "\<And>u r. (u, r) \<in> set (mt_assigned t) \<Longrightarrow> r \<noteq> rid \<Longrightarrow> (u, r) \<in> set (mt_assigned t')"
    using t distinct_moveAssignees by (cases; force simp: tables_ok_def moveAssignees_def dest: moveAssignees_in)+
  have o: "ownerRole t' r \<longleftrightarrow> ownerRole t r" for r using role by (auto simp: ownerRole_def t')
  show ?thesis
  proof (rule keepsR [OF t _ t'(4,3)])
    have "u \<in> mb_userId ` set (mt_members t) \<and> r \<in> ro_id ` set (mt_roles t)" if "(u, r) \<in> set (mt_assigned t')" for u r
      using a [OF that] assigned_rows [OF t, of u r] assigned_rows(2) [OF t, of u rid] by (auto simp: inAuthority_def)
    then show "tables_ok t'" using t d a i by (fastforce simp: tables_ok_def list_all_iff t' distinct_map_filter)
    show "gives t r p" if "gives t' r p" for r p using that by (auto simp: gives_def o t')
  qed (use a b o role in auto)
qed

end
