(* ===== verification/Invitations.thy ===== *)
theory Invitations
  imports Member_Roles
begin

text \<open>
  apps/api/src/modules/tenancy/invitations.service.ts and the database routine
  \<open>provision_accept_invitation\<close> it calls (infrastructure/database/migrations/0038_provisioning_assertions.sql):
  the other way into a business. Then the service as a whole: members resolve their context, give commands under a
  context resolved then or earlier, and invitations are accepted, in any order. The token is given by its hash; mail,
  the audit rows and the signature of the provisioning assertion are not modelled, and the columns of dates only where
  a decision reads them.
\<close>

subsection \<open>Inviting\<close>

definition sweepExpired :: "int \<Rightarrow> MemberTables \<Rightarrow> MemberTables" where
  "sweepExpired now t = t\<lparr>mt_invitations := map (\<lambda>i. if iv_status i = ''pending'' \<and> iv_expiresAt i \<le> now
     then i\<lparr>iv_status := ''expired''\<rparr> else i) (mt_invitations t)\<rparr>"

text \<open>72 hours, in milliseconds.\<close>

definition INVITE_TTL :: int where
  "INVITE_TTL = 72 * 60 * 60 * 1000"

text \<open>A duplicate id, token or pending address, which the insert alone would notice, is answered as the duplicate
  the query before it looks for.\<close>

definition invite :: "Surroundings \<Rightarrow> MembershipContext \<Rightarrow> string \<Rightarrow> string \<Rightarrow> string \<Rightarrow> MemberTables \<Rightarrow> MemberTables result" where
  "invite env m email roleKey tokenHash t =
     (if roleKey = ''owner'' then refuse (AppError ''FORBIDDEN'')
      else bindR (case su_userByEmail env email of None \<Rightarrow> Inr () | Some userId \<Rightarrow>
             if list_ex (\<lambda>x. mb_userId x = userId \<and> (mb_status x = ''active'' \<or> mb_status x = ''invited'')) (mt_members t)
             then refuse (AppError ''ALREADY_MEMBER'') else Inr ()) (\<lambda>_.
      let t1 = sweepExpired (su_now env) t
      in case find (\<lambda>r. ro_key r = roleKey) (mt_roles t1) of None \<Rightarrow> refuse (AppError ''VALIDATION_FAILED'') | Some role \<Rightarrow>
        if ro_isSystem role then refuse (AppError ''FORBIDDEN'')
        else bindR (assertRoleWithinCeiling t1 m (ro_id role)) (\<lambda>_.
          if list_ex (\<lambda>i. sameEmail (iv_email i) email \<and> pendingAt (su_now env) i) (mt_invitations t1)
            then refuse (AppError ''INVITATION_EXISTS'')
          else bindR (assertCanConsumeUser t1 env) (\<lambda>_.
            if list_ex (\<lambda>i. iv_id i = su_newId env \<or> iv_tokenHash i = tokenHash
                 \<or> sameEmail (iv_email i) email \<and> iv_status i = ''pending'') (mt_invitations t1)
              then refuse (AppError ''INVITATION_EXISTS'')
            else Inr (t1\<lparr>mt_invitations := mt_invitations t1 @ [\<lparr>iv_id = su_newId env, iv_email = email, iv_roleId = ro_id role,
                   iv_tokenHash = tokenHash, iv_status = ''pending'', iv_expiresAt = su_now env + INVITE_TTL\<rparr>]\<rparr>)))))"

definition cancelInvitation :: "string \<Rightarrow> MemberTables \<Rightarrow> MemberTables result" where
  "cancelInvitation invitationId t =
     (if \<not> list_ex (\<lambda>i. iv_id i = invitationId \<and> iv_status i = ''pending'') (mt_invitations t) then refuse (AppError ''NOT_FOUND'')
      else Inr (t\<lparr>mt_invitations := map (\<lambda>i. if iv_id i = invitationId \<and> iv_status i = ''pending''
             then i\<lparr>iv_status := ''cancelled''\<rparr> else i) (mt_invitations t)\<rparr>))"

text \<open>The rotated token must be new: the column is unique.\<close>

definition resendInvitation :: "Surroundings \<Rightarrow> string \<Rightarrow> string \<Rightarrow> MemberTables \<Rightarrow> MemberTables result" where
  "resendInvitation env invitationId tokenHash t =
     (let t1 = sweepExpired (su_now env) t
      in case find (\<lambda>i. iv_id i = invitationId) (mt_invitations t1) of None \<Rightarrow> refuse (AppError ''NOT_FOUND'') | Some current \<Rightarrow>
        if iv_status current = ''expired'' then refuse (AppError ''INVITATION_EXPIRED'')
        else if \<not> list_ex (\<lambda>i. iv_id i = invitationId \<and> iv_status i = ''pending'') (mt_invitations t1) then refuse (AppError ''NOT_FOUND'')
        else if list_ex (\<lambda>i. iv_id i \<noteq> invitationId \<and> iv_tokenHash i = tokenHash) (mt_invitations t1) then refuse Thrown_Error
        else Inr (t1\<lparr>mt_invitations := map (\<lambda>i. if iv_id i = invitationId \<and> iv_status i = ''pending''
               then i\<lparr>iv_tokenHash := tokenHash, iv_expiresAt := su_now env + INVITE_TTL\<rparr> else i) (mt_invitations t1)\<rparr>))"

subsection \<open>Accepting\<close>

text \<open>The routine of the database, for the user the provisioning assertion names and the address of that user.\<close>

definition provision_accept_invitation ::
  "Surroundings \<Rightarrow> string \<Rightarrow> string \<Rightarrow> string option \<Rightarrow> MemberTables \<Rightarrow> MemberTables result" where
  "provision_accept_invitation env tokenHash actor actorEmail t =
     (case find (\<lambda>i. iv_tokenHash i = tokenHash \<and> iv_status i = ''pending'') (mt_invitations t) of
        None \<Rightarrow> refuse (AppError ''NOT_FOUND'')
      | Some offer \<Rightarrow>
        case actorEmail of None \<Rightarrow> refuse (AppError ''FORBIDDEN'') | Some email \<Rightarrow>
        if toLowerCase email \<noteq> toLowerCase (iv_email offer) then refuse (AppError ''FORBIDDEN'')
        else let t1 = t\<lparr>mt_invitations := map (\<lambda>i. if iv_id i = iv_id offer then i\<lparr>iv_status := ''accepted''\<rparr> else i) (mt_invitations t)\<rparr>
        in if su_usersLimit env \<noteq> -1 \<and> su_usersLimit env < usersInUse t1 (su_now env) + 1 then refuse (AppError ''PLAN_LIMIT_EXCEEDED'')
        else bindR (formerMember actor t1) (\<lambda>t2.
          let t3 = upsertMember actor (joinTenant actor t2)
          in bindR (insertKey (actor, iv_roleId offer) (mt_assigned t3)) (\<lambda>assigned. Inr (t3\<lparr>mt_assigned := assigned\<rparr>))))"

datatype Joiner = Known_user string | New_user string

text \<open>Who accepts: an active user with the address of the invitation, or a user registered now with that address.\<close>

definition identifyJoiner :: "Surroundings \<Rightarrow> InvitationRow \<Rightarrow> Joiner \<Rightarrow> (string \<times> string option) result" where
  "identifyJoiner env row joiner = (case joiner of
     Known_user userId \<Rightarrow> (case su_activeEmailOf env userId of None \<Rightarrow> refuse (AppError ''UNAUTHENTICATED'')
       | Some email \<Rightarrow> if toLowerCase email \<noteq> toLowerCase (iv_email row) then refuse (AppError ''FORBIDDEN'') else Inr (userId, Some email))
   | New_user email \<Rightarrow> if toLowerCase email \<noteq> toLowerCase (iv_email row) then refuse (AppError ''VALIDATION_FAILED'')
       else if su_userByEmail env email \<noteq> None then refuse (AppError ''EMAIL_TAKEN'') else Inr (su_newId env, Some email))"

text \<open>The rows after the call and its answer: an expired invitation is marked so in a transaction of its own, and refused.\<close>

definition acceptInvitation :: "Surroundings \<Rightarrow> string \<Rightarrow> Joiner \<Rightarrow> MemberTables \<Rightarrow> MemberTables \<times> unit result" where
  "acceptInvitation env tokenHash joiner t =
     (case find (\<lambda>i. iv_tokenHash i = tokenHash \<and> iv_status i = ''pending'') (mt_invitations t) of
        None \<Rightarrow> (t, refuse (AppError ''NOT_FOUND''))
      | Some row \<Rightarrow>
        if iv_expiresAt row < su_now env
        then (t\<lparr>mt_invitations := map (\<lambda>i. if iv_id i = iv_id row \<and> iv_status i = ''pending''
                 then i\<lparr>iv_status := ''expired''\<rparr> else i) (mt_invitations t)\<rparr>, refuse (AppError ''INVITATION_EXPIRED''))
        else case bindR (identifyJoiner env row joiner) (\<lambda>(userId, email). provision_accept_invitation env tokenHash userId email t) of
               Inl e \<Rightarrow> (t, Inl e) | Inr t' \<Rightarrow> (t', Inr ()))"

subsection \<open>The service\<close>

datatype Command =
    Add_member string string
  | Create_role string string "string list"
  | Update_role string "string option" "string list option"
  | Delete_role string "string option"
  | Remove_member string
  | Suspend_member string
  | Reactivate_member string
  | Set_member_roles string "string list"
  | Set_branch_scope string BranchScopeMode "string list"
  | Invite string string string
  | List_invitations
  | Cancel_invitation string
  | Resend_invitation string string

fun runCommand :: "Surroundings \<Rightarrow> MembershipContext \<Rightarrow> Command \<Rightarrow> MemberTables \<Rightarrow> MemberTables result" where
  "runCommand env m (Add_member email roleKey) t = addMember env m email roleKey t"
| "runCommand env m (Create_role key name ps) t = createRole env m key name ps t"
| "runCommand env m (Update_role roleId name ps) t = updateRole m roleId name ps t"
| "runCommand env m (Delete_role roleId key) t = deleteRole m roleId key t"
| "runCommand env m (Remove_member userId) t = removeMember userId t"
| "runCommand env m (Suspend_member userId) t = setMemberSuspended env userId True t"
| "runCommand env m (Reactivate_member userId) t = setMemberSuspended env userId False t"
| "runCommand env m (Set_member_roles userId keys) t = setMemberRoles m userId keys t"
| "runCommand env m (Set_branch_scope userId mode branches) t = setBranchScope userId mode branches t"
| "runCommand env m (Invite email roleKey tokenHash) t = invite env m email roleKey tokenHash t"
| "runCommand env m List_invitations t = Inr (sweepExpired (su_now env) t)"
| "runCommand env m (Cancel_invitation i) t = cancelInvitation i t"
| "runCommand env m (Resend_invitation i tokenHash) t = resendInvitation env i tokenHash t"

text \<open>A context is resolved once per request and used later, when the rows may have changed: \<open>Give env n c\<close> gives the
  command \<open>c\<close> under the \<open>n\<close>-th context resolved so far, however long ago that was.\<close>

datatype Request =
    Resolve string
  | Give Surroundings nat Command
  | Accept Surroundings string Joiner

record Service =
  sv_tables :: MemberTables
  sv_contexts :: "MembershipContext list"

fun serve :: "Service \<Rightarrow> Request \<Rightarrow> Service" where
  "serve s (Resolve userId) = (case resolveMembership (sv_tables s) userId of
     Inl e \<Rightarrow> s | Inr m \<Rightarrow> s\<lparr>sv_contexts := sv_contexts s @ [m]\<rparr>)"
| "serve s (Give env n c) = (if n < length (sv_contexts s)
     then (case runCommand env (sv_contexts s ! n) c (sv_tables s) of Inl e \<Rightarrow> s | Inr t \<Rightarrow> s\<lparr>sv_tables := t\<rparr>) else s)"
| "serve s (Accept env tokenHash joiner) = s\<lparr>sv_tables := fst (acceptInvitation env tokenHash joiner (sv_tables s))\<rparr>"

definition served :: "MemberTables \<Rightarrow> Request list \<Rightarrow> MemberTables" where
  "served t requests = sv_tables (foldl serve \<lparr>sv_tables = t, sv_contexts = []\<rparr> requests)"

definition actors :: "Request list \<Rightarrow> string set" where
  "actors requests = {u. Resolve u \<in> set requests}"

subsection \<open>Every command keeps the contract\<close>

text \<open>A command that only touches invitations, none of which offers more than before or than the member may give.\<close>

lemma invitations_keep:
  assumes t: "tables_ok t" and f: "t' = t\<lparr>mt_invitations := is\<rparr>"
    and i: "\<And>i. i \<in> set is \<Longrightarrow> inAuthority m t (iv_roleId i)
      \<or> (\<exists>j \<in> set (mt_invitations t). iv_roleId i = iv_roleId j \<and> (iv_status i = ''pending'' \<longrightarrow> iv_status j = ''pending''))"
  shows "keeps m t t'"
proof (rule keepsI [OF t])
  have "activeMember t' = activeMember t" by (rule activeMember_members) (simp add: f)
  then show "hasOwner t'" if "hasOwner t" using that by (simp add: hasOwner_def owns_def ownerRole_def f)
qed (use t i in \<open>auto simp: f tables_ok_def\<close>)

lemma mapped_invitation:
  assumes "\<And>j. iv_roleId (f j) = iv_roleId j \<and> (iv_status (f j) = ''pending'' \<longrightarrow> iv_status j = ''pending'')" "i \<in> set (map f js)"
  shows "\<exists>j \<in> set js. iv_roleId i = iv_roleId j \<and> (iv_status i = ''pending'' \<longrightarrow> iv_status j = ''pending'')"
  using assms by auto

lemma mapped_keep:
  assumes "tables_ok t" "\<And>j. iv_roleId (f j) = iv_roleId j \<and> (iv_status (f j) = ''pending'' \<longrightarrow> iv_status j = ''pending'')"
  shows "keeps m t (t\<lparr>mt_invitations := map f (mt_invitations t)\<rparr>)"
  by (rule invitations_keep [OF assms(1) refl disjI2]) (rule mapped_invitation [OF assms(2)])

lemma sweepExpired_keeps: "tables_ok t \<Longrightarrow> keeps m t (sweepExpired now t)"
  unfolding sweepExpired_def by (rule mapped_keep) auto

lemma keeps_trans:
  assumes "keeps m t t'" "keeps m t' t''" shows "keeps m t t''"
  using assms by (auto simp: keeps_def)

lemma invite_keeps:
  assumes t: "tables_ok t" and run: "invite env m email key h t = Inr t'" shows "keeps m t t'"
proof -
  let ?s = "sweepExpired (su_now env) t"
  have s: "mt_roles ?s = mt_roles t" "mt_permissions ?s = mt_permissions t" by (simp_all add: sweepExpired_def)
  from run obtain role where role: "role \<in> set (mt_roles t)" "\<not> ro_isSystem role"
    and c: "\<forall>p. (ro_id role, p) \<in> set (mt_permissions t) \<longrightarrow> hasPermission (mc_roles m) p"
    and t': "t' = ?s\<lparr>mt_invitations := mt_invitations ?s @ [\<lparr>iv_id = su_newId env, iv_email = email, iv_roleId = ro_id role,
                   iv_tokenHash = h, iv_status = ''pending'', iv_expiresAt = su_now env + INVITE_TTL\<rparr>]\<rparr>"
    by (auto simp: invite_def result_simps Let_def s split: option.splits dest!: find_in)
  note k = sweepExpired_keeps [OF t, of m "su_now env"]
  then have ok: "tables_ok ?s" by (simp add: keeps_def)
  have "inAuthority m ?s (ro_id role)"
    using role c ownerRole_iff [OF ok, of role] by (auto simp: inAuthority_def isOwnerRow_def s)
  then have "keeps m ?s t'" unfolding t' by (intro invitations_keep [OF ok refl]) auto
  with k show ?thesis by (rule keeps_trans)
qed

lemma runCommand_keeps:
  assumes "tables_ok t" "runCommand env m c t = Inr t'" shows "keeps m t t'"
proof (cases c)
  case List_invitations
  with assms(2) have "t' = sweepExpired (su_now env) t" by simp
  with sweepExpired_keeps [OF assms(1)] show ?thesis by simp
next
  case (Cancel_invitation x)
  with assms(2) have t': "t' = t\<lparr>mt_invitations := map (\<lambda>i. if iv_id i = x \<and> iv_status i = ''pending''
             then i\<lparr>iv_status := ''cancelled''\<rparr> else i) (mt_invitations t)\<rparr>"
    by (simp add: cancelInvitation_def result_simps)
  show ?thesis unfolding t' by (rule mapped_keep [OF assms(1)]) auto
next
  case (Resend_invitation x h)
  let ?s = "sweepExpired (su_now env) t"
  from Resend_invitation assms(2) have t': "t' = ?s\<lparr>mt_invitations := map (\<lambda>i. if iv_id i = x \<and> iv_status i = ''pending''
               then i\<lparr>iv_tokenHash := h, iv_expiresAt := su_now env + INVITE_TTL\<rparr> else i) (mt_invitations ?s)\<rparr>"
    by (auto simp: resendInvitation_def result_simps Let_def split: option.splits)
  note k = sweepExpired_keeps [OF assms(1), of m "su_now env"]
  then have "keeps m ?s t'" unfolding t' by (intro mapped_keep) (auto simp: keeps_def)
  with k show ?thesis by (rule keeps_trans)
qed (use assms in \<open>auto intro: addMember_keeps createRole_keeps updateRole_keeps deleteRole_keeps removeMember_keeps
  setMemberSuspended_keeps setMemberRoles_keeps setBranchScope_keeps invite_keeps\<close>)

text \<open>Accepting is a command within the authority of one who holds just what the invitation offers.\<close>

definition offering :: "MemberTables \<Rightarrow> string \<Rightarrow> MembershipContext" where
  "offering t r = \<lparr>mc_tenantId = [], mc_businessId = [], mc_userId = [],
     mc_roles = [\<lparr>rr_key = [], rr_isSystem = False, rr_permissions = {p. p \<noteq> '''' \<and> (r, p) \<in> set (mt_permissions t)}\<rparr>],
     mc_roleKeys = [], mc_branchScopeMode = Scope_all, mc_allowedBranchIds = []\<rparr>"

lemma offering_holds: "hasPermission (mc_roles (offering t r)) p \<longleftrightarrow> p \<noteq> '''' \<and> (r, p) \<in> set (mt_permissions t)"
  by (auto simp: offering_def isSystemOwnerRole_def)

lemma accept_keeps:
  assumes t: "tables_ok t" and o: "\<not> offersOwner t" and run: "fst (acceptInvitation env h joiner t) = t'"
  shows "t' = t \<or> (\<exists>m. keeps m t t' \<and> (\<forall>p. hasPermission (mc_roles m) p \<longrightarrow> offers t p))"
proof (cases "find (\<lambda>i. iv_tokenHash i = h \<and> iv_status i = ''pending'') (mt_invitations t)")
  case (Some row)
  then have row: "row \<in> set (mt_invitations t)" "iv_status row = ''pending''" by (auto dest: find_in)
  let ?r = "iv_roleId row"
  let ?m = "offering t ?r"
  have of: "\<forall>p. hasPermission (mc_roles ?m) p \<longrightarrow> offers t p" using row by (auto simp: offering_holds offers_def gives_def)
  have r: "inAuthority ?m t ?r"
    using t row o by (auto simp: inAuthority_def offering_holds offersOwner_def tables_ok_def list_all_iff)
  consider "t' = t" | "t' = t\<lparr>mt_invitations := map (\<lambda>i. if iv_id i = iv_id row \<and> iv_status i = ''pending''
                 then i\<lparr>iv_status := ''expired''\<rparr> else i) (mt_invitations t)\<rparr>"
    | u e where "provision_accept_invitation env h u e t = Inr t'"
    using run Some by (auto simp: acceptInvitation_def result_simps split: sum.splits if_splits prod.splits)
  then show ?thesis
  proof cases
    case 2
    have "keeps ?m t t'" unfolding 2 by (rule mapped_keep [OF t]) auto
    with of show ?thesis by blast
  next
    case (3 u e)
    let ?t = "t\<lparr>mt_invitations := map (\<lambda>i. if iv_id i = iv_id row then i\<lparr>iv_status := ''accepted''\<rparr> else i) (mt_invitations t)\<rparr>"
    from 3 Some obtain s where s: "formerMember u ?t = Inr s" and g: "(u, ?r) \<notin> set (mt_assigned s)"
      and t': "t' = (upsertMember u (joinTenant u s))\<lparr>mt_assigned := mt_assigned s @ [(u, ?r)]\<rparr>"
      by (auto simp: provision_accept_invitation_def result_simps Let_def split: option.splits)
    have "keeps ?m t ?t" by (rule mapped_keep [OF t]) auto
    then have ok: "tables_ok ?t" by (simp add: keeps_def)
    have n: "\<not> activeMember t u" using formerMember_Inr(1) [OF ok s] activeMember_members [of ?t t] by simp
    have js: "mt_invitations s = map (\<lambda>i. if iv_id i = iv_id row then i\<lparr>iv_status := ''accepted''\<rparr> else i) (mt_invitations t)"
      using formerMember_Inr(2) [OF ok s] by auto
    have j: "\<exists>j \<in> set (mt_invitations t). iv_roleId i = iv_roleId j \<and> (iv_status i = ''pending'' \<longrightarrow> iv_status j = ''pending'')"
      if "i \<in> set (mt_invitations s)" for i
      using that unfolding js by (rule mapped_invitation [rotated]) auto
    have "keeps ?m t t'" unfolding t'
      using formerMember_Inr(2) [OF ok s] t by (intro join_keeps [OF t n r _ _ _ _ _ _ j g]) (auto simp: tables_ok_def)
    with of show ?thesis by blast
  qed simp
qed (use run in \<open>simp add: acceptInvitation_def\<close>)

subsection \<open>Properties\<close>

text \<open>What the rows keep along a run, for permissions no context in use holds and no open invitation offers.\<close>

definition sound_service :: "MemberTables \<Rightarrow> string set \<Rightarrow> Service \<Rightarrow> bool" where
  "sound_service t Q s \<longleftrightarrow> tables_ok (sv_tables s) \<and> \<not> offersOwner (sv_tables s)
     \<and> (hasOwner t \<longrightarrow> hasOwner (sv_tables s)) \<and> (\<forall>u. owns (sv_tables s) u \<longrightarrow> owns t u)
     \<and> (\<forall>p \<in> Q. (\<forall>u. holds (sv_tables s) u p \<longrightarrow> holds t u p) \<and> \<not> offers (sv_tables s) p
          \<and> (\<forall>m \<in> set (sv_contexts s). \<not> hasPermission (mc_roles m) p))"

lemma sound_keeps:
  assumes "sound_service t Q s" "keeps m (sv_tables s) t'" "\<forall>p \<in> Q. \<not> hasPermission (mc_roles m) p"
  shows "sound_service t Q (s\<lparr>sv_tables := t'\<rparr>)"
  using assms unfolding sound_service_def keeps_def by auto

lemma sound_serve:
  assumes s: "sound_service t Q s" and a: "\<And>u p. r = Resolve u \<Longrightarrow> p \<in> Q \<Longrightarrow> \<not> holds t u p"
  shows "sound_service t Q (serve s r)"
proof (cases r)
  case (Resolve u)
  show ?thesis
  proof (cases "resolveMembership (sv_tables s) u")
    case (Inr m)
    have "\<not> hasPermission (mc_roles m) p" if "p \<in> Q" for p
      using that a [OF Resolve that] s resolve_standing(1) [OF _ Inr] standing_iff [of "sv_tables s" u p] by (auto simp: sound_service_def)
    with s show ?thesis by (auto simp: Resolve Inr sound_service_def)
  qed (use s in \<open>simp add: Resolve\<close>)
next
  case (Give env n c)
  show ?thesis
  proof (cases "n < length (sv_contexts s) \<and> (\<exists>t'. runCommand env (sv_contexts s ! n) c (sv_tables s) = Inr t')")
    case True
    then obtain t' where run: "n < length (sv_contexts s)" "runCommand env (sv_contexts s ! n) c (sv_tables s) = Inr t'" by blast
    have "tables_ok (sv_tables s)" "\<forall>p \<in> Q. \<not> hasPermission (mc_roles (sv_contexts s ! n)) p"
      using s run(1) by (auto simp: sound_service_def)
    with sound_keeps [OF s runCommand_keeps [OF _ run(2)]] show ?thesis by (simp add: Give run)
  next
    case False
    with s show ?thesis by (auto simp: Give split: sum.splits)
  qed
next
  case (Accept env h j)
  let ?t = "fst (acceptInvitation env h j (sv_tables s))"
  consider "?t = sv_tables s" | m where "keeps m (sv_tables s) ?t" "\<forall>p. hasPermission (mc_roles m) p \<longrightarrow> offers (sv_tables s) p"
    using accept_keeps [OF _ _ refl, of "sv_tables s" env h j] s by (auto simp: sound_service_def)
  then show ?thesis
  proof cases
    case (2 m)
    then have "\<forall>p \<in> Q. \<not> hasPermission (mc_roles m) p" using s by (auto simp: sound_service_def)
    with sound_keeps [OF s 2(1)] show ?thesis by (simp add: Accept)
  qed (use s in \<open>simp add: Accept\<close>)
qed

lemma sound_served:
  assumes "tables_ok t" "\<not> offersOwner t" "\<forall>p \<in> Q. \<not> offers t p" "\<forall>u \<in> actors rs. \<forall>p \<in> Q. \<not> holds t u p"
  shows "sound_service t Q (foldl serve \<lparr>sv_tables = t, sv_contexts = []\<rparr> rs)"
  using assms(4)
proof (induction rs rule: rev_induct)
  case Nil
  with assms show ?case by (simp add: sound_service_def)
next
  case (snoc r rs)
  then have "sound_service t Q (foldl serve \<lparr>sv_tables = t, sv_contexts = []\<rparr> rs)" by (simp add: actors_def)
  then have "sound_service t Q (serve (foldl serve \<lparr>sv_tables = t, sv_contexts = []\<rparr> rs) r)"
    by (rule sound_serve) (use snoc.prems in \<open>auto simp: actors_def\<close>)
  then show ?case by simp
qed

text \<open>C33: Delegation never widens authority. Members resolve their contexts, give any commands on members, roles and
  invitations under contexts resolved then or earlier, and invitations are accepted, in any order; refused calls change
  nothing. If the rows are sound at the start, no one who acts holds a permission then and no open invitation offers it, then
  whoever holds it at the end held it at the start. To hold it is to be granted it by one's assigned roles, and those are what
  resolving an active membership answers.\<close>

theorem delegation_never_widens:
  assumes "tables_ok t" "\<forall>u \<in> actors requests. \<not> hasPermission (standing t u) p" "\<not> offers t p"
  shows "(hasPermission (standing (served t requests) v) p \<longrightarrow> hasPermission (standing t v) p)
    \<and> (\<forall>m. resolveMembership (served t requests) v = Inr m \<longrightarrow> mc_roles m = standing (served t requests) v)"
proof -
  have "\<not> offersOwner t" using assms(3) by (auto simp: offersOwner_def offers_def gives_def)
  with assms have "sound_service t {p} (foldl serve \<lparr>sv_tables = t, sv_contexts = []\<rparr> requests)"
    by (intro sound_served) (simp_all add: standing_iff)
  then have "tables_ok (served t requests)" "holds (served t requests) v p \<longrightarrow> holds t v p"
    by (simp_all add: sound_service_def served_def)
  then show ?thesis using standing_iff assms(1) resolve_standing(1) by simp
qed

text \<open>A business: its owner, a manager, and a role for the till. The manager invites, a user registers and joins, the
  manager then hands over a second role and tries to hand over the owner's.\<close>

definition sample_business :: MemberTables where
  "sample_business = \<lparr>mt_tenantId = ''t'', mt_businessId = ''b'', mt_businessStatus = ''active'',
     mt_roles = [\<lparr>ro_id = ''r1'', ro_key = ''owner'', ro_name = ''Owner'', ro_isSystem = True\<rparr>,
       \<lparr>ro_id = ''r2'', ro_key = ''lead'', ro_name = ''Lead'', ro_isSystem = False\<rparr>,
       \<lparr>ro_id = ''r3'', ro_key = ''till'', ro_name = ''Till'', ro_isSystem = False\<rparr>],
     mt_permissions = [(''r2'', ''role.assign''), (''r2'', ''member.invite''), (''r2'', ''sales.view''), (''r3'', ''sales.view'')],
     mt_members = [\<lparr>mb_userId = ''o'', mb_status = ''active'', mb_branchScopeMode = ''all''\<rparr>,
       \<lparr>mb_userId = ''o2'', mb_status = ''active'', mb_branchScopeMode = ''all''\<rparr>,
       \<lparr>mb_userId = ''m'', mb_status = ''active'', mb_branchScopeMode = ''all''\<rparr>],
     mt_assigned = [(''o'', ''r1''), (''o2'', ''r1''), (''m'', ''r2'')], mt_scopes = [], mt_branches = [],
     mt_invitations = [], mt_tenantMembers = [''o'', ''o2'', ''m'']\<rparr>"

definition sample_surroundings :: Surroundings where
  "sample_surroundings = \<lparr>su_now = 0, su_newId = ''n'', su_customRoles = True, su_usersLimit = 9, su_userByEmail = (\<lambda>_. None),
     su_activeUserByEmail = (\<lambda>_. None), su_activeEmailOf = (\<lambda>_. None)\<rparr>"

definition sample_requests :: "Request list" where
  "sample_requests = [Resolve ''m'', Give sample_surroundings 0 (Invite ''a@b'' ''till'' ''h''),
     Accept sample_surroundings ''h'' (New_user ''A@b''), Give sample_surroundings 0 (Set_member_roles ''n'' [''till'', ''lead'']),
     Give sample_surroundings 0 (Set_member_roles ''n'' [''owner''])]"

lemma sample_business_ok: "tables_ok sample_business" "\<not> offers sample_business p" "\<not> offersOwner sample_business"
  by (simp_all add: tables_ok_def offers_def offersOwner_def sample_business_def)

lemma sample_actors: "actors sample_requests = {''m''}"
  by (auto simp: actors_def sample_requests_def)

theorem delegation_never_widens_witness:
  "hasPermission (standing (served sample_business sample_requests) ''n'') ''role.assign''
   \<and> \<not> hasPermission (standing (served sample_business sample_requests) ''n'') ''billing.manage''
   \<and> hasPermission (standing sample_business ''o'') ''billing.manage''"
proof -
  let ?p = "''billing.manage''"
  have m: "\<not> hasPermission (standing sample_business ''m'') ?p" by code_simp
  note d = delegation_never_widens [OF sample_business_ok(1) _ sample_business_ok(2), of sample_requests ?p, unfolded sample_actors]
  have "hasPermission (standing (served sample_business sample_requests) ''n'') ''role.assign''" by code_simp
  moreover have "\<not> hasPermission (standing sample_business ''n'') ?p" by code_simp
  then have "\<not> hasPermission (standing (served sample_business sample_requests) ''n'') ?p" using d [of "''n''"] m by blast
  moreover have "hasPermission (standing (served sample_business sample_requests) ''o'') ?p" by code_simp
  then have "hasPermission (standing sample_business ''o'') ?p" using d [of "''o''"] m by blast
  ultimately show ?thesis by blast
qed

text \<open>No command reads or writes the state of the business itself.\<close>

lemma business_status [simp]:
  "mt_businessStatus (setStatus u s t) = mt_businessStatus t" "mt_businessStatus (setMode u s t) = mt_businessStatus t"
  "mt_businessStatus (purgeAuthority u t) = mt_businessStatus t" "mt_businessStatus (upsertMember u t) = mt_businessStatus t"
  "mt_businessStatus (joinTenant u t) = mt_businessStatus t" "mt_businessStatus (sweepExpired now t) = mt_businessStatus t"
  by (simp_all add: setStatus_def setMode_def purgeAuthority_def upsertMember_def joinTenant_def sweepExpired_def)

lemma formerMember_business: "formerMember u t = Inr t' \<Longrightarrow> mt_businessStatus t' = mt_businessStatus t"
  by (auto simp: formerMember_def result_simps split: option.splits)

lemma runCommand_business:
  assumes "runCommand env m c t = Inr t'" shows "mt_businessStatus t' = mt_businessStatus t"
  using assms
  by (cases c)
    (auto simp: addMember_def createRole_def updateRole_def deleteRole_def removeMember_def setMemberSuspended_def setMemberRoles_def
      setBranchScope_def invite_def cancelInvitation_def resendInvitation_def result_simps Let_def
      dest!: formerMember_business split: option.splits if_splits)

lemma accept_business: "mt_businessStatus (fst (acceptInvitation env h j t)) = mt_businessStatus t"
  by (auto simp: acceptInvitation_def provision_accept_invitation_def result_simps Let_def
    dest!: formerMember_business split: option.splits sum.splits)

lemma serve_business: "mt_businessStatus (sv_tables (serve s r)) = mt_businessStatus (sv_tables s)"
  by (cases r) (auto simp: accept_business dest: runCommand_business split: sum.splits)

lemma served_business: "mt_businessStatus (served t rs) = mt_businessStatus t"
proof -
  have "mt_businessStatus (sv_tables (foldl serve s rs)) = mt_businessStatus (sv_tables s)" for s
    by (induction rs arbitrary: s) (simp_all add: serve_business)
  then show ?thesis by (simp add: served_def)
qed

text \<open>An active owner is one whose membership resolves, in an active business, to the owner's role.\<close>

lemma owner_standing:
  assumes "tables_ok t" shows "isSystemOwner (standing t u) \<longleftrightarrow> owns t u"
proof -
  have "isSystemOwner (standing t u) \<longleftrightarrow> hasPermission (standing t u) ''''"
    using grouped_permissions [of "[]" "roleRows (\<lambda>m. True) t u" "''''"] by (simp add: hasPermission_iff standing_def groupRoles_def)
  also have "\<dots> \<longleftrightarrow> owns t u" unfolding standing_iff [OF assms] by (simp add: holds_def gives_def owns_def)
  finally show ?thesis .
qed

lemma resolve_active:
  assumes "mt_businessStatus t = ''active''" "activeMember t u" shows "\<exists>m. resolveMembership t u = Inr m"
  using assms by (auto simp: resolveMembership_def activeMember_def list_ex_iff find_None_iff Let_def split: option.splits)

text \<open>C34: A business keeps an owner. If the rows are sound, some member resolves to the system owner's role and no open
  invitation is to that role, then after any calls, given in any order and under contexts resolved at any time, some member of
  the same business resolves to it still, and whoever is its owner was one at the start. Two owners who remove each other under
  contexts both resolved before leave one.\<close>

theorem business_keeps_owner:
  assumes "tables_ok t" "resolveMembership t u = Inr m" "isSystemOwner (mc_roles m)" "\<not> offersOwner t"
  shows "(\<exists>v m'. resolveMembership (served t requests) v = Inr m' \<and> isSystemOwner (mc_roles m'))
    \<and> (\<forall>v. isOwnerMember (served t requests) v \<longrightarrow> isOwnerMember t v)"
proof -
  have o: "activeMember t u" "owns t u" using resolve_standing [OF assms(1,2)] owner_standing [OF assms(1), of u] assms(3) by simp_all
  have "sound_service t {} (foldl serve \<lparr>sv_tables = t, sv_contexts = []\<rparr> requests)"
    using assms(1,4) by (intro sound_served) simp_all
  then have s: "tables_ok (served t requests)" "hasOwner (served t requests)" "\<forall>v. owns (served t requests) v \<longrightarrow> owns t v"
    using o by (auto simp: sound_service_def served_def intro: hasOwnerI)
  then obtain v where v: "activeMember (served t requests) v" "owns (served t requests) v" by (auto simp: hasOwner_def)
  have "mt_businessStatus t = ''active''" using assms(2) by (auto simp: resolveMembership_def dest: find_in split: option.splits)
  with v(1) obtain m' where "resolveMembership (served t requests) v = Inr m'"
    using resolve_active [of "served t requests" v] by (auto simp: served_business)
  moreover from resolve_standing(1) [OF s(1) this] have "isSystemOwner (mc_roles m')" using owner_standing [OF s(1)] v(2) by simp
  ultimately show ?thesis using s(3) by (auto simp: owns_iff)
qed

definition sample_removals :: "Request list" where
  "sample_removals = [Resolve ''o'', Resolve ''o2'', Give sample_surroundings 0 (Remove_member ''o2''),
     Give sample_surroundings 1 (Remove_member ''o'')]"

theorem business_keeps_owner_witness:
  "(\<exists>v m'. resolveMembership (served sample_business sample_removals) v = Inr m' \<and> isSystemOwner (mc_roles m'))
   \<and> \<not> isOwnerMember (served sample_business sample_removals) ''m'' \<and> \<not> isOwnerMember (served sample_business sample_removals) ''o2''"
proof -
  have "isSystemOwner (case resolveMembership sample_business ''o'' of Inl e \<Rightarrow> [] | Inr m \<Rightarrow> mc_roles m)" by code_simp
  then obtain m where m: "resolveMembership sample_business ''o'' = Inr m" "isSystemOwner (mc_roles m)"
    by (cases "resolveMembership sample_business ''o''") (simp_all add: isSystemOwner_def)
  have "\<not> isOwnerMember sample_business ''m''" "\<not> isOwnerMember (served sample_business sample_removals) ''o2''" by code_simp+
  with business_keeps_owner [OF sample_business_ok(1) m sample_business_ok(3), of sample_removals] show ?thesis by blast
qed

text \<open>A role that any invitation ever named, even one long accepted or cancelled, cannot be deleted: the command passes all
  checks of the service and is refused by the foreign key of the invitation, an error without a code.\<close>

theorem invited_role_undeletable:
  assumes "tables_ok t" "role \<in> set (mt_roles t)" "\<not> ro_isSystem role" "\<forall>a \<in> set (mt_assigned t). snd a \<noteq> ro_id role"
    and "i \<in> set (mt_invitations t)" "iv_roleId i = ro_id role"
  shows "deleteRole m (ro_id role) key t = refuse Thrown_Error"
proof -
  obtain r where r: "find (\<lambda>r. ro_id r = ro_id role) (mt_roles t) = Some r"
    using assms(2) by (cases "find (\<lambda>r. ro_id r = ro_id role) (mt_roles t)") (auto simp: find_None_iff)
  with unique_role [OF assms(1,2), of r] find_in [OF r] have "r = role" by simp
  with r assms(3-) show ?thesis by (auto simp: deleteRole_def list_ex_iff filter_empty_conv Let_def)
qed

end
