(* ===== verification/Spec2Isabelle.thy ===== *)
theory Spec2Isabelle
  imports Quantity Deficit_Coverage Purchase_Residue Supplier_Return Customer_Settlement Fx Posting Sale_Posting
    Assertions Signed_Commands Report_Agreement Control_Streams Permissions Reports_Service Reconciliation_Checks
    Ledger_Postings Receivables_Payloads Command_Authority Invitations
begin

text \<open>
  A verification development for daftar, a multi-tenant stock and accounting system for small
  businesses. The TypeScript packages compute in exact integers and sign what they computed; the API
  (src/apps/api) reads state, calls the packages, mints assertions and runs routines of the database,
  which recompute and store. Modelled are the packages inventory, accounting and the money and
  permission parts of domain-core, and of the API the financial reports, the reconciliation, the
  builders of postings and payloads, the authority of a command, and the members, roles and
  invitations of a business.

  \<^bold>\<open>The parts and their theories\<close> (paths under src/)

  Shared ground. Prelude: sequencing of fallible steps (\<open>bindR\<close>, \<open>mapR\<close>, \<open>runR\<close>), division of
  \<open>bigint\<close>, lists, the locale \<open>preserved\<close>. Refusals: every \<open>throw\<close> as a value of \<open>refusal\<close>, and
  \<open>'a result\<close> as a sum. Ascii_Text, Calendar: the text, number and date primitives of the language.
  Entries: double entry and the locale \<open>entry_gate\<close> of a check that returns its lines.

  Stock and purchases, packages/inventory/src. Fixed_Point (fixed-point.ts), Rounding (rounding.ts),
  Quantity (quantity.ts), Allocation (allocation.ts: the largest-remainder split and openings),
  Valuation (valuation.ts, rebuild.ts: the moving average of a stock key, request by request),
  Landed_Cost (landed-cost.ts, purchase-shares.ts), Deficit_Coverage (deficit-coverage.ts: receipts
  against sales below zero).

  Settlement, packages/inventory/src. Supplier_Settlement (supplier-settlement.ts: payments, credit
  allocations, refunds, the verdicts over stored chains), Supplier_Return (supplier-return.ts),
  Purchase_Residue (purchase-residue.ts), Customer_Settlement (customer-settlement.ts).

  Signed commands, packages/inventory/src. Payload_Schemas and Payload (payload.ts: the registry of
  operations, the canonical stream and its intent), Document_Text (reason-digest.ts and the text words),
  Payload_Parts (fields the builders share), Movement_Payloads, Party_Payloads, Document_Payloads,
  Sale_Payloads, Settlement_Payloads (one builder per operation: *-payloads.ts), Receivables_Payloads
  (apps/api receivables-payload.ts), Payload_Builders (the builders against the registry),
  Signed_Commands (what a signature binds), Assertions (assertion.ts of both packages,
  control-assertion.ts, assertion-keys.ts), Command_Authority (apps/api inventory-authorization.ts, the
  minter, read-scope.ts).

  Money and the journal. Money_Value (domain-core money.ts, currencies.ts), Fx (accounting fx.ts,
  fx-rate.ts, realized-fx.ts, rounding.ts), Fingerprint (fingerprint.ts), Posting (post.ts, sources.ts,
  domain-posting.ts), Sale_Posting (sale-posting.ts), Control_Streams (period.ts, fx-rate.ts, derived
  identities), Ledger_Postings (the posting builders of apps/api for stock documents, receipts, returns
  and both settlements).

  Reading the books. Report_Cursors and Reports (accounting reports.ts), Report_Reader and
  Reports_Service (apps/api accounting-reports.reader.ts and .service.ts), Report_Agreement (what the
  reports owe each other), Reconciliation (reconciliation.ts and its service), Reconciliation_Checks
  (the fourteen statements of the reader).

  Who may do what. Permissions (domain-core permissions.ts), Member_Roles (apps/api
  structure.service.ts, the resolution of tenancy.service.ts and the user quota), Invitations
  (invitations.service.ts with the database routine of the acceptance, and the whole service:
  \<open>serve\<close> resolves contexts, gives commands under any of them and accepts invitations).

  How they interact. A plan (Supplier_Settlement, Customer_Settlement, Supplier_Return,
  Purchase_Residue, Valuation) derives amounts and entry lines. A builder of Ledger_Postings turns the
  lines into a posting command, which Posting validates by converting every line again with Fx; a
  payload builder turns the amounts into fields, which Payload encodes and Assertions signs under an
  authority of Command_Authority. Reports and Reconciliation read the stored entries back.

  \<^bold>\<open>Conventions\<close>

  A \<open>bigint\<close> is an \<open>int\<close>, with every range check of the code; a \<open>number\<close> that may be fractional or
  not finite is a \<open>JsNumber\<close>; HMAC keys are lists of 8-bit words. A text the code takes for ASCII
  (identifiers, codes, dates, decimal amounts) is a \<open>string\<close>; free text is UTF-16, a list of code units,
  so that trimming, code points and lone surrogates are the language's. An interface is a record, one
  that extends another is a record extension, and an optional or nullable field an option. A definition has
  the name of the function it models, with a prefix where the name is taken. Record fields carry a short
  prefix. A loop is structural recursion; the two loops over pages have a bound as an argument,
  \<open>length div page + 1\<close> requests for the ledger and 10,000 pages of 200 for the enumeration of
  businesses (the limit of the code), and both are proved to end within it.

  Parameters, never defined here: SHA-256 and HMAC, base64 decoding, the random identifier and the
  clock of a call, the ports of the posting engine (minter, reader, writers), the privileges of a database
  credential. A property that needs more of one than being a function says so: digests of 32
  octets, hexadecimal MACs. No hash is assumed collision free; where it matters the
  conclusion names the collision.

  \<^bold>\<open>What the lemmas show\<close>

  Arithmetic: roundings are the nearest integer with ties to even; a split adds up, is within one unit of
  each quota and is refused exactly when none exists. The interfaces are the locales \<open>rounding_law\<close>,
  \<open>cumulative\<close> (the difference of two rounded cumulative shares), \<open>depletion\<close> (an amount used up in
  steps strands nothing) and \<open>allocator\<close>, interpreted on the code's functions.

  Stock: along a run of accepted movements over many keys (\<open>stock_run\<close>), whose transfers-in are handed
  stored departures, every key stays sound; the rebuild from stored rows is the cached
  state, coverage is first in first out. Settlement: \<open>settle\<close> is the state machine of a purchase, its credit
  notes and the books; its invariant, an instance of \<open>preserved\<close>, says that the books balance, the chains
  pass their verdicts and nothing is stranded. The customer side is the mirror image of the supplier side
  (\<open>mirror_line\<close>), and its lemmas are carried over by it.

  Commands: the encoder accepts exactly what the schema admits, its stream determines the command (locale
  \<open>separated\<close>), and the intent is the stream less the derived lines, for every builder. Locale
  \<open>field_binding\<close> collects the fields that determine what they carry. A signature exists only under an
  authority whose permission and scope were checked, and its claims are those of the member.

  Journal: what the engine hands to its port is sound; the commands the documents post, with snapshots that
  state the plan's rate (\<open>states_rate\<close>), are accepted exactly when no amount exceeds the money cap and the engine
  admits the source of the rate (\<open>source_admitted\<close>; locale \<open>ledger_lines\<close>), so the plan's conversions
  are the engine's. Reports: under the laws of the locale \<open>ledger_reader\<close>, interpreted on the model of the SQL
  reader, the pages of a ledger show every posting once and close at the balance. Reconciliation answers for every check, and its
  checks agree with the reports and with the rebuild, on tables with primary keys but no foreign key assumed.

  Members: every command keeps one contract (\<open>keeps\<close>: sound rows, no permission the giver lacks gained or
  offered by anyone, no new owner, an active owner left), and so does every run of the service.

  \<^bold>\<open>Not modelled\<close>

  The database routines, triggers and migrations (SQL, not TypeScript), but for the acceptance of an invitation and the
  queries of the report and reconciliation readers, of the warehouse scope and of the members and roles, given as functions
  of the rows. The seam that runs a
  routine and a posting in one transaction, the services around it, controllers and the read models of stock,
  purchases, sales, receivables and the point of sale: input and output around what is modelled.
  Onboarding and the structure of branches and warehouses, sessions, plans, delivery, audit and the outbox. The zod schemas of requests, the static
  tables of locales and industries, the lifecycle rules of customers, invoices and slugs in domain-core.
  User interfaces (web, admin, Android), scripts and release gates. Messages of errors and the details in
  them: a refusal is its class and its code.
\<close>

end
